(* ===== verification/Prelude.thy ===== *)
theory Prelude
  imports Complex_Main "HOL-Library.Char_ord" "HOL-Library.List_Lexorder"
    "HOL-Library.Multiset" "HOL-Library.Monad_Syntax"
begin

text \<open>
  Shared vocabulary of the development.

  \<^item> A run of C++ code that may stop on a failed \<^verbatim>\<open>PPK_ASSERT_ERROR\<close> (or on undefined
    behaviour such as dereferencing \<^verbatim>\<open>end()\<close>) is a value of type \<open>'a run\<close>: \<open>None\<close> is the
    aborted process, \<open>Some x\<close> a normal return of \<open>x\<close>.  Runs are chained with the option monad.
  \<^item> \<^verbatim>\<open>Rational\<close> is \<^verbatim>\<open>boost::multiprecision::mpq_rational\<close>, an exact rational: type \<open>rat\<close>.
    A \<^verbatim>\<open>double\<close> is represented by the rational number it denotes; rounding of sums is not modelled.
  \<^item> An \<^verbatim>\<open>IntervalSet\<close> is represented by the set of machine numbers it denotes; its operators
    \<^verbatim>\<open>+ - &\<close>, \<^verbatim>\<open>insert\<close>, \<^verbatim>\<open>remove\<close>, \<^verbatim>\<open>size\<close> and \<^verbatim>\<open>is_subset_of\<close> are the set operations.
    Its selection functions (\<^verbatim>\<open>left\<close>, the interval iterators, \<^verbatim>\<open>biggest_interval\<close>) belong to the
    external library and are parameters of the definitions that use them.
\<close>

type_synonym 'a run = "'a option"
type_synonym machines = "nat set"
type_synonym job_id = string
type_synonym time = rat

text \<open>A failed assertion stops the run.\<close>

definition assertion :: "bool \<Rightarrow> unit run" where
  "assertion b = (if b then Some () else None)"

named_theorems run_simps \<open>unfolding of runs and assertions\<close>
named_theorems slice_simps \<open>field equations of updated time slices\<close>

lemma assertion_simps [simp]:
  "assertion True = Some ()" "assertion False = None"
  by (simp_all add: assertion_def)

lemma assertion_Some_iff [simp]: "assertion b = Some u \<longleftrightarrow> b"
  by (simp add: assertion_def)

lemma bind_eq_Some_iff [run_simps]:
  "Option.bind m f = Some y \<longleftrightarrow> (\<exists>x. m = Some x \<and> f x = Some y)"
  by (cases m) auto

lemma bind_eq_None_iff [run_simps]:
  "Option.bind m f = None \<longleftrightarrow> m = None \<or> (\<exists>x. m = Some x \<and> f x = None)"
  by (cases m) auto

lemma run_bindE:
  assumes "Option.bind r f = Some t" obtains v where "r = Some v" "f v = Some t"
  using assms by (cases r) simp_all

text \<open>A loop over a container whose body may abort.\<close>

fun fold_run :: "('a \<Rightarrow> 's \<Rightarrow> 's run) \<Rightarrow> 'a list \<Rightarrow> 's \<Rightarrow> 's run" where
  "fold_run f [] s = Some s"
| "fold_run f (x # xs) s = Option.bind (f x s) (fold_run f xs)"

lemma fold_run_append:
  "fold_run f (xs @ ys) s = Option.bind (fold_run f xs s) (fold_run f ys)"
  by (induction xs arbitrary: s) (auto split: bind_splits)

text \<open>An invariant kept by the body is kept by the loop, and the loop does not abort.\<close>

lemma fold_run_invariant:
  assumes "\<And>x s. x \<in> set xs \<Longrightarrow> P s \<Longrightarrow> \<exists>s'. f x s = Some s' \<and> P s'" and "P s"
  shows "\<exists>s'. fold_run f xs s = Some s' \<and> P s'"
  using assms
proof (induction xs arbitrary: s)
  case Nil
  then show ?case by simp
next
  case (Cons x xs)
  then obtain s1 where "f x s = Some s1" "P s1" by fastforce
  moreover have "\<exists>s'. fold_run f xs s1 = Some s' \<and> P s'"
    using Cons.IH Cons.prems(1) \<open>P s1\<close> by simp
  ultimately show ?case by simp
qed

lemma fold_run_preserves:
  assumes "fold_run f xs s = Some s'" "P s"
    and "\<And>x s s'. x \<in> set xs \<Longrightarrow> P s \<Longrightarrow> f x s = Some s' \<Longrightarrow> P s'"
  shows "P s'"
  using assms
proof (induction xs arbitrary: s)
  case Nil
  then show ?case by simp
next
  case (Cons x xs)
  then obtain s1 where s1: "f x s = Some s1" "fold_run f xs s1 = Some s'"
    by (auto simp: run_simps)
  have "P s1" using Cons.prems(2,3) s1(1) by (meson list.set_intros(1))
  then show ?case by (rule Cons.IH[OF s1(2)]) (use Cons.prems(3) in auto)
qed

text \<open>A loop that builds a list.\<close>

fun map_run :: "('a \<Rightarrow> 'b run) \<Rightarrow> 'a list \<Rightarrow> 'b list run" where
  "map_run f [] = Some []"
| "map_run f (x # xs) = do { y \<leftarrow> f x; ys \<leftarrow> map_run f xs; Some (y # ys) }"

lemma map_run_length: "map_run f xs = Some ys \<Longrightarrow> length ys = length xs"
  by (induction xs arbitrary: ys) (auto simp: run_simps)

lemma map_run_each: "map_run f xs = Some ys \<Longrightarrow> x \<in> set xs \<Longrightarrow> \<exists>y. f x = Some y"
  by (induction xs arbitrary: ys) (auto split: bind_splits)

lemma map_run_append:
  "map_run f (xs @ zs) = do { ys \<leftarrow> map_run f xs; us \<leftarrow> map_run f zs; Some (ys @ us) }"
  by (induction xs) (auto split: bind_splits)

lemma map_run_total: "\<forall>x \<in> set xs. f x = Some (g x) \<Longrightarrow> map_run f xs = Some (map g xs)"
  by (induction xs) auto

subsection \<open>Stable sorting with a comparison predicate\<close>

text \<open>
  \<^verbatim>\<open>std::list::sort(comp)\<close> of the C++ library: the elements are permuted so that no later
  element compares less than an earlier one, and equivalent elements keep their order.
\<close>

fun insert_by :: "('a \<Rightarrow> 'a \<Rightarrow> bool) \<Rightarrow> 'a \<Rightarrow> 'a list \<Rightarrow> 'a list" where
  "insert_by lt x [] = [x]"
| "insert_by lt x (y # ys) = (if lt y x then y # insert_by lt x ys else x # y # ys)"

definition list_sort :: "('a \<Rightarrow> 'a \<Rightarrow> bool) \<Rightarrow> 'a list \<Rightarrow> 'a list" where
  "list_sort lt xs = foldr (insert_by lt) xs []"

lemma mset_insert_by [simp]: "mset (insert_by lt x xs) = add_mset x (mset xs)"
  by (induction xs) auto

lemma set_insert_by [simp]: "set (insert_by lt x xs) = insert x (set xs)"
  by (metis mset_insert_by set_mset_add_mset_insert set_mset_mset)

lemma mset_list_sort [simp]: "mset (list_sort lt xs) = mset xs"
  by (induction xs) (auto simp: list_sort_def)

lemma set_list_sort [simp]: "set (list_sort lt xs) = set xs"
  by (metis mset_list_sort set_mset_mset)

lemma length_list_sort [simp]: "length (list_sort lt xs) = length xs"
  by (metis mset_list_sort size_mset)

text \<open>What the library asks of a comparison: a strict weak ordering.\<close>

locale strict_weak_order =
  fixes lt :: "'a \<Rightarrow> 'a \<Rightarrow> bool"
  assumes irrefl: "\<not> lt x x"
    and trans: "lt x y \<Longrightarrow> lt y z \<Longrightarrow> lt x z"
    and incomparable_trans:
      "\<lbrakk>\<not> lt x y; \<not> lt y x; \<not> lt y z; \<not> lt z y\<rbrakk> \<Longrightarrow> \<not> lt x z \<and> \<not> lt z x"
begin

lemma asym: "lt x y \<Longrightarrow> \<not> lt y x"
  using irrefl trans by blast

lemma not_lt_trans:
  assumes "\<not> lt y x" "\<not> lt z y"
  shows "\<not> lt z x"
proof
  assume zx: "lt z x"
  have "\<not> lt x y" using assms(2) zx trans by blast
  moreover have "\<not> lt y z" using assms(1) zx trans by blast
  ultimately show False using incomparable_trans[of x y z] assms zx by blast
qed

lemma sorted_insert_by:
  "sorted_wrt (\<lambda>a b. \<not> lt b a) xs \<Longrightarrow> sorted_wrt (\<lambda>a b. \<not> lt b a) (insert_by lt x xs)"
proof (induction xs)
  case Nil
  then show ?case by simp
next
  case (Cons y ys)
  then show ?case using asym not_lt_trans[of y x] by (cases "lt y x") auto
qed

lemma sorted_list_sort: "sorted_wrt (\<lambda>a b. \<not> lt b a) (list_sort lt xs)"
  unfolding list_sort_def by (induction xs) (auto intro: sorted_insert_by)

lemma insert_by_filter:
  "filter (\<lambda>y. \<not> lt y a \<and> \<not> lt a y) (insert_by lt x xs)
    = filter (\<lambda>y. \<not> lt y a \<and> \<not> lt a y) (x # xs)"
  if "sorted_wrt (\<lambda>a b. \<not> lt b a) xs"
  using that
proof (induction xs)
  case Nil
  then show ?case by simp
next
  case (Cons y ys)
  have "\<not> (\<not> lt x a \<and> \<not> lt a x \<and> \<not> lt y a \<and> \<not> lt a y)" if "lt y x"
    using that incomparable_trans by blast
  with Cons show ?case by auto
qed

text \<open>Stability: elements equivalent to any given one keep their order.\<close>

lemma list_sort_stable:
  "filter (\<lambda>y. \<not> lt y a \<and> \<not> lt a y) (list_sort lt xs)
    = filter (\<lambda>y. \<not> lt y a \<and> \<not> lt a y) xs"
proof (induction xs)
  case Nil
  then show ?case by (simp add: list_sort_def)
next
  case (Cons x xs)
  have "list_sort lt (x # xs) = insert_by lt x (list_sort lt xs)"
    by (simp add: list_sort_def)
  then show ?case
    using insert_by_filter[OF sorted_list_sort, of a x xs] Cons by simp
qed

end

subsection \<open>Finite sets and lists\<close>

lemma card_Diff_subset_int:
  "finite A \<Longrightarrow> U \<subseteq> A \<Longrightarrow> int (card (A - U)) = int (card A) - int (card U)"
  by (metis card_Diff_subset card_mono finite_subset of_nat_diff)

lemma card_Un_disjoint_int:
  "finite A \<Longrightarrow> finite B \<Longrightarrow> A \<inter> B = {} \<Longrightarrow> int (card (A \<union> B)) = int (card A) + int (card B)"
  by (simp add: card_Un_disjoint)

lemma finite_subset_atLeastLessThan [intro]: "A \<subseteq> {0..<n::nat} \<Longrightarrow> finite A"
  by (rule finite_subset) auto

subsection \<open>Joining strings\<close>

text \<open>\<^verbatim>\<open>boost::algorithm::join\<close>.\<close>

fun join :: "string \<Rightarrow> string list \<Rightarrow> string" where
  "join sep [] = []"
| "join sep [x] = x"
| "join sep (x # xs) = x @ sep @ join sep xs"

lemma join_Cons: "join sep (x # xs) = x @ (if xs = [] then [] else sep @ join sep xs)"
  by (cases xs) auto

lemma append_sep_eq:
  "c \<notin> set x \<Longrightarrow> c \<notin> set y \<Longrightarrow> x @ c # u = y @ c # v \<longleftrightarrow> x = y \<and> u = v"
proof (induction x arbitrary: y)
  case Nil
  then show ?case by (cases y) auto
next
  case (Cons a x)
  then show ?case by (cases y) auto
qed

text \<open>
  A joined list determines the list when no element contains the separator or is empty; this is
  what comparing joined job identifiers relies on.
\<close>

lemma join_inj:
  assumes "\<forall>x \<in> set xs. x \<noteq> [] \<and> c \<notin> set x" "\<forall>y \<in> set ys. y \<noteq> [] \<and> c \<notin> set y"
    and "join [c] xs = join [c] ys"
  shows "xs = ys"
  using assms
proof (induction xs arbitrary: ys)
  case Nil
  then show ?case by (cases ys) (auto simp: join_Cons)
next
  case (Cons x xs)
  then obtain y ys' where ys: "ys = y # ys'" by (cases ys) (auto simp: join_Cons)
  have eq: "x @ (if xs = [] then [] else c # join [c] xs) = y @ (if ys' = [] then [] else c # join [c] ys')"
    using Cons.prems(3) ys by (auto simp: join_Cons split: if_splits)
  have xy: "c \<notin> set x" "c \<notin> set y" using Cons.prems ys by auto
  have "xs = [] \<longleftrightarrow> ys' = []"
    using arg_cong[OF eq, of "\<lambda>z. c \<in> set z"] xy by (auto split: if_splits)
  then show ?case using eq xy Cons.IH[of ys'] Cons.prems(1,2) ys
    by (auto simp: append_sep_eq split: if_splits)
qed

end
