(* ===== verification/Locality.thy ===== *)
theory Locality
  imports Prelude
begin

text \<open>
  Jobs (\<^verbatim>\<open>json_workload.hpp\<close>) and the resource selectors (\<^verbatim>\<open>locality.hpp\<close>,
  \<^verbatim>\<open>locality.cpp\<close>) of batsched.  The selection functions of the external \<^verbatim>\<open>IntervalSet\<close>
  library are a parameter, a record of type \<open>interval_lib\<close>; the locale \<open>interval_set\<close> states the
  documented behaviour the selectors rely on.  The contract the scheduler relies on is the locale
  \<open>resource_selector\<close>, which each selector of the code satisfies.
\<close>

subsection \<open>Jobs\<close>

text \<open>
  A \<^verbatim>\<open>const Job *\<close> is represented by the job it points to.  A workload holds one object per
  identifier, so pointers are compared by \<open>jid\<close>.  The fields that only concern profiles, JSON
  text and checkpoint files are left out; the mutable member \<^verbatim>\<open>allocations\<close> is kept in the state
  of the schedule, the only component that writes it.
\<close>

record job =
  jid :: job_id
  unique_number :: int
  nb_requested_resources :: int
  walltime :: time
  original_walltime :: time
  has_walltime :: bool
  submission_time :: time
  submission_times :: "time list"
  completion_time :: time
  cores :: int
  purpose :: string
  future_allocations :: machines
  start :: time
  duration :: time

definition is_reservation :: "job \<Rightarrow> bool" where
  "is_reservation j \<longleftrightarrow> purpose j = ''reservation''"

subsection \<open>The external interval library\<close>

text \<open>
  \<open>left_of S k\<close> is \<^verbatim>\<open>S.left(k)\<close>; \<open>intervals S\<close> lists the closed intervals from
  \<^verbatim>\<open>intervals_begin()\<close> to \<^verbatim>\<open>intervals_end()\<close>; \<open>biggest S\<close> is the position in that list of
  the iterator \<^verbatim>\<open>S.biggest_interval()\<close>.
\<close>

record interval_lib =
  left_of :: "machines \<Rightarrow> int \<Rightarrow> machines"
  intervals :: "machines \<Rightarrow> (nat \<times> nat) list"
  biggest :: "machines \<Rightarrow> nat"

locale interval_set =
  fixes lib :: interval_lib
  assumes left_subset: "finite S \<Longrightarrow> left_of lib S k \<subseteq> S"
    and left_card: "finite S \<Longrightarrow> 0 \<le> k \<Longrightarrow> k \<le> int (card S) \<Longrightarrow> int (card (left_of lib S k)) = k"
    and intervals_union: "finite S \<Longrightarrow> (\<Union>(l, u) \<in> set (intervals lib S). {l..u}) = S"
    and intervals_nonempty: "finite S \<Longrightarrow> (l, u) \<in> set (intervals lib S) \<Longrightarrow> l \<le> u"
    and intervals_separated:
      "finite S \<Longrightarrow> sorted_wrt (\<lambda>(l1, u1) (l2, u2). Suc u1 < l2) (intervals lib S)"
    and biggest_valid: "finite S \<Longrightarrow> S \<noteq> {} \<Longrightarrow> biggest lib S < length (intervals lib S)"

subsection \<open>The selectors\<close>

text \<open>
  \<^verbatim>\<open>bool fit(job, available, allocated)\<close> is a run returning \<open>None\<close> for \<^verbatim>\<open>false\<close> and
  \<open>Some allocated\<close> for \<^verbatim>\<open>true\<close>.
\<close>

type_synonym selector = "job \<Rightarrow> machines \<Rightarrow> machines option run"

definition basic_fit :: "interval_lib \<Rightarrow> selector" where
  "basic_fit lib j available =
     (if nb_requested_resources j \<le> int (card available) then do {
        let allocated = left_of lib available (nb_requested_resources j);
        assertion (int (card allocated) = nb_requested_resources j);
        Some (Some allocated) }
      else Some None)"

text \<open>The three selectors have the same code for reservations.\<close>

definition fit_reservation :: selector where
  "fit_reservation j available =
     (if nb_requested_resources j \<le> int (card available) then do {
        assertion (int (card (future_allocations j)) = nb_requested_resources j);
        Some (Some (future_allocations j)) }
      else Some None)"

fun contiguous_scan :: "interval_lib \<Rightarrow> job \<Rightarrow> (nat \<times> nat) list \<Rightarrow> machines option run" where
  "contiguous_scan lib j [] = Some None"
| "contiguous_scan lib j ((l, u) # rest) =
     (if nb_requested_resources j \<le> int u - int l + 1 then do {
        let allocated = left_of lib {l..u} (nb_requested_resources j);
        assertion (int (card allocated) = nb_requested_resources j);
        Some (Some allocated) }
      else contiguous_scan lib j rest)"

definition contiguous_fit :: "interval_lib \<Rightarrow> selector" where
  "contiguous_fit lib j available = contiguous_scan lib j (intervals lib available)"

definition limited_fit :: "interval_lib \<Rightarrow> machines \<Rightarrow> selector" where
  "limited_fit lib limited_range j available =
     (let limited_available = available \<inter> limited_range in
      if nb_requested_resources j \<le> int (card limited_available) then do {
        let allocated = left_of lib limited_available (nb_requested_resources j);
        assertion (int (card allocated) = nb_requested_resources j);
        Some (Some allocated) }
      else Some None)"

text \<open>
  Selecting resources to sedate and to awaken: the same code in the basic and the contiguous
  selector; the limited-range selector refuses every such call.
\<close>

definition select_resources_to_sedate :: "interval_lib \<Rightarrow> int \<Rightarrow> machines \<Rightarrow> machines run" where
  "select_resources_to_sedate lib nb_resources potentially_sedated = do {
     assertion (nb_resources \<le> int (card potentially_sedated));
     let to_sedate = left_of lib potentially_sedated nb_resources;
     assertion (nb_resources = int (card to_sedate));
     Some to_sedate }"

definition select_resources_to_awaken :: "interval_lib \<Rightarrow> int \<Rightarrow> machines \<Rightarrow> machines run" where
  "select_resources_to_awaken lib nb_resources potentially_awaken = do {
     assertion (nb_resources \<le> int (card potentially_awaken));
     let to_awaken = left_of lib potentially_awaken nb_resources;
     assertion (nb_resources = int (card to_awaken));
     Some to_awaken }"

definition basic_awaken_to_make_job_fit ::
  "interval_lib \<Rightarrow> job \<Rightarrow> machines \<Rightarrow> machines \<Rightarrow> machines run" where
  "basic_awaken_to_make_job_fit lib j available potentially_awaken = do {
     to_awaken \<leftarrow> select_resources_to_awaken lib
        (nb_requested_resources j - int (card available)) potentially_awaken;
     fitted \<leftarrow> basic_fit lib j (available \<union> to_awaken);
     assertion (fitted \<noteq> None);
     Some to_awaken }"

definition limited_select :: "machines run" where
  "limited_select = do { assertion False; Some {} }"

text \<open>
  The awakening heuristic of the contiguous selector.  The iterators into
  \<^verbatim>\<open>work_range_available\<close> are positions in its list of intervals; reading through an iterator
  outside the list is undefined and stops the run.  \<open>Inl A\<close> is the early \<^verbatim>\<open>return\<close> with
  \<^verbatim>\<open>to_awaken = A\<close>, \<open>Inr A\<close> the end of the \<^verbatim>\<open>while\<close> loop.  The comparison
  \<^verbatim>\<open>machines_to_awaken == nb_machines_to_awaken\<close> converts the integer to a one-element set.
\<close>

text \<open>The number of machines between an interval and its neighbour, 0 where there is none.\<close>

definition left_gap :: "(nat \<times> nat) list \<Rightarrow> nat \<Rightarrow> int" where
  "left_gap ivs li =
     (if li \<noteq> 0 then int (fst (ivs ! li)) - int (snd (ivs ! (li - 1))) - 1 else 0)"

definition right_gap :: "(nat \<times> nat) list \<Rightarrow> nat \<Rightarrow> int" where
  "right_gap ivs ri =
     (if Suc ri \<noteq> length ivs then int (fst (ivs ! Suc ri)) - int (snd (ivs ! ri)) - 1 else 0)"

definition extend_left :: "(nat \<times> nat) list \<Rightarrow> nat \<Rightarrow> nat \<Rightarrow> bool run" where
  "extend_left ivs li ri =
     (let left_potential_awaken = left_gap ivs li;
          left_potential_available =
            (if li \<noteq> 0 then left_potential_awaken
               + (int (snd (ivs ! (li - 1))) - int (fst (ivs ! (li - 1))) + 1) else 0);
          right_potential_awaken = right_gap ivs ri;
          right_potential_available =
            (if Suc ri \<noteq> length ivs then right_potential_awaken
               + (int (snd (ivs ! Suc ri)) - int (fst (ivs ! Suc ri)) + 1) else 0)
      in if left_potential_awaken = 0 then do {
           assertion (right_potential_awaken > 0); Some False }
         else if right_potential_awaken = 0 then do {
           assertion (left_potential_awaken > 0); Some True }
         else Some (left_potential_available div left_potential_awaken
                    < right_potential_available div right_potential_awaken))"

function awaken_loop ::
  "interval_lib \<Rightarrow> job \<Rightarrow> machines \<Rightarrow> machines \<Rightarrow> (nat \<times> nat) list \<Rightarrow> nat \<Rightarrow> nat \<Rightarrow> int
     \<Rightarrow> machines \<Rightarrow> (machines + machines) run" where
  "awaken_loop lib j available potentially_awaken ivs li ri hole_size to_awaken =
     (if nb_requested_resources j \<le> hole_size then Some (Inr to_awaken)
      else if \<not> (li < length ivs \<and> ri < length ivs) then None
      else case extend_left ivs li ri of None \<Rightarrow> None
      | Some True \<Rightarrow>
          (if nb_requested_resources j \<le> hole_size + right_gap ivs ri then do {
             let nb_machines_to_awaken = nb_requested_resources j - hole_size;
             let first = Suc (snd (ivs ! ri));
             let machines_to_awaken = {first..first + nat nb_machines_to_awaken};
             assertion (machines_to_awaken = {nat nb_machines_to_awaken});
             let to_awaken' = to_awaken \<union> machines_to_awaken;
             assertion (to_awaken' \<inter> potentially_awaken = to_awaken');
             fitted \<leftarrow> contiguous_fit lib j (available \<inter> to_awaken');
             assertion (fitted \<noteq> None);
             Some (Inl to_awaken') }
           else if Suc ri = length ivs then None
           else if {Suc (snd (ivs ! ri))..<fst (ivs ! Suc ri)} = {} then None
           else awaken_loop lib j available potentially_awaken ivs li (Suc ri)
                  (hole_size + int (card {Suc (snd (ivs ! ri))..<fst (ivs ! Suc ri)}))
                  (to_awaken \<union> {Suc (snd (ivs ! ri))..<fst (ivs ! Suc ri)}))
      | Some False \<Rightarrow>
          (if nb_requested_resources j \<le> hole_size + left_gap ivs li then
             (if li = 0 then None else do {
             let nb_machines_to_awaken = nb_requested_resources j - hole_size;
             let first = Suc (snd (ivs ! (li - 1)));
             let machines_to_awaken = {first..first + nat nb_machines_to_awaken};
             assertion (machines_to_awaken = {nat nb_machines_to_awaken});
             let to_awaken' = to_awaken \<union> machines_to_awaken;
             assertion (to_awaken' \<inter> potentially_awaken = to_awaken');
             fitted \<leftarrow> contiguous_fit lib j (available \<inter> to_awaken');
             assertion (fitted \<noteq> None);
             Some (Inl to_awaken') })
           else if li = 0 then None
           else if {Suc (snd (ivs ! (li - 1)))..<fst (ivs ! li)} = {} then None
           else awaken_loop lib j available potentially_awaken ivs (li - 1) ri
                  (hole_size + int (card {Suc (snd (ivs ! (li - 1)))..<fst (ivs ! li)}))
                  (to_awaken \<union> {Suc (snd (ivs ! (li - 1)))..<fst (ivs ! li)})))"
  by pat_completeness auto
termination
  by (relation "measure (\<lambda>(lib, j, av, pot, ivs, li, ri, hole, acc). li + (length ivs - ri))") auto

declare awaken_loop.simps [simp del]

definition contiguous_awaken_to_make_job_fit ::
  "interval_lib \<Rightarrow> job \<Rightarrow> machines \<Rightarrow> machines \<Rightarrow> machines \<Rightarrow> machines run" where
  "contiguous_awaken_to_make_job_fit lib j available potentially_awaken to_awaken = do {
     let fully_awaken_range = available \<union> potentially_awaken;
     assertion (biggest lib fully_awaken_range < length (intervals lib fully_awaken_range));
     let (l, u) = intervals lib fully_awaken_range ! biggest lib fully_awaken_range;
     let work_range = {l..u};
     assertion (nb_requested_resources j \<le> int (card work_range));
     fitted \<leftarrow> contiguous_fit lib j available;
     r \<leftarrow> (if fitted \<noteq> None then Some (Inr to_awaken)
          else do {
            let work_range_available = work_range \<inter> available;
            let ivs = intervals lib work_range_available;
            let it = biggest lib work_range_available;
            assertion (it < length ivs);
            awaken_loop lib j available potentially_awaken ivs it it
              (int (snd (ivs ! it)) - int (fst (ivs ! it)) + 1) to_awaken });
     (case r of
        Inl A \<Rightarrow> Some A
      | Inr A \<Rightarrow> do {
          assertion (A \<inter> potentially_awaken = A);
          fitted' \<leftarrow> contiguous_fit lib j (available \<inter> A);
          assertion (fitted' \<noteq> None);
          Some A }) }"

subsection \<open>The contract of a selector\<close>

text \<open>
  What the schedule relies on: a selector never aborts on a finite set and a non-negative
  request; what it returns is made of available machines and has the requested size; a request
  that is refused stays refused when fewer machines are available; and only the requested number
  of resources of the job matters.
\<close>

locale resource_selector =
  fixes fit :: selector
  assumes fit_returns:
      "finite A \<Longrightarrow> 0 \<le> nb_requested_resources j \<Longrightarrow> fit j A \<noteq> None"
    and fit_subset:
      "finite A \<Longrightarrow> 0 \<le> nb_requested_resources j \<Longrightarrow> fit j A = Some (Some U) \<Longrightarrow> U \<subseteq> A"
    and fit_card:
      "finite A \<Longrightarrow> 0 \<le> nb_requested_resources j \<Longrightarrow> fit j A = Some (Some U) \<Longrightarrow>
         int (card U) = nb_requested_resources j"
    and fit_refuses_less:
      "finite A \<Longrightarrow> 0 \<le> nb_requested_resources j \<Longrightarrow> fit j A = Some None \<Longrightarrow> B \<subseteq> A \<Longrightarrow>
         fit j B = Some None"
    and fit_request_only:
      "nb_requested_resources j = nb_requested_resources j' \<Longrightarrow> fit j = fit j'"
begin

lemma fit_cases:
  assumes "finite A" "0 \<le> nb_requested_resources j"
  obtains (refused) "fit j A = Some None"
    | (fitted) U where "fit j A = Some (Some U)" "U \<subseteq> A" "int (card U) = nb_requested_resources j"
proof (cases "fit j A")
  case None
  then show thesis using fit_returns[OF assms] by simp
next
  case (Some r)
  then show thesis
    using refused fitted fit_subset[OF assms] fit_card[OF assms] by (cases r) auto
qed

lemma fit_enough:
  assumes "finite A" "0 \<le> nb_requested_resources j" "fit j A = Some (Some U)"
  shows "nb_requested_resources j \<le> int (card A)"
  using fit_card[OF assms] card_mono[OF assms(1) fit_subset[OF assms]] by simp

end

text \<open>A selector that accepts every request of at most the available size.\<close>

locale greedy_selector = resource_selector +
  assumes fit_accepts:
    "finite A \<Longrightarrow> 0 \<le> nb_requested_resources j \<Longrightarrow> nb_requested_resources j \<le> int (card A) \<Longrightarrow>
       \<exists>U. fit j A = Some (Some U)"
begin

lemma fit_iff:
  "finite A \<Longrightarrow> 0 \<le> nb_requested_resources j \<Longrightarrow>
     (\<exists>U. fit j A = Some (Some U)) \<longleftrightarrow> nb_requested_resources j \<le> int (card A)"
  using fit_accepts fit_enough by blast

end

context interval_set
begin

lemma intervals_subset: "finite S \<Longrightarrow> (l, u) \<in> set (intervals lib S) \<Longrightarrow> {l..u} \<subseteq> S"
  using intervals_union by blast

lemma intervals_empty [simp]: "intervals lib {} = []"
proof (rule ccontr)
  assume "intervals lib {} \<noteq> []"
  then obtain l u where "(l, u) \<in> set (intervals lib {})"
    by (metis list.set_intros(1) neq_Nil_conv surj_pair)
  then show False using intervals_nonempty[of "{}"] intervals_subset[of "{}"] by fastforce
qed

text \<open>Two listed intervals are equal or separated by at least one machine.\<close>

lemma intervals_apart:
  assumes "finite S" "(l1, u1) \<in> set (intervals lib S)" "(l2, u2) \<in> set (intervals lib S)"
  shows "(l1, u1) = (l2, u2) \<or> Suc u1 < l2 \<or> Suc u2 < l1"
proof -
  obtain a b where "a < length (intervals lib S)" "intervals lib S ! a = (l1, u1)"
    and "b < length (intervals lib S)" "intervals lib S ! b = (l2, u2)"
    using assms(2,3) by (meson in_set_conv_nth)
  then show ?thesis
    using sorted_wrt_nth_less[OF intervals_separated[OF assms(1)], of a b]
      sorted_wrt_nth_less[OF intervals_separated[OF assms(1)], of b a]
    by (cases a b rule: linorder_cases) auto
qed

lemma interval_covered:
  assumes S: "finite S" and sub: "{l..u} \<subseteq> S" and "l \<le> u"
  shows "\<exists>(l', u') \<in> set (intervals lib S). {l..u} \<subseteq> {l'..u'}"
proof -
  have "l \<in> (\<Union>(l, u) \<in> set (intervals lib S). {l..u})"
    using intervals_union[OF S] sub \<open>l \<le> u\<close> by auto
  then obtain l' u' where i: "(l', u') \<in> set (intervals lib S)" and l: "l' \<le> l" "l \<le> u'"
    by auto
  have "u \<le> u'"
  proof (rule ccontr)
    assume "\<not> u \<le> u'"
    then have "Suc u' \<in> (\<Union>(l, u) \<in> set (intervals lib S). {l..u})"
      using intervals_union[OF S] sub l by auto
    then obtain l2 u2 where "(l2, u2) \<in> set (intervals lib S)" "l2 \<le> Suc u'" "Suc u' \<le> u2"
      by auto
    then show False using intervals_apart[OF S i, of l2 u2] intervals_nonempty[OF S i] by auto
  qed
  with i l show ?thesis by (intro bexI[of _ "(l', u')"]) auto
qed

lemma basic_fit_eq:
  "finite A \<Longrightarrow> 0 \<le> nb_requested_resources j \<Longrightarrow> basic_fit lib j A =
     Some (if nb_requested_resources j \<le> int (card A)
           then Some (left_of lib A (nb_requested_resources j)) else None)"
  by (simp add: basic_fit_def left_card)

lemma contiguous_scan_None_iff:
  assumes "0 \<le> nb_requested_resources j" "\<forall>(l, u) \<in> set ivs. l \<le> u"
  shows "contiguous_scan lib j ivs = Some None \<longleftrightarrow>
     (\<forall>(l, u) \<in> set ivs. int u - int l + 1 < nb_requested_resources j)"
  using assms(2)
proof (induction ivs rule: list.induct)
  case Nil
  then show ?case by simp
next
  case (Cons i ivs)
  obtain l u where i: "i = (l, u)" by (cases i)
  have "int (card {l..u}) = int u - int l + 1" using Cons.prems i by auto
  then show ?case using Cons i left_card[of "{l..u}" "nb_requested_resources j"] assms(1)
    by (auto simp: run_simps)
qed

lemma contiguous_scan_Some:
  assumes "0 \<le> nb_requested_resources j" "\<forall>(l, u) \<in> set ivs. l \<le> u"
  shows "contiguous_scan lib j ivs \<noteq> None \<and>
    (\<forall>U. contiguous_scan lib j ivs = Some (Some U) \<longrightarrow>
       (\<exists>(l, u) \<in> set ivs. U \<subseteq> {l..u}) \<and> int (card U) = nb_requested_resources j)"
  using assms(2)
proof (induction ivs rule: list.induct)
  case Nil
  then show ?case by simp
next
  case (Cons i ivs)
  obtain l u where i: "i = (l, u)" by (cases i)
  have "int (card {l..u}) = int u - int l + 1" using Cons.prems i by auto
  then show ?case using Cons i left_card[of "{l..u}" "nb_requested_resources j"]
      left_subset[of "{l..u}"] assms(1)
    by (auto simp: run_simps)
qed

lemma contiguous_fit_None_iff:
  assumes "finite A" "0 \<le> nb_requested_resources j"
  shows "contiguous_fit lib j A = Some None \<longleftrightarrow>
     (\<forall>(l, u) \<in> set (intervals lib A). int u - int l + 1 < nb_requested_resources j)"
  unfolding contiguous_fit_def
  by (rule contiguous_scan_None_iff) (use assms intervals_nonempty in auto)

text \<open>The contiguous selector refuses exactly the requests longer than every free interval.\<close>

lemma contiguous_fit_complete:
  assumes A: "finite A" and r: "1 \<le> nb_requested_resources j"
  shows "contiguous_fit lib j A = Some None \<longleftrightarrow>
     \<not> (\<exists>l u. {l..u} \<subseteq> A \<and> int (card {l..u}) = nb_requested_resources j)"
proof
  assume n: "contiguous_fit lib j A = Some None"
  show "\<not> (\<exists>l u. {l..u} \<subseteq> A \<and> int (card {l..u}) = nb_requested_resources j)"
  proof
    assume "\<exists>l u. {l..u} \<subseteq> A \<and> int (card {l..u}) = nb_requested_resources j"
    then obtain l u where lu: "{l..u} \<subseteq> A" "int (card {l..u}) = nb_requested_resources j"
      by blast
    then have "l \<le> u" using r by (cases "l \<le> u") auto
    then obtain l' u' where i: "(l', u') \<in> set (intervals lib A)" "{l..u} \<subseteq> {l'..u'}"
      using interval_covered[OF A lu(1)] by blast
    have "int (card {l..u}) \<le> int (card {l'..u'})" using card_mono[OF _ i(2)] by simp
    also have "\<dots> = int u' - int l' + 1" using intervals_nonempty[OF A i(1)] by auto
    finally show False using n i(1) lu(2) contiguous_fit_None_iff[OF A, of j] r by fastforce
  qed
next
  assume no: "\<not> (\<exists>l u. {l..u} \<subseteq> A \<and> int (card {l..u}) = nb_requested_resources j)"
  have "int u - int l + 1 < nb_requested_resources j" if i: "(l, u) \<in> set (intervals lib A)" for l u
  proof (rule ccontr)
    assume big: "\<not> int u - int l + 1 < nb_requested_resources j"
    define v where "v = l + nat (nb_requested_resources j) - 1"
    have "v \<le> u" using big r v_def by linarith
    moreover have "int (card {l..v}) = nb_requested_resources j" using r v_def by auto
    ultimately show False using no intervals_subset[OF A i] by (meson atLeastatMost_subset_iff order_refl order_trans)
  qed
  then show "contiguous_fit lib j A = Some None" using contiguous_fit_None_iff[OF A] r by fastforce
qed

end

sublocale interval_set \<subseteq> basic: greedy_selector "basic_fit lib"
proof (unfold_locales, goal_cases)
  case (4 A j B)
  then have "finite B" "card B \<le> card A" by (auto intro: finite_subset card_mono)
  with 4 show ?case by (auto simp: basic_fit_eq split: if_splits)
qed (auto simp: basic_fit_eq left_card left_subset[THEN subsetD] fun_eq_iff basic_fit_def split: if_splits)

sublocale interval_set \<subseteq> limited: resource_selector "limited_fit lib R"
proof -
  have eq: "limited_fit lib R j A = Some (if nb_requested_resources j \<le> int (card (A \<inter> R))
      then Some (left_of lib (A \<inter> R) (nb_requested_resources j)) else None)"
    if "finite A" "0 \<le> nb_requested_resources j" for A j
    using that by (simp add: limited_fit_def Let_def left_card)
  show "resource_selector (limited_fit lib R)"
  proof (unfold_locales, goal_cases)
    case (1 A j)
    then show ?case by (simp add: eq)
  next
    case (2 A j U)
    then show ?case using left_subset[of "A \<inter> R"] by (auto simp: eq split: if_splits)
  next
    case (3 A j U)
    then show ?case by (auto simp: eq left_card split: if_splits)
  next
    case (4 A j B)
    then have "finite B" "card (B \<inter> R) \<le> card (A \<inter> R)"
      by (auto intro: finite_subset card_mono)
    with 4 show ?case by (auto simp: eq split: if_splits)
  next
    case (5 j j')
    then show ?case by (simp add: limited_fit_def fun_eq_iff Let_def)
  qed
qed

sublocale interval_set \<subseteq> contiguous: resource_selector "contiguous_fit lib"
proof (unfold_locales, goal_cases)
  case (1 A j)
  then show ?case unfolding contiguous_fit_def
    using contiguous_scan_Some[of j "intervals lib A"] intervals_nonempty by auto
next
  case (2 A j U)
  then show ?case using contiguous_scan_Some[of j "intervals lib A"] intervals_nonempty[of A]
      intervals_subset[of A] unfolding contiguous_fit_def by fastforce
next
  case (3 A j U)
  then show ?case using contiguous_scan_Some[of j "intervals lib A"] intervals_nonempty[of A]
    unfolding contiguous_fit_def by fastforce
next
  case (4 A j B)
  have B: "finite B" using 4 finite_subset by blast
  have "int u - int l + 1 < nb_requested_resources j" if i: "(l, u) \<in> set (intervals lib B)" for l u
  proof -
    obtain l' u' where i': "(l', u') \<in> set (intervals lib A)" "{l..u} \<subseteq> {l'..u'}"
      using interval_covered[OF 4(1), of l u] intervals_subset[OF B i] intervals_nonempty[OF B i] 4(4)
      by blast
    then have "int u - int l \<le> int u' - int l'"
      using intervals_nonempty[OF B i] by auto
    then show ?thesis using 4(3) i'(1) contiguous_fit_None_iff[OF 4(1,2)] by fastforce
  qed
  then show ?case using contiguous_fit_None_iff[OF B 4(2)] by blast
next
  case (5 j j')
  have "contiguous_scan lib j ivs = contiguous_scan lib j' ivs" for ivs
    using 5 by (induction ivs) (auto simp: fun_eq_iff)
  then show ?case by (simp add: contiguous_fit_def fun_eq_iff)
qed

subsection \<open>A model of the interval library\<close>

text \<open>
  The hypotheses of \<open>interval_set\<close> hold for the obvious reading of the library: the least
  elements of a set, and its maximal runs of consecutive numbers.
\<close>

fun runs_of :: "nat list \<Rightarrow> (nat \<times> nat) list" where
  "runs_of [] = []"
| "runs_of (x # xs) =
     (case runs_of xs of
        [] \<Rightarrow> [(x, x)]
      | (l, u) # r \<Rightarrow> if l = Suc x then (x, u) # r else (x, x) # (l, u) # r)"

definition least_elements :: "machines \<Rightarrow> int \<Rightarrow> machines" where
  "least_elements S k = set (take (nat k) (sorted_list_of_set S))"

fun position_of_longest :: "(nat \<times> nat) list \<Rightarrow> nat" where
  "position_of_longest [] = 0"
| "position_of_longest [i] = 0"
| "position_of_longest (i # is) =
     (let p = position_of_longest is in
      if snd (is ! p) - fst (is ! p) > snd i - fst i then Suc p else 0)"

definition std_lib :: interval_lib where
  "std_lib = \<lparr>left_of = least_elements,
     intervals = (\<lambda>S. runs_of (sorted_list_of_set S)),
     biggest = (\<lambda>S. position_of_longest (runs_of (sorted_list_of_set S)))\<rparr>"

lemma runs_of_first: "xs \<noteq> [] \<Longrightarrow> runs_of xs \<noteq> [] \<and> fst (hd (runs_of xs)) = hd xs"
  by (induction xs) (auto split: list.splits)

lemma runs_of_spec:
  assumes "sorted_wrt (<) xs"
  shows "(\<Union>(l, u) \<in> set (runs_of xs). {l..u}) = set xs \<and> (\<forall>(l, u) \<in> set (runs_of xs). l \<le> u)
    \<and> sorted_wrt (\<lambda>(l1, u1) (l2, u2). Suc u1 < l2) (runs_of xs)
    \<and> (\<forall>(l, u) \<in> set (runs_of xs). hd xs \<le> l)"
  using assms
proof (induction xs)
  case Nil
  then show ?case by simp
next
  case (Cons x xs)
  show ?case
  proof (cases "runs_of xs")
    case Nil
    then have "xs = []" using runs_of_first by blast
    then show ?thesis by simp
  next
    case (Cons i r)
    obtain l u where i: "i = (l, u)" by (cases i)
    have "xs \<noteq> []" using Cons by auto
    then have l: "hd xs = l" "x < l" using runs_of_first[of xs] Cons i Cons.prems by (cases xs; auto)+
    note IH = Cons.IH[simplified Cons i l] and s = Cons.prems
    have lu: "l \<le> u" using IH s by auto
    have "(\<Union>(l, u) \<in> set (runs_of (x # xs)). {l..u}) = insert x (set xs)"
    proof (cases "l = Suc x")
      case True
      then have "{x..u} = insert x {l..u}" using lu by auto
      then show ?thesis using IH s Cons i True by auto
    next
      case False
      then show ?thesis using IH s Cons i by auto
    qed
    moreover have "\<forall>(l', u') \<in> set r. l < l'" using IH s lu by fastforce
    ultimately show ?thesis using IH s Cons i l by (auto split: if_splits)
  qed
qed

lemma position_of_longest_valid: "is \<noteq> [] \<Longrightarrow> position_of_longest is < length is"
  by (induction "is" rule: position_of_longest.induct) (auto simp: Let_def)

interpretation std: interval_set std_lib
proof (unfold_locales, goal_cases)
  case (1 S k)
  then show ?case using set_take_subset by (fastforce simp: std_lib_def least_elements_def)
next
  case (2 S k)
  have "distinct (take (nat k) (sorted_list_of_set S))" by simp
  then show ?case using 2
    by (simp add: std_lib_def least_elements_def distinct_card[unfolded comp_def])
next
  case (3 S)
  then show ?case using runs_of_spec[of "sorted_list_of_set S"] by (simp add: std_lib_def)
next
  case (4 S l u)
  then show ?case using runs_of_spec[of "sorted_list_of_set S"] by (auto simp: std_lib_def)
next
  case (5 S)
  then show ?case using runs_of_spec[of "sorted_list_of_set S"] by (simp add: std_lib_def)
next
  case (6 S)
  then have "sorted_list_of_set S \<noteq> []" by simp
  then show ?case using position_of_longest_valid runs_of_first by (simp add: std_lib_def)
qed

subsection \<open>The awakening heuristic\<close>

text \<open>
  Inside the loop the hole stays shorter than the request, so it can only be left by the early
  return, whose assertion compares a range of at least two machines with a single number.
\<close>

context interval_set
begin

lemma contiguous_selector: "resource_selector (contiguous_fit lib)"
  by (rule contiguous.resource_selector_axioms)

lemma contiguous_fit_interval:
  assumes "finite A" "0 \<le> nb_requested_resources j" "contiguous_fit lib j A = Some (Some U)"
  shows "\<exists>l u. U \<subseteq> {l..u} \<and> {l..u} \<subseteq> A"
proof -
  obtain l u where "(l, u) \<in> set (intervals lib A)" "U \<subseteq> {l..u}"
    using contiguous_scan_Some[of j "intervals lib A"] intervals_nonempty[OF assms(1)] assms(2,3)
    unfolding contiguous_fit_def by fastforce
  then show ?thesis using intervals_subset[OF assms(1)] by blast
qed

lemma range_not_singleton: "1 \<le> n \<Longrightarrow> {a..a + n} \<noteq> {m::nat}"
proof
  assume "1 \<le> n" and eq: "{a..a + n} = {m}"
  have "card {a..a + n} = Suc n" by simp
  with eq \<open>1 \<le> n\<close> show False by simp
qed

lemma right_gap_card:
  assumes "Suc ri < length ivs" "{Suc (snd (ivs ! ri))..<fst (ivs ! Suc ri)} \<noteq> {}"
  shows "int (card {Suc (snd (ivs ! ri))..<fst (ivs ! Suc ri)}) = right_gap ivs ri"
  using assms by (auto simp: right_gap_def)

lemma left_gap_card:
  assumes "li \<noteq> 0" "{Suc (snd (ivs ! (li - 1)))..<fst (ivs ! li)} \<noteq> {}"
  shows "int (card {Suc (snd (ivs ! (li - 1)))..<fst (ivs ! li)}) = left_gap ivs li"
  using assms by (auto simp: left_gap_def)

lemma awaken_loop_never_returns:
  "hole < nb_requested_resources j \<Longrightarrow> awaken_loop lib' j av pot ivs li ri hole acc = None"
proof (induction lib' j av pot ivs li ri hole acc rule: awaken_loop.induct)
  case (1 lib' j av pot ivs li ri hole acc)
  show ?case
  proof (cases "li < length ivs \<and> ri < length ivs")
    case False
    then show ?thesis using "1.prems" by (simp add: awaken_loop.simps)
  next
    case valid: True
    have n: "1 \<le> nat (nb_requested_resources j - hole)" using "1.prems" by simp
    show ?thesis
    proof (cases "extend_left ivs li ri")
      case None
      then show ?thesis using "1.prems" by (simp add: awaken_loop.simps)
    next
      case (Some b)
      show ?thesis
      proof (cases b)
        case True
        show ?thesis
        proof (cases "nb_requested_resources j \<le> hole + right_gap ivs ri")
          case True
          then show ?thesis using Some \<open>b\<close> "1.prems" range_not_singleton[OF n]
            by (simp add: awaken_loop.simps)
        next
          case False
          then show ?thesis
            using "1.IH"(1)[of b] right_gap_card[of ri ivs] Some \<open>b\<close> "1.prems" valid
            by (subst awaken_loop.simps) auto
        qed
      next
        case nb: False
        show ?thesis
        proof (cases "nb_requested_resources j \<le> hole + left_gap ivs li")
          case True
          then show ?thesis using Some nb "1.prems" range_not_singleton[OF n]
            by (simp add: awaken_loop.simps)
        next
          case False
          then show ?thesis
            using "1.IH"(2)[of b] left_gap_card[of li ivs] Some nb "1.prems" valid
            by (subst awaken_loop.simps) auto
        qed
      qed
    qed
  qed
qed

lemma awaken_to_make_job_fit_aborts:
  assumes av: "finite available" and r: "1 \<le> nb_requested_resources j"
  shows "contiguous_awaken_to_make_job_fit lib j available pot {} = None"
proof -
  have empty: "contiguous_fit lib j {} = Some None" by (simp add: contiguous_fit_def)
  have hole: "int (snd (intervals lib (W \<inter> available) ! i))
      - int (fst (intervals lib (W \<inter> available) ! i)) + 1 < nb_requested_resources j"
    if "contiguous_fit lib j available = Some None" "i < length (intervals lib (W \<inter> available))"
    for W i
  proof -
    have "contiguous_fit lib j (W \<inter> available) = Some None"
      using contiguous.fit_refuses_less[OF av _ that(1)] r by auto
    then show ?thesis
      using contiguous_fit_None_iff[of "W \<inter> available" j] r av nth_mem[OF that(2)] by fastforce
  qed
  show ?thesis
    unfolding contiguous_awaken_to_make_job_fit_def
    by (rule contiguous.fit_cases[OF av, of j])
      (use r in \<open>auto simp: Let_def run_simps empty hole awaken_loop_never_returns split: prod.splits\<close>)
qed

end

text \<open>A job with a given identifier, size and walltime, for the examples.\<close>

definition plain_job :: "job_id \<Rightarrow> int \<Rightarrow> time \<Rightarrow> job" where
  "plain_job i k wt = \<lparr>jid = i, unique_number = 0, nb_requested_resources = k,
     walltime = wt, original_walltime = wt, has_walltime = True, submission_time = 0,
     submission_times = [0], completion_time = - 1, cores = 1, purpose = ''job'',
     future_allocations = {}, start = - 1, duration = wt\<rparr>"

lemma plain_job_simps [simp]:
  "jid (plain_job i k wt) = i" "nb_requested_resources (plain_job i k wt) = k"
  "walltime (plain_job i k wt) = wt" "has_walltime (plain_job i k wt)"
  by (simp_all add: plain_job_def)

subsection \<open>Properties\<close>

text \<open>
  C26: the contiguous selector refuses a job exactly when no interval of the requested length is
  free; otherwise it returns an interval of that length, made of free machines.
\<close>

theorem contiguous_fit_correct:
  assumes "interval_set lib" "finite A" "1 \<le> nb_requested_resources j"
  shows "(contiguous_fit lib j A = Some None \<longleftrightarrow>
       \<not> (\<exists>l u. {l..u} \<subseteq> A \<and> int (card {l..u}) = nb_requested_resources j)) \<and>
    (\<exists>r. contiguous_fit lib j A = Some r \<and>
       (\<forall>U. r = Some U \<longrightarrow> U \<subseteq> A \<and> int (card U) = nb_requested_resources j \<and>
          (\<exists>l u. U \<subseteq> {l..u} \<and> {l..u} \<subseteq> A)))"
proof -
  have r: "0 \<le> nb_requested_resources j" using assms(3) by simp
  note c = interval_set.contiguous_selector[OF assms(1)]
  obtain r where "contiguous_fit lib j A = Some r" using resource_selector.fit_returns[OF c assms(2) r] by auto
  moreover have "U \<subseteq> A \<and> int (card U) = nb_requested_resources j \<and> (\<exists>l u. U \<subseteq> {l..u} \<and> {l..u} \<subseteq> A)"
    if "r = Some U" for U
    using resource_selector.fit_subset[OF c assms(2) r] resource_selector.fit_card[OF c assms(2) r]
      interval_set.contiguous_fit_interval[OF assms(1,2) r] calculation that by blast
  ultimately show ?thesis using interval_set.contiguous_fit_complete[OF assms] by blast
qed

theorem contiguous_fit_correct_witness:
  "contiguous_fit std_lib (plain_job ''a'' 2 1) {0, 1, 3} \<noteq> Some None"
proof -
  have "{0..1} \<subseteq> {0, 1, 3::nat} \<and> int (card {0..1::nat}) = 2" by (auto simp: le_Suc_eq)
  then show ?thesis
    using contiguous_fit_correct[OF std.interval_set_axioms, of "{0, 1, 3}" "plain_job ''a'' 2 1"]
    by (metis finite.emptyI finite.insertI one_le_numeral plain_job_simps(2))
qed

text \<open>
  waking machines up for a job under the contiguous policy always aborts: whatever the free and
  the sleeping machines, one of the assertions of the function fails.
\<close>

theorem contiguous_awaken_aborts:
  assumes "interval_set lib" "finite available" "1 \<le> nb_requested_resources j"
  shows "contiguous_awaken_to_make_job_fit lib j available pot {} = None"
  by (rule interval_set.awaken_to_make_job_fit_aborts[OF assms])

theorem contiguous_awaken_aborts_witness:
  "contiguous_awaken_to_make_job_fit std_lib (plain_job ''a'' 2 1) {0, 1} {2, 3} {} = None"
  by (rule contiguous_awaken_aborts[OF std.interval_set_axioms]) simp_all

end
