(* ===== verification/Job_Queue.thy ===== *)
theory Job_Queue
  imports Locality
begin

text \<open>
  The waiting queue of the schedulers (\<^verbatim>\<open>queue.hpp\<close>, \<^verbatim>\<open>queue.cpp\<close>): the sortable jobs, the
  nine orders and the operations of \<^verbatim>\<open>Queue\<close>.  Every order is shown to be what
  \<^verbatim>\<open>std::list::sort\<close> asks of a comparison (\<open>strict_weak_order\<close>), and sorting the queue to refresh
  the slowdowns and to leave the jobs in the order that the name of the order says.
\<close>

subsection \<open>Sortable jobs and orders\<close>

record sortable_job =
  sj_job :: job
  release_date :: time
  release_dates :: "time list"
  slowdown :: time
  bounded_slowdown :: time

definition update_slowdown :: "time \<Rightarrow> sortable_job \<Rightarrow> sortable_job" where
  "update_slowdown current_date sj = sj\<lparr>slowdown := current_date - release_date sj\<rparr>"

text \<open>A division by zero of \<^verbatim>\<open>mpq_rational\<close> throws.\<close>

definition update_bounded_slowdown :: "time \<Rightarrow> time \<Rightarrow> sortable_job \<Rightarrow> sortable_job run" where
  "update_bounded_slowdown current_date execution_time_lower_bound sj =
     (if execution_time_lower_bound = 0 then None
      else Some (sj\<lparr>bounded_slowdown :=
        (current_date - release_date sj) / execution_time_lower_bound\<rparr>))"

datatype job_order =
    FCFSOrder
  | OriginalFCFSOrder
  | LCFSOrder
  | DescendingBoundedSlowdownOrder time
  | DescendingSlowdownOrder
  | AscendingSizeOrder
  | DescendingSizeOrder
  | AscendingWalltimeOrder
  | DescendingWalltimeOrder

definition FCFSOrder_compare :: "sortable_job \<Rightarrow> sortable_job \<Rightarrow> bool" where
  "FCFSOrder_compare j1 j2 =
     (if release_date j1 = release_date j2 then jid (sj_job j1) < jid (sj_job j2)
      else release_date j1 < release_date j2)"

definition OriginalFCFSOrder_compare :: "sortable_job \<Rightarrow> sortable_job \<Rightarrow> bool" where
  "OriginalFCFSOrder_compare j1 j2 =
     (if hd (release_dates j1) = hd (release_dates j2) then jid (sj_job j1) < jid (sj_job j2)
      else hd (release_dates j1) < hd (release_dates j2))"

definition LCFSOrder_compare :: "sortable_job \<Rightarrow> sortable_job \<Rightarrow> bool" where
  "LCFSOrder_compare j1 j2 =
     (if release_date j1 = release_date j2 then jid (sj_job j1) < jid (sj_job j2)
      else release_date j1 > release_date j2)"

definition DescendingBoundedSlowdownOrder_compare :: "sortable_job \<Rightarrow> sortable_job \<Rightarrow> bool" where
  "DescendingBoundedSlowdownOrder_compare j1 j2 =
     (if bounded_slowdown j1 = bounded_slowdown j2 then jid (sj_job j1) < jid (sj_job j2)
      else bounded_slowdown j1 > bounded_slowdown j2)"

definition DescendingSlowdownOrder_compare :: "sortable_job \<Rightarrow> sortable_job \<Rightarrow> bool" where
  "DescendingSlowdownOrder_compare j1 j2 =
     (if slowdown j1 = slowdown j2 then jid (sj_job j1) < jid (sj_job j2)
      else slowdown j1 > slowdown j2)"

definition AscendingSizeOrder_compare :: "sortable_job \<Rightarrow> sortable_job \<Rightarrow> bool" where
  "AscendingSizeOrder_compare j1 j2 =
     (if nb_requested_resources (sj_job j1) = nb_requested_resources (sj_job j2)
      then jid (sj_job j1) < jid (sj_job j2)
      else nb_requested_resources (sj_job j1) < nb_requested_resources (sj_job j2))"

definition DescendingSizeOrder_compare :: "sortable_job \<Rightarrow> sortable_job \<Rightarrow> bool" where
  "DescendingSizeOrder_compare j1 j2 =
     (if nb_requested_resources (sj_job j1) = nb_requested_resources (sj_job j2)
      then jid (sj_job j1) < jid (sj_job j2)
      else nb_requested_resources (sj_job j1) > nb_requested_resources (sj_job j2))"

definition AscendingWalltimeOrder_compare :: "sortable_job \<Rightarrow> sortable_job \<Rightarrow> bool" where
  "AscendingWalltimeOrder_compare j1 j2 =
     (if walltime (sj_job j1) = walltime (sj_job j2) then jid (sj_job j1) < jid (sj_job j2)
      else walltime (sj_job j1) < walltime (sj_job j2))"

definition DescendingWalltimeOrder_compare :: "sortable_job \<Rightarrow> sortable_job \<Rightarrow> bool" where
  "DescendingWalltimeOrder_compare j1 j2 =
     (if walltime (sj_job j1) = walltime (sj_job j2) then jid (sj_job j1) < jid (sj_job j2)
      else walltime (sj_job j1) > walltime (sj_job j2))"

text \<open>The virtual calls \<^verbatim>\<open>_order->compare\<close> and \<^verbatim>\<open>_order->updateJob\<close>.\<close>

fun order_compare :: "job_order \<Rightarrow> sortable_job \<Rightarrow> sortable_job \<Rightarrow> bool" where
  "order_compare FCFSOrder = FCFSOrder_compare"
| "order_compare OriginalFCFSOrder = OriginalFCFSOrder_compare"
| "order_compare LCFSOrder = LCFSOrder_compare"
| "order_compare (DescendingBoundedSlowdownOrder _) = DescendingBoundedSlowdownOrder_compare"
| "order_compare DescendingSlowdownOrder = DescendingSlowdownOrder_compare"
| "order_compare AscendingSizeOrder = AscendingSizeOrder_compare"
| "order_compare DescendingSizeOrder = DescendingSizeOrder_compare"
| "order_compare AscendingWalltimeOrder = AscendingWalltimeOrder_compare"
| "order_compare DescendingWalltimeOrder = DescendingWalltimeOrder_compare"

fun order_updateJob :: "job_order \<Rightarrow> time \<Rightarrow> sortable_job \<Rightarrow> sortable_job run" where
  "order_updateJob (DescendingBoundedSlowdownOrder min_job_length) current_date sj =
     update_bounded_slowdown current_date min_job_length sj"
| "order_updateJob DescendingSlowdownOrder current_date sj =
     Some (update_slowdown current_date sj)"
| "order_updateJob _ current_date sj = Some sj"

text \<open>\<^verbatim>\<open>release_dates[0]\<close> is undefined on an empty vector.\<close>

definition order_reads_ok :: "job_order \<Rightarrow> sortable_job list \<Rightarrow> bool" where
  "order_reads_ok ord sjs =
     (ord = OriginalFCFSOrder \<and> 1 < length sjs \<longrightarrow> (\<forall>sj \<in> set sjs. release_dates sj \<noteq> []))"

subsection \<open>The operations of the queue\<close>

record queue =
  q_jobs :: "sortable_job list"
  q_order :: job_order

definition new_queue :: "job_order \<Rightarrow> queue" where
  "new_queue ord = \<lparr>q_jobs = [], q_order = ord\<rparr>"

definition append_job :: "job \<Rightarrow> time \<Rightarrow> queue \<Rightarrow> queue" where
  "append_job j current_date q =
     q\<lparr>q_jobs := q_jobs q @ [\<lparr>sj_job = j, release_date = current_date,
        release_dates = submission_times j, slowdown = 0, bounded_slowdown = 0\<rparr>]\<rparr>"

text \<open>\<^verbatim>\<open>std::find_if\<close>: the position of the first element that satisfies the predicate.\<close>

fun find_if :: "('a \<Rightarrow> bool) \<Rightarrow> 'a list \<Rightarrow> nat" where
  "find_if P [] = 0"
| "find_if P (x # xs) = (if P x then 0 else Suc (find_if P xs))"

text \<open>Erasing through an iterator returns the iterator that follows; \<open>length\<close> is \<^verbatim>\<open>end()\<close>.\<close>

definition remove_job_at :: "nat \<Rightarrow> queue \<Rightarrow> (nat \<times> queue) run" where
  "remove_job_at i q = do {
     assertion (i < length (q_jobs q));
     Some (i, q\<lparr>q_jobs := take i (q_jobs q) @ drop (Suc i) (q_jobs q)\<rparr>) }"

definition queue_remove_job :: "job \<Rightarrow> queue \<Rightarrow> (nat \<times> queue) run" where
  "queue_remove_job j q = do {
     let i = find_if (\<lambda>sj. jid (sj_job sj) = jid j) (q_jobs q);
     assertion (i \<noteq> length (q_jobs q));
     remove_job_at i q }"

definition clear_queue :: "queue \<Rightarrow> queue" where
  "clear_queue q = q\<lparr>q_jobs := []\<rparr>"

fun update_all :: "job_order \<Rightarrow> time \<Rightarrow> sortable_job list \<Rightarrow> sortable_job list run" where
  "update_all ord date [] = Some []"
| "update_all ord date (sj # sjs) = do {
     sj' \<leftarrow> order_updateJob ord date sj;
     sjs' \<leftarrow> update_all ord date sjs;
     Some (sj' # sjs') }"

definition sort_queue :: "time \<Rightarrow> queue \<Rightarrow> queue run" where
  "sort_queue current_date q = do {
     sjs \<leftarrow> update_all (q_order q) current_date (q_jobs q);
     assertion (order_reads_ok (q_order q) sjs);
     Some (q\<lparr>q_jobs := list_sort (order_compare (q_order q)) sjs\<rparr>) }"

definition first_job :: "queue \<Rightarrow> job run" where
  "first_job q = do {
     assertion (0 < length (q_jobs q));
     Some (sj_job (hd (q_jobs q))) }"

text \<open>\<open>Some None\<close> is the returned \<^verbatim>\<open>nullptr\<close>.\<close>

definition first_job_or_nullptr :: "queue \<Rightarrow> job option run" where
  "first_job_or_nullptr q =
     (if length (q_jobs q) = 0 then Some None
      else do { j \<leftarrow> first_job q; Some (Some j) })"

definition contains_job :: "job \<Rightarrow> queue \<Rightarrow> bool" where
  "contains_job j q \<longleftrightarrow>
     find_if (\<lambda>sj. jid (sj_job sj) = jid j) (q_jobs q) \<noteq> length (q_jobs q)"

definition is_empty :: "queue \<Rightarrow> bool" where
  "is_empty q \<longleftrightarrow> length (q_jobs q) = 0"

definition nb_jobs :: "queue \<Rightarrow> int" where
  "nb_jobs q = int (length (q_jobs q))"

definition compute_load_estimation :: "queue \<Rightarrow> time" where
  "compute_load_estimation q =
     fold (\<lambda>sj load. load + rat_of_int (nb_requested_resources (sj_job sj)) * walltime (sj_job sj))
       (q_jobs q) 0"

definition queue_to_string :: "queue \<Rightarrow> string" where
  "queue_to_string q = ''['' @ join '', '' (map (\<lambda>sj. jid (sj_job sj)) (q_jobs q)) @ '']''"

definition queue_to_json_string :: "queue \<Rightarrow> string" where
  "queue_to_json_string q =
     ''['' @ join '', '' (map (\<lambda>sj. [CHR 0x22] @ jid (sj_job sj) @ [CHR 0x22]) (q_jobs q)) @ '']''"

definition set_release_date_on_job :: "nat \<Rightarrow> time \<Rightarrow> queue \<Rightarrow> queue run" where
  "set_release_date_on_job i date q = do {
     assertion (i < length (q_jobs q));
     Some (q\<lparr>q_jobs := (q_jobs q)[i := (q_jobs q ! i)\<lparr>release_date := date\<rparr>]\<rparr>) }"

definition get_current_queue :: "queue \<Rightarrow> job list \<Rightarrow> job list" where
  "get_current_queue q tmp_queue = tmp_queue @ map sj_job (q_jobs q)"

text \<open>The jobs waiting in the queue, in order.\<close>

definition queued :: "queue \<Rightarrow> job list" where
  "queued q = map sj_job (q_jobs q)"

subsection \<open>The orders are strict weak orders, total on distinct identifiers\<close>

text \<open>All nine comparisons have one shape: a key, then the identifier.\<close>

lemma keyed_strict_weak_order:
  fixes key :: "'a \<Rightarrow> 'k::linorder" and name :: "'a \<Rightarrow> 'n::linorder"
  shows "strict_weak_order (\<lambda>x y. if key x = key y then name x < name y else key x < key y)"
    and "strict_weak_order (\<lambda>x y. if key x = key y then name x < name y else key y < key x)"
  by (unfold_locales; auto split: if_splits)+

interpretation fcfs: strict_weak_order FCFSOrder_compare
  unfolding FCFSOrder_compare_def[abs_def] by (rule keyed_strict_weak_order)

interpretation original_fcfs: strict_weak_order OriginalFCFSOrder_compare
  unfolding OriginalFCFSOrder_compare_def[abs_def]
  by (rule keyed_strict_weak_order(1)[of "\<lambda>j. hd (release_dates j)" "\<lambda>j. jid (sj_job j)"])

interpretation lcfs: strict_weak_order LCFSOrder_compare
  unfolding LCFSOrder_compare_def[abs_def] by (rule keyed_strict_weak_order)

interpretation bounded_slowdown: strict_weak_order DescendingBoundedSlowdownOrder_compare
  unfolding DescendingBoundedSlowdownOrder_compare_def[abs_def] by (rule keyed_strict_weak_order)

interpretation slowdown: strict_weak_order DescendingSlowdownOrder_compare
  unfolding DescendingSlowdownOrder_compare_def[abs_def] by (rule keyed_strict_weak_order)

interpretation ascending_size: strict_weak_order AscendingSizeOrder_compare
  unfolding AscendingSizeOrder_compare_def[abs_def]
  by (rule keyed_strict_weak_order(1)[of "\<lambda>j. nb_requested_resources (sj_job j)" "\<lambda>j. jid (sj_job j)"])

interpretation descending_size: strict_weak_order DescendingSizeOrder_compare
  unfolding DescendingSizeOrder_compare_def[abs_def]
  by (rule keyed_strict_weak_order(2)[of "\<lambda>j. nb_requested_resources (sj_job j)" "\<lambda>j. jid (sj_job j)"])

interpretation ascending_walltime: strict_weak_order AscendingWalltimeOrder_compare
  unfolding AscendingWalltimeOrder_compare_def[abs_def]
  by (rule keyed_strict_weak_order(1)[of "\<lambda>j. walltime (sj_job j)" "\<lambda>j. jid (sj_job j)"])

interpretation descending_walltime: strict_weak_order DescendingWalltimeOrder_compare
  unfolding DescendingWalltimeOrder_compare_def[abs_def]
  by (rule keyed_strict_weak_order(2)[of "\<lambda>j. walltime (sj_job j)" "\<lambda>j. jid (sj_job j)"])

interpretation any_order: strict_weak_order "order_compare ord"
  by (cases ord) (simp_all add: fcfs.strict_weak_order_axioms original_fcfs.strict_weak_order_axioms
      lcfs.strict_weak_order_axioms bounded_slowdown.strict_weak_order_axioms
      slowdown.strict_weak_order_axioms ascending_size.strict_weak_order_axioms
      descending_size.strict_weak_order_axioms ascending_walltime.strict_weak_order_axioms
      descending_walltime.strict_weak_order_axioms)

lemmas compare_defs = FCFSOrder_compare_def OriginalFCFSOrder_compare_def LCFSOrder_compare_def
  DescendingBoundedSlowdownOrder_compare_def DescendingSlowdownOrder_compare_def
  AscendingSizeOrder_compare_def DescendingSizeOrder_compare_def
  AscendingWalltimeOrder_compare_def DescendingWalltimeOrder_compare_def

lemma order_compare_total:
  "jid (sj_job a) \<noteq> jid (sj_job b) \<Longrightarrow> order_compare ord a b \<or> order_compare ord b a"
  by (cases ord) (auto simp: compare_defs)

subsection \<open>Lemmas on the operations\<close>

lemma queued_simps [simp]:
  "queued (new_queue ord) = []"
  "queued (append_job j d q) = queued q @ [j]"
  "queued (clear_queue q) = []"
  by (simp_all add: queued_def new_queue_def append_job_def clear_queue_def)

lemma find_if_le: "find_if P xs \<le> length xs"
  by (induction xs) auto

lemma find_if_spec:
  "find_if P xs < length xs \<Longrightarrow> P (xs ! find_if P xs) \<and> (\<forall>i < find_if P xs. \<not> P (xs ! i))"
proof (induction xs)
  case Nil
  then show ?case by simp
next
  case (Cons x xs)
  then show ?case by (auto simp: less_Suc_eq_0_disj)
qed

lemma find_if_absent: "find_if P xs = length xs \<longleftrightarrow> (\<forall>x \<in> set xs. \<not> P x)"
  by (induction xs) auto

lemma contains_job_iff: "contains_job j q \<longleftrightarrow> jid j \<in> jid ` set (queued q)"
proof -
  have "contains_job j q \<longleftrightarrow> (\<exists>sj \<in> set (q_jobs q). jid (sj_job sj) = jid j)"
    by (simp add: contains_job_def find_if_absent)
  also have "\<dots> \<longleftrightarrow> (\<exists>k \<in> set (queued q). jid k = jid j)" by (simp add: queued_def)
  finally show ?thesis by (metis image_iff)
qed

lemma queue_remove_job_returns:
  "queue_remove_job j q \<noteq> None \<longleftrightarrow> contains_job j q"
  using find_if_le[of "\<lambda>sj. jid (sj_job sj) = jid j" "q_jobs q"]
  by (auto simp: queue_remove_job_def contains_job_def remove_job_at_def Let_def run_simps
      assertion_def)

text \<open>Erasing the first element with a given key, when no other has it, filters it out.\<close>

lemma find_if_removed:
  "distinct (map f xs) \<Longrightarrow> find_if (\<lambda>x. f x = k) xs < length xs \<Longrightarrow>
     take (find_if (\<lambda>x. f x = k) xs) xs @ drop (Suc (find_if (\<lambda>x. f x = k) xs)) xs
       = filter (\<lambda>x. f x \<noteq> k) xs"
proof (induction xs)
  case Nil
  then show ?case by simp
next
  case (Cons x xs)
  have "filter (\<lambda>y. f y \<noteq> k) xs = xs" if "f x = k"
    using Cons.prems(1) that by (intro filter_True) (auto simp: image_iff)
  then show ?case using Cons by auto
qed

lemma update_all_jobs: "update_all ord d sjs = Some sjs' \<Longrightarrow> map sj_job sjs' = map sj_job sjs"
proof (induction sjs arbitrary: sjs')
  case Nil
  then show ?case by simp
next
  case (Cons sj sjs)
  obtain sj' rest where *: "order_updateJob ord d sj = Some sj'" "update_all ord d sjs = Some rest"
    "sjs' = sj' # rest" using Cons.prems by (auto simp: run_simps)
  have "sj_job sj' = sj_job sj" using *(1)
    by (cases ord) (auto simp: update_slowdown_def update_bounded_slowdown_def split: if_splits)
  then show ?case using Cons.IH *(2,3) by simp
qed

lemma sort_queue_Some:
  assumes "sort_queue d q = Some q'"
  obtains sjs where "update_all (q_order q) d (q_jobs q) = Some sjs"
    "q_jobs q' = list_sort (order_compare (q_order q)) sjs" "q_order q' = q_order q"
  using assms by (auto simp: sort_queue_def run_simps)

lemma sort_queue_mset: "sort_queue d q = Some q' \<Longrightarrow> mset (queued q') = mset (queued q)"
  by (erule sort_queue_Some) (metis queued_def mset_list_sort mset_map update_all_jobs)

lemma sort_queue_set: "sort_queue d q = Some q' \<Longrightarrow> set (queued q') = set (queued q)"
  using sort_queue_mset mset_eq_setD by blast

lemma sorted_wrt_strict:
  "sorted_wrt (\<lambda>a b. \<not> lt b a) xs \<Longrightarrow> distinct (map f xs) \<Longrightarrow>
     (\<And>a b. f a \<noteq> f b \<Longrightarrow> lt a b \<or> lt b a) \<Longrightarrow> sorted_wrt lt xs"
  by (induction xs) (auto simp: image_iff)

subsection \<open>Properties of the queue\<close>

text \<open>
  What the orders mean.  \<open>refreshed\<close> is a job whose slowdown, where the order uses it, is that of the
  current date; \<open>order_key\<close> is the number by which the jobs of a sorted queue ascend.  A descending
  order has a negated number; the slowdowns are computed from the dates, not read from the jobs.
\<close>

definition refreshed :: "job_order \<Rightarrow> time \<Rightarrow> sortable_job \<Rightarrow> sortable_job" where
  "refreshed ord d sj = (case ord of
       DescendingSlowdownOrder \<Rightarrow> sj\<lparr>slowdown := d - release_date sj\<rparr>
     | DescendingBoundedSlowdownOrder m \<Rightarrow> sj\<lparr>bounded_slowdown := (d - release_date sj) / m\<rparr>
     | _ \<Rightarrow> sj)"

fun order_key :: "job_order \<Rightarrow> time \<Rightarrow> sortable_job \<Rightarrow> rat" where
  "order_key FCFSOrder d sj = release_date sj"
| "order_key OriginalFCFSOrder d sj = hd (release_dates sj)"
| "order_key LCFSOrder d sj = - release_date sj"
| "order_key (DescendingBoundedSlowdownOrder m) d sj = - ((d - release_date sj) / m)"
| "order_key DescendingSlowdownOrder d sj = - (d - release_date sj)"
| "order_key AscendingSizeOrder d sj = of_int (nb_requested_resources (sj_job sj))"
| "order_key DescendingSizeOrder d sj = - of_int (nb_requested_resources (sj_job sj))"
| "order_key AscendingWalltimeOrder d sj = walltime (sj_job sj)"
| "order_key DescendingWalltimeOrder d sj = - walltime (sj_job sj)"

definition comes_before :: "job_order \<Rightarrow> time \<Rightarrow> sortable_job \<Rightarrow> sortable_job \<Rightarrow> bool" where
  "comes_before ord d a b \<longleftrightarrow> order_key ord d a < order_key ord d b \<or>
     (order_key ord d a = order_key ord d b \<and> jid (sj_job a) < jid (sj_job b))"

lemma refreshed_rest [simp]:
  "sj_job (refreshed ord d sj) = sj_job sj" "release_date (refreshed ord d sj) = release_date sj"
  by (cases ord; simp add: refreshed_def)+

lemma update_all_refreshes: "update_all ord d sjs = Some sjs' \<Longrightarrow> sjs' = map (refreshed ord d) sjs"
proof (induction sjs arbitrary: sjs')
  case (Cons sj sjs)
  obtain sj' rest where *: "order_updateJob ord d sj = Some sj'" "update_all ord d sjs = Some rest"
    "sjs' = sj' # rest" using Cons.prems by (auto simp: run_simps)
  have "sj' = refreshed ord d sj" using *(1)
    by (cases ord) (auto simp: update_slowdown_def update_bounded_slowdown_def refreshed_def split: if_splits)
  then show ?case using Cons.IH *(2,3) by simp
qed simp

text \<open>The comparison of the code, on refreshed jobs, is the order by the number.\<close>

lemma compare_refreshed:
  "order_compare ord (refreshed ord d a) (refreshed ord d b) \<longleftrightarrow>
     comes_before ord d (refreshed ord d a) (refreshed ord d b)"
  by (cases ord) (auto simp: compare_defs comes_before_def refreshed_def)

text \<open>
  C25: \<^verbatim>\<open>Queue::sort_queue\<close> keeps the order of the queue and its jobs, refreshes their slowdowns at the
  current date when the order is by slowdown and changes nothing else of them, and leaves them, when
  their identifiers differ, in the order the name says: by release date, first release date, size or
  walltime, ascending or descending, or by descending slowdown at the current date, and by
  identifier among equals.
\<close>

theorem sort_queue_correct:
  assumes "sort_queue d q = Some q'" and "distinct (map jid (queued q))"
  shows "q_order q' = q_order q \<and>
    mset (q_jobs q') = mset (map (refreshed (q_order q) d) (q_jobs q)) \<and>
    sorted_wrt (comes_before (q_order q) d) (q_jobs q')"
proof -
  let ?ord = "q_order q"
  obtain sjs where sjs: "update_all ?ord d (q_jobs q) = Some sjs"
    "q_jobs q' = list_sort (order_compare ?ord) sjs" "q_order q' = ?ord"
    using assms(1) by (rule sort_queue_Some)
  have r: "sjs = map (refreshed ?ord d) (q_jobs q)" using sjs(1) by (rule update_all_refreshes)
  have m: "mset (q_jobs q') = mset sjs" by (simp add: sjs(2))
  have "mset (queued q') = mset (queued q)" using assms(1) by (rule sort_queue_mset)
  then have "distinct (map jid (queued q'))" using assms(2) by (metis mset_eq_imp_distinct_iff mset_map)
  then have "distinct (map (\<lambda>sj. jid (sj_job sj)) (q_jobs q'))" by (simp add: queued_def comp_def)
  then have "sorted_wrt (order_compare ?ord) (q_jobs q')"
    using any_order.sorted_list_sort order_compare_total sjs(2) by (metis sorted_wrt_strict)
  moreover have "comes_before ?ord d a b" if "a \<in> set (q_jobs q')" "b \<in> set (q_jobs q')" "order_compare ?ord a b" for a b
    using that mset_eq_setD[OF m] compare_refreshed[of ?ord d] unfolding r by auto
  ultimately have "sorted_wrt (comes_before ?ord d) (q_jobs q')" by (rule sorted_wrt_mono_rel[rotated])
  then show ?thesis using sjs(3) m r by simp
qed

lemma queue_remove_job_correct_facts:
  assumes "distinct (map jid (queued q))"
  shows "queue_remove_job j q \<noteq> None \<longleftrightarrow> contains_job j q"
    and "queue_remove_job j q = Some (i, q') \<Longrightarrow>
      queued q' = filter (\<lambda>k. jid k \<noteq> jid j) (queued q) \<and> \<not> contains_job j q' \<and>
      take i (queued q') = take i (queued q) \<and> drop i (queued q') = drop (Suc i) (queued q) \<and>
      jid (queued q ! i) = jid j"
proof -
  let ?f = "\<lambda>sj. jid (sj_job sj)"
  show "queue_remove_job j q \<noteq> None \<longleftrightarrow> contains_job j q" by (rule queue_remove_job_returns)
  assume "queue_remove_job j q = Some (i, q')"
  then have i: "i = find_if (\<lambda>sj. ?f sj = jid j) (q_jobs q)" "i < length (q_jobs q)"
    and q': "q_jobs q' = take i (q_jobs q) @ drop (Suc i) (q_jobs q)"
    by (auto simp: queue_remove_job_def remove_job_at_def Let_def run_simps)
  have "distinct (map ?f (q_jobs q))" using assms by (simp add: queued_def comp_def)
  then have f: "q_jobs q' = filter (\<lambda>sj. ?f sj \<noteq> jid j) (q_jobs q)"
    using find_if_removed[of ?f "q_jobs q" "jid j"] i q' by simp
  then have "queued q' = filter (\<lambda>k. jid k \<noteq> jid j) (queued q)"
    by (simp add: queued_def filter_map comp_def)
  moreover have "jid (queued q ! i) = jid j"
    using find_if_spec[of "\<lambda>sj. ?f sj = jid j" "q_jobs q"] i by (simp add: queued_def)
  moreover have "take i (queued q') = take i (queued q) \<and> drop i (queued q') = drop (Suc i) (queued q)"
    using i(2) q' by (simp add: queued_def take_map drop_map min_def)
  ultimately show "queued q' = filter (\<lambda>k. jid k \<noteq> jid j) (queued q) \<and> \<not> contains_job j q' \<and>
      take i (queued q') = take i (queued q) \<and> drop i (queued q') = drop (Suc i) (queued q) \<and>
      jid (queued q ! i) = jid j" by (auto simp: contains_job_iff)
qed

text \<open>
  \<^verbatim>\<open>Queue::remove_job\<close> succeeds exactly for a job of the queue; it then takes out that job
  only, the others keep their order, and the returned iterator is where the job stood.
\<close>

theorem queue_remove_job_correct:
  assumes "distinct (map jid (queued q))"
  shows "(queue_remove_job j q \<noteq> None \<longleftrightarrow> contains_job j q) \<and>
    (queue_remove_job j q = Some (i, q') \<longrightarrow>
       (queued q' = filter (\<lambda>k. jid k \<noteq> jid j) (queued q) \<and> \<not> contains_job j q' \<and>
      take i (queued q') = take i (queued q) \<and> drop i (queued q') = drop (Suc i) (queued q) \<and>
      jid (queued q ! i) = jid j))"
  by (intro conjI impI; use queue_remove_job_correct_facts[OF assms] in blast)

subsection \<open>Example\<close>

definition sample_queue :: queue where
  "sample_queue = append_job (plain_job ''b'' 1 1) 0
     (append_job (plain_job ''a'' 3 1) 0 (new_queue AscendingSizeOrder))"

lemma sample_queue_simps [simp]:
  "queued sample_queue = [plain_job ''a'' 3 1, plain_job ''b'' 1 1]"
  "q_order sample_queue = AscendingSizeOrder"
  by (simp_all add: sample_queue_def append_job_def new_queue_def queued_def)

definition slow_queue :: queue where
  "slow_queue = append_job (plain_job ''b'' 1 1) 1 (append_job (plain_job ''a'' 3 1) 4 (new_queue DescendingSlowdownOrder))"

text \<open>By size the second job comes first; by slowdown at date 9 too, with the slowdowns 8 and 5.\<close>

lemma two_sorted:
  assumes "mset xs = mset [a, b]" "sorted_wrt lt xs" "\<not> lt a b" "a \<noteq> b"
  shows "xs = [b, a]"
proof -
  have "length xs = 2" "set xs = {a, b}" using mset_eq_length[OF assms(1)] mset_eq_setD[OF assms(1)] by simp_all
  then obtain u v where "xs = [u, v]" "{u, v} = {a, b}" by (cases xs; cases "tl xs") auto
  then show ?thesis using assms(2-4) by (auto simp: doubleton_eq_iff)
qed

theorem sort_queue_correct_witness:
  "(\<exists>q'. sort_queue 0 sample_queue = Some q' \<and> map (\<lambda>sj. jid (sj_job sj)) (q_jobs q') = [''b'', ''a'']) \<and>
   (\<exists>q'. sort_queue 9 slow_queue = Some q' \<and> map slowdown (q_jobs q') = [8, 5])"
proof
  obtain q' where q': "sort_queue 0 sample_queue = Some q'"
    by (simp add: sort_queue_def sample_queue_def append_job_def new_queue_def order_reads_ok_def)
  have "distinct (map jid (queued sample_queue))" by simp
  from sort_queue_correct[OF q' this]
  have s: "mset (q_jobs q') = mset (map (refreshed AscendingSizeOrder 0) (q_jobs sample_queue))"
    "sorted_wrt (comes_before AscendingSizeOrder 0) (q_jobs q')" by simp_all
  obtain a b where ab: "map (refreshed AscendingSizeOrder 0) (q_jobs sample_queue) = [a, b]"
    "sj_job a = plain_job ''a'' 3 1" "sj_job b = plain_job ''b'' 1 1"
    by (simp add: sample_queue_def append_job_def new_queue_def refreshed_def)
  have "\<not> comes_before AscendingSizeOrder 0 a b" "a \<noteq> b" using ab(2,3) by (auto simp: comes_before_def plain_job_def)
  then have "q_jobs q' = [b, a]" by (rule two_sorted[OF s[unfolded ab(1)]])
  then show "\<exists>q'. sort_queue 0 sample_queue = Some q' \<and> map (\<lambda>sj. jid (sj_job sj)) (q_jobs q') = [''b'', ''a'']"
    using q' ab(2,3) by (intro exI[of _ q']) simp
  obtain p' where p': "sort_queue 9 slow_queue = Some p'"
    by (simp add: sort_queue_def slow_queue_def append_job_def new_queue_def order_reads_ok_def)
  have "distinct (map jid (queued slow_queue))" "q_order slow_queue = DescendingSlowdownOrder"
    by (simp_all add: slow_queue_def append_job_def new_queue_def queued_def)
  from sort_queue_correct[OF p' this(1)] this(2)
  have s: "mset (q_jobs p') = mset (map (refreshed DescendingSlowdownOrder 9) (q_jobs slow_queue))"
    "sorted_wrt (comes_before DescendingSlowdownOrder 9) (q_jobs p')" by simp_all
  obtain a b where ab: "map (refreshed DescendingSlowdownOrder 9) (q_jobs slow_queue) = [a, b]"
    "release_date a = 4" "slowdown a = 5" "release_date b = 1" "slowdown b = 8"
    by (simp add: slow_queue_def append_job_def new_queue_def refreshed_def)
  have "\<not> comes_before DescendingSlowdownOrder 9 a b" "a \<noteq> b" using ab(2-5) by (auto simp: comes_before_def)
  then have "q_jobs p' = [b, a]" by (rule two_sorted[OF s[unfolded ab(1)]])
  then show "\<exists>q'. sort_queue 9 slow_queue = Some q' \<and> map slowdown (q_jobs q') = [8, 5]"
    using p' ab(3,5) by (intro exI[of _ p']) simp
qed

theorem queue_remove_job_correct_witness:
  "\<exists>i q'. queue_remove_job (plain_job ''a'' 3 1) sample_queue = Some (i, q') \<and> map jid (queued q') = [''b'']"
proof -
  let ?j = "plain_job ''a'' 3 1"
  have d: "distinct (map jid (queued sample_queue))" by simp
  have "contains_job ?j sample_queue" by (simp add: contains_job_iff)
  then have "queue_remove_job ?j sample_queue \<noteq> None"
    using queue_remove_job_correct[OF d, of ?j] by blast
  then obtain i q' where q': "queue_remove_job ?j sample_queue = Some (i, q')" by auto
  then have "queued q' = filter (\<lambda>k. jid k \<noteq> jid ?j) (queued sample_queue)"
    using queue_remove_job_correct[OF d, of ?j i q'] by blast
  then show ?thesis using q' by simp
qed

end
