(* ===== verification/Profile.thy ===== *)
theory Profile
  imports Job_Queue
begin

text \<open>
  The profile of a schedule (\<^verbatim>\<open>schedule.hpp\<close>, \<^verbatim>\<open>schedule.cpp\<close>): time slices, the map of the
  jobs allocated in a slice, the state of a schedule, its constructor, its queries and the
  splitting of a slice.  The abstract view of a profile is \<open>occupied\<close>: which job holds which
  machines at which time.
\<close>

subsection \<open>The map of allocated jobs\<close>

text \<open>
  \<^verbatim>\<open>std::map<const Job *, IntervalSet, JobComparator>\<close> is kept by increasing identifier.
  Assigning to a key that is present keeps the key.
\<close>

type_synonym job_map = "(job \<times> machines) list"

definition job_comparator :: "job \<Rightarrow> job \<Rightarrow> bool" where
  "job_comparator j1 j2 \<longleftrightarrow> jid j1 < jid j2"

fun jm_get :: "job_id \<Rightarrow> job_map \<Rightarrow> machines option" where
  "jm_get i [] = None"
| "jm_get i ((k, U) # m) = (if jid k = i then Some U else jm_get i m)"

fun jm_put :: "job \<Rightarrow> machines \<Rightarrow> job_map \<Rightarrow> job_map" where
  "jm_put j U [] = [(j, U)]"
| "jm_put j U ((k, V) # m) =
     (if job_comparator j k then (j, U) # (k, V) # m
      else if job_comparator k j then (k, V) # jm_put j U m
      else (k, U) # m)"

definition jm_erase :: "job_id \<Rightarrow> job_map \<Rightarrow> job_map" where
  "jm_erase i m = filter (\<lambda>(k, U). jid k \<noteq> i) m"

definition jm_ids :: "job_map \<Rightarrow> job_id list" where
  "jm_ids m = map (\<lambda>(k, U). jid k) m"

definition jm_ok :: "job_map \<Rightarrow> bool" where
  "jm_ok m \<longleftrightarrow> sorted_wrt (<) (jm_ids m)"

lemma jm_ids_simps [simp]: "jm_ids [] = []" "jm_ids ((k, U) # m) = jid k # jm_ids m"
  by (simp_all add: jm_ids_def)

lemma jm_ok_simps [simp]:
  "jm_ok []" "jm_ok ((k, U) # m) \<longleftrightarrow> (\<forall>i \<in> set (jm_ids m). jid k < i) \<and> jm_ok m"
  by (simp_all add: jm_ok_def)

lemma jm_get_None_iff: "jm_get i m = None \<longleftrightarrow> i \<notin> set (jm_ids m)"
  by (induction i m rule: jm_get.induct) auto

lemma jm_get_Some_mem: "jm_get i m = Some U \<Longrightarrow> \<exists>k. (k, U) \<in> set m \<and> jid k = i"
  by (induction i m rule: jm_get.induct) (auto split: if_splits)

lemma jm_mem_get: "jm_ok m \<Longrightarrow> (k, U) \<in> set m \<Longrightarrow> jm_get (jid k) m = Some U"
proof (induction m)
  case (Cons a m)
  obtain k' U' where a: "a = (k', U')" by (cases a)
  show ?case
  proof (cases "(k, U) = a")
    case True
    then show ?thesis by auto
  next
    case False
    then have "(k, U) \<in> set m" using Cons.prems(2) by auto
    then have "jid k \<in> set (jm_ids m)" by (force simp: jm_ids_def)
    then have "jid k' \<noteq> jid k" using Cons.prems(1) a by auto
    then show ?thesis using Cons.IH Cons.prems(1) \<open>(k, U) \<in> set m\<close> a by simp
  qed
qed simp

lemma jm_put_ids: "jm_ok m \<Longrightarrow> set (jm_ids (jm_put j U m)) = insert (jid j) (set (jm_ids m))"
  by (induction j U m rule: jm_put.induct) (auto simp: job_comparator_def)

lemma jm_put_ok: "jm_ok m \<Longrightarrow> jm_ok (jm_put j U m)"
proof (induction j U m rule: jm_put.induct)
  case (2 j U k V m)
  then show ?case using jm_put_ids[of m j U] by (auto simp: job_comparator_def)
qed simp

lemma jm_get_put: "jm_ok m \<Longrightarrow> jm_get i (jm_put j U m) = (if i = jid j then Some U else jm_get i m)"
proof (induction j U m rule: jm_put.induct)
  case (2 j U k V m)
  then show ?case using antisym_conv3[of "jid j" "jid k"] by (auto simp: job_comparator_def)
qed simp

lemma jm_erase_ids: "set (jm_ids (jm_erase i m)) = set (jm_ids m) - {i}"
  by (auto simp: jm_ids_def jm_erase_def)

lemma jm_erase_ok: "jm_ok m \<Longrightarrow> jm_ok (jm_erase i m)"
proof (induction m)
  case (Cons a m)
  then show ?case using jm_erase_ids[of i m] by (cases a) (auto simp: jm_erase_def)
qed (simp add: jm_erase_def)

lemma jm_get_erase: "jm_get i' (jm_erase i m) = (if i' = i then None else jm_get i' m)"
  by (induction m) (auto simp: jm_erase_def)

lemma jm_erase_put_absent:
  "jm_ok m \<Longrightarrow> jid j \<notin> set (jm_ids m) \<Longrightarrow> jm_erase (jid j) (jm_put j U m) = m"
proof (induction j U m rule: jm_put.induct)
  case (2 j U k V m)
  then have "filter (\<lambda>(k, U). jid k \<noteq> jid j) m = m"
    by (intro filter_True ballI) (use 2(3) in \<open>auto simp: jm_ids_def image_iff split: prod.splits\<close>)
  with 2 show ?case using antisym_conv3[of "jid j" "jid k"]
    by (auto simp: job_comparator_def jm_erase_def)
qed (simp add: jm_erase_def)

text \<open>Two maps with the same keys and values have the same identifiers and sets.\<close>

lemma jm_ok_ids_eq: "jm_ok m \<Longrightarrow> jm_ok m' \<Longrightarrow> set (jm_ids m) = set (jm_ids m') \<Longrightarrow> jm_ids m = jm_ids m'"
  unfolding jm_ok_def by (metis sorted_distinct_set_unique strict_sorted_iff)

subsection \<open>Time slices and schedules\<close>

record time_slice =
  begin_of :: time
  end_of :: time
  length_of :: time
  has_reservation :: bool
  nb_reservations :: int
  available_machines :: machines
  allocated_machines :: machines
  nb_available_machines :: int
  allocated_jobs :: job_map

record job_alloc =
  alloc_begin :: time
  alloc_end :: time
  started_in_first_slice :: bool
  has_been_inserted :: bool
  alloc_job :: job
  used_machines :: machines

text \<open>
  The state of a schedule, less its drawing and logging members.  \<open>allocations\<close> collects the
  mutable member \<^verbatim>\<open>allocations\<close> of the jobs: for each identifier, the allocation recorded
  at each date.
\<close>

record schedule =
  profile :: "time_slice list"
  sched_size :: int
  nb_reservations_size :: int
  nb_jobs_size :: int
  nb_machines :: int
  repair_machines :: machines
  smallest_time_slice_length :: time
  largest_time_slice_length :: time
  allocations :: "job_id \<Rightarrow> time \<Rightarrow> job_alloc option"

definition horizon :: time where
  "horizon = 10 ^ 19"

text \<open>\<^verbatim>\<open>Schedule(nb_machines, initial_time)\<close>.\<close>

definition new_schedule :: "int \<Rightarrow> time \<Rightarrow> schedule run" where
  "new_schedule n initial_time = do {
     assertion (0 < n);
     Some \<lparr>profile = [\<lparr>begin_of = initial_time, end_of = horizon, length_of = horizon - initial_time,
             has_reservation = False, nb_reservations = 0, available_machines = {0..<nat n},
             allocated_machines = {}, nb_available_machines = n, allocated_jobs = []\<rparr>],
           sched_size = 0, nb_reservations_size = 0, nb_jobs_size = 0, nb_machines = n,
           repair_machines = {}, smallest_time_slice_length = 0,
           largest_time_slice_length = horizon, allocations = (\<lambda>_ _. None)\<rparr> }"

text \<open>
  The copy assignment copies the profile and the number of machines (and drawing members) only.
\<close>

definition assign_schedule :: "schedule \<Rightarrow> schedule \<Rightarrow> schedule" where
  "assign_schedule self other =
     self\<lparr>profile := profile other, nb_machines := nb_machines other\<rparr>"

definition set_smallest_and_largest :: "time \<Rightarrow> schedule \<Rightarrow> schedule" where
  "set_smallest_and_largest len s =
     (if smallest_time_slice_length s = 0 \<and> largest_time_slice_length s = horizon
      then s\<lparr>smallest_time_slice_length := len, largest_time_slice_length := len\<rparr>
      else
        let s1 = (if len < smallest_time_slice_length s \<and> len \<noteq> 0
                  then s\<lparr>smallest_time_slice_length := len\<rparr> else s)
        in (if len > largest_time_slice_length s1 \<and> len < 31536000
            then s1\<lparr>largest_time_slice_length := len\<rparr> else s1))"

lemma set_smallest_and_largest_simps [simp]:
  "profile (set_smallest_and_largest l s) = profile s"
  "sched_size (set_smallest_and_largest l s) = sched_size s"
  "nb_reservations_size (set_smallest_and_largest l s) = nb_reservations_size s"
  "nb_jobs_size (set_smallest_and_largest l s) = nb_jobs_size s"
  "nb_machines (set_smallest_and_largest l s) = nb_machines s"
  "repair_machines (set_smallest_and_largest l s) = repair_machines s"
  "allocations (set_smallest_and_largest l s) = allocations s"
  by (auto simp: set_smallest_and_largest_def Let_def)

subsection \<open>Queries\<close>

definition slice_contains_job :: "job \<Rightarrow> time_slice \<Rightarrow> bool" where
  "slice_contains_job j ts \<longleftrightarrow> jid j \<in> set (jm_ids (allocated_jobs ts))"

definition contains_matching_job :: "(job \<Rightarrow> bool) \<Rightarrow> time_slice \<Rightarrow> bool" where
  "contains_matching_job f ts \<longleftrightarrow> list_ex (\<lambda>(k, U). f k) (allocated_jobs ts)"

definition job_from_job_id :: "job_id \<Rightarrow> time_slice \<Rightarrow> job option" where
  "job_from_job_id i ts = map_option fst (find (\<lambda>(k, U). jid k = i) (allocated_jobs ts))"

text \<open>Iterators are positions; \<open>length\<close> of the profile is \<^verbatim>\<open>_profile.end()\<close>.\<close>

fun find_from :: "(time_slice \<Rightarrow> bool) \<Rightarrow> time_slice list \<Rightarrow> nat \<Rightarrow> nat" where
  "find_from Q P i = i + find_if Q (drop i P)"

definition find_first_occurence_of_job :: "job \<Rightarrow> nat \<Rightarrow> schedule \<Rightarrow> nat run" where
  "find_first_occurence_of_job j from_i s = do {
     assertion (0 < length (profile s));
     Some (find_from (slice_contains_job j) (profile s) from_i) }"

text \<open>The \<^verbatim>\<open>do\<close> loop from the last slice down to the starting point.\<close>

fun last_occurence :: "job \<Rightarrow> time_slice list \<Rightarrow> nat \<Rightarrow> nat \<Rightarrow> bool \<Rightarrow> nat" where
  "last_occurence j P from_i 0 found = (if found then from_i else length P)"
| "last_occurence j P from_i (Suc i) found =
     (if slice_contains_job j (P ! i) then
        (if i = from_i then from_i else last_occurence j P from_i i True)
      else if found then Suc i
      else if i = from_i then length P
      else last_occurence j P from_i i False)"

definition find_last_occurence_of_job :: "job \<Rightarrow> nat \<Rightarrow> schedule \<Rightarrow> nat run" where
  "find_last_occurence_of_job j from_i s = do {
     assertion (0 < length (profile s));
     Some (last_occurence j (profile s) from_i (length (profile s)) False) }"

definition contains_job_sched :: "job \<Rightarrow> schedule \<Rightarrow> bool run" where
  "contains_job_sched j s = do {
     it \<leftarrow> find_first_occurence_of_job j 0 s;
     Some (it \<noteq> length (profile s)) }"

fun last_slice_before :: "time_slice list \<Rightarrow> time \<Rightarrow> nat \<Rightarrow> nat option" where
  "last_slice_before P date 0 = None"
| "last_slice_before P date (Suc i) =
     (if begin_of (P ! i) \<le> date then Some i else last_slice_before P date i)"

definition find_last_time_slice_before_date :: "time \<Rightarrow> bool \<Rightarrow> schedule \<Rightarrow> nat run" where
  "find_last_time_slice_before_date date assert_not_found s = do {
     assertion (0 < length (profile s));
     (case last_slice_before (profile s) date (length (profile s)) of
        Some i \<Rightarrow> Some i
      | None \<Rightarrow> if assert_not_found then None else Some 0) }"

definition find_first_time_slice_after_date :: "time \<Rightarrow> bool \<Rightarrow> schedule \<Rightarrow> nat run" where
  "find_first_time_slice_after_date date assert_not_found s =
     (let i = find_from (\<lambda>ts. date \<le> begin_of ts) (profile s) 0 in
      if i \<noteq> length (profile s) then Some i
      else if assert_not_found then None else Some i)"

definition first_slice_begin :: "schedule \<Rightarrow> time run" where
  "first_slice_begin s = do {
     assertion (0 < length (profile s));
     Some (begin_of (hd (profile s))) }"

definition finite_horizon :: "schedule \<Rightarrow> time run" where
  "finite_horizon s = do {
     assertion (0 < length (profile s));
     Some (begin_of (last (profile s))) }"

definition infinite_horizon :: "schedule \<Rightarrow> time run" where
  "infinite_horizon s = do {
     assertion (0 < length (profile s));
     Some (end_of (last (profile s))) }"

fun intersect_until :: "time \<Rightarrow> machines \<Rightarrow> time_slice list \<Rightarrow> machines" where
  "intersect_until e A [] = A"
| "intersect_until e A (ts # rest) =
     (if begin_of ts < e then intersect_until e (A \<inter> available_machines ts) rest else A)"

definition available_machines_during_period :: "time \<Rightarrow> time \<Rightarrow> schedule \<Rightarrow> machines run" where
  "available_machines_during_period b e s = do {
     fb \<leftarrow> first_slice_begin s;
     assertion (fb \<le> b);
     ih \<leftarrow> infinite_horizon s;
     assertion (e \<le> ih);
     i \<leftarrow> find_first_time_slice_after_date b True s;
     Some (intersect_until e (available_machines (profile s ! i)) (drop i (profile s))) }"

definition nb_slices :: "schedule \<Rightarrow> int" where
  "nb_slices s = int (length (profile s))"

subsection \<open>Splitting a slice\<close>

text \<open>The returned triple: whether a split was done, the first and the second slice after it.\<close>

definition split_slice :: "nat \<Rightarrow> time \<Rightarrow> schedule \<Rightarrow> (schedule \<times> bool \<times> nat \<times> nat) run" where
  "split_slice i date s = do {
     assertion (i < length (profile s));
     let slice_to_split = profile s ! i;
     (if begin_of slice_to_split < date \<and> date < end_of slice_to_split then do {
        let new_slice = slice_to_split\<lparr>begin_of := date, length_of := end_of slice_to_split - date\<rparr>;
        let s1 = set_smallest_and_largest (length_of new_slice) s;
        assertion (0 < length_of new_slice);
        let reduced = slice_to_split\<lparr>end_of := date, length_of := date - begin_of slice_to_split\<rparr>;
        let s2 = set_smallest_and_largest (length_of reduced) s1;
        assertion (0 < length_of reduced);
        Some (s2\<lparr>profile := take i (profile s) @ [reduced, new_slice] @ drop (Suc i) (profile s)\<rparr>,
              True, i, Suc i) }
      else Some (s, False, i, i)) }"

end
