(* ===== verification/Profile_Inv.thy ===== *)
theory Profile_Inv
  imports Profile
begin

text \<open>
  What makes a profile correct.  \<open>occupied\<close> and \<open>free_at\<close> are the abstract view of a profile:
  which machines a job holds, and which machines are free, at a date.  \<open>profile_ok\<close> is the
  invariant of the schedule: contiguous slices, exact bookkeeping of the free machines in every
  slice, no machine held by two jobs, every job held on the same machines over one uninterrupted
  range of slices.  Splitting a slice and merging two slices keep both.
\<close>

subsection \<open>The abstract view\<close>

definition occupied :: "time_slice list \<Rightarrow> time \<Rightarrow> job_id \<Rightarrow> machines \<Rightarrow> bool" where
  "occupied P t i U \<longleftrightarrow> (\<exists>ts \<in> set P. begin_of ts \<le> t \<and> t < end_of ts \<and>
     jm_get i (allocated_jobs ts) = Some U)"

definition free_at :: "time_slice list \<Rightarrow> time \<Rightarrow> nat \<Rightarrow> bool" where
  "free_at P t m \<longleftrightarrow> (\<exists>ts \<in> set P. begin_of ts \<le> t \<and> t < end_of ts \<and> m \<in> available_machines ts)"

lemma occupied_append [simp]:
  "occupied (P @ Q) t i U \<longleftrightarrow> occupied P t i U \<or> occupied Q t i U"
  "occupied [] t i U \<longleftrightarrow> False"
  "occupied (ts # P) t i U \<longleftrightarrow>
     (begin_of ts \<le> t \<and> t < end_of ts \<and> jm_get i (allocated_jobs ts) = Some U) \<or> occupied P t i U"
  by (auto simp: occupied_def)

lemma free_at_append [simp]:
  "free_at (P @ Q) t m \<longleftrightarrow> free_at P t m \<or> free_at Q t m"
  "free_at [] t m \<longleftrightarrow> False"
  "free_at (ts # P) t m \<longleftrightarrow>
     (begin_of ts \<le> t \<and> t < end_of ts \<and> m \<in> available_machines ts) \<or> free_at P t m"
  by (auto simp: free_at_def)

subsection \<open>The invariant\<close>

fun chain :: "time \<Rightarrow> time_slice list \<Rightarrow> time \<Rightarrow> bool" where
  "chain b [] e \<longleftrightarrow> b = e"
| "chain b (ts # P) e \<longleftrightarrow> begin_of ts = b \<and> b \<le> end_of ts \<and> chain (end_of ts) P e"

definition jm_union :: "job_map \<Rightarrow> machines" where
  "jm_union m = \<Union> (snd ` set m)"

definition jm_disjoint :: "job_map \<Rightarrow> bool" where
  "jm_disjoint m \<longleftrightarrow> (\<forall>(k, U) \<in> set m. \<forall>(k', U') \<in> set m. jid k \<noteq> jid k' \<longrightarrow> U \<inter> U' = {})"

text \<open>\<open>M\<close> is the set of the machines in service.\<close>

definition slice_ok :: "machines \<Rightarrow> time_slice \<Rightarrow> bool" where
  "slice_ok M ts \<longleftrightarrow> length_of ts = end_of ts - begin_of ts \<and> jm_ok (allocated_jobs ts) \<and>
     jm_disjoint (allocated_jobs ts) \<and> allocated_machines ts = jm_union (allocated_jobs ts) \<and>
     jm_union (allocated_jobs ts) \<subseteq> M \<and> available_machines ts = M - allocated_machines ts \<and>
     nb_available_machines ts = int (card (available_machines ts))"

definition coherent :: "time_slice list \<Rightarrow> bool" where
  "coherent P \<longleftrightarrow> (\<forall>ts \<in> set P. \<forall>ts' \<in> set P. \<forall>i U V.
     jm_get i (allocated_jobs ts) = Some U \<longrightarrow> jm_get i (allocated_jobs ts') = Some V \<longrightarrow> U = V)"

fun ended_run :: "bool list \<Rightarrow> bool" where
  "ended_run [] = True"
| "ended_run (True # bs) = ended_run bs"
| "ended_run (False # bs) = (True \<notin> set bs)"

fun one_run :: "bool list \<Rightarrow> bool" where
  "one_run [] = True"
| "one_run (False # bs) = one_run bs"
| "one_run (True # bs) = ended_run bs"

definition slice_has :: "job_id \<Rightarrow> time_slice \<Rightarrow> bool" where
  "slice_has i ts \<longleftrightarrow> i \<in> set (jm_ids (allocated_jobs ts))"

definition good_id :: "job_id \<Rightarrow> bool" where
  "good_id i \<longleftrightarrow> i \<noteq> [] \<and> CHR '','' \<notin> set i"

definition profile_ok :: "machines \<Rightarrow> time_slice list \<Rightarrow> bool" where
  "profile_ok M P \<longleftrightarrow> finite M \<and> (\<forall>ts \<in> set P. slice_ok M ts) \<and> coherent P \<and>
     (\<forall>i. one_run (map (slice_has i) P)) \<and>
     (\<forall>ts \<in> set P. \<forall>i \<in> set (jm_ids (allocated_jobs ts)). good_id i)"

definition in_service :: "schedule \<Rightarrow> machines" where
  "in_service s = {0..<nat (nb_machines s)} - repair_machines s"

definition schedule_ok :: "schedule \<Rightarrow> bool" where
  "schedule_ok s \<longleftrightarrow> profile s \<noteq> [] \<and> profile_ok (in_service s) (profile s) \<and>
     chain (begin_of (hd (profile s))) (profile s) horizon"

subsection \<open>Lemmas on the parts of the invariant\<close>

lemma slice_has_get: "slice_has i ts \<longleftrightarrow> (\<exists>U. jm_get i (allocated_jobs ts) = Some U)"
  unfolding slice_has_def using jm_get_None_iff[of i "allocated_jobs ts"] by auto

lemma slice_contains_job_has: "slice_contains_job j = slice_has (jid j)"
  by (simp add: fun_eq_iff slice_contains_job_def slice_has_def)

lemma coherentD:
  assumes "coherent P" "ts \<in> set P" "ts' \<in> set P" "jm_get i (allocated_jobs ts) = Some U"
    "jm_get i (allocated_jobs ts') = Some V"
  shows "U = V"
  using assms unfolding coherent_def by simp

lemma jm_union_mem:
  "jm_ok m \<Longrightarrow> x \<in> jm_union m \<longleftrightarrow> (\<exists>i U. jm_get i m = Some U \<and> x \<in> U)"
  unfolding jm_union_def using jm_get_Some_mem[of _ m] jm_mem_get[of m] by fastforce

lemma jm_disjoint_get:
  "jm_disjoint m \<Longrightarrow> jm_get i m = Some U \<Longrightarrow> jm_get i' m = Some U' \<Longrightarrow> i \<noteq> i' \<Longrightarrow> U \<inter> U' = {}"
  using jm_get_Some_mem[of i m U] jm_get_Some_mem[of i' m U'] unfolding jm_disjoint_def by fastforce

lemma jm_disjointI:
  assumes "jm_ok m" "\<And>i U i' U'. jm_get i m = Some U \<Longrightarrow> jm_get i' m = Some U' \<Longrightarrow> i \<noteq> i' \<Longrightarrow> U \<inter> U' = {}"
  shows "jm_disjoint m"
  unfolding jm_disjoint_def using jm_mem_get[OF assms(1)] assms(2) by blast

lemma chain_append: "chain b (P @ Q) e \<longleftrightarrow> (\<exists>m. chain b P m \<and> chain m Q e)"
  by (induction P arbitrary: b) auto

lemma chain_le: "chain b P e \<Longrightarrow> b \<le> e"
  by (induction P arbitrary: b) (auto intro: order_trans)

lemma chain_bounds: "chain b P e \<Longrightarrow> ts \<in> set P \<Longrightarrow> b \<le> begin_of ts \<and> begin_of ts \<le> end_of ts \<and> end_of ts \<le> e"
  by (induction P arbitrary: b) (auto dest: chain_le intro: order_trans)

lemma chain_last: "chain b P e \<Longrightarrow> P \<noteq> [] \<Longrightarrow> end_of (last P) = e"
  by (induction P arbitrary: b) auto

lemma chain_unique:
  assumes "chain b P e" "ts \<in> set P" "ts' \<in> set P"
    and "begin_of ts \<le> t" "t < end_of ts" "begin_of ts' \<le> t" "t < end_of ts'"
  shows "ts = ts'"
  using assms
proof (induction P arbitrary: b)
  case (Cons x P)
  have "end_of x \<le> begin_of y" if "y \<in> set P" for y using Cons.prems(1) that chain_bounds by auto
  with Cons show ?case by fastforce
qed simp

lemma ended_run_absent: "True \<notin> set bs \<Longrightarrow> ended_run bs"
  by (cases bs) auto

lemma one_run_absent: "True \<notin> set bs \<Longrightarrow> one_run bs"
  by (induction bs) auto

lemma one_run_duplicate: "one_run (as @ x # x # bs) \<longleftrightarrow> one_run (as @ x # bs)"
proof -
  have e: "ended_run (as @ x # x # bs) \<longleftrightarrow> ended_run (as @ x # bs)" for as
  proof (induction as)
    case Nil
    then show ?case by (cases x) auto
  next
    case (Cons a as)
    then show ?case by (cases a) auto
  qed
  show ?thesis
  proof (induction as)
    case Nil
    then show ?case by (cases x) auto
  next
    case (Cons a as)
    then show ?case using e by (cases a) auto
  qed
qed

lemma ended_run_split: "ended_run bs \<Longrightarrow> True \<notin> set (dropWhile (\<lambda>b. b) bs)"
  by (induction bs rule: ended_run.induct) auto

lemma one_run_split:
  "one_run (as @ bs) \<Longrightarrow> True \<notin> set as \<Longrightarrow> bs \<noteq> [] \<Longrightarrow> hd bs \<Longrightarrow> True \<notin> set (dropWhile (\<lambda>b. b) bs)"
proof (induction as)
  case Nil
  then show ?case using ended_run_split by (cases bs) auto
qed auto

lemma one_run_block:
  assumes "True \<notin> set as" "False \<notin> set bs" "True \<notin> set cs"
  shows "one_run (as @ bs @ cs)"
proof -
  have "ended_run (bs' @ cs)" if "False \<notin> set bs'" for bs'
    using that assms(3) by (induction bs') (auto intro: ended_run_absent)
  then have "one_run (bs @ cs)" using assms(2,3) by (cases bs) (auto intro: one_run_absent)
  then show ?thesis using assms(1) by (induction as) auto
qed

lemma profile_okD:
  assumes "profile_ok M P"
  shows "finite M" "ts \<in> set P \<Longrightarrow> slice_ok M ts" "coherent P" "one_run (map (slice_has i) P)"
    "ts \<in> set P \<Longrightarrow> slice_has i ts \<Longrightarrow> good_id i"
  using assms by (auto simp: profile_ok_def slice_has_def)

text \<open>The parts of the invariant that do not depend on the order of the slices.\<close>

definition slices_ok :: "machines \<Rightarrow> time_slice set \<Rightarrow> bool" where
  "slices_ok M S \<longleftrightarrow> finite M \<and> (\<forall>ts \<in> S. slice_ok M ts) \<and>
     (\<forall>ts \<in> S. \<forall>ts' \<in> S. \<forall>i U V.
       jm_get i (allocated_jobs ts) = Some U \<longrightarrow> jm_get i (allocated_jobs ts') = Some V \<longrightarrow> U = V) \<and>
     (\<forall>ts \<in> S. \<forall>i \<in> set (jm_ids (allocated_jobs ts)). good_id i)"

lemma profile_ok_iff: "profile_ok M P \<longleftrightarrow> slices_ok M (set P) \<and> (\<forall>i. one_run (map (slice_has i) P))"
  by (auto simp: profile_ok_def slices_ok_def coherent_def)

text \<open>A slice with the jobs and the machines of a slice of the profile may be added to it.\<close>

definition same_content :: "time_slice \<Rightarrow> time_slice \<Rightarrow> bool" where
  "same_content ts ts' \<longleftrightarrow> allocated_jobs ts = allocated_jobs ts' \<and>
     allocated_machines ts = allocated_machines ts' \<and>
     available_machines ts = available_machines ts' \<and>
     nb_available_machines ts = nb_available_machines ts'"

lemma slices_ok_same_content:
  assumes "slices_ok M S"
    and "\<forall>ts \<in> S'. length_of ts = end_of ts - begin_of ts \<and> (\<exists>ts0 \<in> S. same_content ts ts0)"
  shows "slices_ok M S'"
proof -
  have S: "slice_ok M ts" "i \<in> set (jm_ids (allocated_jobs ts)) \<Longrightarrow> good_id i"
    "ts' \<in> S \<Longrightarrow> jm_get i (allocated_jobs ts) = Some U \<Longrightarrow> jm_get i (allocated_jobs ts') = Some V \<Longrightarrow> U = V"
    if "ts \<in> S" for ts ts' i U V
    using assms(1) that unfolding slices_ok_def by blast+
  have "slice_ok M ts" if "ts \<in> S'" for ts
    using assms(2) that S(1) unfolding slice_ok_def same_content_def by fastforce
  moreover have "good_id i" if "ts \<in> S'" "i \<in> set (jm_ids (allocated_jobs ts))" for ts i
    using assms(2) that S(2) unfolding same_content_def by fastforce
  moreover have "U = V" if "ts \<in> S'" "ts' \<in> S'" "jm_get i (allocated_jobs ts) = Some U"
    "jm_get i (allocated_jobs ts') = Some V" for ts ts' i U V
    using assms(2) that S(3) unfolding same_content_def by metis
  moreover have "finite M" using assms(1) unfolding slices_ok_def by blast
  ultimately show ?thesis unfolding slices_ok_def by blast
qed

lemma slice_has_same_content: "same_content ts ts' \<Longrightarrow> slice_has i ts = slice_has i ts'"
  by (simp add: same_content_def slice_has_def)

text \<open>
  Replacing one slice by two consecutive ones with its content, and conversely: the direction
  from left to right is a split, the other a merge.
\<close>

lemma two_slices_for_one:
  assumes "same_content ts1 ts" "same_content ts2 ts"
    and "length_of ts1 = end_of ts1 - begin_of ts1" "length_of ts2 = end_of ts2 - begin_of ts2"
    and "length_of ts = end_of ts - begin_of ts"
  shows "profile_ok M (A @ [ts1, ts2] @ B) \<longleftrightarrow> profile_ok M (A @ [ts] @ B)"
proof -
  have sc: "same_content x x" "same_content ts ts1" for x
    using assms(1) by (simp_all add: same_content_def)
  have "slices_ok M (set (A @ [ts1, ts2] @ B)) \<longleftrightarrow> slices_ok M (set (A @ [ts] @ B))"
  proof
    assume *: "slices_ok M (set (A @ [ts1, ts2] @ B))"
    have l: "\<forall>x \<in> set (A @ [ts1, ts2] @ B). length_of x = end_of x - begin_of x"
      using * by (auto simp: slices_ok_def slice_ok_def)
    show "slices_ok M (set (A @ [ts] @ B))"
      by (rule slices_ok_same_content[OF *]) (use l sc assms(5) in auto)
  next
    assume *: "slices_ok M (set (A @ [ts] @ B))"
    have l: "\<forall>x \<in> set (A @ [ts] @ B). length_of x = end_of x - begin_of x"
      using * by (auto simp: slices_ok_def slice_ok_def)
    show "slices_ok M (set (A @ [ts1, ts2] @ B))"
      by (rule slices_ok_same_content[OF *]) (use l sc assms in auto)
  qed
  moreover have "one_run (map (slice_has i) (A @ [ts1, ts2] @ B)) =
      one_run (map (slice_has i) (A @ [ts] @ B))" for i
    using slice_has_same_content[OF assms(1), of i] slice_has_same_content[OF assms(2), of i]
    by (simp add: one_run_duplicate)
  ultimately show ?thesis by (simp add: profile_ok_iff)
qed

lemma two_slices_view:
  assumes "same_content ts1 ts" "same_content ts2 ts"
    and "begin_of ts1 = begin_of ts" "end_of ts1 = begin_of ts2" "end_of ts2 = end_of ts"
    and "begin_of ts \<le> begin_of ts2" "begin_of ts2 \<le> end_of ts"
  shows "occupied (A @ [ts1, ts2] @ B) t i U \<longleftrightarrow> occupied (A @ [ts] @ B) t i U"
    and "free_at (A @ [ts1, ts2] @ B) t m \<longleftrightarrow> free_at (A @ [ts] @ B) t m"
    and "chain b (A @ [ts1, ts2] @ B) e \<longleftrightarrow> chain b (A @ [ts] @ B) e"
  using assms by (auto simp: same_content_def chain_append)

text \<open>Consecutive slices with the same jobs have the same machines.\<close>

lemma same_ids_same_content:
  assumes "profile_ok M P" "ts \<in> set P" "ts' \<in> set P"
    and "jm_ids (allocated_jobs ts) = jm_ids (allocated_jobs ts')"
  shows "available_machines ts = available_machines ts'"
    and "allocated_machines ts = allocated_machines ts'"
proof -
  note ok = profile_okD(2)[OF assms(1,2)] profile_okD(2)[OF assms(1,3)]
  have get: "jm_get i (allocated_jobs ts) = jm_get i (allocated_jobs ts')" for i
  proof (cases "jm_get i (allocated_jobs ts)")
    case None
    then show ?thesis using assms(4) jm_get_None_iff by metis
  next
    case (Some U)
    then obtain V where "jm_get i (allocated_jobs ts') = Some V"
      using assms(4) jm_get_None_iff by (metis not_None_eq)
    with coherentD[OF profile_okD(3)[OF assms(1)] assms(2,3) Some] Some show ?thesis by simp
  qed
  have "x \<in> jm_union (allocated_jobs ts) \<longleftrightarrow> x \<in> jm_union (allocated_jobs ts')" for x
    using ok jm_union_mem[of "allocated_jobs ts" x] jm_union_mem[of "allocated_jobs ts'" x] get
    by (simp add: slice_ok_def)
  then have "jm_union (allocated_jobs ts) = jm_union (allocated_jobs ts')" by blast
  then show "available_machines ts = available_machines ts'"
    "allocated_machines ts = allocated_machines ts'"
    using ok unfolding slice_ok_def by auto
qed

end
