(* ===== verification/First_Fit.thy ===== *)
theory First_Fit
  imports Profile_Inv
begin

text \<open>
  Adding a job to a schedule at the first place where it fits (\<^verbatim>\<open>schedule.cpp\<close>:
  \<^verbatim>\<open>add_job_first_fit\<close>, \<^verbatim>\<open>add_job_first_fit_after_time_slice\<close>,
  \<^verbatim>\<open>add_job_first_fit_after_time\<close>, \<^verbatim>\<open>query_wait\<close>).  The nested loops of the code are a scan
  that looks for an anchor slice, and the update of the profile once one is found.  The scan is
  proved equal to the reference definition \<open>window\<close>.
\<close>

subsection \<open>The operations\<close>

text \<open>
  The inner loop: from an anchor, \<open>pit2\<close> moves over the following slices.  \<open>Some (k, U)\<close>: the job
  ends in slice \<open>k\<close> on the machines \<open>U\<close>.
\<close>

fun extend_window ::
  "selector \<Rightarrow> job \<Rightarrow> machines \<Rightarrow> time \<Rightarrow> time_slice list \<Rightarrow> nat \<Rightarrow> (nat \<times> machines) option run" where
  "extend_window fit j availableMachines totalTime [] k = Some None"
| "extend_window fit j availableMachines totalTime (pit2 # rest) k =
     (if nb_available_machines pit2 < nb_requested_resources j then Some None
      else
        let availableMachines' = availableMachines \<inter> available_machines pit2;
            totalTime' = totalTime + length_of pit2
        in
          if int (card availableMachines') < nb_requested_resources j then Some None
          else if walltime j \<le> totalTime' then
            (case fit j availableMachines' of
               None \<Rightarrow> None
             | Some (Some U) \<Rightarrow> Some (Some (k, U))
             | Some None \<Rightarrow> extend_window fit j availableMachines' totalTime' rest (Suc k))
          else extend_window fit j availableMachines' totalTime' rest (Suc k))"

text \<open>
  The outer loop.  The result carries the job, whose \<^verbatim>\<open>walltime\<close> is overwritten at every anchor
  when it has none, and the anchor, the last slice and the machines.
\<close>

definition effective_walltime :: "time \<Rightarrow> time_slice \<Rightarrow> job \<Rightarrow> job" where
  "effective_walltime hz pit j = (if has_walltime j then j else j\<lparr>walltime := hz - begin_of pit\<rparr>)"

fun scan_anchor ::
  "selector \<Rightarrow> time \<Rightarrow> job \<Rightarrow> time_slice list \<Rightarrow> nat \<Rightarrow> (job \<times> (nat \<times> nat \<times> machines) option) run" where
  "scan_anchor fit hz j [] i = Some (j, None)"
| "scan_anchor fit hz j (pit # rest) i =
     (if nb_requested_resources j \<le> nb_available_machines pit then
        let j' = effective_walltime hz pit j in
          if walltime j' \<le> length_of pit then
            (case fit j' (available_machines pit) of
               None \<Rightarrow> None
             | Some (Some U) \<Rightarrow> Some (j', Some (i, i, U))
             | Some None \<Rightarrow> scan_anchor fit hz j' rest (Suc i))
          else
            (case extend_window fit j' (available_machines pit) (length_of pit) rest (Suc i) of
               None \<Rightarrow> None
             | Some (Some (k, U)) \<Rightarrow> Some (j', Some (i, k, U))
             | Some None \<Rightarrow> scan_anchor fit hz j' rest (Suc i))
      else scan_anchor fit hz j rest (Suc i))"

text \<open>The job takes the machines \<open>U\<close> of a slice.\<close>

definition occupy_slice :: "job \<Rightarrow> machines \<Rightarrow> time_slice \<Rightarrow> time_slice" where
  "occupy_slice j U ts = ts\<lparr>
     available_machines := available_machines ts - U,
     allocated_machines := allocated_machines ts \<union> U,
     nb_available_machines := nb_available_machines ts - nb_requested_resources j,
     allocated_jobs := jm_put j U (allocated_jobs ts)\<rparr>"

text \<open>The slices from \<open>i\<close> to before \<open>k\<close> are occupied, slice \<open>k\<close> is split and its first part occupied.\<close>

definition place_job :: "job \<Rightarrow> nat \<Rightarrow> nat \<Rightarrow> machines \<Rightarrow> schedule \<Rightarrow> schedule run" where
  "place_job j i k U s = do {
     let P = profile s;
     let split_date = begin_of (P ! i) + walltime j;
     let s1 = s\<lparr>profile :=
        take i P @ map (occupy_slice j U) (take (k - i) (drop i P)) @ drop k P\<rparr>;
     (s2, _, first_slice_after_split, _) \<leftarrow> split_slice k split_date s1;
     Some (s2\<lparr>profile := (profile s2)[first_slice_after_split :=
        occupy_slice j U (profile s2 ! first_slice_after_split)]\<rparr>) }"

definition set_allocation :: "job_alloc \<Rightarrow> schedule \<Rightarrow> schedule" where
  "set_allocation a s = s\<lparr>allocations := (allocations s)
     (jid (alloc_job a) := (allocations s (jid (alloc_job a)))(alloc_begin a := Some a))\<rparr>"

text \<open>
  A failed allocation has \<open>has_been_inserted\<close> unset; its other fields are not initialised by the
  code and hold no information.  When the job fits in the anchor slice, the code does not set
  \<^verbatim>\<open>alloc->end\<close>, which keeps the value 0 of a new \<^verbatim>\<open>Rational\<close>.
\<close>

definition failed_alloc :: "job \<Rightarrow> job_alloc" where
  "failed_alloc j = \<lparr>alloc_begin = 0, alloc_end = 0, started_in_first_slice = False,
     has_been_inserted = False, alloc_job = j, used_machines = {}\<rparr>"

definition first_fit_alloc :: "job \<Rightarrow> nat \<Rightarrow> nat \<Rightarrow> machines \<Rightarrow> time \<Rightarrow> job_alloc" where
  "first_fit_alloc j i k U b = \<lparr>alloc_begin = b, alloc_end = (if i = k then 0 else b + walltime j),
     started_in_first_slice = (i = 0), has_been_inserted = True, alloc_job = j, used_machines = U\<rparr>"

definition add_job_first_fit_after_time_slice ::
  "job \<Rightarrow> nat \<Rightarrow> selector \<Rightarrow> bool \<Rightarrow> schedule \<Rightarrow> (job \<times> job_alloc \<times> schedule) run" where
  "add_job_first_fit_after_time_slice j first_time_slice fit assert_insertion_successful s = do {
     let s1 = s\<lparr>sched_size := sched_size s + 1, nb_jobs_size := nb_jobs_size s + 1\<rparr>;
     let P = profile s;
     (j', found) \<leftarrow> scan_anchor fit (end_of (last P)) j (drop first_time_slice P) first_time_slice;
     (case found of
        Some (i, k, U) \<Rightarrow> do {
          let alloc = first_fit_alloc j' i k U (begin_of (P ! i));
          s2 \<leftarrow> place_job j' i k U (set_allocation alloc s1);
          Some (j', alloc, s2) }
      | None \<Rightarrow>
          if assert_insertion_successful then None
          else Some (j', failed_alloc j', s)) }"

definition add_job_first_fit ::
  "job \<Rightarrow> selector \<Rightarrow> bool \<Rightarrow> schedule \<Rightarrow> (job \<times> job_alloc \<times> schedule) run" where
  "add_job_first_fit j fit assert_insertion_successful s = do {
     present \<leftarrow> contains_job_sched j s;
     assertion (\<not> present);
     add_job_first_fit_after_time_slice j 0 fit assert_insertion_successful s }"

definition add_job_first_fit_after_time ::
  "job \<Rightarrow> time \<Rightarrow> selector \<Rightarrow> bool \<Rightarrow> schedule \<Rightarrow> (job \<times> job_alloc \<times> schedule) run" where
  "add_job_first_fit_after_time j date fit assert_insertion_successful s = do {
     let insertion_slice =
        find_from (\<lambda>ts. begin_of ts \<le> date \<and> date < end_of ts) (profile s) 0;
     assertion (insertion_slice \<noteq> length (profile s));
     (s1, _, _, second_slice_after_split) \<leftarrow> split_slice insertion_slice date s;
     add_job_first_fit_after_time_slice j second_slice_after_split fit
       assert_insertion_successful s1 }"

text \<open>
  \<^verbatim>\<open>query_wait\<close> repeats the two loops on a job made up for the question, without changing the
  schedule.  The result is the date converted to a double by \<^verbatim>\<open>static_cast<double>\<close>, or \<open>- 1\<close>.
  The conversion of the number library is the parameter \<open>to_double\<close>: the value of the double it
  gives for a rational.
\<close>

definition fake_job :: "int \<Rightarrow> time \<Rightarrow> job" where
  "fake_job sz t = \<lparr>jid = ''fake'', unique_number = - 1, nb_requested_resources = sz,
     walltime = t, original_walltime = - 1, has_walltime = True, submission_time = 0,
     submission_times = [], completion_time = - 1, cores = 1, purpose = ''job'',
     future_allocations = {}, start = - 1, duration = 0\<rparr>"

fun query_window :: "selector \<Rightarrow> int \<Rightarrow> time \<Rightarrow> machines \<Rightarrow> time \<Rightarrow> time_slice list \<Rightarrow> bool run" where
  "query_window fit sz t availableMachines totalTime [] = Some False"
| "query_window fit sz t availableMachines totalTime (pit2 # rest) =
     (if nb_available_machines pit2 < sz then Some False
      else
        let availableMachines' = availableMachines \<inter> available_machines pit2;
            totalTime' = totalTime + length_of pit2
        in
          if int (card availableMachines') < sz then Some False
          else if t \<le> totalTime' then
            (case fit (fake_job sz t) availableMachines' of
               None \<Rightarrow> None
             | Some (Some U) \<Rightarrow> Some True
             | Some None \<Rightarrow> query_window fit sz t availableMachines' totalTime' rest)
          else query_window fit sz t availableMachines' totalTime' rest)"

fun query_scan :: "(time \<Rightarrow> rat) \<Rightarrow> selector \<Rightarrow> int \<Rightarrow> time \<Rightarrow> time_slice list \<Rightarrow> rat run" where
  "query_scan to_double fit sz t [] = Some (- 1)"
| "query_scan to_double fit sz t (pit # rest) =
     (if sz \<le> nb_available_machines pit then
        (if t \<le> length_of pit then
           (case fit (fake_job sz t) (available_machines pit) of
              None \<Rightarrow> None
            | Some (Some U) \<Rightarrow> Some (to_double (begin_of pit))
            | Some None \<Rightarrow> query_scan to_double fit sz t rest)
         else
           (case query_window fit sz t (available_machines pit) (length_of pit) rest of
              None \<Rightarrow> None
            | Some True \<Rightarrow> Some (to_double (begin_of pit))
            | Some False \<Rightarrow> query_scan to_double fit sz t rest))
      else query_scan to_double fit sz t rest)"

definition query_wait :: "(time \<Rightarrow> rat) \<Rightarrow> int \<Rightarrow> time \<Rightarrow> selector \<Rightarrow> schedule \<Rightarrow> rat run" where
  "query_wait to_double sz t fit s = query_scan to_double fit sz t (profile s)"

subsection \<open>Splitting keeps the invariant and the view\<close>

definition split_profile :: "time \<Rightarrow> time_slice list \<Rightarrow> time_slice \<Rightarrow> time_slice list \<Rightarrow> time_slice list" where
  "split_profile date A ts B = A @ [ts\<lparr>end_of := date, length_of := date - begin_of ts\<rparr>,
     ts\<lparr>begin_of := date, length_of := end_of ts - date\<rparr>] @ B"

lemma split_slice_cases:
  assumes "profile s = A @ ts # B" "i = length A"
  obtains (unsplit) "\<not> (begin_of ts < date \<and> date < end_of ts)" "split_slice i date s = Some (s, False, i, i)"
  | (split) s' where "begin_of ts < date" "date < end_of ts"
      "split_slice i date s = Some (s', True, i, Suc i)"
      "profile s' = split_profile date A ts B"
      "nb_machines s' = nb_machines s" "repair_machines s' = repair_machines s"
      "sched_size s' = sched_size s" "nb_jobs_size s' = nb_jobs_size s"
      "nb_reservations_size s' = nb_reservations_size s" "allocations s' = allocations s"
proof (cases "begin_of ts < date \<and> date < end_of ts")
  case False
  then show thesis using unsplit assms unfolding split_slice_def by (simp add: Let_def)
next
  case True
  show thesis
    by (rule split[of "(set_smallest_and_largest (date - begin_of ts)
          (set_smallest_and_largest (end_of ts - date) s))\<lparr>profile := split_profile date A ts B\<rparr>"];
      use True assms in \<open>simp add: split_slice_def Let_def split_profile_def\<close>)
qed

lemma split_slice_view:
  assumes "begin_of ts < date" "date < end_of ts" "length_of ts = end_of ts - begin_of ts"
  shows "profile_ok M (split_profile date A ts B) \<longleftrightarrow> profile_ok M (A @ [ts] @ B)"
    and "occupied (split_profile date A ts B) t i U \<longleftrightarrow> occupied (A @ [ts] @ B) t i U"
    and "free_at (split_profile date A ts B) t m \<longleftrightarrow> free_at (A @ [ts] @ B) t m"
    and "chain b (split_profile date A ts B) e \<longleftrightarrow> chain b (A @ [ts] @ B) e"
  unfolding split_profile_def
  by (rule two_slices_for_one two_slices_view;
      use assms(1-3) in \<open>simp add: same_content_def\<close>)+

subsection \<open>Occupying a block of slices\<close>

lemma occupy_slice_simps [simp]:
  "begin_of (occupy_slice j U ts) = begin_of ts" "end_of (occupy_slice j U ts) = end_of ts"
  "length_of (occupy_slice j U ts) = length_of ts"
  "available_machines (occupy_slice j U ts) = available_machines ts - U"
  "allocated_machines (occupy_slice j U ts) = allocated_machines ts \<union> U"
  "allocated_jobs (occupy_slice j U ts) = jm_put j U (allocated_jobs ts)"
  by (simp_all add: occupy_slice_def)

lemma chain_occupy [simp]: "chain b (map (occupy_slice j U) P) e = chain b P e"
  by (induction P arbitrary: b) auto

lemma jm_union_put:
  "jm_ok m \<Longrightarrow> jid j \<notin> set (jm_ids m) \<Longrightarrow> jm_union (jm_put j U m) = jm_union m \<union> U"
proof -
  assume m: "jm_ok m" "jid j \<notin> set (jm_ids m)"
  then have n: "jm_get (jid j) m = None" by (simp add: jm_get_None_iff)
  have "x \<in> jm_union (jm_put j U m) \<longleftrightarrow> x \<in> jm_union m \<union> U" for x
    using n by (auto simp: jm_union_mem[OF m(1)] jm_union_mem[OF jm_put_ok[OF m(1)]]
        jm_get_put[OF m(1)] split: if_splits) (metis option.distinct(1))
  then show ?thesis by blast
qed

lemma jm_disjoint_put:
  assumes ok: "jm_ok m" and d: "jm_disjoint m" and V: "\<And>i V. jm_get i m = Some V \<Longrightarrow> V \<inter> U = {}"
  shows "jm_disjoint (jm_put j U m)"
proof (rule jm_disjointI[OF jm_put_ok[OF ok]])
  fix i A i' A'
  assume g: "jm_get i (jm_put j U m) = Some A" "jm_get i' (jm_put j U m) = Some A'" "i \<noteq> i'"
  show "A \<inter> A' = {}"
  proof (cases "i = jid j")
    case True
    then have "A = U" "jm_get i' m = Some A'" using g by (simp_all add: jm_get_put[OF ok])
    then show ?thesis using V[of i' A'] by (simp add: Int_commute)
  next
    case i: False
    then have A: "jm_get i m = Some A" using g(1) by (simp add: jm_get_put[OF ok])
    show ?thesis
    proof (cases "i' = jid j")
      case True
      then have "A' = U" using g(2) by (simp add: jm_get_put[OF ok])
      then show ?thesis using V[OF A] by simp
    next
      case False
      then have "jm_get i' m = Some A'" using g(2) by (simp add: jm_get_put[OF ok])
      then show ?thesis using jm_disjoint_get[OF d A _ g(3)] by simp
    qed
  qed
qed

lemma slice_ok_occupy:
  assumes ok: "slice_ok M ts" and fin: "finite M" and U: "U \<subseteq> available_machines ts"
    and c: "int (card U) = nb_requested_resources j" and n: "\<not> slice_has (jid j) ts"
  shows "slice_ok M (occupy_slice j U ts)"
proof -
  let ?m = "allocated_jobs ts"
  have m: "jm_ok ?m" "jm_disjoint ?m" "allocated_machines ts = jm_union ?m" "jm_union ?m \<subseteq> M"
    "available_machines ts = M - jm_union ?m"
    using ok by (auto simp: slice_ok_def)
  have n': "jid j \<notin> set (jm_ids ?m)" using n by (simp add: slice_has_def)
  have UM: "U \<subseteq> M" "U \<inter> jm_union ?m = {}" using U m(5) by auto
  have V: "V \<inter> U = {}" if "jm_get i ?m = Some V" for i V
    using that UM(2) jm_union_mem[OF m(1)] by blast
  have "jm_disjoint (jm_put j U ?m)" using m(1,2) V by (rule jm_disjoint_put)
  moreover have "int (card (available_machines ts - U)) =
      nb_available_machines ts - nb_requested_resources j"
  proof -
    have "finite (available_machines ts)" unfolding m(5) using fin by (rule finite_Diff)
    then have "int (card (available_machines ts - U)) = int (card (available_machines ts)) - int (card U)"
      by (rule card_Diff_subset_int[OF _ U])
    moreover have "nb_available_machines ts = int (card (available_machines ts))"
      using ok unfolding slice_ok_def by (elim conjE)
    ultimately show ?thesis using c by linarith
  qed
  moreover have "M - jm_union ?m - U = M - (jm_union ?m \<union> U)" "jm_union ?m \<union> U \<subseteq> M"
    using UM(1) m(4) by blast+
  ultimately show ?thesis
    using ok m(3,5) jm_put_ok[OF m(1), of j U] jm_union_put[OF m(1) n', of U]
    by (simp add: slice_ok_def occupy_slice_def)
qed

lemma occupy_block:
  assumes ok: "profile_ok M (A @ B @ C)" and n: "\<forall>ts \<in> set (A @ B @ C). \<not> slice_has (jid j) ts"
    and U: "\<forall>ts \<in> set B. U \<subseteq> available_machines ts"
    and c: "int (card U) = nb_requested_resources j" and g: "good_id (jid j)"
  shows "profile_ok M (A @ map (occupy_slice j U) B @ C)"
proof -
  let ?P = "A @ map (occupy_slice j U) B @ C"
  note D = profile_okD[OF ok]
  have jm: "jm_ok (allocated_jobs ts)" if "ts \<in> set (A @ B @ C)" for ts
    using D(2)[OF that] by (simp add: slice_ok_def)
  have "slice_ok M ts" if "ts \<in> set ?P" for ts
    using that D(2) slice_ok_occupy[OF _ D(1)] U c n by auto
  moreover have get: "(ts \<in> set (A @ B @ C) \<and> i \<noteq> jid j) \<or>
      (\<exists>ts0 \<in> set (A @ B @ C). i \<noteq> jid j \<and> jm_get i (allocated_jobs ts0) = Some V) \<or> (i = jid j \<and> V = U)"
    if "ts \<in> set ?P" "jm_get i (allocated_jobs ts) = Some V" for ts i V
    using that jm n by (auto simp: jm_get_put slice_has_get split: if_splits)
  have "V = V'" if "ts \<in> set ?P" "ts' \<in> set ?P" "jm_get i (allocated_jobs ts) = Some V"
    "jm_get i (allocated_jobs ts') = Some V'" for ts ts' i V V'
    using get[OF that(1,3)] get[OF that(2,4)] that(3,4) coherentD[OF D(3)] by blast
  moreover have "good_id i" if "ts \<in> set ?P" "slice_has i ts" for ts i
  proof -
    from \<open>slice_has i ts\<close> obtain V where "jm_get i (allocated_jobs ts) = Some V"
      unfolding slice_has_get by (elim exE)
    from get[OF \<open>ts \<in> set ?P\<close> this] show ?thesis using g D(5) \<open>slice_has i ts\<close> slice_has_get by blast
  qed
  moreover have "one_run (map (slice_has i) ?P)" for i
  proof (cases "i = jid j")
    case True
    have "slice_has (jid j) (occupy_slice j U ts)" if "ts \<in> set B" for ts
      using jm_put_ids[of "allocated_jobs ts" j U] jm[of ts] that by (simp add: slice_has_def)
    then show ?thesis unfolding map_append
      by (intro one_run_block) (use n True in auto)
  next
    case False
    have "slice_has i (occupy_slice j U ts) = slice_has i ts" if "ts \<in> set B" for ts
      using jm_put_ids[of "allocated_jobs ts" j U] jm[of ts] that False by (simp add: slice_has_def)
    then have "map (slice_has i) ?P = map (slice_has i) (A @ B @ C)" by simp
    then show ?thesis using D(4) by metis
  qed
  ultimately show ?thesis unfolding profile_ok_def coherent_def slice_has_def using D(1) by blast
qed

lemma chain_block:
  "chain b B e \<Longrightarrow> (\<exists>ts \<in> set B. begin_of ts \<le> t \<and> t < end_of ts) \<longleftrightarrow> b \<le> t \<and> t < e"
proof (induction B arbitrary: b)
  case (Cons x B)
  then have IH: "(\<exists>ts \<in> set B. begin_of ts \<le> t \<and> t < end_of ts) \<longleftrightarrow> end_of x \<le> t \<and> t < e"
    and x: "begin_of x = b" "b \<le> end_of x" "end_of x \<le> e"
    using Cons chain_le by auto
  then show ?case by auto
qed simp

lemma occupy_view:
  assumes ok: "profile_ok M (A @ B @ C)" and n: "\<forall>ts \<in> set (A @ B @ C). \<not> slice_has (jid j) ts"
    and B: "chain b B e"
  shows "occupied (A @ map (occupy_slice j U) B @ C) t i V \<longleftrightarrow>
      occupied (A @ B @ C) t i V \<or> (i = jid j \<and> V = U \<and> b \<le> t \<and> t < e)"
    and "\<forall>ts \<in> set B. U \<subseteq> available_machines ts \<Longrightarrow> chain b0 (A @ B @ C) e0 \<Longrightarrow>
      free_at (A @ map (occupy_slice j U) B @ C) t m \<longleftrightarrow>
      free_at (A @ B @ C) t m \<and> \<not> (m \<in> U \<and> b \<le> t \<and> t < e)"
proof -
  have jm: "jm_ok (allocated_jobs ts)" "jm_get (jid j) (allocated_jobs ts) = None" if "ts \<in> set B" for ts
    using profile_okD(2)[OF ok, of ts] n that
    by (auto simp: slice_ok_def slice_has_def jm_get_None_iff)
  have "occupied (map (occupy_slice j U) B) t i V \<longleftrightarrow>
      occupied B t i V \<or> (i = jid j \<and> V = U \<and> (\<exists>ts \<in> set B. begin_of ts \<le> t \<and> t < end_of ts))"
    unfolding occupied_def using jm by (auto simp: jm_get_put split: if_splits)
  then show "occupied (A @ map (occupy_slice j U) B @ C) t i V \<longleftrightarrow>
      occupied (A @ B @ C) t i V \<or> (i = jid j \<and> V = U \<and> b \<le> t \<and> t < e)"
    using chain_block[OF B] by auto
  assume "\<forall>ts \<in> set B. U \<subseteq> available_machines ts" and c: "chain b0 (A @ B @ C) e0"
  have "free_at (map (occupy_slice j U) B) t m \<longleftrightarrow> free_at B t m \<and> m \<notin> U"
    unfolding free_at_def by auto
  moreover have "\<not> free_at A t m" "\<not> free_at C t m" if "b \<le> t" "t < e"
  proof -
    obtain m1 m2 where "chain b0 A m1" "chain m1 B m2" "chain m2 C e0"
      using c by (auto simp: chain_append)
    moreover have "B \<noteq> []" using B that by auto
    then have "m1 = b" "m2 = e"
      using \<open>chain m1 B m2\<close> B chain_last[OF \<open>chain m1 B m2\<close>] chain_last[OF B]
      by (cases B; simp)+
    ultimately show "\<not> free_at A t m" "\<not> free_at C t m"
      using that chain_bounds[of b0 A b] chain_bounds[of e C e0] unfolding free_at_def by force+
  qed
  moreover have "b \<le> t \<and> t < e" if "free_at B t m"
    using that chain_block[OF B, of t] by (auto simp: free_at_def)
  ultimately show "free_at (A @ map (occupy_slice j U) B @ C) t m \<longleftrightarrow>
      free_at (A @ B @ C) t m \<and> \<not> (m \<in> U \<and> b \<le> t \<and> t < e)" by auto
qed

end
