(* ===== verification/First_Fit_Correct.thy ===== *)
theory First_Fit_Correct
  imports First_Fit
begin

text \<open>
  Correctness of the insertion of a job: the scan finds the earliest anchor from which the job
  fits during its whole walltime, and the update of the profile keeps the invariant of the
  schedule and adds exactly the chosen machines over exactly the job's walltime.
\<close>

subsection \<open>The update of the profile\<close>

lemma place_job_profile:
  assumes P: "profile s = A @ B @ [x] @ C" and i: "i = length A" and k: "k = length A + length B"
    and w: "date = begin_of (hd (B @ [x])) + walltime j"
  obtains s' D x1 where "place_job j i k U s = Some s'"
    "profile s' = A @ map (occupy_slice j U) (B @ [x1]) @ D"
    "(x1 = x \<and> D = C \<and> \<not> (begin_of x < date \<and> date < end_of x)) \<or>
     (begin_of x < date \<and> date < end_of x \<and> A @ (B @ [x1]) @ D = split_profile date (A @ B) x C
      \<and> end_of x1 = date \<and> available_machines x1 = available_machines x)"
    "nb_machines s' = nb_machines s" "repair_machines s' = repair_machines s"
    "sched_size s' = sched_size s" "nb_jobs_size s' = nb_jobs_size s"
    "nb_reservations_size s' = nb_reservations_size s" "allocations s' = allocations s"
proof -
  define s1 where "s1 = s\<lparr>profile := (A @ map (occupy_slice j U) B) @ x # C\<rparr>"
  have s1: "profile s1 = (A @ map (occupy_slice j U) B) @ x # C" unfolding s1_def by simp
  have k1: "k = length (A @ map (occupy_slice j U) B)" using k by simp
  have d: "begin_of (profile s ! i) + walltime j = date" using P i w by (cases B) (auto simp: nth_append)
  have "s\<lparr>profile := take i (profile s) @
     map (occupy_slice j U) (take (k - i) (drop i (profile s))) @ drop k (profile s)\<rparr> = s1"
    using P i k by (simp add: s1_def)
  then have pj: "place_job j i k U s = do {
     (s2, _, first, _) \<leftarrow> split_slice k date s1;
     Some (s2\<lparr>profile := (profile s2)[first := occupy_slice j U (profile s2 ! first)]\<rparr>) }"
    unfolding place_job_def Let_def d by simp
  show thesis
  proof (rule split_slice_cases[OF s1 k1, of date], goal_cases)
    case 1
    have "place_job j i k U s = Some (s1\<lparr>profile := (profile s1)[k := occupy_slice j U (profile s1 ! k)]\<rparr>)"
      unfolding pj 1(2) by simp
    then show ?thesis
      by (rule that[of _ x C]) (use 1(1) s1 k1 in \<open>simp_all add: list_update_append nth_append s1_def\<close>)
  next
    case (2 s')
    let ?x1 = "x\<lparr>end_of := date, length_of := date - begin_of x\<rparr>"
    let ?x2 = "x\<lparr>begin_of := date, length_of := end_of x - date\<rparr>"
    have s': "profile s' = (A @ map (occupy_slice j U) B) @ ?x1 # ?x2 # C"
      using 2 by (simp add: split_profile_def)
    have "place_job j i k U s = Some (s'\<lparr>profile := (profile s')[k := occupy_slice j U (profile s' ! k)]\<rparr>)"
      unfolding pj 2(3) by simp
    then show ?thesis
      by (rule that[of _ ?x1 "?x2 # C"])
        (use 2 s' k1 in \<open>simp_all add: list_update_append nth_append split_profile_def s1_def\<close>)
  qed
qed

text \<open>The abstract effect: job \<open>i\<close> holds \<open>U\<close> from \<open>b\<close> to \<open>e\<close>, nothing else changes.\<close>

definition adds_job :: "job_id \<Rightarrow> machines \<Rightarrow> time \<Rightarrow> time \<Rightarrow> time_slice list \<Rightarrow> time_slice list \<Rightarrow> bool" where
  "adds_job i U b e P P' \<longleftrightarrow>
     (\<forall>t i' V. occupied P' t i' V \<longleftrightarrow> occupied P t i' V \<or> (i' = i \<and> V = U \<and> b \<le> t \<and> t < e)) \<and>
     (\<forall>t m. free_at P' t m \<longleftrightarrow> free_at P t m \<and> \<not> (m \<in> U \<and> b \<le> t \<and> t < e))"

text \<open>
  The effect on the slices.  Every new slice lies inside an old one and has its jobs, apart from
  \<open>i\<close>, whose slices end by \<open>e\<close>; \<open>i\<close> holds \<open>U\<close> in all the slices that meet the period from \<open>b\<close>
  to \<open>e\<close>, and it is in the first slice when it is placed from slice 0 on.
\<close>

definition held_ids :: "time_slice list \<Rightarrow> job_id set" where
  "held_ids P = {i. \<exists>ts \<in> set P. slice_has i ts}"

definition inside :: "job_id \<Rightarrow> time_slice \<Rightarrow> time_slice \<Rightarrow> bool" where
  "inside i ts' ts \<longleftrightarrow> begin_of ts \<le> begin_of ts' \<and> end_of ts' \<le> end_of ts \<and>
     (\<forall>k. k \<noteq> i \<longrightarrow> jm_get k (allocated_jobs ts') = jm_get k (allocated_jobs ts))"

definition covers :: "job_id \<Rightarrow> machines \<Rightarrow> time \<Rightarrow> time \<Rightarrow> time_slice list \<Rightarrow> bool" where
  "covers i U b e P \<longleftrightarrow> (\<forall>ts \<in> set P. b < end_of ts \<longrightarrow> begin_of ts < e \<longrightarrow> jm_get i (allocated_jobs ts) = Some U)"

definition places :: "job_id \<Rightarrow> machines \<Rightarrow> nat \<Rightarrow> time \<Rightarrow> time \<Rightarrow> time_slice list \<Rightarrow> time_slice list \<Rightarrow> bool" where
  "places i U n b e P P' \<longleftrightarrow>
     held_ids P' = insert i (held_ids P) \<and>
     (\<forall>ts' \<in> set P'. \<exists>ts \<in> set P. inside i ts' ts) \<and>
     (\<forall>ts' \<in> set P'. slice_has i ts' \<longrightarrow> end_of ts' \<le> e) \<and>
     covers i U b e P' \<and>
     jm_get i (allocated_jobs (hd P')) = (if n = 0 then Some U else None) \<and>
     (\<forall>k. k \<noteq> i \<longrightarrow> jm_get k (allocated_jobs (hd P')) = jm_get k (allocated_jobs (hd P)))"

lemma places_block:
  assumes ok: "\<forall>ts \<in> set (A @ B @ D). jm_ok (allocated_jobs ts)" and B: "B \<noteq> []"
    and ch: "chain b0 A b" "chain b B e" "chain e D h"
    and n: "\<forall>ts \<in> set (A @ B @ D). \<not> slice_has (jid j) ts"
  shows "places (jid j) U (length A) b e (A @ B @ D) (A @ map (occupy_slice j U) B @ D)"
proof -
  let ?P = "A @ B @ D" and ?P' = "A @ map (occupy_slice j U) B @ D" and ?i = "jid j"
  have get: "jm_get k (allocated_jobs (occupy_slice j U ts)) = (if k = ?i then Some U else jm_get k (allocated_jobs ts))"
    if "ts \<in> set B" for k ts
    using jm_get_put[of "allocated_jobs ts" k j U] ok that by simp
  have has: "slice_has k (occupy_slice j U ts) \<longleftrightarrow> k = ?i \<or> slice_has k ts" if "ts \<in> set B" for k ts
    unfolding slice_has_get get[OF that] by simp
  have set': "set ?P' = set (A @ D) \<union> occupy_slice j U ` set B" by auto
  have none: "jm_get ?i (allocated_jobs ts) = None" if "ts \<in> set ?P" for ts
    using n that unfolding slice_has_get by (cases "jm_get ?i (allocated_jobs ts)") auto
  have "held_ids ?P' = insert ?i (held_ids ?P)"
  proof -
    have "held_ids ?P' = {k. \<exists>ts \<in> set (A @ D). slice_has k ts} \<union> {k. \<exists>ts \<in> set B. slice_has k (occupy_slice j U ts)}"
      unfolding held_ids_def set' by blast
    also have "{k. \<exists>ts \<in> set B. slice_has k (occupy_slice j U ts)} = insert ?i {k. \<exists>ts \<in> set B. slice_has k ts}"
      using has B by (auto simp: neq_Nil_conv)
    finally show ?thesis unfolding held_ids_def by auto
  qed
  moreover have "\<exists>ts \<in> set ?P. inside ?i ts' ts" if m: "ts' \<in> set ?P'" for ts'
  proof (cases "ts' \<in> set (A @ D)")
    case True
    then show ?thesis by (intro bexI[of _ ts']) (auto simp: inside_def)
  next
    case False
    then obtain ts where "ts \<in> set B" "ts' = occupy_slice j U ts" using m unfolding set' by blast
    then show ?thesis using get by (intro bexI[of _ ts]) (auto simp: inside_def)
  qed
  moreover have "end_of ts' \<le> e" if m: "ts' \<in> set ?P'" "slice_has ?i ts'" for ts'
  proof -
    have "ts' \<notin> set (A @ D)" using n m(2) by auto
    then obtain ts where "ts \<in> set B" "ts' = occupy_slice j U ts" using m(1) unfolding set' by blast
    then show ?thesis using chain_bounds[OF ch(2)] by simp
  qed
  moreover have "covers ?i U b e ?P'"
    unfolding covers_def
  proof (intro ballI impI)
    fix ts'
    assume ts': "ts' \<in> set ?P'" "b < end_of ts'" "begin_of ts' < e"
    have "ts' \<notin> set A" using chain_bounds[OF ch(1), of ts'] ts'(2) by auto
    moreover have "ts' \<notin> set D" using chain_bounds[OF ch(3), of ts'] ts'(3) by auto
    ultimately have "ts' \<in> occupy_slice j U ` set B" using ts'(1) unfolding set' by simp
    then show "jm_get ?i (allocated_jobs ts') = Some U" using get by auto
  qed
  moreover have "jm_get ?i (allocated_jobs (hd ?P')) = (if length A = 0 then Some U else None)"
    using get none B by (cases A; cases B) auto
  moreover have "jm_get k (allocated_jobs (hd ?P')) = jm_get k (allocated_jobs (hd ?P))" if "k \<noteq> ?i" for k
    using get[of _ k] that B by (cases A; cases B) auto
  ultimately show ?thesis unfolding places_def by blast
qed

lemma places_before:
  assumes "places i U n b e Q P'" and "held_ids Q = held_ids P"
    and "\<forall>ts \<in> set Q. \<exists>ts0 \<in> set P. allocated_jobs ts = allocated_jobs ts0 \<and> begin_of ts0 \<le> begin_of ts \<and> end_of ts \<le> end_of ts0"
    and "allocated_jobs (hd Q) = allocated_jobs (hd P)"
  shows "places i U n b e P P'"
proof -
  have "\<exists>ts \<in> set P. inside i ts' ts" if "ts' \<in> set P'" for ts'
  proof -
    obtain ts where ts: "ts \<in> set Q" "inside i ts' ts" using assms(1) \<open>ts' \<in> set P'\<close> unfolding places_def by blast
    obtain ts0 where ts0: "ts0 \<in> set P" "allocated_jobs ts = allocated_jobs ts0" "begin_of ts0 \<le> begin_of ts" "end_of ts \<le> end_of ts0"
      using assms(3) ts(1) by blast
    have "inside i ts' ts0" using ts(2) ts0(2-4) unfolding inside_def by (auto intro: order_trans)
    then show ?thesis using ts0(1) by blast
  qed
  then show ?thesis using assms(1,2,4) by (simp add: places_def)
qed

lemma place_job_correct:
  assumes ok: "schedule_ok s"
    and P: "profile s = A @ B @ [x] @ C" and i: "i = length A" and k: "k = length A + length B"
    and b: "b = begin_of (hd (B @ [x]))" and w: "begin_of x < b + walltime j" "b + walltime j \<le> end_of x"
    and n: "\<forall>ts \<in> set (profile s). \<not> slice_has (jid j) ts" and g: "good_id (jid j)"
    and U: "\<forall>ts \<in> set (B @ [x]). U \<subseteq> available_machines ts"
    and c: "int (card U) = nb_requested_resources j"
  obtains s' where "place_job j i k U s = Some s'" "schedule_ok s'"
    "adds_job (jid j) U b (b + walltime j) (profile s) (profile s')"
    "nb_machines s' = nb_machines s" "repair_machines s' = repair_machines s"
    "sched_size s' = sched_size s" "nb_jobs_size s' = nb_jobs_size s"
    "nb_reservations_size s' = nb_reservations_size s" "allocations s' = allocations s"
    "begin_of (hd (profile s')) = begin_of (hd (profile s))"
    "places (jid j) U (length A) b (b + walltime j) (profile s) (profile s')"
proof -
  let ?date = "b + walltime j" and ?M = "in_service s" and ?b0 = "begin_of (hd (profile s))"
  note sok = ok[unfolded schedule_ok_def]
  have len: "length_of x = end_of x - begin_of x"
    using sok P unfolding profile_ok_def slice_ok_def by auto
  obtain s' D x1 where s': "place_job j i k U s = Some s'"
    "profile s' = A @ map (occupy_slice j U) (B @ [x1]) @ D"
    "(x1 = x \<and> D = C \<and> \<not> (begin_of x < ?date \<and> ?date < end_of x)) \<or>
     (begin_of x < ?date \<and> ?date < end_of x \<and> A @ (B @ [x1]) @ D = split_profile ?date (A @ B) x C
      \<and> end_of x1 = ?date \<and> available_machines x1 = available_machines x)"
    and rest: "nb_machines s' = nb_machines s" "repair_machines s' = repair_machines s"
      "sched_size s' = sched_size s" "nb_jobs_size s' = nb_jobs_size s"
      "nb_reservations_size s' = nb_reservations_size s" "allocations s' = allocations s"
    by (rule place_job_profile[OF P i k, of ?date]) (use b in auto)
  define Q where "Q = A @ (B @ [x1]) @ D"
  have split: "profile_ok ?M Q" "occupied Q t i' V \<longleftrightarrow> occupied (profile s) t i' V"
    "free_at Q t m \<longleftrightarrow> free_at (profile s) t m" "chain ?b0 Q horizon" for t i' V m
  proof -
    consider "Q = profile s" | "Q = split_profile ?date (A @ B) x C" "begin_of x < ?date" "?date < end_of x"
      using s'(3) P unfolding Q_def by auto
    then show "profile_ok ?M Q" "occupied Q t i' V \<longleftrightarrow> occupied (profile s) t i' V"
      "free_at Q t m \<longleftrightarrow> free_at (profile s) t m" "chain ?b0 Q horizon"
      by (cases; use sok P len split_slice_view[where ts = x and date = ?date and A = "A @ B" and B = C] in simp)+
  qed
  have hd_x1: "begin_of (hd (B @ [x1])) = b"
    using s'(3) b by (cases B) (auto simp: split_profile_def)
  have e: "end_of x1 = ?date" using s'(3) w by auto
  have content: "\<forall>ts \<in> set Q. \<exists>ts0 \<in> set (profile s). allocated_jobs ts = allocated_jobs ts0"
    using s'(3) P unfolding Q_def by (auto simp: split_profile_def)
  have n': "\<forall>ts \<in> set (A @ (B @ [x1]) @ D). \<not> slice_has (jid j) ts"
    using content n unfolding Q_def slice_has_def by fastforce
  have U': "\<forall>ts \<in> set (B @ [x1]). U \<subseteq> available_machines ts" using U s'(3) by auto
  have chB: "chain b (B @ [x1]) ?date"
  proof -
    obtain m1 m2 where c: "chain m1 (B @ [x1]) m2" using split(4) unfolding Q_def chain_append[of _ A] chain_append[of _ "B @ [x1]"] by blast
    have "m1 = b" using c hd_x1 by (cases B) auto
    moreover have "m2 = ?date" using chain_last[OF c] e by simp
    ultimately show ?thesis using c by simp
  qed
  have occ: "adds_job (jid j) U b ?date (profile s) (profile s')"
    unfolding adds_job_def s'(2)
    by (simp only: occupy_view(1)[OF split(1)[unfolded Q_def] n' chB] split(2,3)[unfolded Q_def]
        occupy_view(2)[OF split(1)[unfolded Q_def] n' chB U' split(4)[unfolded Q_def]]) simp
  have hd: "begin_of (hd (profile s')) = begin_of (hd Q)"
    unfolding s'(2) Q_def by (cases A; cases B) auto
  have "begin_of (hd Q) = ?b0" using split(4) unfolding Q_def by (cases A; cases B) auto
  moreover have "chain ?b0 (profile s') horizon"
    using split(4) unfolding s'(2) Q_def by (simp only: chain_append chain_occupy)
  moreover have "profile_ok ?M (profile s')"
    unfolding s'(2) by (rule occupy_block[OF split(1)[unfolded Q_def] n' U' c g])
  ultimately have sok': "schedule_ok s'" using hd rest s'(2) by (simp add: schedule_ok_def in_service_def)
  have shorter: "\<forall>ts \<in> set Q. \<exists>ts0 \<in> set (profile s). allocated_jobs ts = allocated_jobs ts0 \<and>
      begin_of ts0 \<le> begin_of ts \<and> end_of ts \<le> end_of ts0"
    using s'(3) P unfolding Q_def by (auto simp: split_profile_def)
  have heldQ: "held_ids Q = held_ids (profile s)"
    using s'(3) P unfolding Q_def held_ids_def by (auto simp: split_profile_def slice_has_def)
  have hdQ: "allocated_jobs (hd Q) = allocated_jobs (hd (profile s))"
    using s'(3) P unfolding Q_def by (cases A; cases B) (auto simp: split_profile_def)
  obtain m1 m2 where m: "chain ?b0 A m1" "chain m1 (B @ [x1]) m2" "chain m2 D horizon"
    using split(4) unfolding Q_def chain_append[of _ A] chain_append[of _ "B @ [x1]"] by blast
  have m1: "m1 = b" using m(2) hd_x1 by (cases B) auto
  have m2: "m2 = ?date" using chain_last[OF m(2)] e by simp
  have jm: "\<forall>ts \<in> set Q. jm_ok (allocated_jobs ts)" using profile_okD(2)[OF split(1)] by (simp add: slice_ok_def)
  have "places (jid j) U (length A) b ?date Q (profile s')"
    unfolding s'(2) Q_def by (rule places_block[OF jm[unfolded Q_def] _ m[unfolded m1 m2] n']) simp
  then have "places (jid j) U (length A) b ?date (profile s) (profile s')"
    by (rule places_before[OF _ heldQ shorter hdQ])
  then show thesis using that[of s'] s'(1) occ rest hd \<open>begin_of (hd Q) = ?b0\<close> sok' by simp
qed

subsection \<open>The scan finds the earliest anchor\<close>

text \<open>
  Reference definition: the number of following slices and the machines free in all the slices
  from the head of the list until the duration \<open>w\<close> is covered.
\<close>

fun window :: "time \<Rightarrow> time_slice list \<Rightarrow> (nat \<times> machines) option" where
  "window w [] = None"
| "window w (ts # rest) =
     (if w \<le> length_of ts then Some (0, available_machines ts)
      else case window (w - length_of ts) rest of
          None \<Rightarrow> None
        | Some (d, A) \<Rightarrow> Some (Suc d, available_machines ts \<inter> A))"

lemma window_subset: "window w (ts # rest) = Some (d, B) \<Longrightarrow> B \<subseteq> available_machines ts"
  by (auto split: if_splits option.splits)

text \<open>The head of the list is an anchor for the job: its last slice and machines.\<close>

definition anchor :: "selector \<Rightarrow> time \<Rightarrow> job \<Rightarrow> time_slice list \<Rightarrow> (nat \<times> machines) option" where
  "anchor fit hz j Q =
     (let j' = effective_walltime hz (hd Q) j in
      case window (walltime j') Q of
        None \<Rightarrow> None
      | Some (d, A) \<Rightarrow> (case fit j' A of Some (Some U) \<Rightarrow> Some (d, U) | _ \<Rightarrow> None))"

lemma effective_walltime_simps [simp]:
  "nb_requested_resources (effective_walltime hz ts j) = nb_requested_resources j"
  "jid (effective_walltime hz ts j) = jid j"
  "purpose (effective_walltime hz ts j) = purpose j"
  "has_walltime (effective_walltime hz ts j) = has_walltime j"
  "has_walltime j \<Longrightarrow> effective_walltime hz ts j = j"
  by (simp_all add: effective_walltime_def)

text \<open>What the scan needs of the slices: the counter of free machines is exact.\<close>

definition counted :: "time_slice \<Rightarrow> bool" where
  "counted ts \<longleftrightarrow> finite (available_machines ts) \<and>
     nb_available_machines ts = int (card (available_machines ts))"

lemma slice_ok_counted: "finite M \<Longrightarrow> slice_ok M ts \<Longrightarrow> counted ts"
  by (simp add: slice_ok_def counted_def)

context resource_selector
begin

lemma fit_needs_enough:
  assumes "finite A" "0 \<le> nb_requested_resources j" "int (card A) < nb_requested_resources j"
  shows "fit j A = Some None"
proof (rule fit_cases[OF assms(1,2)])
  fix U
  assume U: "U \<subseteq> A" "int (card U) = nb_requested_resources j"
  then have False using card_mono[OF assms(1) U(1)] assms(3) by linarith
  then show ?thesis ..
qed

text \<open>Once the job does not fit, a longer window does not help.\<close>

lemma extend_window_refused:
  assumes "finite A" "0 \<le> nb_requested_resources j" "fit j A = Some None"
  shows "extend_window fit j A tot rest k = Some None"
  using assms(1,3)
proof (induction rest arbitrary: A tot k)
  case (Cons ts rest)
  have "fit j (A \<inter> available_machines ts) = Some None"
    using fit_refuses_less[OF Cons.prems(1) assms(2) Cons.prems(2)] by simp
  then show ?case using Cons by (simp add: Let_def)
qed simp

lemma extend_window_eq:
  assumes r: "0 \<le> nb_requested_resources j"
    and "finite A" "\<forall>ts \<in> set rest. counted ts" "tot < walltime j"
  shows "extend_window fit j A tot rest k = Some
     (case window (walltime j - tot) rest of
        None \<Rightarrow> None
      | Some (d, B) \<Rightarrow> (case fit j (A \<inter> B) of Some (Some U) \<Rightarrow> Some (k + d, U) | _ \<Rightarrow> None))"
  using assms(2-)
proof (induction rest arbitrary: A tot k)
  case (Cons ts rest)
  let ?A = "A \<inter> available_machines ts"
  have fin: "finite ?A" using Cons.prems(1) by simp
  have ts: "counted ts" "\<forall>x \<in> set rest. counted x" using Cons.prems(2) by auto
  have small: "extend_window fit j A tot (ts # rest) k = Some None" "fit j (?A \<inter> B) = Some None"
    if "nb_available_machines ts < nb_requested_resources j \<or> int (card ?A) < nb_requested_resources j" for B
  proof -
    have "card ?A \<le> card (available_machines ts)"
      using ts(1) by (intro card_mono) (auto simp: counted_def)
    then have "int (card ?A) < nb_requested_resources j" using that ts(1) by (auto simp: counted_def)
    then have "fit j ?A = Some None" by (rule fit_needs_enough[OF fin r])
    then show "fit j (?A \<inter> B) = Some None" by (rule fit_refuses_less[OF fin r]) (rule Int_lower1)
    show "extend_window fit j A tot (ts # rest) k = Some None" using that by (auto simp: Let_def)
  qed
  show ?case
  proof (cases "nb_available_machines ts < nb_requested_resources j \<or> int (card ?A) < nb_requested_resources j")
    case True
    show ?thesis
    proof (cases "window (walltime j - tot) (ts # rest)")
      case None
      then show ?thesis unfolding small(1)[OF True] by simp
    next
      case (Some p)
      obtain d B where p: "p = (d, B)" by (cases p)
      have "A \<inter> B = ?A \<inter> B" using window_subset[of "walltime j - tot" ts rest d B] Some p by blast
      then have "fit j (A \<inter> B) = Some None" using small(2)[OF True, of B] by presburger
      then show ?thesis unfolding small(1)[OF True] Some p by simp
    qed
  next
    case big: False
    show ?thesis
    proof (cases "walltime j \<le> tot + length_of ts")
      case True
      then show ?thesis using big fit_returns[OF fin r] extend_window_refused[OF fin r]
        by (auto simp: Let_def le_diff_eq add.commute split: option.splits)
    next
      case False
      then show ?thesis using big Cons.IH[OF fin ts(2), of "tot + length_of ts" "Suc k"]
        by (auto simp: Let_def le_diff_eq add.commute diff_diff_eq Int_assoc split: option.splits)
    qed
  qed
qed simp

text \<open>One step of the outer loop.\<close>

lemma scan_step:
  assumes r: "0 \<le> nb_requested_resources j" and c: "\<forall>x \<in> set (ts # rest). counted x"
  shows "scan_anchor fit hz j (ts # rest) i =
    (case anchor fit hz j (ts # rest) of
       Some (d, U) \<Rightarrow> Some (effective_walltime hz ts j, Some (i, i + d, U))
     | None \<Rightarrow> scan_anchor fit hz
         (if nb_requested_resources j \<le> nb_available_machines ts then effective_walltime hz ts j else j)
         rest (Suc i))"
proof -
  let ?j = "effective_walltime hz ts j"
  have rj: "nb_requested_resources ?j = nb_requested_resources j" by simp
  have fin: "finite (available_machines ts)" and cnt: "nb_available_machines ts = int (card (available_machines ts))"
    using c by (simp_all add: counted_def)
  show ?thesis
  proof (cases "nb_requested_resources j \<le> nb_available_machines ts")
    case False
    have none: "fit ?j (available_machines ts) = Some None"
      using fit_needs_enough[OF fin, of ?j] r False cnt by simp
    have "anchor fit hz j (ts # rest) = None"
    proof (cases "window (walltime ?j) (ts # rest)")
      case (Some p)
      obtain d B where p: "p = (d, B)" by (cases p)
      have "fit ?j B = Some None"
        using fit_refuses_less[OF fin _ none window_subset] r Some p by simp
      then show ?thesis using Some p by (simp add: anchor_def)
    qed (simp add: anchor_def)
    then show ?thesis using False by simp
  next
    case enough: True
    show ?thesis
    proof (cases "walltime ?j \<le> length_of ts")
      case True
      then show ?thesis using enough fit_returns[OF fin, of ?j] r
        by (auto simp: anchor_def Let_def split: option.split)
    next
      case False
      then have "extend_window fit ?j (available_machines ts) (length_of ts) rest (Suc i) = Some
        (case window (walltime ?j - length_of ts) rest of None \<Rightarrow> None
         | Some (d, B) \<Rightarrow> (case fit ?j (available_machines ts \<inter> B) of
             Some (Some U) \<Rightarrow> Some (Suc i + d, U) | _ \<Rightarrow> None))"
        using extend_window_eq[of ?j "available_machines ts" rest "length_of ts" "Suc i"] r fin c by simp
      then show ?thesis using enough False
        by (simp add: anchor_def Let_def split: option.split prod.split)
    qed
  qed
qed

lemma scan_anchor_spec:
  assumes r: "0 \<le> nb_requested_resources j" and c: "\<forall>ts \<in> set P. counted ts"
  shows "(\<exists>n d U. n < length P \<and> anchor fit hz j (drop n P) = Some (d, U) \<and>
      (\<forall>m < n. anchor fit hz j (drop m P) = None) \<and>
      scan_anchor fit hz j P i = Some (effective_walltime hz (P ! n) j, Some (i + n, i + n + d, U))) \<or>
    ((\<forall>m < length P. anchor fit hz j (drop m P) = None) \<and>
      (\<exists>w. scan_anchor fit hz j P i = Some (j\<lparr>walltime := w\<rparr>, None) \<and>
        (has_walltime j \<longrightarrow> w = walltime j)))"
  using assms
proof (induction P arbitrary: i j)
  case Nil
  then show ?case by (auto intro: exI[of _ "walltime j"])
next
  case (Cons ts rest)
  note step = scan_step[OF Cons.prems, of hz i]
  show ?case
  proof (cases "anchor fit hz j (ts # rest)")
    case (Some p)
    obtain d U where p: "p = (d, U)" by (cases p)
    then show ?thesis using Some step by (intro disjI1 exI[of _ 0] exI[of _ d] exI[of _ U]) simp
  next
    case None
    define j' where "j' = (if nb_requested_resources j \<le> nb_available_machines ts
      then effective_walltime hz ts j else j)"
    have eff: "effective_walltime hz x j' = effective_walltime hz x j" for x
      by (simp add: j'_def effective_walltime_def)
    then have anc: "anchor fit hz j' Q = anchor fit hz j Q" for Q by (simp add: anchor_def)
    have w: "\<exists>w. j'\<lparr>walltime := v\<rparr> = j\<lparr>walltime := w\<rparr> \<and> (has_walltime j \<longrightarrow> v = walltime j' \<longrightarrow> w = walltime j)" for v
      by (auto simp: j'_def effective_walltime_def)
    have hw: "has_walltime j' = has_walltime j" by (simp add: j'_def effective_walltime_def)
    have s: "scan_anchor fit hz j (ts # rest) i = scan_anchor fit hz j' rest (Suc i)"
      using step None by (simp add: j'_def)
    have rj: "0 \<le> nb_requested_resources j'" using Cons.prems(1) by (simp add: j'_def effective_walltime_def)
    have cr: "\<forall>x \<in> set rest. counted x" using Cons.prems(2) by simp
    consider (found) n d U where "n < length rest" "anchor fit hz j (drop n rest) = Some (d, U)"
        "\<forall>m < n. anchor fit hz j (drop m rest) = None"
        "scan_anchor fit hz j (ts # rest) i =
           Some (effective_walltime hz (rest ! n) j, Some (Suc i + n, Suc i + n + d, U))"
      | (no) v where "\<forall>m < length rest. anchor fit hz j (drop m rest) = None"
        "scan_anchor fit hz j (ts # rest) i = Some (j'\<lparr>walltime := v\<rparr>, None)"
        "has_walltime j \<longrightarrow> v = walltime j'"
      using Cons.IH[OF rj cr, of "Suc i"] unfolding anc eff s hw by blast
    then show ?thesis
    proof cases
      case found
      then show ?thesis using None
        by (intro disjI1 exI[of _ "Suc n"] exI[of _ d] exI[of _ U]) (auto simp: less_Suc_eq_0_disj)
    next
      case no
      have "\<forall>m < length (ts # rest). anchor fit hz j (drop m (ts # rest)) = None"
        using no(1) None by (auto simp: less_Suc_eq_0_disj)
      then show ?thesis using no(2,3) w[of v] by metis
    qed
  qed
qed

end

subsection \<open>What a window is\<close>

lemma window_Some:
  assumes "window w Q = Some (d, A)" "chain b Q e" "0 < w"
    and "\<forall>ts \<in> set Q. length_of ts = end_of ts - begin_of ts"
  obtains B x C where "Q = B @ [x] @ C" "length B = d" "\<forall>ts \<in> set (B @ [x]). A \<subseteq> available_machines ts"
    "begin_of x < b + w" "b + w \<le> end_of x"
proof -
  have "\<exists>B x C. Q = B @ [x] @ C \<and> length B = d \<and> (\<forall>ts \<in> set (B @ [x]). A \<subseteq> available_machines ts) \<and>
    begin_of x < b + w \<and> b + w \<le> end_of x"
    using assms
  proof (induction w Q arbitrary: b d A rule: window.induct)
    case (2 w ts rest)
    show ?case
    proof (cases "w \<le> length_of ts")
      case True
      then show ?thesis using 2 by (intro exI[of _ "[]"] exI[of _ ts] exI[of _ rest]) auto
    next
      case False
      then obtain d' A' where w': "window (w - length_of ts) rest = Some (d', A')"
        "d = Suc d'" "A = available_machines ts \<inter> A'"
        using "2.prems"(1) by (auto split: option.splits)
      obtain B x C where *: "rest = B @ [x] @ C" "length B = d'" "\<forall>ts \<in> set (B @ [x]). A' \<subseteq> available_machines ts"
        "begin_of x < end_of ts + (w - length_of ts)" "end_of ts + (w - length_of ts) \<le> end_of x"
        using "2.IH"[OF False w'(1), of "end_of ts"] "2.prems" False by auto
      have "end_of ts + (w - length_of ts) = b + w" using "2.prems"(2,4) by simp
      then show ?thesis using * w'
        by (intro exI[of _ "ts # B"] exI[of _ x] exI[of _ C]) auto
    qed
  qed simp
  then show thesis using that by blast
qed

text \<open>The machines of a window are the machines free at every date of it.\<close>

lemma window_free:
  assumes "window w Q = Some (d, A)" "chain b Q e" "0 < w"
    and "\<forall>ts \<in> set Q. length_of ts = end_of ts - begin_of ts"
    and "\<forall>ts \<in> set Q. begin_of ts < end_of ts"
  shows "m \<in> A \<longleftrightarrow> (\<forall>t. b \<le> t \<and> t < b + w \<longrightarrow> free_at Q t m)"
  using assms
proof (induction w Q arbitrary: b d A rule: window.induct)
  case (2 w ts rest)
  have ts: "begin_of ts = b" "length_of ts = end_of ts - b" "b < end_of ts" "chain (end_of ts) rest e"
    using "2.prems"(2,4,5) by auto
  have fr: "\<not> free_at rest t m" if "t < end_of ts" for t
    using that chain_bounds[OF ts(4)] by (fastforce simp: free_at_def)
  show ?case
  proof (cases "w \<le> length_of ts")
    case True
    have A: "A = available_machines ts" using True "2.prems"(1) by simp
    have "free_at (ts # rest) t m \<longleftrightarrow> m \<in> available_machines ts" if "b \<le> t" "t < b + w" for t
      using that True ts fr by auto
    moreover have "b \<le> b" "b < b + w" using "2.prems"(3) by auto
    ultimately show ?thesis using A by blast
  next
    case False
    then obtain d' A' where w': "window (w - length_of ts) rest = Some (d', A')"
      "A = available_machines ts \<inter> A'"
      using "2.prems"(1) by (auto split: option.splits)
    have e: "end_of ts + (w - length_of ts) = b + w" using ts by simp
    have IH: "m \<in> A' \<longleftrightarrow> (\<forall>t. end_of ts \<le> t \<and> t < b + w \<longrightarrow> free_at rest t m)"
      using "2.IH"[OF False w'(1) ts(4), unfolded e] "2.prems"(4,5) False by simp
    have now: "free_at (ts # rest) t m \<longleftrightarrow> m \<in> available_machines ts" if "b \<le> t" "t < end_of ts" for t
      using that ts fr by auto
    have later: "free_at (ts # rest) t m \<longleftrightarrow> free_at rest t m" if "end_of ts \<le> t" for t
      using that by auto
    have "b < b + w" using "2.prems"(3) by simp
    show ?thesis
    proof
      assume "m \<in> A"
      then show "\<forall>t. b \<le> t \<and> t < b + w \<longrightarrow> free_at (ts # rest) t m"
        using w'(2) IH now later by (metis IntE not_le_imp_less)
    next
      assume *: "\<forall>t. b \<le> t \<and> t < b + w \<longrightarrow> free_at (ts # rest) t m"
      have "free_at (ts # rest) b m" using * \<open>b < b + w\<close> by blast
      then have "m \<in> available_machines ts" using now[of b] ts(3) by blast
      moreover have "m \<in> A'" using * IH later ts(3) by (meson less_imp_le order_trans)
      ultimately show "m \<in> A" using w'(2) by simp
    qed
  qed
qed simp

subsection \<open>Adding a job after a slice\<close>

lemma schedule_ok_slices:
  assumes "schedule_ok s"
  shows "ts \<in> set (profile s) \<Longrightarrow> counted ts"
    and "ts \<in> set (profile s) \<Longrightarrow> length_of ts = end_of ts - begin_of ts"
    and "end_of (last (profile s)) = horizon"
    and "n < length (profile s) \<Longrightarrow> chain (begin_of (profile s ! n)) (drop n (profile s)) horizon"
proof -
  note sok = assms[unfolded schedule_ok_def]
  show "counted ts" "length_of ts = end_of ts - begin_of ts" if "ts \<in> set (profile s)" for ts
    using sok that profile_okD[of "in_service s" "profile s"] slice_ok_counted by (auto simp: slice_ok_def)
  show "end_of (last (profile s)) = horizon" using sok chain_last by blast
  assume n: "n < length (profile s)"
  then have "profile s = take n (profile s) @ profile s ! n # drop (Suc n) (profile s)"
    by (rule id_take_nth_drop)
  then obtain b where "chain b (profile s ! n # drop (Suc n) (profile s)) horizon"
    using sok by (metis chain_append)
  then show "chain (begin_of (profile s ! n)) (drop n (profile s)) horizon"
    using n by (simp add: Cons_nth_drop_Suc[symmetric])
qed

text \<open>
  The outcome of the insertion after slice \<open>first\<close>: either the job is placed at the earliest
  anchor, or no slice is an anchor and the schedule is unchanged.
\<close>

definition absent :: "job \<Rightarrow> time_slice list \<Rightarrow> bool" where
  "absent j P \<longleftrightarrow> (\<forall>ts \<in> set P. \<not> slice_has (jid j) ts)"

definition insertable :: "job \<Rightarrow> schedule \<Rightarrow> bool" where
  "insertable j s \<longleftrightarrow> 0 \<le> nb_requested_resources j \<and> good_id (jid j) \<and> absent j (profile s) \<and>
     (if has_walltime j then 0 < walltime j else \<forall>ts \<in> set (profile s). begin_of ts < horizon)"

context resource_selector
begin

lemma add_after_slice_cases:
  assumes ok: "schedule_ok s" and ins: "insertable j s"
  obtains (placed) n d U s' j' where
      "first \<le> n" "n < length (profile s)" "j' = effective_walltime horizon (profile s ! n) j"
      "anchor fit horizon j (drop n (profile s)) = Some (d, U)"
      "\<forall>m. first \<le> m \<longrightarrow> m < n \<longrightarrow> anchor fit horizon j (drop m (profile s)) = None"
      "add_job_first_fit_after_time_slice j first fit b s =
         Some (j', first_fit_alloc j' n (n + d) U (begin_of (profile s ! n)), s')"
      "schedule_ok s'" "int (card U) = nb_requested_resources j"
      "adds_job (jid j) U (begin_of (profile s ! n)) (begin_of (profile s ! n) + walltime j')
         (profile s) (profile s')"
      "nb_machines s' = nb_machines s" "repair_machines s' = repair_machines s"
      "sched_size s' = sched_size s + 1" "nb_jobs_size s' = nb_jobs_size s + 1"
      "nb_reservations_size s' = nb_reservations_size s"
      "allocations s' = allocations
         (set_allocation (first_fit_alloc j' n (n + d) U (begin_of (profile s ! n))) s)"
      "places (jid j) U n (begin_of (profile s ! n)) (begin_of (profile s ! n) + walltime j') (profile s) (profile s')"
      "begin_of (hd (profile s')) = begin_of (hd (profile s))"
  | (refused) w where
      "\<forall>m. first \<le> m \<longrightarrow> m < length (profile s) \<longrightarrow> anchor fit horizon j (drop m (profile s)) = None"
      "add_job_first_fit_after_time_slice j first fit b s =
         (if b then None else Some (j\<lparr>walltime := w\<rparr>, failed_alloc (j\<lparr>walltime := w\<rparr>), s))"
proof -
  let ?P = "profile s"
  note sl = schedule_ok_slices[OF ok]
  have r: "0 \<le> nb_requested_resources j" and g: "good_id (jid j)" and abs: "absent j ?P"
    using ins by (auto simp: insertable_def)
  have c: "\<forall>ts \<in> set (drop first ?P). counted ts" using sl(1) by (meson in_set_dropD)
  note spec = scan_anchor_spec[OF r c, of horizon first]
  consider (found) n d U where "n < length (drop first ?P)"
      "anchor fit horizon j (drop n (drop first ?P)) = Some (d, U)"
      "\<forall>m < n. anchor fit horizon j (drop m (drop first ?P)) = None"
      "scan_anchor fit horizon j (drop first ?P) first =
         Some (effective_walltime horizon (drop first ?P ! n) j, Some (first + n, first + n + d, U))"
    | (no) w where "\<forall>m < length (drop first ?P). anchor fit horizon j (drop m (drop first ?P)) = None"
      "scan_anchor fit horizon j (drop first ?P) first = Some (j\<lparr>walltime := w\<rparr>, None)"
    using spec by blast
  then show thesis
  proof cases
    case no
    have "anchor fit horizon j (drop m ?P) = None" if "first \<le> m" "m < length ?P" for m
      using no(1)[rule_format, of "m - first"] that by simp
    moreover have "add_job_first_fit_after_time_slice j first fit b s =
        (if b then None else Some (j\<lparr>walltime := w\<rparr>, failed_alloc (j\<lparr>walltime := w\<rparr>), s))"
      using no(2) sl(3) by (simp add: add_job_first_fit_after_time_slice_def Let_def)
    ultimately show thesis using refused by blast
  next
    case found
    define a where "a = first + n"
    define j' where "j' = effective_walltime horizon (?P ! a) j"
    define bg where "bg = begin_of (?P ! a)"
    have a: "a < length ?P" and nth: "drop first ?P ! n = ?P ! a" using found(1) by (auto simp: a_def)
    have anc: "anchor fit horizon j (drop a ?P) = Some (d, U)"
      using found(2) by (simp add: a_def add.commute)
    have hd: "hd (drop a ?P) = ?P ! a" using a by (rule hd_drop_conv_nth)
    obtain A where A: "window (walltime j') (drop a ?P) = Some (d, A)" "fit j' A = Some (Some U)"
      using anc unfolding anchor_def hd j'_def by (auto simp: Let_def split: option.splits)
    have w: "0 < walltime j'"
      using ins a by (auto simp: insertable_def j'_def effective_walltime_def)
    have ch: "chain bg (drop a ?P) horizon" using sl(4)[OF a] by (simp add: bg_def)
    have le: "\<forall>ts \<in> set (drop a ?P). length_of ts = end_of ts - begin_of ts"
      using sl(2) by (meson in_set_dropD)
    obtain B x C where Q: "drop a ?P = B @ [x] @ C" "length B = d"
      "\<forall>ts \<in> set (B @ [x]). A \<subseteq> available_machines ts" "begin_of x < bg + walltime j'"
      "bg + walltime j' \<le> end_of x"
      using window_Some[OF A(1) ch w le] by blast
    have xP: "x \<in> set ?P" using Q(1) by (metis append.assoc in_set_conv_decomp in_set_dropD append_Cons)
    have finA: "finite A" using Q(3) sl(1)[OF xP] by (auto simp: counted_def intro: finite_subset)
    have U: "U \<subseteq> A" "int (card U) = nb_requested_resources j'"
      using fit_subset[OF finA _ A(2)] fit_card[OF finA _ A(2)] r by (auto simp: j'_def)
    define al where "al = first_fit_alloc j' a (a + d) U bg"
    define s1 where "s1 = set_allocation al (s\<lparr>sched_size := sched_size s + 1, nb_jobs_size := nb_jobs_size s + 1\<rparr>)"
    have s1: "profile s1 = ?P" "nb_machines s1 = nb_machines s" "repair_machines s1 = repair_machines s"
      "schedule_ok s1"
      using ok by (simp_all add: s1_def set_allocation_def schedule_ok_def in_service_def)
    have P: "profile s1 = take a ?P @ B @ [x] @ C" using Q(1) s1(1) by (metis append_take_drop_id)
    have bg: "bg = begin_of (hd (B @ [x]))" using Q(1) hd by (cases B) (auto simp: bg_def)
    have la: "a = length (take a ?P)" "a + d = length (take a ?P) + length B" using a Q(2) by auto
    have n': "\<forall>ts \<in> set (profile s1). \<not> slice_has (jid j') ts" "good_id (jid j')"
      using abs g s1(1) by (auto simp: absent_def j'_def)
    have U': "\<forall>ts \<in> set (B @ [x]). U \<subseteq> available_machines ts" using Q(3) U(1) by blast
    obtain s' where s': "place_job j' a (a + d) U s1 = Some s'" "schedule_ok s'"
      "adds_job (jid j') U bg (bg + walltime j') (profile s1) (profile s')"
      "nb_machines s' = nb_machines s1" "repair_machines s' = repair_machines s1"
      "sched_size s' = sched_size s1" "nb_jobs_size s' = nb_jobs_size s1"
      "nb_reservations_size s' = nb_reservations_size s1" "allocations s' = allocations s1"
      "begin_of (hd (profile s')) = begin_of (hd (profile s1))"
      "places (jid j') U (length (take a ?P)) bg (bg + walltime j') (profile s1) (profile s')"
      by (rule place_job_correct[OF s1(4) P la bg Q(4,5) n' U' U(2)])
    have run: "add_job_first_fit_after_time_slice j first fit b s = Some (j', al, s')"
      using found(4) sl(3) s'(1) unfolding nth j'_def[symmetric] a_def[symmetric]
      by (simp add: add_job_first_fit_after_time_slice_def Let_def al_def s1_def bg_def)
    have before: "anchor fit horizon j (drop m ?P) = None" if "first \<le> m" "m < a" for m
      using found(3)[rule_format, of "m - first"] that by (simp add: a_def)
    show thesis
      by (rule placed[of a j' d U s'])
        (use a run before anc s' s1 U(2) in \<open>simp_all add: a_def j'_def al_def bg_def s1_def set_allocation_def first_fit_alloc_def\<close>)
  qed
qed

end

end
