(* ===== verification/Remove.thy ===== *)
theory Remove
  imports First_Fit_Correct
begin

text \<open>
  Removing a job from a schedule (\<^verbatim>\<open>schedule.cpp\<close>: \<^verbatim>\<open>remove_job\<close>, \<^verbatim>\<open>remove_job_if_exists\<close>,
  \<^verbatim>\<open>remove_job_internal\<close> and its variants) and advancing the first slice to the current date
  (\<^verbatim>\<open>update_first_slice\<close>, \<^verbatim>\<open>update_first_slice_removing_remaining_jobs\<close>).  Slices left with the
  same jobs are merged.  A cursor into the profile is a pair: the slices before it, reversed,
  and the slices from it on.
\<close>

subsection \<open>The operations\<close>

definition same_jobs :: "time_slice \<Rightarrow> time_slice \<Rightarrow> bool" where
  "same_jobs previous pit \<longleftrightarrow>
     map (\<lambda>(k, U). (jid k, U)) (allocated_jobs previous) = map (\<lambda>(k, U). (jid k, U)) (allocated_jobs pit)
     \<or> join '','' (jm_ids (allocated_jobs previous)) = join '','' (jm_ids (allocated_jobs pit))"

text \<open>Merging the slice under the cursor with the one before it, when they hold the same jobs.\<close>

definition try_merge ::
  "schedule \<Rightarrow> time_slice list \<Rightarrow> time_slice \<Rightarrow> (schedule \<times> time_slice list \<times> time_slice) run" where
  "try_merge s pre pit =
     (case pre of
        [] \<Rightarrow> Some (s, pre, pit)
      | previous # pre' \<Rightarrow>
          (if same_jobs previous pit then do {
             assertion (available_machines previous = available_machines pit);
             let pit' = pit\<lparr>begin_of := begin_of previous, length_of := end_of pit - begin_of previous\<rparr>;
             Some (set_smallest_and_largest (length_of pit') s, pre', pit') }
           else Some (s, pre, pit)))"

text \<open>Erasing the job from a slice gives its machines back.\<close>

definition release_slice :: "job \<Rightarrow> machines \<Rightarrow> time_slice \<Rightarrow> time_slice" where
  "release_slice j job_machines pit =
     (let nb = (if is_reservation j then nb_reservations pit - 1 else nb_reservations pit) in
      pit\<lparr>allocated_jobs := jm_erase (jid j) (allocated_jobs pit),
          available_machines := available_machines pit \<union> job_machines,
          allocated_machines := allocated_machines pit - job_machines,
          nb_available_machines := nb_available_machines pit + int (card job_machines),
          nb_reservations := nb,
          has_reservation := (if is_reservation j \<and> nb = 0 then False else has_reservation pit)\<rparr>)"

text \<open>The loop over the consecutive slices that contain the job.\<close>

fun erase_run ::
  "job \<Rightarrow> machines \<Rightarrow> schedule \<Rightarrow> time_slice list \<Rightarrow> time_slice list
     \<Rightarrow> (schedule \<times> time_slice list \<times> time_slice list) run" where
  "erase_run j U s pre [] = Some (s, pre, [])"
| "erase_run j U s pre (pit # rest) =
     (if slice_contains_job j pit then do {
        (s', pre', pit') \<leftarrow> try_merge s pre (release_slice j U pit);
        erase_run j U s' (pit' # pre') rest }
      else Some (s, pre, pit # rest))"

definition remove_job_internal :: "job \<Rightarrow> nat \<Rightarrow> schedule \<Rightarrow> schedule run" where
  "remove_job_internal j removal_point s = do {
     assertion (removal_point < length (profile s));
     case jm_get (jid j) (allocated_jobs (profile s ! removal_point)) of
       None \<Rightarrow> None
     | Some U \<Rightarrow> do {
         let job_machines = U - repair_machines s;
         let s1 = s\<lparr>sched_size := sched_size s - 1\<rparr>;
         let s2 = (if is_reservation j
                   then s1\<lparr>nb_reservations_size := nb_reservations_size s1 - 1\<rparr>
                   else s1\<lparr>nb_jobs_size := nb_jobs_size s1 - 1\<rparr>);
         (s3, pre, rest) \<leftarrow> erase_run j job_machines s2
            (rev (take removal_point (profile s))) (drop removal_point (profile s));
         (case rest of
            [] \<Rightarrow> Some (s3\<lparr>profile := rev pre\<rparr>)
          | pit # rest' \<Rightarrow> do {
              (s4, pre', pit') \<leftarrow> try_merge s3 pre pit;
              Some (s4\<lparr>profile := rev pre' @ pit' # rest'\<rparr>) }) } }"

definition remove_job_first_occurence :: "job \<Rightarrow> schedule \<Rightarrow> schedule run" where
  "remove_job_first_occurence j s = do {
     job_first_slice \<leftarrow> find_first_occurence_of_job j 0 s;
     assertion (job_first_slice \<noteq> length (profile s));
     remove_job_internal j job_first_slice s }"

definition remove_job_last_occurence :: "job \<Rightarrow> schedule \<Rightarrow> schedule run" where
  "remove_job_last_occurence j s = do {
     job_first_slice \<leftarrow> find_last_occurence_of_job j 0 s;
     assertion (job_first_slice \<noteq> length (profile s));
     remove_job_internal j job_first_slice s }"

definition remove_job :: "job \<Rightarrow> schedule \<Rightarrow> schedule run" where
  "remove_job j s = remove_job_first_occurence j s"

definition remove_job_if_exists :: "job \<Rightarrow> schedule \<Rightarrow> (bool \<times> schedule) run" where
  "remove_job_if_exists j s = do {
     job_first_slice \<leftarrow> find_first_occurence_of_job j 0 s;
     (if job_first_slice \<noteq> length (profile s) then do {
        s' \<leftarrow> remove_job_internal j job_first_slice s;
        Some (True, s') }
      else Some (False, s)) }"

text \<open>
  \<^verbatim>\<open>epsilon\<close> is the double nearest to \<open>10\<^sup>-\<^sup>4\<close>.  A recorded allocation of a running job that
  starts at the old date moves to the new one.
\<close>

definition epsilon :: time where
  "epsilon = 7378697629483821 / 73786976294838206464"

definition move_allocation ::
  "time \<Rightarrow> time \<Rightarrow> (time \<Rightarrow> job_alloc option) \<Rightarrow> time \<Rightarrow> job_alloc option" where
  "move_allocation old_time current_time al =
     (case al old_time of
        None \<Rightarrow> al
      | Some a \<Rightarrow> if old_time \<noteq> current_time then (al(current_time \<mapsto> a))(old_time := None) else al)"

definition update_first_slice :: "time \<Rightarrow> schedule \<Rightarrow> schedule run" where
  "update_first_slice current_time s =
     (case profile s of
        [] \<Rightarrow> None
      | slice # rest \<Rightarrow> do {
          assertion (begin_of slice \<le> current_time + epsilon);
          assertion (current_time \<le> end_of slice + epsilon);
          let old_time = begin_of slice;
          Some (s\<lparr>profile := slice\<lparr>begin_of := current_time, length_of := end_of slice - current_time\<rparr> # rest,
                  allocations := (\<lambda>i. if slice_has i slice
                     then move_allocation old_time current_time (allocations s i)
                     else allocations s i)\<rparr>) })"

definition update_first_slice_removing_remaining_jobs :: "time \<Rightarrow> schedule \<Rightarrow> schedule run" where
  "update_first_slice_removing_remaining_jobs current_time s = do {
     ih \<leftarrow> infinite_horizon s;
     assertion (current_time < ih);
     assertion (begin_of (hd (profile s)) \<le> current_time);
     (case dropWhile (\<lambda>slice. end_of slice \<le> current_time) (profile s) of
        [] \<Rightarrow> None
      | slice # rest \<Rightarrow>
          Some (s\<lparr>profile := slice\<lparr>begin_of := current_time, length_of := end_of slice - current_time\<rparr> # rest\<rparr>)) }"

subsection \<open>Merging\<close>

text \<open>\<open>merges P Q\<close>: \<open>Q\<close> comes from \<open>P\<close> by merging neighbours with the same jobs and machines.\<close>

inductive merges :: "time_slice list \<Rightarrow> time_slice list \<Rightarrow> bool" where
  refl: "merges P P"
| step: "merges P (A @ [p, q] @ B) \<Longrightarrow> jm_ids (allocated_jobs p) = jm_ids (allocated_jobs q) \<Longrightarrow>
    merges P (A @ [q\<lparr>begin_of := begin_of p, length_of := end_of q - begin_of p\<rparr>] @ B)"

lemma merges_step:
  assumes ok: "profile_ok M (A @ [p, q] @ B)" and ch: "chain b (A @ [p, q] @ B) e"
    and ids: "jm_ids (allocated_jobs p) = jm_ids (allocated_jobs q)"
  defines "r \<equiv> q\<lparr>begin_of := begin_of p, length_of := end_of q - begin_of p\<rparr>"
  shows "profile_ok M (A @ [r] @ B)" "chain b (A @ [r] @ B) e"
    "occupied (A @ [r] @ B) t i U \<longleftrightarrow> occupied (A @ [p, q] @ B) t i U"
    "free_at (A @ [r] @ B) t m \<longleftrightarrow> free_at (A @ [p, q] @ B) t m"
proof -
  have mem: "p \<in> set (A @ [p, q] @ B)" "q \<in> set (A @ [p, q] @ B)" by auto
  note D = profile_okD[OF ok]
  have len: "length_of x = end_of x - begin_of x" if "x = p \<or> x = q" for x
    using that D(2)[OF mem(1)] D(2)[OF mem(2)] by (auto simp: slice_ok_def)
  have get: "jm_get i (allocated_jobs p) = jm_get i (allocated_jobs q)" for i
  proof (cases "jm_get i (allocated_jobs p)")
    case None
    then show ?thesis using ids jm_get_None_iff by metis
  next
    case (Some V)
    then obtain W where W: "jm_get i (allocated_jobs q) = Some W"
      using ids jm_get_None_iff by (metis not_None_eq)
    from coherentD[OF D(3) mem Some W] Some W show ?thesis by simp
  qed
  note mach = same_ids_same_content[OF ok mem ids]
  have cb: "begin_of p \<le> end_of p" "end_of p = begin_of q" "begin_of q \<le> end_of q"
    using ch by (auto simp: chain_append)
  define p' where "p' = q\<lparr>begin_of := begin_of p, end_of := end_of p, length_of := length_of p\<rparr>"
  have nb: "nb_available_machines p = nb_available_machines q"
    using D(2)[OF mem(1)] D(2)[OF mem(2)] mach unfolding slice_ok_def by metis
  have "slices_ok M (set (A @ [p', q] @ B))"
  proof (rule slices_ok_same_content[of M "set (A @ [p, q] @ B)"])
    show "slices_ok M (set (A @ [p, q] @ B))" using ok by (simp add: profile_ok_iff)
    show "\<forall>ts \<in> set (A @ [p', q] @ B). length_of ts = end_of ts - begin_of ts \<and>
        (\<exists>ts0 \<in> set (A @ [p, q] @ B). same_content ts ts0)"
    proof
      fix ts
      assume "ts \<in> set (A @ [p', q] @ B)"
      then consider "ts = p'" | "ts \<in> set (A @ [p, q] @ B)" by auto
      then show "length_of ts = end_of ts - begin_of ts \<and> (\<exists>ts0 \<in> set (A @ [p, q] @ B). same_content ts ts0)"
      proof cases
        case 1
        then have "length_of ts = end_of ts - begin_of ts" "same_content ts q"
          using len[of p] by (simp_all add: p'_def same_content_def)
        then show ?thesis using mem(2) by blast
      next
        case 2
        moreover have "same_content ts ts" by (simp add: same_content_def)
        ultimately show ?thesis using D(2)[OF 2] unfolding slice_ok_def by blast
      qed
    qed
  qed
  moreover have "map (slice_has i) (A @ [p', q] @ B) = map (slice_has i) (A @ [p, q] @ B)" for i
    using ids by (simp add: p'_def slice_has_def)
  ultimately have ok': "profile_ok M (A @ [p', q] @ B)"
    using ok unfolding profile_ok_iff by metis
  have sc: "same_content p' r" "same_content q r" by (simp_all add: p'_def r_def same_content_def)
  note two = two_slices_view(1,2)[OF sc, where A = A and B = B]
  show "profile_ok M (A @ [r] @ B)"
    using two_slices_for_one[OF sc, of M A B] ok' len by (simp add: p'_def r_def)
  show "chain b (A @ [r] @ B) e" using ch by (auto simp: chain_append r_def)
  have times: "begin_of p' = begin_of r" "end_of p' = begin_of q" "end_of q = end_of r"
    "begin_of r \<le> begin_of q" "begin_of q \<le> end_of r"
    using cb by (simp_all add: p'_def r_def)
  have "occupied (A @ [p', q] @ B) t i U \<longleftrightarrow> occupied (A @ [p, q] @ B) t i U"
    using get[of i] by (simp add: p'_def)
  then show "occupied (A @ [r] @ B) t i U \<longleftrightarrow> occupied (A @ [p, q] @ B) t i U"
    unfolding two(1)[OF times] .
  have "free_at (A @ [p', q] @ B) t m \<longleftrightarrow> free_at (A @ [p, q] @ B) t m"
    using mach(1) by (simp add: p'_def)
  then show "free_at (A @ [r] @ B) t m \<longleftrightarrow> free_at (A @ [p, q] @ B) t m"
    unfolding two(2)[OF times] .
qed

lemma merges_correct:
  assumes "merges P Q" "profile_ok M P" "chain b P e"
  shows "profile_ok M Q \<and> chain b Q e \<and> (\<forall>t i U. occupied Q t i U \<longleftrightarrow> occupied P t i U) \<and>
    (\<forall>t m. free_at Q t m \<longleftrightarrow> free_at P t m)"
  using assms
proof (induction rule: merges.induct)
  case (step P A p q B)
  then show ?case using merges_step[of M A p q B b e] by blast
qed simp

lemma merges_trans: "merges Q R \<Longrightarrow> merges P Q \<Longrightarrow> merges P R"
proof (induction rule: merges.induct)
  case (step P' A p q B)
  then show ?case by (blast intro: merges.step)
qed simp

lemma merges_absent: "merges P Q \<Longrightarrow> absent j P \<Longrightarrow> absent j Q"
  by (induction rule: merges.induct) (auto simp: absent_def slice_has_def)

lemma merges_nonempty: "merges P Q \<Longrightarrow> P \<noteq> [] \<Longrightarrow> Q \<noteq> []"
  by (induction rule: merges.induct) auto

text \<open>Comparing the joined identifiers compares the jobs.\<close>

lemma same_jobs_ids:
  assumes "profile_ok M P" "p \<in> set P" "q \<in> set P" "same_jobs p q"
  shows "jm_ids (allocated_jobs p) = jm_ids (allocated_jobs q)"
proof -
  have g: "\<forall>i \<in> set (jm_ids (allocated_jobs x)). i \<noteq> [] \<and> CHR '','' \<notin> set i" if "x \<in> set P" for x
    using profile_okD(5)[OF assms(1) that] unfolding slice_has_def good_id_def by blast
  have "jm_ids (allocated_jobs p) = jm_ids (allocated_jobs q)"
    if "map (\<lambda>(k, U). (jid k, U)) (allocated_jobs p) = map (\<lambda>(k, U). (jid k, U)) (allocated_jobs q)"
    using arg_cong[OF that, of "map fst"] by (simp add: jm_ids_def comp_def case_prod_unfold)
  then show ?thesis using assms(4) join_inj[OF g[OF assms(2)] g[OF assms(3)]]
    unfolding same_jobs_def by blast
qed

text \<open>The parts of the state that removing does not touch.\<close>

definition frame :: "schedule \<Rightarrow> schedule \<Rightarrow> bool" where
  "frame s s' \<longleftrightarrow> sched_size s' = sched_size s \<and> nb_reservations_size s' = nb_reservations_size s \<and>
     nb_jobs_size s' = nb_jobs_size s \<and> nb_machines s' = nb_machines s \<and>
     repair_machines s' = repair_machines s \<and> allocations s' = allocations s"

lemma frame_refl [simp]: "frame s s" "frame s (set_smallest_and_largest l s)"
  by (simp_all add: frame_def)

lemma frame_trans: "frame s s' \<Longrightarrow> frame s' s'' \<Longrightarrow> frame s s''"
  by (simp add: frame_def)

lemma try_merge_ok:
  assumes ok: "profile_ok M (rev pre @ q # rest)"
  obtains s' pre' q' where "try_merge s pre q = Some (s', pre', q')"
    "merges (rev pre @ q # rest) (rev pre' @ q' # rest)" "frame s s'"
    "allocated_jobs q' = allocated_jobs q"
proof (cases "\<exists>p pre0. pre = p # pre0 \<and> same_jobs p q")
  case False
  then have "try_merge s pre q = Some (s, pre, q)" by (auto simp: try_merge_def split: list.splits)
  then show thesis using that merges.refl by simp
next
  case True
  then obtain p pre0 where p: "pre = p # pre0" "same_jobs p q" by blast
  have mem: "p \<in> set (rev pre @ q # rest)" "q \<in> set (rev pre @ q # rest)" using p by auto
  note ids = same_jobs_ids[OF ok mem p(2)]
  let ?q = "q\<lparr>begin_of := begin_of p, length_of := end_of q - begin_of p\<rparr>"
  have "merges (rev pre0 @ [p, q] @ rest) (rev pre0 @ [?q] @ rest)"
    by (rule merges.step[OF merges.refl ids])
  then have "merges (rev pre @ q # rest) (rev pre0 @ ?q # rest)" using p(1) by simp
  moreover have "try_merge s pre q =
      Some (set_smallest_and_largest (end_of q - begin_of p) s, pre0, ?q)"
    using p same_ids_same_content(1)[OF ok mem ids] by (simp add: try_merge_def Let_def)
  ultimately show thesis using that by simp
qed

definition released :: "job \<Rightarrow> machines \<Rightarrow> time_slice list \<Rightarrow> time_slice list \<Rightarrow> time_slice list" where
  "released j U pre rest = rev pre @ map (release_slice j U) (takeWhile (slice_has (jid j)) rest)
     @ dropWhile (slice_has (jid j)) rest"

lemma erase_run_ok:
  assumes "profile_ok M (released j U pre rest)" and "chain b (released j U pre rest) e"
  shows "\<exists>s' pre'. erase_run j U s pre rest = Some (s', pre', dropWhile (slice_has (jid j)) rest) \<and>
    merges (released j U pre rest) (rev pre' @ dropWhile (slice_has (jid j)) rest) \<and> frame s s'"
  using assms
proof (induction rest arbitrary: pre s)
  case Nil
  then show ?case by (auto simp: released_def intro: merges.refl)
next
  case (Cons pit rest)
  let ?has = "slice_has (jid j)"
  show ?case
  proof (cases "?has pit")
    case False
    then show ?thesis by (auto simp: slice_contains_job_has released_def intro: merges.refl)
  next
    case True
    let ?tl = "map (release_slice j U) (takeWhile ?has rest) @ dropWhile ?has rest"
    have Q: "released j U pre (pit # rest) = rev pre @ release_slice j U pit # ?tl"
      using True by (simp add: released_def)
    obtain s1 pre1 q1 where m: "try_merge s pre (release_slice j U pit) = Some (s1, pre1, q1)"
      "merges (rev pre @ release_slice j U pit # ?tl) (rev pre1 @ q1 # ?tl)" "frame s s1"
      using try_merge_ok[OF Cons.prems(1)[unfolded Q]] by metis
    have Q1: "rev pre1 @ q1 # ?tl = released j U (q1 # pre1) rest" by (simp add: released_def)
    note m' = merges_correct[OF m(2) Cons.prems(1)[unfolded Q] Cons.prems(2)[unfolded Q]]
    obtain s' pre' where r: "erase_run j U s1 (q1 # pre1) rest = Some (s', pre', dropWhile ?has rest)"
      "merges (released j U (q1 # pre1) rest) (rev pre' @ dropWhile ?has rest)" "frame s1 s'"
      using Cons.IH[of "q1 # pre1" s1] m' unfolding Q1 by blast
    have "merges (released j U pre (pit # rest)) (rev pre' @ dropWhile ?has rest)"
      using merges_trans[OF r(2) m(2)[folded Q, unfolded Q1]] by simp
    then show ?thesis using True m(1) r(1) frame_trans[OF m(3) r(3)] by (simp add: slice_contains_job_has)
  qed
qed

subsection \<open>Releasing a job\<close>

lemma jm_union_erase:
  assumes "jm_ok m" "jm_disjoint m" "jm_get i m = Some U"
  shows "jm_union (jm_erase i m) = jm_union m - U" "U \<subseteq> jm_union m"
proof -
  have "x \<in> jm_union (jm_erase i m) \<longleftrightarrow> x \<in> jm_union m - U" for x
  proof -
    have "x \<in> jm_union (jm_erase i m) \<longleftrightarrow> (\<exists>i' V. i' \<noteq> i \<and> jm_get i' m = Some V \<and> x \<in> V)"
      by (simp add: jm_union_mem[OF jm_erase_ok[OF assms(1)]] jm_get_erase) metis
    also have "\<dots> \<longleftrightarrow> x \<in> jm_union m - U"
    proof
      assume "\<exists>i' V. i' \<noteq> i \<and> jm_get i' m = Some V \<and> x \<in> V"
      then obtain i' V where V: "i' \<noteq> i" "jm_get i' m = Some V" "x \<in> V" by blast
      then have "x \<in> jm_union m" using jm_union_mem[OF assms(1)] by blast
      then show "x \<in> jm_union m - U" using jm_disjoint_get[OF assms(2) V(2) assms(3) V(1)] V(3) by blast
    next
      assume x: "x \<in> jm_union m - U"
      then obtain i' V where V: "jm_get i' m = Some V" "x \<in> V" using jm_union_mem[OF assms(1)] by blast
      then have "i' \<noteq> i" using assms(3) x by auto
      then show "\<exists>i' V. i' \<noteq> i \<and> jm_get i' m = Some V \<and> x \<in> V" using V by blast
    qed
    finally show ?thesis .
  qed
  then show "jm_union (jm_erase i m) = jm_union m - U" by blast
  show "U \<subseteq> jm_union m" using jm_union_mem[OF assms(1)] assms(3) by blast
qed

lemma release_slice_simps [simp]:
  "begin_of (release_slice j U ts) = begin_of ts" "end_of (release_slice j U ts) = end_of ts"
  "length_of (release_slice j U ts) = length_of ts"
  "available_machines (release_slice j U ts) = available_machines ts \<union> U"
  "allocated_machines (release_slice j U ts) = allocated_machines ts - U"
  "nb_available_machines (release_slice j U ts) = nb_available_machines ts + int (card U)"
  "allocated_jobs (release_slice j U ts) = jm_erase (jid j) (allocated_jobs ts)"
  by (simp_all add: release_slice_def Let_def)

lemma slice_ok_release:
  assumes ok: "slice_ok M ts" and fin: "finite M" and U: "jm_get (jid j) (allocated_jobs ts) = Some U"
  shows "slice_ok M (release_slice j U ts)" "U \<subseteq> M"
proof -
  let ?m = "allocated_jobs ts"
  have m: "jm_ok ?m" "jm_disjoint ?m" "allocated_machines ts = jm_union ?m" "jm_union ?m \<subseteq> M"
    "available_machines ts = M - jm_union ?m" "length_of ts = end_of ts - begin_of ts"
    "nb_available_machines ts = int (card (available_machines ts))"
    using ok by (simp_all add: slice_ok_def)
  note un = jm_union_erase[OF m(1,2) U]
  show UM: "U \<subseteq> M" using un(2) m(4) by (rule order_trans)
  have av: "available_machines ts \<union> U = M - (jm_union ?m - U)" unfolding m(5) using un(2) UM by blast
  have "jm_disjoint (jm_erase (jid j) ?m)"
  proof (rule jm_disjointI[OF jm_erase_ok[OF m(1)]])
    fix i A i' A'
    assume "jm_get i (jm_erase (jid j) ?m) = Some A" "jm_get i' (jm_erase (jid j) ?m) = Some A'" "i \<noteq> i'"
    then show "A \<inter> A' = {}"
      using jm_disjoint_get[OF m(2), of i A i' A'] by (simp add: jm_get_erase split: if_splits)
  qed
  moreover have "available_machines ts \<inter> U = {}" unfolding m(5) using un(2) by blast
  then have "int (card (available_machines ts \<union> U)) = nb_available_machines ts + int (card U)"
    unfolding m(7) using card_Un_disjoint_int[of "available_machines ts" U] fin UM m(5)
    by (simp add: finite_subset)
  moreover have "jm_union ?m - U \<subseteq> M" using m(4) by blast
  ultimately show "slice_ok M (release_slice j U ts)"
    using m(3,6) jm_erase_ok[OF m(1), of "jid j"] av un(1) unfolding slice_ok_def by simp
qed

definition release_all :: "job \<Rightarrow> machines \<Rightarrow> time_slice list \<Rightarrow> time_slice list" where
  "release_all j U P = map (\<lambda>ts. if slice_has (jid j) ts then release_slice j U ts else ts) P"

lemma chain_release_all [simp]: "chain b (release_all j U P) e = chain b P e"
  by (induction P arbitrary: b) (auto simp: release_all_def)

text \<open>The abstract effect: job \<open>i\<close> no longer holds anything, its machines \<open>U\<close> are free.\<close>

definition drops_job :: "job_id \<Rightarrow> machines \<Rightarrow> time_slice list \<Rightarrow> time_slice list \<Rightarrow> bool" where
  "drops_job i U P P' \<longleftrightarrow>
     (\<forall>t i' V. occupied P' t i' V \<longleftrightarrow> occupied P t i' V \<and> i' \<noteq> i) \<and>
     (\<forall>t m. free_at P' t m \<longleftrightarrow> free_at P t m \<or> (occupied P t i U \<and> m \<in> U))"

lemma release_all_ok:
  assumes ok: "profile_ok M P" and U: "\<forall>ts \<in> set P. slice_has (jid j) ts \<longrightarrow> jm_get (jid j) (allocated_jobs ts) = Some U"
  shows "profile_ok M (release_all j U P)" "drops_job (jid j) U P (release_all j U P)"
proof -
  define r where "r ts = (if slice_has (jid j) ts then release_slice j U ts else ts)" for ts
  have times: "begin_of (r ts) = begin_of ts" "end_of (r ts) = end_of ts" for ts
    by (simp_all add: r_def)
  note D = profile_okD[OF ok]
  have get: "jm_get i (allocated_jobs (r ts)) = (if i = jid j then None else jm_get i (allocated_jobs ts))" for i ts
    using jm_get_None_iff[of "jid j" "allocated_jobs ts"] by (auto simp: jm_get_erase slice_has_def r_def)
  have has: "slice_has i (r ts) \<longleftrightarrow> i \<noteq> jid j \<and> slice_has i ts" for i ts
    unfolding slice_has_get get by simp
  have sl: "slice_ok M (r ts)" if "ts \<in> set P" for ts
    using D(2)[OF that] slice_ok_release(1)[OF D(2)[OF that] D(1)] U that by (simp add: r_def)
  have co: "V = W" if "ts \<in> set P" "ts' \<in> set P" "jm_get i (allocated_jobs (r ts)) = Some V"
    "jm_get i (allocated_jobs (r ts')) = Some W" for ts ts' i V W
  proof -
    have "jm_get i (allocated_jobs ts) = Some V" "jm_get i (allocated_jobs ts') = Some W"
      using that(3,4) unfolding get by (simp_all split: if_splits)
    then show ?thesis by (rule coherentD[OF D(3) that(1,2)])
  qed
  have all: "release_all j U P = map r P" by (simp add: release_all_def r_def)
  have one: "one_run (map (slice_has i) (release_all j U P))" for i
  proof (cases "i = jid j")
    case True
    then show ?thesis using has by (intro one_run_absent) (auto simp: all)
  next
    case False
    then have "map (slice_has i) (release_all j U P) = map (slice_has i) P"
      using has by (simp add: all)
    then show ?thesis using D(4) by simp
  qed
  have set: "set (release_all j U P) = r ` set P" by (simp add: all)
  have "slices_ok M (set (release_all j U P))"
    unfolding slices_ok_def set
  proof (intro conjI ballI allI impI)
    show "finite M" by (rule D(1))
    show "slice_ok M ts" if "ts \<in> r ` set P" for ts using that sl by auto
    show "V = W" if "ts \<in> r ` set P" "ts' \<in> r ` set P" "jm_get i (allocated_jobs ts) = Some V"
      "jm_get i (allocated_jobs ts') = Some W" for ts ts' i V W
      using that co by blast
    show "good_id i" if "ts \<in> r ` set P" "i \<in> set (jm_ids (allocated_jobs ts))" for ts i
      using that D(5) has unfolding slice_has_def by blast
  qed
  then show "profile_ok M (release_all j U P)" using one by (simp add: profile_ok_iff)
  have "occupied (release_all j U P) t i V \<longleftrightarrow> occupied P t i V \<and> i \<noteq> jid j" for t i V
    unfolding occupied_def set bex_simps(7) get times by auto
  moreover have "free_at (release_all j U P) t m \<longleftrightarrow> free_at P t m \<or> (occupied P t (jid j) U \<and> m \<in> U)" for t m
  proof -
    have "m \<in> available_machines (r ts) \<longleftrightarrow> m \<in> available_machines ts \<or>
        (jm_get (jid j) (allocated_jobs ts) = Some U \<and> m \<in> U)" if "ts \<in> set P" for ts
      using U that slice_has_get by (auto simp: r_def)
    then show ?thesis unfolding free_at_def occupied_def set bex_simps(7) times by blast
  qed
  ultimately show "drops_job (jid j) U P (release_all j U P)" unfolding drops_job_def by blast
qed

subsection \<open>Removing a job\<close>

text \<open>The counters after the removal of \<open>j\<close>.\<close>

definition counters_less :: "job \<Rightarrow> schedule \<Rightarrow> schedule \<Rightarrow> bool" where
  "counters_less j s s' \<longleftrightarrow> sched_size s' = sched_size s - 1 \<and>
     nb_reservations_size s' = nb_reservations_size s - (if is_reservation j then 1 else 0) \<and>
     nb_jobs_size s' = nb_jobs_size s - (if is_reservation j then 0 else 1) \<and>
     nb_machines s' = nb_machines s \<and> repair_machines s' = repair_machines s \<and>
     allocations s' = allocations s"

lemma map_slice_has_dropWhile:
  "dropWhile (\<lambda>b. b) (map (slice_has i) P) = map (slice_has i) (dropWhile (slice_has i) P)"
  by (simp add: dropWhile_map comp_def)

lemma absent_release_all: "absent j (release_all j U P)"
proof -
  have "\<not> slice_has (jid j) (release_slice j U ts)" for ts
    by (simp add: slice_has_def jm_erase_ids)
  then show ?thesis by (auto simp: absent_def release_all_def)
qed

lemma released_whole:
  assumes "\<forall>ts \<in> set A. \<not> slice_has (jid j) ts" "\<forall>ts \<in> set (dropWhile (slice_has (jid j)) Q). \<not> slice_has (jid j) ts"
  shows "released j U (rev A) Q = release_all j U (A @ Q)"
proof -
  let ?h = "slice_has (jid j)" and ?r = "\<lambda>ts. if slice_has (jid j) ts then release_slice j U ts else ts"
  have "map ?r A = A" using assms(1) by (simp add: map_idI)
  moreover have "map ?r Q = map (release_slice j U) (takeWhile ?h Q) @ dropWhile ?h Q"
  proof -
    have "map ?r (takeWhile ?h Q) = map (release_slice j U) (takeWhile ?h Q)"
    proof (rule map_cong[OF HOL.refl])
      fix ts
      assume "ts \<in> set (takeWhile ?h Q)"
      then have "?h ts" by (rule set_takeWhileD[THEN conjunct2])
      then show "?r ts = release_slice j U ts" by simp
    qed
    moreover have "map ?r (dropWhile ?h Q) = dropWhile ?h Q" using assms(2) by (simp add: map_idI)
    moreover have "map ?r Q = map ?r (takeWhile ?h Q) @ map ?r (dropWhile ?h Q)"
      unfolding map_append[symmetric] takeWhile_dropWhile_id ..
    ultimately show ?thesis by simp
  qed
  ultimately show ?thesis by (simp add: released_def release_all_def)
qed

lemma remove_job_internal_ok:
  assumes ok: "schedule_ok s" and P: "profile s = A @ Q" "Q \<noteq> []" "slice_has (jid j) (hd Q)"
    and A: "\<forall>ts \<in> set A. \<not> slice_has (jid j) ts"
  obtains s' U where "remove_job_internal j (length A) s = Some s'" "schedule_ok s'"
    "jm_get (jid j) (allocated_jobs (hd Q)) = Some U"
    "drops_job (jid j) U (profile s) (profile s')" "counters_less j s s'"
    "begin_of (hd (profile s')) = begin_of (hd (profile s))" "absent j (profile s')"
    "merges (release_all j U (profile s)) (profile s')"
proof -
  let ?h = "slice_has (jid j)" and ?M = "in_service s" and ?b = "begin_of (hd (profile s))"
  have pok: "profile_ok ?M (A @ Q)" and ch: "chain ?b (A @ Q) horizon"
    using ok P(1) by (simp_all add: schedule_ok_def)
  note D = profile_okD[OF pok]
  obtain U where U: "jm_get (jid j) (allocated_jobs (hd Q)) = Some U" using P(3) slice_has_get by blast
  have hd: "hd Q \<in> set (A @ Q)" using P(2) by simp
  have UM: "U \<subseteq> ?M" using slice_ok_release(2)[OF D(2)[OF hd] D(1) U] .
  then have UR: "U - repair_machines s = U" by (auto simp: in_service_def)
  have allU: "\<forall>ts \<in> set (A @ Q). ?h ts \<longrightarrow> jm_get (jid j) (allocated_jobs ts) = Some U"
    using coherentD[OF D(3) hd _ U] slice_has_get by blast
  have "True \<notin> set (dropWhile (\<lambda>b. b) (map ?h Q))"
    by (rule one_run_split[of "map ?h A"]) (use D(4)[of "jid j"] A P in \<open>auto simp: hd_map\<close>)
  then have nh: "\<forall>ts \<in> set (dropWhile ?h Q). \<not> ?h ts" unfolding map_slice_has_dropWhile by auto
  let ?R = "release_all j U (A @ Q)"
  have rel: "released j U (rev A) Q = ?R" by (rule released_whole[OF A nh])
  note R = release_all_ok[OF pok allU]
  define s2 where "s2 = (let s1 = s\<lparr>sched_size := sched_size s - 1\<rparr> in
    if is_reservation j then s1\<lparr>nb_reservations_size := nb_reservations_size s1 - 1\<rparr>
    else s1\<lparr>nb_jobs_size := nb_jobs_size s1 - 1\<rparr>)"
  obtain s3 pre where er: "erase_run j U s2 (rev A) Q = Some (s3, pre, dropWhile ?h Q)"
    "merges ?R (rev pre @ dropWhile ?h Q)" "frame s2 s3"
    using erase_run_ok[of ?M j U "rev A" Q ?b horizon s2] R(1) ch unfolding rel by auto
  note m = merges_correct[OF er(2) R(1)] 
  have chR: "chain ?b ?R horizon" using ch by simp
  obtain s4 F where F: "(case dropWhile ?h Q of
        [] \<Rightarrow> Some (s3\<lparr>profile := rev pre\<rparr>)
      | pit # rest' \<Rightarrow> do {
          (s4, pre', pit') \<leftarrow> try_merge s3 pre pit;
          Some (s4\<lparr>profile := rev pre' @ pit' # rest'\<rparr>) }) = Some s4"
    "profile s4 = F" "merges ?R F" "frame s3 s4"
  proof (cases "dropWhile ?h Q")
    case Nil
    have "merges ?R (rev pre)" using er(2) unfolding Nil by simp
    then show thesis
      by (rule that[of "s3\<lparr>profile := rev pre\<rparr>" "rev pre", unfolded Nil, rotated 2]) (simp_all add: frame_def)
  next
    case (Cons pit rest')
    have "profile_ok ?M (rev pre @ pit # rest')" using m[OF chR] Cons by simp
    then obtain s5 pre' pit' where t: "try_merge s3 pre pit = Some (s5, pre', pit')"
      "merges (rev pre @ pit # rest') (rev pre' @ pit' # rest')" "frame s3 s5"
      using try_merge_ok by metis
    have "merges ?R (rev pre' @ pit' # rest')" using merges_trans[OF t(2)] er(2) Cons by simp
    then show thesis using that[of "s5\<lparr>profile := rev pre' @ pit' # rest'\<rparr>"] t Cons by (simp add: frame_def)
  qed
  have run: "remove_job_internal j (length A) s = Some s4"
    using P U UR er(1) F(1) unfolding remove_job_internal_def s2_def
    by (simp add: Let_def nth_append hd_conv_nth)
  note mF = merges_correct[OF F(3) R(1) chR]
  have F0: "F \<noteq> []" using merges_nonempty[OF F(3)] P(2) by (simp add: release_all_def)
  have hdF: "begin_of (hd F) = ?b" using mF F0 by (cases F) auto
  have fr: "frame s2 s4" using er(3) F(4) frame_trans by blast
  have cnt: "counters_less j s s4" using fr by (simp add: frame_def counters_less_def s2_def Let_def)
  have "in_service s4 = ?M" using cnt by (simp add: counters_less_def in_service_def)
  then have "schedule_ok s4" using mF F0 hdF F(2) by (simp add: schedule_ok_def)
  moreover have "drops_job (jid j) U (profile s) (profile s4)"
    using R(2) mF F(2) P(1) by (simp add: drops_job_def)
  moreover have "absent j (profile s4)"
    unfolding F(2) by (rule merges_absent[OF F(3) absent_release_all])
  moreover have "merges (release_all j U (profile s)) (profile s4)" using F(2,3) P(1) by simp
  ultimately show thesis using that run U cnt hdF F(2) by blast
qed

text \<open>Where the job is found.\<close>

lemma find_from_0: "find_from Q P 0 = find_if Q P" by simp

lemma find_first_split:
  assumes "find_if (slice_contains_job j) P \<noteq> length P"
  obtains A Q where "P = A @ Q" "length A = find_if (slice_contains_job j) P" "Q \<noteq> []"
    "slice_has (jid j) (hd Q)" "\<forall>ts \<in> set A. \<not> slice_has (jid j) ts"
proof -
  let ?i = "find_if (slice_contains_job j) P"
  have i: "?i < length P" using assms find_if_le[of "slice_contains_job j" P] by simp
  note sp = find_if_spec[OF i]
  show thesis
  proof (rule that[of "take ?i P" "drop ?i P"])
    show "slice_has (jid j) (hd (drop ?i P))" using sp i by (simp add: hd_drop_conv_nth slice_contains_job_has)
    show "\<forall>ts \<in> set (take ?i P). \<not> slice_has (jid j) ts"
      using sp by (auto simp: in_set_conv_nth slice_contains_job_has)
  qed (use i in auto)
qed

lemma absent_iff_find: "absent j P \<longleftrightarrow> find_if (slice_contains_job j) P = length P"
  by (simp add: absent_def find_if_absent slice_contains_job_has)

lemma contains_job_sched_iff:
  "profile s \<noteq> [] \<Longrightarrow> contains_job_sched j s = Some (\<not> absent j (profile s))"
  by (simp add: contains_job_sched_def find_first_occurence_of_job_def absent_iff_find)

lemma remove_job_cases:
  assumes ok: "schedule_ok s"
  obtains (absent) "absent j (profile s)" "remove_job j s = None" "remove_job_if_exists j s = Some (False, s)"
  | (present) s' U where "\<not> absent j (profile s)" "remove_job j s = Some s'"
      "remove_job_if_exists j s = Some (True, s')" "schedule_ok s'"
      "\<exists>ts \<in> set (profile s). jm_get (jid j) (allocated_jobs ts) = Some U"
      "drops_job (jid j) U (profile s) (profile s')" "counters_less j s s'"
      "begin_of (hd (profile s')) = begin_of (hd (profile s))" "absent j (profile s')"
      "merges (release_all j U (profile s)) (profile s')"
proof -
  have P0: "profile s \<noteq> []" using ok by (simp add: schedule_ok_def)
  show thesis
  proof (cases "absent j (profile s)")
    case True
    then show thesis using absent P0
      by (simp add: remove_job_def remove_job_first_occurence_def remove_job_if_exists_def
          find_first_occurence_of_job_def absent_iff_find)
  next
    case False
    then have f: "find_if (slice_contains_job j) (profile s) \<noteq> length (profile s)"
      by (simp add: absent_iff_find)
    obtain A Q where AQ: "profile s = A @ Q" "length A = find_if (slice_contains_job j) (profile s)" "Q \<noteq> []"
      "slice_has (jid j) (hd Q)" "\<forall>ts \<in> set A. \<not> slice_has (jid j) ts"
      using find_first_split[OF f] by metis
    obtain s' U where r: "remove_job_internal j (length A) s = Some s'" "schedule_ok s'"
      "jm_get (jid j) (allocated_jobs (hd Q)) = Some U"
      "drops_job (jid j) U (profile s) (profile s')" "counters_less j s s'"
      "begin_of (hd (profile s')) = begin_of (hd (profile s))" "absent j (profile s')"
      "merges (release_all j U (profile s)) (profile s')"
      by (rule remove_job_internal_ok[OF ok AQ(1,3,4,5)])
    have "hd Q \<in> set (profile s)" using AQ(1,3) by simp
    moreover have "remove_job j s = Some s'" "remove_job_if_exists j s = Some (True, s')"
      using P0 f r(1) AQ(2)
      by (simp_all add: remove_job_def remove_job_first_occurence_def remove_job_if_exists_def
          find_first_occurence_of_job_def)
    ultimately show thesis using present[OF False] r by blast
  qed
qed

end
