(* ===== verification/Schedule_Safety.thy ===== *)
theory Schedule_Safety
  imports Remove
begin

text \<open>
  Properties of the schedule as a whole: what every sequence of insertions, removals and advances
  of the clock keeps, the abstract effect of each operation, completeness and optimality of the
  first fit, and the waiting time estimate.
\<close>

subsection \<open>The invariant, read through the abstract view\<close>

lemma profile_ok_view:
  assumes ok: "profile_ok M P" and ch: "chain b P e"
  shows "occupied P t i U \<Longrightarrow> occupied P t i' U' \<Longrightarrow> i \<noteq> i' \<Longrightarrow> U \<inter> U' = {}"
    and "occupied P t i U \<Longrightarrow> occupied P t' i U' \<Longrightarrow> U = U'"
    and "occupied P t i U \<Longrightarrow> free_at P t m \<Longrightarrow> m \<notin> U"
    and "occupied P t i U \<Longrightarrow> U \<subseteq> M"
    and "b \<le> t \<Longrightarrow> t < e \<Longrightarrow> m \<in> M \<Longrightarrow> \<not> free_at P t m \<Longrightarrow> \<exists>i U. occupied P t i U \<and> m \<in> U"
proof -
  note D = profile_okD[OF ok]
  have sl: "jm_ok (allocated_jobs ts)" "jm_disjoint (allocated_jobs ts)"
    "available_machines ts = M - jm_union (allocated_jobs ts)" "jm_union (allocated_jobs ts) \<subseteq> M"
    if "ts \<in> set P" for ts
    using D(2)[OF that] by (simp_all add: slice_ok_def)
  show "U \<inter> U' = {}" if o: "occupied P t i U" "occupied P t i' U'" and ne: "i \<noteq> i'"
  proof -
    obtain ts where ts: "ts \<in> set P" "begin_of ts \<le> t" "t < end_of ts" "jm_get i (allocated_jobs ts) = Some U"
      using o(1) by (auto simp: occupied_def)
    obtain ts' where ts': "ts' \<in> set P" "begin_of ts' \<le> t" "t < end_of ts'" "jm_get i' (allocated_jobs ts') = Some U'"
      using o(2) by (auto simp: occupied_def)
    have "ts = ts'" by (rule chain_unique[OF ch ts(1) ts'(1) ts(2,3) ts'(2,3)])
    then show ?thesis using jm_disjoint_get[OF sl(2)[OF ts(1)] ts(4) _ ne] ts'(4) by simp
  qed
  show "U = U'" if "occupied P t i U" "occupied P t' i U'"
    using that coherentD[OF D(3)] unfolding occupied_def by blast
  show "m \<notin> U" if o: "occupied P t i U" and f: "free_at P t m"
  proof -
    obtain ts where ts: "ts \<in> set P" "begin_of ts \<le> t" "t < end_of ts" "jm_get i (allocated_jobs ts) = Some U"
      using o by (auto simp: occupied_def)
    obtain ts' where ts': "ts' \<in> set P" "begin_of ts' \<le> t" "t < end_of ts'" "m \<in> available_machines ts'"
      using f by (auto simp: free_at_def)
    have "ts = ts'" by (rule chain_unique[OF ch ts(1) ts'(1) ts(2,3) ts'(2,3)])
    then show ?thesis using ts' ts(4) sl(3)[OF ts(1)] jm_union_mem[OF sl(1)[OF ts(1)]] by blast
  qed
  show "U \<subseteq> M" if o: "occupied P t i U"
  proof -
    obtain ts where ts: "ts \<in> set P" "jm_get i (allocated_jobs ts) = Some U"
      using o by (auto simp: occupied_def)
    then show ?thesis using sl(4)[OF ts(1)] jm_union_mem[OF sl(1)[OF ts(1)]] by blast
  qed
  show "\<exists>i U. occupied P t i U \<and> m \<in> U" if t: "b \<le> t" "t < e" and m: "m \<in> M" and nf: "\<not> free_at P t m"
  proof -
    obtain ts where ts: "ts \<in> set P" "begin_of ts \<le> t" "t < end_of ts"
      using chain_block[OF ch, of t] t by blast
    then have "m \<notin> available_machines ts" using nf by (auto simp: free_at_def)
    then have "m \<in> jm_union (allocated_jobs ts)" using sl(3)[OF ts(1)] m by blast
    then obtain i U where "jm_get i (allocated_jobs ts) = Some U" "m \<in> U"
      using jm_union_mem[OF sl(1)[OF ts(1)]] by blast
    then show ?thesis using ts unfolding occupied_def by blast
  qed
qed

subsection \<open>The operations keep the invariant\<close>

lemma new_schedule_ok:
  assumes "new_schedule n t0 = Some s" "t0 \<le> horizon"
  shows "schedule_ok s" "\<not> occupied (profile s) t i U" "repair_machines s = {}" "nb_machines s = n"
  using assms
  by (auto simp: new_schedule_def run_simps schedule_ok_def profile_ok_def slice_ok_def jm_union_def
      jm_disjoint_def in_service_def coherent_def slice_has_def)

lemma split_slice_ok:
  assumes ok: "schedule_ok s" and i: "i < length (profile s)"
  obtains s' c f g where "split_slice i date s = Some (s', c, f, g)" "schedule_ok s'"
    "g < length (profile s')" "c \<longleftrightarrow> begin_of (profile s ! i) < date \<and> date < end_of (profile s ! i)"
    "c \<Longrightarrow> begin_of (profile s' ! g) = date" "\<not> c \<Longrightarrow> s' = s \<and> g = i"
    "\<And>t j U. occupied (profile s') t j U \<longleftrightarrow> occupied (profile s) t j U"
    "\<And>t m. free_at (profile s') t m \<longleftrightarrow> free_at (profile s) t m"
    "frame s s'" "\<And>j. absent j (profile s') \<longleftrightarrow> absent j (profile s)"
    "begin_of (hd (profile s')) = begin_of (hd (profile s))"
proof -
  define A where "A = take i (profile s)"
  define ts where "ts = profile s ! i"
  define B where "B = drop (Suc i) (profile s)"
  have P: "profile s = A @ ts # B" and iA: "i = length A"
    using i id_take_nth_drop[OF i] by (simp_all add: A_def ts_def B_def)
  have len: "length_of ts = end_of ts - begin_of ts"
    using schedule_ok_slices(2)[OF ok, of ts] P by simp
  have si: "profile s ! i = ts" by (simp add: ts_def)
  show thesis
  proof (rule split_slice_cases[OF P iA, of date], goal_cases)
    case 1
    then show ?case using that[of s False i i] ok i si by (simp add: schedule_ok_def)
  next
    case (2 s')
    note v = split_slice_view[OF 2(1,2) len, where A = A and B = B]
    have h: "begin_of (hd (profile s')) = begin_of (hd (profile s))"
      unfolding P 2(4) by (cases A) (auto simp: split_profile_def)
    have "schedule_ok s'"
      unfolding schedule_ok_def h unfolding 2(4)
      using v(1,4) ok P 2(5,6) by (simp add: schedule_ok_def in_service_def split_profile_def)
    moreover have "absent j (profile s') \<longleftrightarrow> absent j (profile s)" for j
      unfolding P 2(4) by (auto simp: absent_def split_profile_def slice_has_def)
    moreover have "begin_of (profile s' ! Suc i) = date" "Suc i < length (profile s')"
      unfolding 2(4) by (simp_all add: split_profile_def iA nth_append)
    ultimately show ?case
      using that[OF 2(3)] h v(2,3) 2 P si by (simp add: frame_def)
  qed
qed

lemma update_first_slice_ok:
  assumes ok: "schedule_ok s" and t: "begin_of (hd (profile s)) \<le> now" "now \<le> end_of (hd (profile s))"
  obtains s' where "update_first_slice now s = Some s'" "schedule_ok s'"
    "begin_of (hd (profile s')) = now"
    "\<And>t i U. occupied (profile s') t i U \<longleftrightarrow> now \<le> t \<and> occupied (profile s) t i U"
    "\<And>t m. free_at (profile s') t m \<longleftrightarrow> now \<le> t \<and> free_at (profile s) t m"
    "nb_machines s' = nb_machines s" "repair_machines s' = repair_machines s"
    "sched_size s' = sched_size s"
proof -
  obtain x P where xP: "profile s = x # P" using ok by (cases "profile s") (auto simp: schedule_ok_def)
  have eps: "0 < epsilon" by (simp add: epsilon_def)
  let ?x = "x\<lparr>begin_of := now, length_of := end_of x - now\<rparr>"
  define s' where "s' = s\<lparr>profile := ?x # P, allocations := (\<lambda>i. if slice_has i x
                     then move_allocation (begin_of x) now (allocations s i) else allocations s i)\<rparr>"
  have run: "update_first_slice now s = Some s'"
    using xP t eps by (simp add: update_first_slice_def s'_def Let_def)
  have sok: "profile_ok (in_service s) (x # P)" "chain (begin_of x) (x # P) horizon"
    using ok xP by (simp_all add: schedule_ok_def)
  have "slices_ok (in_service s) (set (?x # P))"
  proof (rule slices_ok_same_content[of _ "set (x # P)"])
    show "slices_ok (in_service s) (set (x # P))" using sok(1) by (simp add: profile_ok_iff)
    have "same_content ?x x" "same_content ts ts" for ts by (simp_all add: same_content_def)
    moreover have "length_of ts = end_of ts - begin_of ts" if "ts \<in> set P" for ts
      using schedule_ok_slices(2)[OF ok, of ts] that xP by simp
    ultimately show "\<forall>ts \<in> set (?x # P). length_of ts = end_of ts - begin_of ts \<and>
        (\<exists>ts0 \<in> set (x # P). same_content ts ts0)" by auto
  qed
  moreover have "map (slice_has i) (?x # P) = map (slice_has i) (x # P)" for i by (simp add: slice_has_def)
  ultimately have "profile_ok (in_service s) (?x # P)" using sok(1) unfolding profile_ok_iff by metis
  moreover have "in_service s' = in_service s" by (simp add: in_service_def s'_def)
  ultimately have ok': "schedule_ok s'" using sok(2) t xP by (simp add: schedule_ok_def s'_def)
  have later: "end_of x \<le> t" if "ts \<in> set P" "begin_of ts \<le> t" for ts t
    using that chain_bounds[of "end_of x" P horizon ts] sok(2) by auto
  have n: "begin_of x \<le> now" "now \<le> end_of x" using t xP by simp_all
  have P: "now \<le> t" if "occupied P t i U \<or> free_at P t m" for t i U m
  proof -
    have "end_of x \<le> t" using that later unfolding occupied_def free_at_def by blast
    then show ?thesis using n(2) by simp
  qed
  have "occupied (profile s') t i U \<longleftrightarrow> now \<le> t \<and> occupied (profile s) t i U" for t i U
    using P[of t i U] n(1) xP by (auto simp: s'_def)
  moreover have "free_at (profile s') t m \<longleftrightarrow> now \<le> t \<and> free_at (profile s) t m" for t m
    using P[of t undefined undefined m] n(1) xP by (auto simp: s'_def)
  ultimately show thesis using that[OF run ok'] by (simp add: s'_def)
qed

subsection \<open>Insertion\<close>

context resource_selector
begin

lemma add_job_cases:
  assumes ok: "schedule_ok s" and ins: "insertable j s"
    and run: "add_job_first_fit j fit b s = Some (j', alloc, s')"
  obtains (placed) n d U where "has_been_inserted alloc" "n < length (profile s)"
      "j' = effective_walltime horizon (profile s ! n) j"
      "anchor fit horizon j (drop n (profile s)) = Some (d, U)"
      "\<forall>m < n. anchor fit horizon j (drop m (profile s)) = None"
      "alloc = first_fit_alloc j' n (n + d) U (begin_of (profile s ! n))"
      "schedule_ok s'" "int (card U) = nb_requested_resources j"
      "adds_job (jid j) U (begin_of (profile s ! n)) (begin_of (profile s ! n) + walltime j')
         (profile s) (profile s')"
      "nb_machines s' = nb_machines s" "repair_machines s' = repair_machines s"
      "sched_size s' = sched_size s + 1" "nb_jobs_size s' = nb_jobs_size s + 1"
      "nb_reservations_size s' = nb_reservations_size s"
      "places (jid j) U n (begin_of (profile s ! n)) (begin_of (profile s ! n) + walltime j') (profile s) (profile s')"
      "begin_of (hd (profile s')) = begin_of (hd (profile s))"
  | (refused) "\<not> has_been_inserted alloc" "s' = s" "\<not> b"
      "\<forall>m < length (profile s). anchor fit horizon j (drop m (profile s)) = None"
proof -
  have "profile s \<noteq> []" using ok by (simp add: schedule_ok_def)
  then have run': "add_job_first_fit_after_time_slice j 0 fit b s = Some (j', alloc, s')"
    using run ins contains_job_sched_iff by (simp add: add_job_first_fit_def insertable_def)
  show thesis
    by (rule add_after_slice_cases[OF ok ins, of 0 b])
      (use run' placed refused in \<open>auto simp: first_fit_alloc_def failed_alloc_def split: if_splits\<close>)
qed

end

lemma window_None: "window w Q = None \<Longrightarrow> chain b Q e \<Longrightarrow> 0 < w \<Longrightarrow>
    \<forall>ts \<in> set Q. length_of ts = end_of ts - begin_of ts \<Longrightarrow> e < b + w"
proof (induction w Q arbitrary: b rule: window.induct)
  case (2 w ts rest)
  have "\<not> w \<le> length_of ts" using "2.prems"(1) by auto
  moreover from this have "window (w - length_of ts) rest = None"
    using "2.prems"(1) by (auto split: option.splits)
  ultimately have "e < end_of ts + (w - length_of ts)"
    using "2.IH"[of "end_of ts"] "2.prems" by simp
  then show ?case using "2.prems"(2,4) by simp
qed simp

lemma free_at_drop:
  assumes "schedule_ok s" "n < length (profile s)" "begin_of (profile s ! n) \<le> t"
  shows "free_at (drop n (profile s)) t m \<longleftrightarrow> free_at (profile s) t m"
proof -
  let ?P = "profile s"
  have "?P = take n ?P @ drop n ?P" by simp
  moreover have "chain (begin_of (hd ?P)) (take n ?P @ drop n ?P) horizon"
    using assms(1) by (simp add: schedule_ok_def)
  then obtain c where c: "chain (begin_of (hd ?P)) (take n ?P) c" "chain c (drop n ?P) horizon"
    unfolding chain_append by blast
  have "c = begin_of (?P ! n)" using c(2) assms(2) by (simp add: Cons_nth_drop_Suc[symmetric])
  then have "\<not> free_at (take n ?P) t m"
    using chain_bounds[OF c(1)] assms(3) unfolding free_at_def by fastforce
  ultimately show ?thesis using free_at_append(1)[of "take n ?P" "drop n ?P" t m] by simp
qed

text \<open>The machines free at every date of \<open>[b, b + w)\<close>.\<close>

definition free_during :: "time_slice list \<Rightarrow> time \<Rightarrow> time \<Rightarrow> machines" where
  "free_during P b w = {m. \<forall>t. b \<le> t \<and> t < b + w \<longrightarrow> free_at P t m}"

lemma window_free_during:
  assumes ok: "schedule_ok s" and n: "n < length (profile s)" and w: "0 < w"
    and strict: "\<forall>ts \<in> set (profile s). begin_of ts < end_of ts"
  shows "window w (drop n (profile s)) = Some (d, A) \<Longrightarrow> A = free_during (profile s) (begin_of (profile s ! n)) w"
    and "window w (drop n (profile s)) = None \<Longrightarrow> horizon < begin_of (profile s ! n) + w"
proof -
  have ch: "chain (begin_of (profile s ! n)) (drop n (profile s)) horizon"
    by (rule schedule_ok_slices(4)[OF ok n])
  have len: "\<forall>ts \<in> set (drop n (profile s)). length_of ts = end_of ts - begin_of ts"
    using schedule_ok_slices(2)[OF ok] by (meson in_set_dropD)
  have st: "\<forall>ts \<in> set (drop n (profile s)). begin_of ts < end_of ts" using strict by (meson in_set_dropD)
  show "horizon < begin_of (profile s ! n) + w" if "window w (drop n (profile s)) = None"
    by (rule window_None[OF that ch w len])
  assume "window w (drop n (profile s)) = Some (d, A)"
  from window_free[OF this ch w len st] show "A = free_during (profile s) (begin_of (profile s ! n)) w"
    using free_at_drop[OF ok n] unfolding free_during_def by blast
qed

lemma free_during_finite:
  assumes ok: "schedule_ok s" and w: "0 < w"
  shows "finite (free_during (profile s) b w)"
proof (rule finite_subset)
  show "finite (in_service s)" by (simp add: in_service_def)
  show "free_during (profile s) b w \<subseteq> in_service s"
  proof
    fix m
    assume "m \<in> free_during (profile s) b w"
    then have "free_at (profile s) b m" using w by (simp add: free_during_def)
    then show "m \<in> in_service s"
      using ok profile_okD(2)[of "in_service s" "profile s"]
      by (auto simp: free_at_def schedule_ok_def slice_ok_def)
  qed
qed

context greedy_selector
begin

text \<open>No earlier date offers enough machines for long enough.\<close>

lemma earliest:
  assumes ok: "schedule_ok s" and r: "0 \<le> nb_requested_resources j" "has_walltime j" "0 < walltime j"
    and strict: "\<forall>ts \<in> set (profile s). begin_of ts < end_of ts"
    and no: "\<forall>m < n. anchor fit horizon j (drop m (profile s)) = None" and n: "n \<le> length (profile s)"
    and t: "begin_of (hd (profile s)) \<le> t" "\<forall>m < length (profile s). n \<le> m \<longrightarrow> t < begin_of (profile s ! m)"
      "t < horizon" "t + walltime j \<le> horizon"
  shows "int (card (free_during (profile s) t (walltime j))) < nb_requested_resources j"
proof -
  let ?P = "profile s" and ?w = "walltime j"
  have "chain (begin_of (hd ?P)) ?P horizon" using ok by (simp add: schedule_ok_def)
  then obtain ts where "ts \<in> set ?P" and ts: "begin_of ts \<le> t" "t < end_of ts"
    using chain_block t(1,3) by blast
  then obtain m where m: "m < length ?P" "?P ! m = ts" by (meson in_set_conv_nth)
  have "m < n" using t(2) m ts by fastforce
  let ?b = "begin_of ts"
  have bw: "?b + ?w \<le> horizon" using ts(1) t(4) by simp
  have anc: "anchor fit horizon j (drop m ?P) = None" using no \<open>m < n\<close> by blast
  obtain d A where A: "window ?w (drop m ?P) = Some (d, A)"
    using window_free_during(2)[OF ok m(1) r(3) strict] bw m(2) by (cases "window ?w (drop m ?P)") auto
  have Af: "A = free_during ?P ?b ?w" using window_free_during(1)[OF ok m(1) r(3) strict A] m(2) by simp
  have fin: "finite A" unfolding Af by (rule free_during_finite[OF ok r(3)])
  have "\<not> (\<exists>U. fit j A = Some (Some U))" using anc A r(2) by (auto simp: anchor_def)
  then have small: "int (card A) < nb_requested_resources j" using fit_iff[OF fin r(1)] by auto
  have "free_during ?P t ?w \<subseteq> A"
  proof
    fix k
    assume k: "k \<in> free_during ?P t ?w"
    have "free_at ?P t k" using k r(3) by (simp add: free_during_def)
    then obtain ts' where ts': "ts' \<in> set ?P" "begin_of ts' \<le> t" "t < end_of ts'" "k \<in> available_machines ts'"
      by (auto simp: free_at_def)
    have "ts' = ts"
      using chain_unique[of "begin_of (hd ?P)" ?P horizon ts' ts t] ok ts' ts \<open>ts \<in> set ?P\<close>
      by (simp add: schedule_ok_def)
    then have now: "free_at ?P u k" if "?b \<le> u" "u < end_of ts" for u
      using that ts' \<open>ts \<in> set ?P\<close> by (auto simp: free_at_def)
    have "free_at ?P u k" if "?b \<le> u" "u < ?b + ?w" for u
    proof (cases "u < end_of ts")
      case True
      then show ?thesis using now that(1) by simp
    next
      case False
      then have "t \<le> u" "u < t + ?w" using ts that by auto
      then show ?thesis using k by (simp add: free_during_def)
    qed
    then show "k \<in> A" by (simp add: Af free_during_def)
  qed
  then have "card (free_during ?P t ?w) \<le> card A" by (rule card_mono[OF fin])
  then show ?thesis using small by simp
qed

end

lemma begins_sorted:
  assumes "schedule_ok s" "n \<le> m" "m < length (profile s)"
  shows "begin_of (profile s ! n) \<le> begin_of (profile s ! m)"
proof -
  have ch: "chain (begin_of (profile s ! n)) (drop n (profile s)) horizon"
    using schedule_ok_slices(4)[OF assms(1)] assms(2,3) by simp
  have "m - n < length (drop n (profile s))" "drop n (profile s) ! (m - n) = profile s ! m"
    using assms(2,3) by simp_all
  then have "profile s ! m \<in> set (drop n (profile s))" using nth_mem by metis
  then show ?thesis using chain_bounds[OF ch] by blast
qed

text \<open>The scan of \<^verbatim>\<open>query_wait\<close> is the scan of the insertion, for the job it makes up.\<close>

lemma fake_job_simps [simp]:
  "nb_requested_resources (fake_job sz t) = sz" "walltime (fake_job sz t) = t"
  "has_walltime (fake_job sz t)"
  by (simp_all add: fake_job_def)

lemma query_window_eq:
  "query_window fit sz t A tot rest =
     map_option (\<lambda>r. r \<noteq> None) (extend_window fit (fake_job sz t) A tot rest k)"
proof (induction rest arbitrary: A tot k)
  case (Cons ts rest)
  then show ?case by (auto simp: fake_job_def Let_def split: option.split)
qed simp

lemma query_scan_eq:
  "query_scan to_double fit sz t P = (case scan_anchor fit hz (fake_job sz t) P i of
     None \<Rightarrow> None
   | Some (_, None) \<Rightarrow> Some (- 1)
   | Some (_, Some (n, _)) \<Rightarrow> Some (to_double (begin_of (P ! (n - i)))))"
proof (induction P arbitrary: i)
  case (Cons ts P)
  have f: "nb_requested_resources (fake_job sz t) = sz" "walltime (fake_job sz t) = t"
    "effective_walltime hz ts (fake_job sz t) = fake_job sz t"
    by (simp_all add: fake_job_def effective_walltime_def)
  have ge: "Suc i \<le> n" if "scan_anchor fit hz j Q (Suc i) = Some (j', Some (n, r))" for j Q j' n r
  proof -
    have "i0 \<le> n" if "scan_anchor fit hz j Q i0 = Some (j', Some (n, r))" for i0
      using that
      by (induction Q arbitrary: j i0)
        (force simp: Let_def dest: Suc_leD split: if_splits option.splits)+
    then show ?thesis using that by blast
  qed
  have rec: "query_scan to_double fit sz t P = (case scan_anchor fit hz (fake_job sz t) P (Suc i) of
     None \<Rightarrow> None
   | Some (_, None) \<Rightarrow> Some (- 1)
   | Some (_, Some (n, _)) \<Rightarrow> Some (to_double (begin_of ((ts # P) ! (n - i)))))"
    using Cons.IH[of "Suc i"] ge
    by (auto split: option.splits simp: nth_Cons' Suc_diff_le dest!: ge)
  show ?case
    using rec by (auto simp: f Let_def query_window_eq[of _ _ _ _ _ _ "Suc i"] split: option.split)
qed simp

context resource_selector
begin

lemma query_wait_anchor:
  assumes ok: "schedule_ok s" and j: "0 \<le> nb_requested_resources j" "has_walltime j"
  shows "query_wait to_double (nb_requested_resources j) (walltime j) fit s =
    Some (if \<exists>n < length (profile s). anchor fit horizon j (drop n (profile s)) \<noteq> None
          then to_double (begin_of (profile s ! (LEAST n. anchor fit horizon j (drop n (profile s)) \<noteq> None)))
          else - 1)"
proof -
  let ?P = "profile s" and ?f = "fake_job (nb_requested_resources j) (walltime j)"
  have "fit ?f = fit j" by (rule fit_request_only) (simp add: fake_job_def)
  then have anc: "anchor fit horizon ?f Q = anchor fit horizon j Q" for Q
    using j(2) \<open>fit ?f = fit j\<close> by (simp add: anchor_def split: option.split)
  have f: "0 \<le> nb_requested_resources ?f" using j(1) by (simp add: fake_job_def)
  have c: "\<forall>ts \<in> set ?P. counted ts" using schedule_ok_slices(1)[OF ok] by blast
  have eq: "query_wait to_double (nb_requested_resources j) (walltime j) fit s =
      (case scan_anchor fit horizon ?f ?P 0 of None \<Rightarrow> None | Some (_, None) \<Rightarrow> Some (- 1)
       | Some (_, Some (n, _)) \<Rightarrow> Some (to_double (begin_of (?P ! n))))"
    unfolding query_wait_def by (subst query_scan_eq[where hz = horizon and i = 0]) (simp only: diff_zero)
  consider (found) n d U where "n < length ?P" "anchor fit horizon j (drop n ?P) = Some (d, U)"
      "\<forall>m < n. anchor fit horizon j (drop m ?P) = None"
      "scan_anchor fit horizon ?f ?P 0 = Some (effective_walltime horizon (?P ! n) ?f, Some (n, n + d, U))"
    | (no) w where "\<forall>m < length ?P. anchor fit horizon j (drop m ?P) = None"
      "scan_anchor fit horizon ?f ?P 0 = Some (?f\<lparr>walltime := w\<rparr>, None)"
    using scan_anchor_spec[OF f c, of horizon 0] unfolding anc by auto
  then show ?thesis
  proof cases
    case found
    then have "(LEAST n. anchor fit horizon j (drop n ?P) \<noteq> None) = n"
      by (intro Least_equality) (auto simp: not_less[symmetric])
    moreover have "\<exists>n < length ?P. anchor fit horizon j (drop n ?P) \<noteq> None" using found(1,2) by blast
    ultimately show ?thesis using found(4) unfolding eq by simp
  next
    case no
    then show ?thesis unfolding eq by auto
  qed
qed

end

subsection \<open>A sample job and schedule\<close>

text \<open>Two machines of four for ten seconds, on an empty platform of four machines.\<close>

definition sample_job :: job where
  "sample_job = \<lparr>jid = ''w0!1'', unique_number = 1, nb_requested_resources = 2,
     walltime = 10, original_walltime = 10, has_walltime = True, submission_time = 0,
     submission_times = [0], completion_time = - 1, cores = 1, purpose = ''job'',
     future_allocations = {}, start = - 1, duration = 10\<rparr>"

definition sample_schedule :: schedule where
  "sample_schedule = the (new_schedule 4 0)"

lemma sample_schedule_eq: "new_schedule 4 0 = Some sample_schedule"
  by (simp add: sample_schedule_def new_schedule_def)

lemma sample_schedule_simps [simp]:
  "profile sample_schedule = [\<lparr>begin_of = 0, end_of = horizon, length_of = horizon,
     has_reservation = False, nb_reservations = 0, available_machines = {0..<4},
     allocated_machines = {}, nb_available_machines = 4, allocated_jobs = []\<rparr>]"
  "nb_machines sample_schedule = 4" "repair_machines sample_schedule = {}"
  by (simp_all add: sample_schedule_def new_schedule_def)

lemma horizon_pos [simp]: "0 < horizon" "10 \<le> horizon" "10 < horizon" by (simp_all add: horizon_def)

lemma sample_schedule_ok: "schedule_ok sample_schedule"
  using new_schedule_ok(1)[OF sample_schedule_eq] by (simp add: less_imp_le)

lemma sample_insertable: "insertable sample_job sample_schedule"
  by (simp add: insertable_def sample_job_def good_id_def absent_def slice_has_def)

lemma std_basic: "resource_selector (basic_fit std_lib)" "greedy_selector (basic_fit std_lib)"
  by (rule std.basic.resource_selector_axioms std.basic.greedy_selector_axioms)+

subsection \<open>Success of the insertion\<close>

context greedy_selector
begin

lemma last_slice_anchor:
  assumes ok: "schedule_ok s" and r: "0 \<le> nb_requested_resources j"
    and free: "allocated_jobs (last (profile s)) = []"
    and fits: "nb_requested_resources j \<le> int (card (in_service s))"
    and w: "has_walltime j \<longrightarrow> walltime j \<le> length_of (last (profile s))"
  shows "anchor fit horizon j (drop (length (profile s) - 1) (profile s)) \<noteq> None"
proof -
  let ?l = "last (profile s)"
  have P: "profile s \<noteq> []" using ok by (simp add: schedule_ok_def)
  then have l: "?l \<in> set (profile s)" by simp
  then have sl: "slice_ok (in_service s) ?l"
    using ok profile_okD(2)[OF _ l] by (simp add: schedule_ok_def)
  then have av: "available_machines ?l = in_service s" using free by (simp add: slice_ok_def jm_union_def)
  have "drop (length (profile s) - 1) (profile s) = [?l]"
    using P by (metis append_butlast_last_id append_eq_conv_conj length_butlast)
  moreover have "end_of ?l = horizon" using schedule_ok_slices(3)[OF ok] .
  moreover have "length_of ?l = end_of ?l - begin_of ?l" using sl by (simp add: slice_ok_def)
  moreover obtain U where "fit (effective_walltime horizon ?l j) (in_service s) = Some (Some U)"
    using fit_accepts[of "in_service s" "effective_walltime horizon ?l j"] r fits
    by (auto simp: in_service_def)
  ultimately show ?thesis using w av by (auto simp: anchor_def effective_walltime_def)
qed

lemma add_job_succeeds:
  assumes ok: "schedule_ok s" and ins: "insertable j s"
    and free: "allocated_jobs (last (profile s)) = []"
    and fits: "nb_requested_resources j \<le> int (card (in_service s))"
    and w: "has_walltime j \<longrightarrow> walltime j \<le> length_of (last (profile s))"
  obtains j' alloc s' where "add_job_first_fit j fit b s = Some (j', alloc, s')" "has_been_inserted alloc"
proof -
  have P: "profile s \<noteq> []" using ok by (simp add: schedule_ok_def)
  have a: "anchor fit horizon j (drop (length (profile s) - 1) (profile s)) \<noteq> None"
    by (rule last_slice_anchor[OF ok _ free fits w]) (use ins in \<open>simp add: insertable_def\<close>)
  have eq: "add_job_first_fit j fit b s = add_job_first_fit_after_time_slice j 0 fit b s"
    using contains_job_sched_iff[OF P] ins by (simp add: add_job_first_fit_def insertable_def)
  show thesis
  proof (rule add_after_slice_cases[OF ok ins, of 0 b], goal_cases)
    case (1 n d U s' j')
    then show ?case using that eq by (simp add: first_fit_alloc_def)
  next
    case (2 w)
    then show ?case using a P by simp
  qed
qed

end

lemma sample_add:
  obtains j' alloc s' where "add_job_first_fit sample_job (basic_fit std_lib) b sample_schedule = Some (j', alloc, s')"
    "has_been_inserted alloc"
  by (rule greedy_selector.add_job_succeeds[OF std_basic(2) sample_schedule_ok sample_insertable, of b])
    (simp_all add: sample_job_def in_service_def)

text \<open>The first two seconds of a platform of four machines are taken by a job on three of them.\<close>

definition busy_schedule :: schedule where
  "busy_schedule = sample_schedule\<lparr>profile := [
     \<lparr>begin_of = 0, end_of = 2, length_of = 2, has_reservation = False, nb_reservations = 0,
      available_machines = {3}, allocated_machines = {0, 1, 2}, nb_available_machines = 1,
      allocated_jobs = [(sample_job\<lparr>jid := ''w0!0'', nb_requested_resources := 3\<rparr>, {0, 1, 2})]\<rparr>,
     \<lparr>begin_of = 2, end_of = horizon, length_of = horizon - 2, has_reservation = False,
      nb_reservations = 0, available_machines = {0..<4}, allocated_machines = {},
      nb_available_machines = 4, allocated_jobs = []\<rparr>]\<rparr>"

lemma one_run_two [simp]: "one_run [x, y]" by (cases x; cases y) auto

lemma busy_schedule_ok: "schedule_ok busy_schedule"
proof -
  have f: "{0..<4} - {0, Suc 0, 2} = {3::nat}" by auto
  show ?thesis
    by (auto simp: schedule_ok_def profile_ok_def busy_schedule_def slice_ok_def jm_disjoint_def
        jm_union_def in_service_def coherent_def slice_has_def good_id_def sample_job_def horizon_def f
        split: if_splits)
qed

lemma busy_insertable: "insertable sample_job busy_schedule"
  by (simp add: insertable_def sample_job_def good_id_def absent_def slice_has_def busy_schedule_def)

lemma busy_add:
  obtains j' alloc s' where "add_job_first_fit sample_job (basic_fit std_lib) True busy_schedule = Some (j', alloc, s')"
    "alloc_begin alloc = 2" "has_been_inserted alloc"
proof -
  have c: "contains_job_sched sample_job busy_schedule = Some False"
    using contains_job_sched_iff[of busy_schedule sample_job] busy_insertable
    by (simp add: insertable_def busy_schedule_def)
  have eq: "add_job_first_fit sample_job (basic_fit std_lib) True busy_schedule =
      add_job_first_fit_after_time_slice sample_job 0 (basic_fit std_lib) True busy_schedule"
    using c by (simp add: add_job_first_fit_def)
  obtain j' alloc s' where add: "add_job_first_fit sample_job (basic_fit std_lib) True busy_schedule = Some (j', alloc, s')"
      "has_been_inserted alloc"
    by (rule greedy_selector.add_job_succeeds[OF std_basic(2) busy_schedule_ok busy_insertable, of True])
      (simp_all add: busy_schedule_def sample_job_def in_service_def horizon_def)
  have "alloc_begin alloc = 2"
  proof (rule resource_selector.add_job_cases[OF std_basic(1) busy_schedule_ok busy_insertable add(1)], goal_cases)
    case (1 n d U)
    have "n \<noteq> 0"
    proof
      assume "n = 0"
      then have "anchor (basic_fit std_lib) horizon sample_job (profile busy_schedule) = Some (d, U)"
        using 1(4) by simp
      then show False
        by (simp add: anchor_def busy_schedule_def sample_job_def effective_walltime_def
            basic_fit_def horizon_def)
    qed
    then have "n = 1" using 1(2) by (simp add: busy_schedule_def)
    then show ?case using 1(6) by (simp add: first_fit_alloc_def busy_schedule_def)
  next
    case 2
    then show ?case using add(2) by simp
  qed
  then show thesis using that add by blast
qed

end
