(* ===== verification/Schedule_Props.thy ===== *)
theory Schedule_Props
  imports Schedule_Safety
begin

text \<open>
  The properties of the schedule: the states that insertions, removals, splits and advances of
  the clock can reach, and what each operation does in them.
\<close>

subsection \<open>Reachable schedules\<close>

text \<open>
  One step of a schedule: the public operations, called as the schedulers call them (the jobs
  have a walltime or the horizon ahead, a usable identifier, and the clock does not pass the end
  of the first slice).
\<close>

inductive schedule_step :: "selector \<Rightarrow> schedule \<Rightarrow> schedule \<Rightarrow> bool" for fit where
  insert_job: "insertable j s \<Longrightarrow> add_job_first_fit j fit b s = Some (j', alloc, s') \<Longrightarrow>
     schedule_step fit s s'"
| insert_after: "insertable j s \<Longrightarrow> has_walltime j \<Longrightarrow>
     add_job_first_fit_after_time j date fit b s = Some (j', alloc, s') \<Longrightarrow> schedule_step fit s s'"
| remove: "remove_job j s = Some s' \<Longrightarrow> schedule_step fit s s'"
| remove_if: "remove_job_if_exists j s = Some (c, s') \<Longrightarrow> schedule_step fit s s'"
| split: "split_slice i date s = Some (s', c, f, g) \<Longrightarrow> schedule_step fit s s'"
| advance: "update_first_slice now s = Some s' \<Longrightarrow> begin_of (hd (profile s)) \<le> now \<Longrightarrow>
     now \<le> end_of (hd (profile s)) \<Longrightarrow> schedule_step fit s s'"

inductive reachable :: "selector \<Rightarrow> schedule \<Rightarrow> bool" for fit where
  start: "new_schedule n t0 = Some s \<Longrightarrow> t0 \<le> horizon \<Longrightarrow> reachable fit s"
| step: "reachable fit s \<Longrightarrow> schedule_step fit s s' \<Longrightarrow> reachable fit s'"

text \<open>Insertion after a date: the slice that contains the date is split there.\<close>

lemma insertable_absent_cong:
  "insertable j s \<Longrightarrow> has_walltime j \<Longrightarrow> absent j (profile s') \<longleftrightarrow> absent j (profile s) \<Longrightarrow> insertable j s'"
  by (simp add: insertable_def)

context resource_selector
begin

lemma add_after_time_cases:
  assumes ok: "schedule_ok s" and ins: "insertable j s" "has_walltime j"
    and run: "add_job_first_fit_after_time j date fit b s = Some (j', alloc, s')"
  shows "schedule_ok s' \<and> (has_been_inserted alloc \<longrightarrow>
     int (card (used_machines alloc)) = nb_requested_resources j \<and>
     (begin_of (hd (profile s)) \<le> date \<longrightarrow> date \<le> alloc_begin alloc) \<and>
     adds_job (jid j) (used_machines alloc) (alloc_begin alloc) (alloc_begin alloc + walltime j)
       (profile s) (profile s')) \<and>
   (\<not> has_been_inserted alloc \<longrightarrow> (\<forall>t i U. occupied (profile s') t i U \<longleftrightarrow> occupied (profile s) t i U))"
proof -
  let ?Q = "\<lambda>ts. begin_of ts \<le> date \<and> date < end_of ts" and ?P = "profile s"
  define i where "i = find_if ?Q ?P"
  have i: "i < length ?P" using run find_if_le[of ?Q ?P]
    by (auto simp: add_job_first_fit_after_time_def i_def Let_def run_simps)
  have at_i: "begin_of (?P ! i) \<le> date" "date < end_of (?P ! i)"
    using find_if_spec[of ?Q ?P] i by (simp_all add: i_def)
  obtain s1 c f g where sp: "split_slice i date s = Some (s1, c, f, g)" "schedule_ok s1"
    "g < length (profile s1)" "c \<longleftrightarrow> begin_of (?P ! i) < date \<and> date < end_of (?P ! i)"
    "c \<Longrightarrow> begin_of (profile s1 ! g) = date" "\<not> c \<Longrightarrow> s1 = s \<and> g = i"
    "\<And>t j U. occupied (profile s1) t j U \<longleftrightarrow> occupied ?P t j U"
    "\<And>t m. free_at (profile s1) t m \<longleftrightarrow> free_at ?P t m"
    "frame s s1" "\<And>j. absent j (profile s1) \<longleftrightarrow> absent j ?P"
    by (rule split_slice_ok[OF ok i, of date]) blast
  have g: "date \<le> begin_of (profile s1 ! g)" using sp(4-6) at_i by fastforce
  have ins1: "insertable j s1" by (rule insertable_absent_cong[OF ins sp(10)])
  have run1: "add_job_first_fit_after_time_slice j g fit b s1 = Some (j', alloc, s')"
    using run sp(1) by (auto simp: add_job_first_fit_after_time_def i_def Let_def run_simps)
  show ?thesis
  proof (rule add_after_slice_cases[OF sp(2) ins1, of g b], goal_cases)
    case (1 n d U s'' j'')
    have "j'' = j" using 1(3) ins(2) by simp
    moreover have "date \<le> begin_of (profile s1 ! n)" using begins_sorted[OF sp(2) 1(1,2)] g by simp
    ultimately show ?case using 1 run1 sp(7,8) by (simp add: first_fit_alloc_def adds_job_def)
  next
    case (2 w)
    then show ?case using run1 sp(2,7) by (auto simp: failed_alloc_def split: if_splits)
  qed
qed

lemma step_ok: "schedule_step fit s s' \<Longrightarrow> schedule_ok s \<Longrightarrow> schedule_ok s'"
proof (induction rule: schedule_step.induct)
  case (insert_job j s b j' alloc s')
  show ?case by (rule add_job_cases[OF insert_job.prems insert_job.hyps]) (use insert_job.prems in auto)
next
  case (insert_after j s date b j' alloc s')
  then show ?case using add_after_time_cases by blast
next
  case (remove j s s')
  show ?case by (rule remove_job_cases[OF remove.prems, of j]) (use remove in auto)
next
  case (remove_if j s c s')
  show ?case by (rule remove_job_cases[OF remove_if.prems, of j]) (use remove_if in auto)
next
  case (split i date s s' c f g)
  have "i < length (profile s)" using split.hyps by (auto simp: split_slice_def run_simps)
  then show ?case by (rule split_slice_ok[OF split.prems, of i date]) (use split in auto)
next
  case (advance now s s')
  show ?case by (rule update_first_slice_ok[OF advance.prems advance.hyps(2,3)]) (use advance in auto)
qed

lemma reachable_ok: "reachable fit s \<Longrightarrow> schedule_ok s"
  by (induction rule: reachable.induct) (auto intro: new_schedule_ok(1) step_ok)

end

subsection \<open>Properties\<close>

lemma reachable_no_double_booking_facts:
  assumes "resource_selector fit" "reachable fit s"
  shows "occupied (profile s) t i U \<Longrightarrow> occupied (profile s) t i' U' \<Longrightarrow> i \<noteq> i' \<Longrightarrow> U \<inter> U' = {}"
    and "occupied (profile s) t i U \<Longrightarrow> free_at (profile s) t m \<Longrightarrow> m \<notin> U"
    and "begin_of (hd (profile s)) \<le> t \<Longrightarrow> t < horizon \<Longrightarrow> m \<in> in_service s \<Longrightarrow>
      free_at (profile s) t m \<or> (\<exists>i U. occupied (profile s) t i U \<and> m \<in> U)"
    and "occupied (profile s) t i U \<Longrightarrow> occupied (profile s) t' i U' \<Longrightarrow> U = U'"
    and "ts \<in> set (profile s) \<Longrightarrow>
      nb_available_machines ts = int (card (available_machines ts)) \<and>
      available_machines ts = in_service s - allocated_machines ts"
proof -
  have ok: "schedule_ok s" using assms by (rule resource_selector.reachable_ok)
  then have P: "profile_ok (in_service s) (profile s)"
    "chain (begin_of (hd (profile s))) (profile s) horizon" by (simp_all add: schedule_ok_def)
  note v = profile_ok_view[OF P]
  show "U \<inter> U' = {}" if "occupied (profile s) t i U" "occupied (profile s) t i' U'" "i \<noteq> i'"
    using that by (rule v(1))
  show "m \<notin> U" if "occupied (profile s) t i U" "free_at (profile s) t m" using that by (rule v(3))
  show "free_at (profile s) t m \<or> (\<exists>i U. occupied (profile s) t i U \<and> m \<in> U)"
    if "begin_of (hd (profile s)) \<le> t" "t < horizon" "m \<in> in_service s" using that v(5) by blast
  show "U = U'" if "occupied (profile s) t i U" "occupied (profile s) t' i U'" using that by (rule v(2))
  show "nb_available_machines ts = int (card (available_machines ts)) \<and>
      available_machines ts = in_service s - allocated_machines ts" if "ts \<in> set (profile s)"
    using profile_okD(2)[OF P(1) that] by (simp add: slice_ok_def)
qed

text \<open>
  C1: whatever sequence of insertions, removals, splits and clock advances a scheduler performs,
  at every date of the schedule no machine is held by two jobs, a free machine is held by none,
  every machine in service is free or held, a job holds the same machines over its whole stay,
  and the counter of free machines of every slice is exact.
\<close>

theorem reachable_no_double_booking:
  assumes "resource_selector fit" "reachable fit s"
  shows "(occupied (profile s) t i U \<longrightarrow>
       occupied (profile s) t i' U' \<longrightarrow>
       i \<noteq> i' \<longrightarrow>
       U \<inter> U' = {}) \<and>
    (occupied (profile s) t i U \<longrightarrow>
       free_at (profile s) t m \<longrightarrow>
       m \<notin> U) \<and>
    (begin_of (hd (profile s)) \<le> t \<longrightarrow>
       t < horizon \<longrightarrow>
       m \<in> in_service s \<longrightarrow>
       (free_at (profile s) t m \<or> (\<exists>i U. occupied (profile s) t i U \<and> m \<in> U))) \<and>
    (occupied (profile s) t i U \<longrightarrow>
       occupied (profile s) t' i U' \<longrightarrow>
       U = U') \<and>
    (ts \<in> set (profile s) \<longrightarrow>
       (nb_available_machines ts = int (card (available_machines ts)) \<and>
      available_machines ts = in_service s - allocated_machines ts))"
proof -
  note facts = reachable_no_double_booking_facts[OF assms]
  show ?thesis
    by (intro conjI impI)
      ((rule facts(1), assumption+) | (rule facts(2), assumption+) | (rule facts(3), assumption+)
        | (rule facts(4), assumption+) | (rule conjunct1[OF facts(5)], assumption)
        | (rule conjunct2[OF facts(5)], assumption))+
qed

theorem reachable_no_double_booking_witness:
  "\<exists>s. reachable (basic_fit std_lib) s \<and> profile s \<noteq> [] \<and>
     (\<forall>ts \<in> set (profile s). nb_available_machines ts = int (card (available_machines ts)))"
proof -
  obtain j' alloc s' where add: "add_job_first_fit sample_job (basic_fit std_lib) True sample_schedule = Some (j', alloc, s')"
    by (rule sample_add[of True])
  have "reachable (basic_fit std_lib) sample_schedule"
    by (rule reachable.start[OF sample_schedule_eq]) (simp add: less_imp_le)
  then have r: "reachable (basic_fit std_lib) s'"
    by (rule reachable.step) (rule schedule_step.insert_job[OF sample_insertable add])
  have "profile s' \<noteq> []"
    using resource_selector.reachable_ok[OF std_basic(1) r] by (simp add: schedule_ok_def)
  then show ?thesis using r reachable_no_double_booking[OF std_basic(1) r] by blast
qed

lemma add_job_first_fit_correct_facts:
  assumes "resource_selector fit" "schedule_ok s" "insertable j s"
    and "add_job_first_fit j fit b s = Some (j', alloc, s')"
  shows "has_been_inserted alloc \<Longrightarrow> schedule_ok s' \<and>
      adds_job (jid j) (used_machines alloc) (alloc_begin alloc) (alloc_begin alloc + walltime j')
        (profile s) (profile s') \<and>
      int (card (used_machines alloc)) = nb_requested_resources j \<and>
      (has_walltime j \<longrightarrow> j' = j) \<and> (\<not> has_walltime j \<longrightarrow> alloc_begin alloc + walltime j' = horizon) \<and>
      sched_size s' = sched_size s + 1 \<and> nb_jobs_size s' = nb_jobs_size s + 1 \<and>
      (started_in_first_slice alloc \<longrightarrow> alloc_begin alloc = begin_of (hd (profile s)))"
    and "\<not> has_been_inserted alloc \<Longrightarrow> s' = s \<and> \<not> b"
proof -
  note cases = resource_selector.add_job_cases[OF assms]
  show "\<not> has_been_inserted alloc \<Longrightarrow> s' = s \<and> \<not> b"
    by (rule cases) (auto simp: first_fit_alloc_def)
  assume "has_been_inserted alloc"
  then show "schedule_ok s' \<and>
      adds_job (jid j) (used_machines alloc) (alloc_begin alloc) (alloc_begin alloc + walltime j')
        (profile s) (profile s') \<and>
      int (card (used_machines alloc)) = nb_requested_resources j \<and>
      (has_walltime j \<longrightarrow> j' = j) \<and> (\<not> has_walltime j \<longrightarrow> alloc_begin alloc + walltime j' = horizon) \<and>
      sched_size s' = sched_size s + 1 \<and> nb_jobs_size s' = nb_jobs_size s + 1 \<and>
      (started_in_first_slice alloc \<longrightarrow> alloc_begin alloc = begin_of (hd (profile s)))"
    by - (rule cases; auto simp: first_fit_alloc_def effective_walltime_def hd_conv_nth)
qed

text \<open>
  C2: a job inserted by \<^verbatim>\<open>add_job_first_fit\<close> gets exactly the number of machines it asks for,
  from the recorded beginning for its walltime; nothing else changes in who holds what, and the
  counters of the schedule grow by one.  A refused job leaves the schedule as it was.
\<close>

theorem add_job_first_fit_correct:
  assumes "resource_selector fit" "schedule_ok s" "insertable j s"
    and "add_job_first_fit j fit b s = Some (j', alloc, s')"
  shows "(has_been_inserted alloc \<longrightarrow>
       (schedule_ok s' \<and>
      adds_job (jid j) (used_machines alloc) (alloc_begin alloc) (alloc_begin alloc + walltime j')
        (profile s) (profile s') \<and>
      int (card (used_machines alloc)) = nb_requested_resources j \<and>
      (has_walltime j \<longrightarrow> j' = j) \<and> (\<not> has_walltime j \<longrightarrow> alloc_begin alloc + walltime j' = horizon) \<and>
      sched_size s' = sched_size s + 1 \<and> nb_jobs_size s' = nb_jobs_size s + 1 \<and>
      (started_in_first_slice alloc \<longrightarrow> alloc_begin alloc = begin_of (hd (profile s))))) \<and>
    (\<not> has_been_inserted alloc \<longrightarrow>
       (s' = s \<and> \<not> b))"
  by (intro conjI impI; use add_job_first_fit_correct_facts[OF assms] in blast)

theorem add_job_first_fit_correct_witness:
  "\<exists>j' alloc s'. add_job_first_fit sample_job (basic_fit std_lib) True sample_schedule = Some (j', alloc, s') \<and>
     has_been_inserted alloc \<and> schedule_ok s' \<and> card (used_machines alloc) = 2"
proof -
  obtain j' alloc s' where add: "add_job_first_fit sample_job (basic_fit std_lib) True sample_schedule = Some (j', alloc, s')"
    "has_been_inserted alloc"
    by (rule sample_add[of True])
  from add_job_first_fit_correct[OF std_basic(1) sample_schedule_ok sample_insertable add(1)] add(2)
  have "schedule_ok s'" "int (card (used_machines alloc)) = nb_requested_resources sample_job" by blast+
  then show ?thesis using add by (auto simp: sample_job_def)
qed

text \<open>
  C3: first fit is optimal for a job that has a walltime, with a selector that accepts any
  request of at most the free size.  Before the date chosen for the job, no date of the schedule
  offers the requested number of machines free during the whole walltime; and a refused job fits
  at no date.
\<close>

theorem add_job_first_fit_earliest:
  assumes "greedy_selector fit" "schedule_ok s" "insertable j s" "has_walltime j"
    and "\<forall>ts \<in> set (profile s). begin_of ts < end_of ts"
    and "add_job_first_fit j fit b s = Some (j', alloc, s')"
    and "begin_of (hd (profile s)) \<le> t" "t < horizon" "t + walltime j \<le> horizon"
    and "has_been_inserted alloc \<longrightarrow> t < alloc_begin alloc"
  shows "int (card (free_during (profile s) t (walltime j))) < nb_requested_resources j"
proof -
  have r: "0 \<le> nb_requested_resources j" "0 < walltime j" using assms(3,4) by (simp_all add: insertable_def)
  have rs: "resource_selector fit" using assms(1) by (simp add: greedy_selector_def)
  note e = greedy_selector.earliest[OF assms(1,2) r(1) assms(4) r(2) assms(5) _ _ assms(7) _ assms(8,9)]
  show ?thesis
  proof (rule resource_selector.add_job_cases[OF rs assms(2,3,6)], goal_cases)
    case (1 n d U)
    have "t < begin_of (profile s ! m)" if "m < length (profile s)" "n \<le> m" for m
      using begins_sorted[OF assms(2) that(2,1)] assms(10) 1(1,6) by (simp add: first_fit_alloc_def)
    then show ?case using e[OF 1(5)] 1(2) by simp
  next
    case 2
    then show ?case using e[of "length (profile s)"] by simp
  qed
qed

theorem add_job_first_fit_earliest_witness:
  "card (free_during (profile busy_schedule) 1 10) < 2"
proof -
  obtain j' alloc s' where add: "add_job_first_fit sample_job (basic_fit std_lib) True busy_schedule = Some (j', alloc, s')"
    "alloc_begin alloc = 2" by (rule busy_add)
  have "int (card (free_during (profile busy_schedule) 1 (walltime sample_job))) < nb_requested_resources sample_job"
    by (rule add_job_first_fit_earliest[OF std_basic(2) busy_schedule_ok busy_insertable _ _ add(1)])
      (use add(2) in \<open>simp_all add: busy_schedule_def sample_job_def horizon_def\<close>)
  then show ?thesis by (simp add: sample_job_def)
qed

text \<open>
  C6: \<^verbatim>\<open>query_wait\<close> answers the date at which \<^verbatim>\<open>add_job_first_fit\<close> would start a job of that
  size and walltime, converted to a double, and \<open>- 1\<close> when the insertion would be refused.  The answer
  is a date, although the header of the class promises a time away from now.
\<close>

theorem query_wait_correct:
  assumes "resource_selector fit" "schedule_ok s" "insertable j s" "has_walltime j"
    and "add_job_first_fit j fit b s = Some (j', alloc, s')"
  shows "query_wait to_double (nb_requested_resources j) (walltime j) fit s =
    Some (if has_been_inserted alloc then to_double (alloc_begin alloc) else - 1)"
proof -
  have r: "0 \<le> nb_requested_resources j" using assms(3) by (simp add: insertable_def)
  note q = resource_selector.query_wait_anchor[OF assms(1,2) r assms(4)]
  show ?thesis
  proof (rule resource_selector.add_job_cases[OF assms(1-3,5)], goal_cases)
    case (1 n d U)
    then have "(LEAST n. anchor fit horizon j (drop n (profile s)) \<noteq> None) = n"
      by (intro Least_equality) (auto simp: not_less[symmetric])
    moreover have "\<exists>n < length (profile s). anchor fit horizon j (drop n (profile s)) \<noteq> None"
      using 1(2,4) by blast
    ultimately show ?case using q 1(1,6) by (simp add: first_fit_alloc_def)
  next
    case 2
    then have "\<not> (\<exists>n < length (profile s). anchor fit horizon j (drop n (profile s)) \<noteq> None)" by simp
    with 2(1) show ?case by (simp only: q if_not_P if_False)
  qed
qed

text \<open>On an empty platform whose clock is at 7 the answer is 7, and not 0.\<close>

definition later_schedule :: schedule where
  "later_schedule = the (new_schedule 4 7)"

lemma later_schedule_eq: "new_schedule 4 7 = Some later_schedule"
  by (simp add: later_schedule_def new_schedule_def)

lemma later_schedule_ok: "schedule_ok later_schedule"
  using new_schedule_ok(1)[OF later_schedule_eq] by (simp add: horizon_def)

lemma later_insertable: "insertable sample_job later_schedule"
  by (simp add: insertable_def sample_job_def good_id_def absent_def slice_has_def later_schedule_def new_schedule_def)

lemma later_add:
  obtains j' alloc s' where "add_job_first_fit sample_job (basic_fit std_lib) True later_schedule = Some (j', alloc, s')"
    "alloc_begin alloc = 7" "has_been_inserted alloc"
proof -
  obtain j' alloc s' where add: "add_job_first_fit sample_job (basic_fit std_lib) True later_schedule = Some (j', alloc, s')"
      "has_been_inserted alloc"
    by (rule greedy_selector.add_job_succeeds[OF std_basic(2) later_schedule_ok later_insertable, of True])
      (simp_all add: later_schedule_def new_schedule_def sample_job_def in_service_def horizon_def)
  have "alloc_begin alloc = 7"
  proof (rule resource_selector.add_job_cases[OF std_basic(1) later_schedule_ok later_insertable add(1)], goal_cases)
    case (1 n d U)
    then have "n = 0" by (simp add: later_schedule_def new_schedule_def)
    then show ?case using 1(6) by (simp add: first_fit_alloc_def later_schedule_def new_schedule_def)
  next
    case 2
    then show ?case using add(2) by simp
  qed
  then show thesis using that add by blast
qed

theorem query_wait_correct_witness:
  "query_wait (\<lambda>x. of_int \<lfloor>1024 * x\<rfloor> / 1024) 2 10 (basic_fit std_lib) busy_schedule = Some 2 \<and>
   query_wait (\<lambda>x. of_int \<lfloor>1024 * x\<rfloor> / 1024) 2 10 (basic_fit std_lib) later_schedule = Some 7"
proof -
  have w: "has_walltime sample_job" by (simp add: sample_job_def)
  obtain j' alloc s' where add: "add_job_first_fit sample_job (basic_fit std_lib) True busy_schedule = Some (j', alloc, s')"
    "alloc_begin alloc = 2" "has_been_inserted alloc" by (rule busy_add)
  obtain j'' alloc' s'' where add': "add_job_first_fit sample_job (basic_fit std_lib) True later_schedule = Some (j'', alloc', s'')"
    "alloc_begin alloc' = 7" "has_been_inserted alloc'" by (rule later_add)
  have "(1024::rat) * 2 = of_int 2048" "(1024::rat) * 7 = of_int 7168" by simp_all
  then have f: "(of_int \<lfloor>1024 * 2 :: rat\<rfloor> :: rat) = 2048" "(of_int \<lfloor>1024 * 7 :: rat\<rfloor> :: rat) = 7168" by simp_all
  show ?thesis
    using query_wait_correct[OF std_basic(1) busy_schedule_ok busy_insertable w add(1), of "\<lambda>x. of_int \<lfloor>1024 * x\<rfloor> / 1024"] add(2,3)
      query_wait_correct[OF std_basic(1) later_schedule_ok later_insertable w add'(1), of "\<lambda>x. of_int \<lfloor>1024 * x\<rfloor> / 1024"] add'(2,3)
    by (simp add: sample_job_def)
qed

lemma remove_job_correct_facts:
  assumes "schedule_ok s"
  shows "remove_job j s \<noteq> None \<longleftrightarrow> contains_job_sched j s = Some True"
    and "remove_job j s = Some s' \<Longrightarrow> schedule_ok s' \<and> counters_less j s s' \<and>
      contains_job_sched j s' = Some False \<and>
      (\<exists>U. (\<exists>ts \<in> set (profile s). jm_get (jid j) (allocated_jobs ts) = Some U) \<and>
         drops_job (jid j) U (profile s) (profile s'))"
proof -
  have P: "profile s \<noteq> []" using assms by (simp add: schedule_ok_def)
  show "remove_job j s \<noteq> None \<longleftrightarrow> contains_job_sched j s = Some True"
    by (rule remove_job_cases[OF assms, of j]) (auto simp: contains_job_sched_iff[OF P])
  assume run: "remove_job j s = Some s'"
  show "schedule_ok s' \<and> counters_less j s s' \<and> contains_job_sched j s' = Some False \<and>
      (\<exists>U. (\<exists>ts \<in> set (profile s). jm_get (jid j) (allocated_jobs ts) = Some U) \<and>
         drops_job (jid j) U (profile s) (profile s'))"
    by (rule remove_job_cases[OF assms, of j]) (use run in \<open>auto simp: contains_job_sched_iff schedule_ok_def\<close>)
qed

text \<open>
  C4: \<^verbatim>\<open>remove_job\<close> succeeds exactly on a job of the schedule.  It keeps the invariant (its
  merges of neighbouring slices never fail their assertion), takes the job out everywhere, frees
  exactly its machines at exactly its dates, and decrements the counters.
\<close>

theorem remove_job_correct:
  assumes "schedule_ok s"
  shows "(remove_job j s \<noteq> None \<longleftrightarrow> contains_job_sched j s = Some True) \<and>
    (remove_job j s = Some s' \<longrightarrow>
       (schedule_ok s' \<and> counters_less j s s' \<and>
      contains_job_sched j s' = Some False \<and>
      (\<exists>U. (\<exists>ts \<in> set (profile s). jm_get (jid j) (allocated_jobs ts) = Some U) \<and>
         drops_job (jid j) U (profile s) (profile s'))))"
  by (intro conjI impI; use remove_job_correct_facts[OF assms] in blast)

theorem remove_job_correct_witness:
  "\<exists>s'. remove_job (sample_job\<lparr>jid := ''w0!0''\<rparr>) busy_schedule = Some s' \<and> schedule_ok s' \<and>
     drops_job ''w0!0'' {0, 1, 2} (profile busy_schedule) (profile s')"
proof -
  let ?j = "sample_job\<lparr>jid := ''w0!0''\<rparr>"
  have "contains_job_sched ?j busy_schedule = Some True"
    by (simp add: contains_job_sched_def find_first_occurence_of_job_def busy_schedule_def
        slice_contains_job_def)
  then obtain s' where s': "remove_job ?j busy_schedule = Some s'"
    using remove_job_correct[OF busy_schedule_ok, of ?j] by blast
  from remove_job_correct[OF busy_schedule_ok, of ?j s'] s' obtain U where
    "schedule_ok s'" "\<exists>ts \<in> set (profile busy_schedule). jm_get (jid ?j) (allocated_jobs ts) = Some U"
    "drops_job (jid ?j) U (profile busy_schedule) (profile s')" by blast
  moreover from this(2) have "U = {0, 1, 2}" by (auto simp: busy_schedule_def)
  ultimately show ?thesis using s' by auto
qed

text \<open>What a successful insertion guarantees, and that the machines it takes were free.\<close>

lemma inserted_facts:
  assumes "resource_selector fit" "schedule_ok s" "insertable j s"
    and "add_job_first_fit j fit b s = Some (j', alloc, s1)" "has_been_inserted alloc"
  shows "schedule_ok s1"
    and "adds_job (jid j) (used_machines alloc) (alloc_begin alloc) (alloc_begin alloc + walltime j') (profile s) (profile s1)"
    and "begin_of (hd (profile s)) \<le> alloc_begin alloc" "0 < walltime j'"
    and "sched_size s1 = sched_size s + 1" "nb_jobs_size s1 = nb_jobs_size s + 1" "in_service s1 = in_service s"
proof -
  let ?P = "profile s" and ?w = "walltime j'" and ?b = "alloc_begin alloc" and ?U = "used_machines alloc"
  have "schedule_ok s1 \<and> adds_job (jid j) ?U ?b (?b + ?w) ?P (profile s1) \<and> begin_of (hd ?P) \<le> ?b \<and> 0 < ?w \<and>
    sched_size s1 = sched_size s + 1 \<and> nb_jobs_size s1 = nb_jobs_size s + 1 \<and> in_service s1 = in_service s"
  proof (rule resource_selector.add_job_cases[OF assms(1-4)], goal_cases)
    case (1 n d U)
    have "begin_of (hd ?P) \<le> begin_of (?P ! n)"
      using begins_sorted[OF assms(2), of 0 n] 1(2) by (cases ?P) auto
    moreover have "0 < ?w" using assms(3) 1(2,3) by (auto simp: insertable_def effective_walltime_def)
    ultimately show ?case using 1 by (simp add: first_fit_alloc_def in_service_def)
  qed (use assms(5) in simp)
  then show "schedule_ok s1" "adds_job (jid j) ?U ?b (?b + ?w) ?P (profile s1)" "begin_of (hd ?P) \<le> ?b" "0 < ?w"
    "sched_size s1 = sched_size s + 1" "nb_jobs_size s1 = nb_jobs_size s + 1" "in_service s1 = in_service s" by blast+
qed

lemma added_machines_were_free:
  assumes ok: "schedule_ok s" "schedule_ok s1" "in_service s1 = in_service s"
    and add: "adds_job i U b e (profile s) (profile s1)" and new: "\<And>t V. \<not> occupied (profile s) t i V"
    and t: "begin_of (hd (profile s)) \<le> t" "b \<le> t" "t < e" and m: "m \<in> U"
  shows "free_at (profile s) t m"
proof (rule ccontr)
  let ?P = "profile s" and ?P1 = "profile s1"
  assume busy: "\<not> free_at ?P t m"
  have P: "profile_ok (in_service s) ?P" "chain (begin_of (hd ?P)) ?P horizon"
    and P1: "profile_ok (in_service s1) ?P1" "chain (begin_of (hd ?P1)) ?P1 horizon"
    using ok by (simp_all add: schedule_ok_def)
  note V = profile_ok_view[OF P] and V1 = profile_ok_view[OF P1]
  have oj: "occupied ?P1 t i U" using add t by (simp add: adds_job_def)
  then have "t < horizon" using chain_block[OF P1(2), of t] unfolding occupied_def by blast
  moreover have "m \<in> in_service s" using V1(4)[OF oj] m ok(3) by auto
  ultimately obtain k W where k: "occupied ?P t k W" "m \<in> W" using V(5)[of t m] t(1) busy by blast
  then have "k \<noteq> i" using new by blast
  then have "occupied ?P1 t k W" using add k(1) by (simp add: adds_job_def)
  then show False using V1(1)[OF _ oj] k(2) m \<open>k \<noteq> i\<close> by blast
qed

text \<open>
  C5: removing a job that was just inserted restores the schedule: the same jobs hold the same
  machines at the same dates, the same machines are free, and the counters are back.
\<close>

theorem remove_undoes_add:
  assumes "resource_selector fit" "schedule_ok s" "insertable j s" "\<not> is_reservation j"
    and "add_job_first_fit j fit b s = Some (j', alloc, s1)" "has_been_inserted alloc"
  shows "\<exists>s2. remove_job j s1 = Some s2 \<and> schedule_ok s2 \<and>
    (\<forall>t i U. occupied (profile s2) t i U \<longleftrightarrow> occupied (profile s) t i U) \<and>
    (\<forall>t m. free_at (profile s2) t m \<longleftrightarrow> free_at (profile s) t m) \<and>
    sched_size s2 = sched_size s \<and> nb_jobs_size s2 = nb_jobs_size s"
proof -
  let ?P = "profile s" and ?P1 = "profile s1" and ?w = "walltime j'" and ?b = "alloc_begin alloc"
    and ?U = "used_machines alloc"
  note I = inserted_facts[OF assms(1-3,5,6)]
  note A = I(2)[unfolded adds_job_def]
  have new: "\<not> occupied ?P t (jid j) V" for t V
    using assms(3) slice_has_get by (auto simp: insertable_def absent_def occupied_def)
  have o1: "occupied ?P1 t (jid j) V \<longleftrightarrow> V = ?U \<and> ?b \<le> t \<and> t < ?b + ?w" for t V
    unfolding conjunct1[OF A, rule_format] using new[of t V] by simp
  have oi: "occupied ?P1 t i V \<longleftrightarrow> occupied ?P t i V" if "i \<noteq> jid j" for t i V
    unfolding conjunct1[OF A, rule_format] using that by simp
  have free: "free_at ?P t m" if "?b \<le> t" "t < ?b + ?w" "m \<in> ?U" for t m
    by (rule added_machines_were_free[OF assms(2) I(1,7,2) new _ that]) (use I(3) that(1) in simp)
  have here: "occupied ?P1 ?b (jid j) ?U" using o1 I(4) by simp
  show ?thesis
  proof (rule remove_job_cases[OF I(1), of j], goal_cases)
    case 1
    then show ?case using here 1(1) slice_has_get by (auto simp: absent_def occupied_def)
  next
    case (2 s2 U)
    obtain ts where "ts \<in> set ?P1" "jm_get (jid j) (allocated_jobs ts) = Some ?U"
      using here by (auto simp: occupied_def)
    moreover have "profile_ok (in_service s1) ?P1" using I(1) by (simp add: schedule_ok_def)
    ultimately have "U = ?U" using 2(5) coherentD[OF profile_okD(3)] by blast
    note D = 2(6)[unfolded drops_job_def \<open>U = ?U\<close>]
    have "occupied (profile s2) t i V \<longleftrightarrow> occupied ?P t i V" for t i V
      unfolding conjunct1[OF D, rule_format] using oi[of i t V] new by blast
    moreover have "free_at (profile s2) t m \<longleftrightarrow> free_at ?P t m" for t m
      unfolding conjunct2[OF D, rule_format] conjunct2[OF A, rule_format] using o1[of t ?U] free[of t m] by blast
    ultimately show ?case using 2(2,4,7) I(5,6) assms(4) by (simp add: counters_less_def)
  qed
qed

theorem remove_undoes_add_witness:
  "\<exists>j' alloc s1 s2. add_job_first_fit sample_job (basic_fit std_lib) True busy_schedule = Some (j', alloc, s1) \<and>
     remove_job sample_job s1 = Some s2 \<and> sched_size s2 = sched_size busy_schedule"
proof -
  obtain j' alloc s1 where add: "add_job_first_fit sample_job (basic_fit std_lib) True busy_schedule = Some (j', alloc, s1)"
    "has_been_inserted alloc" by (rule busy_add)
  have "\<not> is_reservation sample_job" by (simp add: is_reservation_def sample_job_def)
  from remove_undoes_add[OF std_basic(1) busy_schedule_ok busy_insertable this add] add(1)
  show ?thesis by blast
qed

lemma add_job_first_fit_after_time_correct_facts:
  assumes "resource_selector fit" "schedule_ok s" "insertable j s" "has_walltime j"
    and "add_job_first_fit_after_time j date fit b s = Some (j', alloc, s')"
  shows "schedule_ok s'"
    and "has_been_inserted alloc \<Longrightarrow> begin_of (hd (profile s)) \<le> date \<Longrightarrow>
      date \<le> alloc_begin alloc \<and> int (card (used_machines alloc)) = nb_requested_resources j \<and>
      adds_job (jid j) (used_machines alloc) (alloc_begin alloc) (alloc_begin alloc + walltime j)
        (profile s) (profile s')"
    and "\<not> has_been_inserted alloc \<Longrightarrow>
      occupied (profile s') t i U \<longleftrightarrow> occupied (profile s) t i U"
proof -
  note r = resource_selector.add_after_time_cases[OF assms]
  show "schedule_ok s'" using r by blast
  show "date \<le> alloc_begin alloc \<and> int (card (used_machines alloc)) = nb_requested_resources j \<and>
      adds_job (jid j) (used_machines alloc) (alloc_begin alloc) (alloc_begin alloc + walltime j)
        (profile s) (profile s')"
    if "has_been_inserted alloc" "begin_of (hd (profile s)) \<le> date" using r that by blast
  show "occupied (profile s') t i U \<longleftrightarrow> occupied (profile s) t i U" if "\<not> has_been_inserted alloc"
    using r that by blast
qed

text \<open>
  An insertion asked for after a date starts at or after that date, and has the same effect as
  any insertion; the split of the slice that contains the date is invisible.
\<close>

theorem add_job_first_fit_after_time_correct:
  assumes "resource_selector fit" "schedule_ok s" "insertable j s" "has_walltime j"
    and "add_job_first_fit_after_time j date fit b s = Some (j', alloc, s')"
  shows "(schedule_ok s') \<and>
    (has_been_inserted alloc \<longrightarrow>
       begin_of (hd (profile s)) \<le> date \<longrightarrow>
       (date \<le> alloc_begin alloc \<and> int (card (used_machines alloc)) = nb_requested_resources j \<and>
      adds_job (jid j) (used_machines alloc) (alloc_begin alloc) (alloc_begin alloc + walltime j)
        (profile s) (profile s'))) \<and>
    (\<not> has_been_inserted alloc \<longrightarrow>
       (occupied (profile s') t i U \<longleftrightarrow> occupied (profile s) t i U))"
  by (intro conjI impI; use add_job_first_fit_after_time_correct_facts[OF assms] in blast)

lemma sample_after:
  obtains j' alloc s' where "add_job_first_fit_after_time sample_job 5 (basic_fit std_lib) False sample_schedule
    = Some (j', alloc, s')"
proof -
  have "0 < length (profile sample_schedule)" by simp
  then obtain s1 c f g where sp: "split_slice 0 5 sample_schedule = Some (s1, c, f, g)" "schedule_ok s1"
    "\<And>j. absent j (profile s1) \<longleftrightarrow> absent j (profile sample_schedule)"
    by (rule split_slice_ok[OF sample_schedule_ok, of 0 5]) blast
  have w: "has_walltime sample_job" by (simp add: sample_job_def)
  have ins: "insertable sample_job s1" by (rule insertable_absent_cong[OF sample_insertable w sp(3)])
  obtain r where "add_job_first_fit_after_time_slice sample_job g (basic_fit std_lib) False s1 = Some r"
    by (rule resource_selector.add_after_slice_cases[OF std_basic(1) sp(2) ins, of g False]) auto
  then have "add_job_first_fit_after_time sample_job 5 (basic_fit std_lib) False sample_schedule = Some r"
    using sp(1) by (simp add: add_job_first_fit_after_time_def Let_def less_trans[of 5 10 horizon])
  then show thesis using that by (metis prod_cases3)
qed

theorem add_job_first_fit_after_time_correct_witness:
  "\<exists>j' alloc s'. add_job_first_fit_after_time sample_job 5 (basic_fit std_lib) False sample_schedule
     = Some (j', alloc, s') \<and> schedule_ok s'"
proof -
  obtain j' alloc s' where run: "add_job_first_fit_after_time sample_job 5 (basic_fit std_lib) False sample_schedule
    = Some (j', alloc, s')" by (rule sample_after)
  have "has_walltime sample_job" by (simp add: sample_job_def)
  from add_job_first_fit_after_time_correct[OF std_basic(1) sample_schedule_ok sample_insertable this run]
  show ?thesis using run by blast
qed

text \<open>
  C8: advancing the clock inside the first slice keeps the invariant, forgets the past and
  nothing else.
\<close>

theorem update_first_slice_correct:
  assumes "schedule_ok s" "begin_of (hd (profile s)) \<le> now" "now \<le> end_of (hd (profile s))"
  shows "\<exists>s'. update_first_slice now s = Some s' \<and> schedule_ok s' \<and> begin_of (hd (profile s')) = now \<and>
    (\<forall>t i U. occupied (profile s') t i U \<longleftrightarrow> now \<le> t \<and> occupied (profile s) t i U) \<and>
    (\<forall>t m. free_at (profile s') t m \<longleftrightarrow> now \<le> t \<and> free_at (profile s) t m)"
  by (rule update_first_slice_ok[OF assms]) blast

theorem update_first_slice_correct_witness:
  "\<exists>s'. update_first_slice 1 busy_schedule = Some s' \<and> begin_of (hd (profile s')) = 1"
  using update_first_slice_correct[OF busy_schedule_ok, of 1] by (auto simp: busy_schedule_def)

text \<open>
  splitting a slice at a date keeps the invariant and the abstract view.  A split happens
  exactly for a date strictly inside the slice, and then the second slice starts there.
\<close>

theorem split_slice_correct:
  assumes "schedule_ok s" "i < length (profile s)"
  shows "\<exists>s' c f g. split_slice i date s = Some (s', c, f, g) \<and> schedule_ok s' \<and>
    (c \<longleftrightarrow> begin_of (profile s ! i) < date \<and> date < end_of (profile s ! i)) \<and>
    (if c then begin_of (profile s' ! g) = date else s' = s \<and> g = i) \<and>
    (\<forall>t j U. occupied (profile s') t j U \<longleftrightarrow> occupied (profile s) t j U) \<and>
    (\<forall>t m. free_at (profile s') t m \<longleftrightarrow> free_at (profile s) t m)"
proof (rule split_slice_ok[OF assms, of date], goal_cases)
  case (1 s' c f g)
  have "if c then begin_of (profile s' ! g) = date else s' = s \<and> g = i"
    using 1(5,6) by (cases c) simp_all
  then show ?case using 1(1,2,4,7,8) by blast
qed

theorem split_slice_correct_witness:
  "\<exists>s' f g. split_slice 0 1 busy_schedule = Some (s', True, f, g) \<and> begin_of (profile s' ! g) = 1"
  using split_slice_correct[OF busy_schedule_ok, of 0 1] by (auto simp: busy_schedule_def)

text \<open>
  C7: with a selector that accepts any request of at most the free size, inserting a job cannot
  fail while the last slice is empty and long enough and the job asks for no more machines than
  are in service.
\<close>

theorem add_job_first_fit_total:
  assumes "greedy_selector fit" "schedule_ok s" "insertable j s"
    and "allocated_jobs (last (profile s)) = []"
    and "nb_requested_resources j \<le> int (card (in_service s))"
    and "has_walltime j \<longrightarrow> walltime j \<le> length_of (last (profile s))"
  shows "\<exists>j' alloc s'. add_job_first_fit j fit b s = Some (j', alloc, s') \<and> has_been_inserted alloc"
  by (rule greedy_selector.add_job_succeeds[OF assms]) blast

theorem add_job_first_fit_total_witness:
  "\<exists>j' alloc s'. add_job_first_fit sample_job (basic_fit std_lib) True busy_schedule = Some (j', alloc, s') \<and>
     has_been_inserted alloc"
  by (rule add_job_first_fit_total[OF std_basic(2) busy_schedule_ok busy_insertable])
    (simp_all add: busy_schedule_def sample_job_def in_service_def horizon_def)

end
