(* ===== verification/Schedule_Ops.thy ===== *)
theory Schedule_Ops
  imports Schedule_Safety
begin

text \<open>
  The other operations of the schedule (\<^verbatim>\<open>schedule.cpp\<close>): which jobs run on or are affected by
  given machines, machines under repair, and reservations.
\<close>

subsection \<open>Jobs and machines of the slices\<close>

definition which_machines_are_allocated_in_time_slice :: "time_slice \<Rightarrow> machines \<Rightarrow> machines" where
  "which_machines_are_allocated_in_time_slice slice ms =
     fold (\<lambda>(k, U) acc. acc \<union> (U \<inter> ms)) (allocated_jobs slice) {}"

definition get_number_of_running_jobs :: "schedule \<Rightarrow> int" where
  "get_number_of_running_jobs s = int (length (allocated_jobs (hd (profile s))))"

definition get_number_of_running_machines :: "schedule \<Rightarrow> int" where
  "get_number_of_running_machines s = nb_machines s - nb_available_machines (hd (profile s))"

definition get_machines_running_reservations_on_slice :: "time_slice \<Rightarrow> machines" where
  "get_machines_running_reservations_on_slice slice =
     fold (\<lambda>(k, U) acc. if is_reservation k then acc \<union> U else acc) (allocated_jobs slice) {}"

definition get_machines_running_reservations :: "schedule \<Rightarrow> machines" where
  "get_machines_running_reservations s =
     get_machines_running_reservations_on_slice (hd (profile s))"

definition get_utilization :: "schedule \<Rightarrow> rat" where
  "get_utilization s = of_int (get_number_of_running_machines s) / of_int (nb_machines s)"

definition get_utilization_no_resv :: "schedule \<Rightarrow> rat" where
  "get_utilization_no_resv s =
     (if has_reservation (hd (profile s)) then
        of_int (get_number_of_running_machines s - int (card (get_machines_running_reservations s)))
          / of_int (nb_machines s)
      else - 1)"

text \<open>The jobs are listed in the order of the map of the first slice.\<close>

definition get_jobs_running_on_machines :: "machines \<Rightarrow> schedule \<Rightarrow> job_map" where
  "get_jobs_running_on_machines ms s =
     filter (\<lambda>(k, U). U \<inter> ms \<noteq> {} \<and> \<not> is_reservation k) (allocated_jobs (hd (profile s)))"

definition get_reservations_running_on_machines :: "machines \<Rightarrow> schedule \<Rightarrow> job_id list" where
  "get_reservations_running_on_machines ms s =
     map (\<lambda>(k, U). jid k)
       (filter (\<lambda>(k, U). U \<inter> ms \<noteq> {} \<and> is_reservation k) (allocated_jobs (hd (profile s))))"

text \<open>The result is a map from jobs (identifiers here) to the machines they last hold.\<close>

definition get_jobs_affected_on_machines ::
  "machines \<Rightarrow> bool \<Rightarrow> schedule \<Rightarrow> (job_id \<Rightarrow> machines option)" where
  "get_jobs_affected_on_machines ms reservations_too s =
     (let running = set (jm_ids (get_jobs_running_on_machines ms s)) in
      fold (\<lambda>slice acc.
        fold (\<lambda>(k, U) acc.
            if \<not> is_reservation k \<or> reservations_too then
              if U \<inter> ms \<noteq> {} \<and> jid k \<notin> running then acc(jid k \<mapsto> U) else acc
            else acc)
          (allocated_jobs slice) acc)
        (tl (profile s)) Map.empty)"

subsection \<open>Machines under repair\<close>

definition add_repair_machine :: "machines \<Rightarrow> schedule \<Rightarrow> machines \<times> schedule" where
  "add_repair_machine machine s =
     (let added = machine - repair_machines s;
          s1 = s\<lparr>repair_machines := repair_machines s \<union> machine\<rparr>
      in (added,
          if added \<noteq> {} then
            s1\<lparr>profile := map (\<lambda>slice. slice\<lparr>
               nb_available_machines := nb_available_machines slice - int (card added),
               available_machines := available_machines slice - added\<rparr>) (profile s)\<rparr>
          else s1))"

definition remove_repair_machines :: "machines \<Rightarrow> schedule \<Rightarrow> machines \<times> schedule" where
  "remove_repair_machines ms s =
     (let removed = repair_machines s \<inter> ms;
          s1 = s\<lparr>repair_machines := repair_machines s - ms\<rparr>
      in (removed,
          if removed \<noteq> {} then
            s1\<lparr>profile := map (\<lambda>slice.
               let removed_and_allocated = allocated_machines slice \<inter> removed in slice\<lparr>
               nb_available_machines := nb_available_machines slice
                 + (int (card removed) - int (card removed_and_allocated)),
               available_machines := available_machines slice \<union> (removed - removed_and_allocated)\<rparr>)
               (profile s)\<rparr>
          else s1))"

subsection \<open>Reservations\<close>

datatype reschedule_policy = RESCHEDULE_NONE | RESCHEDULE_AFFECTED | RESCHEDULE_ALL

datatype impact_policy =
    IMPACT_NONE
  | LEAST_KILLING_LARGEST_FIRST
  | LEAST_KILLING_SMALLEST_FIRST
  | LEAST_RESCHEDULING

definition convert_reschedule_policy :: "string \<Rightarrow> reschedule_policy" where
  "convert_reschedule_policy policy =
     (if policy = ''RESCHEDULE_AFFECTED'' then RESCHEDULE_AFFECTED
      else if policy = ''RESCHEDULE_ALL'' then RESCHEDULE_ALL
      else RESCHEDULE_NONE)"

definition convert_impact_policy :: "string \<Rightarrow> impact_policy" where
  "convert_impact_policy policy =
     (if policy = ''LEAST_KILLING_LARGEST_FIRST'' then LEAST_KILLING_LARGEST_FIRST
      else if policy = ''LEAST_KILLING_SMALLEST_FIRST'' then LEAST_KILLING_SMALLEST_FIRST
      else if policy = ''LEAST_RESCHEDULING'' then LEAST_RESCHEDULING
      else IMPACT_NONE)"

record reserved_time_slice =
  success :: bool
  jobs_affected :: "job list"
  jobs_needed_to_be_killed :: "job list"
  jobs_to_reschedule :: "job list"
  slice_begin :: nat
  slice_end :: nat
  reserved_alloc :: job_alloc

text \<open>
  The machines of a reservation that names none.  The order in which \<^verbatim>\<open>std::sort\<close> leaves jobs
  of equal size is not specified: the sorting function is a parameter.
\<close>

text \<open>The incremental loop over the running jobs that may be killed.\<close>

fun kill_until_enough :: "interval_lib \<Rightarrow> job_map \<Rightarrow> int \<Rightarrow> machines \<Rightarrow> machines \<Rightarrow> job list \<Rightarrow> machines" where
  "kill_until_enough lib held still_needed amdp all_machines [] = {}"
| "kill_until_enough lib held still_needed amdp all_machines (k # ks) =
     (let all' = (if \<not> is_reservation k
                  then all_machines \<union> (case jm_get (jid k) held of Some U \<Rightarrow> U | None \<Rightarrow> {})
                  else all_machines)
      in if still_needed \<le> int (card all') then left_of lib all' still_needed \<union> amdp
         else kill_until_enough lib held still_needed amdp all' ks)"

definition find_least_impactful_fit ::
  "interval_lib \<Rightarrow> ((job \<Rightarrow> job \<Rightarrow> bool) \<Rightarrow> job list \<Rightarrow> job list) \<Rightarrow> job \<Rightarrow> nat \<Rightarrow> nat \<Rightarrow> impact_policy
     \<Rightarrow> schedule \<Rightarrow> machines run" where
  "find_least_impactful_fit lib sort_jobs j begin_slice end_slice policy s = do {
     let P = profile s;
     amdp \<leftarrow> available_machines_during_period (begin_of (P ! begin_slice)) (end_of (P ! end_slice)) s;
     if nb_requested_resources j \<le> int (card amdp) then
       Some (left_of lib amdp (nb_requested_resources j))
     else do {
       let all_machines = {0..<nat (nb_machines s)} - amdp;
       let still_needed = nb_requested_resources j - int (card amdp);
       if policy = LEAST_KILLING_LARGEST_FIRST \<or> policy = LEAST_KILLING_SMALLEST_FIRST then do {
         let held = allocated_jobs (P ! begin_slice);
         let jobs_running = filter (\<lambda>k. slice_contains_job k (hd P)) (map fst held);
         let running_machines = \<Union> (set (map snd (filter (\<lambda>(k, U). slice_contains_job k (hd P)) held)));
         let reservation_machines =
           \<Union> (set (map get_machines_running_reservations_on_slice
             (take (Suc end_slice - begin_slice) (drop begin_slice P))));
         let all' = all_machines - running_machines - reservation_machines;
         if still_needed \<le> int (card all') then Some (left_of lib all' still_needed \<union> amdp)
         else do {
           let rule = (if policy = LEAST_KILLING_LARGEST_FIRST
             then (\<lambda>j1 j2. nb_requested_resources j1 > nb_requested_resources j2)
             else (\<lambda>j1 j2. nb_requested_resources j1 < nb_requested_resources j2));
           Some (kill_until_enough lib held still_needed amdp all' (sort_jobs rule jobs_running)) } }
       else Some {} } }"

text \<open>The jobs that hold a machine of the reservation, each listed once.\<close>

definition affected_jobs :: "machines \<Rightarrow> time_slice list \<Rightarrow> job list" where
  "affected_jobs used slices =
     fold (\<lambda>slice acc.
        fold (\<lambda>(k, U) acc.
            if U \<inter> used \<noteq> {} \<and> jid k \<notin> jid ` set acc then acc @ [k] else acc)
          (allocated_jobs slice) acc)
       slices []"

text \<open>
  \<open>None\<close>: a reservation runs on a machine of the reservation.  Otherwise the jobs to kill and the
  jobs to reschedule.
\<close>

fun sort_out_affected :: "time_slice \<Rightarrow> bool \<Rightarrow> job list \<Rightarrow> job list \<Rightarrow> job list \<Rightarrow> (job list \<times> job list) option" where
  "sort_out_affected first suspect [] killed resched = Some (killed, resched)"
| "sort_out_affected first suspect (k # ks) killed resched =
     (if slice_contains_job k first then
        if is_reservation k then
          if \<not> suspect \<or> walltime k \<noteq> end_of first then None
          else sort_out_affected first suspect ks killed resched
        else sort_out_affected first suspect ks (killed @ [k]) resched
      else sort_out_affected first suspect ks killed (resched @ [k]))"

definition reserve_time_slice ::
  "interval_lib \<Rightarrow> ((job \<Rightarrow> job \<Rightarrow> bool) \<Rightarrow> job list \<Rightarrow> job list) \<Rightarrow> job \<Rightarrow> schedule
     \<Rightarrow> (reserved_time_slice \<times> schedule) run" where
  "reserve_time_slice lib sort_jobs j s = do {
     assertion (profile s \<noteq> []);
     let first_slice_is_suspect = (begin_of (hd (profile s)) = end_of (hd (profile s)));
     let sb0 = find_from (\<lambda>ts. begin_of ts = start j \<or> start j < end_of ts) (profile s)
                 (if first_slice_is_suspect then 1 else 0);
     (s1, _, _, sb) \<leftarrow> split_slice sb0 (start j) s;
     let used0 = future_allocations j;
     let end_time = start j + walltime j;
     let se0 = find_from (\<lambda>ts. end_time \<le> end_of ts) (profile s1) sb;
     (s2, _, se, _) \<leftarrow> split_slice se0 end_time s1;
     used \<leftarrow> (if used0 = {} then find_least_impactful_fit lib sort_jobs j sb se LEAST_KILLING_LARGEST_FIRST s2
             else Some used0);
     let alloc = \<lparr>alloc_begin = start j, alloc_end = end_time, started_in_first_slice = (sb = 0),
        has_been_inserted = True, alloc_job = j, used_machines = used\<rparr>;
     let affected = affected_jobs used (take (Suc se - sb) (drop sb (profile s2)));
     (case sort_out_affected (hd (profile s2)) first_slice_is_suspect affected [] [] of
        None \<Rightarrow> Some (\<lparr>success = False, jobs_affected = [], jobs_needed_to_be_killed = [],
          jobs_to_reschedule = [], slice_begin = 0, slice_end = 0, reserved_alloc = alloc\<rparr>, s2)
      | Some (killed, resched) \<Rightarrow>
          Some (\<lparr>success = (used \<noteq> {}), jobs_affected = affected, jobs_needed_to_be_killed = killed,
            jobs_to_reschedule = resched, slice_begin = sb, slice_end = se, reserved_alloc = alloc\<rparr>, s2)) }"

text \<open>
  The iterators of the reservation are positions: the profile must not have changed since
  \<open>reserve_time_slice\<close>.
\<close>

definition reserve_slice :: "job \<Rightarrow> machines \<Rightarrow> time_slice \<Rightarrow> time_slice" where
  "reserve_slice j U slice = slice\<lparr>
     available_machines := available_machines slice - U,
     allocated_machines := allocated_machines slice \<union> U,
     nb_available_machines := nb_available_machines slice - nb_requested_resources j,
     allocated_jobs := jm_put j U (allocated_jobs slice),
     has_reservation := True,
     nb_reservations := nb_reservations slice + 1\<rparr>"

definition add_reservation :: "reserved_time_slice \<Rightarrow> schedule \<Rightarrow> schedule" where
  "add_reservation r s =
     (let j = alloc_job (reserved_alloc r);
          U = used_machines (reserved_alloc r);
          i = slice_begin r;
          k = Suc (slice_end r)
      in s\<lparr>sched_size := sched_size s + 1, nb_reservations_size := nb_reservations_size s + 1,
           profile := take i (profile s) @ map (reserve_slice j U) (take (k - i) (drop i (profile s)))
             @ drop k (profile s)\<rparr>)"

text \<open>
  The loop over the jobs of the second slice: \<open>False\<close> is the early return, which keeps what the
  loop has already written to the counter of reservations and to \<open>jobs_removed\<close>.
\<close>

fun ready_loop ::
  "time_slice \<Rightarrow> machines \<Rightarrow> job_map \<Rightarrow> int \<Rightarrow> job list \<Rightarrow> bool \<times> int \<times> job list" where
  "ready_loop first repair [] nb removed = (True, nb, removed)"
| "ready_loop first repair ((k, U) # m) nb removed =
     (if is_reservation k \<and> \<not> slice_contains_job k first then
        (if \<not> U \<subseteq> available_machines first \<union> repair then (False, nb, removed)
         else ready_loop first repair m (if nb > 0 then nb - 1 else nb) (removed @ [k]))
      else ready_loop first repair m nb removed)"

definition remove_reservations_if_ready ::
  "job list \<Rightarrow> schedule \<Rightarrow> (bool \<times> job list \<times> schedule) run" where
  "remove_reservations_if_ready jobs_removed s =
     (case profile s of
        [] \<Rightarrow> None
      | [first] \<Rightarrow> Some (False, jobs_removed, s)
      | first # slice # rest \<Rightarrow>
          if has_reservation slice \<and> \<bar>begin_of first - begin_of slice\<bar> \<le> epsilon then
            let (ready, nb, removed) =
                  ready_loop first (repair_machines s) (allocated_jobs slice)
                    (nb_reservations slice) jobs_removed;
                s1 = s\<lparr>profile := first # slice\<lparr>nb_reservations := nb\<rparr> # rest\<rparr>
            in if ready then do {
                 s2 \<leftarrow> fold_run (\<lambda>k st. map_option snd (remove_job_if_exists k st)) removed s1;
                 Some (True, removed, s2) }
               else Some (False, removed, s1)
          else Some (False, jobs_removed, s))"

text \<open>
  Inserting a reservation that starts now: the machines under repair count as free for the anchor
  and for its first slice, and the machines are those the reservation names.
\<close>

fun extend_reservation ::
  "job \<Rightarrow> machines \<Rightarrow> time \<Rightarrow> time_slice list \<Rightarrow> nat \<Rightarrow> (nat \<times> machines) option run" where
  "extend_reservation j availableMachines totalTime [] k = Some None"
| "extend_reservation j availableMachines totalTime (pit2 # rest) k =
     (if nb_available_machines pit2 < nb_requested_resources j then Some None
      else
        let availableMachines' = availableMachines \<inter> available_machines pit2;
            totalTime' = totalTime + length_of pit2
        in
          if int (card availableMachines') < nb_requested_resources j then Some None
          else if walltime j \<le> totalTime' then
            (case fit_reservation j availableMachines' of
               None \<Rightarrow> None
             | Some (Some U) \<Rightarrow> Some (Some (k, U))
             | Some None \<Rightarrow> extend_reservation j availableMachines' totalTime' rest (Suc k))
          else extend_reservation j availableMachines' totalTime' rest (Suc k))"

fun scan_reservation ::
  "machines \<Rightarrow> time \<Rightarrow> job \<Rightarrow> time_slice list \<Rightarrow> nat \<Rightarrow> (job \<times> (nat \<times> nat \<times> machines) option) run" where
  "scan_reservation repair hz j [] i = Some (j, None)"
| "scan_reservation repair hz j (pit # rest) i =
     (let available = available_machines pit \<union> repair in
      if nb_requested_resources j \<le> int (card available) then
        let j' = effective_walltime hz pit j in
          if walltime j' \<le> length_of pit then
            (case fit_reservation j' available of
               None \<Rightarrow> None
             | Some (Some U) \<Rightarrow> Some (j', Some (i, i, U))
             | Some None \<Rightarrow> scan_reservation repair hz j' rest (Suc i))
          else
            (case extend_reservation j' available (length_of pit) rest (Suc i) of
               None \<Rightarrow> None
             | Some (Some (k, U)) \<Rightarrow> Some (j', Some (i, k, U))
             | Some None \<Rightarrow> scan_reservation repair hz j' rest (Suc i))
      else scan_reservation repair hz j rest (Suc i))"

definition bump_reservations :: "time_slice \<Rightarrow> time_slice" where
  "bump_reservations slice = slice\<lparr>nb_reservations := nb_reservations slice + 1,
     has_reservation := (if nb_reservations slice + 1 = 1 then True else has_reservation slice)\<rparr>"

definition occupy_but_repair :: "job \<Rightarrow> machines \<Rightarrow> time_slice \<Rightarrow> time_slice" where
  "occupy_but_repair j U slice = slice\<lparr>
     available_machines := available_machines slice - U,
     allocated_machines := allocated_machines slice \<union> U,
     nb_available_machines := nb_available_machines slice - int (card (available_machines slice \<inter> U)),
     allocated_jobs := jm_put j U (allocated_jobs slice)\<rparr>"

text \<open>
  In the branch of the code for an anchor slice long enough, the first part of the split slice is
  counted as holding a reservation; in the other branch the last slice is not.
\<close>

definition place_reservation :: "job \<Rightarrow> nat \<Rightarrow> nat \<Rightarrow> machines \<Rightarrow> schedule \<Rightarrow> schedule run" where
  "place_reservation j i k U s = do {
     let P = profile s;
     let split_date = begin_of (P ! i) + walltime j;
     let s1 = s\<lparr>profile := take i P
        @ map (\<lambda>slice. bump_reservations (occupy_but_repair j U slice)) (take (k - i) (drop i P))
        @ drop k P\<rparr>;
     (s2, _, first_slice_after_split, _) \<leftarrow> split_slice k split_date s1;
     let last_slice = profile s2 ! first_slice_after_split;
     Some (s2\<lparr>profile := (profile s2)[first_slice_after_split :=
        (if i = k then bump_reservations (occupy_slice j U last_slice)
         else occupy_but_repair j U last_slice)]\<rparr>) }"

definition add_current_reservation_after_time_slice ::
  "job \<Rightarrow> bool \<Rightarrow> schedule \<Rightarrow> (job \<times> job_alloc \<times> schedule) run" where
  "add_current_reservation_after_time_slice j assert_insertion_successful s = do {
     let s1 = s\<lparr>sched_size := sched_size s + 1\<rparr>;
     assertion (is_reservation j);
     let P = profile s;
     (j', found) \<leftarrow> scan_reservation (repair_machines s) (end_of (last P)) j P 0;
     (case found of
        Some (i, k, U) \<Rightarrow> do {
          let b = begin_of (P ! i);
          let alloc = \<lparr>alloc_begin = b, alloc_end = b + walltime j', started_in_first_slice = (i = 0),
             has_been_inserted = True, alloc_job = j', used_machines = U\<rparr>;
          s2 \<leftarrow> place_reservation j' i k U (set_allocation alloc s1);
          Some (j', alloc, s2) }
      | None \<Rightarrow>
          if assert_insertion_successful then None
          else Some (j', failed_alloc j', s1)) }"

definition add_current_reservation ::
  "job \<Rightarrow> bool \<Rightarrow> schedule \<Rightarrow> (job \<times> job_alloc \<times> schedule) run" where
  "add_current_reservation j assert_insertion_successful s = do {
     present \<leftarrow> contains_job_sched j s;
     assertion (\<not> present);
     add_current_reservation_after_time_slice j assert_insertion_successful s }"

subsection \<open>Lemmas on the queries\<close>

lemma fold_union_filter:
  "fold (\<lambda>(k, U) acc. if Q k then acc \<union> U else acc) m A = A \<union> \<Union> (snd ` {p \<in> set m. Q (fst p)})"
proof (induction m arbitrary: A)
  case (Cons p m)
  then show ?case by (cases p) (auto split: if_splits)
qed simp

lemma fold_inter_union:
  "fold (\<lambda>(k, U) acc. acc \<union> (U \<inter> ms)) m A = A \<union> (\<Union> (snd ` set m) \<inter> ms)"
proof (induction m arbitrary: A)
  case (Cons p m)
  then show ?case by (cases p) auto
qed simp

lemma running_queries_correct_facts:
  assumes "schedule_ok s" "repair_machines s = {}" "0 < nb_machines s"
  defines "first \<equiv> hd (profile s)"
  shows "which_machines_are_allocated_in_time_slice first ms = allocated_machines first \<inter> ms"
    and "get_number_of_running_machines s = int (card (allocated_machines first))"
    and "jid k \<in> set (jm_ids (get_jobs_running_on_machines ms s)) \<Longrightarrow>
      \<exists>U. jm_get (jid k) (allocated_jobs first) = Some U \<and> U \<inter> ms \<noteq> {}"
    and "(k, U) \<in> set (allocated_jobs first) \<Longrightarrow> \<not> is_reservation k \<Longrightarrow> U \<inter> ms \<noteq> {} \<Longrightarrow>
      (k, U) \<in> set (get_jobs_running_on_machines ms s)"
proof -
  have f: "first \<in> set (profile s)" using assms(1) by (simp add: schedule_ok_def first_def)
  then have sl: "slice_ok {0..<nat (nb_machines s)} first"
    using assms(1,2) profile_okD(2)[OF _ f] by (simp add: schedule_ok_def in_service_def)
  note m = sl[unfolded slice_ok_def]
  show "which_machines_are_allocated_in_time_slice first ms = allocated_machines first \<inter> ms"
    using m by (simp add: which_machines_are_allocated_in_time_slice_def fold_inter_union jm_union_def)
  have sub: "allocated_machines first \<subseteq> {0..<nat (nb_machines s)}" using m by simp
  have "int (card ({0..<nat (nb_machines s)} - allocated_machines first)) =
      int (card {0..<nat (nb_machines s)}) - int (card (allocated_machines first))"
    by (rule card_Diff_subset_int) (use sub in auto)
  then show "get_number_of_running_machines s = int (card (allocated_machines first))"
    using m assms(3) by (simp add: get_number_of_running_machines_def first_def)
  show "\<exists>U. jm_get (jid k) (allocated_jobs first) = Some U \<and> U \<inter> ms \<noteq> {}"
    if k: "jid k \<in> set (jm_ids (get_jobs_running_on_machines ms s))"
  proof -
    obtain p where p: "p \<in> set (get_jobs_running_on_machines ms s)" "jid (fst p) = jid k"
      using k by (auto simp: jm_ids_def case_prod_beta)
    obtain k' U where kU: "(k', U) \<in> set (allocated_jobs first)" "U \<inter> ms \<noteq> {}" "jid k' = jid k"
    proof (cases p)
      case (Pair k' U)
      then show ?thesis using p that[of k' U] by (simp add: get_jobs_running_on_machines_def first_def)
    qed
    have "jm_get (jid k') (allocated_jobs first) = Some U" by (rule jm_mem_get) (use m kU in auto)
    then show ?thesis using kU by auto
  qed
  show "(k, U) \<in> set (get_jobs_running_on_machines ms s)"
    if "(k, U) \<in> set (allocated_jobs first)" "\<not> is_reservation k" "U \<inter> ms \<noteq> {}"
    using that by (simp add: get_jobs_running_on_machines_def first_def)
qed

text \<open>
  The first slice of a correct schedule holds exactly what its bookkeeping says: the machines
  allocated among the given ones, the number of running machines, and the running jobs that a
  failure of the given machines would hit.
\<close>

theorem running_queries_correct:
  assumes "schedule_ok s" "repair_machines s = {}" "0 < nb_machines s"
  shows "(which_machines_are_allocated_in_time_slice (hd (profile s)) ms = allocated_machines (hd (profile s)) \<inter> ms) \<and>
    (get_number_of_running_machines s = int (card (allocated_machines (hd (profile s))))) \<and>
    (jid k \<in> set (jm_ids (get_jobs_running_on_machines ms s)) \<longrightarrow>
       (\<exists>U. jm_get (jid k) (allocated_jobs (hd (profile s))) = Some U \<and> U \<inter> ms \<noteq> {})) \<and>
    ((k, U) \<in> set (allocated_jobs (hd (profile s))) \<longrightarrow>
       \<not> is_reservation k \<longrightarrow>
       U \<inter> ms \<noteq> {} \<longrightarrow>
       (k, U) \<in> set (get_jobs_running_on_machines ms s))"
proof -
  note facts = running_queries_correct_facts[OF assms]
  show ?thesis
    by (intro conjI impI) (rule facts(1) | rule facts(2) | (rule facts(3), assumption)
      | (rule facts(4), assumption+))+
qed

theorem running_queries_correct_witness:
  "get_number_of_running_machines busy_schedule = int (card {0::nat, 1, 2})"
  using running_queries_correct[OF busy_schedule_ok] by (simp add: busy_schedule_def)

lemma repair_round_trip_facts:
  assumes ok: "schedule_ok s" and ms: "ms \<subseteq> in_service s"
    and idle: "\<forall>ts \<in> set (profile s). allocated_machines ts \<inter> ms = {}"
    and add: "add_repair_machine ms s = (added, s1)" and rem: "remove_repair_machines ms s1 = (removed, s2)"
  shows "added = ms" "schedule_ok s1" "in_service s1 = in_service s - ms"
    and "occupied (profile s1) t i U \<longleftrightarrow> occupied (profile s) t i U"
    and "free_at (profile s1) t m \<longleftrightarrow> free_at (profile s) t m \<and> m \<notin> ms"
    and "removed = ms" "profile s2 = profile s" "repair_machines s2 = repair_machines s"
proof -
  let ?M = "in_service s" and ?P = "profile s"
  define f where "f = (\<lambda>ts :: time_slice. ts\<lparr>nb_available_machines := nb_available_machines ts - int (card ms),
    available_machines := available_machines ts - ms\<rparr>)"
  have R: "ms \<inter> repair_machines s = {}" using ms by (auto simp: in_service_def)
  then have d: "ms - repair_machines s = ms" by blast
  then show a: "added = ms" using add by (simp add: add_repair_machine_def Let_def)
  have fe: "f ts = ts" if "ms = {}" for ts using that by (simp add: f_def)
  have s1: "s1 = s\<lparr>repair_machines := repair_machines s \<union> ms, profile := map f ?P\<rparr>"
    using add d fe by (auto simp: add_repair_machine_def Let_def f_def)
  have ins: "in_service s1 = ?M - ms" by (auto simp: s1 in_service_def)
  then show "in_service s1 = ?M - ms" .
  have pok: "profile_ok ?M ?P" "chain (begin_of (hd ?P)) ?P horizon" "?P \<noteq> []"
    using ok by (simp_all add: schedule_ok_def)
  note D = profile_okD[OF pok(1)]
  have av: "ms \<subseteq> available_machines ts" "available_machines ts = ?M - allocated_machines ts"
    "nb_available_machines ts = int (card (available_machines ts))" "finite (available_machines ts)"
    if "ts \<in> set ?P" for ts
    using D(1) D(2)[OF that] idle that ms by (auto simp: slice_ok_def)
  have fs: "begin_of (f ts) = begin_of ts" "end_of (f ts) = end_of ts" "length_of (f ts) = length_of ts"
    "allocated_jobs (f ts) = allocated_jobs ts" "slice_has i (f ts) = slice_has i ts"
    "available_machines (f ts) = available_machines ts - ms" for ts i
    by (simp_all add: f_def slice_has_def)
  have "slice_ok (?M - ms) (f ts)" if ts: "ts \<in> set ?P" for ts
  proof -
    have "int (card (available_machines ts - ms)) = int (card (available_machines ts)) - int (card ms)"
      by (rule card_Diff_subset_int[OF av(4,1)[OF ts]])
    moreover have "jm_union (allocated_jobs ts) \<subseteq> ?M - ms"
      using D(2)[OF ts] idle ts by (auto simp: slice_ok_def)
    ultimately show ?thesis using D(2)[OF ts] by (auto simp: slice_ok_def f_def)
  qed
  then have "profile_ok (?M - ms) (map f ?P)"
    using pok(1) by (auto simp: profile_ok_def coherent_def fs comp_def)
  moreover have "chain b (map f Q) e = chain b Q e" for b Q e
    by (induction Q arbitrary: b) (simp_all add: fs)
  ultimately show "schedule_ok s1"
    using pok(2,3) ins by (simp add: schedule_ok_def s1 hd_map fs)
  show "occupied (profile s1) t i U \<longleftrightarrow> occupied ?P t i U" by (simp add: occupied_def s1 fs)
  show "free_at (profile s1) t m \<longleftrightarrow> free_at ?P t m \<and> m \<notin> ms" by (auto simp: free_at_def s1 fs)
  have r: "(repair_machines s \<union> ms) \<inter> ms = ms" "repair_machines s \<union> ms - ms = repair_machines s"
    using R by blast+
  show "removed = ms" using rem r(1) by (simp add: remove_repair_machines_def Let_def s1)
  have "repair_machines s2 = repair_machines s1 - ms"
    using arg_cong[OF rem, of "\<lambda>p. repair_machines (snd p)"]
    by (simp add: remove_repair_machines_def Let_def split: if_splits)
  then show "repair_machines s2 = repair_machines s" using r(2) by (simp add: s1)
  define g where "g = (\<lambda>ts :: time_slice. let ra = allocated_machines ts \<inter> ms in ts\<lparr>
    nb_available_machines := nb_available_machines ts + (int (card ms) - int (card ra)),
    available_machines := available_machines ts \<union> (ms - ra)\<rparr>)"
  have gf: "g (f ts) = ts" if "ts \<in> set ?P" for ts
  proof -
    have "allocated_machines ts \<inter> ms = {}" using idle that by simp
    moreover have "available_machines ts - ms \<union> ms = available_machines ts" using av(1)[OF that] by blast
    ultimately show ?thesis by (simp add: g_def f_def Let_def)
  qed
  have "profile s2 = (if ms \<noteq> {} then map g (map f ?P) else map f ?P)"
    using rem r(1) by (cases "ms = {}") (auto simp: remove_repair_machines_def Let_def s1 g_def)
  also have "\<dots> = ?P" using gf fe by (auto simp: map_idI)
  finally show "profile s2 = ?P" .
qed

text \<open>
  Machines of the platform that no slice uses can be put under repair and back: the schedule
  stays correct, without these machines while they are under repair, no job is moved, and
  the repair undone gives the profile back.
\<close>

theorem repair_round_trip:
  assumes "schedule_ok s" and "ms \<subseteq> in_service s"
    and "\<forall>ts \<in> set (profile s). allocated_machines ts \<inter> ms = {}"
    and "add_repair_machine ms s = (added, s1)" and "remove_repair_machines ms s1 = (removed, s2)"
  shows "(added = ms) \<and>
    (schedule_ok s1) \<and>
    (in_service s1 = in_service s - ms) \<and>
    (occupied (profile s1) t i U \<longleftrightarrow> occupied (profile s) t i U) \<and>
    (free_at (profile s1) t m \<longleftrightarrow> free_at (profile s) t m \<and> m \<notin> ms) \<and>
    (removed = ms) \<and>
    (profile s2 = profile s) \<and>
    (repair_machines s2 = repair_machines s)"
  by (intro conjI impI; use repair_round_trip_facts[OF assms] in blast)

theorem repair_round_trip_witness:
  "\<exists>s1 s2. add_repair_machine {3} busy_schedule = ({3}, s1) \<and> schedule_ok s1 \<and>
     remove_repair_machines {3} s1 = ({3}, s2) \<and> profile s2 = profile busy_schedule"
proof -
  obtain added s1 where add: "add_repair_machine {3} busy_schedule = (added, s1)" by (cases "add_repair_machine {3} busy_schedule")
  obtain removed s2 where rem: "remove_repair_machines {3} s1 = (removed, s2)" by (cases "remove_repair_machines {3} s1")
  have h: "{3} \<subseteq> in_service busy_schedule" "\<forall>ts \<in> set (profile busy_schedule). allocated_machines ts \<inter> {3} = {}"
    by (simp_all add: busy_schedule_def in_service_def)
  show ?thesis using repair_round_trip[OF busy_schedule_ok h add rem] add rem by blast
qed

definition back_to_back :: schedule where
  "back_to_back = sample_schedule\<lparr>profile := [
     \<lparr>begin_of = 0, end_of = 2, length_of = 2, has_reservation = False, nb_reservations = 0,
      available_machines = {2, 3}, allocated_machines = {0, 1}, nb_available_machines = 2,
      allocated_jobs = [(sample_job\<lparr>jid := ''a''\<rparr>, {0, 1})]\<rparr>,
     \<lparr>begin_of = 2, end_of = horizon, length_of = horizon - 2, has_reservation = False,
      nb_reservations = 0, available_machines = {2, 3}, allocated_machines = {0, 1},
      nb_available_machines = 2, allocated_jobs = [(sample_job\<lparr>jid := ''b''\<rparr>, {0, 1})]\<rparr>]\<rparr>"

text \<open>
  a machine that is put under repair while a job holds it can be lost.  Removing the job does
  not take the machine out of the slice's allocated machines, so that when the repair ends the
  slice neither holds a job nor offers the machine, and its counter of free machines is wrong.
\<close>

theorem repair_of_busy_machine_loses_it:
  "schedule_ok back_to_back \<and>
   (\<exists>s1 s2 s3. add_repair_machine {0} back_to_back = ({0}, s1) \<and>
      remove_job (sample_job\<lparr>jid := ''a''\<rparr>) s1 = Some s2 \<and>
      remove_repair_machines {0} s2 = ({0}, s3) \<and> repair_machines s3 = {} \<and>
      allocated_jobs (hd (profile s3)) = [] \<and> available_machines (hd (profile s3)) = {1, 2, 3} \<and>
      nb_available_machines (hd (profile s3)) = 2)"
proof -
  have f: "{0..<4} - {0, Suc 0} = {2::nat, 3}" by auto
  have ok: "schedule_ok back_to_back"
    by (auto simp: schedule_ok_def profile_ok_def back_to_back_def slice_ok_def jm_disjoint_def
        jm_union_def in_service_def coherent_def slice_has_def good_id_def sample_job_def horizon_def f
        split: if_splits)
  define s1 where "s1 = snd (add_repair_machine {0} back_to_back)"
  have s1: "add_repair_machine {0} back_to_back = ({0}, s1)"
    by (simp add: s1_def add_repair_machine_def back_to_back_def Let_def)
  define s2 where "s2 = the (remove_job (sample_job\<lparr>jid := ''a''\<rparr>) s1)"
  have i: "insert 2 (insert 3 {Suc 0}) = {Suc 0, 2, 3::nat}" "{0, Suc 0} - {Suc 0} = {0}" by auto
  have run: "remove_job (sample_job\<lparr>jid := ''a''\<rparr>) s1 \<noteq> None \<and>
    allocated_jobs (hd (profile s2)) = [] \<and> available_machines (hd (profile s2)) = {1, 2, 3} \<and>
    allocated_machines (hd (profile s2)) = {0} \<and>
    nb_available_machines (hd (profile s2)) = 2 \<and> repair_machines s2 = {0} \<and> profile s2 \<noteq> []"
    unfolding s2_def s1_def
    by (simp add: add_repair_machine_def back_to_back_def Let_def remove_job_def
        remove_job_first_occurence_def find_first_occurence_of_job_def remove_job_internal_def
        slice_contains_job_def release_slice_def try_merge_def same_jobs_def jm_erase_def
        is_reservation_def sample_job_def horizon_def i)
  define s3 where "s3 = snd (remove_repair_machines {0} s2)"
  have s3: "remove_repair_machines {0} s2 = ({0}, s3)" "repair_machines s3 = {}"
    "allocated_jobs (hd (profile s3)) = []" "available_machines (hd (profile s3)) = {1, 2, 3}"
    "nb_available_machines (hd (profile s3)) = 2"
    using run by (simp_all add: s3_def remove_repair_machines_def Let_def hd_map)
  moreover have "remove_job (sample_job\<lparr>jid := ''a''\<rparr>) s1 = Some s2"
    using run by (simp add: s2_def)
  ultimately show ?thesis using ok s1 by blast
qed

subsection \<open>Reserving a period\<close>

definition hit_ids :: "machines \<Rightarrow> job_map \<Rightarrow> job_id set" where
  "hit_ids used m = (jid \<circ> fst) ` {p \<in> set m. snd p \<inter> used \<noteq> {}}"

lemma hit_ids_simps [simp]:
  "hit_ids used [] = {}"
  "hit_ids used ((k, U) # m) = (if U \<inter> used \<noteq> {} then insert (jid k) (hit_ids used m) else hit_ids used m)"
proof -
  have "{p \<in> set ((k, U) # m). snd p \<inter> used \<noteq> {}} =
      (if U \<inter> used \<noteq> {} then insert (k, U) {p \<in> set m. snd p \<inter> used \<noteq> {}} else {p \<in> set m. snd p \<inter> used \<noteq> {}})"
    by auto
  then show "hit_ids used ((k, U) # m) = (if U \<inter> used \<noteq> {} then insert (jid k) (hit_ids used m) else hit_ids used m)"
    unfolding hit_ids_def by simp
qed (simp add: hit_ids_def)

lemma affected_inner_ids:
  "jid ` set (fold (\<lambda>(k, U) acc.
      if U \<inter> used \<noteq> {} \<and> jid k \<notin> jid ` set acc then acc @ [k] else acc) m acc)
    = jid ` set acc \<union> hit_ids used m"
proof (induction m arbitrary: acc)
  case (Cons p m)
  obtain k U where p: "p = (k, U)" by (cases p)
  show ?case unfolding p fold_Cons comp_def prod.case Cons.IH by (simp add: insert_absorb)
qed simp

text \<open>The affected jobs are the jobs of the slices that hold one of the machines.\<close>

lemma affected_jobs_ids:
  "jid ` set (affected_jobs used slices) = (\<Union>ts \<in> set slices. hit_ids used (allocated_jobs ts))"
proof -
  have "jid ` set (fold (\<lambda>slice acc. fold (\<lambda>(k, U) acc.
            if U \<inter> used \<noteq> {} \<and> jid k \<notin> jid ` set acc then acc @ [k] else acc)
          (allocated_jobs slice) acc) slices acc) =
     jid ` set acc \<union> (\<Union>ts \<in> set slices. hit_ids used (allocated_jobs ts))" for acc
  proof (induction slices arbitrary: acc)
    case (Cons ts slices)
    show ?case unfolding fold_Cons comp_def Cons.IH affected_inner_ids by (simp add: Un_assoc)
  qed simp
  from this[of "[]"] show ?thesis by (simp add: affected_jobs_def)
qed

text \<open>Marking a slice as reserved is occupying it, as far as its content goes.\<close>

lemma reserve_block:
  assumes ok: "profile_ok M (A @ map (occupy_slice j U) B @ C)"
  shows "profile_ok M (A @ map (reserve_slice j U) B @ C)"
    and "occupied (A @ map (reserve_slice j U) B @ C) t i V \<longleftrightarrow> occupied (A @ map (occupy_slice j U) B @ C) t i V"
    and "free_at (A @ map (reserve_slice j U) B @ C) t m \<longleftrightarrow> free_at (A @ map (occupy_slice j U) B @ C) t m"
    and "chain b (A @ map (reserve_slice j U) B @ C) e \<longleftrightarrow> chain b (A @ map (occupy_slice j U) B @ C) e"
proof -
  have sc: "same_content (reserve_slice j U ts) (occupy_slice j U ts)"
    "begin_of (reserve_slice j U ts) = begin_of ts" "end_of (reserve_slice j U ts) = end_of ts"
    "length_of (reserve_slice j U ts) = length_of ts"
    "allocated_jobs (reserve_slice j U ts) = jm_put j U (allocated_jobs ts)"
    "available_machines (reserve_slice j U ts) = available_machines ts - U" for ts
    by (simp_all add: same_content_def reserve_slice_def occupy_slice_def)
  have self: "same_content ts ts" for ts by (simp add: same_content_def)
  have len: "\<forall>ts \<in> set (A @ map (occupy_slice j U) B @ C). length_of ts = end_of ts - begin_of ts"
    using profile_okD(2)[OF ok] unfolding slice_ok_def by blast
  have "slices_ok M (set (A @ map (reserve_slice j U) B @ C))"
  proof (rule slices_ok_same_content)
    show "slices_ok M (set (A @ map (occupy_slice j U) B @ C))" using ok by (simp add: profile_ok_iff)
    show "\<forall>ts \<in> set (A @ map (reserve_slice j U) B @ C). length_of ts = end_of ts - begin_of ts \<and>
        (\<exists>ts0 \<in> set (A @ map (occupy_slice j U) B @ C). same_content ts ts0)"
    proof
      fix ts
      assume "ts \<in> set (A @ map (reserve_slice j U) B @ C)"
      then consider "ts \<in> set A \<union> set C" | x where "x \<in> set B" "ts = reserve_slice j U x" by auto
      then show "length_of ts = end_of ts - begin_of ts \<and>
        (\<exists>ts0 \<in> set (A @ map (occupy_slice j U) B @ C). same_content ts ts0)"
      proof cases
        case 1
        then have "ts \<in> set (A @ map (occupy_slice j U) B @ C)" by auto
        then show ?thesis using bspec[OF len] self[of ts] by blast
      next
        case 2
        then have "occupy_slice j U x \<in> set (A @ map (occupy_slice j U) B @ C)" by simp
        moreover from bspec[OF len this] have "length_of x = end_of x - begin_of x" by simp
        ultimately show ?thesis unfolding 2(2) sc(2-4) using sc(1)[of x] by blast
      qed
    qed
  qed
  moreover have "map (slice_has i) (A @ map (reserve_slice j U) B @ C) =
      map (slice_has i) (A @ map (occupy_slice j U) B @ C)" for i
    using slice_has_same_content[OF sc(1)] by simp
  ultimately show "profile_ok M (A @ map (reserve_slice j U) B @ C)"
    using ok unfolding profile_ok_iff by metis
  have "chain b (map (reserve_slice j U) B) e = chain b (map (occupy_slice j U) B) e" for b e
    by (induction B arbitrary: b) (simp_all add: sc)
  then show "chain b (A @ map (reserve_slice j U) B @ C) e \<longleftrightarrow> chain b (A @ map (occupy_slice j U) B @ C) e"
    by (simp only: chain_append)
  have "occupied (map (reserve_slice j U) B) t i V \<longleftrightarrow> occupied (map (occupy_slice j U) B) t i V"
    by (simp add: occupied_def sc)
  then show "occupied (A @ map (reserve_slice j U) B @ C) t i V \<longleftrightarrow> occupied (A @ map (occupy_slice j U) B @ C) t i V"
    by simp
  have "free_at (map (reserve_slice j U) B) t m \<longleftrightarrow> free_at (map (occupy_slice j U) B) t m"
    by (simp add: free_at_def sc)
  then show "free_at (A @ map (reserve_slice j U) B @ C) t m \<longleftrightarrow> free_at (A @ map (occupy_slice j U) B @ C) t m"
    by simp
qed

lemma consecutive:
  assumes "schedule_ok s" "Suc n < length (profile s)"
  shows "begin_of (profile s ! Suc n) = end_of (profile s ! n)"
  using schedule_ok_slices(4)[OF assms(1), of n] assms(2)
  by (simp add: Cons_nth_drop_Suc[symmetric])

lemma find_from_spec:
  assumes "find_from Q P i < length P"
  shows "i \<le> find_from Q P i" "Q (P ! find_from Q P i)"
    "\<And>n. i \<le> n \<Longrightarrow> n < find_from Q P i \<Longrightarrow> \<not> Q (P ! n)"
proof -
  let ?k = "find_if Q (drop i P)"
  have k: "?k < length (drop i P)" using assms by simp
  note sp = find_if_spec[OF k]
  show "i \<le> find_from Q P i" by simp
  show "Q (P ! find_from Q P i)" using sp k by simp
  show "\<not> Q (P ! n)" if "i \<le> n" "n < find_from Q P i" for n
  proof -
    have "n - i < find_if Q (drop i P)" using that by auto
    then have "\<not> Q (drop i P ! (n - i))" using sp by blast
    then show ?thesis using that(1) k by simp
  qed
qed

text \<open>
  Splitting leaves no empty slice behind: from position \<open>n\<close> on the slices stay proper.
\<close>

definition proper :: "time_slice list \<Rightarrow> bool" where
  "proper P \<longleftrightarrow> (\<forall>ts \<in> set P. begin_of ts < end_of ts)"

lemma proper_drop: "proper (drop n P) \<Longrightarrow> n \<le> k \<Longrightarrow> proper (drop k P)"
  using set_drop_subset_set_drop[of n k P] by (auto simp: proper_def)

lemma proper_take: "proper P \<Longrightarrow> proper (take k P)"
  by (auto simp: proper_def dest: in_set_takeD)

lemma split_slice_proper:
  assumes "split_slice i date s = Some (s', c, f, g)" "proper (drop n (profile s))" "n \<le> i"
  shows "proper (drop n (profile s'))" "i \<le> g"
proof -
  have i: "i < length (profile s)" using assms(1) by (auto simp: split_slice_def run_simps)
  show "i \<le> g" using assms(1) by (auto simp: split_slice_def run_simps Let_def split: if_splits)
  show "proper (drop n (profile s'))"
  proof (cases "begin_of (profile s ! i) < date \<and> date < end_of (profile s ! i)")
    case False
    then show ?thesis using assms(1,2) by (auto simp: split_slice_def run_simps Let_def)
  next
    case True
    let ?ts = "profile s ! i"
    have p: "profile s' = take i (profile s) @ [?ts\<lparr>end_of := date, length_of := date - begin_of ?ts\<rparr>,
        ?ts\<lparr>begin_of := date, length_of := end_of ?ts - date\<rparr>] @ drop (Suc i) (profile s)"
      using assms(1) True by (auto simp: split_slice_def run_simps Let_def)
    have "proper (drop n (take i (profile s)))"
      using proper_take[OF assms(2), of "i - n"] by (simp add: drop_take)
    moreover have "proper (drop (Suc i) (profile s))"
      by (rule proper_drop[OF assms(2)]) (use assms(3) in simp)
    ultimately show ?thesis using True i assms(3) unfolding p by (auto simp: proper_def)
  qed
qed

text \<open>The affected jobs are split into those to kill and those to reschedule.\<close>

lemma sort_out_affected_filters:
  "sort_out_affected first suspect ks killed resched = Some (k, r) \<Longrightarrow>
     k = killed @ filter (\<lambda>j. slice_contains_job j first \<and> \<not> is_reservation j) ks \<and>
     r = resched @ filter (\<lambda>j. \<not> slice_contains_job j first) ks"
  by (induction first suspect ks killed resched rule: sort_out_affected.induct) (auto split: if_splits)

text \<open>The slices chosen by \<^verbatim>\<open>reserve_time_slice\<close> cover exactly the period of the reservation.\<close>

lemma reserve_time_slice_period:
  assumes ok: "schedule_ok s" and st: "begin_of (hd (profile s)) \<le> start j" "0 < walltime j"
    and run: "reserve_time_slice lib sorter j s = Some (r, s1)" and suc: "success r"
  obtains A B C where "schedule_ok s1" "profile s1 = A @ B @ C" "B \<noteq> []" "length A = slice_begin r"
    "length (A @ B) = Suc (slice_end r)" "chain (start j) B (start j + walltime j)"
    "jobs_affected r = affected_jobs (used_machines (reserved_alloc r)) B"
    "alloc_job (reserved_alloc r) = j" "alloc_begin (reserved_alloc r) = start j"
    "\<And>t i U. occupied (profile s1) t i U \<longleftrightarrow> occupied (profile s) t i U"
    "\<And>t m. free_at (profile s1) t m \<longleftrightarrow> free_at (profile s) t m"
    "frame s s1" "absent j (profile s1) \<longleftrightarrow> absent j (profile s)"
    "proper (tl (profile s)) \<Longrightarrow> proper B"
    "jobs_needed_to_be_killed r = filter (\<lambda>k. slice_contains_job k (hd (profile s1)) \<and> \<not> is_reservation k) (jobs_affected r)"
    "jobs_to_reschedule r = filter (\<lambda>k. \<not> slice_contains_job k (hd (profile s1))) (jobs_affected r)"
proof -
  let ?P = "profile s" and ?e = "start j + walltime j"
  let ?Q = "\<lambda>ts. begin_of ts = start j \<or> start j < end_of ts"
  define i0 where "i0 = (if begin_of (hd ?P) = end_of (hd ?P) then 1 else 0 :: nat)"
  define sb0 where "sb0 = find_from ?Q ?P i0"
  have P0: "?P \<noteq> []" using ok by (simp add: schedule_ok_def)
  obtain s0 c f sb where sp0: "split_slice sb0 (start j) s = Some (s0, c, f, sb)"
    using run by (auto simp: reserve_time_slice_def run_simps Let_def sb0_def i0_def)
  have sb0: "sb0 < length ?P" using sp0 by (auto simp: split_slice_def run_simps)
  have S: "schedule_ok s0" "sb < length (profile s0)"
    "c \<longleftrightarrow> begin_of (?P ! sb0) < start j \<and> start j < end_of (?P ! sb0)"
    "c \<Longrightarrow> begin_of (profile s0 ! sb) = start j" "\<not> c \<Longrightarrow> s0 = s \<and> sb = sb0"
    "\<And>t i U. occupied (profile s0) t i U \<longleftrightarrow> occupied ?P t i U"
    "\<And>t m. free_at (profile s0) t m \<longleftrightarrow> free_at ?P t m" "frame s s0"
    "\<And>j. absent j (profile s0) \<longleftrightarrow> absent j ?P"
    by (rule split_slice_ok[OF ok sb0, of "start j"]; use sp0 in simp)+
  have sbb: "begin_of (profile s0 ! sb) = start j"
  proof (cases c)
    case False
    note F = find_from_spec[of ?Q ?P i0, folded sb0_def, OF sb0]
    have "begin_of (?P ! sb0) \<le> start j"
    proof (cases "sb0 = 0")
      case True
      then show ?thesis using st(1) P0 by (simp add: hd_conv_nth)
    next
      case nz: False
      then obtain n where n: "sb0 = Suc n" using not0_implies_Suc by blast
      have b: "begin_of (?P ! sb0) = end_of (?P ! n)" using consecutive[OF ok] sb0 n by simp
      show ?thesis
      proof (cases "i0 \<le> n")
        case True
        then show ?thesis using F(3)[of n] n b by simp
      next
        case False
        then have "n = 0" "begin_of (hd ?P) = end_of (hd ?P)" using n F(1) by (auto simp: i0_def split: if_splits)
        then show ?thesis using b st(1) P0 by (simp add: hd_conv_nth)
      qed
    qed
    then show ?thesis using F(2) S(3,5) False by auto
  qed (rule S(4))
  let ?Qe = "\<lambda>ts. ?e \<le> end_of ts"
  define se0 where "se0 = find_from ?Qe (profile s0) sb"
  obtain s2 c2 se g2 where sp2: "split_slice se0 ?e s0 = Some (s2, c2, se, g2)"
    using run sp0 by (auto simp: reserve_time_slice_def run_simps Let_def sb0_def i0_def se0_def)
  have se0: "se0 < length (profile s0)" using sp2 by (auto simp: split_slice_def run_simps)
  note G = find_from_spec[of ?Qe "profile s0" sb, folded se0_def, OF se0]
  obtain used where r: "s1 = s2" "slice_begin r = sb" "slice_end r = se"
    "used_machines (reserved_alloc r) = used" "alloc_job (reserved_alloc r) = j"
    "alloc_begin (reserved_alloc r) = start j"
    "jobs_affected r = affected_jobs used (take (Suc se - sb) (drop sb (profile s2)))"
    "sort_out_affected (hd (profile s2)) (begin_of (hd ?P) = end_of (hd ?P)) (jobs_affected r) [] [] =
       Some (jobs_needed_to_be_killed r, jobs_to_reschedule r)"
    using run sp0 sp2 suc by (auto simp: reserve_time_slice_def run_simps Let_def sb0_def i0_def se0_def
        split: option.splits)
  have S2: "schedule_ok s2"
    "\<And>t i U. occupied (profile s2) t i U \<longleftrightarrow> occupied (profile s0) t i U"
    "\<And>t m. free_at (profile s2) t m \<longleftrightarrow> free_at (profile s0) t m" "frame s0 s2"
    "\<And>j. absent j (profile s2) \<longleftrightarrow> absent j (profile s0)"
    by (rule split_slice_ok[OF S(1) se0, of ?e]; use sp2 in simp)+
  have be: "begin_of (profile s0 ! se0) < ?e"
  proof (cases "se0 = sb")
    case True
    then show ?thesis using sbb st(2) by simp
  next
    case False
    then obtain n where n: "se0 = Suc n" "sb \<le> n" using G(1) by (metis le_SucE not0_implies_Suc le_zero_eq)
    then show ?thesis using consecutive[OF S(1), of n] G(3)[of n] se0 by simp
  qed
  have P2: "se = se0 \<and> se < length (profile s2) \<and> end_of (profile s2 ! se) = ?e \<and>
    begin_of (profile s2 ! sb) = start j"
  proof -
    define A1 where "A1 = take se0 (profile s0)"
    define ts where "ts = profile s0 ! se0"
    define B1 where "B1 = drop (Suc se0) (profile s0)"
    have dec: "profile s0 = A1 @ ts # B1" and lA: "se0 = length A1"
      using id_take_nth_drop[OF se0] se0 by (simp_all add: A1_def ts_def B1_def)
    show ?thesis
    proof (rule split_slice_cases[OF dec lA, of ?e], goal_cases)
      case 1
      then have "s2 = s0" "se = se0" using sp2 by simp_all
      moreover have "end_of ts = ?e" using 1(1) G(2) be by (auto simp: ts_def)
      ultimately show ?case using se0 sbb by (simp add: ts_def)
    next
      case (2 s')
      then have "s2 = s'" "se = se0" using sp2 by simp_all
      moreover have "begin_of (profile s' ! sb) = start j"
        using sbb G(1) lA unfolding 2(4) dec by (cases "sb = se0") (simp_all add: split_profile_def nth_append)
      ultimately show ?case using lA 2(4) by (simp add: split_profile_def nth_append)
    qed
  qed
  let ?A = "take sb (profile s2)" and ?B = "take (Suc se - sb) (drop sb (profile s2))"
    and ?C = "drop (Suc se) (profile s2)"
  have sbse: "sb \<le> se" using P2 G(1) by simp
  have dec: "profile s2 = ?A @ ?B @ ?C"
  proof -
    have "drop (Suc se - sb) (drop sb (profile s2)) = ?C" using sbse by (simp add: add.commute)
    then show ?thesis by (metis append_take_drop_id)
  qed
  have Bne: "?B \<noteq> []" using P2 sbse by simp
  have lens: "length ?A = sb" "length (?A @ ?B) = Suc se" using P2 sbse by auto
  have hdB: "begin_of (hd ?B) = start j" using P2 sbse by (simp add: hd_drop_conv_nth)
  have "length ?B = Suc (se - sb)" using P2 sbse by (auto simp: Suc_diff_le)
  then have "last ?B = ?B ! (se - sb)" using Bne last_conv_nth[of ?B] by (metis diff_Suc_1)
  then have "last ?B = profile s2 ! se" using P2 sbse by (simp add: Suc_diff_le)
  then have lastB: "end_of (last ?B) = ?e" using conjunct1[OF conjunct2[OF conjunct2[OF P2]]] by (rule trans[OF arg_cong])
  obtain m1 m2 where ch: "chain m1 ?B m2"
    using S2(1) dec unfolding schedule_ok_def by (metis chain_append)
  have "m1 = start j" using ch hdB Bne by (cases ?B) auto
  moreover have "m2 = ?e" using chain_last[OF ch Bne] lastB by simp
  ultimately have chB: "chain (start j) ?B ?e" using ch by simp
  have properB: "proper ?B" if tl: "proper (tl ?P)"
  proof -
    have "begin_of (hd ?P) \<le> end_of (hd ?P)" using ok P0 by (cases ?P) (auto simp: schedule_ok_def)
    then have "proper (drop i0 ?P)"
      using tl P0 unfolding i0_def proper_def by (cases ?P) auto
    note p0 = split_slice_proper[OF sp0 this find_from_spec(1)[of ?Q ?P i0, folded sb0_def, OF sb0]]
    have "i0 \<le> sb" using p0(2) find_from_spec(1)[of ?Q ?P i0, folded sb0_def, OF sb0] by simp
    from split_slice_proper(1)[OF sp2 proper_drop[OF p0(1) this] G(1)] show ?thesis by (rule proper_take)
  qed
  note kinds = sort_out_affected_filters[OF r(8)]
  show thesis
  proof (rule that[of ?A ?B ?C])
    show "proper (tl ?P) \<Longrightarrow> proper ?B" by (rule properB)
    show "jobs_needed_to_be_killed r =
        filter (\<lambda>k. slice_contains_job k (hd (profile s1)) \<and> \<not> is_reservation k) (jobs_affected r)"
      "jobs_to_reschedule r = filter (\<lambda>k. \<not> slice_contains_job k (hd (profile s1))) (jobs_affected r)"
      using kinds unfolding r(1) by simp_all
  qed (use r(1-7) S2 S dec Bne lens chB frame_trans[OF S(8) S2(4)] in \<open>simp_all\<close>)
qed

text \<open>The affected jobs are exactly those that hold one of the machines during the period.\<close>

lemma hit_ids_get: "jm_ok m \<Longrightarrow> hit_ids used m = {i. \<exists>V. jm_get i m = Some V \<and> V \<inter> used \<noteq> {}}"
proof (induction m)
  case (Cons p m)
  obtain k U where p: "p = (k, U)" by (cases p)
  have m: "jm_ok m" "jm_get (jid k) m = None" using Cons.prems p jm_get_None_iff[of "jid k" m] by (auto simp: jm_ok_def)
  show ?case unfolding p using Cons.IH[OF m(1)] m(2) by (auto split: if_splits)
qed simp

lemma affected_are_holders:
  assumes "chain b B e" "proper B" "\<forall>ts \<in> set B. jm_ok (allocated_jobs ts)"
  shows "jid ` set (affected_jobs U B) = {i. \<exists>t V. b \<le> t \<and> t < e \<and> occupied B t i V \<and> V \<inter> U \<noteq> {}}"
proof -
  have "(\<exists>ts \<in> set B. i \<in> hit_ids U (allocated_jobs ts)) \<longleftrightarrow>
      (\<exists>t V. b \<le> t \<and> t < e \<and> occupied B t i V \<and> V \<inter> U \<noteq> {})" for i
  proof
    assume "\<exists>ts \<in> set B. i \<in> hit_ids U (allocated_jobs ts)"
    then obtain ts V where ts: "ts \<in> set B" "jm_get i (allocated_jobs ts) = Some V" "V \<inter> U \<noteq> {}"
      using assms(3) hit_ids_get by fastforce
    have "b \<le> begin_of ts" "begin_of ts < end_of ts" "end_of ts \<le> e"
      using chain_bounds[OF assms(1) ts(1)] assms(2) ts(1) by (auto simp: proper_def)
    then show "\<exists>t V. b \<le> t \<and> t < e \<and> occupied B t i V \<and> V \<inter> U \<noteq> {}"
      using ts unfolding occupied_def by (intro exI[of _ "begin_of ts"] exI[of _ V]) auto
  next
    assume "\<exists>t V. b \<le> t \<and> t < e \<and> occupied B t i V \<and> V \<inter> U \<noteq> {}"
    then show "\<exists>ts \<in> set B. i \<in> hit_ids U (allocated_jobs ts)"
      using assms(3) hit_ids_get unfolding occupied_def by fastforce
  qed
  then show ?thesis unfolding affected_jobs_ids by blast
qed

lemma occupied_block:
  assumes "chain c (A @ B @ C) h" "chain b B e" "b \<le> t" "t < e"
  shows "occupied (A @ B @ C) t i V \<longleftrightarrow> occupied B t i V"
proof
  assume "occupied (A @ B @ C) t i V"
  then obtain ts where ts: "ts \<in> set (A @ B @ C)" "begin_of ts \<le> t" "t < end_of ts" "jm_get i (allocated_jobs ts) = Some V"
    by (auto simp: occupied_def)
  obtain ts' where ts': "ts' \<in> set B" "begin_of ts' \<le> t" "t < end_of ts'"
    using chain_block[OF assms(2), of t] assms(3,4) by blast
  then have "ts = ts'" using chain_unique[OF assms(1) ts(1) _ ts(2,3) ts'(2,3)] by simp
  then show "occupied B t i V" using ts ts' by (auto simp: occupied_def)
qed (auto simp: occupied_def)

lemma reservation_correct_facts:
  assumes ok: "schedule_ok s" and st: "begin_of (hd (profile s)) \<le> start j" "0 < walltime j"
    and j: "absent j (profile s)" "good_id (jid j)"
    and run: "reserve_time_slice lib sorter j s = Some (r, s1)" "success r"
    and U: "used_machines (reserved_alloc r) \<subseteq> in_service s"
      "int (card (used_machines (reserved_alloc r))) = nb_requested_resources j"
  shows "schedule_ok s1" "occupied (profile s1) t i V \<longleftrightarrow> occupied (profile s) t i V"
    and "jobs_affected r = [] \<Longrightarrow> schedule_ok (add_reservation r s1) \<and>
      adds_job (jid j) (used_machines (reserved_alloc r)) (start j) (start j + walltime j)
        (profile s) (profile (add_reservation r s1)) \<and>
      sched_size (add_reservation r s1) = sched_size s + 1 \<and>
      nb_reservations_size (add_reservation r s1) = nb_reservations_size s + 1"
    and "proper (tl (profile s)) \<Longrightarrow> jid ` set (jobs_affected r) = {i. \<exists>t V. start j \<le> t \<and> t < start j + walltime j \<and>
      occupied (profile s) t i V \<and> V \<inter> used_machines (reserved_alloc r) \<noteq> {}}"
    and "jobs_needed_to_be_killed r = filter (\<lambda>k. slice_contains_job k (hd (profile s1)) \<and> \<not> is_reservation k) (jobs_affected r)"
    and "jobs_to_reschedule r = filter (\<lambda>k. \<not> slice_contains_job k (hd (profile s1))) (jobs_affected r)"
proof -
  let ?U = "used_machines (reserved_alloc r)" and ?M = "in_service s"
  obtain A B C where P: "schedule_ok s1" "profile s1 = A @ B @ C" "B \<noteq> []" "length A = slice_begin r"
    "length (A @ B) = Suc (slice_end r)" "chain (start j) B (start j + walltime j)"
    "jobs_affected r = affected_jobs ?U B" "alloc_job (reserved_alloc r) = j"
    "alloc_begin (reserved_alloc r) = start j"
    "\<And>t i U. occupied (profile s1) t i U \<longleftrightarrow> occupied (profile s) t i U"
    "\<And>t m. free_at (profile s1) t m \<longleftrightarrow> free_at (profile s) t m"
    "frame s s1" "absent j (profile s1) \<longleftrightarrow> absent j (profile s)"
    "proper (tl (profile s)) \<Longrightarrow> proper B"
    "jobs_needed_to_be_killed r = filter (\<lambda>k. slice_contains_job k (hd (profile s1)) \<and> \<not> is_reservation k) (jobs_affected r)"
    "jobs_to_reschedule r = filter (\<lambda>k. \<not> slice_contains_job k (hd (profile s1))) (jobs_affected r)"
    by (rule reserve_time_slice_period[OF ok st run]) (rule that; assumption)
  show "schedule_ok s1" "occupied (profile s1) t i V \<longleftrightarrow> occupied (profile s) t i V"
    "jobs_needed_to_be_killed r = filter (\<lambda>k. slice_contains_job k (hd (profile s1)) \<and> \<not> is_reservation k) (jobs_affected r)"
    "jobs_to_reschedule r = filter (\<lambda>k. \<not> slice_contains_job k (hd (profile s1))) (jobs_affected r)" by (rule P)+
  show "jid ` set (jobs_affected r) = {i. \<exists>t V. start j \<le> t \<and> t < start j + walltime j \<and>
      occupied (profile s) t i V \<and> V \<inter> ?U \<noteq> {}}" if "proper (tl (profile s))"
  proof -
    have "\<forall>ts \<in> set B. jm_ok (allocated_jobs ts)" "chain (begin_of (hd (A @ B @ C))) (A @ B @ C) horizon"
      using P(1) unfolding schedule_ok_def P(2) profile_ok_def slice_ok_def by auto
    then show ?thesis
      unfolding P(7) affected_are_holders[OF P(6) P(14)[OF that] \<open>\<forall>ts \<in> set B. jm_ok (allocated_jobs ts)\<close>]
      using occupied_block[OF _ P(6)] P(10)[unfolded P(2)] by blast
  qed
  assume none: "jobs_affected r = []"
  have M: "in_service s1 = ?M" using P(12) by (simp add: frame_def in_service_def)
  have pok: "profile_ok ?M (A @ B @ C)" and ch: "chain (begin_of (hd (A @ B @ C))) (A @ B @ C) horizon"
    using P(1) unfolding schedule_ok_def M P(2) by blast+
  have n: "\<forall>ts \<in> set (A @ B @ C). \<not> slice_has (jid j) ts"
    using j(1) P(13) unfolding absent_def P(2) by blast
  have "(\<Union>ts \<in> set B. hit_ids ?U (allocated_jobs ts)) = {}"
    using none affected_jobs_ids[of ?U B] P(7) by simp
  then have free: "\<forall>ts \<in> set B. \<forall>(k, W) \<in> set (allocated_jobs ts). W \<inter> ?U = {}"
    by (fastforce simp: hit_ids_def)
  have Uav: "\<forall>ts \<in> set B. ?U \<subseteq> available_machines ts"
  proof
    fix ts
    assume ts: "ts \<in> set B"
    then have sl: "slice_ok ?M ts" using profile_okD(2)[OF pok] by simp
    have "jm_union (allocated_jobs ts) \<inter> ?U = {}"
      using bspec[OF free ts] by (fastforce simp: jm_union_def)
    then show "?U \<subseteq> available_machines ts" using sl U(1) by (auto simp: slice_ok_def)
  qed
  note occ = occupy_block[OF pok n Uav U(2) j(2)]
  note rb = reserve_block[OF occ]
  define s2 where "s2 = add_reservation r s1"
  have "take (Suc (slice_end r) - slice_begin r) (drop (slice_begin r) (profile s1)) = B"
    "take (slice_begin r) (profile s1) = A" "drop (Suc (slice_end r)) (profile s1) = C"
    unfolding P(2) P(4)[symmetric] P(5)[symmetric] by simp_all
  then have P2: "profile s2 = A @ map (reserve_slice j ?U) B @ C"
    "sched_size s2 = sched_size s1 + 1" "nb_reservations_size s2 = nb_reservations_size s1 + 1"
    "in_service s2 = ?M"
    using P(8) M by (simp_all add: s2_def add_reservation_def Let_def in_service_def)
  have hd: "begin_of (hd (profile s2)) = begin_of (hd (A @ B @ C))"
    unfolding P2(1) using P(3) by (cases A; cases B) (simp_all add: reserve_slice_def)
  have "chain (begin_of (hd (A @ B @ C))) (profile s2) horizon"
    unfolding P2(1) rb(4) using ch by (simp only: chain_append chain_occupy)
  then have "schedule_ok s2"
    unfolding schedule_ok_def hd P2(4) using rb(1) P(3) by (simp add: P2(1))
  moreover have "adds_job (jid j) ?U (start j) (start j + walltime j) (profile s) (profile s2)"
  proof -
    note ov = occupy_view[OF pok n P(6)]
    have "occupied (profile s2) t i W \<longleftrightarrow> occupied (profile s) t i W \<or>
        (i = jid j \<and> W = ?U \<and> start j \<le> t \<and> t < start j + walltime j)" for t i W
      unfolding P2(1) rb(2) ov(1) P(10)[symmetric] P(2) ..
    moreover have "free_at (profile s2) t m \<longleftrightarrow> free_at (profile s) t m \<and>
        \<not> (m \<in> ?U \<and> start j \<le> t \<and> t < start j + walltime j)" for t m
      unfolding P2(1) rb(3) ov(2)[OF Uav ch] P(11)[symmetric] P(2) ..
    ultimately show ?thesis unfolding adds_job_def by blast
  qed
  ultimately show "schedule_ok (add_reservation r s1) \<and>
      adds_job (jid j) ?U (start j) (start j + walltime j) (profile s) (profile (add_reservation r s1)) \<and>
      sched_size (add_reservation r s1) = sched_size s + 1 \<and>
      nb_reservations_size (add_reservation r s1) = nb_reservations_size s + 1"
    using P2(2,3) P(12) by (simp add: s2_def frame_def)
qed

text \<open>
  C9: reserving a period for a job and adding the reservation.  \<^verbatim>\<open>reserve_time_slice\<close> only
  splits slices, and the jobs it reports as affected are exactly those that hold one of the
  reservation's machines during the period, as long as no slice but the first is empty.  The
  affected jobs of the first slice are to be killed, unless they are reservations, the others to be
  rescheduled.  When none is affected, \<^verbatim>\<open>add_reservation\<close> keeps the schedule correct and gives the
  job its machines over exactly the period from its start.
\<close>

theorem reservation_correct:
  assumes "schedule_ok s" and "begin_of (hd (profile s)) \<le> start j" "0 < walltime j"
    and "absent j (profile s)" "good_id (jid j)"
    and "reserve_time_slice lib sorter j s = Some (r, s1)" "success r"
    and "used_machines (reserved_alloc r) \<subseteq> in_service s"
      "int (card (used_machines (reserved_alloc r))) = nb_requested_resources j"
  shows "(schedule_ok s1) \<and>
    (occupied (profile s1) t i V \<longleftrightarrow> occupied (profile s) t i V) \<and>
    (proper (tl (profile s)) \<longrightarrow>
       jid ` set (jobs_affected r) = {i. \<exists>t V. start j \<le> t \<and> t < start j + walltime j \<and>
         occupied (profile s) t i V \<and> V \<inter> used_machines (reserved_alloc r) \<noteq> {}}) \<and>
    jobs_needed_to_be_killed r =
      filter (\<lambda>k. slice_contains_job k (hd (profile s1)) \<and> \<not> is_reservation k) (jobs_affected r) \<and>
    jobs_to_reschedule r = filter (\<lambda>k. \<not> slice_contains_job k (hd (profile s1))) (jobs_affected r) \<and>
    (jobs_affected r = [] \<longrightarrow>
       (schedule_ok (add_reservation r s1) \<and>
      adds_job (jid j) (used_machines (reserved_alloc r)) (start j) (start j + walltime j)
        (profile s) (profile (add_reservation r s1)) \<and>
      sched_size (add_reservation r s1) = sched_size s + 1 \<and>
      nb_reservations_size (add_reservation r s1) = nb_reservations_size s + 1))"
proof -
  note f = reservation_correct_facts[OF assms]
  show ?thesis
    by (rule conjI[OF f(1) conjI[OF f(2) conjI[OF impI[OF f(4)] conjI[OF f(5) conjI[OF f(6) impI[OF f(3)]]]]]])
qed

definition sample_reservation :: job where
  "sample_reservation = sample_job\<lparr>start := 0, purpose := ''reservation'', future_allocations := {0, 1}\<rparr>"

lemma sample_reserve:
  "\<exists>r s1. reserve_time_slice std_lib list_sort sample_reservation sample_schedule = Some (r, s1) \<and>
     success r \<and> jobs_affected r = [] \<and> used_machines (reserved_alloc r) = {0, 1}"
proof -
  have "start sample_reservation = 0" "walltime sample_reservation = 10"
    "future_allocations sample_reservation = {0, 1}"
    by (simp_all add: sample_reservation_def sample_job_def)
  then show ?thesis
    by (simp add: reserve_time_slice_def split_slice_def Let_def affected_jobs_def horizon_def)
qed

lemma busy_reserve:
  "\<exists>r s1. reserve_time_slice std_lib list_sort sample_reservation busy_schedule = Some (r, s1) \<and>
     success r \<and> jobs_affected r = [sample_job\<lparr>jid := ''w0!0'', nb_requested_resources := 3\<rparr>] \<and>
     used_machines (reserved_alloc r) = {0, 1} \<and> jid ` set (jobs_needed_to_be_killed r) = {''w0!0''}"
proof -
  have "start sample_reservation = 0" "walltime sample_reservation = 10"
    "future_allocations sample_reservation = {0, 1}"
    by (simp_all add: sample_reservation_def sample_job_def)
  then show ?thesis
    by (simp add: busy_schedule_def reserve_time_slice_def split_slice_def Let_def affected_jobs_def horizon_def
        slice_contains_job_def is_reservation_def sample_job_def)
qed

text \<open>One reservation on free machines, and one on the machines of a running job.\<close>

theorem reservation_correct_witness:
  "(\<exists>r s1. reserve_time_slice std_lib list_sort sample_reservation sample_schedule = Some (r, s1) \<and>
      success r \<and> schedule_ok (add_reservation r s1)) \<and>
   (\<exists>r s1. reserve_time_slice std_lib list_sort sample_reservation busy_schedule = Some (r, s1) \<and>
      jid ` set (jobs_needed_to_be_killed r) = {''w0!0''} \<and>
      {i. \<exists>t V. 0 \<le> t \<and> t < 10 \<and> occupied (profile busy_schedule) t i V \<and> V \<inter> {0, 1} \<noteq> {}} = {''w0!0''})"
proof
  have j: "0 \<le> start sample_reservation" "0 < walltime sample_reservation" "good_id (jid sample_reservation)"
    "start sample_reservation = 0" "walltime sample_reservation = 10" "nb_requested_resources sample_reservation = 2"
    "absent sample_reservation (profile sample_schedule)" "absent sample_reservation (profile busy_schedule)"
    using sample_insertable busy_insertable by (simp_all add: sample_reservation_def sample_job_def insertable_def absent_def)
  obtain r s1 where r: "reserve_time_slice std_lib list_sort sample_reservation sample_schedule = Some (r, s1)"
    "success r" "jobs_affected r = []" "used_machines (reserved_alloc r) = {0, 1}"
    using sample_reserve by blast
  have "begin_of (hd (profile sample_schedule)) \<le> start sample_reservation"
    "used_machines (reserved_alloc r) \<subseteq> in_service sample_schedule"
    "int (card (used_machines (reserved_alloc r))) = nb_requested_resources sample_reservation"
    using j r(4) by (auto simp: in_service_def)
  from reservation_correct[OF sample_schedule_ok this(1) j(2,7,3) r(1,2) this(2,3)] r
  show "\<exists>r s1. reserve_time_slice std_lib list_sort sample_reservation sample_schedule = Some (r, s1) \<and>
      success r \<and> schedule_ok (add_reservation r s1)" by blast
  obtain q s2 where q: "reserve_time_slice std_lib list_sort sample_reservation busy_schedule = Some (q, s2)"
    "success q" "jobs_affected q = [sample_job\<lparr>jid := ''w0!0'', nb_requested_resources := 3\<rparr>]"
    "used_machines (reserved_alloc q) = {0, 1}" "jid ` set (jobs_needed_to_be_killed q) = {''w0!0''}"
    using busy_reserve by (elim exE conjE) (rule that; assumption)
  have "begin_of (hd (profile busy_schedule)) \<le> start sample_reservation"
    "used_machines (reserved_alloc q) \<subseteq> in_service busy_schedule"
    "int (card (used_machines (reserved_alloc q))) = nb_requested_resources sample_reservation"
    "proper (tl (profile busy_schedule))"
    using j q(4) by (auto simp: in_service_def busy_schedule_def proper_def horizon_def)
  from reservation_correct[OF busy_schedule_ok this(1) j(2,8,3) q(1,2) this(2,3)] this(4) q
  show "\<exists>r s1. reserve_time_slice std_lib list_sort sample_reservation busy_schedule = Some (r, s1) \<and>
      jid ` set (jobs_needed_to_be_killed r) = {''w0!0''} \<and>
      {i. \<exists>t V. 0 \<le> t \<and> t < 10 \<and> occupied (profile busy_schedule) t i V \<and> V \<inter> {0, 1} \<noteq> {}} = {''w0!0''}"
    unfolding j(4,5) q(4) by (intro exI[of _ q] exI[of _ s2]) simp
qed

end
