(* ===== verification/Decision.thy ===== *)
theory Decision
  imports Locality
begin

text \<open>
  What a scheduler answers to the simulator: the scheduling decisions (\<^verbatim>\<open>decision.cpp\<close>) and the
  protocol writer that records them as events (\<^verbatim>\<open>protocol.cpp\<close> of batsched).  An event is a
  value of the datatype \<open>event\<close>; its rendering as JSON is in the theory \<open>Json_Protocol\<close>.  A JSON
  description given as text (of a job, of a profile) is kept as the text.
\<close>

subsection \<open>Events and the writer\<close>

datatype call_me_later_type =
    CML_FIXED_FAILURE | CML_SMTBF | CML_MTBF | REPAIR_DONE | RESERVATION_START
  | CHECKPOINT_BATSCHED | RECOVER_FROM_CHECKPOINT

datatype kill_type =
    KILL_NONE | KILL_FIXED_FAILURE | KILL_SMTBF | KILL_MTBF | KILL_RESERVATION

record job_message =
  msg_id :: job_id
  progress_str :: string
  msg_progress :: time
  for_what :: kill_type

datatype event =
    QueryConsumedEnergy
  | AnswerEstimateWaitingTime job_id time
  | RegisterJob job_id string string bool
  | RegisterProfile string string string
  | ExecuteJob job_id machines "int list"
  | RejectJob job_id
  | KillJob "(job_id \<times> kill_type) list"
  | SetResourceState machines string
  | SetJobMetadata job_id string
  | CallMeLater time int call_me_later_type
  | GenericNotification string string
  | RegistrationFinished
  | ContinueRegistration

text \<open>The writer's last date, its empty flag, and the events with their timestamps.\<close>

record proto_writer =
  last_date :: time
  pw_is_empty :: bool
  events :: "(time \<times> event) list"

definition new_writer :: proto_writer where
  "new_writer = \<lparr>last_date = - 1, pw_is_empty = True, events = []\<rparr>"

text \<open>Every \<^verbatim>\<open>append_*\<close> method begins and ends in the same way.\<close>

definition append_event :: "event \<Rightarrow> time \<Rightarrow> proto_writer \<Rightarrow> proto_writer run" where
  "append_event e date w = do {
     assertion (last_date w \<le> date);
     Some (w\<lparr>last_date := date, pw_is_empty := False, events := events w @ [(date, e)]\<rparr>) }"

definition append_query_consumed_energy :: "time \<Rightarrow> proto_writer \<Rightarrow> proto_writer run" where
  "append_query_consumed_energy date = append_event QueryConsumedEnergy date"

definition append_answer_estimate_waiting_time ::
  "job_id \<Rightarrow> time \<Rightarrow> time \<Rightarrow> proto_writer \<Rightarrow> proto_writer run" where
  "append_answer_estimate_waiting_time i estimated date =
     append_event (AnswerEstimateWaitingTime i estimated) date"

definition append_execute_job ::
  "job_id \<Rightarrow> machines \<Rightarrow> time \<Rightarrow> int list \<Rightarrow> proto_writer \<Rightarrow> proto_writer run" where
  "append_execute_job i ms date mapping = append_event (ExecuteJob i ms mapping) date"

definition append_reject_job :: "job_id \<Rightarrow> time \<Rightarrow> proto_writer \<Rightarrow> proto_writer run" where
  "append_reject_job i date = append_event (RejectJob i) date"

definition append_kill_job :: "job_message list \<Rightarrow> time \<Rightarrow> proto_writer \<Rightarrow> proto_writer run" where
  "append_kill_job msgs date =
     append_event (KillJob (map (\<lambda>m. (msg_id m, for_what m)) msgs)) date"

definition append_set_resource_state ::
  "machines \<Rightarrow> string \<Rightarrow> time \<Rightarrow> proto_writer \<Rightarrow> proto_writer run" where
  "append_set_resource_state ms new_state date = append_event (SetResourceState ms new_state) date"

definition append_set_job_metadata :: "job_id \<Rightarrow> string \<Rightarrow> time \<Rightarrow> proto_writer \<Rightarrow> proto_writer run" where
  "append_set_job_metadata i metadata date = append_event (SetJobMetadata i metadata) date"

definition append_call_me_later ::
  "call_me_later_type \<Rightarrow> int \<Rightarrow> time \<Rightarrow> time \<Rightarrow> proto_writer \<Rightarrow> proto_writer run" where
  "append_call_me_later what n future_date date = append_event (CallMeLater future_date n what) date"

definition append_generic_notification :: "string \<Rightarrow> string \<Rightarrow> time \<Rightarrow> proto_writer \<Rightarrow> proto_writer run" where
  "append_generic_notification typ notify_data date = append_event (GenericNotification typ notify_data) date"

definition append_scheduler_finished_submitting_jobs :: "time \<Rightarrow> proto_writer \<Rightarrow> proto_writer run" where
  "append_scheduler_finished_submitting_jobs date = append_event RegistrationFinished date"

definition append_scheduler_continue_submitting_jobs :: "time \<Rightarrow> proto_writer \<Rightarrow> proto_writer run" where
  "append_scheduler_continue_submitting_jobs date = append_event ContinueRegistration date"

text \<open>
  Registering a job or a profile parses the JSON text it is given; \<open>parses\<close> tells whether the
  external parser accepts a text.
\<close>

definition append_register_job ::
  "(string \<Rightarrow> bool) \<Rightarrow> job_id \<Rightarrow> time \<Rightarrow> string \<Rightarrow> string \<Rightarrow> bool \<Rightarrow> proto_writer \<Rightarrow> proto_writer run" where
  "append_register_job parses i date job_description profile_description send_profile w = do {
     assertion (last_date w \<le> date);
     assertion (job_description \<noteq> [] \<longrightarrow> parses job_description);
     assertion (profile_description \<noteq> [] \<and> send_profile \<longrightarrow> parses profile_description);
     append_event (RegisterJob i job_description profile_description send_profile) date w }"

definition append_register_profile ::
  "(string \<Rightarrow> bool) \<Rightarrow> string \<Rightarrow> string \<Rightarrow> string \<Rightarrow> time \<Rightarrow> proto_writer \<Rightarrow> proto_writer run" where
  "append_register_profile parses workload_name profile_name profile_description date w = do {
     assertion (last_date w \<le> date);
     assertion (profile_description \<noteq> []);
     assertion (parses profile_description);
     append_event (RegisterProfile workload_name profile_name profile_description) date w }"

text \<open>Clearing the writer keeps its last date.\<close>

definition writer_clear :: "proto_writer \<Rightarrow> proto_writer" where
  "writer_clear w = w\<lparr>pw_is_empty := True, events := []\<rparr>"

subsection \<open>The decision object\<close>

record call_me_later =
  cml_time :: time
  cml_id :: int
  cml_for_what :: call_me_later_type
  cml_job_id :: job_id

record decisions =
  writer :: proto_writer
  nb_call_me_laters :: int
  call_me_laters :: "int \<Rightarrow> call_me_later option"

definition new_decisions :: decisions where
  "new_decisions = \<lparr>writer = new_writer, nb_call_me_laters = 0, call_me_laters = Map.empty\<rparr>"

text \<open>A decision that only writes to the protocol.\<close>

definition on_writer :: "(proto_writer \<Rightarrow> proto_writer run) \<Rightarrow> decisions \<Rightarrow> decisions run" where
  "on_writer f d = do { w \<leftarrow> f (writer d); Some (d\<lparr>writer := w\<rparr>) }"

definition add_execute_job :: "job_id \<Rightarrow> machines \<Rightarrow> time \<Rightarrow> int list \<Rightarrow> decisions \<Rightarrow> decisions run" where
  "add_execute_job i ms date mapping =
     (if length mapping = 0 then on_writer (append_execute_job i ms date [])
      else on_writer (append_execute_job i ms date mapping))"

definition add_reject_job :: "job_id \<Rightarrow> time \<Rightarrow> decisions \<Rightarrow> decisions run" where
  "add_reject_job i date = on_writer (append_reject_job i date)"

definition add_kill_job :: "job_message list \<Rightarrow> time \<Rightarrow> decisions \<Rightarrow> decisions run" where
  "add_kill_job msgs date = on_writer (append_kill_job msgs date)"

definition add_set_job_metadata :: "job_id \<Rightarrow> string \<Rightarrow> time \<Rightarrow> decisions \<Rightarrow> decisions run" where
  "add_set_job_metadata i metadata date = on_writer (append_set_job_metadata i metadata date)"

definition add_generic_notification :: "string \<Rightarrow> string \<Rightarrow> time \<Rightarrow> decisions \<Rightarrow> decisions run" where
  "add_generic_notification typ notify_data date = on_writer (append_generic_notification typ notify_data date)"

definition add_answer_estimate_waiting_time :: "job_id \<Rightarrow> time \<Rightarrow> time \<Rightarrow> decisions \<Rightarrow> decisions run" where
  "add_answer_estimate_waiting_time i estimated date =
     on_writer (append_answer_estimate_waiting_time i estimated date)"

definition add_scheduler_finished_submitting_jobs :: "time \<Rightarrow> decisions \<Rightarrow> decisions run" where
  "add_scheduler_finished_submitting_jobs date = on_writer (append_scheduler_finished_submitting_jobs date)"

definition add_call_me_later ::
  "call_me_later_type \<Rightarrow> int \<Rightarrow> time \<Rightarrow> time \<Rightarrow> job_id \<Rightarrow> decisions \<Rightarrow> decisions run" where
  "add_call_me_later what n future_date date i d = do {
     d1 \<leftarrow> on_writer (append_call_me_later what (nb_call_me_laters d) future_date date) d;
     Some (d1\<lparr>call_me_laters := (call_me_laters d1)(nb_call_me_laters d1 \<mapsto>
         \<lparr>cml_time = future_date, cml_id = nb_call_me_laters d1, cml_for_what = what, cml_job_id = i\<rparr>),
       nb_call_me_laters := nb_call_me_laters d1 + 1\<rparr>) }"

type_synonym workload = "job_id \<Rightarrow> job option"

text \<open>
  \<^verbatim>\<open>_call_me_laters[id]\<close> creates an uninitialised record for an unknown identifier; the run
  stops there.  The late start of a reservation shortens its walltime in the workload.
\<close>

definition remove_call_me_later ::
  "int \<Rightarrow> time \<Rightarrow> workload \<Rightarrow> decisions \<Rightarrow> (time \<times> workload \<times> decisions) run" where
  "remove_call_me_later n date w0 d = do {
     cml \<leftarrow> call_me_laters d n;
     let d1 = d\<lparr>call_me_laters := (call_me_laters d)(n := None)\<rparr>;
     if cml_time cml < date then
       (if cml_for_what cml = RESERVATION_START then do {
          j \<leftarrow> w0 (cml_job_id cml);
          Some (date - cml_time cml,
            w0(cml_job_id cml \<mapsto> j\<lparr>walltime := walltime j - (date - cml_time cml)\<rparr>), d1) }
        else Some (date - cml_time cml, w0, d1))
     else Some (0, w0, d1) }"

definition decisions_clear :: "decisions \<Rightarrow> decisions" where
  "decisions_clear d = d\<lparr>writer := writer_clear (writer d)\<rparr>"

subsection \<open>What a run of decisions records\<close>

named_theorems decision_simps \<open>the decisions a scheduler takes\<close>

lemma add_decisions [decision_simps]:
  "add_execute_job i ms date mapping d = on_writer (append_event (ExecuteJob i ms mapping) date) d"
  "add_reject_job i date d = on_writer (append_event (RejectJob i) date) d"
  "add_generic_notification typ txt date d = on_writer (append_event (GenericNotification typ txt) date) d"
  by (auto simp: add_execute_job_def append_execute_job_def add_reject_job_def append_reject_job_def
      add_generic_notification_def append_generic_notification_def)

text \<open>A decision is recorded at the end of the events; it fails only on a date in the past.\<close>

definition decided :: "time \<Rightarrow> event list \<Rightarrow> decisions \<Rightarrow> decisions \<Rightarrow> bool" where
  "decided date es d d' \<longleftrightarrow>
     d' = d\<lparr>writer := writer d\<lparr>last_date := if es = [] then last_date (writer d) else date,
       pw_is_empty := pw_is_empty (writer d) \<and> es = [],
       events := events (writer d) @ map (Pair date) es\<rparr>\<rparr>"

lemma decided_refl [simp, intro]: "decided date [] d d"
  by (simp add: decided_def)

lemma decided_trans:
  "decided date es d d1 \<Longrightarrow> decided date fs d1 d2 \<Longrightarrow> decided date (es @ fs) d d2"
  by (auto simp: decided_def)

lemma decided_one: "last_date (writer d) \<le> date \<Longrightarrow>
  \<exists>d'. on_writer (append_event e date) d = Some d' \<and> decided date [e] d d'"
  by (simp add: on_writer_def append_event_def decided_def)

lemma on_writer_decided:
  "on_writer (append_event e date) d = Some d' \<longleftrightarrow> last_date (writer d) \<le> date \<and> decided date [e] d d'"
  by (auto simp: on_writer_def append_event_def decided_def run_simps)

lemma decided_last_date: "decided date es d d' \<Longrightarrow> last_date (writer d) \<le> date \<Longrightarrow> last_date (writer d') \<le> date"
  by (simp add: decided_def)

lemma decided_events: "decided date es d d' \<Longrightarrow> events (writer d') = events (writer d) @ map (Pair date) es"
  by (simp add: decided_def)

text \<open>The jobs a list of events starts, with their machines, and the jobs it rejects.\<close>

fun executed :: "event list \<Rightarrow> (job_id \<times> machines) list" where
  "executed [] = []"
| "executed (ExecuteJob i ms mapping # es) = (i, ms) # executed es"
| "executed (e # es) = executed es"

fun rejected :: "event list \<Rightarrow> job_id list" where
  "rejected [] = []"
| "rejected (RejectJob i # es) = i # rejected es"
| "rejected (e # es) = rejected es"

lemma executed_append [simp]: "executed (es @ fs) = executed es @ executed fs"
  by (induction es rule: executed.induct) auto

lemma rejected_append [simp]: "rejected (es @ fs) = rejected es @ rejected fs"
  by (induction es rule: rejected.induct) auto

subsection \<open>Properties of the decisions\<close>

text \<open>The dates of the recorded events never decrease.\<close>

definition writer_ok :: "proto_writer \<Rightarrow> bool" where
  "writer_ok w \<longleftrightarrow> sorted (map fst (events w)) \<and> (\<forall>(t, e) \<in> set (events w). t \<le> last_date w)
     \<and> (pw_is_empty w \<longleftrightarrow> events w = [])"

lemma new_writer_ok: "writer_ok new_writer" by (simp add: writer_ok_def new_writer_def)

lemma writer_clear_ok: "writer_ok (writer_clear w)" by (simp add: writer_ok_def writer_clear_def)

lemma append_event_ok: "writer_ok w \<Longrightarrow> append_event e date w = Some w' \<Longrightarrow> writer_ok w'"
  by (fastforce simp: writer_ok_def append_event_def run_simps sorted_append)

end
