(* ===== verification/Pool.thy ===== *)
theory Pool
  imports Decision
begin

text \<open>
  The abstract view the simple schedulers share: a platform of \<open>n\<close> machines, the free machines,
  and the machines each running job holds.  Starting a job takes machines from the free ones,
  the end of a job gives them back; both keep the machines partitioned.
\<close>

type_synonym allocations = "job_id \<Rightarrow> machines option"

definition pool_ok :: "int \<Rightarrow> machines \<Rightarrow> allocations \<Rightarrow> bool" where
  "pool_ok n F al \<longleftrightarrow> (\<forall>m. m < nat n \<longleftrightarrow> m \<in> F \<or> (\<exists>i A. al i = Some A \<and> m \<in> A)) \<and>
     (\<forall>i A m. al i = Some A \<longrightarrow> m \<in> A \<longrightarrow> m \<notin> F) \<and>
     (\<forall>i k A B m. al i = Some A \<longrightarrow> al k = Some B \<longrightarrow> m \<in> A \<longrightarrow> m \<in> B \<longrightarrow> i = k)"

text \<open>\<^verbatim>\<open>current_allocations[id]\<close>: an unknown identifier gets an empty set.\<close>

definition alloc_of :: "allocations \<Rightarrow> job_id \<Rightarrow> machines" where
  "alloc_of al i = (case al i of None \<Rightarrow> {} | Some A \<Rightarrow> A)"

text \<open>The allocations after a sequence of job starts.\<close>

fun grant :: "(job_id \<times> machines) list \<Rightarrow> allocations \<Rightarrow> allocations" where
  "grant [] al = al"
| "grant ((i, ms) # xs) al = grant xs (al(i \<mapsto> ms))"

lemma grant_append: "grant (xs @ ys) al = grant ys (grant xs al)"
  by (induction xs arbitrary: al) auto

lemma grant_other: "i \<notin> fst ` set xs \<Longrightarrow> grant xs al i = al i"
  by (induction xs arbitrary: al) auto

lemma grant_same: "distinct (map fst xs) \<Longrightarrow> (i, ms) \<in> set xs \<Longrightarrow> grant xs al i = Some ms"
proof (induction xs arbitrary: al)
  case (Cons x xs)
  show ?case
  proof (cases "(i, ms) \<in> set xs")
    case True
    then show ?thesis using Cons by (cases x) simp
  next
    case False
    then show ?thesis using Cons.prems by (cases x) (auto simp: grant_other)
  qed
qed simp

lemma pool_ok_start_all: "pool_ok n {0..<nat n} Map.empty"
  by (simp add: pool_ok_def)

lemma pool_ok_subset: "pool_ok n F al \<Longrightarrow> F \<subseteq> {0..<nat n}" "pool_ok n F al \<Longrightarrow> finite F"
proof -
  assume "pool_ok n F al"
  then show "F \<subseteq> {0..<nat n}" by (auto simp: pool_ok_def)
  then show "finite F" by blast
qed

lemma pool_ok_alloc:
  assumes "pool_ok n F al" "al i = Some A"
  shows "A \<subseteq> {0..<nat n}" "finite A" "A \<inter> F = {}"
proof -
  show "A \<subseteq> {0..<nat n}" using assms by (auto simp: pool_ok_def)
  then show "finite A" by blast
  show "A \<inter> F = {}" using assms by (auto simp: pool_ok_def)
qed

lemma pool_ok_partition:
  "pool_ok n F al \<Longrightarrow> m < nat n \<longleftrightarrow> m \<in> F \<or> (\<exists>k A. al k = Some A \<and> m \<in> A)"
  by (simp add: pool_ok_def)

lemma pool_ok_not_free: "pool_ok n F al \<Longrightarrow> al k = Some A \<Longrightarrow> m \<in> A \<Longrightarrow> m \<notin> F"
  by (simp add: pool_ok_def)

lemma pool_ok_one_holder:
  "pool_ok n F al \<Longrightarrow> al k = Some A \<Longrightarrow> al l = Some B \<Longrightarrow> m \<in> A \<Longrightarrow> m \<in> B \<Longrightarrow> k = l"
  unfolding pool_ok_def by metis

lemma pool_okI:
  assumes "\<And>m. m < nat n \<longleftrightarrow> m \<in> F \<or> (\<exists>k A. al k = Some A \<and> m \<in> A)"
    "\<And>k A m. al k = Some A \<Longrightarrow> m \<in> A \<Longrightarrow> m \<notin> F"
    "\<And>k l A B m. al k = Some A \<Longrightarrow> al l = Some B \<Longrightarrow> m \<in> A \<Longrightarrow> m \<in> B \<Longrightarrow> k = l"
  shows "pool_ok n F al"
  unfolding pool_ok_def using assms(1,2) by (intro conjI allI impI) (simp_all, rule assms(3))

lemma held_after_start:
  assumes "al i = None"
  shows "(\<exists>k A. (al(i \<mapsto> U)) k = Some A \<and> m \<in> A) \<longleftrightarrow> m \<in> U \<or> (\<exists>k A. al k = Some A \<and> m \<in> A)"
  (is "?l \<longleftrightarrow> ?r")
proof
  assume ?l
  then obtain k A where "(al(i \<mapsto> U)) k = Some A" "m \<in> A" by (elim exE conjE)
  then show ?r by (cases "k = i") auto
next
  assume ?r
  then show ?l
  proof
    assume "m \<in> U"
    then show ?l by (intro exI[of _ i] exI[of _ U]) simp
  next
    assume "\<exists>k A. al k = Some A \<and> m \<in> A"
    then obtain k A where "al k = Some A" "m \<in> A" by (elim exE conjE)
    then show ?l using assms by (intro exI[of _ k] exI[of _ A]) auto
  qed
qed

lemma held_after_end:
  "(\<exists>k A. al k = Some A \<and> m \<in> A) \<longleftrightarrow>
   m \<in> alloc_of al i \<or> (\<exists>k A. (al(i := None)) k = Some A \<and> m \<in> A)" (is "?l \<longleftrightarrow> ?r")
proof
  assume ?l
  then obtain k A where kA: "al k = Some A" "m \<in> A" by (elim exE conjE)
  show ?r
  proof (cases "k = i")
    case True
    then show ?thesis using kA by (simp add: alloc_of_def)
  next
    case False
    then show ?thesis using kA by (intro disjI2 exI[of _ k] exI[of _ A]) simp
  qed
next
  assume ?r
  then show ?l
  proof
    assume "m \<in> alloc_of al i"
    then show ?l by (auto simp: alloc_of_def split: option.splits)
  next
    assume "\<exists>k A. (al(i := None)) k = Some A \<and> m \<in> A"
    then obtain k A where "(al(i := None)) k = Some A" "m \<in> A" by (elim exE conjE)
    then show ?l by (intro exI[of _ k] exI[of _ A]) (simp split: if_splits)
  qed
qed

lemma pool_ok_start:
  assumes "pool_ok n F al" "U \<subseteq> F" "al i = None"
  shows "pool_ok n (F - U) (al(i \<mapsto> U))"
proof (rule pool_okI)
  fix m
  show "m < nat n \<longleftrightarrow> m \<in> F - U \<or> (\<exists>k A. (al(i \<mapsto> U)) k = Some A \<and> m \<in> A)"
    unfolding held_after_start[of al, OF assms(3)] pool_ok_partition[OF assms(1)] using assms(2) by auto
next
  fix k A m
  assume "(al(i \<mapsto> U)) k = Some A" "m \<in> A"
  then show "m \<notin> F - U" using pool_ok_not_free[OF assms(1), of k A m] by (simp split: if_splits)
next
  fix k l A B m
  assume kl: "(al(i \<mapsto> U)) k = Some A" "(al(i \<mapsto> U)) l = Some B" "m \<in> A" "m \<in> B"
  have free: "m \<in> F" if "m \<in> U" using that assms(2) by (rule rev_subsetD)
  show "k = l"
  proof (cases "k = i"; cases "l = i")
    assume "k = i" "l \<noteq> i"
    then show "k = l" using kl free pool_ok_not_free[OF assms(1), of l B m] by simp
  next
    assume "k \<noteq> i" "l = i"
    then show "k = l" using kl free pool_ok_not_free[OF assms(1), of k A m] by simp
  next
    assume "k \<noteq> i" "l \<noteq> i"
    then show "k = l" using kl pool_ok_one_holder[OF assms(1), of k A l B m] by simp
  qed simp
qed

lemma pool_ok_end:
  assumes "pool_ok n F al"
  shows "pool_ok n (F \<union> alloc_of al i) (al(i := None))"
proof (rule pool_okI)
  fix m
  show "m < nat n \<longleftrightarrow> m \<in> F \<union> alloc_of al i \<or> (\<exists>k A. (al(i := None)) k = Some A \<and> m \<in> A)"
    unfolding pool_ok_partition[OF assms] held_after_end[of al m i] by auto
next
  fix k A m
  assume k: "(al(i := None)) k = Some A" "m \<in> A"
  then have "k \<noteq> i" "al k = Some A" by (simp_all split: if_splits)
  moreover have "m \<notin> alloc_of al i"
  proof
    assume "m \<in> alloc_of al i"
    then obtain B where "al i = Some B" "m \<in> B" by (auto simp: alloc_of_def split: option.splits)
    then show False using pool_ok_one_holder[OF assms \<open>al k = Some A\<close> _ k(2)] \<open>k \<noteq> i\<close> by simp
  qed
  ultimately show "m \<notin> F \<union> alloc_of al i" using pool_ok_not_free[OF assms _ k(2)] by simp
next
  fix k l A B m
  assume "(al(i := None)) k = Some A" "(al(i := None)) l = Some B" "m \<in> A" "m \<in> B"
  then show "k = l" using pool_ok_one_holder[OF assms, of k A l B m] by (simp split: if_splits)
qed

lemma card_alloc_of:
  assumes "pool_ok n F al"
  shows "int (card (F \<union> alloc_of al i)) = int (card F) + int (card (alloc_of al i))"
proof (cases "al i")
  case None
  then show ?thesis by (simp add: alloc_of_def)
next
  case (Some A)
  note p = pool_ok_alloc[OF assms Some]
  have "F \<inter> A = {}" using p(3) by blast
  then show ?thesis
    using card_Un_disjoint_int[OF pool_ok_subset(2)[OF assms] p(2)] Some by (simp add: alloc_of_def)
qed

text \<open>The basic selector accepts every request of at most the free size.\<close>

context interval_set
begin

lemma basic_is_greedy: "greedy_selector (basic_fit lib)"
  by (rule basic.greedy_selector_axioms)

end

lemma basic_greedy: "interval_set lib \<Longrightarrow> greedy_selector (basic_fit lib)"
  by (rule interval_set.basic_is_greedy)

lemma basic_selector: "interval_set lib \<Longrightarrow> resource_selector (basic_fit lib)"
  using basic_greedy by (simp add: greedy_selector_def)

lemma left_of_all:
  assumes "interval_set lib" "finite S" "int (card S) = k"
  shows "left_of lib S k = S"
proof -
  have "left_of lib S k \<subseteq> S" using interval_set.left_subset[OF assms(1,2)] .
  moreover have "int (card (left_of lib S k)) = k"
    using interval_set.left_card[OF assms(1,2), of k] assms(3) by simp
  ultimately show ?thesis using assms(2,3) by (metis card_subset_eq of_nat_eq_iff)
qed

end
