(* ===== verification/Json.thy ===== *)
theory Json
  imports Locality
begin

text \<open>
  JSON documents and the text formats the two programs exchange.  A document is a value of the
  datatype \<open>json\<close>; the text transport (\<^verbatim>\<open>rapidjson\<close>'s writer and parser, the socket) is external
  and left out: what the writer of one program accepts is what the reader of the other gets.  A
  checked access (\<^verbatim>\<open>operator[]\<close>, \<^verbatim>\<open>GetInt\<close>, \<^verbatim>\<open>GetString\<close>) that \<^verbatim>\<open>rapidjson\<close> asserts is a run.
  \<^verbatim>\<open>std::to_string\<close> and \<^verbatim>\<open>std::stoi\<close> are written out.  The text form of an \<^verbatim>\<open>IntervalSet\<close>
  belongs to the external library: it is a parameter, a record of type \<open>hyphen_format\<close>, whose
  round trip is the locale \<open>hyphen_codec\<close>.
\<close>

subsection \<open>Documents\<close>

datatype json =
    JNull
  | JBool bool
  | JInt int
  | JDouble rat
  | JString string
  | JArray "json list"
  | JObject "(string \<times> json) list"

fun is_object :: "json \<Rightarrow> bool" where
  "is_object (JObject ms) = True"
| "is_object _ = False"

fun is_string :: "json \<Rightarrow> bool" where
  "is_string (JString s) = True"
| "is_string _ = False"

fun is_number :: "json \<Rightarrow> bool" where
  "is_number (JInt n) = True"
| "is_number (JDouble x) = True"
| "is_number _ = False"

definition fits_int :: "int \<Rightarrow> bool" where
  "fits_int n \<longleftrightarrow> - (2 ^ 31) \<le> n \<and> n < 2 ^ 31"

fun is_int :: "json \<Rightarrow> bool" where
  "is_int (JInt n) = fits_int n"
| "is_int _ = False"

text \<open>\<^verbatim>\<open>HasMember\<close> and \<^verbatim>\<open>operator[]\<close> assert that the value is an object.\<close>

fun members :: "json \<Rightarrow> (string \<times> json) list run" where
  "members (JObject ms) = Some ms"
| "members _ = None"

fun elements :: "json \<Rightarrow> json list run" where
  "elements (JArray xs) = Some xs"
| "elements _ = None"

definition member_count :: "json \<Rightarrow> nat run" where
  "member_count d = do { ms \<leftarrow> members d; Some (length ms) }"

definition has_member :: "string \<Rightarrow> json \<Rightarrow> bool run" where
  "has_member k d = do { ms \<leftarrow> members d; Some (map_of ms k \<noteq> None) }"

definition member_at :: "string \<Rightarrow> json \<Rightarrow> json run" where
  "member_at k d = do { ms \<leftarrow> members d; map_of ms k }"

fun get_string :: "json \<Rightarrow> string run" where
  "get_string (JString s) = Some s"
| "get_string _ = None"

fun get_int :: "json \<Rightarrow> int run" where
  "get_int (JInt n) = (if fits_int n then Some n else None)"
| "get_int _ = None"

fun get_double :: "json \<Rightarrow> rat run" where
  "get_double (JInt n) = Some (rat_of_int n)"
| "get_double (JDouble x) = Some x"
| "get_double _ = None"

fun get_bool :: "json \<Rightarrow> bool run" where
  "get_bool (JBool b) = Some b"
| "get_bool _ = None"

text \<open>A required member of a given type, as the readers fetch them.\<close>

definition string_member :: "string \<Rightarrow> json \<Rightarrow> string run" where
  "string_member k d = do { v \<leftarrow> member_at k d; get_string v }"

definition int_member :: "string \<Rightarrow> json \<Rightarrow> int run" where
  "int_member k d = do { v \<leftarrow> member_at k d; get_int v }"

definition double_member :: "string \<Rightarrow> json \<Rightarrow> rat run" where
  "double_member k d = do { v \<leftarrow> member_at k d; get_double v }"

named_theorems json_simps \<open>access to the members of a document\<close>

lemmas json_access [json_simps] =
  member_count_def has_member_def member_at_def string_member_def int_member_def double_member_def

text \<open>An optional member: its value when it is there, a default otherwise.\<close>

definition optional_member :: "(json \<Rightarrow> 'a run) \<Rightarrow> string \<Rightarrow> 'a \<Rightarrow> json \<Rightarrow> 'a run" where
  "optional_member get k dflt d = do {
     there \<leftarrow> has_member k d;
     (if there then do { v \<leftarrow> member_at k d; get v } else Some dflt) }"

definition get_doubles :: "json \<Rightarrow> rat list run" where
  "get_doubles v = do { xs \<leftarrow> elements v; map_run get_double xs }"

subsection \<open>Editing documents\<close>

text \<open>
  \<^verbatim>\<open>d[k] = v\<close>, which asserts that the member exists, \<^verbatim>\<open>AddMember\<close>, and \<^verbatim>\<open>d[k].PushBack(v)\<close>.
\<close>

fun replace_member :: "string \<Rightarrow> json \<Rightarrow> (string \<times> json) list \<Rightarrow> (string \<times> json) list run" where
  "replace_member k v [] = None"
| "replace_member k v ((l, u) # ms) =
     (if l = k then Some ((l, v) # ms) else do { ms' \<leftarrow> replace_member k v ms; Some ((l, u) # ms') })"

definition set_member :: "string \<Rightarrow> json \<Rightarrow> json \<Rightarrow> json run" where
  "set_member k v d = do { ms \<leftarrow> members d; ms' \<leftarrow> replace_member k v ms; Some (JObject ms') }"

definition add_member :: "string \<Rightarrow> json \<Rightarrow> json \<Rightarrow> json run" where
  "add_member k v d = do { ms \<leftarrow> members d; Some (JObject (ms @ [(k, v)])) }"

definition push_member :: "string \<Rightarrow> json \<Rightarrow> json \<Rightarrow> json run" where
  "push_member k v d = do {
     a \<leftarrow> member_at k d;
     xs \<leftarrow> elements a;
     set_member k (JArray (xs @ [v])) d }"

definition parse_doc :: "(string \<Rightarrow> json run) \<Rightarrow> string \<Rightarrow> json" where
  "parse_doc parse s = (case parse s of None \<Rightarrow> JNull | Some d \<Rightarrow> d)"

text \<open>\<^verbatim>\<open>std::replace\<close> of one character by another; 39 and 34 are the single and the double quote.\<close>

definition replace_char :: "char \<Rightarrow> char \<Rightarrow> string \<Rightarrow> string" where
  "replace_char a b s = map (\<lambda>c. if c = a then b else c) s"

definition single_quote :: char where "single_quote = char_of (39 :: nat)"

definition double_quote :: char where "double_quote = char_of (34 :: nat)"

subsection \<open>Numerals\<close>

definition digit :: "nat \<Rightarrow> char" where
  "digit n = char_of (48 + n)"

definition digit_value :: "char \<Rightarrow> nat" where
  "digit_value c = of_char c - 48"

definition is_digit :: "char \<Rightarrow> bool" where
  "is_digit c \<longleftrightarrow> 48 \<le> (of_char c :: nat) \<and> (of_char c :: nat) \<le> 57"

definition is_space :: "char \<Rightarrow> bool" where
  "is_space c \<longleftrightarrow> (of_char c :: nat) = 32 \<or> (9 \<le> (of_char c :: nat) \<and> (of_char c :: nat) \<le> 13)"

fun show_nat :: "nat \<Rightarrow> string" where
  "show_nat n = (if n < 10 then [digit n] else show_nat (n div 10) @ [digit (n mod 10)])"

declare show_nat.simps [simp del]

definition show_int :: "int \<Rightarrow> string" where
  "show_int n = (if n < 0 then ''-'' @ show_nat (nat (- n)) else show_nat (nat n))"

definition digits_value :: "string \<Rightarrow> nat" where
  "digits_value ds = foldl (\<lambda>a c. a * 10 + digit_value c) 0 ds"

text \<open>
  \<^verbatim>\<open>std::stoi\<close>: white space, an optional sign, the longest run of digits; it throws without a
  digit and out of the range of \<^verbatim>\<open>int\<close>, and ignores what follows the digits.
\<close>

definition stoi :: "string \<Rightarrow> int run" where
  "stoi s =
     (let s1 = dropWhile is_space s;
          neg = (s1 \<noteq> [] \<and> hd s1 = CHR ''-'');
          s2 = (if s1 \<noteq> [] \<and> (hd s1 = CHR ''-'' \<or> hd s1 = CHR ''+'') then tl s1 else s1);
          ds = takeWhile is_digit s2;
          v = (if neg then - int (digits_value ds) else int (digits_value ds))
      in if ds \<noteq> [] \<and> fits_int v then Some v else None)"

lemma of_char_digit: "n < 10 \<Longrightarrow> (of_char (digit n) :: nat) = 48 + n"
  by (simp add: digit_def)

lemma digit_facts:
  assumes "n < 10"
  shows "is_digit (digit n)" "\<not> is_space (digit n)" "digit_value (digit n) = n"
  using assms by (simp_all add: is_digit_def is_space_def digit_value_def of_char_digit)

lemma show_nat_nonempty [simp]: "show_nat n \<noteq> []"
  by (subst show_nat.simps) simp

lemma show_nat_digits: "\<forall>c \<in> set (show_nat n). is_digit c"
proof (induction n rule: show_nat.induct)
  case (1 n)
  then show ?case by (subst show_nat.simps) (auto simp: digit_facts)
qed

lemma digits_value_append:
  "digits_value (xs @ [c]) = digits_value xs * 10 + digit_value c"
  by (simp add: digits_value_def)

lemma digits_value_show: "digits_value (show_nat n) = n"
proof (induction n rule: show_nat.induct)
  case (1 n)
  show ?case
  proof (cases "n < 10")
    case True
    then show ?thesis by (subst show_nat.simps) (simp add: digits_value_def digit_facts)
  next
    case False
    then show ?thesis using 1[OF False] by (subst show_nat.simps) (simp add: digits_value_append digit_facts)
  qed
qed

lemma digit_not_special:
  assumes "is_digit c"
  shows "\<not> is_space c" "c \<noteq> CHR ''-''" "c \<noteq> CHR ''+''" "c \<noteq> CHR '' ''" "c \<noteq> CHR ''!''"
    "c \<noteq> CHR ''#''" "c \<noteq> CHR ''$''"
  using assms by (auto simp: is_digit_def is_space_def)

lemma hd_show_nat: "is_digit (hd (show_nat n))"
  using show_nat_digits[of n] by (cases "show_nat n") auto

lemma is_digit_minus [simp]: "\<not> is_digit CHR ''-''" "\<not> is_space CHR ''-''"
  by (simp_all add: is_digit_def is_space_def)

text \<open>Reading a numeral followed by something that is not a digit.\<close>

lemma takeWhile_digits:
  assumes "\<forall>c \<in> set ds. is_digit c" "rest = [] \<or> \<not> is_digit (hd rest)"
  shows "takeWhile is_digit (ds @ rest) = ds"
proof -
  have "takeWhile is_digit rest = []" using assms(2) by (cases rest) auto
  then show ?thesis using assms(1) by (simp add: takeWhile_append2)
qed

lemma stoi_show_nat_prefix:
  assumes "fits_int (int n)" "rest = [] \<or> \<not> is_digit (hd rest)"
  shows "stoi (show_nat n @ rest) = Some (int n)"
proof -
  obtain c cs where c: "show_nat n = c # cs" by (cases "show_nat n") auto
  have d: "is_digit c" using hd_show_nat[of n] c by simp
  have t: "takeWhile is_digit (show_nat n @ rest) = show_nat n"
    by (rule takeWhile_digits[OF show_nat_digits assms(2)])
  have w: "dropWhile is_space (show_nat n @ rest) = show_nat n @ rest"
    using c digit_not_special[OF d] by simp
  show ?thesis
    unfolding stoi_def Let_def w using t c digit_not_special[OF d] assms(1) digits_value_show[of n]
    by simp
qed

lemma stoi_show_int:
  assumes "fits_int n"
  shows "stoi (show_int n) = Some n"
proof (cases "n < 0")
  case False
  then show ?thesis using stoi_show_nat_prefix[of "nat n" "[]"] assms by (simp add: show_int_def)
next
  case True
  have t: "takeWhile is_digit (show_nat (nat (- n))) = show_nat (nat (- n))"
    using takeWhile_digits[OF show_nat_digits, of "[]"] by simp
  have s: "show_int n = CHR ''-'' # show_nat (nat (- n))" using True by (simp add: show_int_def)
  have w: "dropWhile is_space (show_int n) = show_int n" unfolding s by simp
  show ?thesis
    unfolding stoi_def Let_def w unfolding s using True assms by (simp add: t digits_value_show)
qed

subsection \<open>The text form of machine sets\<close>

record hyphen_format =
  to_hyphen :: "machines \<Rightarrow> string"
  from_hyphen :: "string \<Rightarrow> machines run"

locale hyphen_codec =
  fixes fmt :: hyphen_format
  assumes from_to: "finite U \<Longrightarrow> U \<noteq> {} \<Longrightarrow> from_hyphen fmt (to_hyphen fmt U) = Some U"
begin

lemma to_hyphen_inj:
  "finite U \<Longrightarrow> U \<noteq> {} \<Longrightarrow> finite V \<Longrightarrow> V \<noteq> {} \<Longrightarrow> to_hyphen fmt U = to_hyphen fmt V \<Longrightarrow> U = V"
  by (metis from_to option.inject)

end

text \<open>
  The form of the library, \<^verbatim>\<open>"1-3 5"\<close>: the maximal intervals in increasing order, separated by
  spaces, a single machine without hyphen.
\<close>

fun split_on :: "char \<Rightarrow> string \<Rightarrow> string list" where
  "split_on c [] = [[]]"
| "split_on c (x # xs) =
     (if x = c then [] # split_on c xs
      else (case split_on c xs of [] \<Rightarrow> [[x]] | t # ts \<Rightarrow> (x # t) # ts))"

definition show_interval :: "nat \<times> nat \<Rightarrow> string" where
  "show_interval i =
     (if fst i = snd i then show_nat (fst i) else show_nat (fst i) @ ''-'' @ show_nat (snd i))"

definition read_nat :: "string \<Rightarrow> nat run" where
  "read_nat s = (if s \<noteq> [] \<and> (\<forall>c \<in> set s. is_digit c) then Some (digits_value s) else None)"

definition read_interval :: "string \<Rightarrow> machines run" where
  "read_interval s =
     (case split_on CHR ''-'' s of
        [a] \<Rightarrow> do { n \<leftarrow> read_nat a; Some {n} }
      | [a, b] \<Rightarrow> do { n \<leftarrow> read_nat a; k \<leftarrow> read_nat b; Some {n..k} }
      | _ \<Rightarrow> None)"

fun read_intervals :: "string list \<Rightarrow> machines run" where
  "read_intervals [] = Some {}"
| "read_intervals (s # ss) = do { U \<leftarrow> read_interval s; V \<leftarrow> read_intervals ss; Some (U \<union> V) }"

definition std_format :: hyphen_format where
  "std_format = \<lparr>
     to_hyphen = (\<lambda>U. join '' '' (map show_interval (intervals std_lib U))),
     from_hyphen = (\<lambda>s. read_intervals (split_on CHR '' '' s))\<rparr>"

lemma split_on_nonempty [simp]: "split_on c s \<noteq> []"
  by (induction s) (auto split: list.splits)

lemma split_on_none: "c \<notin> set s \<Longrightarrow> split_on c s = [s]"
  by (induction s) auto

lemma split_on_append: "c \<notin> set x \<Longrightarrow> split_on c (x @ c # s) = x # split_on c s"
  by (induction x) auto

lemma split_on_join:
  assumes "xs \<noteq> []" "\<forall>x \<in> set xs. c \<notin> set x"
  shows "split_on c (join [c] xs) = xs"
  using assms
proof (induction xs)
  case (Cons x xs)
  show ?case
  proof (cases "xs = []")
    case True
    then show ?thesis using Cons.prems by (simp add: split_on_none)
  next
    case False
    then show ?thesis using Cons by (simp add: join_Cons split_on_append)
  qed
qed simp

lemma show_nat_plain: "c \<in> set (show_nat n) \<Longrightarrow> is_digit c"
  using show_nat_digits by blast

lemma show_nat_not_in:
  "CHR ''-'' \<notin> set (show_nat n)" "CHR '' '' \<notin> set (show_nat n)" "CHR ''!'' \<notin> set (show_nat n)"
  "CHR ''#'' \<notin> set (show_nat n)" "CHR ''$'' \<notin> set (show_nat n)"
  using show_nat_plain digit_not_special by metis+

lemma read_nat_show [simp]: "read_nat (show_nat n) = Some n"
  using show_nat_digits by (simp add: read_nat_def digits_value_show)

lemma read_show_interval: "fst i \<le> snd i \<Longrightarrow> read_interval (show_interval i) = Some {fst i..snd i}"
  by (auto simp: read_interval_def show_interval_def split_on_none split_on_append show_nat_not_in)

lemma show_interval_no_space: "CHR '' '' \<notin> set (show_interval i)"
  by (simp add: show_interval_def show_nat_not_in)

lemma read_show_intervals:
  "\<forall>i \<in> set is. fst i \<le> snd i \<Longrightarrow>
   read_intervals (map show_interval is) = Some (\<Union>(l, u) \<in> set is. {l..u})"
  by (induction "is") (auto simp: read_show_interval)

interpretation std: hyphen_codec std_format
proof
  fix U :: machines
  assume U: "finite U" "U \<noteq> {}"
  let ?is = "intervals std_lib U"
  have "?is \<noteq> []" using std.intervals_union[OF U(1)] U(2) by force
  then have "split_on CHR '' '' (to_hyphen std_format U) = map show_interval ?is"
    by (simp add: std_format_def split_on_join show_interval_no_space)
  moreover have "\<forall>i \<in> set ?is. fst i \<le> snd i"
    using std.intervals_nonempty[OF U(1)] by auto
  ultimately show "from_hyphen std_format (to_hyphen std_format U) = Some U"
    using read_show_intervals std.intervals_union[OF U(1)] by (simp add: std_format_def)
qed

end
