(* ===== verification/Sched_Protocol.thy ===== *)
theory Sched_Protocol
  imports Decision Json
begin

text \<open>
  The message batsched sends: the JSON form of every event its protocol writer records
  (\<^verbatim>\<open>protocol.cpp\<close> of batsched) and the message around them
  (\<^verbatim>\<open>generate_current_message\<close>).  \<open>parse\<close> stands for \<^verbatim>\<open>rapidjson\<close>'s parser, applied to the
  description of a job or of a profile.
\<close>

subsection \<open>The enumerations as integers\<close>

fun call_me_later_number :: "call_me_later_type \<Rightarrow> int" where
  "call_me_later_number CML_FIXED_FAILURE = 0"
| "call_me_later_number CML_SMTBF = 1"
| "call_me_later_number CML_MTBF = 2"
| "call_me_later_number REPAIR_DONE = 3"
| "call_me_later_number RESERVATION_START = 4"
| "call_me_later_number CHECKPOINT_BATSCHED = 5"
| "call_me_later_number RECOVER_FROM_CHECKPOINT = 6"

fun kill_type_number :: "kill_type \<Rightarrow> int" where
  "kill_type_number KILL_NONE = 0"
| "kill_type_number KILL_FIXED_FAILURE = 1"
| "kill_type_number KILL_SMTBF = 2"
| "kill_type_number KILL_MTBF = 3"
| "kill_type_number KILL_RESERVATION = 4"

lemma enumerations_fit [simp]: "fits_int (call_me_later_number c)" "fits_int (kill_type_number k)"
  by (cases c; simp add: fits_int_def) (cases k; simp add: fits_int_def)

subsection \<open>Events\<close>

fun event_type :: "event \<Rightarrow> string" where
  "event_type QueryConsumedEnergy = ''QUERY''"
| "event_type (AnswerEstimateWaitingTime _ _) = ''ANSWER''"
| "event_type (RegisterJob _ _ _ _) = ''REGISTER_JOB''"
| "event_type (RegisterProfile _ _ _) = ''REGISTER_PROFILE''"
| "event_type (ExecuteJob _ _ _) = ''EXECUTE_JOB''"
| "event_type (RejectJob _) = ''REJECT_JOB''"
| "event_type (KillJob _) = ''KILL_JOB''"
| "event_type (SetResourceState _ _) = ''SET_RESOURCE_STATE''"
| "event_type (SetJobMetadata _ _) = ''SET_JOB_METADATA''"
| "event_type (CallMeLater _ _ _) = ''CALL_ME_LATER''"
| "event_type (GenericNotification _ _) = ''NOTIFY''"
| "event_type RegistrationFinished = ''NOTIFY''"
| "event_type ContinueRegistration = ''NOTIFY''"

text \<open>\<^verbatim>\<open>{"0": "r0", "1": "r1", ...}\<close>: the executors are numbered from zero.\<close>

fun mapping_members :: "nat \<Rightarrow> int list \<Rightarrow> (string \<times> json) list" where
  "mapping_members i [] = []"
| "mapping_members i (r # rs) = (show_nat i, JString (show_int r)) # mapping_members (Suc i) rs"

fun event_data :: "(string \<Rightarrow> json run) \<Rightarrow> hyphen_format \<Rightarrow> event \<Rightarrow> json run" where
  "event_data parse fmt QueryConsumedEnergy =
     Some (JObject [(''requests'', JObject [(''consumed_energy'', JObject [])])])"
| "event_data parse fmt (AnswerEstimateWaitingTime i t) =
     Some (JObject [(''estimate_waiting_time'',
       JObject [(''job_id'', JString i), (''estimated_waiting_time'', JDouble t)])])"
| "event_data parse fmt (RegisterJob i job_description profile_description send_profile) = do {
     j \<leftarrow> (if job_description \<noteq> [] then do { d \<leftarrow> parse job_description; Some [(''job'', d)] } else Some []);
     p \<leftarrow> (if profile_description \<noteq> [] \<and> send_profile
          then do { d \<leftarrow> parse profile_description; Some [(''profile'', d)] } else Some []);
     Some (JObject ((''job_id'', JString i) # j @ p)) }"
| "event_data parse fmt (RegisterProfile w p profile_description) = do {
     assertion (profile_description \<noteq> []);
     d \<leftarrow> parse profile_description;
     Some (JObject [(''workload_name'', JString w), (''profile_name'', JString p), (''profile'', d)]) }"
| "event_data parse fmt (ExecuteJob i ms mapping) =
     Some (JObject ([(''job_id'', JString i), (''alloc'', JString (to_hyphen fmt ms))] @
       (if mapping = [] then [] else [(''mapping'', JObject (mapping_members 0 mapping))])))"
| "event_data parse fmt (RejectJob i) = Some (JObject [(''job_id'', JString i)])"
| "event_data parse fmt (KillJob msgs) =
     Some (JObject [(''job_msgs'', JArray (map (\<lambda>(i, what).
       JObject [(''id'', JString i), (''forWhat'', JInt (kill_type_number what))]) msgs))])"
| "event_data parse fmt (SetResourceState ms new_state) =
     Some (JObject [(''resources'', JString (to_hyphen fmt ms)), (''state'', JString new_state)])"
| "event_data parse fmt (SetJobMetadata i metadata) =
     Some (JObject [(''job_id'', JString i), (''metadata'', JString metadata)])"
| "event_data parse fmt (CallMeLater t n what) =
     Some (JObject [(''timestamp'', JDouble t), (''id'', JInt n),
       (''forWhat'', JInt (call_me_later_number what))])"
| "event_data parse fmt (GenericNotification typ notify_data) =
     Some (JObject [(''type'', JString typ), (''data'', JString notify_data)])"
| "event_data parse fmt RegistrationFinished =
     Some (JObject [(''type'', JString ''registration_finished'')])"
| "event_data parse fmt ContinueRegistration =
     Some (JObject [(''type'', JString ''continue_registration'')])"

definition event_json :: "(string \<Rightarrow> json run) \<Rightarrow> hyphen_format \<Rightarrow> time \<times> event \<Rightarrow> json run" where
  "event_json parse fmt te = do {
     d \<leftarrow> event_data parse fmt (snd te);
     Some (JObject [(''timestamp'', JDouble (fst te)), (''type'', JString (event_type (snd te))),
       (''data'', d)]) }"

text \<open>
  \<^verbatim>\<open>generate_current_message\<close>.  The main loop clears the writer before it fills it again, so the
  second assertion, that the array of events has not been moved away, holds.
\<close>

definition generate_current_message ::
  "(string \<Rightarrow> json run) \<Rightarrow> hyphen_format \<Rightarrow> time \<Rightarrow> proto_writer \<Rightarrow> json run" where
  "generate_current_message parse fmt date w = do {
     assertion (last_date w \<le> date);
     es \<leftarrow> map_run (event_json parse fmt) (events w);
     Some (JObject [(''now'', JDouble date), (''events'', JArray es)]) }"

definition decisions_content ::
  "(string \<Rightarrow> json run) \<Rightarrow> hyphen_format \<Rightarrow> time \<Rightarrow> decisions \<Rightarrow> json run" where
  "decisions_content parse fmt date d = generate_current_message parse fmt date (writer d)"

end
