(* ===== verification/Sched_Workload.thy ===== *)
theory Sched_Workload
  imports Decision Sched_Protocol
begin

text \<open>
  What batsched keeps of the simulation beside its algorithm: the workload, filled from the events
  that submit jobs (\<^verbatim>\<open>json_workload.cpp\<close>), and the machines (\<^verbatim>\<open>machine.cpp\<close>).  A profile is only
  checked: \<open>profile_loads\<close> stands for \<^verbatim>\<open>Profile::from_json\<close>, which is not modelled.
\<close>

subsection \<open>The workload\<close>

text \<open>The jobs and the parameters of the simulation that the schedulers read.\<close>

record sched_workload =
  sw_job_map :: "job_id \<Rightarrow> job option"
  rjms_delay :: time
  next_job_number :: int
  started_from_checkpoint :: bool
  nb_folder :: int
  nb_checkpoint :: int
  nb_previously_completed :: int
  nb_original_jobs :: int
  checkpointing_on :: bool
  compute_checkpointing :: bool
  checkpointing_interval :: rat
  wl_MTBF :: rat
  wl_SMTBF :: rat
  wl_MTTR :: rat
  wl_repair_time :: rat
  fixed_failures :: rat
  host_speed :: rat
  seed_failures :: bool
  seed_repair_time :: bool
  queue_depth :: int
  subtract_progress_from_walltime :: bool

definition new_sched_workload :: "time \<Rightarrow> sched_workload" where
  "new_sched_workload delay = \<lparr>sw_job_map = Map.empty, rjms_delay = delay, next_job_number = 0,
     started_from_checkpoint = False, nb_folder = 0, nb_checkpoint = 0, nb_previously_completed = 0,
     nb_original_jobs = 0, checkpointing_on = False, compute_checkpointing = False,
     checkpointing_interval = - 1, wl_MTBF = - 1, wl_SMTBF = - 1, wl_MTTR = - 1, wl_repair_time = 0,
     fixed_failures = - 1, host_speed = 0, seed_failures = False, seed_repair_time = False,
     queue_depth = - 1, subtract_progress_from_walltime = False\<rparr>"

definition check_checkpoint_members :: "json \<Rightarrow> unit run" where
  "check_checkpoint_members d = do {
     a \<leftarrow> string_member ''allocation'' d;
     p \<leftarrow> double_member ''progress'' d;
     s \<leftarrow> int_member ''state'' d;
     x \<leftarrow> string_member ''jitter'' d;
     r \<leftarrow> double_member ''runtime'' d;
     Some () }"

text \<open>
  \<^verbatim>\<open>job_from_json_object\<close> of one object.  The dump, read and checkpoint times, what a checkpoint
  recorded of the job and the text of the description are checked but not kept.
\<close>

definition job_from_json_object ::
  "hyphen_format \<Rightarrow> json \<Rightarrow> sched_workload \<Rightarrow> (job \<times> sched_workload) run" where
  "job_from_json_object fmt d w = do {
     assertion (is_object d);
     i \<leftarrow> string_member ''id'' d;
     res \<leftarrow> int_member ''res'' d;
     (if started_from_checkpoint w then check_checkpoint_members d else Some ());
     wt \<leftarrow> optional_member get_double ''walltime'' (- 1) d;
     assertion (wt = - 1 \<or> 0 < wt);
     owt \<leftarrow> optional_member get_double ''original_walltime'' (- 1) d;
     cs \<leftarrow> optional_member get_int ''cores'' 1 d;
     what \<leftarrow> optional_member get_string ''purpose'' ''job'' d;
     s \<leftarrow> optional_member get_double ''start'' (- 1) d;
     alloc \<leftarrow> optional_member (\<lambda>v. do { a \<leftarrow> get_string v; from_hyphen fmt a }) ''alloc'' {} d;
     times \<leftarrow> optional_member get_doubles ''submission_times'' [] d;
     dump \<leftarrow> optional_member get_double ''dumptime'' 0 d;
     readt \<leftarrow> optional_member get_double ''readtime'' 0 d;
     interval \<leftarrow> optional_member get_double ''checkpoint_interval'' (- 1) d;
     Some (\<lparr>jid = i, unique_number = next_job_number w, nb_requested_resources = res,
       walltime = wt, original_walltime = owt, has_walltime = (wt \<noteq> - 1), submission_time = 0,
       submission_times = times, completion_time = - 1, cores = cs, purpose = what,
       future_allocations = alloc, start = s, duration = 0\<rparr>,
       w\<lparr>next_job_number := next_job_number w + 1\<rparr>) }"

definition job_from_json_objects ::
  "(job_id \<Rightarrow> json \<Rightarrow> bool) \<Rightarrow> hyphen_format \<Rightarrow> json \<Rightarrow> json \<Rightarrow> sched_workload \<Rightarrow>
   (job \<times> sched_workload) run" where
  "job_from_json_objects profile_loads fmt job_object profile_object w = do {
     (j, w1) \<leftarrow> job_from_json_object fmt job_object w;
     assertion (profile_loads (jid j) profile_object);
     cpu \<leftarrow> double_member ''real_cpu'' profile_object;
     Some (j\<lparr>duration := cpu\<rparr>, w1) }"

text \<open>
  The job is known by the identifier of the event, and its walltime is lengthened by the delay of
  the resource manager (whether or not it has one).
\<close>

definition add_new_job :: "job_id \<Rightarrow> time \<Rightarrow> job \<Rightarrow> sched_workload \<Rightarrow> sched_workload run" where
  "add_new_job i submitted j w = do {
     let j1 = j\<lparr>jid := i, submission_time := submitted, walltime := walltime j + rjms_delay w\<rparr>;
     assertion (sw_job_map w i = None);
     Some (w\<lparr>sw_job_map := (sw_job_map w)(i \<mapsto> j1)\<rparr>) }"

definition add_job_from_json_object ::
  "(job_id \<Rightarrow> json \<Rightarrow> bool) \<Rightarrow> hyphen_format \<Rightarrow> json \<Rightarrow> job_id \<Rightarrow> time \<Rightarrow> sched_workload \<Rightarrow>
   sched_workload run" where
  "add_job_from_json_object profile_loads fmt d i submitted w = do {
     jo \<leftarrow> member_at ''job'' d;
     po \<leftarrow> member_at ''profile'' d;
     (j, w1) \<leftarrow> job_from_json_objects profile_loads fmt jo po w;
     add_new_job i submitted j w1 }"

definition add_job_from_json_description_string ::
  "(string \<Rightarrow> json run) \<Rightarrow> hyphen_format \<Rightarrow> string \<Rightarrow> job_id \<Rightarrow> time \<Rightarrow> sched_workload \<Rightarrow>
   sched_workload run" where
  "add_job_from_json_description_string parse fmt s i submitted w = do {
     d \<leftarrow> parse s;
     (j, w1) \<leftarrow> job_from_json_object fmt d w;
     add_new_job i submitted j w1 }"

definition add_job_from_redis ::
  "(string \<Rightarrow> json run) \<Rightarrow> hyphen_format \<Rightarrow> (job_id \<Rightarrow> string) \<Rightarrow> job_id \<Rightarrow> time \<Rightarrow> sched_workload \<Rightarrow>
   sched_workload run" where
  "add_job_from_redis parse fmt redis i submitted w = do {
     assertion (redis i \<noteq> []);
     add_job_from_json_description_string parse fmt (redis i) i submitted w }"

definition workload_job :: "job_id \<Rightarrow> sched_workload \<Rightarrow> job run" where
  "workload_job i w = sw_job_map w i"

definition complete_job :: "job_id \<Rightarrow> time \<Rightarrow> sched_workload \<Rightarrow> sched_workload run" where
  "complete_job i date w = do {
     j \<leftarrow> workload_job i w;
     Some (w\<lparr>sw_job_map := (sw_job_map w)(i \<mapsto> j\<lparr>completion_time := date\<rparr>)\<rparr>) }"

subsection \<open>The machines\<close>

text \<open>
  The regular expression \<^verbatim>\<open>.*[a-zA-Z]+([0-9]+)\<close> splits a name after the last letter that a digit
  follows: the prefix up to it, and the run of digits after it.
\<close>

definition is_letter :: "char \<Rightarrow> bool" where
  "is_letter c \<longleftrightarrow> (let n = (of_char c :: nat) in (65 \<le> n \<and> n \<le> 90) \<or> (97 \<le> n \<and> n \<le> 122))"

fun name_parts :: "string \<Rightarrow> (string \<times> string) option" where
  "name_parts (c # d # s) =
     (case name_parts (d # s) of
        Some (p, n) \<Rightarrow> Some (c # p, n)
      | None \<Rightarrow> if is_letter c \<and> is_digit d then Some ([c], takeWhile is_digit (d # s)) else None)"
| "name_parts s = None"

text \<open>The number of cores is assigned to a string: it becomes the character with that code.\<close>

record sched_machine =
  sm_name :: string
  sm_prefix :: string
  sm_id :: int
  sm_core_count :: string
  sm_speed :: rat
  sm_repair_time :: rat

record sched_machines =
  by_name :: "string \<Rightarrow> sched_machine option"
  by_number :: "sched_machine list"
  by_prefix :: "string \<Rightarrow> (int \<Rightarrow> sched_machine option) option"

definition no_machines :: sched_machines where
  "no_machines = \<lparr>by_name = Map.empty, by_number = [], by_prefix = Map.empty\<rparr>"

definition read_machine :: "json \<Rightarrow> sched_machine run" where
  "read_machine d = do {
     n \<leftarrow> string_member ''name'' d;
     (p, digits) \<leftarrow> name_parts n;
     k \<leftarrow> stoi digits;
     cc \<leftarrow> int_member ''core_count'' d;
     sp \<leftarrow> double_member ''speed'' d;
     rt \<leftarrow> double_member ''repair-time'' d;
     Some \<lparr>sm_name = n, sm_prefix = p, sm_id = k, sm_core_count = [char_of (nat (cc mod 256))],
       sm_speed = sp, sm_repair_time = rt\<rparr> }"

definition add_machine_from_json_object :: "json \<Rightarrow> sched_machines \<Rightarrow> sched_machines run" where
  "add_machine_from_json_object d ms = do {
     m \<leftarrow> read_machine d;
     let same = (case by_prefix ms (sm_prefix m) of Some f \<Rightarrow> f | None \<Rightarrow> Map.empty);
     Some \<lparr>by_name = (by_name ms)(sm_name m \<mapsto> m), by_number = by_number ms @ [m],
       by_prefix = (by_prefix ms)(sm_prefix m \<mapsto> same(sm_id m \<mapsto> m))\<rparr> }"

definition machine_named :: "string \<Rightarrow> sched_machines \<Rightarrow> sched_machine run" where
  "machine_named n ms = by_name ms n"

text \<open>A negative number is converted to an unsigned one, so it is refused as well.\<close>

definition machine_numbered :: "int \<Rightarrow> sched_machines \<Rightarrow> sched_machine run" where
  "machine_numbered n ms =
     (if 0 \<le> n \<and> n < int (length (by_number ms)) then Some (by_number ms ! nat n) else None)"

end
