(* ===== verification/Failures.thy ===== *)
theory Failures
  imports Sched_Workload
begin

text \<open>
  The failures that batsched injects (\<^verbatim>\<open>set_generators\<close> of \<^verbatim>\<open>isalgorithm.cpp\<close>).  The generators of
  the C++ library are external: what they draw is an argument, a record of type \<open>draws\<close>.  The call
  that announces a failure is made by the simulator at the date asked for.
\<close>

record draws =
  next_failure :: rat
  drawn_machine :: nat
  drawn_repair_time :: rat

definition set_generators :: "sched_workload \<Rightarrow> draws \<Rightarrow> time \<Rightarrow> decisions \<Rightarrow> decisions run" where
  "set_generators w dr date d = do {
     d1 \<leftarrow> (if fixed_failures w \<noteq> - 1 then
              add_call_me_later CML_FIXED_FAILURE 1 (fixed_failures w + date) date ''null'' d
            else Some d);
     (if wl_SMTBF w \<noteq> - 1 then add_call_me_later CML_SMTBF 1 (next_failure dr + date) date ''null'' d1
      else if wl_MTBF w \<noteq> - 1 then add_call_me_later CML_MTBF 1 (next_failure dr + date) date ''null'' d1
      else Some d1) }"

text \<open>Iterations over unordered containers, and the addresses by which a \<^verbatim>\<open>std::map\<close> of pointers is ordered.\<close>

record unordered =
  first_of :: "job_id set \<Rightarrow> job_id"
  keys_of :: "(job_id \<Rightarrow> machines option) \<Rightarrow> job_id list"
  address :: "job_id \<Rightarrow> nat"

text \<open>\<^verbatim>\<open>insert\<close> into such a map: an entry that is there is kept.\<close>

fun insert_kill :: "unordered \<Rightarrow> job_id \<times> job_message \<Rightarrow> (job_id \<times> job_message) list \<Rightarrow> (job_id \<times> job_message) list" where
  "insert_kill un x [] = [x]"
| "insert_kill un x (y # ys) =
     (if fst x = fst y then y # ys
      else if address un (fst x) < address un (fst y) then x # y # ys
      else y # insert_kill un x ys)"

text \<open>\<^verbatim>\<open>new Job_Message\<close>, of which the progress is not set and not sent.\<close>

definition kill_message :: "job_id \<Rightarrow> job_message" where
  "kill_message i = \<lparr>msg_id = i, progress_str = [], msg_progress = 0, for_what = KILL_NONE\<rparr>"

end
