(* ===== verification/Fcfs.thy ===== *)
theory Fcfs
  imports Pool Failures
begin

text \<open>
  The two first-come-first-served schedulers without backfilling: \<^verbatim>\<open>algo/fcfs.cpp\<close>, which asks
  the resource selector for the pending jobs, and \<^verbatim>\<open>algo/fcfs_fast.cpp\<close>, which takes the
  leftmost free machines.  The rest of their code is the same.  The work-list containers
  \<^verbatim>\<open>_jobs_ended_recently\<close> and \<^verbatim>\<open>_jobs_released_recently\<close> are arguments of a call.
\<close>

subsection \<open>State and operations\<close>

record fcfs =
  fc_nb_machines :: int
  fc_available :: machines
  fc_nb_available :: int
  fc_pending :: "job list"
  fc_allocations :: allocations
  fc_decisions :: decisions

definition fcfs_on_simulation_start :: "fcfs \<Rightarrow> fcfs run" where
  "fcfs_on_simulation_start s = do {
     let s1 = s\<lparr>fc_available := fc_available s \<union> {0..<nat (fc_nb_machines s)},
       fc_nb_available := fc_nb_machines s\<rparr>;
     assertion (int (card (fc_available s1)) = fc_nb_machines s1);
     Some s1 }"

definition fcfs_fast_on_simulation_start :: "sched_workload \<Rightarrow> draws \<Rightarrow> time \<Rightarrow> fcfs \<Rightarrow> fcfs run" where
  "fcfs_fast_on_simulation_start w dr date s = do {
     d \<leftarrow> set_generators w dr date (fc_decisions s);
     fcfs_on_simulation_start (s\<lparr>fc_decisions := d\<rparr>) }"

definition fcfs_job_ended :: "workload \<Rightarrow> job_id \<Rightarrow> fcfs \<Rightarrow> fcfs run" where
  "fcfs_job_ended w i s = do {
     finished_job \<leftarrow> w i;
     Some (s\<lparr>fc_available := fc_available s \<union> alloc_of (fc_allocations s) i,
       fc_nb_available := fc_nb_available s + nb_requested_resources finished_job,
       fc_allocations := (fc_allocations s)(i := None)\<rparr>) }"

definition fcfs_start_job :: "time \<Rightarrow> job \<Rightarrow> machines \<Rightarrow> fcfs \<Rightarrow> fcfs run" where
  "fcfs_start_job date j ms s = do {
     d \<leftarrow> add_execute_job (jid j) ms date [] (fc_decisions s);
     Some (s\<lparr>fc_decisions := d, fc_available := fc_available s - ms,
       fc_nb_available := fc_nb_available s - nb_requested_resources j,
       fc_allocations := (fc_allocations s)(jid j \<mapsto> ms)\<rparr>) }"

text \<open>The loop over the pending jobs, on the part of the list not yet erased.\<close>

fun fcfs_drain :: "selector \<Rightarrow> time \<Rightarrow> job list \<Rightarrow> fcfs \<Rightarrow> fcfs run" where
  "fcfs_drain fit date [] s = Some s"
| "fcfs_drain fit date (j # js) s =
     (case fit j (fc_available s) of
        None \<Rightarrow> None
      | Some None \<Rightarrow> Some s
      | Some (Some ms) \<Rightarrow> do {
          s1 \<leftarrow> fcfs_start_job date j ms s;
          fcfs_drain fit date js (s1\<lparr>fc_pending := js\<rparr>) })"

definition fcfs_job_released :: "interval_lib \<Rightarrow> workload \<Rightarrow> time \<Rightarrow> job_id \<Rightarrow> fcfs \<Rightarrow> fcfs run" where
  "fcfs_job_released lib w date i s = do {
     new_job \<leftarrow> w i;
     (if fc_nb_machines s < nb_requested_resources new_job then do {
        d \<leftarrow> add_reject_job i date (fc_decisions s);
        Some (s\<lparr>fc_decisions := d\<rparr>) }
      else if fc_pending s \<noteq> [] then Some (s\<lparr>fc_pending := fc_pending s @ [new_job]\<rparr>)
      else if nb_requested_resources new_job \<le> fc_nb_available s then
        fcfs_start_job date new_job
          (left_of lib (fc_available s) (nb_requested_resources new_job)) s
      else Some (s\<lparr>fc_pending := fc_pending s @ [new_job]\<rparr>)) }"

definition fcfs_make_decisions ::
  "interval_lib \<Rightarrow> selector \<Rightarrow> workload \<Rightarrow> job_id list \<Rightarrow> job_id list \<Rightarrow> time \<Rightarrow> fcfs \<Rightarrow> fcfs run" where
  "fcfs_make_decisions lib fit w ended released date s = do {
     s1 \<leftarrow> fold_run (fcfs_job_ended w) ended s;
     s2 \<leftarrow> (if ended \<noteq> [] then fcfs_drain fit date (fc_pending s1) s1 else Some s1);
     fold_run (fcfs_job_released lib w date) released s2 }"

fun fcfs_fast_drain :: "interval_lib \<Rightarrow> time \<Rightarrow> job list \<Rightarrow> fcfs \<Rightarrow> fcfs run" where
  "fcfs_fast_drain lib date [] s = Some s"
| "fcfs_fast_drain lib date (j # js) s =
     (if nb_requested_resources j \<le> fc_nb_available s then do {
        s1 \<leftarrow> fcfs_start_job date j (left_of lib (fc_available s) (nb_requested_resources j)) s;
        fcfs_fast_drain lib date js (s1\<lparr>fc_pending := js\<rparr>) }
      else Some s)"

definition fcfs_fast_make_decisions ::
  "interval_lib \<Rightarrow> workload \<Rightarrow> job_id list \<Rightarrow> job_id list \<Rightarrow> time \<Rightarrow> fcfs \<Rightarrow> fcfs run" where
  "fcfs_fast_make_decisions lib w ended released date s = do {
     s1 \<leftarrow> fold_run (fcfs_job_ended w) ended s;
     s2 \<leftarrow> (if ended \<noteq> [] then fcfs_fast_drain lib date (fc_pending s1) s1 else Some s1);
     fold_run (fcfs_job_released lib w date) released s2 }"

subsection \<open>Invariant\<close>

text \<open>
  The machines are partitioned, the counter is the number of free machines, every running job
  holds as many machines as it asked for, and the pending jobs are known, distinct, not running
  and not larger than the platform.
\<close>

definition fcfs_ok :: "workload \<Rightarrow> fcfs \<Rightarrow> bool" where
  "fcfs_ok w s \<longleftrightarrow>
     pool_ok (fc_nb_machines s) (fc_available s) (fc_allocations s) \<and>
     fc_nb_available s = int (card (fc_available s)) \<and>
     (\<forall>i A. fc_allocations s i = Some A \<longrightarrow>
        (\<exists>j. w i = Some j \<and> jid j = i \<and> nb_requested_resources j = int (card A))) \<and>
     (\<forall>j \<in> set (fc_pending s). w (jid j) = Some j \<and> 0 \<le> nb_requested_resources j \<and>
        nb_requested_resources j \<le> fc_nb_machines s \<and> fc_allocations s (jid j) = None) \<and>
     distinct (map jid (fc_pending s))"

text \<open>What the simulator guarantees of the identifiers it sends in one call.\<close>

definition fcfs_input :: "workload \<Rightarrow> job_id list \<Rightarrow> job_id list \<Rightarrow> fcfs \<Rightarrow> bool" where
  "fcfs_input w ended released s \<longleftrightarrow>
     distinct ended \<and> set ended \<subseteq> dom (fc_allocations s) \<and> distinct released \<and>
     (\<forall>i \<in> set released. i \<notin> dom (fc_allocations s) \<and> i \<notin> jid ` set (fc_pending s) \<and>
        (\<exists>j. w i = Some j \<and> jid j = i \<and> 0 \<le> nb_requested_resources j))"

text \<open>The head of the queue asks for more machines than are free.\<close>

definition head_blocked :: "fcfs \<Rightarrow> bool" where
  "head_blocked s \<longleftrightarrow> fc_pending s = [] \<or> fc_nb_available s < nb_requested_resources (hd (fc_pending s))"

definition too_big :: "workload \<Rightarrow> int \<Rightarrow> job_id \<Rightarrow> bool" where
  "too_big w n i \<longleftrightarrow> (case w i of None \<Rightarrow> False | Some j \<Rightarrow> n < nb_requested_resources j)"

subsection \<open>Lemmas on the operations\<close>

lemma jobs_ended_ok:
  "fcfs_ok w s \<Longrightarrow> distinct ended \<Longrightarrow> set ended \<subseteq> dom (fc_allocations s) \<Longrightarrow>
     \<exists>s'. fold_run (fcfs_job_ended w) ended s = Some s' \<and> fcfs_ok w s' \<and>
       fc_pending s' = fc_pending s \<and> fc_decisions s' = fc_decisions s \<and>
       fc_nb_machines s' = fc_nb_machines s \<and>
       fc_allocations s' = fc_allocations s |` (- set ended)"
proof (induction ended arbitrary: s)
  case Nil
  then show ?case by simp
next
  case (Cons i ids)
  obtain A where A: "fc_allocations s i = Some A" using Cons.prems(3) by auto
  have ok: "pool_ok (fc_nb_machines s) (fc_available s) (fc_allocations s)"
    "fc_nb_available s = int (card (fc_available s))"
    and run: "\<And>i A. fc_allocations s i = Some A \<Longrightarrow>
        \<exists>j. w i = Some j \<and> jid j = i \<and> nb_requested_resources j = int (card A)"
    using Cons.prems(1) unfolding fcfs_ok_def by blast+
  obtain j where j: "w i = Some j" "nb_requested_resources j = int (card A)" using run[OF A] by blast
  define s1 where "s1 = s\<lparr>fc_available := fc_available s \<union> alloc_of (fc_allocations s) i,
       fc_nb_available := fc_nb_available s + nb_requested_resources j,
       fc_allocations := (fc_allocations s)(i := None)\<rparr>"
  have e: "fcfs_job_ended w i s = Some s1" using j(1) by (simp add: fcfs_job_ended_def s1_def)
  have cnt: "fc_nb_available s1 = int (card (fc_available s1))"
    using card_alloc_of[OF ok(1), of i] ok(2) j(2) A by (simp add: s1_def alloc_of_def)
  have "fcfs_ok w s1"
    using Cons.prems(1) pool_ok_end[OF ok(1), of i] cnt by (simp add: fcfs_ok_def s1_def)
  moreover have "set ids \<subseteq> dom (fc_allocations s1)" using Cons.prems(2,3) by (auto simp: s1_def)
  ultimately obtain s' where s': "fold_run (fcfs_job_ended w) ids s1 = Some s'" "fcfs_ok w s'"
    "fc_pending s' = fc_pending s1" "fc_decisions s' = fc_decisions s1"
    "fc_nb_machines s' = fc_nb_machines s1" "fc_allocations s' = fc_allocations s1 |` (- set ids)"
    using Cons.IH[of s1] Cons.prems(2) by auto
  have "fc_allocations s' = fc_allocations s |` (- set (i # ids))"
    unfolding s'(6) by (auto simp: s1_def restrict_map_def)
  then show ?case using e s' by (simp add: s1_def)
qed

lemma start_job_ok:
  assumes "fcfs_ok w s" "w (jid j) = Some j" "fc_allocations s (jid j) = None"
    and "ms \<subseteq> fc_available s" "int (card ms) = nb_requested_resources j"
    and "last_date (writer (fc_decisions s)) \<le> date"
    and "set js \<subseteq> set (fc_pending s)" "distinct (map jid js)" "jid j \<notin> jid ` set js"
  obtains s' where "fcfs_start_job date j ms s = Some s'" "fcfs_ok w (s'\<lparr>fc_pending := js\<rparr>)"
    "decided date [ExecuteJob (jid j) ms []] (fc_decisions s) (fc_decisions s')"
    "fc_pending s' = fc_pending s" "fc_nb_machines s' = fc_nb_machines s"
    "fc_allocations s' = (fc_allocations s)(jid j \<mapsto> ms)"
    "fc_available s' = fc_available s - ms"
proof -
  obtain d where d: "add_execute_job (jid j) ms date [] (fc_decisions s) = Some d"
    "decided date [ExecuteJob (jid j) ms []] (fc_decisions s) d"
    using decided_one[OF assms(6)] by (auto simp: decision_simps)
  define s' where "s' = s\<lparr>fc_decisions := d, fc_available := fc_available s - ms,
       fc_nb_available := fc_nb_available s - nb_requested_resources j,
       fc_allocations := (fc_allocations s)(jid j \<mapsto> ms)\<rparr>"
  have ok: "pool_ok (fc_nb_machines s) (fc_available s) (fc_allocations s)"
    "fc_nb_available s = int (card (fc_available s))"
    using assms(1) unfolding fcfs_ok_def by blast+
  have "int (card (fc_available s - ms)) = int (card (fc_available s)) - int (card ms)"
    using card_Diff_subset_int[OF pool_ok_subset(2)[OF ok(1)] assms(4)] .
  then have "fcfs_ok w (s'\<lparr>fc_pending := js\<rparr>)"
    using assms pool_ok_start[OF ok(1) assms(4,3)] ok(2)
    by (auto simp: fcfs_ok_def s'_def image_iff)
  then show thesis using that[of s'] d by (simp add: fcfs_start_job_def s'_def)
qed

text \<open>The jobs the loop starts are a prefix of the pending jobs, and it stops at one refused.\<close>

lemma drain_ok:
  assumes "resource_selector fit"
  shows "fcfs_ok w s \<Longrightarrow> fc_pending s = js \<Longrightarrow> last_date (writer (fc_decisions s)) \<le> date \<Longrightarrow>
    \<exists>s' es. fcfs_drain fit date js s = Some s' \<and> fcfs_ok w s' \<and>
      decided date es (fc_decisions s) (fc_decisions s') \<and> rejected es = [] \<and>
      fc_nb_machines s' = fc_nb_machines s \<and>
      map fst (executed es) @ map jid (fc_pending s') = map jid js \<and>
      fc_allocations s' = grant (executed es) (fc_allocations s) \<and>
      (fc_pending s' \<noteq> [] \<longrightarrow> fit (hd (fc_pending s')) (fc_available s') = Some None)"
proof (induction js arbitrary: s)
  case Nil
  then show ?case by (intro exI[of _ s] exI[of _ "[]"]) simp
next
  case (Cons j js)
  have j: "w (jid j) = Some j" "0 \<le> nb_requested_resources j" "fc_allocations s (jid j) = None"
    and js: "distinct (map jid js)" "jid j \<notin> jid ` set js" "set js \<subseteq> set (fc_pending s)"
    and fin: "finite (fc_available s)"
    using Cons.prems(1,2) pool_ok_subset(2) unfolding fcfs_ok_def by auto
  show ?case
  proof (rule resource_selector.fit_cases[OF assms fin j(2)])
    assume "fit j (fc_available s) = Some None"
    then show ?case using Cons.prems(1,2) by (intro exI[of _ s] exI[of _ "[]"]) simp
  next
    fix ms
    assume fit: "fit j (fc_available s) = Some (Some ms)" "ms \<subseteq> fc_available s"
      "int (card ms) = nb_requested_resources j"
    obtain s1 where s1: "fcfs_start_job date j ms s = Some s1" "fcfs_ok w (s1\<lparr>fc_pending := js\<rparr>)"
      "decided date [ExecuteJob (jid j) ms []] (fc_decisions s) (fc_decisions s1)"
      "fc_nb_machines s1 = fc_nb_machines s" "fc_allocations s1 = (fc_allocations s)(jid j \<mapsto> ms)"
      by (rule start_job_ok[OF Cons.prems(1) j(1,3) fit(2,3) Cons.prems(3) js(3,1,2)])
    let ?s1 = "s1\<lparr>fc_pending := js\<rparr>"
    have "last_date (writer (fc_decisions ?s1)) \<le> date"
      using decided_last_date[OF s1(3) Cons.prems(3)] by simp
    then obtain s' es where s': "fcfs_drain fit date js ?s1 = Some s'" "fcfs_ok w s'"
      "decided date es (fc_decisions ?s1) (fc_decisions s')" "rejected es = []"
      "fc_nb_machines s' = fc_nb_machines ?s1"
      "map fst (executed es) @ map jid (fc_pending s') = map jid js"
      "fc_allocations s' = grant (executed es) (fc_allocations ?s1)"
      "fc_pending s' \<noteq> [] \<longrightarrow> fit (hd (fc_pending s')) (fc_available s') = Some None"
      using Cons.IH[OF s1(2)] by auto
    have "decided date (ExecuteJob (jid j) ms [] # es) (fc_decisions s) (fc_decisions s')"
      using decided_trans[OF s1(3), of es "fc_decisions s'"] s'(3) by simp
    then show ?case
      by (intro exI[of _ s'] exI[of _ "ExecuteJob (jid j) ms [] # es"] conjI)
        (use fit(1) s1 s' in simp_all)
  qed
qed

text \<open>
  The released jobs: too large ones are rejected; the others keep their order behind the pending
  jobs, and only jobs in front of the queue are started.
\<close>

lemma job_released_ok:
  assumes "interval_set lib" "fcfs_ok w s" "last_date (writer (fc_decisions s)) \<le> date"
    and "w i = Some j" "jid j = i" "0 \<le> nb_requested_resources j"
    and "fc_allocations s i = None" "i \<notin> jid ` set (fc_pending s)"
  obtains s' es where "fcfs_job_released lib w date i s = Some s'" "fcfs_ok w s'"
    "decided date es (fc_decisions s) (fc_decisions s')" "fc_nb_machines s' = fc_nb_machines s"
    "map fst (executed es) @ map jid (fc_pending s') =
       map jid (fc_pending s) @ (if too_big w (fc_nb_machines s) i then [] else [i])"
    "rejected es = (if too_big w (fc_nb_machines s) i then [i] else [])"
    "fc_allocations s' = grant (executed es) (fc_allocations s)"
    "fc_pending s \<noteq> [] \<Longrightarrow> hd (fc_pending s') = hd (fc_pending s) \<and> fc_nb_available s' = fc_nb_available s"
    "fc_pending s = [] \<Longrightarrow> fc_pending s' = [] \<or>
       fc_nb_available s' < nb_requested_resources (hd (fc_pending s'))"
proof -
  have push: "fcfs_ok w (s\<lparr>fc_pending := fc_pending s @ [j]\<rparr>)" if "nb_requested_resources j \<le> fc_nb_machines s"
    using assms that by (auto simp: fcfs_ok_def)
  show thesis
  proof (cases "fc_nb_machines s < nb_requested_resources j")
    case True
    obtain d where d: "add_reject_job i date (fc_decisions s) = Some d"
      "decided date [RejectJob i] (fc_decisions s) d"
      using decided_one[OF assms(3)] by (auto simp: decision_simps)
    have "fcfs_ok w (s\<lparr>fc_decisions := d\<rparr>)" using assms(2) by (simp add: fcfs_ok_def)
    then show thesis using that[of "s\<lparr>fc_decisions := d\<rparr>" "[RejectJob i]"] d True assms(4)
      by (simp add: fcfs_job_released_def too_big_def fcfs_ok_def)
  next
    case False
    show thesis
    proof (cases "fc_pending s = [] \<and> nb_requested_resources j \<le> fc_nb_available s")
      case True
      let ?ms = "left_of lib (fc_available s) (nb_requested_resources j)"
      have fin: "finite (fc_available s)" and c: "fc_nb_available s = int (card (fc_available s))"
        using assms(2) pool_ok_subset(2) unfolding fcfs_ok_def by blast+
      have ms: "?ms \<subseteq> fc_available s" "int (card ?ms) = nb_requested_resources j"
        using interval_set.left_subset[OF assms(1) fin] interval_set.left_card[OF assms(1) fin assms(6)]
          True c by auto
      have wj: "w (jid j) = Some j" "fc_allocations s (jid j) = None" using assms(4,5,7) by simp_all
      obtain s' where s': "fcfs_start_job date j ?ms s = Some s'" "fcfs_ok w (s'\<lparr>fc_pending := []\<rparr>)"
        "decided date [ExecuteJob (jid j) ?ms []] (fc_decisions s) (fc_decisions s')"
        "fc_pending s' = fc_pending s" "fc_nb_machines s' = fc_nb_machines s"
        "fc_allocations s' = (fc_allocations s)(jid j \<mapsto> ?ms)"
        by (rule start_job_ok[OF assms(2) wj ms assms(3), of "[]"]) auto
      have "s'\<lparr>fc_pending := []\<rparr> = s'" using s'(4) True by simp
      then have ok': "fcfs_ok w s'" using s'(2) by metis
      then show thesis
        using that[of s' "[ExecuteJob (jid j) ?ms []]"] ok' s'(1,3-6) True False assms(4,5)
        by (simp add: fcfs_job_released_def too_big_def)
    next
      case no: False
      have "fcfs_job_released lib w date i s = Some (s\<lparr>fc_pending := fc_pending s @ [j]\<rparr>)"
        using no False assms(4) by (auto simp: fcfs_job_released_def)
      moreover have "fcfs_ok w (s\<lparr>fc_pending := fc_pending s @ [j]\<rparr>)" using push False by simp
      ultimately show thesis
        using that[of "s\<lparr>fc_pending := fc_pending s @ [j]\<rparr>" "[]"] no False assms(4,5)
        by (auto simp: too_big_def not_le)
    qed
  qed
qed

definition fresh :: "workload \<Rightarrow> fcfs \<Rightarrow> job_id \<Rightarrow> bool" where
  "fresh w s i \<longleftrightarrow> fc_allocations s i = None \<and> i \<notin> jid ` set (fc_pending s) \<and>
     (\<exists>j. w i = Some j \<and> jid j = i \<and> 0 \<le> nb_requested_resources j)"

lemma jobs_released_ok:
  assumes "interval_set lib"
  shows "fcfs_ok w s \<Longrightarrow> last_date (writer (fc_decisions s)) \<le> date \<Longrightarrow> distinct released \<Longrightarrow>
    \<forall>i \<in> set released. fresh w s i \<Longrightarrow>
    \<exists>s' es. fold_run (fcfs_job_released lib w date) released s = Some s' \<and> fcfs_ok w s' \<and>
      decided date es (fc_decisions s) (fc_decisions s') \<and> fc_nb_machines s' = fc_nb_machines s \<and>
      map fst (executed es) @ map jid (fc_pending s') =
        map jid (fc_pending s) @ filter (\<lambda>i. \<not> too_big w (fc_nb_machines s) i) released \<and>
      rejected es = filter (too_big w (fc_nb_machines s)) released \<and>
      fc_allocations s' = grant (executed es) (fc_allocations s) \<and>
      (head_blocked s \<longrightarrow> head_blocked s')"
proof (induction released arbitrary: s)
  case Nil
  then show ?case by (intro exI[of _ s] exI[of _ "[]"]) simp
next
  case (Cons i ids)
  have "fresh w s i" using Cons.prems(4) by simp
  then obtain j where j: "w i = Some j" "jid j = i" "0 \<le> nb_requested_resources j"
    "fc_allocations s i = None" "i \<notin> jid ` set (fc_pending s)" unfolding fresh_def by blast
  obtain s1 es where s1: "fcfs_job_released lib w date i s = Some s1" "fcfs_ok w s1"
    "decided date es (fc_decisions s) (fc_decisions s1)" "fc_nb_machines s1 = fc_nb_machines s"
    "map fst (executed es) @ map jid (fc_pending s1) =
       map jid (fc_pending s) @ (if too_big w (fc_nb_machines s) i then [] else [i])"
    "rejected es = (if too_big w (fc_nb_machines s) i then [i] else [])"
    "fc_allocations s1 = grant (executed es) (fc_allocations s)"
    and hd1: "fc_pending s \<noteq> [] \<Longrightarrow> hd (fc_pending s1) = hd (fc_pending s) \<and> fc_nb_available s1 = fc_nb_available s"
    and hd2: "fc_pending s = [] \<Longrightarrow> fc_pending s1 = [] \<or>
       fc_nb_available s1 < nb_requested_resources (hd (fc_pending s1))"
    by (rule job_released_ok[OF assms Cons.prems(1,2) j]) blast
  have ids: "set (map fst (executed es)) \<union> jid ` set (fc_pending s1) \<subseteq> insert i (jid ` set (fc_pending s))"
    using arg_cong[OF s1(5), of set] by (auto split: if_splits)
  have "\<forall>k \<in> set ids. fresh w s1 k"
  proof
    fix k
    assume k: "k \<in> set ids"
    then have f: "fresh w s k" "k \<noteq> i" using Cons.prems(3,4) by auto
    then have "k \<notin> fst ` set (executed es)" "k \<notin> jid ` set (fc_pending s1)"
      using ids unfolding fresh_def by auto
    then show "fresh w s1 k" using f(1) s1(7) by (simp add: fresh_def grant_other)
  qed
  then obtain s' fs where s': "fold_run (fcfs_job_released lib w date) ids s1 = Some s'" "fcfs_ok w s'"
    "decided date fs (fc_decisions s1) (fc_decisions s')" "fc_nb_machines s' = fc_nb_machines s1"
    "map fst (executed fs) @ map jid (fc_pending s') =
        map jid (fc_pending s1) @ filter (\<lambda>i. \<not> too_big w (fc_nb_machines s1) i) ids"
    "rejected fs = filter (too_big w (fc_nb_machines s1)) ids"
    "fc_allocations s' = grant (executed fs) (fc_allocations s1)" "head_blocked s1 \<longrightarrow> head_blocked s'"
    using Cons.IH[OF s1(2) decided_last_date[OF s1(3) Cons.prems(2)]] Cons.prems(3) by auto
  have order: "map fst (executed (es @ fs)) @ map jid (fc_pending s') =
        map jid (fc_pending s) @ filter (\<lambda>i. \<not> too_big w (fc_nb_machines s) i) (i # ids)"
    using s1(4,5) s'(5) by (simp split: if_splits)
  have "rejected (es @ fs) = filter (too_big w (fc_nb_machines s)) (i # ids)"
    using s1(4,6) s'(6) by simp
  moreover have "head_blocked s \<longrightarrow> head_blocked s'"
    using s'(8) hd1 hd2 unfolding head_blocked_def by (metis)
  ultimately show ?case
    using s1(1,4,7) s'(1,2,4,7) decided_trans[OF s1(3) s'(3)] order
    by (intro exI[of _ s'] exI[of _ "es @ fs"]) (simp add: grant_append)
qed

lemma make_decisions_ok:
  assumes "resource_selector fit" "interval_set lib" "fcfs_ok w s" "fcfs_input w ended released s"
    and "last_date (writer (fc_decisions s)) \<le> date"
  obtains s' es where "fcfs_make_decisions lib fit w ended released date s = Some s'" "fcfs_ok w s'"
    "decided date es (fc_decisions s) (fc_decisions s')" "fc_nb_machines s' = fc_nb_machines s"
    "map fst (executed es) @ map jid (fc_pending s') =
       map jid (fc_pending s) @ filter (\<lambda>i. \<not> too_big w (fc_nb_machines s) i) released"
    "rejected es = filter (too_big w (fc_nb_machines s)) released"
    "fc_allocations s' = grant (executed es) (fc_allocations s |` (- set ended))"
    "greedy_selector fit \<Longrightarrow> (ended = [] \<longrightarrow> head_blocked s) \<Longrightarrow> head_blocked s'"
proof -
  note I = assms(4)[unfolded fcfs_input_def]
  have I1: "distinct ended" "set ended \<subseteq> dom (fc_allocations s)" "distinct released" using I by blast+
  obtain s1 where s1: "fold_run (fcfs_job_ended w) ended s = Some s1" "fcfs_ok w s1"
    "fc_pending s1 = fc_pending s" "fc_decisions s1 = fc_decisions s"
    "fc_nb_machines s1 = fc_nb_machines s" "fc_allocations s1 = fc_allocations s |` (- set ended)"
    using jobs_ended_ok[OF assms(3) I1(1,2)] by blast
  have d1: "last_date (writer (fc_decisions s1)) \<le> date" using s1(4) assms(5) by simp
  have fr1: "fresh w s1 i" if "i \<in> set released" for i
    using that I s1(3,6) unfolding fresh_def by (auto simp: restrict_map_def)
  obtain s2 es where s2: "(if ended \<noteq> [] then fcfs_drain fit date (fc_pending s1) s1 else Some s1) = Some s2"
    "fcfs_ok w s2" "decided date es (fc_decisions s1) (fc_decisions s2)" "rejected es = []"
    "fc_nb_machines s2 = fc_nb_machines s1"
    "map fst (executed es) @ map jid (fc_pending s2) = map jid (fc_pending s1)"
    "fc_allocations s2 = grant (executed es) (fc_allocations s1)"
    "greedy_selector fit \<Longrightarrow> (ended = [] \<longrightarrow> head_blocked s) \<Longrightarrow> head_blocked s2"
  proof (cases "ended = []")
    case True
    then have "s1 = s" using s1(1) by simp
    then show thesis using that[of s1 "[]"] s1(2) True by simp
  next
    case False
    obtain s2 es where s2: "fcfs_drain fit date (fc_pending s1) s1 = Some s2" "fcfs_ok w s2"
      "decided date es (fc_decisions s1) (fc_decisions s2)" "rejected es = []"
      "fc_nb_machines s2 = fc_nb_machines s1"
      "map fst (executed es) @ map jid (fc_pending s2) = map jid (fc_pending s1)"
      "fc_allocations s2 = grant (executed es) (fc_allocations s1)"
      "fc_pending s2 \<noteq> [] \<longrightarrow> fit (hd (fc_pending s2)) (fc_available s2) = Some None"
      using drain_ok[OF assms(1) s1(2) refl d1] by blast
    have "head_blocked s2" if g: "greedy_selector fit"
    proof (cases "fc_pending s2 = []")
      case ne: False
      have fin: "finite (fc_available s2)" "fc_nb_available s2 = int (card (fc_available s2))"
        using s2(2) pool_ok_subset(2) unfolding fcfs_ok_def by blast+
      have h: "0 \<le> nb_requested_resources (hd (fc_pending s2))"
        using s2(2) hd_in_set[OF ne] unfolding fcfs_ok_def by blast
      show ?thesis
        using greedy_selector.fit_iff[OF g fin(1) h] s2(8) ne fin(2) by (simp add: head_blocked_def)
    qed (simp add: head_blocked_def)
    then show thesis using that[of s2 es] s2(1-7) False by simp
  qed
  have ids: "fst ` set (executed es) \<union> jid ` set (fc_pending s2) = jid ` set (fc_pending s)"
    using arg_cong[OF s2(6), of set] s1(3) by auto
  have "\<forall>i \<in> set released. fresh w s2 i"
  proof
    fix i
    assume i: "i \<in> set released"
    have "i \<notin> jid ` set (fc_pending s)" using fr1[OF i] s1(3) by (simp add: fresh_def)
    then have "i \<notin> fst ` set (executed es)" "i \<notin> jid ` set (fc_pending s2)" using ids by auto
    then show "fresh w s2 i" using fr1[OF i] s2(7) by (simp add: fresh_def grant_other)
  qed
  then obtain s' fs where s': "fold_run (fcfs_job_released lib w date) released s2 = Some s'" "fcfs_ok w s'"
      "decided date fs (fc_decisions s2) (fc_decisions s')" "fc_nb_machines s' = fc_nb_machines s2"
      "map fst (executed fs) @ map jid (fc_pending s') =
        map jid (fc_pending s2) @ filter (\<lambda>i. \<not> too_big w (fc_nb_machines s2) i) released"
      "rejected fs = filter (too_big w (fc_nb_machines s2)) released"
      "fc_allocations s' = grant (executed fs) (fc_allocations s2)" "head_blocked s2 \<longrightarrow> head_blocked s'"
    using jobs_released_ok[OF assms(2) s2(2) decided_last_date[OF s2(3) d1] I1(3)] by auto
  have order: "map fst (executed (es @ fs)) @ map jid (fc_pending s') =
     map jid (fc_pending s) @ filter (\<lambda>i. \<not> too_big w (fc_nb_machines s) i) released"
    using s2(5,6) s'(5) s1(3,5) by simp
  show thesis
    by (rule that[of s' "es @ fs", OF _ s'(2) _ _ order])
      (use s1 s2 s' decided_trans[OF s2(3) s'(3)] in \<open>simp_all add: fcfs_make_decisions_def grant_append\<close>)
qed

subsection \<open>Properties\<close>

text \<open>
  C18: first come, first served.  One call of \<^verbatim>\<open>FCFS::make_decisions\<close> with correct inputs never
  aborts and keeps the partition of the machines.  The jobs it starts followed by the jobs still
  waiting are exactly the jobs that were waiting followed by the released jobs that fit the
  platform, in this order: no job overtakes another.  Exactly the too large jobs are rejected, and
  every job it starts holds the machines of its decision, as many as it asked for.
\<close>

theorem fcfs_keeps_order:
  assumes "resource_selector fit" "interval_set lib" "fcfs_ok w s" "fcfs_input w ended released s"
    and "last_date (writer (fc_decisions s)) \<le> date"
  shows "\<exists>s' es. fcfs_make_decisions lib fit w ended released date s = Some s' \<and> fcfs_ok w s' \<and>
    decided date es (fc_decisions s) (fc_decisions s') \<and>
    map fst (executed es) @ map jid (fc_pending s') =
      map jid (fc_pending s) @ filter (\<lambda>i. \<not> too_big w (fc_nb_machines s) i) released \<and>
    rejected es = filter (too_big w (fc_nb_machines s)) released \<and>
    fc_allocations s' = grant (executed es) (fc_allocations s |` (- set ended))"
  by (rule make_decisions_ok[OF assms]) (intro exI conjI; assumption)

text \<open>The leftmost policy is the basic selector: the two loops do the same.\<close>

lemma fast_drain_eq:
  assumes "interval_set lib"
  shows "fcfs_ok w s \<Longrightarrow> fc_pending s = js \<Longrightarrow> last_date (writer (fc_decisions s)) \<le> date \<Longrightarrow>
    fcfs_fast_drain lib date js s = fcfs_drain (basic_fit lib) date js s"
proof (induction js arbitrary: s)
  case Nil
  then show ?case by simp
next
  case (Cons j js)
  have j: "w (jid j) = Some j" "0 \<le> nb_requested_resources j" "fc_allocations s (jid j) = None"
    and js: "distinct (map jid js)" "jid j \<notin> jid ` set js" "set js \<subseteq> set (fc_pending s)"
    and fin: "finite (fc_available s)" and c: "fc_nb_available s = int (card (fc_available s))"
    using Cons.prems(1,2) pool_ok_subset(2) unfolding fcfs_ok_def by auto
  show ?case
  proof (cases "nb_requested_resources j \<le> fc_nb_available s")
    case False
    then show ?thesis using c by (simp add: basic_fit_def)
  next
    case True
    let ?ms = "left_of lib (fc_available s) (nb_requested_resources j)"
    have ms: "?ms \<subseteq> fc_available s" "int (card ?ms) = nb_requested_resources j"
      using interval_set.left_subset[OF assms fin] interval_set.left_card[OF assms fin j(2)] True c by auto
    obtain s1 where s1: "fcfs_start_job date j ?ms s = Some s1" "fcfs_ok w (s1\<lparr>fc_pending := js\<rparr>)"
      "decided date [ExecuteJob (jid j) ?ms []] (fc_decisions s) (fc_decisions s1)"
      by (rule start_job_ok[OF Cons.prems(1) j(1,3) ms Cons.prems(3) js(3,1,2)])
    have "fcfs_fast_drain lib date js (s1\<lparr>fc_pending := js\<rparr>)
        = fcfs_drain (basic_fit lib) date js (s1\<lparr>fc_pending := js\<rparr>)"
      using Cons.IH[OF s1(2)] decided_last_date[OF s1(3) Cons.prems(3)] by simp
    moreover have "basic_fit lib j (fc_available s) = Some (Some ?ms)"
      using True c ms(2) by (simp add: basic_fit_def Let_def)
    ultimately show ?thesis using True s1(1) by simp
  qed
qed

text \<open>
  C19: \<^verbatim>\<open>FCFSFast\<close> takes the same decisions as \<^verbatim>\<open>FCFS\<close> with the basic resource selector.
\<close>

theorem fcfs_fast_is_fcfs_basic:
  assumes "interval_set lib" "fcfs_ok w s" "fcfs_input w ended released s"
    and "last_date (writer (fc_decisions s)) \<le> date"
  shows "fcfs_fast_make_decisions lib w ended released date s =
    fcfs_make_decisions lib (basic_fit lib) w ended released date s"
proof -
  have I: "distinct ended" "set ended \<subseteq> dom (fc_allocations s)"
    using assms(3) unfolding fcfs_input_def by blast+
  obtain s1 where s1: "fold_run (fcfs_job_ended w) ended s = Some s1" "fcfs_ok w s1"
    "fc_decisions s1 = fc_decisions s" using jobs_ended_ok[OF assms(2) I] by blast
  then show ?thesis using fast_drain_eq[OF assms(1) s1(2) refl, of date] assms(4)
    by (simp add: fcfs_fast_make_decisions_def fcfs_make_decisions_def)
qed

text \<open>
  C20: the fast scheduler never leaves the head of its queue waiting while enough machines are
  free, provided it did not before a call in which no job ended.
\<close>

theorem fcfs_fast_never_idles:
  assumes "interval_set lib" "fcfs_ok w s" "fcfs_input w ended released s"
    and "last_date (writer (fc_decisions s)) \<le> date" "ended = [] \<longrightarrow> head_blocked s"
  shows "\<exists>s'. fcfs_fast_make_decisions lib w ended released date s = Some s' \<and> head_blocked s'"
proof -
  have I: "distinct ended" "set ended \<subseteq> dom (fc_allocations s)"
    using assms(3) unfolding fcfs_input_def by blast+
  obtain s1 where s1: "fold_run (fcfs_job_ended w) ended s = Some s1" "fcfs_ok w s1"
    "fc_decisions s1 = fc_decisions s" using jobs_ended_ok[OF assms(2) I] by blast
  have g: "greedy_selector (basic_fit lib)" "resource_selector (basic_fit lib)"
    using basic_greedy[OF assms(1)] basic_selector[OF assms(1)] .
  then show ?thesis
    using s1 fast_drain_eq[OF assms(1) s1(2) refl, of date] assms(4,5) g
    by (auto simp: fcfs_fast_make_decisions_def fcfs_make_decisions_def
        elim!: make_decisions_ok[OF _ assms(1-4)])
qed

subsection \<open>Examples\<close>

text \<open>
  Four machines, \<^verbatim>\<open>a\<close> running on two of them, \<^verbatim>\<open>b\<close> waiting for three; then \<^verbatim>\<open>a\<close> ends and the
  small \<^verbatim>\<open>c\<close> and the too large \<^verbatim>\<open>d\<close> are released.
\<close>

definition example_workload :: workload where
  "example_workload = [''a'' \<mapsto> plain_job ''a'' 2 10, ''b'' \<mapsto> plain_job ''b'' 3 10,
     ''c'' \<mapsto> plain_job ''c'' 1 10, ''d'' \<mapsto> plain_job ''d'' 9 10]"

definition example_fcfs :: fcfs where
  "example_fcfs = \<lparr>fc_nb_machines = 4, fc_available = {2, 3}, fc_nb_available = 2,
     fc_pending = [plain_job ''b'' 3 10], fc_allocations = [''a'' \<mapsto> {0, 1}],
     fc_decisions = new_decisions\<rparr>"

lemma example_fcfs_ok:
  "fcfs_ok example_workload example_fcfs"
  "fcfs_input example_workload [''a''] [''c'', ''d''] example_fcfs"
  "last_date (writer (fc_decisions example_fcfs)) \<le> 5" "head_blocked example_fcfs"
proof -
  have "pool_ok 4 {2, 3} [''a'' \<mapsto> {0, 1}]" unfolding pool_ok_def by (auto split: if_splits)
  then show "fcfs_ok example_workload example_fcfs"
    by (auto simp: fcfs_ok_def example_fcfs_def example_workload_def split: if_splits)
qed (auto simp: fcfs_input_def example_fcfs_def example_workload_def new_decisions_def
    new_writer_def head_blocked_def)

theorem fcfs_keeps_order_witness:
  "\<exists>s' es. fcfs_make_decisions std_lib (contiguous_fit std_lib) example_workload [''a''] [''c'', ''d''] 5
      example_fcfs = Some s' \<and> map fst (executed es) @ map jid (fc_pending s') = [''b'', ''c''] \<and>
      rejected es = [''d'']"
  using fcfs_keeps_order[OF std.contiguous.resource_selector_axioms std.interval_set_axioms example_fcfs_ok(1-3)]
  by (auto simp: example_fcfs_def example_workload_def too_big_def)

theorem fcfs_fast_is_fcfs_basic_witness:
  "fcfs_fast_make_decisions std_lib example_workload [''a''] [''c'', ''d''] 5 example_fcfs =
     fcfs_make_decisions std_lib (basic_fit std_lib) example_workload [''a''] [''c'', ''d''] 5 example_fcfs"
  by (rule fcfs_fast_is_fcfs_basic[OF std.interval_set_axioms example_fcfs_ok(1-3)])

theorem fcfs_fast_never_idles_witness:
  "\<exists>s'. fcfs_fast_make_decisions std_lib example_workload [''a''] [''c'', ''d''] 5 example_fcfs = Some s' \<and>
     head_blocked s'"
  by (rule fcfs_fast_never_idles[OF std.interval_set_axioms example_fcfs_ok(1-3)]) simp

definition split_platform :: fcfs where
  "split_platform = \<lparr>fc_nb_machines = 3, fc_available = {0, 2}, fc_nb_available = 2,
     fc_pending = [], fc_allocations = [''c'' \<mapsto> {1}], fc_decisions = new_decisions\<rparr>"

text \<open>
  \<^verbatim>\<open>FCFS\<close> does not respect its resource selector for a job released while the queue is
  empty: with the contiguous policy and the machines 0 and 2 free, a job of two machines, which
  the selector refuses, is started on 0 and 2.
\<close>

theorem fcfs_bypasses_selector:
  "contiguous_fit std_lib (plain_job ''a'' 2 10) (fc_available split_platform) = Some None \<and>
   (\<exists>s'. fcfs_make_decisions std_lib (contiguous_fit std_lib) example_workload [] [''a''] 0 split_platform
      = Some s' \<and> fc_allocations s' ''a'' = Some {0, 2})"
proof
  have "\<not> ({l..u} \<subseteq> {0, 2::nat} \<and> int (card {l..u}) = 2)" for l u :: nat
  proof
    assume a: "{l..u} \<subseteq> {0, 2} \<and> int (card {l..u}) = 2"
    then have u: "u = Suc l" by (simp; linarith)
    then have "{l..u} \<subseteq> {0, 2}" "l \<in> {l..u}" "Suc l \<in> {l..u}" using a by simp_all
    then have "l \<in> {0, 2} \<and> Suc l \<in> {0, 2}" by blast
    then show False by auto
  qed
  then show "contiguous_fit std_lib (plain_job ''a'' 2 10) (fc_available split_platform) = Some None"
    using std.contiguous_fit_complete[of "{0, 2}" "plain_job ''a'' 2 10"]
    by (simp add: split_platform_def)
  have "left_of std_lib {0, 2} 2 = {0, 2::nat}" by (rule left_of_all[OF std.interval_set_axioms]) simp_all
  then show "\<exists>s'. fcfs_make_decisions std_lib (contiguous_fit std_lib) example_workload [] [''a''] 0 split_platform
      = Some s' \<and> fc_allocations s' ''a'' = Some {0, 2}"
    by (simp add: fcfs_make_decisions_def fcfs_job_released_def example_workload_def split_platform_def
        fcfs_start_job_def add_execute_job_def append_execute_job_def on_writer_def append_event_def
        new_decisions_def new_writer_def)
qed

end
