(* ===== verification/Sim_Context.thy ===== *)
theory Sim_Context
  imports Json
begin

text \<open>
  The data of the simulator \<^verbatim>\<open>batsim4\<close> that its protocol and its server work on: job identifiers
  and the parts of their names (\<^verbatim>\<open>jobs.cpp\<close>, \<^verbatim>\<open>batsim_tools.cpp\<close>), job states, jobs, profiles
  and workloads (\<^verbatim>\<open>jobs.cpp\<close>, \<^verbatim>\<open>profiles.cpp\<close>, \<^verbatim>\<open>workload.cpp\<close>).  A failed \<^verbatim>\<open>xbt_assert\<close>,
  an exception that leaves the process and a null dereference are the run \<open>None\<close>.
\<close>

subsection \<open>Job identifiers\<close>

text \<open>
  \<^verbatim>\<open>boost::split\<close> with \<^verbatim>\<open>token_compress_on\<close>: adjacent separators count once, so only the first
  and the last token can be empty.
\<close>

fun drop_inner_empty :: "string list \<Rightarrow> string list" where
  "drop_inner_empty (x # y # ys) =
     (if x = [] then drop_inner_empty (y # ys) else x # drop_inner_empty (y # ys))"
| "drop_inner_empty xs = xs"

definition split_compress :: "char \<Rightarrow> string \<Rightarrow> string list" where
  "split_compress c s = (case split_on c s of [] \<Rightarrow> [] | t # ts \<Rightarrow> t # drop_inner_empty ts)"

record job_identifier =
  workload_name :: string
  job_name :: string
  job_number :: int

definition representation :: "job_identifier \<Rightarrow> string" where
  "representation ji = workload_name ji @ ''!'' @ job_name ji"

definition is_lexically_valid :: "job_identifier \<Rightarrow> bool" where
  "is_lexically_valid ji \<longleftrightarrow> CHR ''!'' \<notin> set (workload_name ji) \<and> CHR ''!'' \<notin> set (job_name ji)"

text \<open>The two constructors; the second one reads a string such as \<^verbatim>\<open>"w0!42"\<close>.\<close>

definition make_identifier :: "string \<Rightarrow> string \<Rightarrow> int \<Rightarrow> job_identifier run" where
  "make_identifier w n k = do {
     let ji = \<lparr>workload_name = w, job_name = n, job_number = k\<rparr>;
     assertion (is_lexically_valid ji);
     Some ji }"

definition job_identifier :: "string \<Rightarrow> job_identifier run" where
  "job_identifier s =
     (case split_compress CHR ''!'' s of
        [w, n] \<Rightarrow> do { k \<leftarrow> stoi n; make_identifier w n k }
      | _ \<Rightarrow> None)"

definition identifier_less :: "job_identifier \<Rightarrow> job_identifier \<Rightarrow> bool" where
  "identifier_less a b \<longleftrightarrow> representation a < representation b"

text \<open>\<^verbatim>\<open>get_job_parts\<close>: a name is \<^verbatim>\<open>workload!number#resubmit$checkpoint\<close>.\<close>

record job_parts =
  p_workload :: string
  p_job_number :: int
  p_job_resubmit :: int
  p_job_checkpoint :: int
  str_workload :: string
  str_job_number :: string
  str_job_resubmit :: string
  str_job_checkpoint :: string

definition find_char :: "char \<Rightarrow> string \<Rightarrow> nat option" where
  "find_char c s = (if c \<in> set s then Some (length (takeWhile (\<lambda>x. x \<noteq> c) s)) else None)"

text \<open>
  \<^verbatim>\<open>substr(pos, n)\<close>; the code computes the count as \<open>pos\<close> minus the end, an unsigned difference
  that wraps around at \<open>2 ^ 64\<close> unless the part is empty.
\<close>

definition substr_to :: "string \<Rightarrow> nat \<Rightarrow> nat \<Rightarrow> string" where
  "substr_to s pos stop = take (nat ((int pos - int stop) mod 2 ^ 64)) (drop pos s)"

definition get_job_parts :: "string \<Rightarrow> job_parts run" where
  "get_job_parts s = do {
     checkpoint \<leftarrow> (case find_char CHR ''$'' s of
         Some d \<Rightarrow> stoi (drop (Suc d) s) | None \<Rightarrow> Some (- 1));
     let dollar = (case find_char CHR ''$'' s of Some d \<Rightarrow> d | None \<Rightarrow> length s);
     resubmit \<leftarrow> (case find_char CHR ''#'' s of
         Some p \<Rightarrow> stoi (substr_to s (Suc p) dollar) | None \<Rightarrow> Some (- 1));
     let pound = (case find_char CHR ''#'' s of Some p \<Rightarrow> p | None \<Rightarrow> dollar);
     number \<leftarrow> (case find_char CHR ''!'' s of
         Some e \<Rightarrow> stoi (substr_to s (Suc e) pound) | None \<Rightarrow> stoi (take pound s));
     let w = (case find_char CHR ''!'' s of Some e \<Rightarrow> take e s | None \<Rightarrow> ''null'');
     Some \<lparr>p_workload = w, p_job_number = number, p_job_resubmit = resubmit,
       p_job_checkpoint = checkpoint,
       str_workload = (if w = ''null'' then [] else w @ ''!''),
       str_job_number = show_int number,
       str_job_resubmit = (if resubmit = - 1 then [] else ''#'' @ show_int resubmit),
       str_job_checkpoint = (if checkpoint = - 1 then [] else ''$'' @ show_int checkpoint)\<rparr> }"

subsection \<open>Job states\<close>

datatype job_state =
    JOB_STATE_NOT_SUBMITTED | JOB_STATE_SUBMITTED | JOB_STATE_RUNNING
  | JOB_STATE_COMPLETED_SUCCESSFULLY | JOB_STATE_COMPLETED_FAILED
  | JOB_STATE_COMPLETED_WALLTIME_REACHED | JOB_STATE_COMPLETED_KILLED | JOB_STATE_REJECTED

fun job_state_to_string :: "job_state \<Rightarrow> string" where
  "job_state_to_string JOB_STATE_NOT_SUBMITTED = ''NOT_SUBMITTED''"
| "job_state_to_string JOB_STATE_SUBMITTED = ''SUBMITTED''"
| "job_state_to_string JOB_STATE_RUNNING = ''RUNNING''"
| "job_state_to_string JOB_STATE_COMPLETED_SUCCESSFULLY = ''COMPLETED_SUCCESSFULLY''"
| "job_state_to_string JOB_STATE_COMPLETED_FAILED = ''COMPLETED_FAILED''"
| "job_state_to_string JOB_STATE_COMPLETED_WALLTIME_REACHED = ''COMPLETED_WALLTIME_REACHED''"
| "job_state_to_string JOB_STATE_COMPLETED_KILLED = ''COMPLETED_KILLED''"
| "job_state_to_string JOB_STATE_REJECTED = ''REJECTED''"

definition job_state_from_string :: "string \<Rightarrow> job_state run" where
  "job_state_from_string s =
     (if s = ''NOT_SUBMITTED'' then Some JOB_STATE_NOT_SUBMITTED
      else if s = ''SUBMITTED'' then Some JOB_STATE_SUBMITTED
      else if s = ''RUNNING'' then Some JOB_STATE_RUNNING
      else if s = ''COMPLETED_SUCCESSFULLY'' then Some JOB_STATE_COMPLETED_SUCCESSFULLY
      else if s = ''COMPLETED_FAILED'' then Some JOB_STATE_COMPLETED_FAILED
      else if s = ''COMPLETED_KILLED'' then Some JOB_STATE_COMPLETED_KILLED
      else if s = ''COMPLETED_WALLTIME_REACHED'' then Some JOB_STATE_COMPLETED_WALLTIME_REACHED
      else if s = ''REJECTED'' then Some JOB_STATE_REJECTED
      else None)"

fun is_complete :: "job_state \<Rightarrow> bool" where
  "is_complete JOB_STATE_COMPLETED_SUCCESSFULLY = True"
| "is_complete JOB_STATE_COMPLETED_FAILED = True"
| "is_complete JOB_STATE_COMPLETED_WALLTIME_REACHED = True"
| "is_complete JOB_STATE_COMPLETED_KILLED = True"
| "is_complete JOB_STATE_REJECTED = True"
| "is_complete _ = False"

lemma job_state_round_trip: "job_state_from_string (job_state_to_string st) = Some st"
  by (cases st) (simp_all add: job_state_from_string_def)

subsection \<open>Profiles, jobs, workloads\<close>

datatype profile_type =
    UNSET | DELAY | PARALLEL | PARALLEL_HOMOGENEOUS | PARALLEL_HOMOGENEOUS_TOTAL_AMOUNT | SMPI
  | USAGE_TRACE | SEQUENCE | PARALLEL_HOMOGENEOUS_PFS | DATA_STAGING | SCHEDULER_SEND | SCHEDULER_RECV

text \<open>Of a profile's data, the number of resources of a parallel task and the subprofiles of a
  sequence are kept.\<close>

datatype sim_profile = Sim_Profile (pf_name: string) (pf_type: profile_type)
    (pf_json: string) (pf_nb_res: int) (pf_sequence: "sim_profile list")

text \<open>What a checkpoint of the simulation recorded of a job, with its default values.\<close>

record checkpoint_job_data =
  ck_state :: int
  ck_progress :: rat
  ck_progress_time_cpu :: rat
  ck_allocation :: string
  ck_consumed_energy :: rat
  ck_jitter :: string
  ck_runtime :: rat
  ck_original_start :: rat
  ck_original_submit :: rat

definition no_checkpoint :: checkpoint_job_data where
  "no_checkpoint = \<lparr>ck_state = - 1, ck_progress = - 1, ck_progress_time_cpu = 0,
     ck_allocation = ''null'', ck_consumed_energy = - 1, ck_jitter = ''null'', ck_runtime = 0,
     ck_original_start = - 1, ck_original_submit = - 1\<rparr>"

text \<open>The fields of \<^verbatim>\<open>Job\<close> that the protocol and the server read or write.\<close>

record sim_job =
  sj_id :: job_identifier
  sj_state :: job_state
  sj_json :: string
  sj_profile :: sim_profile
  sj_requested_nb_res :: int
  sj_walltime :: rat
  sj_submission_time :: rat
  sj_starting_time :: rat
  sj_runtime :: rat
  sj_allocation :: machines
  sj_return_code :: int
  sj_kill_requested :: bool
  sj_metadata :: string
  sj_batsim_metadata :: string
  sj_incoming_messages :: "string list"
  sj_original_walltime :: rat
  sj_checkpoint :: checkpoint_job_data

text \<open>
  \<^verbatim>\<open>_jobs\<close> is keyed by the identifier, compared by its representation; \<^verbatim>\<open>_jobs_met\<close> keeps the
  identifiers of deleted jobs.  A profile that was removed keeps a null entry.
\<close>

record sim_workload =
  sw_name :: string
  sw_static :: bool
  sw_file :: string
  sw_jobs :: "string \<Rightarrow> sim_job option"
  sw_jobs_met :: "string set"
  sw_profiles :: "string \<Rightarrow> sim_profile option option"

type_synonym workloads = "string \<Rightarrow> sim_workload option"

definition jobs_at :: "job_identifier \<Rightarrow> sim_workload \<Rightarrow> sim_job run" where
  "jobs_at ji w = sw_jobs w (representation ji)"

definition jobs_exists :: "job_identifier \<Rightarrow> sim_workload \<Rightarrow> bool" where
  "jobs_exists ji w \<longleftrightarrow> representation ji \<in> sw_jobs_met w"

definition jobs_add_job :: "sim_job \<Rightarrow> sim_workload \<Rightarrow> sim_workload run" where
  "jobs_add_job j w = do {
     assertion (\<not> jobs_exists (sj_id j) w);
     Some (w\<lparr>sw_jobs := (sw_jobs w)(representation (sj_id j) \<mapsto> j),
       sw_jobs_met := insert (representation (sj_id j)) (sw_jobs_met w)\<rparr>) }"

definition profiles_exists :: "string \<Rightarrow> sim_workload \<Rightarrow> bool" where
  "profiles_exists n w \<longleftrightarrow> sw_profiles w n \<noteq> None"

definition profiles_at :: "string \<Rightarrow> sim_workload \<Rightarrow> sim_profile run" where
  "profiles_at n w = (case sw_profiles w n of Some (Some p) \<Rightarrow> Some p | _ \<Rightarrow> None)"

definition profiles_add :: "string \<Rightarrow> sim_profile \<Rightarrow> sim_workload \<Rightarrow> sim_workload run" where
  "profiles_add n p w = do {
     assertion (\<not> profiles_exists n w);
     Some (w\<lparr>sw_profiles := (sw_profiles w)(n \<mapsto> Some p)\<rparr>) }"

text \<open>Removing a composed profile removes its subprofiles first, by their names; a removed one is left alone.\<close>

lemma fold_run_mono [partial_function_mono]:
  assumes "\<And>x s. mono_option (\<lambda>f. F f x s)"
  shows "mono_option (\<lambda>f. fold_run (F f) xs s)"
proof (induction xs arbitrary: s)
  case Nil
  then show ?case by (simp add: monotone_on_def flat_ord_def)
next
  case (Cons x xs)
  show ?case unfolding fold_run.simps by (rule bind_mono[OF assms Cons.IH])
qed

partial_function (option) remove_profile ::
  "string \<Rightarrow> (string \<Rightarrow> sim_profile option option) \<Rightarrow> (string \<Rightarrow> sim_profile option option) run" where
  "remove_profile n ps =
     (case ps n of
        None \<Rightarrow> None
      | Some None \<Rightarrow> Some ps
      | Some (Some p) \<Rightarrow> do {
          ps1 \<leftarrow> (if pf_type p = SEQUENCE
            then fold_run (\<lambda>q. remove_profile (pf_name q)) (pf_sequence p) ps else Some ps);
          Some (ps1(n \<mapsto> None)) })"

definition jobs_delete_job :: "bool \<Rightarrow> job_identifier \<Rightarrow> sim_workload \<Rightarrow> sim_workload run" where
  "jobs_delete_job garbage_collect ji w = do {
     assertion (jobs_exists ji w);
     j \<leftarrow> sw_jobs w (representation ji);
     let w1 = w\<lparr>sw_jobs := (sw_jobs w)(representation ji := None)\<rparr>;
     (if garbage_collect then do {
        ps \<leftarrow> remove_profile (pf_name (sj_profile j)) (sw_profiles w1);
        Some (w1\<lparr>sw_profiles := ps\<rparr>) }
      else Some w1) }"

definition check_single_job_validity :: "sim_job \<Rightarrow> sim_workload \<Rightarrow> unit run" where
  "check_single_job_validity j w = do {
     assertion (profiles_exists (pf_name (sj_profile j)) w);
     assertion (pf_type (sj_profile j) = PARALLEL \<longrightarrow> pf_nb_res (sj_profile j) = sj_requested_nb_res j) }"

text \<open>
  \<^verbatim>\<open>new_static_workload\<close> copies the settings of the command line through a pointer.  The constructor
  of dynamic workloads passes it a null pointer.
\<close>

definition new_static_workload :: "string \<Rightarrow> string \<Rightarrow> 'arguments option \<Rightarrow> sim_workload run" where
  "new_static_workload n file main_arguments = do {
     settings \<leftarrow> main_arguments;
     Some \<lparr>sw_name = n, sw_static = True, sw_file = file, sw_jobs = Map.empty, sw_jobs_met = {},
       sw_profiles = Map.empty\<rparr> }"

definition new_dynamic_workload :: "string \<Rightarrow> sim_workload run" where
  "new_dynamic_workload n = do {
     w \<leftarrow> new_static_workload n ''dynamic'' (None :: unit option);
     Some (w\<lparr>sw_static := False\<rparr>) }"

lemma no_dynamic_workload [simp]: "new_dynamic_workload n = None"
  by (simp add: new_dynamic_workload_def new_static_workload_def)

text \<open>\<^verbatim>\<open>Workloads\<close>.  \<^verbatim>\<open>std::map::at\<close> throws on an unknown name.\<close>

definition job_at :: "job_identifier \<Rightarrow> workloads \<Rightarrow> sim_job run" where
  "job_at ji ws = do { w \<leftarrow> ws (workload_name ji); jobs_at ji w }"

definition job_is_registered :: "job_identifier \<Rightarrow> workloads \<Rightarrow> bool run" where
  "job_is_registered ji ws = do { w \<leftarrow> ws (workload_name ji); Some (jobs_exists ji w) }"

definition delete_jobs :: "bool \<Rightarrow> job_identifier list \<Rightarrow> workloads \<Rightarrow> workloads run" where
  "delete_jobs garbage_collect jis ws =
     fold_run (\<lambda>ji ws'. do {
       w \<leftarrow> ws' (workload_name ji);
       w' \<leftarrow> jobs_delete_job garbage_collect ji w;
       Some (ws'(workload_name ji \<mapsto> w')) }) jis ws"

definition insert_workload :: "string \<Rightarrow> sim_workload \<Rightarrow> workloads \<Rightarrow> workloads run" where
  "insert_workload n w ws = do {
     assertion (ws n = None);
     assertion (ws (sw_name w) = None);
     Some (ws(n \<mapsto> w\<lparr>sw_name := n\<rparr>)) }"

text \<open>A job pointer of the code is the identifier of the job here; this writes through it.\<close>

definition set_job :: "sim_job \<Rightarrow> workloads \<Rightarrow> workloads run" where
  "set_job j ws = do {
     w \<leftarrow> ws (workload_name (sj_id j));
     Some (ws(workload_name (sj_id j) \<mapsto> w\<lparr>sw_jobs := (sw_jobs w)(representation (sj_id j) \<mapsto> j)\<rparr>)) }"

end
