(* ===== verification/Job_Names.thy ===== *)
theory Job_Names
  imports Sim_Context
begin

text \<open>
  Job names: an identifier survives being printed and read back, and \<^verbatim>\<open>get_job_parts\<close> finds the
  parts of every name the programs build, although it computes the lengths of the parts with
  exchanged operands.
\<close>

lemma drop_inner_empty_single [simp]: "drop_inner_empty [x] = [x]" "drop_inner_empty [] = []"
  by simp_all

text \<open>
  The string form of an identifier whose parts have no exclamation mark and whose job name
  starts with its number is read back as the same identifier.
\<close>

theorem identifier_round_trip:
  assumes "is_lexically_valid ji" "stoi (job_name ji) = Some (job_number ji)"
  shows "job_identifier (representation ji) = Some ji"
proof -
  have "split_on CHR ''!'' (representation ji) = [workload_name ji, job_name ji]"
    using assms(1) by (simp add: representation_def is_lexically_valid_def split_on_append split_on_none)
  then have "split_compress CHR ''!'' (representation ji) = [workload_name ji, job_name ji]"
    by (simp add: split_compress_def)
  then show ?thesis using assms
    by (simp add: job_identifier_def make_identifier_def is_lexically_valid_def)
qed

theorem identifier_round_trip_witness:
  "job_identifier (representation \<lparr>workload_name = ''w0'', job_name = ''12#1'', job_number = 12\<rparr>)
   = Some \<lparr>workload_name = ''w0'', job_name = ''12#1'', job_number = 12\<rparr>"
proof (rule identifier_round_trip)
  show "is_lexically_valid \<lparr>workload_name = ''w0'', job_name = ''12#1'', job_number = 12\<rparr>"
    by code_simp
  show "stoi (job_name \<lparr>workload_name = ''w0'', job_name = ''12#1'', job_number = 12\<rparr>) =
      Some (job_number \<lparr>workload_name = ''w0'', job_name = ''12#1'', job_number = 12\<rparr>)"
    by code_simp
qed

subsection \<open>The parts of a name\<close>

definition optional_part :: "string \<Rightarrow> nat option \<Rightarrow> string" where
  "optional_part mark x = (case x of None \<Rightarrow> [] | Some n \<Rightarrow> mark @ show_nat n)"

definition optional_number :: "nat option \<Rightarrow> int" where
  "optional_number x = (case x of None \<Rightarrow> - 1 | Some n \<Rightarrow> int n)"

definition workload_part :: "string option \<Rightarrow> string" where
  "workload_part w = (case w of None \<Rightarrow> [] | Some n \<Rightarrow> n @ ''!'')"

definition full_name :: "string option \<Rightarrow> nat \<Rightarrow> nat option \<Rightarrow> nat option \<Rightarrow> string" where
  "full_name w n r c = workload_part w @ show_nat n @ optional_part ''#'' r @ optional_part ''$'' c"

definition plain_workload :: "string option \<Rightarrow> bool" where
  "plain_workload w \<longleftrightarrow> (\<forall>x. w = Some x \<longrightarrow> x \<noteq> ''null'' \<and> CHR ''!'' \<notin> set x \<and> CHR ''#'' \<notin> set x \<and>
     CHR ''$'' \<notin> set x)"

lemma find_char_append: "k \<notin> set x \<Longrightarrow> find_char k (x @ k # y) = Some (length x)"
proof -
  assume "k \<notin> set x"
  then have "takeWhile (\<lambda>c. c \<noteq> k) (x @ k # y) = x" by (induction x) auto
  then show ?thesis by (simp add: find_char_def)
qed

lemma find_char_none: "k \<notin> set x \<Longrightarrow> find_char k x = None"
  by (simp add: find_char_def)

text \<open>The wrapped count reaches the end of the name, unless the part is empty.\<close>

lemma substr_to_rest:
  assumes "pos < stop" "stop \<le> length s" "length s \<le> 2 ^ 63"
  shows "substr_to s pos stop = drop pos s"
proof -
  have "(int pos - int stop) mod 2 ^ 64 = int pos - int stop + 2 ^ 64"
    using assms by (subst mod_add_self2[symmetric], intro mod_pos_pos_trivial) auto
  then have "length (drop pos s) \<le> nat ((int pos - int stop) mod 2 ^ 64)"
    using assms by simp
  then show ?thesis by (simp add: substr_to_def)
qed

lemma plain_marks:
  "CHR ''#'' \<notin> set (optional_part ''$'' x)" "CHR ''$'' \<notin> set (optional_part ''#'' x)"
  "CHR ''!'' \<notin> set (optional_part ''#'' x)" "CHR ''!'' \<notin> set (optional_part ''$'' x)"
  by (cases x; simp add: optional_part_def show_nat_not_in)+

lemma no_digit_next:
  "optional_part ''$'' x = [] \<or> \<not> is_digit (hd (optional_part ''$'' x))"
  "optional_part ''#'' r @ optional_part ''$'' x = [] \<or>
   \<not> is_digit (hd (optional_part ''#'' r @ optional_part ''$'' x))"
  by (cases x; simp add: optional_part_def is_digit_def)
    (cases x; cases r; simp add: optional_part_def is_digit_def)

text \<open>The marks of a name, and the parts between them.\<close>

definition before_checkpoint :: "string option \<Rightarrow> nat \<Rightarrow> nat option \<Rightarrow> nat" where
  "before_checkpoint w n r = length (workload_part w @ show_nat n @ optional_part ''#'' r)"

definition before_resubmit :: "string option \<Rightarrow> nat \<Rightarrow> nat" where
  "before_resubmit w n = length (workload_part w @ show_nat n)"

definition named_workload :: "string option \<Rightarrow> string" where
  "named_workload w = (case w of None \<Rightarrow> ''null'' | Some x \<Rightarrow> x)"

lemma workload_part_marks:
  "plain_workload w \<Longrightarrow> CHR ''#'' \<notin> set (workload_part w)" "plain_workload w \<Longrightarrow> CHR ''$'' \<notin> set (workload_part w)"
  by (auto simp: plain_workload_def workload_part_def split: option.splits)

lemma find_dollar:
  assumes "plain_workload w"
  shows "find_char CHR ''$'' (full_name w n r c) = (case c of None \<Rightarrow> None | Some _ \<Rightarrow> Some (before_checkpoint w n r))"
proof (cases c)
  case None
  then show ?thesis using workload_part_marks[OF assms] plain_marks
    by (simp add: full_name_def optional_part_def[of "''$''"] find_char_none show_nat_not_in)
next
  case (Some k)
  have "full_name w n r c = (workload_part w @ show_nat n @ optional_part ''#'' r) @ CHR ''$'' # show_nat k"
    by (simp add: full_name_def Some optional_part_def)
  then show ?thesis
    using find_char_append[of "CHR ''$''" "workload_part w @ show_nat n @ optional_part ''#'' r"]
      workload_part_marks[OF assms] plain_marks Some by (simp add: show_nat_not_in before_checkpoint_def)
qed

lemma find_pound:
  assumes "plain_workload w"
  shows "find_char CHR ''#'' (full_name w n r c) = (case r of None \<Rightarrow> None | Some _ \<Rightarrow> Some (before_resubmit w n))"
proof (cases r)
  case None
  then show ?thesis using workload_part_marks[OF assms] plain_marks
    by (simp add: full_name_def optional_part_def[of "''#''"] find_char_none show_nat_not_in)
next
  case (Some k)
  have "full_name w n r c = (workload_part w @ show_nat n) @ CHR ''#'' # show_nat k @ optional_part ''$'' c"
    by (simp add: full_name_def Some optional_part_def)
  then show ?thesis using find_char_append[of "CHR ''#''" "workload_part w @ show_nat n"] workload_part_marks[OF assms] Some
    by (simp add: show_nat_not_in before_resubmit_def)
qed

lemma ends_of_parts:
  assumes "plain_workload w"
  shows "(case find_char CHR ''$'' (full_name w n r c) of Some d \<Rightarrow> d | None \<Rightarrow> length (full_name w n r c)) = before_checkpoint w n r"
    "(case find_char CHR ''#'' (full_name w n r c) of Some p \<Rightarrow> p | None \<Rightarrow> before_checkpoint w n r) = before_resubmit w n"
  unfolding find_dollar[OF assms] find_pound[OF assms]
  by (cases c; simp add: full_name_def optional_part_def before_checkpoint_def)
    (cases r; simp add: optional_part_def before_checkpoint_def before_resubmit_def)

lemma checkpoint_of_name:
  assumes "plain_workload w" "fits_int (optional_number c)"
  shows "(case find_char CHR ''$'' (full_name w n r c) of Some d \<Rightarrow> stoi (drop (Suc d) (full_name w n r c)) | None \<Rightarrow> Some (- 1))
    = Some (optional_number c)"
proof (cases c)
  case (Some k)
  have "drop (Suc (before_checkpoint w n r)) (full_name w n r c) = show_nat k"
    by (simp add: full_name_def Some optional_part_def before_checkpoint_def)
  then show ?thesis using find_dollar[OF assms(1)] Some assms(2) stoi_show_nat_prefix[of k "[]"]
    by (simp add: optional_number_def)
next
  case None
  then show ?thesis using find_dollar[OF assms(1)] by (simp add: optional_number_def)
qed

lemma resubmit_of_name:
  assumes "plain_workload w" "fits_int (optional_number r)" "length (full_name w n r c) \<le> 2 ^ 63"
  shows "(case find_char CHR ''#'' (full_name w n r c) of
      Some p \<Rightarrow> stoi (substr_to (full_name w n r c) (Suc p) (before_checkpoint w n r)) | None \<Rightarrow> Some (- 1)) = Some (optional_number r)"
proof (cases r)
  case (Some k)
  have "substr_to (full_name w n r c) (Suc (before_resubmit w n)) (before_checkpoint w n r) =
      drop (Suc (before_resubmit w n)) (full_name w n r c)"
    using assms(3) by (intro substr_to_rest)
      (simp_all add: full_name_def Some optional_part_def before_checkpoint_def before_resubmit_def)
  moreover have "drop (Suc (before_resubmit w n)) (full_name w n r c) = show_nat k @ optional_part ''$'' c"
    by (simp add: full_name_def Some optional_part_def before_resubmit_def)
  ultimately show ?thesis
    using find_pound[OF assms(1)] Some assms(2) stoi_show_nat_prefix[of k "optional_part ''$'' c"] no_digit_next(1)
    by (simp add: optional_number_def)
next
  case None
  then show ?thesis using find_pound[OF assms(1)] by (simp add: optional_number_def)
qed

lemma number_of_name:
  assumes "plain_workload w" "fits_int (int n)" "length (full_name w n r c) \<le> 2 ^ 63"
  shows "(case find_char CHR ''!'' (full_name w n r c) of
      Some e \<Rightarrow> stoi (substr_to (full_name w n r c) (Suc e) (before_resubmit w n))
    | None \<Rightarrow> stoi (take (before_resubmit w n) (full_name w n r c))) = Some (int n) \<and>
    (case find_char CHR ''!'' (full_name w n r c) of Some e \<Rightarrow> take e (full_name w n r c) | None \<Rightarrow> ''null'') = named_workload w"
proof (cases w)
  case None
  have "find_char CHR ''!'' (full_name w n r c) = None" using plain_marks
    by (simp add: full_name_def None workload_part_def find_char_none show_nat_not_in)
  then show ?thesis using stoi_show_nat_prefix[of n "[]"] assms(2)
    by (simp add: full_name_def None workload_part_def before_resubmit_def named_workload_def)
next
  case (Some x)
  let ?s = "full_name w n r c"
  have x: "CHR ''!'' \<notin> set x" using assms(1) Some by (simp add: plain_workload_def)
  have sx: "?s = x @ CHR ''!'' # show_nat n @ optional_part ''#'' r @ optional_part ''$'' c"
    by (simp add: full_name_def Some workload_part_def)
  have e: "find_char CHR ''!'' ?s = Some (length x)" using find_char_append[OF x] sx by simp
  have "substr_to ?s (Suc (length x)) (before_resubmit w n) = drop (Suc (length x)) ?s"
    using assms(3) by (intro substr_to_rest) (simp_all add: full_name_def Some workload_part_def before_resubmit_def)
  moreover have "drop (Suc (length x)) ?s = show_nat n @ optional_part ''#'' r @ optional_part ''$'' c" by (simp add: sx)
  moreover have "take (length x) ?s = x" by (simp add: sx)
  ultimately show ?thesis using e stoi_show_nat_prefix[OF assms(2) no_digit_next(2)]
    by (simp add: Some named_workload_def)
qed

lemma parts_of_name:
  assumes "plain_workload w" "fits_int (int n)" "fits_int (optional_number r)" "fits_int (optional_number c)"
    and "length (full_name w n r c) \<le> 2 ^ 63"
  shows "get_job_parts (full_name w n r c) = Some \<lparr>p_workload = named_workload w,
      p_job_number = int n, p_job_resubmit = optional_number r, p_job_checkpoint = optional_number c,
      str_workload = workload_part w, str_job_number = show_nat n, str_job_resubmit = optional_part ''#'' r,
      str_job_checkpoint = optional_part ''$'' c\<rparr>"
proof -
  have marks: "(if optional_number y = - 1 then [] else m @ show_int (optional_number y)) = optional_part m y"
    for y m by (cases y) (simp_all add: optional_number_def optional_part_def show_int_def)
  have N: "show_int (int n) = show_nat n" by (simp add: show_int_def)
  have W: "(if named_workload w = ''null'' then [] else named_workload w @ ''!'') = workload_part w"
    using assms(1) by (cases w) (simp_all add: named_workload_def workload_part_def plain_workload_def)
  note num = number_of_name[OF assms(1,2,5)]
  show ?thesis
    unfolding get_job_parts_def checkpoint_of_name[OF assms(1,4)] Option.bind.simps Let_def
      ends_of_parts[OF assms(1)] resubmit_of_name[OF assms(1,3,5)] num[THEN conjunct1] num[THEN conjunct2] marks N W ..
qed

text \<open>
  C28: On every name made of an optional workload, a number, an optional resubmission count and an
  optional checkpoint number, \<^verbatim>\<open>get_job_parts\<close> finds exactly these (the workload is \<open>null\<close> when
  there is none), the strings it returns are their texts with their marks, and they put the name
  together again.
\<close>

theorem job_parts_round_trip:
  assumes "plain_workload w" "fits_int (int n)" "fits_int (optional_number r)" "fits_int (optional_number c)"
    and "length (full_name w n r c) \<le> 2 ^ 63"
  shows "\<exists>p. get_job_parts (full_name w n r c) = Some p \<and>
    p_workload p = (case w of None \<Rightarrow> ''null'' | Some x \<Rightarrow> x) \<and>
    str_workload p = (case w of None \<Rightarrow> [] | Some x \<Rightarrow> x @ ''!'') \<and>
    str_job_number p = show_nat n \<and>
    str_job_resubmit p = (case r of None \<Rightarrow> [] | Some k \<Rightarrow> ''#'' @ show_nat k) \<and>
    str_job_checkpoint p = (case c of None \<Rightarrow> [] | Some k \<Rightarrow> ''$'' @ show_nat k) \<and>
    p_job_number p = int n \<and> p_job_resubmit p = optional_number r \<and>
    p_job_checkpoint p = optional_number c \<and>
    str_workload p @ str_job_number p @ str_job_resubmit p @ str_job_checkpoint p = full_name w n r c"
  unfolding parts_of_name[OF assms]
  by (simp add: full_name_def named_workload_def workload_part_def optional_part_def)

theorem job_parts_round_trip_witness:
  "\<exists>p. get_job_parts (full_name (Some ''w0'') 12 (Some 3) None) = Some p \<and>
    p_workload p = (case Some ''w0'' of None \<Rightarrow> ''null'' | Some x \<Rightarrow> x) \<and>
    str_workload p = (case Some ''w0'' of None \<Rightarrow> [] | Some x \<Rightarrow> x @ ''!'') \<and>
    str_job_number p = show_nat 12 \<and>
    str_job_resubmit p = (case Some 3 of None \<Rightarrow> [] | Some k \<Rightarrow> ''#'' @ show_nat k) \<and>
    str_job_checkpoint p = (case None of None \<Rightarrow> [] | Some k \<Rightarrow> ''$'' @ show_nat k) \<and>
    p_job_number p = int 12 \<and> p_job_resubmit p = optional_number (Some 3) \<and>
    p_job_checkpoint p = optional_number None \<and>
    str_workload p @ str_job_number p @ str_job_resubmit p @ str_job_checkpoint p
      = full_name (Some ''w0'') 12 (Some 3) None"
  by (rule job_parts_round_trip)
    (simp add: plain_workload_def, simp add: fits_int_def, simp add: fits_int_def optional_number_def,
     simp add: fits_int_def optional_number_def,
     simp add: full_name_def workload_part_def optional_part_def show_nat.simps)

end
