(* ===== verification/Resubmit.thy ===== *)
theory Resubmit
  imports Sched_Workload Job_Names
begin

text \<open>
  The resubmission of killed jobs (\<^verbatim>\<open>SchedulingDecision::handle_resubmission\<close> of \<^verbatim>\<open>decision.cpp\<close> and
  the functions it calls).  A killed job is registered again under its next name, with a profile
  that only keeps the work not saved by a checkpoint.

  The parser and the writer of JSON texts are external: they are the parameters \<open>parse\<close> and \<open>print\<close>.
  A text that does not parse leaves a null document.  Both programs hold the same function
  \<^verbatim>\<open>get_job_parts\<close>; it is the one of \<open>Sim_Context\<close>.
\<close>

subsection \<open>Names\<close>

record id_separation =
  is_basename :: string
  is_workload :: string
  is_resubmit_number :: int
  is_nb_checkpoint :: string
  next_resubmit_number :: int
  is_resubmit_string :: string
  next_resubmit_string :: string
  next_profile_name :: string
  next_job_name :: string

definition separate_id :: "job_id \<Rightarrow> id_separation run" where
  "separate_id i = do {
     parts \<leftarrow> get_job_parts i;
     let basename = show_int (p_job_number parts);
     let number = (if p_job_resubmit parts \<noteq> - 1 then p_job_resubmit parts else 0);
     let chk = (if p_job_checkpoint parts \<noteq> - 1 then ''$'' @ show_int (p_job_checkpoint parts) else []);
     let name = basename @ ''#'' @ show_int (number + 1) @ chk;
     Some \<lparr>is_basename = basename, is_workload = p_workload parts, is_resubmit_number = number,
       is_nb_checkpoint = chk, next_resubmit_number = number + 1, is_resubmit_string = show_int number,
       next_resubmit_string = p_workload parts @ ''!'' @ name, next_profile_name = name, next_job_name = name\<rparr> }"

subsection \<open>Killed jobs\<close>

text \<open>
  The members of \<^verbatim>\<open>Job\<close> that only the resubmission reads.  \<^verbatim>\<open>checkpoint_job_data\<close> is a pointer that
  is set only when the simulation was started from a checkpoint; following it otherwise stops the
  run.
\<close>

datatype killed_profile = DELAY | PARALLEL_HOMOGENEOUS rat | OTHER_PROFILE

record killed_data =
  kd_profile :: killed_profile
  kd_profile_description :: string
  kd_job_description :: string
  checkpoint_interval :: rat
  dump_time :: rat
  read_time :: rat
  checkpoint_runtime :: "rat option"

text \<open>
  The number of checkpoints done in a time.  The quotient by zero has no integer part: the
  conversion to \<^verbatim>\<open>int\<close> is undefined and the run stops.
\<close>

definition checkpoints_in :: "killed_data \<Rightarrow> rat \<Rightarrow> int run" where
  "checkpoints_in x t = do {
     assertion (checkpoint_interval x + dump_time x \<noteq> 0);
     Some (floor (t / (checkpoint_interval x + dump_time x))) }"

definition checkpoints_time :: "killed_data \<Rightarrow> int \<Rightarrow> rat" where
  "checkpoints_time x n = of_int n * (checkpoint_interval x + dump_time x)"

text \<open>
  What is noted of the checkpoints in the metadata of the job, a document written in a string.  The
  same code occurs twice; \<open>speed\<close> is 1 for a delay and the speed of the hosts for a computation.
\<close>

definition note_work :: "rat \<Rightarrow> killed_data \<Rightarrow> int \<Rightarrow> json \<Rightarrow> json run" where
  "note_work speed x n meta = do {
     there \<leftarrow> has_member ''work_progress'' meta;
     (if there then do {
        work \<leftarrow> double_member ''work_progress'' meta;
        set_member ''work_progress''
          (JDouble ((if 0 < n then work + of_int n * checkpoint_interval x else work) * speed)) meta }
      else if 0 < n then add_member ''work_progress'' (JDouble (of_int n * checkpoint_interval x * speed)) meta
      else Some meta) }"

definition note_dumps :: "int \<Rightarrow> json \<Rightarrow> json run" where
  "note_dumps n meta = do {
     there \<leftarrow> has_member ''num_dumps'' meta;
     (if there then do {
        k \<leftarrow> int_member ''num_dumps'' meta;
        set_member ''num_dumps'' (JInt (if 0 < n then k + n else k)) meta }
      else if 0 < n then add_member ''num_dumps'' (JInt n) meta
      else Some meta) }"

definition first_note :: "(string \<Rightarrow> json run) \<Rightarrow> (json \<Rightarrow> string) \<Rightarrow> rat \<Rightarrow> killed_data \<Rightarrow> int \<Rightarrow> string \<Rightarrow> json \<Rightarrow> json run" where
  "first_note parse print speed x n meta_str job_doc = do {
     let meta = (if meta_str \<noteq> ''null'' then parse_doc parse meta_str else JObject []);
     m1 \<leftarrow> add_member ''checkpointed'' (JBool True) meta;
     m2 \<leftarrow> add_member ''num_dumps'' (JInt n) m1;
     m3 \<leftarrow> add_member ''work_progress'' (JDouble (of_int n * checkpoint_interval x * speed)) m2;
     (if meta_str = ''null'' then add_member ''metadata'' (JString (print m3)) job_doc
      else set_member ''metadata'' (JString (print m3)) job_doc) }"

text \<open>The checkpoints done by a killed job, the time they stand for, and the noted document.\<close>

definition note_progress ::
  "(string \<Rightarrow> json run) \<Rightarrow> (json \<Rightarrow> string) \<Rightarrow> rat \<Rightarrow> killed_data \<Rightarrow> rat \<Rightarrow> json \<Rightarrow> (int \<times> rat \<times> json) run" where
  "note_progress parse print speed x progress_time job_doc = do {
     there \<leftarrow> has_member ''metadata'' job_doc;
     meta_str \<leftarrow> (if there then do {
         s \<leftarrow> string_member ''metadata'' job_doc;
         Some (replace_char single_quote double_quote s) } else Some ''null'');
     let meta = (if there then parse_doc parse meta_str else JNull);
     has_checkpointed \<leftarrow> (if there then optional_member get_bool ''checkpointed'' False meta else Some False);
     (if has_checkpointed then do {
        n \<leftarrow> checkpoints_in x (progress_time - read_time x);
        m1 \<leftarrow> note_work speed x n meta;
        m2 \<leftarrow> note_dumps n m1;
        job_doc1 \<leftarrow> set_member ''metadata'' (JString (print m2)) job_doc;
        Some (n, checkpoints_time x n + read_time x, job_doc1) }
      else do {
        n \<leftarrow> checkpoints_in x progress_time;
        job_doc1 \<leftarrow> (if 0 < n then first_note parse print speed x n meta_str job_doc else Some job_doc);
        Some (n, checkpoints_time x n, job_doc1) }) }"

definition shorten_walltime :: "sched_workload \<Rightarrow> job \<Rightarrow> killed_data \<Rightarrow> int \<Rightarrow> json \<Rightarrow> json run" where
  "shorten_walltime w j x n job_doc = do {
     there \<leftarrow> (if 0 < walltime j then has_member ''walltime'' job_doc else Some False);
     (if there \<and> subtract_progress_from_walltime w then
        set_member ''walltime'' (JDouble (walltime j - (checkpoints_time x n - read_time x))) job_doc
      else Some job_doc) }"

definition get_meta_data_from_delay ::
  "(string \<Rightarrow> json run) \<Rightarrow> (json \<Rightarrow> string) \<Rightarrow> sched_workload \<Rightarrow> job \<Rightarrow> killed_data \<Rightarrow> rat \<Rightarrow> json \<times> json \<Rightarrow> (json \<times> json) run" where
  "get_meta_data_from_delay parse print w j x progress = (\<lambda>(profile_doc, job_doc).
     if checkpointing_on w \<and> 0 < progress then do {
       delay \<leftarrow> double_member ''delay'' profile_doc;
       before \<leftarrow> checkpoint_runtime x;
       (n, progress_time, job_doc1) \<leftarrow> note_progress parse print 1 x (progress * delay + before) job_doc;
       (if 0 < n then do {
          job_doc2 \<leftarrow> shorten_walltime w j x n job_doc1;
          profile_doc1 \<leftarrow> set_member ''delay'' (JDouble (delay - progress_time + read_time x)) profile_doc;
          Some (profile_doc1, job_doc2) }
        else Some (profile_doc, job_doc1)) }
     else Some (profile_doc, job_doc))"

text \<open>The original amounts are put back in the descriptions.\<close>

definition restore_originals :: "rat \<Rightarrow> job \<Rightarrow> json \<times> json \<Rightarrow> (json \<times> json) run" where
  "restore_originals original_cpu j = (\<lambda>(profile_doc, job_doc). do {
     profile_doc1 \<leftarrow> (if original_cpu \<noteq> - 1 then set_member ''cpu'' (JDouble original_cpu) profile_doc else Some profile_doc);
     job_doc1 \<leftarrow> (if original_walltime j \<noteq> - 1 then set_member ''walltime'' (JDouble (original_walltime j)) job_doc else Some job_doc);
     Some (profile_doc1, job_doc1) })"

definition get_meta_data_from_parallel_homogeneous ::
  "(string \<Rightarrow> json run) \<Rightarrow> (json \<Rightarrow> string) \<Rightarrow> sched_workload \<Rightarrow> job \<Rightarrow> killed_data \<Rightarrow> rat \<Rightarrow> rat \<Rightarrow> json \<times> json \<Rightarrow> (json \<times> json) run" where
  "get_meta_data_from_parallel_homogeneous parse print w j x original_cpu progress = (\<lambda>(profile_doc, job_doc).
     if checkpointing_on w then
       (if 0 < progress then do {
          cpu \<leftarrow> double_member ''cpu'' profile_doc;
          assertion (host_speed w \<noteq> 0);
          before \<leftarrow> checkpoint_runtime x;
          (n, progress_time, job_doc1) \<leftarrow>
             note_progress parse print (host_speed w) x (progress * cpu / host_speed w + before) job_doc;
          (profile_doc1, job_doc2) \<leftarrow> restore_originals original_cpu j (profile_doc, job_doc1);
          (if 0 < n then do {
             job_doc3 \<leftarrow> shorten_walltime w j x n job_doc2;
             cpu1 \<leftarrow> double_member ''cpu'' profile_doc1;
             profile_doc2 \<leftarrow> set_member ''cpu''
               (JDouble ((cpu1 / host_speed w - progress_time + read_time x) * host_speed w)) profile_doc1;
             Some (profile_doc2, job_doc3) }
           else Some (profile_doc1, job_doc2)) }
        else Some (profile_doc, job_doc))
     else restore_originals original_cpu j (profile_doc, job_doc))"

subsection \<open>The new registration\<close>

definition add_submit_profile ::
  "(string \<Rightarrow> bool) \<Rightarrow> string \<Rightarrow> string \<Rightarrow> string \<Rightarrow> time \<Rightarrow> decisions \<Rightarrow> decisions run" where
  "add_submit_profile parses wn pn description date = on_writer (append_register_profile parses wn pn description date)"

text \<open>With Redis the descriptions are put in the store, which is external, and not in the message.\<close>

definition add_submit_job ::
  "(string \<Rightarrow> bool) \<Rightarrow> bool \<Rightarrow> string \<Rightarrow> string \<Rightarrow> string \<Rightarrow> string \<Rightarrow> time \<Rightarrow> bool \<Rightarrow> decisions \<Rightarrow> decisions run" where
  "add_submit_job parses redis wn jn job_description profile_description date send_profile =
     (if redis then on_writer (append_register_job parses (wn @ ''!'' @ jn) date [] [] send_profile)
      else on_writer (append_register_job parses (wn @ ''!'' @ jn) date job_description profile_description send_profile))"

definition resubmitted_documents ::
  "(string \<Rightarrow> json run) \<Rightarrow> (json \<Rightarrow> string) \<Rightarrow> sched_workload \<Rightarrow> job \<Rightarrow> killed_data \<Rightarrow> rat \<Rightarrow> time \<Rightarrow> id_separation \<Rightarrow>
   (json \<times> json) run" where
  "resubmitted_documents parse print w j x progress date sep = do {
     let docs = (parse_doc parse (kd_profile_description x), parse_doc parse (kd_job_description x));
     (profile_doc, d1) \<leftarrow> (case kd_profile x of
         DELAY \<Rightarrow> get_meta_data_from_delay parse print w j x progress docs
       | PARALLEL_HOMOGENEOUS cpu \<Rightarrow> get_meta_data_from_parallel_homogeneous parse print w j x cpu progress docs
       | OTHER_PROFILE \<Rightarrow> Some docs);
     d2 \<leftarrow> set_member ''subtime'' (JDouble date) d1;
     d3 \<leftarrow> set_member ''original_submit'' (JDouble date) d2;
     d4 \<leftarrow> set_member ''original_start'' (JDouble (- 1)) d3;
     d5 \<leftarrow> push_member ''submission_times'' (JDouble date) d4;
     d6 \<leftarrow> set_member ''profile'' (JString (next_profile_name sep)) d5;
     d7 \<leftarrow> set_member ''id'' (JString (next_resubmit_string sep)) d6;
     Some (profile_doc, d7) }"

definition resubmit_one ::
  "(string \<Rightarrow> json run) \<Rightarrow> (json \<Rightarrow> string) \<Rightarrow> bool \<Rightarrow> sched_workload \<Rightarrow> (job_id \<Rightarrow> killed_data) \<Rightarrow> time \<Rightarrow>
   job_id \<times> job_message \<Rightarrow> decisions \<Rightarrow> decisions run" where
  "resubmit_one parse print redis w data date = (\<lambda>(i, msg) d. do {
     j \<leftarrow> workload_job i w;
     sep \<leftarrow> separate_id i;
     (profile_doc, job_doc) \<leftarrow> resubmitted_documents parse print w j (data i) (msg_progress msg) date sep;
     let parses = (\<lambda>s. parse s \<noteq> None);
     d1 \<leftarrow> add_submit_profile parses (is_workload sep) (next_profile_name sep) (print profile_doc) date d;
     d2 \<leftarrow> add_submit_job parses redis (is_workload sep) (next_job_name sep) (print job_doc) (print profile_doc) date True d1;
     there \<leftarrow> has_member ''metadata'' job_doc;
     (if there then do {
        meta \<leftarrow> string_member ''metadata'' job_doc;
        add_set_job_metadata (next_resubmit_string sep) (replace_char double_quote single_quote meta) date d2 }
      else Some d2) })"

text \<open>The killed jobs, in the order in which the container of the code gives them.\<close>

definition handle_resubmission ::
  "(string \<Rightarrow> json run) \<Rightarrow> (json \<Rightarrow> string) \<Rightarrow> bool \<Rightarrow> sched_workload \<Rightarrow> (job_id \<Rightarrow> killed_data) \<Rightarrow> time \<Rightarrow>
   (job_id \<times> job_message) list \<Rightarrow> decisions \<Rightarrow> decisions run" where
  "handle_resubmission parse print redis w data date killed = fold_run (resubmit_one parse print redis w data date) killed"

subsection \<open>Lemmas\<close>

lemma replace_member_at:
  "replace_member k v ms = Some ms' \<Longrightarrow> map_of ms' l = (if l = k then Some v else map_of ms l)"
  by (induction k v ms arbitrary: ms' rule: replace_member.induct) (auto simp: run_simps split: if_splits)

lemma set_member_at:
  assumes "set_member k v d = Some d'"
  shows "member_at l d' = (if l = k then Some v else member_at l d)"
proof -
  obtain ms ms' where m: "members d = Some ms" "replace_member k v ms = Some ms'" "d' = JObject ms'"
    using assms by (auto simp: set_member_def run_simps)
  then show ?thesis using replace_member_at[OF m(2), of l] by (simp add: member_at_def)
qed

lemma separate_id_of_name:
  assumes "plain_workload wl" "fits_int (int n)" "fits_int (optional_number r)" "fits_int (optional_number c)"
    and "length (full_name wl n r c) \<le> 2 ^ 63"
  obtains sep where "separate_id (full_name wl n r c) = Some sep" "is_workload sep = named_workload wl"
    "next_resubmit_string sep = full_name (Some (named_workload wl)) n (Some (case r of None \<Rightarrow> 1 | Some k \<Rightarrow> Suc k)) c"
    "next_job_name sep = full_name None n (Some (case r of None \<Rightarrow> 1 | Some k \<Rightarrow> Suc k)) c"
    "next_profile_name sep = next_job_name sep"
proof -
  let ?k = "case r of None \<Rightarrow> 1 | Some k \<Rightarrow> Suc k"
  have one: "show_int 1 = show_nat (Suc 0)" by (simp add: show_int_def)
  have suc: "show_int (int m + 1) = show_nat (Suc m)" for m by (simp add: show_int_def nat_add_distrib)
  have num: "show_int ((if optional_number r \<noteq> - 1 then optional_number r else 0) + 1) = show_nat ?k"
    by (cases r) (simp_all add: optional_number_def one suc)
  have chk: "(if optional_number c \<noteq> - 1 then ''$'' @ show_int (optional_number c) else []) = optional_part ''$'' c"
    by (cases c) (simp_all add: optional_number_def optional_part_def show_int_def)
  have base: "show_int (int n) = show_nat n" by (simp add: show_int_def)
  have eq: "separate_id (full_name wl n r c) \<noteq> None" "\<And>sep. separate_id (full_name wl n r c) = Some sep \<Longrightarrow>
      is_workload sep = named_workload wl \<and>
      next_resubmit_string sep = named_workload wl @ ''!'' @ show_nat n @ ''#'' @ show_nat ?k @ optional_part ''$'' c \<and>
      next_job_name sep = show_nat n @ ''#'' @ show_nat ?k @ optional_part ''$'' c \<and>
      next_profile_name sep = next_job_name sep"
    unfolding separate_id_def parts_of_name[OF assms]
    by (simp_all only: Option.bind.simps Let_def job_parts.simps num chk base) auto
  then obtain sep where sep: "separate_id (full_name wl n r c) = Some sep" by blast
  show thesis
    by (rule that[OF sep]) (use eq(2)[OF sep] in \<open>auto simp: full_name_def workload_part_def optional_part_def\<close>)
qed

text \<open>
  Whether an earlier run of the job has left a checkpoint: its metadata, a document written in a
  string with single quotes, say so.
\<close>

definition checkpointed_before :: "(string \<Rightarrow> json run) \<Rightarrow> json \<Rightarrow> bool" where
  "checkpointed_before parse job_doc \<longleftrightarrow> (\<exists>s. string_member ''metadata'' job_doc = Some s \<and>
     optional_member get_bool ''checkpointed'' False (parse_doc parse (replace_char single_quote double_quote s)) = Some True)"

definition time_read :: "(string \<Rightarrow> json run) \<Rightarrow> killed_data \<Rightarrow> json \<Rightarrow> rat" where
  "time_read parse x job_doc = (if checkpointed_before parse job_doc then read_time x else 0)"

lemma string_member_there: "has_member k d = Some False \<Longrightarrow> string_member k d = None"
  by (auto simp: has_member_def string_member_def member_at_def run_simps split: option.splits)

lemma note_progress_checkpoints:
  assumes "note_progress parse print speed x t jd = Some (n, pt, jd')"
  shows "checkpoints_in x (t - time_read parse x jd) = Some n" "pt = checkpoints_time x n + time_read parse x jd"
  using assms unfolding note_progress_def
  by (auto simp: run_simps Let_def time_read_def checkpointed_before_def dest: string_member_there split: if_splits)

lemma checkpoints_in_bounds:
  assumes "checkpoints_in x t = Some n" "0 < checkpoint_interval x + dump_time x"
  shows "checkpoints_time x n \<le> t" "t < checkpoints_time x n + (checkpoint_interval x + dump_time x)" "0 \<le> t \<Longrightarrow> 0 \<le> n"
proof -
  have n: "n = floor (t / (checkpoint_interval x + dump_time x))" using assms(1) by (auto simp: checkpoints_in_def run_simps)
  show "checkpoints_time x n \<le> t" unfolding n checkpoints_time_def by (rule floor_divide_lower[OF assms(2)])
  show "t < checkpoints_time x n + (checkpoint_interval x + dump_time x)"
    using floor_divide_upper[OF assms(2), of t] unfolding n checkpoints_time_def by (simp add: algebra_simps)
  show "0 \<le> n" if "0 \<le> t" using that assms(2) by (simp add: n)
qed

lemma documents_need_restart:
  assumes "checkpointing_on w" "0 < progress" "kd_profile x \<noteq> OTHER_PROFILE" "checkpoint_runtime x = None"
  shows "resubmitted_documents parse print w j x progress date sep = None"
  using assms
  by (cases "kd_profile x")
    (auto simp: resubmitted_documents_def get_meta_data_from_delay_def get_meta_data_from_parallel_homogeneous_def
      run_simps Let_def)

lemma fold_run_aborts: "x \<in> set xs \<Longrightarrow> (\<And>s. f x s = None) \<Longrightarrow> fold_run f xs s = None"
  by (induction xs arbitrary: s) (auto simp: run_simps)

lemma documents_named:
  assumes "resubmitted_documents parse print w j x progress date sep = Some (pd, jd)"
  shows "string_member ''id'' jd = Some (next_resubmit_string sep)" "string_member ''profile'' jd = Some (next_profile_name sep)"
proof -
  obtain d5 d6 where d: "set_member ''profile'' (JString (next_profile_name sep)) d5 = Some d6"
    "set_member ''id'' (JString (next_resubmit_string sep)) d6 = Some jd"
    using assms by (auto simp: resubmitted_documents_def Let_def elim!: run_bindE)
  show "string_member ''id'' jd = Some (next_resubmit_string sep)" "string_member ''profile'' jd = Some (next_profile_name sep)"
    using set_member_at[OF d(2), of "''id''"] set_member_at[OF d(2), of "''profile''"] set_member_at[OF d(1), of "''profile''"]
    by (simp_all add: string_member_def)
qed

lemma registration_decided:
  "add_submit_profile parses wn pn desc date d = Some d' \<Longrightarrow> decided date [RegisterProfile wn pn desc] d d'"
  "add_submit_job parses False wn jn jd pd date sp d = Some d' \<Longrightarrow> decided date [RegisterJob (wn @ ''!'' @ jn) jd pd sp] d d'"
  "add_set_job_metadata i meta date d = Some d' \<Longrightarrow> decided date [SetJobMetadata i meta] d d'"
  by (auto simp: add_submit_profile_def add_submit_job_def add_set_job_metadata_def append_register_profile_def
      append_register_job_def append_set_job_metadata_def on_writer_def append_event_def decided_def run_simps)

lemma registration_succeeds:
  assumes "last_date (writer d) \<le> date"
  shows "parses desc \<Longrightarrow> desc \<noteq> [] \<Longrightarrow>
      \<exists>d'. add_submit_profile parses wn pn desc date d = Some d' \<and> last_date (writer d') \<le> date"
    "parses jd \<Longrightarrow> parses pd \<Longrightarrow> \<exists>d'. add_submit_job parses False wn jn jd pd date True d = Some d'"
  using assms by (auto simp: add_submit_profile_def add_submit_job_def append_register_profile_def
      append_register_job_def on_writer_def append_event_def)

lemma resubmit_one_decided:
  assumes "resubmit_one parse print False w data date (i, msg) d = Some d'" "separate_id i = Some sep"
  obtains j pd jd es where
    "resubmitted_documents parse print w j (data i) (msg_progress msg) date sep = Some (pd, jd)"
    "decided date ([RegisterProfile (is_workload sep) (next_profile_name sep) (print pd),
      RegisterJob (is_workload sep @ ''!'' @ next_job_name sep) (print jd) (print pd) True] @ es) d d'"
    "es = [] \<or> (\<exists>m. es = [SetJobMetadata (next_resubmit_string sep) m])"
proof -
  let ?parses = "\<lambda>s. parse s \<noteq> None"
  obtain j where j: "workload_job i w = Some j" using assms(1) by (auto simp: resubmit_one_def elim!: run_bindE)
  obtain pd jd where D: "resubmitted_documents parse print w j (data i) (msg_progress msg) date sep = Some (pd, jd)"
    using assms j by (auto simp: resubmit_one_def elim!: run_bindE)
  have R: "Option.bind (add_submit_profile ?parses (is_workload sep) (next_profile_name sep) (print pd) date d) (\<lambda>d1.
      Option.bind (add_submit_job ?parses False (is_workload sep) (next_job_name sep) (print jd) (print pd) date True d1) (\<lambda>d2.
      Option.bind (has_member ''metadata'' jd) (\<lambda>there. if there
        then Option.bind (string_member ''metadata'' jd) (\<lambda>meta. add_set_job_metadata (next_resubmit_string sep)
          (replace_char double_quote single_quote meta) date d2)
        else Some d2))) = Some d'"
    using assms j D by (simp add: resubmit_one_def Let_def)
  obtain d1 where d1: "add_submit_profile ?parses (is_workload sep) (next_profile_name sep) (print pd) date d = Some d1"
    and R1: "Option.bind (add_submit_job ?parses False (is_workload sep) (next_job_name sep) (print jd) (print pd) date True d1) (\<lambda>d2.
      Option.bind (has_member ''metadata'' jd) (\<lambda>there. if there
        then Option.bind (string_member ''metadata'' jd) (\<lambda>meta. add_set_job_metadata (next_resubmit_string sep)
          (replace_char double_quote single_quote meta) date d2)
        else Some d2)) = Some d'"
    using R by (rule run_bindE)
  obtain d2 where d2: "add_submit_job ?parses False (is_workload sep) (next_job_name sep) (print jd) (print pd) date True d1 = Some d2"
    and R2: "Option.bind (has_member ''metadata'' jd) (\<lambda>there. if there
        then Option.bind (string_member ''metadata'' jd) (\<lambda>meta. add_set_job_metadata (next_resubmit_string sep)
          (replace_char double_quote single_quote meta) date d2)
        else Some d2) = Some d'"
    using R1 by (rule run_bindE)
  obtain there where R3: "(if there then Option.bind (string_member ''metadata'' jd) (\<lambda>meta. add_set_job_metadata (next_resubmit_string sep)
          (replace_char double_quote single_quote meta) date d2) else Some d2) = Some d'"
    using R2 by (rule run_bindE)
  have e: "decided date ([RegisterProfile (is_workload sep) (next_profile_name sep) (print pd)] @
      [RegisterJob (is_workload sep @ ''!'' @ next_job_name sep) (print jd) (print pd) True]) d d2"
    by (rule decided_trans[OF registration_decided(1)[OF d1] registration_decided(2)[OF d2]])
  show thesis
  proof (cases there)
    case True
    then obtain meta where "add_set_job_metadata (next_resubmit_string sep) (replace_char double_quote single_quote meta) date d2 = Some d'"
      using R3 by (auto elim!: run_bindE)
    from decided_trans[OF e registration_decided(3)[OF this]] show thesis using that[OF D] by simp
  next
    case False
    then show thesis using that[OF D, of "[]"] e R3 by simp
  qed
qed

subsection \<open>Properties\<close>

text \<open>
  C23: a killed job comes back under its next name.  The profile and the job are registered with the
  resubmission count one higher, the same number and checkpoint, and the registered documents name
  each other; at most the metadata of the job follow.
\<close>

theorem resubmitted_under_next_name:
  assumes "plain_workload wl" "fits_int (int n)" "fits_int (optional_number r)" "fits_int (optional_number c)"
    and "length (full_name wl n r c) \<le> 2 ^ 63"
    and "resubmit_one parse print False w data date (full_name wl n r c, msg) d = Some d'"
  shows "\<exists>k pd jd es. k = (case r of None \<Rightarrow> 1 | Some i \<Rightarrow> Suc i) \<and>
    decided date ([RegisterProfile (named_workload wl) (full_name None n (Some k) c) (print pd),
      RegisterJob (full_name (Some (named_workload wl)) n (Some k) c) (print jd) (print pd) True] @ es) d d' \<and>
    string_member ''id'' jd = Some (full_name (Some (named_workload wl)) n (Some k) c) \<and>
    string_member ''profile'' jd = Some (full_name None n (Some k) c) \<and>
    (es = [] \<or> (\<exists>m. es = [SetJobMetadata (full_name (Some (named_workload wl)) n (Some k) c) m]))"
proof (rule separate_id_of_name[OF assms(1-5)], goal_cases)
  case (1 sep)
  have i: "full_name (Some v) n k c = v @ ''!'' @ full_name None n k c" for v k
    by (simp add: full_name_def workload_part_def)
  obtain j pd jd es where e: "resubmitted_documents parse print w j (data (full_name wl n r c)) (msg_progress msg) date sep = Some (pd, jd)"
    "decided date ([RegisterProfile (is_workload sep) (next_profile_name sep) (print pd),
      RegisterJob (is_workload sep @ ''!'' @ next_job_name sep) (print jd) (print pd) True] @ es) d d'"
    "es = [] \<or> (\<exists>m. es = [SetJobMetadata (next_resubmit_string sep) m])"
    by (rule resubmit_one_decided[OF assms(6) 1(1)])
  show ?case
    using e(2,3) documents_named[OF e(1)] 1(2-5)
    by (intro exI[of _ "case r of None \<Rightarrow> 1 | Some i \<Rightarrow> Suc i"] exI[of _ pd] exI[of _ jd] exI[of _ es]) (simp only: i[symmetric] simp_thms)
qed

text \<open>
  C24: the resubmission of a delay loses less than one checkpoint period.  The time already done,
  less the reading of the checkpoint the run started from if the metadata of the job tell of one,
  exceeds the time of the checkpoints counted by less than a period.  The new delay is the old one
  without the time of these checkpoints, and with the reading of a checkpoint unless the old delay
  contained it already.
\<close>

theorem delay_resubmission_loses_little:
  assumes "checkpointing_on w" "0 < progress" "double_member ''delay'' pd = Some d" "checkpoint_runtime x = Some t"
    and "0 < checkpoint_interval x + dump_time x"
    and "(if checkpointed_before parse jd then read_time x else 0) \<le> progress * d + t"
    and "get_meta_data_from_delay parse print w j x progress (pd, jd) = Some (pd', jd')"
  shows "\<exists>b n. b = (if checkpointed_before parse jd then read_time x else 0) \<and> 0 \<le> n \<and>
    0 \<le> progress * d + t - b - checkpoints_time x n \<and>
    progress * d + t - b - checkpoints_time x n < checkpoint_interval x + dump_time x \<and>
    double_member ''delay'' pd' = Some (if 0 < n then d - checkpoints_time x n + (read_time x - b) else d)"
proof -
  obtain n pt jd1 where n: "note_progress parse print 1 x (progress * d + t) jd = Some (n, pt, jd1)"
    and rest: "(if 0 < n then Option.bind (shorten_walltime w j x n jd1) (\<lambda>jd2.
        Option.bind (set_member ''delay'' (JDouble (d - pt + read_time x)) pd) (\<lambda>pd1. Some (pd1, jd2)))
      else Some (pd, jd1)) = Some (pd', jd')"
    using assms(1-4,7) unfolding get_meta_data_from_delay_def by (auto simp: run_simps)
  let ?b = "time_read parse x jd"
  note b = note_progress_checkpoints[OF n]
  note c = checkpoints_in_bounds[OF b(1) assms(5)]
  have n0: "0 \<le> n" using c(3) assms(6) by (simp add: time_read_def)
  have "double_member ''delay'' pd' = Some (if 0 < n then d - checkpoints_time x n + (read_time x - ?b) else d)"
  proof (cases "0 < n")
    case True
    then obtain pd1 where "set_member ''delay'' (JDouble (d - pt + read_time x)) pd = Some pd1" "pd' = pd1"
      using rest by (auto simp: run_simps)
    then show ?thesis using set_member_at[of "''delay''" _ pd pd1 "''delay''"] True b(2) by (simp add: double_member_def algebra_simps)
  next
    case False
    then show ?thesis using rest assms(3) by simp
  qed
  then show ?thesis using n0 c(1,2) unfolding time_read_def by (intro exI[of _ ?b] exI[of _ n]) (simp add: time_read_def algebra_simps)
qed

text \<open>
  with checkpointing, the resubmission of a job killed in the middle of its work stops the
  scheduler unless the simulation was itself started from a checkpoint: the code adds the runtime
  that the job had at that restart, through a pointer that is not set otherwise.
\<close>

theorem resubmission_needs_restart:
  assumes "checkpointing_on w" "(i, msg) \<in> set killed" "0 < msg_progress msg"
    and "kd_profile (data i) \<noteq> OTHER_PROFILE" "checkpoint_runtime (data i) = None"
  shows "handle_resubmission parse print redis w data date killed d = None"
  unfolding handle_resubmission_def
  by (rule fold_run_aborts[OF assms(2)])
    (simp add: resubmit_one_def run_simps documents_need_restart[OF assms(1,3,4,5)])

subsection \<open>Examples\<close>

text \<open>A job \<^verbatim>\<open>w0!3\<close> of profile \<^verbatim>\<open>delay\<close> 100, with checkpoints every 9, a dump of 1 and a reading of 2.\<close>

definition demo_job_doc :: json where
  "demo_job_doc = JObject [(''id'', JString ''w0!3''), (''profile'', JString ''3''), (''subtime'', JDouble 0),
     (''original_submit'', JDouble 0), (''original_start'', JDouble 1), (''submission_times'', JArray [JDouble 0])]"

definition demo_profile_doc :: json where
  "demo_profile_doc = JObject [(''type'', JString ''delay''), (''delay'', JDouble 100)]"

definition demo_parse :: "string \<Rightarrow> json run" where
  "demo_parse s = (if s = ''job'' then Some demo_job_doc else Some demo_profile_doc)"

definition demo_print :: "json \<Rightarrow> string" where
  "demo_print d = ''text''"

definition demo_killed :: "rat option \<Rightarrow> killed_data" where
  "demo_killed t = \<lparr>kd_profile = DELAY, kd_profile_description = ''profile'', kd_job_description = ''job'',
     checkpoint_interval = 9, dump_time = 1, read_time = 2, checkpoint_runtime = t\<rparr>"

definition demo_killed_workload :: "bool \<Rightarrow> sched_workload" where
  "demo_killed_workload b = (new_sched_workload 0)\<lparr>sw_job_map := [''w0!3'' \<mapsto> plain_job ''w0!3'' 1 200], checkpointing_on := b\<rparr>"

definition demo_message :: job_message where
  "demo_message = \<lparr>msg_id = ''w0!3'', progress_str = [], msg_progress = 1 / 2, for_what = KILL_NONE\<rparr>"

lemma demo_name: "full_name (Some ''w0'') 3 None None = ''w0!3''"
proof -
  have "show_nat 3 = ''3''" by code_simp
  then show ?thesis by (simp add: full_name_def workload_part_def optional_part_def)
qed

lemma demo_plain: "plain_workload (Some ''w0'')" "fits_int (int 3)" "fits_int (optional_number None)"
  "length (full_name (Some ''w0'') 3 None None) \<le> 2 ^ 63"
  unfolding demo_name by (simp_all add: plain_workload_def fits_int_def optional_number_def)

lemmas document_simps = set_member_def push_member_def member_at_def has_member_def string_member_def

lemma demo_resubmitted:
  obtains d' where "resubmit_one demo_parse demo_print False (demo_killed_workload False) (\<lambda>i. demo_killed None) 5
      (full_name (Some ''w0'') 3 None None, demo_message) new_decisions = Some d'"
proof (rule separate_id_of_name[OF demo_plain(1,2,3,3,4)], goal_cases)
  case (1 sep)
  let ?w = "demo_killed_workload False"
  have j: "workload_job ''w0!3'' ?w = Some (plain_job ''w0!3'' 1 200)"
    by (simp add: workload_job_def demo_killed_workload_def)
  obtain jd where doc: "resubmitted_documents demo_parse demo_print ?w (plain_job ''w0!3'' 1 200) (demo_killed None)
      (msg_progress demo_message) 5 sep = Some (demo_profile_doc, jd)" "has_member ''metadata'' jd = Some False"
    by (simp add: resubmitted_documents_def demo_killed_def parse_doc_def demo_parse_def get_meta_data_from_delay_def
        demo_killed_workload_def new_sched_workload_def demo_job_doc_def document_simps)
  have ld: "last_date (writer new_decisions) \<le> 5" by (simp add: new_decisions_def new_writer_def)
  have p: "demo_parse s \<noteq> None" "demo_print t \<noteq> []" for s t by (simp_all add: demo_parse_def demo_print_def)
  obtain d1 where d1: "add_submit_profile (\<lambda>s. demo_parse s \<noteq> None) (is_workload sep) (next_profile_name sep)
      (demo_print demo_profile_doc) 5 new_decisions = Some d1" "last_date (writer d1) \<le> 5"
    using registration_succeeds(1)[OF ld, of "\<lambda>s. demo_parse s \<noteq> None", OF p] by blast
  obtain d2 where d2: "add_submit_job (\<lambda>s. demo_parse s \<noteq> None) False (is_workload sep) (next_job_name sep)
      (demo_print jd) (demo_print demo_profile_doc) 5 True d1 = Some d2"
    using registration_succeeds(2)[OF d1(2), of "\<lambda>s. demo_parse s \<noteq> None", OF p(1,1)] by blast
  have "resubmit_one demo_parse demo_print False ?w (\<lambda>i. demo_killed None) 5 (''w0!3'', demo_message) new_decisions = Some d2"
    unfolding resubmit_one_def using 1(2)[unfolded demo_name] j doc d1(1) d2 by (simp add: Let_def)
  then show thesis using that unfolding demo_name by blast
qed

theorem resubmitted_under_next_name_witness:
  "\<exists>d' pd jd es. resubmit_one demo_parse demo_print False (demo_killed_workload False) (\<lambda>i. demo_killed None) 5
      (full_name (Some ''w0'') 3 None None, demo_message) new_decisions = Some d' \<and>
     decided 5 ([RegisterProfile ''w0'' (full_name None 3 (Some 1) None) (demo_print pd),
       RegisterJob (full_name (Some ''w0'') 3 (Some 1) None) (demo_print jd) (demo_print pd) True] @ es) new_decisions d'"
proof (rule demo_resubmitted)
  fix d'
  assume d: "resubmit_one demo_parse demo_print False (demo_killed_workload False) (\<lambda>i. demo_killed None) 5
      (full_name (Some ''w0'') 3 None None, demo_message) new_decisions = Some d'"
  have "named_workload (Some ''w0'') = ''w0''" by (simp add: named_workload_def)
  then show ?thesis using d resubmitted_under_next_name[OF demo_plain(1,2,3,3,4) d] by auto
qed

text \<open>The same job without and with an earlier checkpoint: 48 of the 50 seconds done are then its own.\<close>

definition noted_job_doc :: json where
  "noted_job_doc = JObject [(''id'', JString ''w0!3#1''), (''metadata'', JString ''meta'')]"

definition noted_parse :: "string \<Rightarrow> json run" where
  "noted_parse s = Some (JObject [(''checkpointed'', JBool True), (''num_dumps'', JInt 1), (''work_progress'', JDouble 9)])"

lemma demo_delays:
  "\<exists>pd' jd'. get_meta_data_from_delay demo_parse demo_print (demo_killed_workload True) (plain_job ''w0!3'' 1 200)
      (demo_killed (Some 0)) (1 / 2) (demo_profile_doc, demo_job_doc) = Some (pd', jd')"
  "\<exists>pd' jd'. get_meta_data_from_delay noted_parse demo_print (demo_killed_workload True) (plain_job ''w0!3#1'' 1 200)
      (demo_killed (Some 0)) (1 / 2) (demo_profile_doc, noted_job_doc) = Some (pd', jd')"
  "\<not> checkpointed_before demo_parse demo_job_doc" "checkpointed_before noted_parse noted_job_doc"
  by (simp_all add: get_meta_data_from_delay_def note_progress_def checkpoints_in_def first_note_def add_member_def
      shorten_walltime_def document_simps demo_job_doc_def demo_profile_doc_def double_member_def demo_killed_def
      demo_killed_workload_def new_sched_workload_def checkpointed_before_def noted_job_doc_def noted_parse_def
      parse_doc_def replace_char_def optional_member_def note_work_def note_dumps_def int_member_def fits_int_def)

lemma period_unique:
  assumes "0 \<le> (48::rat) - of_int n * 10 \<and> 48 - of_int n * 10 < (10::rat)"
  shows "n = 4"
proof -
  have "(3::rat) < of_int n" "of_int n < (5::rat)" using assms by simp_all
  then have "3 < n" "n < 5" by simp_all
  then show ?thesis by simp
qed

theorem delay_resubmission_loses_little_witness:
  "(\<exists>pd' jd' n. get_meta_data_from_delay demo_parse demo_print (demo_killed_workload True) (plain_job ''w0!3'' 1 200)
      (demo_killed (Some 0)) (1 / 2) (demo_profile_doc, demo_job_doc) = Some (pd', jd') \<and>
     double_member ''delay'' pd' = Some (if 0 < n then 100 - checkpoints_time (demo_killed (Some 0)) n + 2 else 100)) \<and>
   (\<exists>pd' jd'. get_meta_data_from_delay noted_parse demo_print (demo_killed_workload True) (plain_job ''w0!3#1'' 1 200)
      (demo_killed (Some 0)) (1 / 2) (demo_profile_doc, noted_job_doc) = Some (pd', jd') \<and>
     double_member ''delay'' pd' = Some 60)"
proof
  let ?x = "demo_killed (Some 0)" and ?w = "demo_killed_workload True"
  have x: "checkpoint_interval ?x + dump_time ?x = 10" "0 < checkpoint_interval ?x + dump_time ?x"
    "read_time ?x = 2" "checkpoint_runtime ?x = Some 0"
    by (simp_all add: demo_killed_def)
  have w: "checkpointing_on ?w" "(0::rat) < 1 / 2" by (simp_all add: demo_killed_workload_def)
  have d: "double_member ''delay'' demo_profile_doc = Some 100"
    by (simp add: double_member_def member_at_def demo_profile_doc_def)
  obtain pd' jd' where g: "get_meta_data_from_delay demo_parse demo_print ?w (plain_job ''w0!3'' 1 200) ?x (1 / 2)
      (demo_profile_doc, demo_job_doc) = Some (pd', jd')" using demo_delays(1) by blast
  have "(if checkpointed_before demo_parse demo_job_doc then read_time ?x else 0) \<le> (1 / 2) * 100 + 0"
    using demo_delays(3) by simp
  from delay_resubmission_loses_little[OF w d x(4,2) this g] demo_delays(3) x(3) g
  show "\<exists>pd' jd' n. get_meta_data_from_delay demo_parse demo_print ?w (plain_job ''w0!3'' 1 200) ?x (1 / 2)
      (demo_profile_doc, demo_job_doc) = Some (pd', jd') \<and>
     double_member ''delay'' pd' = Some (if 0 < n then 100 - checkpoints_time ?x n + 2 else 100)" by auto
  obtain qd' kd' where h: "get_meta_data_from_delay noted_parse demo_print ?w (plain_job ''w0!3#1'' 1 200) ?x (1 / 2)
      (demo_profile_doc, noted_job_doc) = Some (qd', kd')" using demo_delays(2) by blast
  have "(if checkpointed_before noted_parse noted_job_doc then read_time ?x else 0) \<le> (1 / 2) * 100 + 0"
    using x(3) by simp
  from delay_resubmission_loses_little[OF w d x(4,2) this h] demo_delays(4) x(1,3)
  obtain n where n: "0 \<le> 48 - of_int n * (10::rat) \<and> 48 - of_int n * 10 < (10::rat)"
    "double_member ''delay'' qd' = Some (if 0 < n then 100 - of_int n * 10 else 100)"
    by (auto simp: checkpoints_time_def)
  have "n = 4" by (rule period_unique[OF n(1)])
  then show "\<exists>pd' jd'. get_meta_data_from_delay noted_parse demo_print ?w (plain_job ''w0!3#1'' 1 200) ?x (1 / 2)
      (demo_profile_doc, noted_job_doc) = Some (pd', jd') \<and> double_member ''delay'' pd' = Some 60" using h n(2) by simp
qed

theorem resubmission_needs_restart_witness:
  "handle_resubmission demo_parse demo_print False (demo_killed_workload True) (\<lambda>i. demo_killed None) 5
     [(''w0!3'', demo_message)] new_decisions = None"
  by (rule resubmission_needs_restart[of _ "''w0!3''" demo_message])
    (simp_all add: demo_killed_workload_def demo_message_def demo_killed_def)

end
