(* ===== verification/Fcfs_Fast2.thy ===== *)
theory Fcfs_Fast2
  imports Fcfs Resubmit Failures
begin

text \<open>
  First come, first served with failures and with several jobs on one machine
  (\<^verbatim>\<open>algo/fcfs_fast2.cpp\<close>, \<^verbatim>\<open>fcfs_fast2.hpp\<close>).  With \<^verbatim>\<open>share-packing\<close>, a job that asks for one
  machine gets one core of a machine; the machines opened for such jobs are the core machines.  The
  lists of the base class are arguments of a call, except the machines that became available, which
  the scheduler writes itself.

  Without shared machines and failures the scheduler takes the decisions of \<^verbatim>\<open>FCFSFast\<close>.
\<close>

subsection \<open>State\<close>

text \<open>The cores of a machine; its name and its speed are not read.\<close>

record core_machine =
  cm_core_count :: int
  cm_cores_available :: int

record fcfs_fast2 =
  ff_nb_machines :: int
  ff_available :: machines
  ff_unavailable :: machines
  ff_repair :: machines
  ff_core_machines :: machines
  ff_nb_available :: int
  ff_pending :: "job list"
  ff_my_kill_jobs :: "(job_id \<times> job_message) list"
  ff_running :: "job_id set"
  ff_need_to_send_finished :: bool
  ff_share_packing :: bool
  ff_core_percent :: rat
  ff_machines_by_int :: "nat \<Rightarrow> core_machine option"
  ff_allocations :: allocations
  ff_became_available :: machines
  ff_decisions :: decisions

text \<open>The conversion of a \<^verbatim>\<open>double\<close> to \<^verbatim>\<open>int\<close> cuts the fraction off.\<close>

definition truncate :: "rat \<Rightarrow> int" where
  "truncate x = (if 0 \<le> x then floor x else ceiling x)"

definition usable_cores :: "fcfs_fast2 \<Rightarrow> core_machine \<Rightarrow> int" where
  "usable_cores s m = truncate (of_int (cm_core_count m) * ff_core_percent s)"

text \<open>A machine read without identifier has number 0, one read without cores has none.\<close>

definition read_core_machine :: "json \<Rightarrow> fcfs_fast2 \<Rightarrow> fcfs_fast2 run" where
  "read_core_machine r s = do {
     i \<leftarrow> optional_member get_int ''id'' 0 r;
     there \<leftarrow> has_member ''core_count'' r;
     n \<leftarrow> optional_member get_int ''core_count'' (- 1) r;
     speed \<leftarrow> optional_member get_double ''speed'' 0 r;
     name \<leftarrow> optional_member get_string ''name'' [] r;
     Some (s\<lparr>ff_machines_by_int := (ff_machines_by_int s)(nat i \<mapsto>
       \<lparr>cm_core_count = n, cm_cores_available = (if there then truncate (of_int n * ff_core_percent s) else 0)\<rparr>)\<rparr>) }"

definition ff_on_simulation_start ::
  "int \<Rightarrow> sched_workload \<Rightarrow> draws \<Rightarrow> time \<Rightarrow> json \<Rightarrow> fcfs_fast2 \<Rightarrow> fcfs_fast2 run" where
  "ff_on_simulation_start pid w dr date event s = do {
     d \<leftarrow> add_generic_notification ''PID'' (show_int pid) date (ff_decisions s);
     config \<leftarrow> member_at ''config'' event;
     share \<leftarrow> optional_member get_bool ''share-packing'' (ff_share_packing s) config;
     percent \<leftarrow> optional_member get_double ''core-percent'' (ff_core_percent s) config;
     folder \<leftarrow> optional_member get_string ''output-folder'' [] config;
     seed \<leftarrow> optional_member get_bool ''seed-failures'' False config;
     logged \<leftarrow> optional_member get_bool ''log_b_log'' False config;
     d1 \<leftarrow> set_generators w dr date d;
     let s1 = s\<lparr>ff_share_packing := share, ff_core_percent := percent, ff_decisions := d1,
       ff_available := ff_available s \<union> {0..<nat (ff_nb_machines s)}, ff_nb_available := ff_nb_machines s\<rparr>;
     assertion (int (card (ff_available s1)) = ff_nb_machines s1);
     resources \<leftarrow> member_at ''compute_resources'' event;
     rs \<leftarrow> elements resources;
     fold_run read_core_machine rs s1 }"

subsection \<open>Failures\<close>

definition ff_machine_available :: "machines \<Rightarrow> fcfs_fast2 \<Rightarrow> fcfs_fast2" where
  "ff_machine_available ms s = s\<lparr>ff_became_available := ff_became_available s \<union> ms,
     ff_unavailable := ff_unavailable s - ms, ff_available := ff_available s \<union> ms,
     ff_nb_available := ff_nb_available s + int (card ms)\<rparr>"

text \<open>A failure of the MTBF kind kills a running job.\<close>

definition ff_my_kill_job :: "unordered \<Rightarrow> sched_workload \<Rightarrow> fcfs_fast2 \<Rightarrow> fcfs_fast2 run" where
  "ff_my_kill_job un w s =
     (if ff_running s \<noteq> {} then do {
        let i = first_of un (ff_running s);
        j \<leftarrow> workload_job i w;
        Some (s\<lparr>ff_my_kill_jobs := insert_kill un (i, kill_message i) (ff_my_kill_jobs s)\<rparr>) }
      else Some s)"

text \<open>The jobs that hold a machine are to be killed.\<close>

definition kill_holders :: "unordered \<Rightarrow> sched_workload \<Rightarrow> nat \<Rightarrow> fcfs_fast2 \<Rightarrow> fcfs_fast2 run" where
  "kill_holders un w m s =
     (if ff_running s \<noteq> {} then
        fold_run (\<lambda>i s'.
          if m \<in> alloc_of (ff_allocations s) i then do {
            j \<leftarrow> workload_job i w;
            Some (s'\<lparr>ff_my_kill_jobs := insert_kill un (i, kill_message i) (ff_my_kill_jobs s')\<rparr>) }
          else Some s') (keys_of un (ff_allocations s)) s
      else Some s)"

definition on_machine_down_for_repair ::
  "unordered \<Rightarrow> sched_workload \<Rightarrow> draws \<Rightarrow> time \<Rightarrow> fcfs_fast2 \<Rightarrow> fcfs_fast2 run" where
  "on_machine_down_for_repair un w dr date s =
     (let m = drawn_machine dr in
      if m \<notin> ff_repair s then do {
        let s1 = s\<lparr>ff_available := ff_available s - {m}, ff_unavailable := insert m (ff_unavailable s),
          ff_repair := insert m (ff_repair s), ff_nb_available := int (card (ff_available s - {m}))\<rparr>;
        let repair_time = (if wl_MTTR w \<noteq> - 1 then drawn_repair_time dr else wl_repair_time w);
        d \<leftarrow> add_call_me_later REPAIR_DONE (int m) (date + repair_time) date ''null'' (ff_decisions s1);
        kill_holders un w m (s1\<lparr>ff_decisions := d\<rparr>) }
      else Some s)"

definition on_machine_instant_down_up :: "unordered \<Rightarrow> sched_workload \<Rightarrow> draws \<Rightarrow> fcfs_fast2 \<Rightarrow> fcfs_fast2 run" where
  "on_machine_instant_down_up un w dr s = kill_holders un w (drawn_machine dr) s"

definition fail_one ::
  "unordered \<Rightarrow> sched_workload \<Rightarrow> draws \<Rightarrow> time \<Rightarrow> fcfs_fast2 \<Rightarrow> fcfs_fast2 run" where
  "fail_one un w dr date s =
     (if wl_repair_time w = 0 then on_machine_instant_down_up un w dr s
      else on_machine_down_for_repair un w dr date s)"

definition call_again :: "call_me_later_type \<Rightarrow> time \<Rightarrow> time \<Rightarrow> fcfs_fast2 \<Rightarrow> fcfs_fast2 run" where
  "call_again what future date s = do {
     d \<leftarrow> add_call_me_later what 1 future date ''null'' (ff_decisions s);
     Some (s\<lparr>ff_decisions := d\<rparr>) }"

text \<open>The end of a repair: the number of the call is taken for the number of the machine.\<close>

definition ff_repair_done :: "int \<Rightarrow> fcfs_fast2 \<Rightarrow> fcfs_fast2" where
  "ff_repair_done n s = s\<lparr>ff_available := insert (nat n) (ff_available s),
     ff_unavailable := ff_unavailable s - {nat n}, ff_repair := ff_repair s - {nat n},
     ff_nb_available := int (card (insert (nat n) (ff_available s))),
     ff_became_available := insert (nat n) (ff_became_available s)\<rparr>"

definition ff_on_requested_call ::
  "unordered \<Rightarrow> sched_workload \<Rightarrow> draws \<Rightarrow> bool \<Rightarrow> time \<Rightarrow> int \<Rightarrow> call_me_later_type \<Rightarrow> fcfs_fast2 \<Rightarrow> fcfs_fast2 run" where
  "ff_on_requested_call un w dr no_more_static date n what s =
     (let active = (ff_running s \<noteq> {} \<or> ff_pending s \<noteq> [] \<or> \<not> no_more_static) in
      case what of
        CML_SMTBF \<Rightarrow>
          if active then do {
            s1 \<leftarrow> fail_one un w dr date s;
            call_again CML_SMTBF (next_failure dr + date) date s1 }
          else Some s
      | CML_MTBF \<Rightarrow>
          if active then do {
            s1 \<leftarrow> ff_my_kill_job un w s;
            call_again CML_MTBF (next_failure dr + date) date s1 }
          else Some s
      | CML_FIXED_FAILURE \<Rightarrow>
          if active then do {
            s1 \<leftarrow> fail_one un w dr date s;
            call_again CML_FIXED_FAILURE (fixed_failures w + date) date s1 }
          else Some s
      | REPAIR_DONE \<Rightarrow> Some (ff_repair_done n s)
      | _ \<Rightarrow> Some s)"

subsection \<open>Starting jobs\<close>

text \<open>The first core machine with a free core, in the order of the machines.\<close>

fun free_core :: "(nat \<Rightarrow> core_machine option) \<Rightarrow> nat list \<Rightarrow> nat option run" where
  "free_core by_int [] = Some None"
| "free_core by_int (m # ms) = do {
     cm \<leftarrow> by_int m;
     (if 1 \<le> cm_cores_available cm then Some (Some m) else free_core by_int ms) }"

definition change_cores :: "int \<Rightarrow> nat \<Rightarrow> fcfs_fast2 \<Rightarrow> fcfs_fast2 run" where
  "change_cores k m s = do {
     cm \<leftarrow> ff_machines_by_int s m;
     Some (s\<lparr>ff_machines_by_int := (ff_machines_by_int s)(m \<mapsto> cm\<lparr>cm_cores_available := cm_cores_available cm + k\<rparr>)\<rparr>) }"

definition ff_execute :: "time \<Rightarrow> job_id \<Rightarrow> machines \<Rightarrow> int list \<Rightarrow> fcfs_fast2 \<Rightarrow> fcfs_fast2 run" where
  "ff_execute date i ms mapping s = do {
     d \<leftarrow> add_execute_job i ms date mapping (ff_decisions s);
     Some (s\<lparr>ff_decisions := d, ff_allocations := (ff_allocations s)(i \<mapsto> ms), ff_running := insert i (ff_running s)\<rparr>) }"

text \<open>A job of one machine, when machines are shared: on a core machine, else on a new one.\<close>

definition ff_share :: "interval_lib \<Rightarrow> time \<Rightarrow> job_id \<Rightarrow> fcfs_fast2 \<Rightarrow> (bool \<times> fcfs_fast2) run" where
  "ff_share lib date i s = do {
     found \<leftarrow> free_core (ff_machines_by_int s) (sorted_list_of_set (ff_core_machines s));
     (case found of
        Some m \<Rightarrow> do {
          s1 \<leftarrow> ff_execute date i {m} [0] s;
          s2 \<leftarrow> change_cores (- 1) m s1;
          Some (True, s2) }
      | None \<Rightarrow>
          if 0 < ff_nb_available s then do {
            let ms = left_of lib (ff_available s) 1;
            s1 \<leftarrow> ff_execute date i ms [0] s;
            assertion (ms \<noteq> {});
            s2 \<leftarrow> change_cores (- 1) (Min ms) s1;
            Some (True, s2\<lparr>ff_core_machines := ff_core_machines s2 \<union> ms, ff_available := ff_available s2 - ms,
              ff_nb_available := ff_nb_available s2 - 1\<rparr>) }
          else Some (False, s)) }"

definition ff_start :: "interval_lib \<Rightarrow> time \<Rightarrow> job \<Rightarrow> fcfs_fast2 \<Rightarrow> fcfs_fast2 run" where
  "ff_start lib date j s = do {
     let ms = left_of lib (ff_available s) (nb_requested_resources j);
     s1 \<leftarrow> ff_execute date (jid j) ms [] s;
     Some (s1\<lparr>ff_available := ff_available s1 - ms, ff_nb_available := ff_nb_available s1 - nb_requested_resources j\<rparr>) }"

definition shares :: "fcfs_fast2 \<Rightarrow> job \<Rightarrow> bool" where
  "shares s j \<longleftrightarrow> ff_share_packing s \<and> nb_requested_resources j = 1"

text \<open>
  The loop over the pending jobs, which the code has twice; \<open>kept\<close> are the jobs before the iterator.
\<close>

fun ff_drain :: "interval_lib \<Rightarrow> time \<Rightarrow> job list \<Rightarrow> job list \<Rightarrow> fcfs_fast2 \<Rightarrow> fcfs_fast2 run" where
  "ff_drain lib date kept [] s = Some s"
| "ff_drain lib date kept (j # js) s =
     (if shares s j then do {
        (started, s1) \<leftarrow> ff_share lib date (jid j) s;
        (if started then ff_drain lib date kept js (s1\<lparr>ff_pending := kept @ js\<rparr>)
         else ff_drain lib date (kept @ [j]) js s1) }
      else if nb_requested_resources j \<le> ff_nb_available s then do {
        s1 \<leftarrow> ff_start lib date j s;
        ff_drain lib date kept js (s1\<lparr>ff_pending := kept @ js\<rparr>) }
      else Some s)"

subsection \<open>Decisions\<close>

definition ff_job_ended :: "sched_workload \<Rightarrow> job_id \<Rightarrow> fcfs_fast2 \<Rightarrow> fcfs_fast2 run" where
  "ff_job_ended w i s = do {
     finished_job \<leftarrow> workload_job i w;
     let ms = alloc_of (ff_allocations s) i;
     (if shares s finished_job then do {
        assertion (ms \<noteq> {});
        s1 \<leftarrow> change_cores 1 (Min ms) s;
        cm \<leftarrow> ff_machines_by_int s1 (Min ms);
        let s2 = (if cm_cores_available cm = usable_cores s1 cm then
            s1\<lparr>ff_core_machines := ff_core_machines s1 - ms, ff_available := ff_available s1 \<union> ms,
              ff_nb_available := ff_nb_available s1 + 1\<rparr> else s1);
        Some (s2\<lparr>ff_allocations := (ff_allocations s2)(i := None), ff_running := ff_running s2 - {i}\<rparr>) }
      else
        Some (s\<lparr>ff_available := (ff_available s \<union> (ms - ff_unavailable s)) - ff_unavailable s,
          ff_nb_available := ff_nb_available s + int (card (ms - ff_unavailable s)),
          ff_allocations := (ff_allocations s)(i := None), ff_running := ff_running s - {i},
          ff_my_kill_jobs := filter (\<lambda>(k, msg). k \<noteq> i) (ff_my_kill_jobs s)\<rparr>)) }"

definition ff_send_kills :: "time \<Rightarrow> fcfs_fast2 \<Rightarrow> fcfs_fast2 run" where
  "ff_send_kills date s =
     (if ff_my_kill_jobs s \<noteq> [] then do {
        d \<leftarrow> add_kill_job (map snd (ff_my_kill_jobs s)) date (ff_decisions s);
        Some (s\<lparr>ff_decisions := d, ff_my_kill_jobs := []\<rparr>) }
      else Some s)"

definition ff_job_released :: "interval_lib \<Rightarrow> sched_workload \<Rightarrow> time \<Rightarrow> job_id \<Rightarrow> fcfs_fast2 \<Rightarrow> fcfs_fast2 run" where
  "ff_job_released lib w date i s = do {
     new_job \<leftarrow> workload_job i w;
     (if ff_nb_machines s < nb_requested_resources new_job then do {
        d \<leftarrow> add_reject_job i date (ff_decisions s);
        Some (s\<lparr>ff_decisions := d\<rparr>) }
      else if ff_pending s \<noteq> [] then
        Some (s\<lparr>ff_pending := if CHR ''#'' \<in> set i then new_job # ff_pending s else ff_pending s @ [new_job]\<rparr>)
      else if shares s new_job then do {
        (started, s1) \<leftarrow> ff_share lib date i s;
        Some (if started then s1 else s1\<lparr>ff_pending := ff_pending s1 @ [new_job]\<rparr>) }
      else if nb_requested_resources new_job \<le> ff_nb_available s then ff_start lib date new_job s
      else Some (s\<lparr>ff_pending := ff_pending s @ [new_job]\<rparr>)) }"

text \<open>\<^verbatim>\<open>!date < 1.0\<close> compares the negation of the date: it holds unless the date is 0.\<close>

definition ff_finish :: "bool \<Rightarrow> (job_id \<times> job_message) list \<Rightarrow> time \<Rightarrow> fcfs_fast2 \<Rightarrow> fcfs_fast2 run" where
  "ff_finish no_more_static killed date s =
     (if killed = [] \<and> ff_pending s = [] \<and> ff_running s = {} \<and> ff_need_to_send_finished s \<and>
         no_more_static \<and> (if date = 0 then (1::rat) else 0) < 1 then do {
        d \<leftarrow> add_scheduler_finished_submitting_jobs date (ff_decisions s);
        Some (s\<lparr>ff_decisions := d, ff_need_to_send_finished := False\<rparr>) }
      else Some s)"

text \<open>
  What the resubmission needs beside the workload: the parser and the writer of texts, whether Redis
  is used, and the data of the killed jobs.
\<close>

record resubmission =
  rs_parse :: "string \<Rightarrow> json run"
  rs_print :: "json \<Rightarrow> string"
  rs_redis :: bool
  rs_data :: "job_id \<Rightarrow> killed_data"

definition ff_make_decisions ::
  "interval_lib \<Rightarrow> resubmission \<Rightarrow> sched_workload \<Rightarrow> bool \<Rightarrow> job_id list \<Rightarrow> (job_id \<times> job_message) list \<Rightarrow> job_id list \<Rightarrow>
   time \<Rightarrow> fcfs_fast2 \<Rightarrow> fcfs_fast2 run" where
  "ff_make_decisions lib rs w no_more_static ended killed released date s = do {
     s1 \<leftarrow> fold_run (ff_job_ended w) ended s;
     s2 \<leftarrow> ff_send_kills date s1;
     d \<leftarrow> handle_resubmission (rs_parse rs) (rs_print rs) (rs_redis rs) w (rs_data rs) date killed (ff_decisions s2);
     let s3 = s2\<lparr>ff_decisions := d\<rparr>;
     s4 \<leftarrow> (if ff_became_available s3 \<noteq> {} \<and> ff_pending s3 \<noteq> [] then ff_drain lib date [] (ff_pending s3) s3 else Some s3);
     s5 \<leftarrow> (if ended \<noteq> [] then ff_drain lib date [] (ff_pending s4) s4 else Some s4);
     s6 \<leftarrow> fold_run (ff_job_released lib w date) released s5;
     ff_finish no_more_static killed date s6 }"

subsection \<open>Simulation of the scheduler without failures\<close>

definition fc_of :: "fcfs_fast2 \<Rightarrow> fcfs" where
  "fc_of s = \<lparr>fc_nb_machines = ff_nb_machines s, fc_available = ff_available s, fc_nb_available = ff_nb_available s,
     fc_pending = ff_pending s, fc_allocations = ff_allocations s, fc_decisions = ff_decisions s\<rparr>"

text \<open>Machines are not shared, none has failed or come back, no job is to be killed.\<close>

definition undisturbed :: "fcfs_fast2 \<Rightarrow> bool" where
  "undisturbed s \<longleftrightarrow> \<not> ff_share_packing s \<and> ff_unavailable s = {} \<and> ff_my_kill_jobs s = [] \<and> ff_became_available s = {}"

definition simulates :: "fcfs_fast2 run \<Rightarrow> fcfs run \<Rightarrow> bool" where
  "simulates r t \<longleftrightarrow> map_option fc_of r = t \<and> (\<forall>s. r = Some s \<longrightarrow> undisturbed s)"

lemma simulates_simps [simp]:
  "simulates None t \<longleftrightarrow> t = None" "simulates (Some s) t \<longleftrightarrow> t = Some (fc_of s) \<and> undisturbed s"
  by (auto simp: simulates_def)

lemma simulates_bind:
  "simulates r t \<Longrightarrow> (\<And>s. undisturbed s \<Longrightarrow> simulates (f s) (g (fc_of s))) \<Longrightarrow> simulates (Option.bind r f) (Option.bind t g)"
  by (cases r) (auto simp: simulates_def)

lemma simulates_start:
  "undisturbed s \<Longrightarrow> simulates (ff_start lib date j s)
     (fcfs_start_job date j (left_of lib (fc_available (fc_of s)) (nb_requested_resources j)) (fc_of s))"
  by (cases "add_execute_job (jid j) (left_of lib (ff_available s) (nb_requested_resources j)) date [] (ff_decisions s)")
    (simp_all add: ff_start_def ff_execute_def fcfs_start_job_def fc_of_def undisturbed_def Let_def)

lemma simulates_drain:
  "undisturbed s \<Longrightarrow> simulates (ff_drain lib date [] js s) (fcfs_fast_drain lib date js (fc_of s))"
proof (induction js arbitrary: s)
  case (Cons j js)
  have sh: "\<not> shares s j" using Cons.prems by (simp add: shares_def undisturbed_def)
  have n: "fc_nb_available (fc_of s) = ff_nb_available s" by (simp add: fc_of_def)
  have "simulates (Option.bind (ff_start lib date j s) (\<lambda>s1. ff_drain lib date [] js (s1\<lparr>ff_pending := [] @ js\<rparr>)))
    (Option.bind (fcfs_start_job date j (left_of lib (fc_available (fc_of s)) (nb_requested_resources j)) (fc_of s))
      (\<lambda>s1. fcfs_fast_drain lib date js (s1\<lparr>fc_pending := js\<rparr>)))"
  proof (rule simulates_bind[OF simulates_start[OF Cons.prems]])
    fix s1
    assume "undisturbed s1"
    then have u: "undisturbed (s1\<lparr>ff_pending := [] @ js\<rparr>)" by (simp add: undisturbed_def)
    have "(fc_of s1)\<lparr>fc_pending := js\<rparr> = fc_of (s1\<lparr>ff_pending := [] @ js\<rparr>)" by (simp add: fc_of_def)
    then show "simulates (ff_drain lib date [] js (s1\<lparr>ff_pending := [] @ js\<rparr>))
        (fcfs_fast_drain lib date js ((fc_of s1)\<lparr>fc_pending := js\<rparr>))" using Cons.IH[OF u] by simp
  qed
  then show ?case using Cons.prems sh n by simp
qed simp

lemma simulates_released:
  assumes "undisturbed s" "CHR ''#'' \<notin> set i"
  shows "simulates (ff_job_released lib w date i s) (fcfs_job_released lib (sw_job_map w) date i (fc_of s))"
proof (cases "sw_job_map w i")
  case None
  then show ?thesis by (simp add: ff_job_released_def fcfs_job_released_def workload_job_def)
next
  case (Some j)
  have f: "fc_nb_machines (fc_of s) = ff_nb_machines s" "fc_pending (fc_of s) = ff_pending s"
    "fc_nb_available (fc_of s) = ff_nb_available s" "fc_decisions (fc_of s) = ff_decisions s" by (simp_all add: fc_of_def)
  have sh: "\<not> shares s j" using assms(1) by (simp add: shares_def undisturbed_def)
  have q: "simulates (Some (s\<lparr>ff_pending := p\<rparr>)) (Some ((fc_of s)\<lparr>fc_pending := p\<rparr>))" for p
    using assms(1) by (simp add: fc_of_def undisturbed_def)
  have r: "simulates (Option.bind (add_reject_job i date (ff_decisions s)) (\<lambda>d. Some (s\<lparr>ff_decisions := d\<rparr>)))
      (Option.bind (add_reject_job i date (ff_decisions s)) (\<lambda>d. Some ((fc_of s)\<lparr>fc_decisions := d\<rparr>)))"
    using assms(1) by (cases "add_reject_job i date (ff_decisions s)") (simp_all add: fc_of_def undisturbed_def)
  show ?thesis
    unfolding ff_job_released_def fcfs_job_released_def workload_job_def Some Option.bind.simps f
    using sh q r simulates_start[OF assms(1), of lib date j] assms(2) by simp
qed

lemma simulates_fold:
  assumes "\<And>x s. x \<in> set xs \<Longrightarrow> undisturbed s \<Longrightarrow> simulates (f x s) (g x (fc_of s))"
  shows "undisturbed s \<Longrightarrow> simulates (fold_run f xs s) (fold_run g xs (fc_of s))"
  using assms
proof (induction xs arbitrary: s)
  case (Cons x xs)
  have "simulates (Option.bind (f x s) (fold_run f xs)) (Option.bind (g x (fc_of s)) (fold_run g xs))"
    by (rule simulates_bind) (use Cons in auto)
  then show ?case by simp
qed simp

lemma simulates_ended:
  "undisturbed s \<Longrightarrow> distinct ended \<Longrightarrow>
     \<forall>i \<in> set ended. \<exists>j. sw_job_map w i = Some j \<and> nb_requested_resources j = int (card (alloc_of (ff_allocations s) i)) \<Longrightarrow>
     simulates (fold_run (ff_job_ended w) ended s) (fold_run (fcfs_job_ended (sw_job_map w)) ended (fc_of s))"
proof (induction ended arbitrary: s)
  case (Cons i ended)
  obtain j where j: "sw_job_map w i = Some j" "nb_requested_resources j = int (card (alloc_of (ff_allocations s) i))"
    using Cons.prems(3) by auto
  define s1 where "s1 = s\<lparr>ff_available := ff_available s \<union> alloc_of (ff_allocations s) i,
      ff_nb_available := ff_nb_available s + nb_requested_resources j,
      ff_allocations := (ff_allocations s)(i := None), ff_running := ff_running s - {i}\<rparr>"
  have u: "undisturbed s1" using Cons.prems(1) by (simp add: s1_def undisturbed_def)
  have e: "ff_job_ended w i s = Some s1"
    using Cons.prems(1) j by (simp add: ff_job_ended_def workload_job_def shares_def undisturbed_def s1_def Let_def)
  have t: "fcfs_job_ended (sw_job_map w) i (fc_of s) = Some (fc_of s1)"
    using j by (simp add: fcfs_job_ended_def fc_of_def s1_def)
  have "\<exists>j. sw_job_map w k = Some j \<and> nb_requested_resources j = int (card (alloc_of (ff_allocations s1) k))"
    if "k \<in> set ended" for k
  proof -
    have "alloc_of (ff_allocations s1) k = alloc_of (ff_allocations s) k"
      using that Cons.prems(2) by (auto simp: s1_def alloc_of_def)
    then show ?thesis using Cons.prems(3) that by simp
  qed
  then have "simulates (fold_run (ff_job_ended w) ended s1) (fold_run (fcfs_job_ended (sw_job_map w)) ended (fc_of s1))"
    using Cons.IH[OF u] Cons.prems(2) by simp
  then show ?case by (simp add: e t)
qed simp

lemma simulates_make_decisions:
  assumes "fcfs_ok (sw_job_map w) (fc_of s)" "fcfs_input (sw_job_map w) ended released (fc_of s)" "undisturbed s"
    and "\<forall>i \<in> set released. CHR ''#'' \<notin> set i" "\<not> no_more_static"
  shows "simulates (ff_make_decisions lib rs w no_more_static ended [] released date s)
    (fcfs_fast_make_decisions lib (sw_job_map w) ended released date (fc_of s))"
proof -
  have fin: "ff_finish no_more_static [] date t = Some t" for t using assms(5) by (simp add: ff_finish_def)
  have al: "\<exists>j. sw_job_map w i = Some j \<and> nb_requested_resources j = int (card (alloc_of (ff_allocations s) i))"
    if "i \<in> set ended" for i
  proof -
    obtain A where A: "ff_allocations s i = Some A" using \<open>i \<in> set ended\<close> assms(2) by (auto simp: fcfs_input_def fc_of_def)
    then show ?thesis using assms(1) by (auto simp: fcfs_ok_def fc_of_def alloc_of_def)
  qed
  have di: "distinct ended" using assms(2) by (simp add: fcfs_input_def)
  show ?thesis
    unfolding ff_make_decisions_def fcfs_fast_make_decisions_def
  proof (rule simulates_bind[OF simulates_ended[OF assms(3) di]], use al in blast)
    fix s1
    assume u: "undisturbed s1"
    have p: "fc_pending (fc_of s1) = ff_pending s1" by (simp add: fc_of_def)
    have "simulates (Option.bind (if ended \<noteq> [] then ff_drain lib date [] (ff_pending s1) s1 else Some s1)
        (fold_run (ff_job_released lib w date) released))
      (Option.bind (if ended \<noteq> [] then fcfs_fast_drain lib date (fc_pending (fc_of s1)) (fc_of s1) else Some (fc_of s1))
        (fold_run (fcfs_job_released lib (sw_job_map w) date) released))"
    proof (rule simulates_bind)
      show "simulates (if ended \<noteq> [] then ff_drain lib date [] (ff_pending s1) s1 else Some s1)
        (if ended \<noteq> [] then fcfs_fast_drain lib date (fc_pending (fc_of s1)) (fc_of s1) else Some (fc_of s1))"
        unfolding p using u simulates_drain[OF u] by simp
    qed (intro simulates_fold simulates_released, use assms(4) in auto)
    then show "simulates (do {
        s2 \<leftarrow> ff_send_kills date s1;
        d \<leftarrow> handle_resubmission (rs_parse rs) (rs_print rs) (rs_redis rs) w (rs_data rs) date [] (ff_decisions s2);
        let s3 = s2\<lparr>ff_decisions := d\<rparr>;
        s4 \<leftarrow> (if ff_became_available s3 \<noteq> {} \<and> ff_pending s3 \<noteq> [] then ff_drain lib date [] (ff_pending s3) s3 else Some s3);
        s5 \<leftarrow> (if ended \<noteq> [] then ff_drain lib date [] (ff_pending s4) s4 else Some s4);
        s6 \<leftarrow> fold_run (ff_job_released lib w date) released s5;
        ff_finish no_more_static [] date s6 })
      (do {
        s2 \<leftarrow> (if ended \<noteq> [] then fcfs_fast_drain lib date (fc_pending (fc_of s1)) (fc_of s1) else Some (fc_of s1));
        fold_run (fcfs_job_released lib (sw_job_map w) date) released s2 })"
      using u by (simp add: ff_send_kills_def undisturbed_def handle_resubmission_def fin Let_def)
  qed
qed

subsection \<open>Failures\<close>

lemma kill_holders_keeps:
  assumes "kill_holders un w m s = Some s'"
  shows "\<exists>k. s' = s\<lparr>ff_my_kill_jobs := k\<rparr>"
proof (cases "ff_running s = {}")
  case True
  then show ?thesis using assms by (intro exI[of _ "ff_my_kill_jobs s"]) (simp add: kill_holders_def)
next
  case False
  have "\<exists>k. s' = s\<lparr>ff_my_kill_jobs := k\<rparr>"
    by (rule fold_run_preserves[of _ "keys_of un (ff_allocations s)" s s' "\<lambda>t. \<exists>k. t = s\<lparr>ff_my_kill_jobs := k\<rparr>"])
      (use assms False in \<open>auto simp: kill_holders_def run_simps split: if_splits intro: exI[of _ "ff_my_kill_jobs s"]\<close>)
  then show ?thesis .
qed

subsection \<open>Properties\<close>

text \<open>
  C21: while no machine is shared, has failed or has come back, no job is killed and none is a
  resubmission, and the submission of jobs is not over, \<^verbatim>\<open>FCFSFast2\<close> takes the decisions of
  \<^verbatim>\<open>FCFSFast\<close>, and so those of \<^verbatim>\<open>FCFS\<close> with the basic selector.
\<close>

theorem fcfs_fast2_is_fcfs_fast:
  assumes "fcfs_ok (sw_job_map w) (fc_of s)" "fcfs_input (sw_job_map w) ended released (fc_of s)" "undisturbed s"
    and "\<forall>i \<in> set released. CHR ''#'' \<notin> set i" "\<not> no_more_static"
  shows "map_option fc_of (ff_make_decisions lib rs w no_more_static ended [] released date s) =
    fcfs_fast_make_decisions lib (sw_job_map w) ended released date (fc_of s)"
  using simulates_make_decisions[OF assms] unfolding simulates_def by blast

text \<open>
  C22: a repair gives back another machine.  The call that ends the repair of a machine carries the
  number of the call, not that of the machine: the scheduler then puts the machine with the number
  of the call in service, even if a job holds it, and the repaired machine stays out for ever.
\<close>

theorem repair_returns_another_machine:
  assumes "m = drawn_machine dr" "m \<notin> ff_repair s" "k = nb_call_me_laters (ff_decisions s)" "nat k \<noteq> m"
    and "on_machine_down_for_repair un w dr date s = Some s1"
    and "ff_on_requested_call un w dr' no_more_static date' k REPAIR_DONE s1 = Some s2"
  shows "\<exists>t. events (writer (ff_decisions s1)) = events (writer (ff_decisions s)) @ [(date, CallMeLater t k REPAIR_DONE)] \<and>
    m \<in> ff_repair s2 \<and> m \<notin> ff_available s2 \<and> nat k \<in> ff_available s2 \<and> ff_allocations s2 = ff_allocations s"
proof -
  define t where "t = date + (if wl_MTTR w \<noteq> - 1 then drawn_repair_time dr else wl_repair_time w)"
  define s0 where "s0 = s\<lparr>ff_available := ff_available s - {m}, ff_unavailable := insert m (ff_unavailable s),
          ff_repair := insert m (ff_repair s), ff_nb_available := int (card (ff_available s - {m}))\<rparr>"
  obtain d where d: "add_call_me_later REPAIR_DONE (int m) t date ''null'' (ff_decisions s) = Some d"
    "kill_holders un w m (s0\<lparr>ff_decisions := d\<rparr>) = Some s1"
    using assms(1,2,5) by (auto simp: on_machine_down_for_repair_def Let_def run_simps t_def s0_def)
  obtain ks where s1: "s1 = s0\<lparr>ff_decisions := d, ff_my_kill_jobs := ks\<rparr>" using kill_holders_keeps[OF d(2)] by auto
  have "events (writer d) = events (writer (ff_decisions s)) @ [(date, CallMeLater t k REPAIR_DONE)]"
    using d(1) assms(3) by (auto simp: add_call_me_later_def on_writer_def append_call_me_later_def append_event_def run_simps)
  moreover have "s2 = ff_repair_done k s1" using assms(6) by (simp add: ff_on_requested_call_def)
  ultimately show ?thesis using assms(4) by (intro exI[of _ t]) (simp add: s1 s0_def ff_repair_done_def)
qed

subsection \<open>Examples\<close>

definition example_fast2 :: fcfs_fast2 where
  "example_fast2 = \<lparr>ff_nb_machines = fc_nb_machines example_fcfs, ff_available = fc_available example_fcfs,
     ff_unavailable = {}, ff_repair = {}, ff_core_machines = {}, ff_nb_available = fc_nb_available example_fcfs,
     ff_pending = fc_pending example_fcfs, ff_my_kill_jobs = [], ff_running = dom (fc_allocations example_fcfs),
     ff_need_to_send_finished = True, ff_share_packing = False, ff_core_percent = 1, ff_machines_by_int = Map.empty,
     ff_allocations = fc_allocations example_fcfs, ff_became_available = {}, ff_decisions = fc_decisions example_fcfs\<rparr>"

definition example_resubmission :: resubmission where
  "example_resubmission = \<lparr>rs_parse = demo_parse, rs_print = demo_print, rs_redis = False, rs_data = (\<lambda>i. demo_killed None)\<rparr>"

theorem fcfs_fast2_is_fcfs_fast_witness:
  "map_option fc_of (ff_make_decisions std_lib example_resubmission ((new_sched_workload 0)\<lparr>sw_job_map := example_workload\<rparr>)
      False [''a''] [] [''c'', ''d''] 5 example_fast2) =
   fcfs_fast_make_decisions std_lib example_workload [''a''] [''c'', ''d''] 5 example_fcfs"
proof -
  let ?w = "(new_sched_workload 0)\<lparr>sw_job_map := example_workload\<rparr>"
  have f: "fc_of example_fast2 = example_fcfs" by (simp add: fc_of_def example_fast2_def)
  have w: "sw_job_map ?w = example_workload" by simp
  have u: "undisturbed example_fast2" by (simp add: undisturbed_def example_fast2_def)
  show ?thesis
    using fcfs_fast2_is_fcfs_fast[of ?w example_fast2 "[''a'']" "[''c'', ''d'']" False, unfolded f w,
        OF example_fcfs_ok(1,2) u] by simp
qed

text \<open>Machine 2 fails, and the first call, of number 0, brings machine 0 back, on which job \<^verbatim>\<open>r\<close> runs.\<close>

definition failing :: fcfs_fast2 where
  "failing = \<lparr>ff_nb_machines = 3, ff_available = {1, 2}, ff_unavailable = {}, ff_repair = {}, ff_core_machines = {},
     ff_nb_available = 2, ff_pending = [], ff_my_kill_jobs = [], ff_running = {''r''}, ff_need_to_send_finished = True,
     ff_share_packing = False, ff_core_percent = 1, ff_machines_by_int = Map.empty,
     ff_allocations = [''r'' \<mapsto> {0}], ff_became_available = {}, ff_decisions = new_decisions\<rparr>"

definition first_keys :: unordered where
  "first_keys = \<lparr>first_of = (\<lambda>x. ''r''), keys_of = (\<lambda>x. [''r'']), address = length\<rparr>"

definition machine_two :: draws where
  "machine_two = \<lparr>next_failure = 1000, drawn_machine = 2, drawn_repair_time = 10\<rparr>"

theorem repair_returns_another_machine_witness:
  "\<exists>s1 s2. on_machine_down_for_repair first_keys (new_sched_workload 0) machine_two 5 failing = Some s1 \<and>
     ff_on_requested_call first_keys (new_sched_workload 0) machine_two False 15 0 REPAIR_DONE s1 = Some s2 \<and>
     2 \<in> ff_repair s2 \<and> 2 \<notin> ff_available s2 \<and> 0 \<in> ff_available s2 \<and> ff_allocations s2 = [''r'' \<mapsto> {0}]"
proof -
  let ?w = "new_sched_workload 0"
  have m: "2 = drawn_machine machine_two" "2 \<notin> ff_repair failing" "0 = nb_call_me_laters (ff_decisions failing)" "nat 0 \<noteq> 2"
    by (simp_all add: machine_two_def failing_def new_decisions_def)
  obtain s1 where s1: "on_machine_down_for_repair first_keys ?w machine_two 5 failing = Some s1"
    by (simp add: on_machine_down_for_repair_def machine_two_def failing_def new_decisions_def new_writer_def
        add_call_me_later_def on_writer_def append_call_me_later_def append_event_def kill_holders_def first_keys_def alloc_of_def Let_def)
  obtain s2 where s2: "ff_on_requested_call first_keys ?w machine_two False 15 0 REPAIR_DONE s1 = Some s2"
    by (simp add: ff_on_requested_call_def)
  from repair_returns_another_machine[OF m s1 s2] s1 s2 show ?thesis
    by (intro exI[of _ s1] exI[of _ s2]) (auto simp: failing_def)
qed

end
