(* ===== verification/Easy_Fast.thy ===== *)
theory Easy_Fast
  imports Pool
begin

text \<open>
  The fast EASY backfilling scheduler (\<^verbatim>\<open>algo/easy_bf_fast.cpp\<close>, \<^verbatim>\<open>easy_bf_fast.hpp\<close>).  The first
  waiting job is the priority job: it is promised the date at which enough of the running jobs
  will have reached their walltime, and a later job may only be started before it when it ends by
  that date.  The promise is the invariant of this theory.

  An iterator into the list \<^verbatim>\<open>_horizons\<close> is a handle, fresh at each insertion.  The member
  \<^verbatim>\<open>completion_time\<close> in which the code stores the promised date is written in the copy of the job
  held in \<open>eb_priority\<close>, the only place it is read from.
\<close>

subsection \<open>State and operations\<close>

record horizon_point =
  hp_date :: time
  nb_released_machines :: int

record ebf_allocation =
  ea_machines :: machines
  horizon_it :: nat

record ebf =
  eb_nb_machines :: int
  eb_available :: machines
  eb_nb_available :: int
  eb_pending :: "job list"
  eb_allocations :: "job_id \<Rightarrow> ebf_allocation option"
  eb_horizons :: "(nat \<times> horizon_point) list"
  eb_next_it :: nat
  eb_priority :: "job option"
  eb_decisions :: decisions

definition ebf_on_simulation_start :: "ebf \<Rightarrow> ebf run" where
  "ebf_on_simulation_start s = do {
     let s1 = s\<lparr>eb_available := eb_available s \<union> {0..<nat (eb_nb_machines s)},
       eb_nb_available := eb_nb_machines s\<rparr>;
     assertion (int (card (eb_available s1)) = eb_nb_machines s1);
     Some s1 }"

fun insert_point :: "nat \<Rightarrow> horizon_point \<Rightarrow> (nat \<times> horizon_point) list \<Rightarrow> (nat \<times> horizon_point) list" where
  "insert_point h p [] = [(h, p)]"
| "insert_point h p ((k, q) # hs) =
     (if hp_date p < hp_date q then (h, p) # (k, q) # hs else (k, q) # insert_point h p hs)"

definition insert_horizon_point :: "horizon_point \<Rightarrow> ebf \<Rightarrow> nat \<times> ebf" where
  "insert_horizon_point p s =
     (eb_next_it s, s\<lparr>eb_horizons := insert_point (eb_next_it s) p (eb_horizons s),
        eb_next_it := Suc (eb_next_it s)\<rparr>)"

definition erase_horizon :: "nat \<Rightarrow> (nat \<times> horizon_point) list \<Rightarrow> (nat \<times> horizon_point) list run" where
  "erase_horizon h hs =
     (if h \<in> fst ` set hs then Some (filter (\<lambda>(k, p). k \<noteq> h) hs) else None)"

fun earliest_start :: "(nat \<times> horizon_point) list \<Rightarrow> int \<Rightarrow> int \<Rightarrow> time run" where
  "earliest_start [] nb_available required = None"
| "earliest_start ((h, p) # hs) nb_available required =
     (if required \<le> nb_available + nb_released_machines p then Some (hp_date p)
      else earliest_start hs (nb_available + nb_released_machines p) required)"

text \<open>\<^verbatim>\<open>compute_priority_job_expected_earliest_starting_time\<close>, for the job made priority.\<close>

definition make_priority :: "job \<Rightarrow> ebf \<Rightarrow> ebf run" where
  "make_priority j s = do {
     t \<leftarrow> earliest_start (eb_horizons s) (eb_nb_available s) (nb_requested_resources j);
     Some (s\<lparr>eb_priority := Some (j\<lparr>completion_time := t\<rparr>)\<rparr>) }"

text \<open>The block that starts a job; the code repeats it at its four places.\<close>

definition ebf_launch :: "interval_lib \<Rightarrow> time \<Rightarrow> job \<Rightarrow> ebf \<Rightarrow> ebf run" where
  "ebf_launch lib date j s = do {
     let ms = left_of lib (eb_available s) (nb_requested_resources j);
     d \<leftarrow> add_execute_job (jid j) ms date [] (eb_decisions s);
     let (it, s1) = insert_horizon_point
       \<lparr>hp_date = date + walltime j, nb_released_machines = nb_requested_resources j\<rparr> s;
     Some (s1\<lparr>eb_decisions := d, eb_available := eb_available s1 - ms,
       eb_nb_available := eb_nb_available s1 - nb_requested_resources j,
       eb_allocations := (eb_allocations s1)(jid j \<mapsto> \<lparr>ea_machines = ms, horizon_it = it\<rparr>)\<rparr>) }"

definition ebf_job_ended :: "workload \<Rightarrow> job_id \<Rightarrow> ebf \<Rightarrow> ebf run" where
  "ebf_job_ended w i s = do {
     finished_job \<leftarrow> w i;
     alloc \<leftarrow> eb_allocations s i;
     hs \<leftarrow> erase_horizon (horizon_it alloc) (eb_horizons s);
     Some (s\<lparr>eb_available := eb_available s \<union> ea_machines alloc,
       eb_nb_available := eb_nb_available s + nb_requested_resources finished_job,
       eb_horizons := hs, eb_allocations := (eb_allocations s)(i := None)\<rparr>) }"

text \<open>The whole queue is started until a job does not fit; that job becomes priority.\<close>

fun ebf_drain :: "interval_lib \<Rightarrow> time \<Rightarrow> job list \<Rightarrow> ebf \<Rightarrow> ebf run" where
  "ebf_drain lib date [] s = Some s"
| "ebf_drain lib date (j # js) s =
     (if nb_requested_resources j \<le> eb_nb_available s then do {
        s1 \<leftarrow> ebf_launch lib date j s;
        ebf_drain lib date js (s1\<lparr>eb_pending := js\<rparr>) }
      else do {
        s1 \<leftarrow> make_priority j s;
        Some (s1\<lparr>eb_pending := js\<rparr>) })"

text \<open>
  The backfilling loop: \<open>kept\<close> are the jobs before the iterator.  Reading the promised date of a
  null priority job stops the run.
\<close>

fun ebf_backfill :: "interval_lib \<Rightarrow> time \<Rightarrow> job list \<Rightarrow> job list \<Rightarrow> ebf \<Rightarrow> ebf run" where
  "ebf_backfill lib date kept [] s = Some s"
| "ebf_backfill lib date kept (j # js) s =
     (if nb_requested_resources j \<le> eb_nb_available s then
        (case eb_priority s of
           None \<Rightarrow> None
         | Some p \<Rightarrow>
             if date + walltime j \<le> completion_time p then do {
               s1 \<leftarrow> ebf_launch lib date j s;
               let s2 = s1\<lparr>eb_pending := kept @ js\<rparr>;
               (if eb_nb_available s2 \<le> 0 then Some s2 else ebf_backfill lib date kept js s2) }
             else ebf_backfill lib date (kept @ [j]) js s)
      else ebf_backfill lib date (kept @ [j]) js s)"

definition ebf_serve_waiting :: "interval_lib \<Rightarrow> time \<Rightarrow> ebf \<Rightarrow> ebf run" where
  "ebf_serve_waiting lib date s =
     (case eb_priority s of
        None \<Rightarrow> Some s
      | Some p \<Rightarrow> do {
          s1 \<leftarrow> (if nb_requested_resources p \<le> eb_nb_available s then do {
                  s' \<leftarrow> ebf_launch lib date p s;
                  ebf_drain lib date (eb_pending s') (s'\<lparr>eb_priority := None\<rparr>) }
                else Some s);
          (if 0 < eb_nb_available s1 then ebf_backfill lib date [] (eb_pending s1) s1 else Some s1) })"

definition ebf_job_released :: "interval_lib \<Rightarrow> workload \<Rightarrow> time \<Rightarrow> job_id \<Rightarrow> ebf \<Rightarrow> ebf run" where
  "ebf_job_released lib w date i s = do {
     new_job \<leftarrow> w i;
     (if nb_requested_resources new_job \<le> eb_nb_available s then
        (if (case eb_priority s of None \<Rightarrow> True | Some p \<Rightarrow> date + walltime new_job \<le> completion_time p)
         then ebf_launch lib date new_job s
         else Some (s\<lparr>eb_pending := eb_pending s @ [new_job]\<rparr>))
      else if eb_nb_machines s < nb_requested_resources new_job then do {
        d \<leftarrow> add_reject_job i date (eb_decisions s);
        Some (s\<lparr>eb_decisions := d\<rparr>) }
      else if eb_priority s = None then make_priority new_job s
      else Some (s\<lparr>eb_pending := eb_pending s @ [new_job]\<rparr>)) }"

definition ebf_make_decisions ::
  "interval_lib \<Rightarrow> workload \<Rightarrow> job_id list \<Rightarrow> job_id list \<Rightarrow> time \<Rightarrow> ebf \<Rightarrow> ebf run" where
  "ebf_make_decisions lib w ended released date s = do {
     s1 \<leftarrow> fold_run (ebf_job_ended w) ended s;
     s2 \<leftarrow> (if ended \<noteq> [] then ebf_serve_waiting lib date s1 else Some s1);
     fold_run (ebf_job_released lib w date) released s2 }"

subsection \<open>Horizons\<close>

text \<open>The machines released by a date, and altogether.\<close>

definition released_by :: "time \<Rightarrow> (nat \<times> horizon_point) list \<Rightarrow> int" where
  "released_by t hs = (\<Sum>(h, p) \<leftarrow> hs. if hp_date p \<le> t then nb_released_machines p else 0)"

definition released_total :: "(nat \<times> horizon_point) list \<Rightarrow> int" where
  "released_total hs = (\<Sum>(h, p) \<leftarrow> hs. nb_released_machines p)"

definition by_date :: "(nat \<times> horizon_point) list \<Rightarrow> bool" where
  "by_date hs \<longleftrightarrow> sorted (map (\<lambda>(h, p). hp_date p) hs)"

lemma released_simps [simp]:
  "released_by t [] = 0" "released_total [] = 0"
  "released_by t ((h, p) # hs) = (if hp_date p \<le> t then nb_released_machines p else 0) + released_by t hs"
  "released_total ((h, p) # hs) = nb_released_machines p + released_total hs"
  by (simp_all add: released_by_def released_total_def)

lemma set_insert_point [simp]: "set (insert_point h p hs) = insert (h, p) (set hs)"
  by (induction h p hs rule: insert_point.induct) auto

lemma released_insert [simp]:
  "released_by t (insert_point h p hs) = (if hp_date p \<le> t then nb_released_machines p else 0) + released_by t hs"
  "released_total (insert_point h p hs) = nb_released_machines p + released_total hs"
  by (induction h p hs rule: insert_point.induct) auto

lemma distinct_insert_point:
  "distinct (map fst hs) \<Longrightarrow> h \<notin> fst ` set hs \<Longrightarrow> distinct (map fst (insert_point h p hs))"
proof (induction h p hs rule: insert_point.induct)
  case (2 h p k q hs)
  have "fst ` set (insert_point h p hs) = insert h (fst ` set hs)" by simp
  then show ?case using 2 by auto
qed simp

lemma by_date_insert: "by_date hs \<Longrightarrow> by_date (insert_point h p hs)"
proof (induction h p hs rule: insert_point.induct)
  case (2 h p k q hs)
  have "set (map (\<lambda>(h, p). hp_date p) (insert_point h p hs)) =
      insert (hp_date p) (set (map (\<lambda>(h, p). hp_date p) hs))" by simp
  then show ?case using 2 by (auto simp: by_date_def)
qed (simp add: by_date_def)

lemma erase_released:
  assumes "distinct (map fst hs)" "(h, p) \<in> set hs"
  shows "released_total (filter (\<lambda>(k, q). k \<noteq> h) hs) = released_total hs - nb_released_machines p"
    and "released_by t (filter (\<lambda>(k, q). k \<noteq> h) hs) =
      released_by t hs - (if hp_date p \<le> t then nb_released_machines p else 0)"
proof -
  have "released_total (filter (\<lambda>(k, q). k \<noteq> h) hs) = released_total hs - nb_released_machines p \<and>
    released_by t (filter (\<lambda>(k, q). k \<noteq> h) hs) =
      released_by t hs - (if hp_date p \<le> t then nb_released_machines p else 0)"
    using assms
  proof (induction hs)
    case (Cons x hs)
    obtain k q where x: "x = (k, q)" by (cases x)
    show ?case
    proof (cases "k = h")
      case True
      have "filter (\<lambda>(k, q). k \<noteq> h) hs = hs"
        using Cons.prems(1) x True by (intro filter_True) (auto simp: image_iff)
      moreover have "q = p" using Cons.prems x True by (auto simp: image_iff)
      ultimately show ?thesis using x True by simp
    next
      case False
      then have "(h, p) \<in> set hs" using Cons.prems(2) x by auto
      then show ?thesis using Cons.IH Cons.prems(1) x False by simp
    qed
  qed simp
  then show "released_total (filter (\<lambda>(k, q). k \<noteq> h) hs) = released_total hs - nb_released_machines p"
    "released_by t (filter (\<lambda>(k, q). k \<noteq> h) hs) =
      released_by t hs - (if hp_date p \<le> t then nb_released_machines p else 0)" by blast+
qed

lemma by_date_filter: "by_date hs \<Longrightarrow> by_date (filter P hs)"
  unfolding by_date_def by (rule sorted_filter)

text \<open>
  The computed date is the earliest at which enough machines will be free, and it exists as soon
  as the machines released altogether are enough.
\<close>

lemma released_nonneg: "\<forall>(h, p) \<in> set hs. 0 \<le> nb_released_machines p \<Longrightarrow> 0 \<le> released_by t hs"
  by (induction hs) auto

lemma released_none: "\<forall>(h, p) \<in> set hs. t < hp_date p \<Longrightarrow> released_by t hs = 0"
  by (induction hs) auto

lemma earliest_start_exists: "req \<le> nb + released_total hs \<Longrightarrow> nb < req \<Longrightarrow> \<exists>t. earliest_start hs nb req = Some t"
  by (induction hs nb req rule: earliest_start.induct) auto

lemma earliest_start_enough:
  "\<forall>(h, p) \<in> set hs. 0 \<le> nb_released_machines p \<Longrightarrow> by_date hs \<Longrightarrow>
     earliest_start hs nb req = Some t \<Longrightarrow> req \<le> nb + released_by t hs"
proof (induction hs nb req rule: earliest_start.induct)
  case (2 h p hs nb req)
  have nn: "0 \<le> released_by t hs" using 2(2) by (intro released_nonneg) simp
  show ?case
  proof (cases "req \<le> nb + nb_released_machines p")
    case True
    then show ?thesis using 2(4) nn by simp
  next
    case False
    then have e: "earliest_start hs (nb + nb_released_machines p) req = Some t" using 2(4) by simp
    then obtain k q where "(k, q) \<in> set hs" "hp_date q = t"
      by (induction hs "nb + nb_released_machines p" req arbitrary: nb p rule: earliest_start.induct)
        (fastforce split: if_splits)+
    then have "hp_date p \<le> t" using 2(3) by (auto simp: by_date_def)
    then show ?thesis using 2(1)[OF False _ _ e] 2(2,3) by (simp add: by_date_def)
  qed
qed simp

lemma earliest_start_minimal:
  "\<forall>(h, p) \<in> set hs. 0 \<le> nb_released_machines p \<Longrightarrow> by_date hs \<Longrightarrow> nb < req \<Longrightarrow>
     earliest_start hs nb req = Some t \<Longrightarrow> t' < t \<Longrightarrow> nb + released_by t' hs < req"
proof (induction hs nb req rule: earliest_start.induct)
  case (2 h p hs nb req)
  show ?case
  proof (cases "req \<le> nb + nb_released_machines p")
    case True
    then have "t = hp_date p" using 2(5) by simp
    then have "released_by t' hs = 0" using 2(3,6) by (intro released_none) (auto simp: by_date_def)
    then show ?thesis using 2(4,6) \<open>t = hp_date p\<close> by simp
  next
    case False
    then have "nb + nb_released_machines p + released_by t' hs < req"
      using 2(1)[OF False] 2(2,3,5,6) by (simp add: by_date_def)
    then show ?thesis using 2(2) by simp
  qed
qed simp

subsection \<open>Invariant\<close>

definition held :: "ebf \<Rightarrow> allocations" where
  "held s = (\<lambda>i. map_option ea_machines (eb_allocations s i))"

text \<open>The machines, the counter, the running jobs and the horizon agree.\<close>

definition running_ok :: "workload \<Rightarrow> ebf \<Rightarrow> bool" where
  "running_ok w s \<longleftrightarrow>
     pool_ok (eb_nb_machines s) (eb_available s) (held s) \<and>
     eb_nb_available s = int (card (eb_available s)) \<and> 0 \<le> eb_nb_machines s \<and>
     eb_nb_available s + released_total (eb_horizons s) = eb_nb_machines s \<and>
     by_date (eb_horizons s) \<and> distinct (map fst (eb_horizons s)) \<and>
     (\<forall>(h, p) \<in> set (eb_horizons s). h < eb_next_it s \<and> 0 \<le> nb_released_machines p \<and>
        (\<exists>i a. eb_allocations s i = Some a \<and> horizon_it a = h)) \<and>
     (\<forall>i a. eb_allocations s i = Some a \<longrightarrow>
        (\<exists>j. w i = Some j \<and> nb_requested_resources j = int (card (ea_machines a))) \<and>
        (\<exists>p. (horizon_it a, p) \<in> set (eb_horizons s) \<and> nb_released_machines p = int (card (ea_machines a)))) \<and>
     (\<forall>i k a b. eb_allocations s i = Some a \<longrightarrow> eb_allocations s k = Some b \<longrightarrow>
        horizon_it a = horizon_it b \<longrightarrow> i = k)"

definition waiting :: "ebf \<Rightarrow> job list" where
  "waiting s = (case eb_priority s of None \<Rightarrow> [] | Some p \<Rightarrow> [p]) @ eb_pending s"

definition waiting_job_ok :: "workload \<Rightarrow> ebf \<Rightarrow> job \<Rightarrow> bool" where
  "waiting_job_ok w s j \<longleftrightarrow> eb_allocations s (jid j) = None \<and>
     (\<exists>j'. w (jid j) = Some j' \<and> nb_requested_resources j' = nb_requested_resources j) \<and>
     0 \<le> nb_requested_resources j \<and> nb_requested_resources j \<le> eb_nb_machines s"

definition waiting_ok :: "workload \<Rightarrow> ebf \<Rightarrow> bool" where
  "waiting_ok w s \<longleftrightarrow> distinct (map jid (waiting s)) \<and> (\<forall>j \<in> set (waiting s). waiting_job_ok w s j)"

text \<open>
  The promise made to the priority job: counting the machines that are free and those of the jobs
  whose walltime ends by its promised date, there are enough for it.
\<close>

definition promise_kept :: "job \<Rightarrow> ebf \<Rightarrow> bool" where
  "promise_kept p s \<longleftrightarrow>
     nb_requested_resources p \<le> eb_nb_available s + released_by (completion_time p) (eb_horizons s)"

definition priority_ok :: "ebf \<Rightarrow> bool" where
  "priority_ok s \<longleftrightarrow>
     (case eb_priority s of
        None \<Rightarrow> eb_pending s = []
      | Some p \<Rightarrow> eb_nb_available s < nb_requested_resources p \<and> promise_kept p s)"

definition ebf_ok :: "workload \<Rightarrow> ebf \<Rightarrow> bool" where
  "ebf_ok w s \<longleftrightarrow> running_ok w s \<and> waiting_ok w s \<and> priority_ok s"

definition ebf_input :: "workload \<Rightarrow> job_id list \<Rightarrow> job_id list \<Rightarrow> ebf \<Rightarrow> bool" where
  "ebf_input w ended released s \<longleftrightarrow>
     distinct ended \<and> set ended \<subseteq> dom (eb_allocations s) \<and> distinct released \<and>
     (\<forall>i \<in> set released. i \<notin> dom (eb_allocations s) \<and> i \<notin> jid ` set (waiting s) \<and>
        (\<exists>j. w i = Some j \<and> jid j = i \<and> 0 \<le> nb_requested_resources j))"

lemma running_ok_queue [simp]:
  "running_ok w (s\<lparr>eb_pending := js\<rparr>) = running_ok w s"
  "running_ok w (s\<lparr>eb_priority := pr\<rparr>) = running_ok w s"
  "running_ok w (s\<lparr>eb_decisions := d\<rparr>) = running_ok w s"
  "waiting_job_ok w (s\<lparr>eb_pending := js\<rparr>) = waiting_job_ok w s"
  "waiting_job_ok w (s\<lparr>eb_priority := pr\<rparr>) = waiting_job_ok w s"
  "waiting_job_ok w (s\<lparr>eb_decisions := d\<rparr>) = waiting_job_ok w s"
  "promise_kept p (s\<lparr>eb_pending := js\<rparr>) = promise_kept p s"
  "promise_kept p (s\<lparr>eb_priority := pr\<rparr>) = promise_kept p s"
  "promise_kept p (s\<lparr>eb_decisions := d\<rparr>) = promise_kept p s"
  by (simp_all add: running_ok_def held_def waiting_job_ok_def promise_kept_def fun_eq_iff)

subsection \<open>The end of a job\<close>

lemma ebf_job_ended_ok:
  assumes ok: "running_ok w s" and i: "eb_allocations s i = Some a"
  obtains s' where "ebf_job_ended w i s = Some s'" "running_ok w s'"
    "eb_pending s' = eb_pending s" "eb_priority s' = eb_priority s" "eb_decisions s' = eb_decisions s"
    "eb_nb_machines s' = eb_nb_machines s" "eb_allocations s' = (eb_allocations s)(i := None)"
    "eb_horizons s' = filter (\<lambda>(k, q). k \<noteq> horizon_it a) (eb_horizons s)"
    "\<And>p. promise_kept p s \<Longrightarrow> promise_kept p s'"
proof -
  note R = ok[unfolded running_ok_def]
  have pool: "pool_ok (eb_nb_machines s) (eb_available s) (held s)"
    and cnt: "eb_nb_available s = int (card (eb_available s))"
    and total: "eb_nb_available s + released_total (eb_horizons s) = eb_nb_machines s"
    and hor: "by_date (eb_horizons s)" "distinct (map fst (eb_horizons s))"
    and pts: "\<forall>(h, p) \<in> set (eb_horizons s). h < eb_next_it s \<and> 0 \<le> nb_released_machines p \<and>
        (\<exists>i a. eb_allocations s i = Some a \<and> horizon_it a = h)"
    and inj: "\<And>i k a b. eb_allocations s i = Some a \<Longrightarrow> eb_allocations s k = Some b \<Longrightarrow>
        horizon_it a = horizon_it b \<Longrightarrow> i = k"
    and al: "\<And>i a. eb_allocations s i = Some a \<Longrightarrow>
        (\<exists>j. w i = Some j \<and> nb_requested_resources j = int (card (ea_machines a))) \<and>
        (\<exists>p. (horizon_it a, p) \<in> set (eb_horizons s) \<and> nb_released_machines p = int (card (ea_machines a)))"
    using R by blast+
  obtain j p where j: "w i = Some j" "nb_requested_resources j = int (card (ea_machines a))"
    and p: "(horizon_it a, p) \<in> set (eb_horizons s)" "nb_released_machines p = int (card (ea_machines a))"
    using al[OF i] by blast
  let ?hs = "filter (\<lambda>(k, q). k \<noteq> horizon_it a) (eb_horizons s)"
  define s' where "s' = s\<lparr>eb_available := eb_available s \<union> ea_machines a,
       eb_nb_available := eb_nb_available s + nb_requested_resources j,
       eb_horizons := ?hs, eb_allocations := (eb_allocations s)(i := None)\<rparr>"
  have er: "erase_horizon (horizon_it a) (eb_horizons s) = Some ?hs"
    using p(1) by (force simp: erase_horizon_def)
  have run: "ebf_job_ended w i s = Some s'" using i j(1) er by (simp add: ebf_job_ended_def s'_def)
  have held': "held s' = (held s)(i := None)" "alloc_of (held s) i = ea_machines a"
    using i by (auto simp: held_def s'_def alloc_of_def)
  note er = erase_released[OF hor(2) p(1)]
  have "running_ok w s'"
    unfolding running_ok_def
  proof (intro conjI)
    show "pool_ok (eb_nb_machines s') (eb_available s') (held s')"
      using pool_ok_end[OF pool, of i] by (simp add: held' s'_def[symmetric]) (simp add: s'_def)
    show "eb_nb_available s' = int (card (eb_available s'))"
      using card_alloc_of[OF pool, of i] held'(2) cnt j(2) by (simp add: s'_def)
    show "0 \<le> eb_nb_machines s'" using R by (simp add: s'_def)
    show "eb_nb_available s' + released_total (eb_horizons s') = eb_nb_machines s'"
      using total er(1) p(2) j(2) by (simp add: s'_def)
    show "by_date (eb_horizons s')" using by_date_filter[OF hor(1)] by (simp add: s'_def)
    show "distinct (map fst (eb_horizons s'))" using hor(2) by (simp add: s'_def distinct_map_filter)
    show "\<forall>(h, p) \<in> set (eb_horizons s'). h < eb_next_it s' \<and> 0 \<le> nb_released_machines p \<and>
        (\<exists>i a. eb_allocations s' i = Some a \<and> horizon_it a = h)"
    proof (clarify)
      fix h q
      assume "(h, q) \<in> set (eb_horizons s')"
      then have hq: "(h, q) \<in> set (eb_horizons s)" "h \<noteq> horizon_it a" by (auto simp: s'_def)
      then obtain k b where k: "eb_allocations s k = Some b" "horizon_it b = h"
        "h < eb_next_it s" "0 \<le> nb_released_machines q" using pts by blast
      then have "k \<noteq> i" using hq(2) i by auto
      then have e: "eb_allocations s' k = Some b" using k(1) by (simp add: s'_def)
      show "h < eb_next_it s' \<and> 0 \<le> nb_released_machines q \<and>
          (\<exists>i a. eb_allocations s' i = Some a \<and> horizon_it a = h)"
        by (intro conjI exI[of _ k] exI[of _ b] e k(2)) (use k in \<open>simp_all add: s'_def\<close>)
    qed
    show "\<forall>k b. eb_allocations s' k = Some b \<longrightarrow>
        (\<exists>j. w k = Some j \<and> nb_requested_resources j = int (card (ea_machines b))) \<and>
        (\<exists>p. (horizon_it b, p) \<in> set (eb_horizons s') \<and> nb_released_machines p = int (card (ea_machines b)))"
    proof (intro allI impI)
      fix k b
      assume "eb_allocations s' k = Some b"
      then have k: "eb_allocations s k = Some b" "k \<noteq> i" by (auto simp: s'_def split: if_splits)
      then have "horizon_it b \<noteq> horizon_it a" using inj[OF k(1) i] by blast
      then show "(\<exists>j. w k = Some j \<and> nb_requested_resources j = int (card (ea_machines b))) \<and>
        (\<exists>p. (horizon_it b, p) \<in> set (eb_horizons s') \<and> nb_released_machines p = int (card (ea_machines b)))"
        using al[OF k(1)] by (auto simp: s'_def)
    qed
    show "\<forall>k l b c. eb_allocations s' k = Some b \<longrightarrow> eb_allocations s' l = Some c \<longrightarrow>
        horizon_it b = horizon_it c \<longrightarrow> k = l"
      using inj by (auto simp: s'_def)
  qed
  moreover have "promise_kept q s'" if "promise_kept q s" for q
    using that er(2)[of "completion_time q"] j(2) p(2) by (simp add: promise_kept_def s'_def)
  ultimately show thesis using that[of s'] run by (simp add: s'_def)
qed

subsection \<open>The start of a job\<close>

lemma ebf_launch_ok:
  assumes lib: "interval_set lib" and ok: "running_ok w s"
    and j: "w (jid j) = Some j'" "nb_requested_resources j' = nb_requested_resources j"
      "eb_allocations s (jid j) = None" "0 \<le> nb_requested_resources j"
      "nb_requested_resources j \<le> eb_nb_available s"
    and date: "last_date (writer (eb_decisions s)) \<le> date"
  obtains s' ms where "ebf_launch lib date j s = Some s'" "running_ok w s'"
    "decided date [ExecuteJob (jid j) ms []] (eb_decisions s) (eb_decisions s')"
    "eb_pending s' = eb_pending s" "eb_priority s' = eb_priority s" "eb_nb_machines s' = eb_nb_machines s"
    "held s' = (held s)(jid j \<mapsto> ms)"
    "eb_nb_available s' = eb_nb_available s - nb_requested_resources j"
    "\<forall>p. promise_kept p s \<longrightarrow> date + walltime j \<le> completion_time p \<longrightarrow> promise_kept p s'"
proof -
  note R = ok[unfolded running_ok_def]
  have pool: "pool_ok (eb_nb_machines s) (eb_available s) (held s)"
    and cnt: "eb_nb_available s = int (card (eb_available s))"
    and total: "eb_nb_available s + released_total (eb_horizons s) = eb_nb_machines s"
    and hor: "by_date (eb_horizons s)" "distinct (map fst (eb_horizons s))"
    and pts: "\<forall>(h, p) \<in> set (eb_horizons s). h < eb_next_it s \<and> 0 \<le> nb_released_machines p \<and>
        (\<exists>i a. eb_allocations s i = Some a \<and> horizon_it a = h)"
    and inj: "\<And>i k a b. eb_allocations s i = Some a \<Longrightarrow> eb_allocations s k = Some b \<Longrightarrow>
        horizon_it a = horizon_it b \<Longrightarrow> i = k"
    and al: "\<And>i a. eb_allocations s i = Some a \<Longrightarrow>
        (\<exists>j. w i = Some j \<and> nb_requested_resources j = int (card (ea_machines a))) \<and>
        (\<exists>p. (horizon_it a, p) \<in> set (eb_horizons s) \<and> nb_released_machines p = int (card (ea_machines a)))"
    using R by blast+
  let ?k = "nb_requested_resources j" and ?it = "eb_next_it s"
  define ms where "ms = left_of lib (eb_available s) ?k"
  define p where "p = \<lparr>hp_date = date + walltime j, nb_released_machines = ?k\<rparr>"
  have fin: "finite (eb_available s)" by (rule pool_ok_subset(2)[OF pool])
  have ms: "ms \<subseteq> eb_available s" "int (card ms) = ?k"
    unfolding ms_def using interval_set.left_subset[OF lib fin] interval_set.left_card[OF lib fin j(4)] j(5) cnt
    by auto
  obtain d where d: "add_execute_job (jid j) ms date [] (eb_decisions s) = Some d"
    "decided date [ExecuteJob (jid j) ms []] (eb_decisions s) d"
    using decided_one[OF date] by (auto simp: decision_simps)
  define s' where "s' = s\<lparr>eb_horizons := insert_point ?it p (eb_horizons s), eb_next_it := Suc ?it,
       eb_decisions := d, eb_available := eb_available s - ms, eb_nb_available := eb_nb_available s - ?k,
       eb_allocations := (eb_allocations s)(jid j \<mapsto> \<lparr>ea_machines = ms, horizon_it = ?it\<rparr>)\<rparr>"
  have run: "ebf_launch lib date j s = Some s'"
    using d(1) by (simp add: ebf_launch_def insert_horizon_point_def s'_def ms_def p_def Let_def)
  have held': "held s' = (held s)(jid j \<mapsto> ms)" "held s (jid j) = None"
    using j(3) by (auto simp: held_def s'_def)
  have old: "horizon_it a < ?it" if "eb_allocations s i = Some a" for i a
    using al[OF that] pts by blast
  have new: "?it \<notin> fst ` set (eb_horizons s)" using pts by fastforce
  have "running_ok w s'"
    unfolding running_ok_def
  proof (intro conjI)
    show "pool_ok (eb_nb_machines s') (eb_available s') (held s')"
      unfolding held'(1) using pool_ok_start[OF pool ms(1) held'(2)] by (simp add: s'_def)
    show "eb_nb_available s' = int (card (eb_available s'))"
      using card_Diff_subset_int[OF fin ms(1)] ms(2) cnt by (simp add: s'_def)
    show "0 \<le> eb_nb_machines s'" using R by (simp add: s'_def)
    show "eb_nb_available s' + released_total (eb_horizons s') = eb_nb_machines s'"
      using total by (simp add: s'_def p_def)
    show "by_date (eb_horizons s')" using by_date_insert[OF hor(1)] by (simp add: s'_def)
    show "distinct (map fst (eb_horizons s'))"
      using distinct_insert_point[OF hor(2) new] by (simp add: s'_def)
    show "\<forall>(h, p) \<in> set (eb_horizons s'). h < eb_next_it s' \<and> 0 \<le> nb_released_machines p \<and>
        (\<exists>i a. eb_allocations s' i = Some a \<and> horizon_it a = h)"
    proof (clarify)
      fix h q
      assume "(h, q) \<in> set (eb_horizons s')"
      then consider "h = ?it" "q = p" | "(h, q) \<in> set (eb_horizons s)" by (auto simp: s'_def)
      then show "h < eb_next_it s' \<and> 0 \<le> nb_released_machines q \<and>
          (\<exists>i a. eb_allocations s' i = Some a \<and> horizon_it a = h)"
      proof cases
        case 1
        have "eb_allocations s' (jid j) = Some \<lparr>ea_machines = ms, horizon_it = ?it\<rparr>" by (simp add: s'_def)
        then have "\<exists>i a. eb_allocations s' i = Some a \<and> horizon_it a = h" using 1(1) by fastforce
        then show ?thesis using 1 j(4) by (simp add: s'_def p_def)
      next
        case 2
        then obtain k b where k: "eb_allocations s k = Some b" "horizon_it b = h"
          "h < ?it" "0 \<le> nb_released_machines q" using pts by blast
        have "k \<noteq> jid j" using k(1) j(3) by auto
        then have e: "eb_allocations s' k = Some b" using k(1) by (simp add: s'_def)
        show ?thesis
          by (intro conjI exI[of _ k] exI[of _ b] e k(2)) (use k in \<open>simp_all add: s'_def\<close>)
      qed
    qed
    show "\<forall>k b. eb_allocations s' k = Some b \<longrightarrow>
        (\<exists>j. w k = Some j \<and> nb_requested_resources j = int (card (ea_machines b))) \<and>
        (\<exists>p. (horizon_it b, p) \<in> set (eb_horizons s') \<and> nb_released_machines p = int (card (ea_machines b)))"
    proof (intro allI impI)
      fix k b
      assume k: "eb_allocations s' k = Some b"
      show "(\<exists>j. w k = Some j \<and> nb_requested_resources j = int (card (ea_machines b))) \<and>
        (\<exists>p. (horizon_it b, p) \<in> set (eb_horizons s') \<and> nb_released_machines p = int (card (ea_machines b)))"
      proof (cases "k = jid j")
        case True
        then have "b = \<lparr>ea_machines = ms, horizon_it = ?it\<rparr>" using k by (simp add: s'_def)
        then show ?thesis using True j(1,2) ms(2) by (auto simp: s'_def p_def)
      next
        case False
        then have "eb_allocations s k = Some b" using k by (simp add: s'_def)
        then show ?thesis using al by (auto simp: s'_def)
      qed
    qed
    show "\<forall>k l b c. eb_allocations s' k = Some b \<longrightarrow> eb_allocations s' l = Some c \<longrightarrow>
        horizon_it b = horizon_it c \<longrightarrow> k = l"
    proof (intro allI impI)
      fix k l b c
      assume a: "eb_allocations s' k = Some b" "eb_allocations s' l = Some c" "horizon_it b = horizon_it c"
      have "horizon_it b = ?it" if "k = jid j" using a(1) that by (auto simp: s'_def)
      moreover have "horizon_it c = ?it" if "l = jid j" using a(2) that by (auto simp: s'_def)
      moreover have "eb_allocations s k = Some b" if "k \<noteq> jid j" using a(1) that by (simp add: s'_def)
      moreover have "eb_allocations s l = Some c" if "l \<noteq> jid j" using a(2) that by (simp add: s'_def)
      ultimately show "k = l" using inj old a(3) by (metis less_irrefl)
    qed
  qed
  moreover have "\<forall>q. promise_kept q s \<longrightarrow> date + walltime j \<le> completion_time q \<longrightarrow> promise_kept q s'"
    by (simp add: promise_kept_def s'_def p_def)
  moreover have "decided date [ExecuteJob (jid j) ms []] (eb_decisions s) (eb_decisions s')"
    "eb_pending s' = eb_pending s" "eb_priority s' = eb_priority s" "eb_nb_machines s' = eb_nb_machines s"
    "eb_nb_available s' = eb_nb_available s - ?k"
    using d(2) by (simp_all add: s'_def)
  ultimately show thesis by (intro that[of s' ms] run held'(1))
qed

lemma make_priority_ok:
  assumes ok: "running_ok w s" and j: "eb_nb_available s < nb_requested_resources j"
    "nb_requested_resources j \<le> eb_nb_machines s"
  obtains p where "make_priority j s = Some (s\<lparr>eb_priority := Some p\<rparr>)" "promise_kept p s"
    "jid p = jid j" "nb_requested_resources p = nb_requested_resources j"
    "\<And>t. t < completion_time p \<Longrightarrow>
       eb_nb_available s + released_by t (eb_horizons s) < nb_requested_resources p"
proof -
  have total: "eb_nb_available s + released_total (eb_horizons s) = eb_nb_machines s"
    and hor: "by_date (eb_horizons s)" and nn: "\<forall>(h, p) \<in> set (eb_horizons s). 0 \<le> nb_released_machines p"
    using ok unfolding running_ok_def by blast+
  obtain t where t: "earliest_start (eb_horizons s) (eb_nb_available s) (nb_requested_resources j) = Some t"
    using earliest_start_exists[OF _ j(1), of "eb_horizons s"] total j(2) by auto
  show thesis
    by (rule that[of "j\<lparr>completion_time := t\<rparr>"])
      (use t earliest_start_enough[OF nn hor t] earliest_start_minimal[OF nn hor j(1) t]
        in \<open>simp_all add: make_priority_def promise_kept_def\<close>)
qed

subsection \<open>Steps\<close>

text \<open>
  A piece of a call: it keeps the running jobs correct, starts some of the waiting jobs and of the
  jobs \<open>new\<close> handed to it, and leaves the others waiting.
\<close>

definition ebf_moves :: "workload \<Rightarrow> time \<Rightarrow> job_id list \<Rightarrow> ebf \<Rightarrow> ebf \<Rightarrow> event list \<Rightarrow> bool" where
  "ebf_moves w date new s s' es \<longleftrightarrow>
     running_ok w s' \<and> waiting_ok w s' \<and> decided date es (eb_decisions s) (eb_decisions s') \<and>
     eb_nb_machines s' = eb_nb_machines s \<and> held s' = grant (executed es) (held s) \<and>
     mset (map fst (executed es)) + mset (map jid (waiting s')) = mset (map jid (waiting s)) + mset new"

lemma ebf_moves_refl: "running_ok w s \<Longrightarrow> waiting_ok w s \<Longrightarrow> ebf_moves w date [] s s []"
  by (simp add: ebf_moves_def)

lemma ebf_moves_trans:
  assumes "ebf_moves w date new s s1 es" "ebf_moves w date new' s1 s2 fs"
  shows "ebf_moves w date (new @ new') s s2 (es @ fs)"
proof -
  note A = assms(1)[unfolded ebf_moves_def] and B = assms(2)[unfolded ebf_moves_def]
  have "mset (map fst (executed (es @ fs))) + mset (map jid (waiting s2))
      = mset (map fst (executed es)) + (mset (map fst (executed fs)) + mset (map jid (waiting s2)))"
    by (simp add: add.assoc)
  also have "\<dots> = mset (map fst (executed es)) + mset (map jid (waiting s1)) + mset new'"
    using B by (simp add: add.assoc)
  also have "\<dots> = mset (map jid (waiting s)) + mset (new @ new')"
    using A by (simp add: add.assoc)
  finally show ?thesis using A B decided_trans[of date es "eb_decisions s" "eb_decisions s1" fs]
    by (simp add: ebf_moves_def grant_append)
qed

lemma ebf_moves_last_date:
  "ebf_moves w date new s s' es \<Longrightarrow> last_date (writer (eb_decisions s)) \<le> date \<Longrightarrow>
     last_date (writer (eb_decisions s')) \<le> date"
  unfolding ebf_moves_def using decided_last_date by blast

text \<open>A launch of one of the jobs to place, after which the queue is rearranged.\<close>

lemma launch_moves:
  assumes lib: "interval_set lib" and ok: "running_ok w s" and j: "waiting_job_ok w s j"
    and fits: "nb_requested_resources j \<le> eb_nb_available s"
    and date: "last_date (writer (eb_decisions s)) \<le> date"
  obtains s' ms where "ebf_launch lib date j s = Some s'" "running_ok w s'"
    "eb_pending s' = eb_pending s" "eb_priority s' = eb_priority s" "eb_nb_machines s' = eb_nb_machines s"
    "eb_nb_available s' = eb_nb_available s - nb_requested_resources j"
    "\<forall>p. promise_kept p s \<longrightarrow> date + walltime j \<le> completion_time p \<longrightarrow> promise_kept p s'"
    "\<And>pr js new. distinct (map jid ((case pr of None \<Rightarrow> [] | Some p \<Rightarrow> [p]) @ js)) \<Longrightarrow>
       \<forall>k \<in> set ((case pr of None \<Rightarrow> [] | Some p \<Rightarrow> [p]) @ js). waiting_job_ok w s k \<Longrightarrow>
       add_mset (jid j) (mset (map jid ((case pr of None \<Rightarrow> [] | Some p \<Rightarrow> [p]) @ js)))
         = mset (map jid (waiting s)) + mset new \<Longrightarrow>
       jid j \<notin> jid ` set ((case pr of None \<Rightarrow> [] | Some p \<Rightarrow> [p]) @ js) \<Longrightarrow>
       ebf_moves w date new s (s'\<lparr>eb_pending := js, eb_priority := pr\<rparr>) [ExecuteJob (jid j) ms []]"
proof -
  obtain j' where j': "w (jid j) = Some j'" "nb_requested_resources j' = nb_requested_resources j"
    "eb_allocations s (jid j) = None" "0 \<le> nb_requested_resources j"
    using j unfolding waiting_job_ok_def by blast
  obtain s' ms where L: "ebf_launch lib date j s = Some s'" "running_ok w s'"
    "decided date [ExecuteJob (jid j) ms []] (eb_decisions s) (eb_decisions s')"
    "eb_pending s' = eb_pending s" "eb_priority s' = eb_priority s" "eb_nb_machines s' = eb_nb_machines s"
    "held s' = (held s)(jid j \<mapsto> ms)"
    "eb_nb_available s' = eb_nb_available s - nb_requested_resources j"
    "\<forall>p. promise_kept p s \<longrightarrow> date + walltime j \<le> completion_time p \<longrightarrow> promise_kept p s'"
    by (rule ebf_launch_ok[OF lib ok j' fits date])
  have keep: "waiting_job_ok w s' k" if "waiting_job_ok w s k" "jid k \<noteq> jid j" for k
  proof -
    have "held s' (jid k) = held s (jid k)" using L(7) that(2) by simp
    then show ?thesis using that(1) L(6) by (simp add: waiting_job_ok_def held_def)
  qed
  show thesis
  proof (rule that[OF L(1,2,4-6,8,9)])
    fix pr js new
    let ?W = "(case pr of None \<Rightarrow> [] | Some p \<Rightarrow> [p]) @ js" and ?t = "s'\<lparr>eb_pending := js, eb_priority := pr\<rparr>"
    assume W: "distinct (map jid ?W)" "\<forall>k \<in> set ?W. waiting_job_ok w s k"
      "add_mset (jid j) (mset (map jid ?W)) = mset (map jid (waiting s)) + mset new" "jid j \<notin> jid ` set ?W"
    have wt: "waiting ?t = ?W" by (simp add: waiting_def)
    have "\<forall>k \<in> set ?W. waiting_job_ok w ?t k"
    proof
      fix k
      assume k: "k \<in> set ?W"
      then have "jid k \<noteq> jid j" using W(4) by (metis imageI)
      then show "waiting_job_ok w ?t k" using keep W(2) k by simp
    qed
    then have "waiting_ok w ?t" unfolding waiting_ok_def wt using W(1) by blast
    moreover have "held ?t = held s'" by (simp add: held_def)
    ultimately show "ebf_moves w date new s ?t [ExecuteJob (jid j) ms []]"
      using L W(3) unfolding ebf_moves_def wt by simp
  qed
qed

subsection \<open>The loops\<close>

lemma same_priority: "eb_priority s = pr \<Longrightarrow> s\<lparr>eb_pending := js, eb_priority := pr\<rparr> = s\<lparr>eb_pending := js\<rparr>"
  by (cases s) simp

lemma waiting_job_ok_cong:
  "jid p = jid j \<Longrightarrow> nb_requested_resources p = nb_requested_resources j \<Longrightarrow>
     waiting_job_ok w s p \<longleftrightarrow> waiting_job_ok w s j"
  by (simp add: waiting_job_ok_def)

lemma drain_moves:
  assumes "interval_set lib"
  shows "running_ok w s \<Longrightarrow> waiting_ok w s \<Longrightarrow> eb_priority s = None \<Longrightarrow> eb_pending s = js \<Longrightarrow>
    last_date (writer (eb_decisions s)) \<le> date \<Longrightarrow>
    \<exists>s' es. ebf_drain lib date js s = Some s' \<and> ebf_moves w date [] s s' es \<and> rejected es = [] \<and>
      priority_ok s'"
proof (induction js arbitrary: s)
  case Nil
  then show ?case
    by (intro exI[of _ s] exI[of _ "[]"]) (simp add: ebf_moves_refl priority_ok_def)
next
  case (Cons j js)
  have W: "waiting s = j # js" using Cons.prems(3,4) by (simp add: waiting_def)
  have j: "waiting_job_ok w s j" and js: "distinct (map jid js)" "\<forall>k \<in> set js. waiting_job_ok w s k"
    "jid j \<notin> jid ` set js"
    using Cons.prems(2) unfolding waiting_ok_def W by auto
  show ?case
  proof (cases "nb_requested_resources j \<le> eb_nb_available s")
    case True
    obtain s1 ms where L: "ebf_launch lib date j s = Some s1" "eb_priority s1 = eb_priority s"
      "\<And>pr js new. distinct (map jid ((case pr of None \<Rightarrow> [] | Some p \<Rightarrow> [p]) @ js)) \<Longrightarrow>
       \<forall>k \<in> set ((case pr of None \<Rightarrow> [] | Some p \<Rightarrow> [p]) @ js). waiting_job_ok w s k \<Longrightarrow>
       add_mset (jid j) (mset (map jid ((case pr of None \<Rightarrow> [] | Some p \<Rightarrow> [p]) @ js)))
         = mset (map jid (waiting s)) + mset new \<Longrightarrow>
       jid j \<notin> jid ` set ((case pr of None \<Rightarrow> [] | Some p \<Rightarrow> [p]) @ js) \<Longrightarrow>
       ebf_moves w date new s (s1\<lparr>eb_pending := js, eb_priority := pr\<rparr>) [ExecuteJob (jid j) ms []]"
      by (rule launch_moves[OF assms Cons.prems(1) j True Cons.prems(5)]) blast
    let ?s1 = "s1\<lparr>eb_pending := js\<rparr>"
    have M: "ebf_moves w date [] s ?s1 [ExecuteJob (jid j) ms []]"
      using L(3)[of None js "[]"] js W same_priority[of s1 None js] L(2) Cons.prems(3) by simp
    have "running_ok w ?s1" "waiting_ok w ?s1" using M unfolding ebf_moves_def by blast+
    then obtain s' es where s': "ebf_drain lib date js ?s1 = Some s'" "ebf_moves w date [] ?s1 s' es"
      "rejected es = []" "priority_ok s'"
      using Cons.IH[of ?s1] L(2) Cons.prems(3) ebf_moves_last_date[OF M Cons.prems(5)] by auto
    have "ebf_moves w date [] s s' (ExecuteJob (jid j) ms [] # es)"
      using ebf_moves_trans[OF M s'(2)] by simp
    then show ?thesis using True L(1) s' by (intro exI[of _ s'] exI) (auto simp del: map_append)
  next
    case False
    have n: "nb_requested_resources j \<le> eb_nb_machines s" using j by (simp add: waiting_job_ok_def)
    obtain p where p: "make_priority j s = Some (s\<lparr>eb_priority := Some p\<rparr>)" "promise_kept p s"
      "jid p = jid j" "nb_requested_resources p = nb_requested_resources j"
      using make_priority_ok[OF Cons.prems(1) _ n] False by (metis not_le)
    let ?s' = "s\<lparr>eb_priority := Some p, eb_pending := js\<rparr>"
    have W': "waiting ?s' = p # js" by (simp add: waiting_def)
    have "waiting_ok w ?s'"
      unfolding waiting_ok_def W' using j js p(3) waiting_job_ok_cong[OF p(3,4)] by auto
    then have "ebf_moves w date [] s ?s' []"
      unfolding ebf_moves_def W' W using Cons.prems(1) p(3) by (simp add: held_def)
    moreover have "priority_ok ?s'" using p(2,4) False by (simp add: priority_ok_def)
    ultimately show ?thesis using False p(1) by (intro exI[of _ ?s'] exI[of _ "[]"]) simp
  qed
qed

lemma backfill_moves:
  assumes "interval_set lib"
  shows "running_ok w s \<Longrightarrow> waiting_ok w s \<Longrightarrow> eb_priority s = Some p \<Longrightarrow> promise_kept p s \<Longrightarrow>
    eb_pending s = kept @ js \<Longrightarrow> last_date (writer (eb_decisions s)) \<le> date \<Longrightarrow>
    \<exists>s' es. ebf_backfill lib date kept js s = Some s' \<and> ebf_moves w date [] s s' es \<and> rejected es = [] \<and>
      eb_priority s' = Some p \<and> promise_kept p s' \<and> eb_nb_available s' \<le> eb_nb_available s"
proof (induction js arbitrary: s kept)
  case Nil
  then show ?case by (intro exI[of _ s] exI[of _ "[]"]) (simp add: ebf_moves_refl)
next
  case (Cons j js)
  have W: "waiting s = p # kept @ j # js" using Cons.prems(3,5) by (simp add: waiting_def)
  have j: "waiting_job_ok w s j" and D: "distinct (map jid (p # kept @ js))"
    "\<forall>k \<in> set (p # kept @ js). waiting_job_ok w s k" "jid j \<notin> jid ` set (p # kept @ js)"
    using Cons.prems(2) unfolding waiting_ok_def W by auto
  have skip: ?case if "ebf_backfill lib date kept (j # js) s = ebf_backfill lib date (kept @ [j]) js s"
    unfolding that using Cons.IH[OF Cons.prems(1-4), of "kept @ [j]"] Cons.prems(5,6) by simp
  show ?case
  proof (cases "nb_requested_resources j \<le> eb_nb_available s \<and> date + walltime j \<le> completion_time p")
    case False
    then show ?thesis using Cons.prems(3) by (intro skip) auto
  next
    case True
    then have fits: "nb_requested_resources j \<le> eb_nb_available s"
      and ends: "date + walltime j \<le> completion_time p" by blast+
    obtain s1 ms where L: "ebf_launch lib date j s = Some s1" "eb_priority s1 = eb_priority s"
      "eb_nb_available s1 = eb_nb_available s - nb_requested_resources j"
      "\<forall>p. promise_kept p s \<longrightarrow> date + walltime j \<le> completion_time p \<longrightarrow> promise_kept p s1"
      "\<And>pr js new. distinct (map jid ((case pr of None \<Rightarrow> [] | Some p \<Rightarrow> [p]) @ js)) \<Longrightarrow>
       \<forall>k \<in> set ((case pr of None \<Rightarrow> [] | Some p \<Rightarrow> [p]) @ js). waiting_job_ok w s k \<Longrightarrow>
       add_mset (jid j) (mset (map jid ((case pr of None \<Rightarrow> [] | Some p \<Rightarrow> [p]) @ js)))
         = mset (map jid (waiting s)) + mset new \<Longrightarrow>
       jid j \<notin> jid ` set ((case pr of None \<Rightarrow> [] | Some p \<Rightarrow> [p]) @ js) \<Longrightarrow>
       ebf_moves w date new s (s1\<lparr>eb_pending := js, eb_priority := pr\<rparr>) [ExecuteJob (jid j) ms []]"
      by (rule launch_moves[OF assms Cons.prems(1) j fits Cons.prems(6)]) blast
    let ?s2 = "s1\<lparr>eb_pending := kept @ js\<rparr>"
    have pr: "eb_priority s1 = Some p" using L(2) Cons.prems(3) by simp
    have M: "ebf_moves w date [] s ?s2 [ExecuteJob (jid j) ms []]"
      using L(5)[of "Some p" "kept @ js" "[]"] D W same_priority[OF pr, of "kept @ js"] by simp
    have ok2: "running_ok w ?s2" "waiting_ok w ?s2" using M unfolding ebf_moves_def by blast+
    have prom: "promise_kept p ?s2" using L(4) Cons.prems(4) ends by simp
    have nn: "0 \<le> nb_requested_resources j" using j by (simp add: waiting_job_ok_def)
    have step: "ebf_backfill lib date kept (j # js) s =
        (if eb_nb_available ?s2 \<le> 0 then Some ?s2 else ebf_backfill lib date kept js ?s2)"
      using fits ends Cons.prems(3) L(1) by (simp add: Let_def)
    show ?thesis
    proof (cases "eb_nb_available ?s2 \<le> 0")
      case True
      then show ?thesis unfolding step using M prom pr L(3) nn
        by (intro exI[of _ ?s2] exI[of _ "[ExecuteJob (jid j) ms []]"]) simp
    next
      case False
      obtain s' es where s': "ebf_backfill lib date kept js ?s2 = Some s'" "ebf_moves w date [] ?s2 s' es"
        "rejected es = []" "eb_priority s' = Some p" "promise_kept p s'"
        "eb_nb_available s' \<le> eb_nb_available ?s2"
        using Cons.IH[OF ok2 _ prom] pr ebf_moves_last_date[OF M Cons.prems(6)] by auto
      have "ebf_moves w date [] s s' (ExecuteJob (jid j) ms [] # es)"
        using ebf_moves_trans[OF M s'(2)] by simp
      then show ?thesis unfolding step using False s' L(3) nn
        by (intro exI[of _ s'] exI[of _ "ExecuteJob (jid j) ms [] # es"]) simp
    qed
  qed
qed

lemma serve_waiting_moves:
  assumes "interval_set lib" "running_ok w s" "waiting_ok w s"
    and "case eb_priority s of None \<Rightarrow> eb_pending s = [] | Some p \<Rightarrow> promise_kept p s"
    and "last_date (writer (eb_decisions s)) \<le> date"
  obtains s' es where "ebf_serve_waiting lib date s = Some s'" "ebf_moves w date [] s s' es"
    "rejected es = []" "priority_ok s'"
    "\<forall>p. eb_priority s = Some p \<longrightarrow>
       (if nb_requested_resources p \<le> eb_nb_available s then jid p \<in> fst ` set (executed es)
        else eb_priority s' = Some p)"
proof (cases "eb_priority s")
  case None
  then show thesis using that[of s "[]"] assms
    by (simp add: ebf_serve_waiting_def ebf_moves_refl priority_ok_def)
next
  case (Some p)
  have P: "promise_kept p s" using assms(4) Some by simp
  have W: "waiting s = p # eb_pending s" using Some by (simp add: waiting_def)
  have p: "waiting_job_ok w s p" and D: "distinct (map jid (eb_pending s))"
    "\<forall>k \<in> set (eb_pending s). waiting_job_ok w s k" "jid p \<notin> jid ` set (eb_pending s)"
    using assms(3) unfolding waiting_ok_def W by auto
  obtain s1 es where s1: "(if nb_requested_resources p \<le> eb_nb_available s then do {
                  s' \<leftarrow> ebf_launch lib date p s;
                  ebf_drain lib date (eb_pending s') (s'\<lparr>eb_priority := None\<rparr>) }
                else Some s) = Some s1" "ebf_moves w date [] s s1 es" "rejected es = []" "priority_ok s1"
     "if nb_requested_resources p \<le> eb_nb_available s then jid p \<in> fst ` set (executed es)
        else s1 = s \<and> es = []"
  proof (cases "nb_requested_resources p \<le> eb_nb_available s")
    case True
    obtain s0 ms where L: "ebf_launch lib date p s = Some s0" "eb_pending s0 = eb_pending s"
      "\<And>pr js new. distinct (map jid ((case pr of None \<Rightarrow> [] | Some p \<Rightarrow> [p]) @ js)) \<Longrightarrow>
       \<forall>k \<in> set ((case pr of None \<Rightarrow> [] | Some p \<Rightarrow> [p]) @ js). waiting_job_ok w s k \<Longrightarrow>
       add_mset (jid p) (mset (map jid ((case pr of None \<Rightarrow> [] | Some p \<Rightarrow> [p]) @ js)))
         = mset (map jid (waiting s)) + mset new \<Longrightarrow>
       jid p \<notin> jid ` set ((case pr of None \<Rightarrow> [] | Some p \<Rightarrow> [p]) @ js) \<Longrightarrow>
       ebf_moves w date new s (s0\<lparr>eb_pending := js, eb_priority := pr\<rparr>) [ExecuteJob (jid p) ms []]"
      by (rule launch_moves[OF assms(1,2) p True assms(5)]) blast
    let ?s0 = "s0\<lparr>eb_priority := None\<rparr>"
    have "s0\<lparr>eb_pending := eb_pending s, eb_priority := None\<rparr> = ?s0" using L(2) by (cases s0) simp
    then have M: "ebf_moves w date [] s ?s0 [ExecuteJob (jid p) ms []]"
      using L(3)[of None "eb_pending s" "[]"] D W by simp
    then have "running_ok w ?s0" "waiting_ok w ?s0" unfolding ebf_moves_def by blast+
    then obtain s1 es where s1: "ebf_drain lib date (eb_pending s0) ?s0 = Some s1"
      "ebf_moves w date [] ?s0 s1 es" "rejected es = []" "priority_ok s1"
      using drain_moves[OF assms(1), of w ?s0 "eb_pending s0" date] ebf_moves_last_date[OF M assms(5)] by auto
    then show thesis using that[of s1 "ExecuteJob (jid p) ms [] # es"] True L(1) ebf_moves_trans[OF M s1(2)]
      by simp
  next
    case False
    then have "priority_ok s" using Some P by (simp add: priority_ok_def)
    then show thesis using that[of s "[]"] False ebf_moves_refl[OF assms(2,3)] by simp
  qed
  have d1: "last_date (writer (eb_decisions s1)) \<le> date" by (rule ebf_moves_last_date[OF s1(2) assms(5)])
  have ok1: "running_ok w s1" "waiting_ok w s1" using s1(2) unfolding ebf_moves_def by blast+
  obtain s' fs where s': "(if 0 < eb_nb_available s1 then ebf_backfill lib date [] (eb_pending s1) s1 else Some s1) = Some s'"
    "ebf_moves w date [] s1 s' fs" "rejected fs = []" "priority_ok s'" "eb_priority s' = eb_priority s1"
  proof (cases "0 < eb_nb_available s1")
    case True
    show thesis
    proof (cases "eb_priority s1")
      case None
      then have "eb_pending s1 = []" using s1(4) by (simp add: priority_ok_def)
      then show thesis using that[of s1 "[]"] True s1(4) ebf_moves_refl[OF ok1] by simp
    next
      case (Some q)
      then have q: "promise_kept q s1" "eb_nb_available s1 < nb_requested_resources q"
        using s1(4) by (simp_all add: priority_ok_def)
      obtain s' fs where "ebf_backfill lib date [] (eb_pending s1) s1 = Some s'"
        "ebf_moves w date [] s1 s' fs" "rejected fs = []" "eb_priority s' = Some q" "promise_kept q s'"
        "eb_nb_available s' \<le> eb_nb_available s1"
        using backfill_moves[OF assms(1) ok1 Some q(1) _ d1, of "[]"] by auto
      then show thesis using that[of s' fs] True Some q(2) by (simp add: priority_ok_def)
    qed
  next
    case False
    then show thesis using that[of s1 "[]"] s1(4) ebf_moves_refl[OF ok1] by simp
  qed
  have run: "ebf_serve_waiting lib date s = Some s'"
    using Some s1(1) s'(1) by (auto simp: ebf_serve_waiting_def run_simps)
  have "\<forall>q. eb_priority s = Some q \<longrightarrow>
      (if nb_requested_resources q \<le> eb_nb_available s then jid q \<in> fst ` set (executed (es @ fs))
        else eb_priority s' = Some q)"
    using Some s1(5) s'(5) by (auto split: if_splits)
  then show thesis using that[of s' "es @ fs"] run ebf_moves_trans[OF s1(2) s'(2)] s1(3) s'(3,4) by simp
qed

lemma jobs_ended_moves:
  "running_ok w s \<Longrightarrow> waiting_ok w s \<Longrightarrow> distinct ended \<Longrightarrow> set ended \<subseteq> dom (eb_allocations s) \<Longrightarrow>
    \<exists>s'. fold_run (ebf_job_ended w) ended s = Some s' \<and> running_ok w s' \<and> waiting_ok w s' \<and>
      eb_pending s' = eb_pending s \<and> eb_priority s' = eb_priority s \<and> eb_decisions s' = eb_decisions s \<and>
      eb_nb_machines s' = eb_nb_machines s \<and> eb_allocations s' = eb_allocations s |` (- set ended) \<and>
      set (eb_horizons s') \<subseteq> set (eb_horizons s) \<and> (\<forall>p. promise_kept p s \<longrightarrow> promise_kept p s')"
proof (induction ended arbitrary: s)
  case Nil
  then show ?case by simp
next
  case (Cons i ids)
  obtain a where a: "eb_allocations s i = Some a" using Cons.prems(4) by auto
  obtain s1 where s1: "ebf_job_ended w i s = Some s1" "running_ok w s1"
    "eb_pending s1 = eb_pending s" "eb_priority s1 = eb_priority s" "eb_decisions s1 = eb_decisions s"
    "eb_nb_machines s1 = eb_nb_machines s" "eb_allocations s1 = (eb_allocations s)(i := None)"
    "eb_horizons s1 = filter (\<lambda>(k, q). k \<noteq> horizon_it a) (eb_horizons s)"
    and pk: "\<And>p. promise_kept p s \<Longrightarrow> promise_kept p s1"
    by (rule ebf_job_ended_ok[OF Cons.prems(1) a]) blast
  have W: "waiting s1 = waiting s" using s1(3,4) by (simp add: waiting_def)
  have "waiting_ok w s1"
    using Cons.prems(2) s1(6,7) unfolding waiting_ok_def W waiting_job_ok_def by auto
  moreover have "set ids \<subseteq> dom (eb_allocations s1)" using Cons.prems(3,4) s1(7) by auto
  ultimately obtain s' where s': "fold_run (ebf_job_ended w) ids s1 = Some s'" "running_ok w s'" "waiting_ok w s'"
    "eb_pending s' = eb_pending s1" "eb_priority s' = eb_priority s1" "eb_decisions s' = eb_decisions s1"
    "eb_nb_machines s' = eb_nb_machines s1" "eb_allocations s' = eb_allocations s1 |` (- set ids)"
    "set (eb_horizons s') \<subseteq> set (eb_horizons s1)" "\<forall>p. promise_kept p s1 \<longrightarrow> promise_kept p s'"
    using Cons.IH[OF s1(2)] Cons.prems(3) by auto
  have "eb_allocations s' = eb_allocations s |` (- set (i # ids))"
    unfolding s'(8) s1(7) by (auto simp: restrict_map_def)
  moreover have "set (eb_horizons s') \<subseteq> set (eb_horizons s)" using s'(9) s1(8) by auto
  ultimately show ?case using s1 s' pk by simp
qed

definition ebf_fresh :: "workload \<Rightarrow> ebf \<Rightarrow> job_id \<Rightarrow> bool" where
  "ebf_fresh w s i \<longleftrightarrow> eb_allocations s i = None \<and> i \<notin> jid ` set (waiting s) \<and>
     (\<exists>j. w i = Some j \<and> jid j = i \<and> 0 \<le> nb_requested_resources j)"

definition ebf_too_big :: "workload \<Rightarrow> int \<Rightarrow> job_id \<Rightarrow> bool" where
  "ebf_too_big w n i \<longleftrightarrow> (case w i of None \<Rightarrow> False | Some j \<Rightarrow> n < nb_requested_resources j)"

lemma job_released_moves:
  assumes lib: "interval_set lib" and ok: "running_ok w s" "waiting_ok w s" "priority_ok s"
    and i: "w i = Some j" "jid j = i" "0 \<le> nb_requested_resources j" "eb_allocations s i = None"
      "i \<notin> jid ` set (waiting s)"
    and date: "last_date (writer (eb_decisions s)) \<le> date"
  obtains s' es where "ebf_job_released lib w date i s = Some s'"
    "ebf_moves w date (if ebf_too_big w (eb_nb_machines s) i then [] else [i]) s s' es"
    "rejected es = (if ebf_too_big w (eb_nb_machines s) i then [i] else [])" "priority_ok s'"
    "\<forall>p. eb_priority s = Some p \<longrightarrow> eb_priority s' = Some p"
proof -
  note concl = that
  have av: "eb_nb_available s \<le> eb_nb_machines s"
  proof -
    have "eb_nb_available s + released_total (eb_horizons s) = eb_nb_machines s"
      "\<forall>(h, p) \<in> set (eb_horizons s). 0 \<le> nb_released_machines p"
      using ok(1) unfolding running_ok_def by blast+
    moreover have "0 \<le> released_total hs" if "\<forall>(h, p) \<in> set hs. 0 \<le> nb_released_machines p" for hs
      using that by (induction hs) auto
    ultimately show ?thesis by (metis add_increasing2 order_refl)
  qed
  have D: "distinct (map jid (waiting s))" "\<forall>k \<in> set (waiting s). waiting_job_ok w s k"
    using ok(2) unfolding waiting_ok_def by blast+
  have jok: "waiting_job_ok w s j" if "nb_requested_resources j \<le> eb_nb_machines s"
    using i that by (simp add: waiting_job_ok_def)
  have push: thesis if n: "nb_requested_resources j \<le> eb_nb_machines s" and pr: "eb_priority s = Some p"
    and run: "ebf_job_released lib w date i s = Some (s\<lparr>eb_pending := eb_pending s @ [j]\<rparr>)" for p
  proof -
    let ?t = "s\<lparr>eb_pending := eb_pending s @ [j]\<rparr>"
    have W: "waiting ?t = waiting s @ [j]" by (simp add: waiting_def)
    have "waiting_ok w ?t" unfolding waiting_ok_def W using D jok[OF n] i(2,5) by auto
    then have "ebf_moves w date [i] s ?t []"
      unfolding ebf_moves_def W using ok(1) i(2) by (simp add: held_def)
    moreover have "priority_ok ?t" using ok(3) pr by (simp add: priority_ok_def)
    ultimately show thesis using concl[OF run, of "[]"] n i(1) pr by (simp add: ebf_too_big_def)
  qed
  show thesis
  proof (cases "nb_requested_resources j \<le> eb_nb_available s")
    case fits: True
    show thesis
    proof (cases "case eb_priority s of None \<Rightarrow> True | Some p \<Rightarrow> date + walltime j \<le> completion_time p")
      case False
      then obtain p where "eb_priority s = Some p" by (auto split: option.splits)
      then show thesis
        by (rule push[rotated]) (use fits av False i(1) in \<open>simp_all add: ebf_job_released_def\<close>)
    next
      case True
      have n: "nb_requested_resources j \<le> eb_nb_machines s" using fits av by simp
      obtain s' ms where L: "ebf_launch lib date j s = Some s'" "eb_pending s' = eb_pending s"
        "eb_priority s' = eb_priority s" "eb_nb_available s' = eb_nb_available s - nb_requested_resources j"
        "\<forall>p. promise_kept p s \<longrightarrow> date + walltime j \<le> completion_time p \<longrightarrow> promise_kept p s'"
        "\<And>pr js new. distinct (map jid ((case pr of None \<Rightarrow> [] | Some p \<Rightarrow> [p]) @ js)) \<Longrightarrow>
       \<forall>k \<in> set ((case pr of None \<Rightarrow> [] | Some p \<Rightarrow> [p]) @ js). waiting_job_ok w s k \<Longrightarrow>
       add_mset (jid j) (mset (map jid ((case pr of None \<Rightarrow> [] | Some p \<Rightarrow> [p]) @ js)))
         = mset (map jid (waiting s)) + mset new \<Longrightarrow>
       jid j \<notin> jid ` set ((case pr of None \<Rightarrow> [] | Some p \<Rightarrow> [p]) @ js) \<Longrightarrow>
       ebf_moves w date new s (s'\<lparr>eb_pending := js, eb_priority := pr\<rparr>) [ExecuteJob (jid j) ms []]"
        by (rule launch_moves[OF lib ok(1) jok[OF n] fits date]) blast
      have "s'\<lparr>eb_pending := eb_pending s, eb_priority := eb_priority s\<rparr> = s'" using L(2,3) by (cases s') simp
      then have M: "ebf_moves w date [i] s s' [ExecuteJob (jid j) ms []]"
        using L(6)[of "eb_priority s" "eb_pending s" "[i]"] D i(2,5) unfolding waiting_def[symmetric] by simp
      have "priority_ok s'"
        using ok(3) True L(2-5) i(3) by (auto simp: priority_ok_def split: option.splits)
      then show thesis using that[OF _ _ _ _, of s' "[ExecuteJob (jid j) ms []]"] L(1,3) M True fits n i(1)
        by (simp add: ebf_job_released_def ebf_too_big_def)
    qed
  next
    case nofit: False
    show thesis
    proof (cases "eb_nb_machines s < nb_requested_resources j")
      case True
      obtain d where d: "add_reject_job i date (eb_decisions s) = Some d"
        "decided date [RejectJob i] (eb_decisions s) d"
        using decided_one[OF date] by (auto simp: decision_simps)
      let ?t = "s\<lparr>eb_decisions := d\<rparr>"
      have W: "waiting ?t = waiting s" by (simp add: waiting_def)
      have "waiting_ok w ?t" using D unfolding waiting_ok_def W by simp
      then have "ebf_moves w date [] s ?t [RejectJob i]"
        unfolding ebf_moves_def W using ok(1) d(2) by (simp add: held_def)
      moreover have "priority_ok ?t" using ok(3) by (simp add: priority_ok_def split: option.splits)
      ultimately show thesis using that[of ?t "[RejectJob i]"] d(1) True nofit i(1)
        by (simp add: ebf_job_released_def ebf_too_big_def)
    next
      case n: False
      show thesis
      proof (cases "eb_priority s")
        case (Some p)
        then show thesis by (rule push[rotated]) (use n nofit i(1) Some in \<open>simp_all add: ebf_job_released_def\<close>)
      next
        case None
        then have none: "eb_pending s = []" "waiting s = []" using ok(3) by (simp_all add: priority_ok_def waiting_def)
        obtain p where p: "make_priority j s = Some (s\<lparr>eb_priority := Some p\<rparr>)" "promise_kept p s"
          "jid p = jid j" "nb_requested_resources p = nb_requested_resources j"
          using make_priority_ok[OF ok(1)] nofit n by (metis not_le)
        let ?t = "s\<lparr>eb_priority := Some p\<rparr>"
        have W: "waiting ?t = [p]" using none(1) by (simp add: waiting_def)
        have "waiting_ok w ?t" unfolding waiting_ok_def W
          using jok n waiting_job_ok_cong[OF p(3,4)] by simp
        then have "ebf_moves w date [i] s ?t []"
          unfolding ebf_moves_def W none(2) using ok(1) p(3) i(2) by (simp add: held_def)
        moreover have "priority_ok ?t" using p(2,4) nofit by (simp add: priority_ok_def)
        ultimately show thesis using that[of ?t "[]"] p(1) n nofit None i(1)
          by (simp add: ebf_job_released_def ebf_too_big_def)
      qed
    qed
  qed
qed

lemma jobs_released_moves:
  assumes "interval_set lib"
  shows "running_ok w s \<Longrightarrow> waiting_ok w s \<Longrightarrow> priority_ok s \<Longrightarrow> distinct released \<Longrightarrow>
    \<forall>i \<in> set released. ebf_fresh w s i \<Longrightarrow> last_date (writer (eb_decisions s)) \<le> date \<Longrightarrow>
    \<exists>s' es. fold_run (ebf_job_released lib w date) released s = Some s' \<and>
      ebf_moves w date (filter (\<lambda>i. \<not> ebf_too_big w (eb_nb_machines s) i) released) s s' es \<and>
      rejected es = filter (ebf_too_big w (eb_nb_machines s)) released \<and> priority_ok s' \<and>
      (\<forall>p. eb_priority s = Some p \<longrightarrow> eb_priority s' = Some p)"
proof (induction released arbitrary: s)
  case Nil
  then show ?case by (intro exI[of _ s] exI[of _ "[]"]) (simp add: ebf_moves_refl)
next
  case (Cons i ids)
  let ?n = "eb_nb_machines s"
  have "ebf_fresh w s i" using Cons.prems(5) by simp
  then obtain j where j: "w i = Some j" "jid j = i" "0 \<le> nb_requested_resources j"
    "eb_allocations s i = None" "i \<notin> jid ` set (waiting s)" unfolding ebf_fresh_def by blast
  obtain s1 es where s1: "ebf_job_released lib w date i s = Some s1"
    "ebf_moves w date (if ebf_too_big w ?n i then [] else [i]) s s1 es"
    "rejected es = (if ebf_too_big w ?n i then [i] else [])" "priority_ok s1"
    "\<forall>p. eb_priority s = Some p \<longrightarrow> eb_priority s1 = Some p"
    by (rule job_released_moves[OF assms Cons.prems(1-3) j Cons.prems(6)]) blast
  note M = s1(2)[unfolded ebf_moves_def]
  have ids: "fst ` set (executed es) \<union> jid ` set (waiting s1) \<subseteq> insert i (jid ` set (waiting s))"
  proof -
    have "mset (map fst (executed es) @ map jid (waiting s1))
        = mset (map jid (waiting s) @ (if ebf_too_big w ?n i then [] else [i]))"
      using M by simp
    from mset_eq_setD[OF this] show ?thesis by (auto split: if_splits)
  qed
  have "\<forall>k \<in> set ids. ebf_fresh w s1 k"
  proof
    fix k
    assume k: "k \<in> set ids"
    then have f: "ebf_fresh w s k" "k \<noteq> i" using Cons.prems(4,5) by auto
    then have "k \<notin> fst ` set (executed es)" "k \<notin> jid ` set (waiting s1)"
      using ids unfolding ebf_fresh_def by auto
    moreover have "held s1 k = held s k" using M \<open>k \<notin> fst ` set (executed es)\<close> by (simp add: grant_other)
    ultimately show "ebf_fresh w s1 k" using f(1) by (simp add: ebf_fresh_def held_def)
  qed
  then obtain s' fs where s': "fold_run (ebf_job_released lib w date) ids s1 = Some s'"
    "ebf_moves w date (filter (\<lambda>i. \<not> ebf_too_big w (eb_nb_machines s1) i) ids) s1 s' fs"
    "rejected fs = filter (ebf_too_big w (eb_nb_machines s1)) ids" "priority_ok s'"
    "\<forall>p. eb_priority s1 = Some p \<longrightarrow> eb_priority s' = Some p"
    using Cons.IH[of s1] M s1(4) Cons.prems(4) ebf_moves_last_date[OF s1(2) Cons.prems(6)] by auto
  have n: "eb_nb_machines s1 = ?n" using M by blast
  have "ebf_moves w date (filter (\<lambda>i. \<not> ebf_too_big w ?n i) (i # ids)) s s' (es @ fs)"
    using ebf_moves_trans[OF s1(2) s'(2)] n by (simp split: if_splits)
  moreover have "rejected (es @ fs) = filter (ebf_too_big w ?n) (i # ids)" using s1(3) s'(3) n by simp
  ultimately show ?case using s1(1,5) s'(1,4,5) by (intro exI[of _ s'] exI[of _ "es @ fs"]) simp
qed

lemma ebf_make_decisions_moves:
  assumes lib: "interval_set lib" and ok: "ebf_ok w s" and input: "ebf_input w ended released s"
    and date: "last_date (writer (eb_decisions s)) \<le> date"
  obtains s' es where "ebf_make_decisions lib w ended released date s = Some s'" "ebf_ok w s'"
    "decided date es (eb_decisions s) (eb_decisions s')"
    "mset (map fst (executed es)) + mset (map jid (waiting s')) =
       mset (map jid (waiting s)) + mset (filter (\<lambda>i. \<not> ebf_too_big w (eb_nb_machines s) i) released)"
    "rejected es = filter (ebf_too_big w (eb_nb_machines s)) released"
    "held s' = grant (executed es) (held s |` (- set ended))"
    "\<forall>p. eb_priority s = Some p \<longrightarrow> jid p \<in> fst ` set (executed es) \<or> eb_priority s' = Some p"
    "\<forall>p. eb_priority s = Some p \<longrightarrow> ended \<noteq> [] \<longrightarrow>
       (\<forall>i a q. eb_allocations s i = Some a \<longrightarrow> (horizon_it a, q) \<in> set (eb_horizons s) \<longrightarrow>
          hp_date q \<le> completion_time p \<longrightarrow> i \<in> set ended) \<longrightarrow> jid p \<in> fst ` set (executed es)"
proof -
  note I = input[unfolded ebf_input_def]
  have I1: "distinct ended" "set ended \<subseteq> dom (eb_allocations s)" "distinct released" using I by blast+
  have S: "running_ok w s" "waiting_ok w s" "priority_ok s" using ok unfolding ebf_ok_def by blast+
  obtain s1 where s1: "fold_run (ebf_job_ended w) ended s = Some s1" "running_ok w s1" "waiting_ok w s1"
      "eb_pending s1 = eb_pending s" "eb_priority s1 = eb_priority s" "eb_decisions s1 = eb_decisions s"
      "eb_nb_machines s1 = eb_nb_machines s" "eb_allocations s1 = eb_allocations s |` (- set ended)"
      "set (eb_horizons s1) \<subseteq> set (eb_horizons s)" "\<forall>p. promise_kept p s \<longrightarrow> promise_kept p s1"
    using jobs_ended_moves[OF S(1,2) I1(1,2)] by blast
  have d1: "last_date (writer (eb_decisions s1)) \<le> date" using s1(6) date by simp
  have pr1: "case eb_priority s1 of None \<Rightarrow> eb_pending s1 = [] | Some p \<Rightarrow> promise_kept p s1"
    using S(3) s1(4,5,10) by (auto simp: priority_ok_def split: option.splits)
  have W1: "waiting s1 = waiting s" using s1(4,5) by (simp add: waiting_def)
  obtain s2 es where s2: "(if ended \<noteq> [] then ebf_serve_waiting lib date s1 else Some s1) = Some s2"
    "ebf_moves w date [] s1 s2 es" "rejected es = []" "priority_ok s2"
    "\<forall>p. eb_priority s = Some p \<longrightarrow> jid p \<in> fst ` set (executed es) \<or> eb_priority s2 = Some p"
    "\<forall>p. eb_priority s = Some p \<longrightarrow> ended \<noteq> [] \<longrightarrow> nb_requested_resources p \<le> eb_nb_available s1 \<longrightarrow>
       jid p \<in> fst ` set (executed es)"
  proof (cases "ended = []")
    case True
    then have "s1 = s" using s1(1) by simp
    then show thesis using that[of s1 "[]"] True S ebf_moves_refl[OF S(1,2)] by simp
  next
    case False
    obtain s2 es where s2: "ebf_serve_waiting lib date s1 = Some s2" "ebf_moves w date [] s1 s2 es"
      "rejected es = []" "priority_ok s2"
      "\<forall>p. eb_priority s1 = Some p \<longrightarrow>
       (if nb_requested_resources p \<le> eb_nb_available s1 then jid p \<in> fst ` set (executed es)
        else eb_priority s2 = Some p)"
      by (rule serve_waiting_moves[OF lib s1(2,3) pr1 d1])
    show thesis by (rule that[of s2 es]) (use False s2 s1(5) in \<open>auto split: if_splits\<close>)
  qed
  note M2 = s2(2)[unfolded ebf_moves_def]
  have ids: "fst ` set (executed es) \<union> jid ` set (waiting s2) = jid ` set (waiting s)"
  proof -
    have "mset (map fst (executed es) @ map jid (waiting s2)) = mset (map jid (waiting s))"
      using M2 W1 by simp
    from mset_eq_setD[OF this] show ?thesis by auto
  qed
  have "\<forall>i \<in> set released. ebf_fresh w s2 i"
  proof
    fix i
    assume i: "i \<in> set released"
    then have f: "i \<notin> dom (eb_allocations s)" "i \<notin> jid ` set (waiting s)"
      "\<exists>j. w i = Some j \<and> jid j = i \<and> 0 \<le> nb_requested_resources j" using I by blast+
    then have x: "i \<notin> fst ` set (executed es)" "i \<notin> jid ` set (waiting s2)" using ids by blast+
    have "eb_allocations s1 i = None" using f(1) s1(8) by (auto simp: restrict_map_def)
    then have "held s2 i = None" using M2 x(1) by (simp add: grant_other held_def)
    then show "ebf_fresh w s2 i" using x(2) f(3) by (simp add: ebf_fresh_def held_def)
  qed
  then obtain s' fs where s': "fold_run (ebf_job_released lib w date) released s2 = Some s'"
      "ebf_moves w date (filter (\<lambda>i. \<not> ebf_too_big w (eb_nb_machines s2) i) released) s2 s' fs"
      "rejected fs = filter (ebf_too_big w (eb_nb_machines s2)) released" "priority_ok s'"
      "\<forall>p. eb_priority s2 = Some p \<longrightarrow> eb_priority s' = Some p"
    using jobs_released_moves[OF lib _ _ s2(4) I1(3)] M2 ebf_moves_last_date[OF s2(2) d1] by blast
  have n: "eb_nb_machines s2 = eb_nb_machines s" using M2 s1(7) by simp
  note M = ebf_moves_trans[OF s2(2) s'(2), unfolded ebf_moves_def n W1]
  have held1: "held s1 = held s |` (- set ended)" using s1(8) by (auto simp: held_def restrict_map_def)
  have pri: "\<forall>p. eb_priority s = Some p \<longrightarrow> jid p \<in> fst ` set (executed (es @ fs)) \<or> eb_priority s' = Some p"
    using s2(5) s'(5) by auto
  have promise: "jid p \<in> fst ` set (executed (es @ fs))"
    if p: "eb_priority s = Some p" "ended \<noteq> []"
      "\<forall>i a q. eb_allocations s i = Some a \<longrightarrow> (horizon_it a, q) \<in> set (eb_horizons s) \<longrightarrow>
          hp_date q \<le> completion_time p \<longrightarrow> i \<in> set ended" for p
  proof -
    have "\<forall>(h, q) \<in> set (eb_horizons s1). completion_time p < hp_date q"
    proof (clarify)
      fix h q
      assume hq: "(h, q) \<in> set (eb_horizons s1)"
      then obtain i a where a: "eb_allocations s1 i = Some a" "horizon_it a = h"
        using s1(2) unfolding running_ok_def by blast
      then have "eb_allocations s i = Some a" "i \<notin> set ended"
        unfolding s1(8) by (auto simp: restrict_map_def split: if_splits)
      moreover have "(horizon_it a, q) \<in> set (eb_horizons s)" using hq a(2) s1(9) by blast
      ultimately show "completion_time p < hp_date q" using p(3) not_le by blast
    qed
    then have "released_by (completion_time p) (eb_horizons s1) = 0" by (rule released_none)
    moreover have "promise_kept p s1" using S(3) p(1) s1(10) by (simp add: priority_ok_def)
    ultimately have "nb_requested_resources p \<le> eb_nb_available s1" by (simp add: promise_kept_def)
    then show ?thesis using s2(6) p(1,2) by auto
  qed
  show thesis
  proof (rule that[of s' "es @ fs"])
    show "ebf_make_decisions lib w ended released date s = Some s'"
      using s1(1) s2(1) s'(1) by (simp add: ebf_make_decisions_def)
    show "ebf_ok w s'" using M s'(4) unfolding ebf_ok_def by blast
    show "decided date (es @ fs) (eb_decisions s) (eb_decisions s')" using M s1(6) by simp
    show "mset (map fst (executed (es @ fs))) + mset (map jid (waiting s')) =
       mset (map jid (waiting s)) + mset (filter (\<lambda>i. \<not> ebf_too_big w (eb_nb_machines s) i) released)"
      using M by (simp only: append_Nil)
    show "rejected (es @ fs) = filter (ebf_too_big w (eb_nb_machines s)) released"
      using s2(3) s'(3) n by simp
    show "held s' = grant (executed (es @ fs)) (held s |` (- set ended))" using M held1 by simp
  qed (use pri promise in \<open>blast+\<close>)
qed

subsection \<open>Properties\<close>

text \<open>
  C16: one call of \<^verbatim>\<open>EasyBackfillingFast::make_decisions\<close> with correct inputs never aborts: the
  promised date of a priority job always exists, no null priority job is read, every iterator
  erased is valid.  It keeps the invariant, loses no job and starts none twice, rejects exactly the
  too large jobs, and the machines of every start were free.
\<close>

theorem easy_fast_correct:
  assumes "interval_set lib" "ebf_ok w s" "ebf_input w ended released s"
    and "last_date (writer (eb_decisions s)) \<le> date"
  shows "\<exists>s' es. ebf_make_decisions lib w ended released date s = Some s' \<and> ebf_ok w s' \<and>
    decided date es (eb_decisions s) (eb_decisions s') \<and>
    mset (map fst (executed es)) + mset (map jid (waiting s')) =
      mset (map jid (waiting s)) + mset (filter (\<lambda>i. \<not> ebf_too_big w (eb_nb_machines s) i) released) \<and>
    rejected es = filter (ebf_too_big w (eb_nb_machines s)) released \<and>
    held s' = grant (executed es) (held s |` (- set ended))"
  by (rule ebf_make_decisions_moves[OF assms]) (intro exI conjI; assumption)

text \<open>
  C15: the EASY guarantee.  A waiting priority job is either started by a call, or it keeps its place
  and its promised date, and after the call the machines that are free and those of the jobs whose
  walltime ends by that date are still enough for it, whatever was backfilled.  It is started at the
  latest by the call in which the last of the jobs whose walltime ends by the promised date has ended.
\<close>

theorem easy_fast_keeps_promise:
  assumes "interval_set lib" "ebf_ok w s" "ebf_input w ended released s"
    and "last_date (writer (eb_decisions s)) \<le> date" "eb_priority s = Some p"
  shows "\<exists>s' es. ebf_make_decisions lib w ended released date s = Some s' \<and>
    decided date es (eb_decisions s) (eb_decisions s') \<and>
    (jid p \<in> fst ` set (executed es) \<or>
       (eb_priority s' = Some p \<and> running_ok w s' \<and>
        nb_requested_resources p \<le> eb_nb_available s' + released_by (completion_time p) (eb_horizons s'))) \<and>
    (ended \<noteq> [] \<longrightarrow>
       (\<forall>i a q. eb_allocations s i = Some a \<longrightarrow> (horizon_it a, q) \<in> set (eb_horizons s) \<longrightarrow>
          hp_date q \<le> completion_time p \<longrightarrow> i \<in> set ended) \<longrightarrow> jid p \<in> fst ` set (executed es))"
proof (rule ebf_make_decisions_moves[OF assms(1-4)], goal_cases)
  case (1 s' es)
  have "running_ok w s' \<and> nb_requested_resources p \<le> eb_nb_available s' + released_by (completion_time p) (eb_horizons s')"
    if "eb_priority s' = Some p"
    using 1(2) that by (simp add: ebf_ok_def priority_ok_def promise_kept_def)
  then show ?case using 1 assms(5) by blast
qed

text \<open>
  C17: the date promised to a job is the earliest at which the free machines and those of the jobs
  whose walltime has ended are enough for it, and it always exists for a job that fits the platform.
\<close>

theorem promised_date_earliest:
  assumes "running_ok w s" "eb_nb_available s < nb_requested_resources j"
    and "nb_requested_resources j \<le> eb_nb_machines s"
  shows "\<exists>t. make_priority j s = Some (s\<lparr>eb_priority := Some (j\<lparr>completion_time := t\<rparr>)\<rparr>) \<and>
    nb_requested_resources j \<le> eb_nb_available s + released_by t (eb_horizons s) \<and>
    (\<forall>t'. t' < t \<longrightarrow> eb_nb_available s + released_by t' (eb_horizons s) < nb_requested_resources j)"
proof -
  obtain p where p: "make_priority j s = Some (s\<lparr>eb_priority := Some p\<rparr>)" "promise_kept p s"
    "nb_requested_resources p = nb_requested_resources j"
    "\<And>t. t < completion_time p \<Longrightarrow>
       eb_nb_available s + released_by t (eb_horizons s) < nb_requested_resources p"
    by (rule make_priority_ok[OF assms]) blast
  obtain t where t: "earliest_start (eb_horizons s) (eb_nb_available s) (nb_requested_resources j) = Some t"
    "p = j\<lparr>completion_time := t\<rparr>"
    using p(1) by (auto simp: make_priority_def run_simps dest: arg_cong[of _ _ eb_priority])
  show ?thesis using p t by (intro exI[of _ t]) (simp add: promise_kept_def)
qed

subsection \<open>Example\<close>

text \<open>
  Four machines.  Job \<^verbatim>\<open>a\<close> runs on three of them until 10; \<^verbatim>\<open>b\<close>, which needs all four, is promised
  date 10; \<^verbatim>\<open>c\<close> waits because it would run past that date.
\<close>

definition easy_workload :: workload where
  "easy_workload = [''a'' \<mapsto> plain_job ''a'' 3 10, ''b'' \<mapsto> plain_job ''b'' 4 10,
     ''c'' \<mapsto> plain_job ''c'' 1 100, ''d'' \<mapsto> plain_job ''d'' 1 2]"

definition easy_state :: ebf where
  "easy_state = \<lparr>eb_nb_machines = 4, eb_available = {3}, eb_nb_available = 1,
     eb_pending = [plain_job ''c'' 1 100],
     eb_allocations = [''a'' \<mapsto> \<lparr>ea_machines = {0, 1, 2}, horizon_it = 0\<rparr>],
     eb_horizons = [(0, \<lparr>hp_date = 10, nb_released_machines = 3\<rparr>)], eb_next_it = 1,
     eb_priority = Some ((plain_job ''b'' 4 10)\<lparr>completion_time := 10\<rparr>), eb_decisions = new_decisions\<rparr>"

lemma easy_state_ok:
  "ebf_ok easy_workload easy_state" "ebf_input easy_workload [''a''] [''d''] easy_state"
  "last_date (writer (eb_decisions easy_state)) \<le> 9" "running_ok easy_workload easy_state"
proof -
  have h: "held easy_state = [''a'' \<mapsto> {0, 1, 2}]" by (auto simp: held_def easy_state_def)
  have "pool_ok 4 {3} [''a'' \<mapsto> {0, 1, 2}]" unfolding pool_ok_def by (auto split: if_splits)
  then show r: "running_ok easy_workload easy_state"
    unfolding running_ok_def h by (auto simp: easy_state_def easy_workload_def by_date_def split: if_splits)
  have "waiting_ok easy_workload easy_state"
    by (auto simp: waiting_ok_def waiting_def waiting_job_ok_def easy_state_def easy_workload_def)
  moreover have "priority_ok easy_state" by (simp add: priority_ok_def promise_kept_def easy_state_def)
  ultimately show "ebf_ok easy_workload easy_state" using r unfolding ebf_ok_def by blast
qed (auto simp: ebf_input_def waiting_def easy_state_def easy_workload_def new_decisions_def new_writer_def)

theorem easy_fast_correct_witness:
  "\<exists>s' es. ebf_make_decisions std_lib easy_workload [''a''] [''d''] 9 easy_state = Some s' \<and>
     ebf_ok easy_workload s' \<and>
     mset (map fst (executed es)) + mset (map jid (waiting s')) = {#''b'', ''c'', ''d''#}"
proof -
  have "mset (map jid (waiting easy_state)) +
      mset (filter (\<lambda>i. \<not> ebf_too_big easy_workload (eb_nb_machines easy_state) i) [''d'']) =
    {#''b'', ''c'', ''d''#}"
    by (simp add: easy_state_def waiting_def easy_workload_def ebf_too_big_def)
  then show ?thesis using easy_fast_correct[OF std.interval_set_axioms easy_state_ok(1-3)] by metis
qed

text \<open>
  At date 0 the job \<^verbatim>\<open>d\<close>, of walltime 2, is backfilled and \<^verbatim>\<open>b\<close> keeps its promise; when \<^verbatim>\<open>a\<close> ends
  \<^verbatim>\<open>b\<close> is started.
\<close>

lemma easy_backfills:
  "\<exists>s'. ebf_make_decisions std_lib easy_workload [] [''d''] 0 easy_state = Some s' \<and>
     events (writer (eb_decisions s')) = [(0, ExecuteJob ''d'' {3} [])] \<and> eb_nb_available s' = 0"
  by (simp add: ebf_make_decisions_def easy_state_def ebf_job_released_def easy_workload_def ebf_launch_def Let_def
      basic_fit_def insert_horizon_point_def add_execute_job_def append_execute_job_def on_writer_def append_event_def
      new_decisions_def new_writer_def std_lib_def least_elements_def)

theorem easy_fast_keeps_promise_witness:
  "(\<exists>s'. ebf_make_decisions std_lib easy_workload [] [''d''] 0 easy_state = Some s' \<and>
     eb_nb_available s' = 0 \<and> 4 \<le> eb_nb_available s' + released_by 10 (eb_horizons s')) \<and>
   (\<exists>s' es. ebf_make_decisions std_lib easy_workload [''a''] [''d''] 9 easy_state = Some s' \<and>
     decided 9 es (eb_decisions easy_state) (eb_decisions s') \<and> ''b'' \<in> fst ` set (executed es))"
proof
  let ?b = "(plain_job ''b'' 4 10)\<lparr>completion_time := 10\<rparr>"
  have b: "eb_priority easy_state = Some ?b" by (simp add: easy_state_def)
  obtain t where t: "ebf_make_decisions std_lib easy_workload [] [''d''] 0 easy_state = Some t"
    "events (writer (eb_decisions t)) = [(0, ExecuteJob ''d'' {3} [])]" "eb_nb_available t = 0"
    using easy_backfills by blast
  have "ebf_input easy_workload [] [''d''] easy_state" "last_date (writer (eb_decisions easy_state)) \<le> 0"
    by (auto simp: ebf_input_def waiting_def easy_state_def easy_workload_def new_decisions_def new_writer_def)
  from easy_fast_keeps_promise[OF std.interval_set_axioms easy_state_ok(1) this b] t(1)
  obtain es where es: "decided 0 es (eb_decisions easy_state) (eb_decisions t)"
    "jid ?b \<in> fst ` set (executed es) \<or> nb_requested_resources ?b \<le> eb_nb_available t + released_by (completion_time ?b) (eb_horizons t)"
    by auto
  have "[(0::time, ExecuteJob ''d'' {3} [])] = map (Pair 0) es"
    using decided_events[OF es(1)] t(2) by (simp add: easy_state_def new_decisions_def new_writer_def)
  then have "es = [ExecuteJob ''d'' {3} []]" by auto
  then show "\<exists>s'. ebf_make_decisions std_lib easy_workload [] [''d''] 0 easy_state = Some s' \<and>
     eb_nb_available s' = 0 \<and> 4 \<le> eb_nb_available s' + released_by 10 (eb_horizons s')"
    using t(1,3) es(2) by (intro exI[of _ t]) simp
  from easy_fast_keeps_promise[OF std.interval_set_axioms easy_state_ok(1-3) b]
  obtain s' fs where "ebf_make_decisions std_lib easy_workload [''a''] [''d''] 9 easy_state = Some s'"
    "decided 9 fs (eb_decisions easy_state) (eb_decisions s')"
    "(\<forall>i a q. eb_allocations easy_state i = Some a \<longrightarrow> (horizon_it a, q) \<in> set (eb_horizons easy_state) \<longrightarrow>
          hp_date q \<le> completion_time ?b \<longrightarrow> i \<in> set [''a'']) \<longrightarrow> jid ?b \<in> fst ` set (executed fs)" by blast
  then show "\<exists>s' es. ebf_make_decisions std_lib easy_workload [''a''] [''d''] 9 easy_state = Some s' \<and>
     decided 9 es (eb_decisions easy_state) (eb_decisions s') \<and> ''b'' \<in> fst ` set (executed es)"
    by (auto simp: easy_state_def split: if_splits)
qed

theorem promised_date_earliest_witness:
  "\<exists>t. make_priority (plain_job ''b'' 4 10) easy_state =
      Some (easy_state\<lparr>eb_priority := Some ((plain_job ''b'' 4 10)\<lparr>completion_time := t\<rparr>)\<rparr>) \<and>
     4 \<le> 1 + released_by t (eb_horizons easy_state)"
proof -
  have "eb_nb_available easy_state = 1" "eb_nb_machines easy_state = 4" by (simp_all add: easy_state_def)
  then show ?thesis using promised_date_earliest[OF easy_state_ok(4), of "plain_job ''b'' 4 10"] by auto
qed

end
