(* ===== verification/Schedule_Room.thy ===== *)
theory Schedule_Room
  imports Schedule_Safety
begin

text \<open>
  Room in a schedule.  When every job of a schedule ends by a known date, the machines are all free
  from then on, so that an insertion of a job that fits the platform succeeds before the horizon,
  and starts no later than the last of these dates.  The schedulers built on a schedule use this to
  show that their insertions do not fail.
\<close>

subsection \<open>Dates by which the jobs end\<close>

definition ends_by :: "(job_id \<Rightarrow> time) \<Rightarrow> time_slice list \<Rightarrow> bool" where
  "ends_by f P \<longleftrightarrow> (\<forall>ts \<in> set P. \<forall>i. slice_has i ts \<longrightarrow> end_of ts \<le> f i)"

lemma ends_by_mono: "ends_by f P \<Longrightarrow> (\<And>i. i \<in> held_ids P \<Longrightarrow> f i \<le> g i) \<Longrightarrow> ends_by g P"
  unfolding ends_by_def held_ids_def by (blast intro: order_trans)

lemma insideD: "inside i ts' ts \<Longrightarrow> k \<noteq> i \<Longrightarrow> slice_has k ts' \<longleftrightarrow> slice_has k ts"
  by (simp add: inside_def slice_has_get)

lemma places_ends_by:
  assumes "places i U n b e P P'" "ends_by f P" "e \<le> f i"
  shows "ends_by f P'"
  unfolding ends_by_def
proof (intro ballI allI impI)
  fix ts' k
  assume ts': "ts' \<in> set P'" "slice_has k ts'"
  obtain ts where ts: "ts \<in> set P" "inside i ts' ts" using assms(1) ts'(1) unfolding places_def by blast
  show "end_of ts' \<le> f k"
  proof (cases "k = i")
    case True
    then have "end_of ts' \<le> e" using assms(1) ts' unfolding places_def by blast
    then show ?thesis using assms(3) True by simp
  next
    case False
    then have "end_of ts \<le> f k" using assms(2) ts ts'(2) insideD unfolding ends_by_def by blast
    then show ?thesis using ts(2) by (simp add: inside_def)
  qed
qed

lemma places_covers:
  assumes "places i U n b e P P'" "covers k V b' e' P" "k \<noteq> i"
  shows "covers k V b' e' P'"
  unfolding covers_def
proof (intro ballI impI)
  fix ts'
  assume ts': "ts' \<in> set P'" "b' < end_of ts'" "begin_of ts' < e'"
  obtain ts where ts: "ts \<in> set P" "inside i ts' ts" using assms(1) ts'(1) unfolding places_def by blast
  have "b' < end_of ts" "begin_of ts < e'" using ts(2) ts'(2,3) by (simp_all add: inside_def)
  then have "jm_get k (allocated_jobs ts) = Some V" using assms(2) ts(1) by (simp add: covers_def)
  then show "jm_get k (allocated_jobs ts') = Some V" using ts(2) assms(3) by (simp add: inside_def)
qed

text \<open>The machines \<open>V\<close> are free in all the slices that meet the period.\<close>

definition has_room :: "machines \<Rightarrow> time \<Rightarrow> time \<Rightarrow> time_slice list \<Rightarrow> bool" where
  "has_room V b e P \<longleftrightarrow> (\<forall>ts \<in> set P. b < end_of ts \<longrightarrow> begin_of ts < e \<longrightarrow> V \<subseteq> available_machines ts)"

lemma merges_held: "merges P Q \<Longrightarrow> held_ids Q = held_ids P"
  by (induction rule: merges.induct) (auto simp: held_ids_def slice_has_def)

lemma merges_ends_by: "merges P Q \<Longrightarrow> ends_by f P \<Longrightarrow> ends_by f Q"
  by (induction rule: merges.induct) (auto simp: ends_by_def slice_has_def)

lemma merges_hd_end:
  "merges P Q \<Longrightarrow> chain b P e \<Longrightarrow> P \<noteq> [] \<Longrightarrow> end_of (hd P) \<le> end_of (hd Q)"
proof (induction rule: merges.induct)
  case (step P A p q B)
  have ch: "\<exists>e'. chain b (A @ [p, q] @ B) e'"
    using step.hyps(1) step.prems(1)
  proof (induction rule: merges.induct)
    case (step P A p q B)
    then show ?case by (auto simp: chain_append)
  qed blast
  have le: "end_of (hd P) \<le> end_of (hd (A @ [p, q] @ B))" by (rule step.IH[OF step.prems])
  have "end_of p \<le> end_of q" using ch by (auto simp: chain_append)
  then show ?case using le by (cases A) auto
qed simp

lemma merges_slices:
  assumes "merges P Q" "profile_ok M P" "chain b P e" "P \<noteq> []"
  shows "(\<forall>i. jm_get i (allocated_jobs (hd Q)) = jm_get i (allocated_jobs (hd P))) \<and>
    (\<forall>k V x y. x < y \<longrightarrow> covers k V x y P \<longrightarrow> covers k V x y Q) \<and>
    (\<forall>V x y. x < y \<longrightarrow> has_room V x y P \<longrightarrow> has_room V x y Q)"
  using assms
proof (induction rule: merges.induct)
  case (step P A p q B)
  let ?r = "q\<lparr>begin_of := begin_of p, length_of := end_of q - begin_of p\<rparr>"
  have c: "profile_ok M (A @ [p, q] @ B)" "chain b (A @ [p, q] @ B) e"
    using merges_correct[OF step.hyps(1) step.prems(1,2)] by blast+
  have mem: "p \<in> set (A @ [p, q] @ B)" "q \<in> set (A @ [p, q] @ B)" by auto
  have get: "jm_get i (allocated_jobs p) = jm_get i (allocated_jobs q)" for i
    using coherentD[OF profile_okD(3)[OF c(1)] mem] jm_get_None_iff[of i "allocated_jobs p"]
      jm_get_None_iff[of i "allocated_jobs q"] step.hyps(2) by (cases "jm_get i (allocated_jobs p)"; cases "jm_get i (allocated_jobs q)") auto
  have av: "available_machines p = available_machines q"
    using same_ids_same_content[OF c(1) mem step.hyps(2)] by blast
  have pq: "end_of p = begin_of q" using c(2) by (auto simp: chain_append)
  have hd: "jm_get i (allocated_jobs (hd (A @ [?r] @ B))) = jm_get i (allocated_jobs (hd (A @ [p, q] @ B)))" for i
    using get[of i] by (cases A) auto
  have cov: "covers k V x y (A @ [?r] @ B)" if "x < y" "covers k V x y (A @ [p, q] @ B)" for k V x y
    using that get[of k] pq by (auto simp: covers_def)
  have room: "has_room V x y (A @ [?r] @ B)" if "x < y" "has_room V x y (A @ [p, q] @ B)" for V x y
    using that av pq by (auto simp: has_room_def)
  show ?case using step.IH[OF step.prems] hd cov room by simp
qed simp

lemma release_all_has:
  "slice_has i (if slice_has (jid j) ts then release_slice j U ts else ts) \<longleftrightarrow> slice_has i ts \<and> i \<noteq> jid j"
  using jm_erase_ids[of "jid j" "allocated_jobs ts"] by (auto simp: slice_has_def release_slice_def Let_def)

lemma release_all_held: "held_ids (release_all j U P) = held_ids P - {jid j}"
proof -
  have "held_ids (release_all j U P) = {i. \<exists>ts \<in> set P. slice_has i ts \<and> i \<noteq> jid j}"
    unfolding held_ids_def release_all_def by (simp only: set_map bex_simps release_all_has)
  then show ?thesis unfolding held_ids_def by blast
qed

lemma set_release_all:
  "set (release_all j U P) = (\<lambda>ts. if slice_has (jid j) ts then release_slice j U ts else ts) ` set P"
  by (simp add: release_all_def)

lemma release_all_ends_by: "ends_by f P \<Longrightarrow> ends_by f (release_all j U P)"
  unfolding ends_by_def set_release_all ball_simps release_all_has by simp

lemma release_all_get: "jm_get k (allocated_jobs (if slice_has (jid j) ts then release_slice j U ts else ts)) =
    (if k = jid j then None else jm_get k (allocated_jobs ts))"
  using slice_has_get[of "jid j" ts] by (auto simp: jm_get_erase)

lemma release_all_covers: "covers k V x y P \<Longrightarrow> k \<noteq> jid j \<Longrightarrow> covers k V x y (release_all j U P)"
  unfolding covers_def set_release_all ball_simps release_all_get by simp

lemma release_all_room:
  assumes "coherent P" "ts0 \<in> set P" "jm_get (jid j) (allocated_jobs ts0) = Some U" "covers (jid j) V x y P"
  shows "has_room V x y (release_all j U P)"
  unfolding has_room_def
proof (intro ballI impI)
  fix ts'
  assume ts': "ts' \<in> set (release_all j U P)" "x < end_of ts'" "begin_of ts' < y"
  then obtain ts where ts: "ts \<in> set P" "ts' = (if slice_has (jid j) ts then release_slice j U ts else ts)"
    unfolding set_release_all by blast
  have "jm_get (jid j) (allocated_jobs ts) = Some V"
    using assms(4) ts(1) ts'(2,3) unfolding ts(2) covers_def by (simp split: if_splits)
  moreover from coherentD[OF assms(1) ts(1) assms(2) this assms(3)] have "V = U" .
  ultimately show "V \<subseteq> available_machines ts'" unfolding ts(2) by (simp add: slice_has_get)
qed

lemma absent_held: "absent j P \<longleftrightarrow> jid j \<notin> held_ids P"
  by (simp add: absent_def held_ids_def)

subsection \<open>What the operations do to them\<close>

lemma remove_job_room:
  assumes ok: "schedule_ok s" and j: "jid j \<in> held_ids (profile s)"
  obtains s' where "remove_job j s = Some s'" "remove_job_if_exists j s = Some (True, s')" "schedule_ok s'"
    "\<And>k. jm_get k (allocated_jobs (hd (profile s'))) = (if k = jid j then None else jm_get k (allocated_jobs (hd (profile s))))"
    "\<And>k V x y. x < y \<Longrightarrow> covers k V x y (profile s) \<Longrightarrow> k \<noteq> jid j \<Longrightarrow> covers k V x y (profile s')"
    "\<And>V x y. x < y \<Longrightarrow> covers (jid j) V x y (profile s) \<Longrightarrow> has_room V x y (profile s')"
    "held_ids (profile s') = held_ids (profile s) - {jid j}"
    "\<And>f. ends_by f (profile s) \<Longrightarrow> ends_by f (profile s')"
    "begin_of (hd (profile s')) = begin_of (hd (profile s))"
    "end_of (hd (profile s)) \<le> end_of (hd (profile s'))" "in_service s' = in_service s" "nb_machines s' = nb_machines s"
    "repair_machines s' = repair_machines s"
    "\<And>t i U. occupied (profile s') t i U \<longleftrightarrow> occupied (profile s) t i U \<and> i \<noteq> jid j"
proof (rule remove_job_cases[OF ok, of j])
  assume "absent j (profile s)"
  then show thesis using j by (simp add: absent_held)
next
  fix s' U
  assume r: "remove_job j s = Some s'" "remove_job_if_exists j s = Some (True, s')" "schedule_ok s'"
    "\<exists>ts \<in> set (profile s). jm_get (jid j) (allocated_jobs ts) = Some U"
    "drops_job (jid j) U (profile s) (profile s')" "counters_less j s s'"
    "begin_of (hd (profile s')) = begin_of (hd (profile s))" "merges (release_all j U (profile s)) (profile s')"
  let ?R = "release_all j U (profile s)"
  have P: "profile s \<noteq> []" "profile_ok (in_service s) (profile s)" "chain (begin_of (hd (profile s))) (profile s) horizon"
    using ok by (simp_all add: schedule_ok_def)
  obtain ts0 where ts0: "ts0 \<in> set (profile s)" "jm_get (jid j) (allocated_jobs ts0) = Some U" using r(4) by blast
  have U: "\<forall>ts \<in> set (profile s). slice_has (jid j) ts \<longrightarrow> jm_get (jid j) (allocated_jobs ts) = Some U"
    using coherentD[OF profile_okD(3)[OF P(2)] ts0(1) _ ts0(2)] slice_has_get by blast
  have R: "?R \<noteq> []" "profile_ok (in_service s) ?R" "chain (begin_of (hd (profile s))) ?R horizon"
  proof -
    show "?R \<noteq> []" using P(1) unfolding release_all_def by simp
    show "profile_ok (in_service s) ?R" by (rule release_all_ok(1)[OF P(2) U])
    show "chain (begin_of (hd (profile s))) ?R horizon" using P(3) by simp
  qed
  note m = merges_slices[OF r(8) R(2,3,1)]
  have hdR: "hd ?R = (if slice_has (jid j) (hd (profile s)) then release_slice j U (hd (profile s)) else hd (profile s))"
    using P(1) by (simp add: release_all_def hd_map)
  have 1: "jm_get k (allocated_jobs (hd (profile s'))) = (if k = jid j then None else jm_get k (allocated_jobs (hd (profile s))))" for k
  proof -
    have "jm_get k (allocated_jobs (hd (profile s'))) = jm_get k (allocated_jobs (hd ?R))" using m by blast
    then show ?thesis unfolding hdR release_all_get .
  qed
  have 2: "covers k V x y (profile s')" if "x < y" "covers k V x y (profile s)" "k \<noteq> jid j" for k V x y
    using m release_all_covers[OF that(2,3)] that(1) by blast
  have 3: "has_room V x y (profile s')" if "x < y" "covers (jid j) V x y (profile s)" for V x y
    using m release_all_room[OF profile_okD(3)[OF P(2)] ts0 that(2)] that(1) by blast
  have "end_of (hd ?R) = end_of (hd (profile s))" unfolding hdR by simp
  then have 4: "end_of (hd (profile s)) \<le> end_of (hd (profile s'))"
    using merges_hd_end[OF r(8) R(3,1)] by simp
  have 5: "held_ids (profile s') = held_ids (profile s) - {jid j}"
    by (simp add: merges_held[OF r(8)] release_all_held)
  have 6: "in_service s' = in_service s" "nb_machines s' = nb_machines s" "repair_machines s' = repair_machines s"
    using r(6) by (simp_all add: counters_less_def in_service_def)
  have 7: "ends_by f (profile s')" if "ends_by f (profile s)" for f
    by (rule merges_ends_by[OF r(8) release_all_ends_by[OF that]])
  have 8: "occupied (profile s') t i V \<longleftrightarrow> occupied (profile s) t i V \<and> i \<noteq> jid j" for t i V
    using r(5) by (simp add: drops_job_def)
  show thesis by (rule that[OF r(1-3) 1]) (fact 2 3 4 5 6 7 8 r(7))+
qed

lemma update_first_slice_room:
  assumes ok: "schedule_ok s" and t: "begin_of (hd (profile s)) \<le> now" "now \<le> end_of (hd (profile s))"
  obtains s' where "update_first_slice now s = Some s'" "schedule_ok s'" "begin_of (hd (profile s')) = now"
    "held_ids (profile s') = held_ids (profile s)" "\<And>f. ends_by f (profile s) \<Longrightarrow> ends_by f (profile s')"
    "in_service s' = in_service s" "nb_machines s' = nb_machines s" "repair_machines s' = repair_machines s"
    "allocated_jobs (hd (profile s')) = allocated_jobs (hd (profile s))"
    "\<And>k V x y. covers k V x y (profile s) \<Longrightarrow> covers k V x y (profile s')"
proof (rule update_first_slice_ok[OF ok t])
  fix s'
  assume r: "update_first_slice now s = Some s'" "schedule_ok s'" "begin_of (hd (profile s')) = now"
    "nb_machines s' = nb_machines s" "repair_machines s' = repair_machines s"
  obtain x P where xP: "profile s = x # P" using ok by (cases "profile s") (auto simp: schedule_ok_def)
  have P': "profile s' = x\<lparr>begin_of := now, length_of := end_of x - now\<rparr> # P"
    using r(1) xP unfolding update_first_slice_def Let_def assertion_def by (auto split: if_splits)
  have 1: "held_ids (profile s') = held_ids (profile s)" "allocated_jobs (hd (profile s')) = allocated_jobs (hd (profile s))"
    unfolding P' xP held_ids_def by (auto simp: slice_has_def)
  have 2: "ends_by f (profile s')" if "ends_by f (profile s)" for f
    using that unfolding P' xP ends_by_def by (auto simp: slice_has_def)
  have 3: "covers k V x y (profile s')" if "covers k V x y (profile s)" for k V x y
    using that t(1) unfolding P' xP covers_def by auto
  have 4: "in_service s' = in_service s" using r(4,5) by (simp add: in_service_def)
  show thesis by (rule that[OF r(1-3)]) (fact 1 2 3 4 r(4,5))+
qed

subsection \<open>Insertions succeed\<close>

text \<open>Machines free during a whole period are in the result of a window that lies in the period.\<close>

lemma window_room:
  "window w Q = Some (d, A) \<Longrightarrow> chain b Q e \<Longrightarrow> 0 < w \<Longrightarrow> b + w \<le> y \<Longrightarrow>
     \<forall>ts \<in> set Q. length_of ts = end_of ts - begin_of ts \<Longrightarrow>
     \<forall>ts \<in> set Q. begin_of ts < y \<longrightarrow> V \<subseteq> available_machines ts \<Longrightarrow> V \<subseteq> A"
proof (induction w Q arbitrary: b d A rule: window.induct)
  case (2 w ts rest)
  have hd: "V \<subseteq> available_machines ts" using "2.prems" by simp
  show ?case
  proof (cases "w \<le> length_of ts")
    case True
    then show ?thesis using hd "2.prems"(1) by simp
  next
    case False
    then obtain d' A' where A': "window (w - length_of ts) rest = Some (d', A')" "A = available_machines ts \<inter> A'"
      using "2.prems"(1) by (auto split: option.splits)
    have "V \<subseteq> A'"
      by (rule "2.IH"[OF False A'(1), of "end_of ts"]) (use "2.prems" False in auto)
    then show ?thesis using hd A'(2) by blast
  qed
qed simp

lemma idle_slice: "slice_ok M ts \<Longrightarrow> \<forall>i. \<not> slice_has i ts \<Longrightarrow> available_machines ts = M"
  unfolding slice_ok_def slice_has_def by (cases "allocated_jobs ts") (auto simp: jm_union_def split: prod.splits)

text \<open>After the last end all the machines in service are free.\<close>

lemma has_room_after:
  assumes ok: "schedule_ok s" and eb: "ends_by f (profile s)" "\<And>i. i \<in> held_ids (profile s) \<Longrightarrow> f i \<le> B"
  shows "has_room (in_service s) B e (profile s)"
  unfolding has_room_def
proof (intro ballI impI)
  fix ts
  assume ts: "ts \<in> set (profile s)" "B < end_of ts"
  have "\<forall>i. \<not> slice_has i ts"
  proof (intro allI notI)
    fix i
    assume "slice_has i ts"
    then have "end_of ts \<le> f i" "i \<in> held_ids (profile s)" using eb(1) ts(1) unfolding ends_by_def held_ids_def by blast+
    then show False using ts(2) eb(2) by fastforce
  qed
  then have "available_machines ts = in_service s"
    using idle_slice profile_okD(2)[OF _ ts(1)] ok unfolding schedule_ok_def by blast
  then show "in_service s \<subseteq> available_machines ts" by simp
qed

text \<open>The first slice that ends after a date, and what follows.\<close>

lemma slice_of_date:
  assumes ok: "schedule_ok s" and B: "begin_of (hd (profile s)) \<le> B" "B < horizon"
  obtains n where "n < length (profile s)" "begin_of (profile s ! n) \<le> B"
    "\<And>ts. ts \<in> set (drop n (profile s)) \<Longrightarrow> B < end_of ts"
proof -
  let ?P = "profile s"
  have P: "?P \<noteq> []" "chain (begin_of (hd ?P)) ?P horizon" using ok by (simp_all add: schedule_ok_def)
  define n where "n = find_if (\<lambda>ts. B < end_of ts) ?P"
  have n: "n < length ?P"
    using find_if_absent[of "\<lambda>ts. B < end_of ts" ?P] find_if_le[of "\<lambda>ts. B < end_of ts" ?P] last_in_set[OF P(1)]
      chain_last[OF P(2,1)] B(2) unfolding n_def by fastforce
  have at_n: "B < end_of (?P ! n)" and before: "\<And>m. m < n \<Longrightarrow> end_of (?P ! m) \<le> B"
    using find_if_spec[of "\<lambda>ts. B < end_of ts" ?P] n unfolding n_def by (auto simp: not_less)
  have ch: "chain (begin_of (?P ! n)) (drop n ?P) horizon" using schedule_ok_slices(4)[OF ok n] .
  have d: "drop n ?P = ?P ! n # drop (Suc n) ?P" using n by (simp add: Cons_nth_drop_Suc)
  show thesis
  proof (rule that[OF n])
    show "begin_of (?P ! n) \<le> B"
    proof (cases n)
      case 0
      then show ?thesis using B(1) P(1) by (simp add: hd_conv_nth)
    next
      case (Suc k)
      have "chain (begin_of (?P ! k)) (drop k ?P) horizon" using schedule_ok_slices(4)[OF ok] Suc n by simp
      moreover have "drop k ?P = ?P ! k # ?P ! n # drop (Suc n) ?P"
        using Suc n by (metis Cons_nth_drop_Suc Suc_lessD)
      ultimately show ?thesis using before[of k] Suc by simp
    qed
    fix ts
    assume "ts \<in> set (drop n ?P)"
    moreover have "chain (end_of (?P ! n)) (drop (Suc n) ?P) horizon" using ch d by simp
    ultimately show "B < end_of ts"
      using d at_n chain_bounds[of "end_of (?P ! n)" "drop (Suc n) ?P" horizon ts] by auto
  qed
qed

context greedy_selector
begin

text \<open>
  A job for which enough machines are free during a period of its walltime is inserted, at the
  latest at the beginning of the period.
\<close>

lemma add_job_by:
  assumes ok: "schedule_ok s" and ins: "insertable j s" "has_walltime j"
    and bound: "begin_of (hd (profile s)) \<le> B" "B + walltime j \<le> horizon"
    and room: "has_room V B (B + walltime j) (profile s)" "nb_requested_resources j \<le> int (card V)"
  obtains n alloc s' where "add_job_first_fit j fit b s = Some (j, alloc, s')"
    "schedule_ok s'" "int (card (used_machines alloc)) = nb_requested_resources j"
    "places (jid j) (used_machines alloc) n (alloc_begin alloc) (alloc_begin alloc + walltime j) (profile s) (profile s')"
    "started_in_first_slice alloc \<longleftrightarrow> n = 0" "alloc_begin alloc \<le> B" "begin_of (hd (profile s)) \<le> alloc_begin alloc"
    "n = 0 \<Longrightarrow> alloc_begin alloc = begin_of (hd (profile s))"
    "begin_of (hd (profile s')) = begin_of (hd (profile s))" "in_service s' = in_service s"
    "nb_machines s' = nb_machines s" "repair_machines s' = repair_machines s"
proof -
  let ?P = "profile s"
  have r: "0 \<le> nb_requested_resources j" "0 < walltime j" using ins by (simp_all add: insertable_def)
  have P: "?P \<noteq> []" "profile_ok (in_service s) ?P" using ok by (simp_all add: schedule_ok_def)
  have Bh: "B < horizon" using bound(2) r(2) by simp
  obtain n where n: "n < length ?P" "begin_of (?P ! n) \<le> B" "\<And>ts. ts \<in> set (drop n ?P) \<Longrightarrow> B < end_of ts"
    by (rule slice_of_date[OF ok bound(1) Bh]) (rule that)
  have ch: "chain (begin_of (?P ! n)) (drop n ?P) horizon" using schedule_ok_slices(4)[OF ok n(1)] .
  have le: "\<forall>ts \<in> set (drop n ?P). length_of ts = end_of ts - begin_of ts"
    using schedule_ok_slices(2)[OF ok] by (meson in_set_dropD)
  obtain d A where A: "window (walltime j) (drop n ?P) = Some (d, A)"
    using window_None[OF _ ch r(2) le] n(2) bound(2) by fastforce
  have "V \<subseteq> A"
  proof (rule window_room[OF A ch r(2) _ le])
    show "begin_of (?P ! n) + walltime j \<le> B + walltime j" using n(2) by simp
    show "\<forall>ts \<in> set (drop n ?P). begin_of ts < B + walltime j \<longrightarrow> V \<subseteq> available_machines ts"
      using room(1) n(3) unfolding has_room_def by (meson in_set_dropD)
  qed
  moreover have "finite A"
  proof -
    have "A \<subseteq> available_machines (?P ! n)"
      using window_subset A n(1) by (metis Cons_nth_drop_Suc)
    moreover have "slice_ok (in_service s) (?P ! n)" using profile_okD(2)[OF P(2)] n(1) by simp
    ultimately show ?thesis by (auto simp: slice_ok_def in_service_def intro: finite_subset)
  qed
  ultimately have "nb_requested_resources j \<le> int (card A)" "finite A"
    using room(2) card_mono[of A V] by simp_all
  then obtain U where "fit j A = Some (Some U)" using fit_iff[of A j] r(1) by auto
  then have anc: "anchor fit horizon j (drop n ?P) \<noteq> None" using A ins(2) by (simp add: anchor_def)
  show thesis
  proof (rule add_after_slice_cases[OF ok ins(1), of 0 b], goal_cases)
    case (1 n' d' U' s' j')
    note f = 1
    let ?al = "first_fit_alloc j n' (n' + d') U' (begin_of (?P ! n'))"
    have j': "j' = j" using f(3) ins(2) by simp
    have run: "add_job_first_fit j fit b s = Some (j, ?al, s')"
      using f(6) ins(1) contains_job_sched_iff[OF P(1)] unfolding j' by (simp add: add_job_first_fit_def insertable_def)
    have "n' \<le> n" using f(5) anc by (metis le0 not_le)
    then have le: "begin_of (?P ! n') \<le> B" using begins_sorted[OF ok _ n(1), of n'] n(2) by simp
    have al: "used_machines ?al = U'" "alloc_begin ?al = begin_of (?P ! n')"
      "started_in_first_slice ?al \<longleftrightarrow> n' = 0" by (simp_all add: first_fit_alloc_def)
    have b0: "begin_of (?P ! 0) = begin_of (hd ?P)" using P(1) by (simp add: hd_conv_nth)
    have c: "int (card (used_machines ?al)) = nb_requested_resources j" using f(8) unfolding al .
    have pl: "places (jid j) (used_machines ?al) n' (alloc_begin ?al) (alloc_begin ?al + walltime j) ?P (profile s')"
      using f(16) unfolding al j' .
    have bB: "alloc_begin ?al \<le> B" unfolding al by fact
    have lb: "begin_of (hd ?P) \<le> alloc_begin ?al"
      unfolding al using begins_sorted[OF ok _ f(2), of 0] b0 by simp
    have st: "alloc_begin ?al = begin_of (hd ?P)" if "n' = 0" using that unfolding al by (simp add: b0)
    have M: "in_service s' = in_service s" by (simp add: in_service_def f(10,11))
    show ?case by (rule that[OF run f(7) c pl al(3) bB lb st f(17) M f(10,11)])
  next
    case (2 w)
    then show ?case using 2(1)[rule_format, of n] anc n by simp
  qed
qed

end

end
