(* ===== verification/Waiting.thy ===== *)
theory Waiting
  imports Job_Queue Pool
begin

text \<open>
  What the schedulers that keep their waiting jobs in a \<^verbatim>\<open>Queue\<close> share: the loop over the released
  jobs, and lemmas on the queue when jobs leave it as they start.
\<close>

subsection \<open>Released jobs\<close>

text \<open>
  The block that handles a released job: too large or without walltime, it is rejected, otherwise
  it is queued, and its identifier collected in \<^verbatim>\<open>recently_queued_jobs\<close>.
\<close>

definition queue_released ::
  "workload \<Rightarrow> int \<Rightarrow> time \<Rightarrow> job_id \<Rightarrow> job_id list \<times> decisions \<times> queue \<Rightarrow> (job_id list \<times> decisions \<times> queue) run" where
  "queue_released w n date i = (\<lambda>(recent, d, q). do {
     new_job \<leftarrow> w i;
     if n < nb_requested_resources new_job \<or> \<not> has_walltime new_job then do {
       d1 \<leftarrow> add_reject_job i date d;
       Some (recent, d1, q) }
     else Some (recent @ [i], d, append_job new_job date q) })"

definition refused :: "workload \<Rightarrow> int \<Rightarrow> job_id \<Rightarrow> bool" where
  "refused w n i \<longleftrightarrow> (case w i of None \<Rightarrow> False | Some j \<Rightarrow> n < nb_requested_resources j \<or> \<not> has_walltime j)"

text \<open>The queue after the released jobs that are not refused have been appended.\<close>

fun enqueue :: "workload \<Rightarrow> int \<Rightarrow> time \<Rightarrow> job_id list \<Rightarrow> queue \<Rightarrow> queue" where
  "enqueue w n date [] q = q"
| "enqueue w n date (i # ids) q =
     enqueue w n date ids (case w i of None \<Rightarrow> q | Some j \<Rightarrow> if refused w n i then q else append_job j date q)"

text \<open>Pointers to jobs are compared.\<close>

definition same_job :: "job option \<Rightarrow> job option \<Rightarrow> bool" where
  "same_job a b \<longleftrightarrow> map_option jid a = map_option jid b"

subsection \<open>Lists of jobs\<close>

definition head_ids :: "job list \<Rightarrow> job_id set" where
  "head_ids js = (case js of [] \<Rightarrow> {} | j # _ \<Rightarrow> {jid j})"

definition head_of :: "job list \<Rightarrow> job option" where
  "head_of js = (case js of [] \<Rightarrow> None | j # _ \<Rightarrow> Some j)"

definition not_in :: "job_id set \<Rightarrow> job list \<Rightarrow> job list" where
  "not_in I js = filter (\<lambda>j. jid j \<notin> I) js"

definition asked_by :: "job list \<Rightarrow> (job_id \<times> machines) list \<Rightarrow> bool" where
  "asked_by js xs \<longleftrightarrow> (\<forall>(i, U) \<in> set xs. \<exists>j \<in> set js. jid j = i \<and> int (card U) = nb_requested_resources j)"

definition started_ids :: "event list \<Rightarrow> job_id set" where
  "started_ids es = fst ` set (executed es)"

lemma started_ids_simps [simp]:
  "started_ids [] = {}" "started_ids (es @ fs) = started_ids es \<union> started_ids fs"
  "started_ids (ExecuteJob i U m # es) = insert i (started_ids es)"
  by (auto simp: started_ids_def)

lemma not_in_simps [simp]:
  "not_in {} js = js" "not_in I [] = []" "not_in I (j # js) = (if jid j \<in> I then not_in I js else j # not_in I js)"
  "not_in I (js @ ks) = not_in I js @ not_in I ks" "set (not_in I js) = {j \<in> set js. jid j \<notin> I}"
  by (auto simp: not_in_def)

lemma not_in_not_in: "not_in I (not_in K js) = not_in (K \<union> I) js"
  by (auto simp: not_in_def intro: filter_cong)

lemma not_in_all: "I \<inter> jid ` set js = {} \<Longrightarrow> not_in I js = js"
  unfolding not_in_def by (rule filter_True) auto

lemma asked_ids: "asked_by js xs \<Longrightarrow> fst ` set xs \<subseteq> jid ` set js"
  unfolding asked_by_def by fastforce

lemma head_ids_of: "head_ids js = (case head_of js of None \<Rightarrow> {} | Some j \<Rightarrow> {jid j})"
  by (cases js) (simp_all add: head_ids_def head_of_def)

subsection \<open>The queue\<close>

text \<open>A queue of distinct jobs that satisfy \<open>R\<close>, and that can be sorted.\<close>

definition queue_fine :: "(job \<Rightarrow> bool) \<Rightarrow> queue \<Rightarrow> bool" where
  "queue_fine R q \<longleftrightarrow> distinct (map jid (queued q)) \<and> (\<forall>j \<in> set (queued q). R j) \<and>
     q_order q \<noteq> DescendingBoundedSlowdownOrder 0 \<and>
     (q_order q = OriginalFCFSOrder \<longrightarrow> (\<forall>sj \<in> set (q_jobs q). release_dates sj \<noteq> []))"

lemma queue_fine_removed:
  assumes "queue_fine R q" "queued q' = not_in I (queued q)" "q_order q' = q_order q" "set (q_jobs q') \<subseteq> set (q_jobs q)"
  shows "queue_fine R q'"
proof -
  have "distinct (map jid (queued q'))"
    using assms(1) unfolding assms(2) queue_fine_def not_in_def by (simp add: distinct_map_filter)
  moreover have "\<forall>j \<in> set (queued q'). R j" using assms(1,2) by (simp add: queue_fine_def)
  ultimately show ?thesis using assms(1,3,4) unfolding queue_fine_def by auto
qed

lemma queue_remove_ok:
  assumes ok: "queue_fine R q" and j: "j \<in> set (queued q)"
  obtains i q' where "queue_remove_job j q = Some (i, q')" "queued q' = not_in {jid j} (queued q)" "queue_fine R q'"
proof -
  have d: "distinct (map jid (queued q))" using ok by (simp add: queue_fine_def)
  have "contains_job j q" using j by (simp add: contains_job_iff)
  then obtain i q' where r: "queue_remove_job j q = Some (i, q')"
    using queue_remove_job_returns[of j q] by auto
  have q': "queued q' = not_in {jid j} (queued q)"
    using queue_remove_job_correct_facts(2)[OF d r] by (simp add: not_in_def)
  have "q_order q' = q_order q \<and> set (q_jobs q') \<subseteq> set (q_jobs q)"
    using r by (auto simp: queue_remove_job_def remove_job_at_def run_simps Let_def dest: in_set_takeD in_set_dropD)
  then show thesis using that[OF r q' queue_fine_removed[OF ok q']] by blast
qed

lemma remove_at_ok:
  assumes ok: "queue_fine R q" and i: "queued q = kept @ j # js" "i = length kept"
  obtains q' where "remove_job_at i q = Some (i, q')" "queued q' = kept @ js" "queue_fine R q'"
proof -
  have "length (queued q) = length (kept @ j # js)" unfolding i(1) ..
  then have l: "i < length (q_jobs q)" unfolding i(2) by (simp add: queued_def)
  define q' where "q' = q\<lparr>q_jobs := take i (q_jobs q) @ drop (Suc i) (q_jobs q)\<rparr>"
  have r: "remove_job_at i q = Some (i, q')" using l by (simp add: remove_job_at_def q'_def)
  have "queued q' = take i (queued q) @ drop (Suc i) (queued q)" by (simp add: q'_def queued_def take_map drop_map)
  then have q': "queued q' = kept @ js" using i by simp
  have d: "distinct (map jid (queued q))" using ok by (simp add: queue_fine_def)
  have "not_in {jid j} (queued q) = kept @ js"
    using d not_in_all[of "{jid j}" kept] not_in_all[of "{jid j}" js] unfolding i(1) by auto
  then have "queued q' = not_in {jid j} (queued q)" using q' by simp
  moreover have "q_order q' = q_order q" "set (q_jobs q') \<subseteq> set (q_jobs q)"
    by (auto simp: q'_def dest: in_set_takeD in_set_dropD)
  ultimately show thesis using that[OF r q'] queue_fine_removed[OF ok] by blast
qed

lemma update_all_ok:
  "ord \<noteq> DescendingBoundedSlowdownOrder 0 \<Longrightarrow>
     \<exists>sjs'. update_all ord d sjs = Some sjs' \<and> map release_dates sjs' = map release_dates sjs"
proof (induction sjs)
  case (Cons sj sjs)
  then obtain sjs' where s: "update_all ord d sjs = Some sjs'" "map release_dates sjs' = map release_dates sjs" by blast
  obtain sj' where "order_updateJob ord d sj = Some sj'" "release_dates sj' = release_dates sj"
    using Cons.prems by (cases ord) (auto simp: update_bounded_slowdown_def update_slowdown_def)
  then show ?case using s by simp
qed simp

lemma sort_queue_ok:
  assumes ok: "queue_fine R q"
  obtains q' where "sort_queue date q = Some q'" "queue_fine R q'" "mset (queued q') = mset (queued q)"
proof -
  obtain sjs where u: "update_all (q_order q) date (q_jobs q) = Some sjs" "map release_dates sjs = map release_dates (q_jobs q)"
    using update_all_ok ok unfolding queue_fine_def by metis
  have rd: "\<forall>sj \<in> set sjs. release_dates sj \<noteq> []" if "q_order q = OriginalFCFSOrder"
  proof -
    have "[] \<notin> set (map release_dates sjs)" unfolding u(2) using ok that by (auto simp: queue_fine_def)
    then show ?thesis by force
  qed
  then have r: "order_reads_ok (q_order q) sjs" by (simp add: order_reads_ok_def)
  define q' where "q' = q\<lparr>q_jobs := list_sort (order_compare (q_order q)) sjs\<rparr>"
  have s: "sort_queue date q = Some q'" using u(1) r by (simp add: sort_queue_def q'_def)
  have m: "mset (queued q') = mset (queued q)" using sort_queue_mset[OF s] .
  have "distinct (map jid (queued q'))" using ok m unfolding queue_fine_def by (metis mset_eq_imp_distinct_iff mset_map)
  moreover have "set (queued q') = set (queued q)" using m by (rule mset_eq_setD)
  ultimately have "queue_fine R q'" using ok rd by (simp add: queue_fine_def q'_def)
  then show thesis using that s m by blast
qed

lemma first_job_head: "first_job_or_nullptr q = Some (head_of (queued q))"
  by (cases "q_jobs q") (simp_all add: first_job_or_nullptr_def first_job_def queued_def head_of_def)

lemma enqueue_ok:
  assumes "queue_fine R q" "distinct ids" "set ids \<inter> jid ` set (queued q) = {}"
    and "\<forall>i \<in> set ids. \<exists>j. w i = Some j \<and> jid j = i \<and> (refused w n i \<or> R j \<and> submission_times j \<noteq> [])"
  shows "queue_fine R (enqueue w n date ids q) \<and>
    jid ` set (queued (enqueue w n date ids q)) \<subseteq> jid ` set (queued q) \<union> set ids \<and>
    set (queued q) \<subseteq> set (queued (enqueue w n date ids q))"
  using assms
proof (induction ids arbitrary: q)
  case (Cons i ids)
  obtain j where j: "w i = Some j" "jid j = i" "refused w n i \<or> R j \<and> submission_times j \<noteq> []"
    using Cons.prems(4) by auto
  have ids: "\<forall>i \<in> set ids. \<exists>j. w i = Some j \<and> jid j = i \<and> (refused w n i \<or> R j \<and> submission_times j \<noteq> [])"
    using Cons.prems(4) by simp
  show ?case
  proof (cases "refused w n i")
    case True
    then show ?thesis using Cons.IH[OF Cons.prems(1) _ _ ids] Cons.prems(2,3) j(1) by auto
  next
    case False
    let ?q = "append_job j date q"
    have qa: "queue_fine R ?q"
      using Cons.prems(1,3) j False unfolding queue_fine_def by (auto simp: append_job_def queued_def)
    have dis: "set ids \<inter> jid ` set (queued ?q) = {}" using Cons.prems(2,3) j(2) by auto
    have di: "distinct ids" using Cons.prems(2) by simp
    have IH: "queue_fine R (enqueue w n date ids ?q) \<and>
      jid ` set (queued (enqueue w n date ids ?q)) \<subseteq> jid ` set (queued ?q) \<union> set ids \<and>
      set (queued ?q) \<subseteq> set (queued (enqueue w n date ids ?q))"
      by (rule Cons.IH[OF qa di dis ids])
    have e: "enqueue w n date (i # ids) q = enqueue w n date ids ?q" using False j(1) by simp
    have q: "queued ?q = queued q @ [j]" by simp
    show ?thesis unfolding e using IH j(2) unfolding q by auto
  qed
qed simp

lemma released_ok:
  assumes "\<forall>i \<in> set ids. \<exists>j. w i = Some j" "last_date (writer d) \<le> date" "set recent \<subseteq> dom w"
  shows "\<exists>recent' d' es. fold_run (queue_released w n date) ids (recent, d, q) =
      Some (recent', d', enqueue w n date ids q) \<and>
      set recent' \<subseteq> dom w \<and> decided date es d d' \<and> executed es = [] \<and> rejected es = filter (refused w n) ids"
  using assms
proof (induction ids arbitrary: d q recent)
  case Nil
  then show ?case by (intro exI[of _ recent] exI[of _ d] exI[of _ "[]"]) simp
next
  case (Cons i ids)
  obtain j where j: "w i = Some j" using Cons.prems(1) by auto
  have ids: "\<forall>i \<in> set ids. \<exists>j. w i = Some j" using Cons.prems(1) by simp
  show ?case
  proof (cases "refused w n i")
    case True
    obtain d1 where d1: "add_reject_job i date d = Some d1" "decided date [RejectJob i] d d1"
      using decided_one[OF Cons.prems(2)] by (auto simp: decision_simps)
    have r: "queue_released w n date i (recent, d, q) = Some (recent, d1, q)"
      using True j d1(1) by (simp add: queue_released_def refused_def)
    obtain recent' d' es where IH: "fold_run (queue_released w n date) ids (recent, d1, q) =
      Some (recent', d', enqueue w n date ids q)"
      "set recent' \<subseteq> dom w" "decided date es d1 d'" "executed es = []" "rejected es = filter (refused w n) ids"
      using Cons.IH[OF ids decided_last_date[OF d1(2) Cons.prems(2)] Cons.prems(3)] by blast
    have "decided date ([RejectJob i] @ es) d d'" by (rule decided_trans[OF d1(2) IH(3)])
    then show ?thesis using r IH True j
      by (intro exI[of _ recent'] exI[of _ d'] exI[of _ "[RejectJob i] @ es"]) simp
  next
    case False
    have r: "queue_released w n date i (recent, d, q) = Some (recent @ [i], d, append_job j date q)"
      using False j by (simp add: queue_released_def refused_def)
    have rec: "set (recent @ [i]) \<subseteq> dom w" using Cons.prems(3) j by auto
    obtain recent' d' es where IH: "fold_run (queue_released w n date) ids (recent @ [i], d, append_job j date q) =
      Some (recent', d', enqueue w n date ids (append_job j date q))"
      "set recent' \<subseteq> dom w" "decided date es d d'" "executed es = []" "rejected es = filter (refused w n) ids"
      using Cons.IH[OF ids Cons.prems(2) rec] by blast
    then show ?thesis using r False j
      by (intro exI[of _ recent'] exI[of _ d'] exI[of _ es]) simp
  qed
qed

end
