(* ===== verification/Easy_Bf.thy ===== *)
theory Easy_Bf
  imports Schedule_Room Schedule_Ops Waiting Json
begin

text \<open>
  EASY backfilling on a schedule (\<^verbatim>\<open>algo/easy_bf.cpp\<close>, \<^verbatim>\<open>easy_bf.hpp\<close>).  The first job of the
  queue, the priority job, is always in the schedule, at the first place where it fits; any other
  waiting job is tried in turn, and taken out again unless it starts at once.  The machines of the
  running jobs are those of the first slice of the schedule, so that one call of the scheduler
  refines the pool of \<open>Pool\<close>; and no job that is tried delays the priority job.

  Jobs are compared by their identifiers, as the code compares pointers into the workload.  The
  date of \<^verbatim>\<open>update_info\<close> is the date of the call.
\<close>

subsection \<open>Notifications\<close>

text \<open>
  \<^verbatim>\<open>std::to_string(double)\<close>: six digits after the point, rounded to the nearest, a tie to the
  even one.
\<close>

definition round_half_even :: "rat \<Rightarrow> int" where
  "round_half_even x =
     (let f = floor x; r = x - of_int f in
      if r < 1 / 2 then f else if 1 / 2 < r then f + 1 else if even f then f else f + 1)"

definition pad6 :: "string \<Rightarrow> string" where
  "pad6 ds = replicate (6 - length ds) (CHR ''0'') @ ds"

definition show_double :: "rat \<Rightarrow> string" where
  "show_double x =
     (let n = nat (round_half_even (\<bar>x\<bar> * 1000000)) in
      (if x < 0 then ''-'' else []) @ show_nat (n div 1000000) @ ''.'' @ pad6 (show_nat (n mod 1000000)))"

subsection \<open>State and operations\<close>

record easy_bf =
  be_nb_machines :: int
  be_schedule :: schedule
  be_queue :: queue
  be_decisions :: decisions

definition easy_bf_on_simulation_start :: "int \<Rightarrow> time \<Rightarrow> easy_bf \<Rightarrow> easy_bf run" where
  "easy_bf_on_simulation_start pid date s = do {
     d \<leftarrow> add_generic_notification ''PID'' (show_int pid) date (be_decisions s);
     fresh \<leftarrow> new_schedule (be_nb_machines s) date;
     Some (s\<lparr>be_decisions := d, be_schedule := assign_schedule (be_schedule s) fresh\<rparr>) }"

text \<open>
  The calls that start a job: \<open>add_job_first_fit\<close> has placed it, the decision is recorded.
\<close>

definition try_job :: "selector \<Rightarrow> job \<Rightarrow> easy_bf \<Rightarrow> (job_alloc \<times> easy_bf) run" where
  "try_job fit j s = do {
     (j', alloc, sch) \<leftarrow> add_job_first_fit j fit True (be_schedule s);
     Some (alloc, s\<lparr>be_schedule := sch\<rparr>) }"

definition execute_job :: "time \<Rightarrow> job \<Rightarrow> job_alloc \<Rightarrow> easy_bf \<Rightarrow> easy_bf run" where
  "execute_job date j alloc s = do {
     d \<leftarrow> add_execute_job (jid j) (used_machines alloc) date [] (be_decisions s);
     Some (s\<lparr>be_decisions := d\<rparr>) }"

definition dequeue :: "job \<Rightarrow> easy_bf \<Rightarrow> easy_bf run" where
  "dequeue j s = do {
     (i, q) \<leftarrow> queue_remove_job j (be_queue s);
     Some (s\<lparr>be_queue := q\<rparr>) }"

definition dequeue_at :: "nat \<Rightarrow> easy_bf \<Rightarrow> easy_bf run" where
  "dequeue_at i s = do {
     (i', q) \<leftarrow> remove_job_at i (be_queue s);
     Some (s\<lparr>be_queue := q\<rparr>) }"

definition unschedule :: "job \<Rightarrow> easy_bf \<Rightarrow> easy_bf run" where
  "unschedule j s = do {
     sch \<leftarrow> remove_job j (be_schedule s);
     Some (s\<lparr>be_schedule := sch\<rparr>) }"

lemma try_job_queue: "try_job fit j s = Some (alloc, s1) \<Longrightarrow> be_queue s1 = be_queue s"
  by (auto simp: try_job_def run_simps)

lemma execute_job_queue: "execute_job date j alloc s = Some s1 \<Longrightarrow> be_queue s1 = be_queue s"
  by (auto simp: execute_job_def run_simps)

lemma dequeue_shorter: "dequeue j s = Some s1 \<Longrightarrow> length (q_jobs (be_queue s1)) < length (q_jobs (be_queue s))"
  by (auto simp: dequeue_def queue_remove_job_def remove_job_at_def run_simps Let_def)

text \<open>The loop that starts priority jobs, until one cannot start or the queue is empty.\<close>

function start_priority :: "selector \<Rightarrow> time \<Rightarrow> job option \<Rightarrow> easy_bf \<Rightarrow> (job option \<times> easy_bf) run" where
  "start_priority fit date None s = Some (None, s)"
| "start_priority fit date (Some j) s = do {
     (alloc, s1) \<leftarrow> try_job fit j s;
     if started_in_first_slice alloc then do {
       s2 \<leftarrow> execute_job date j alloc s1;
       s3 \<leftarrow> dequeue j s2;
       after \<leftarrow> first_job_or_nullptr (be_queue s3);
       start_priority fit date after s3 }
     else Some (Some j, s1) }"
  by pat_completeness auto

termination
  by (relation "measure (\<lambda>(fit, date, after, s). length (q_jobs (be_queue s)))")
    (auto dest!: try_job_queue execute_job_queue dequeue_shorter)

definition sort_queue_while_handling_priority_job ::
  "selector \<Rightarrow> time \<Rightarrow> job option \<Rightarrow> easy_bf \<Rightarrow> (job option \<times> easy_bf) run" where
  "sort_queue_while_handling_priority_job fit date before s = do {
     q \<leftarrow> sort_queue date (be_queue s);
     let s1 = s\<lparr>be_queue := q\<rparr>;
     after \<leftarrow> first_job_or_nullptr (be_queue s1);
     if \<not> same_job after before then do {
       s2 \<leftarrow> (case before of
                None \<Rightarrow> Some s1
              | Some j \<Rightarrow> do {
                  (found, sch) \<leftarrow> remove_job_if_exists j (be_schedule s1);
                  Some (s1\<lparr>be_schedule := sch\<rparr>) });
       start_priority fit date after s2 }
     else Some (after, s1) }"

definition be_job_ended :: "workload \<Rightarrow> job_id \<Rightarrow> easy_bf \<Rightarrow> easy_bf run" where
  "be_job_ended w i s = do {
     j \<leftarrow> w i;
     unschedule j s }"

text \<open>No machine was released: only the jobs just queued are tried.\<close>

fun backfill_recent :: "selector \<Rightarrow> workload \<Rightarrow> time \<Rightarrow> job option \<Rightarrow> job_id list \<Rightarrow> int \<Rightarrow> easy_bf \<Rightarrow> easy_bf run" where
  "backfill_recent fit w date after [] nb_available s = Some s"
| "backfill_recent fit w date after (i # ids) nb_available s =
     (if 0 < nb_available then do {
        new_job \<leftarrow> w i;
        if contains_job new_job (be_queue s) \<and> \<not> same_job (Some new_job) after \<and>
             nb_requested_resources new_job \<le> nb_available then do {
          (alloc, s1) \<leftarrow> try_job fit new_job s;
          if started_in_first_slice alloc then do {
            s2 \<leftarrow> execute_job date new_job alloc s1;
            s3 \<leftarrow> dequeue new_job s2;
            backfill_recent fit w date after ids (nb_available - nb_requested_resources new_job) s3 }
          else do {
            s2 \<leftarrow> unschedule new_job s1;
            backfill_recent fit w date after ids nb_available s2 } }
        else backfill_recent fit w date after ids nb_available s }
      else Some s)"

text \<open>
  The traversal of the queue after machines were released; \<open>i\<close> is the position of the iterator and
  the list argument what follows it.  Its guard on the number of free machines is not updated
  in the loop, so that it is tested once, before the loop.
\<close>

fun traverse :: "selector \<Rightarrow> time \<Rightarrow> job option \<Rightarrow> nat \<Rightarrow> job list \<Rightarrow> easy_bf \<Rightarrow> easy_bf run" where
  "traverse fit date after i [] s = Some s"
| "traverse fit date after i (j # js) s = do {
     present \<leftarrow> contains_job_sched j (be_schedule s);
     s1 \<leftarrow> (if present then unschedule j s else Some s);
     (alloc, s2) \<leftarrow> try_job fit j s1;
     if same_job (Some j) after then
       (if started_in_first_slice alloc then do {
          s3 \<leftarrow> execute_job date j alloc s2;
          s4 \<leftarrow> dequeue_at i s3;
          after' \<leftarrow> first_job_or_nullptr (be_queue s4);
          traverse fit date after' i js s4 }
        else traverse fit date after (Suc i) js s2)
     else
       (if started_in_first_slice alloc then do {
          s3 \<leftarrow> execute_job date j alloc s2;
          s4 \<leftarrow> dequeue_at i s3;
          traverse fit date after i js s4 }
        else do {
          s3 \<leftarrow> unschedule j s2;
          traverse fit date after (Suc i) js s3 }) }"

definition easy_bf_notify :: "time \<Rightarrow> easy_bf \<Rightarrow> easy_bf run" where
  "easy_bf_notify date s = do {
     let sch = be_schedule s;
     d1 \<leftarrow> add_generic_notification ''queue_size'' (show_int (nb_jobs (be_queue s))) date (be_decisions s);
     d2 \<leftarrow> add_generic_notification ''schedule_size'' (show_int (sched_size sch)) date d1;
     d3 \<leftarrow> add_generic_notification ''number_running_jobs'' (show_int (get_number_of_running_jobs sch)) date d2;
     d4 \<leftarrow> add_generic_notification ''utilization'' (show_double (get_utilization sch)) date d3;
     d5 \<leftarrow> add_generic_notification ''utilization_no_resv'' (show_double (get_utilization_no_resv sch)) date d4;
     Some (s\<lparr>be_decisions := d5\<rparr>) }"

definition nb_free_now :: "easy_bf \<Rightarrow> int" where
  "nb_free_now s = int (card (available_machines (hd (profile (be_schedule s)))))"

definition easy_bf_make_decisions ::
  "selector \<Rightarrow> workload \<Rightarrow> job_id list \<Rightarrow> job_id list \<Rightarrow> time \<Rightarrow> easy_bf \<Rightarrow> easy_bf run" where
  "easy_bf_make_decisions fit w ended submitted date s = do {
     before \<leftarrow> first_job_or_nullptr (be_queue s);
     s1 \<leftarrow> fold_run (be_job_ended w) ended s;
     (recent, d, q) \<leftarrow> fold_run (queue_released w (be_nb_machines s1) date) submitted ([], be_decisions s1, be_queue s1);
     sch \<leftarrow> update_first_slice date (be_schedule s1);
     let s3 = s1\<lparr>be_decisions := d, be_queue := q, be_schedule := sch\<rparr>;
     (after, s4) \<leftarrow> sort_queue_while_handling_priority_job fit date before s3;
     s5 \<leftarrow> (if ended = [] then backfill_recent fit w date after recent (nb_free_now s4) s4
           else if 0 < nb_free_now s4 then traverse fit date after 0 (queued (be_queue s4)) s4
           else Some s4);
     easy_bf_notify date s5 }"

end
