(* ===== verification/Easy_Bf_Correct.thy ===== *)
theory Easy_Bf_Correct
  imports Easy_Bf
begin

text \<open>
  Correctness of EASY backfilling on a schedule: a call never aborts, keeps the invariant, starts
  jobs on exactly as many free machines as they ask for, and never postpones the job at the head
  of the queue.  The bound \<open>W\<close> on the walltimes says how far before the horizon of the schedule
  the insertions stay.
\<close>

subsection \<open>The schedule\<close>

text \<open>The machines each running job holds: the jobs of the first slice.\<close>

definition holds :: "schedule \<Rightarrow> allocations" where
  "holds S = (\<lambda>i. jm_get i (allocated_jobs (hd (profile S))))"

text \<open>
  At \<open>date\<close>, the schedule has the running jobs, which end within \<open>W\<close>, and the planned jobs, which
  end within \<open>2 * W\<close>.
\<close>

definition core :: "time \<Rightarrow> time \<Rightarrow> job_id set \<Rightarrow> schedule \<Rightarrow> bool" where
  "core W date plan S \<longleftrightarrow> schedule_ok S \<and> repair_machines S = {} \<and> begin_of (hd (profile S)) = date \<and>
     held_ids (profile S) = dom (holds S) \<union> plan \<and> plan \<inter> dom (holds S) = {} \<and>
     ends_by (\<lambda>i. date + (if i \<in> plan then 2 * W else W)) (profile S)"

definition keeps_covers :: "job_id set \<Rightarrow> schedule \<Rightarrow> schedule \<Rightarrow> bool" where
  "keeps_covers K S S' \<longleftrightarrow> (\<forall>k \<in> K. \<forall>V x y. x < y \<longrightarrow> covers k V x y (profile S) \<longrightarrow> covers k V x y (profile S'))"

lemma keeps_covers_refl [simp]: "keeps_covers K S S"
  by (simp add: keeps_covers_def)

lemma keeps_covers_trans: "keeps_covers K S S1 \<Longrightarrow> keeps_covers K S1 S2 \<Longrightarrow> keeps_covers K S S2"
  by (simp add: keeps_covers_def)

lemma keeps_covers_mono: "keeps_covers K S S' \<Longrightarrow> K' \<subseteq> K \<Longrightarrow> keeps_covers K' S S'"
  unfolding keeps_covers_def by blast

lemma core_pool:
  assumes "core W date plan S"
  shows "pool_ok (nb_machines S) (available_machines (hd (profile S))) (holds S)"
proof -
  let ?ts = "hd (profile S)"
  have "in_service S = {0..<nat (nb_machines S)}" using assms by (simp add: core_def in_service_def)
  moreover have "?ts \<in> set (profile S)" "profile_ok (in_service S) (profile S)"
    using assms by (simp_all add: core_def schedule_ok_def)
  ultimately have sl: "slice_ok {0..<nat (nb_machines S)} ?ts" using profile_okD(2) by metis
  then have jm: "jm_ok (allocated_jobs ?ts)" "jm_disjoint (allocated_jobs ?ts)"
    "jm_union (allocated_jobs ?ts) \<subseteq> {0..<nat (nb_machines S)}"
    "available_machines ?ts = {0..<nat (nb_machines S)} - jm_union (allocated_jobs ?ts)"
    by (simp_all add: slice_ok_def)
  note mem = jm_union_mem[OF jm(1)]
  show ?thesis
  proof (rule pool_okI)
    fix m
    show "m < nat (nb_machines S) \<longleftrightarrow> m \<in> available_machines ?ts \<or> (\<exists>k A. holds S k = Some A \<and> m \<in> A)"
      using jm(3,4) mem[of m] unfolding holds_def by auto
  next
    fix k A m
    assume "holds S k = Some A" "m \<in> A"
    then show "m \<notin> available_machines ?ts" using jm(4) mem[of m] unfolding holds_def by auto
  next
    fix k l A B m
    assume "holds S k = Some A" "holds S l = Some B" "m \<in> A" "m \<in> B"
    then show "k = l" using jm_disjoint_get[OF jm(2), of k A l B] unfolding holds_def by auto
  qed
qed

lemma core_remove:
  assumes c: "core W date plan S" and j: "jid j \<in> dom (holds S) \<union> plan"
  obtains S' where "remove_job j S = Some S'" "remove_job_if_exists j S = Some (True, S')"
    "core W date (plan - {jid j}) S'" "holds S' = (holds S)(jid j := None)" "nb_machines S' = nb_machines S"
    "keeps_covers (- {jid j}) S S'" "end_of (hd (profile S)) \<le> end_of (hd (profile S'))"
    "\<And>V x y. x < y \<Longrightarrow> covers (jid j) V x y (profile S) \<Longrightarrow> has_room V x y (profile S')"
proof -
  have C: "schedule_ok S" "repair_machines S = {}" "begin_of (hd (profile S)) = date"
    "held_ids (profile S) = dom (holds S) \<union> plan" "plan \<inter> dom (holds S) = {}"
    "ends_by (\<lambda>i. date + (if i \<in> plan then 2 * W else W)) (profile S)"
    using c unfolding core_def by blast+
  have jh: "jid j \<in> held_ids (profile S)" using j C(4) by simp
  show thesis
  proof (rule remove_job_room[OF C(1) jh], goal_cases)
    case (1 S')
    note r = 1
    have h: "holds S' = (holds S)(jid j := None)" unfolding holds_def using r(4) by auto
    have d: "dom (holds S') = dom (holds S) - {jid j}" unfolding h by simp
    have "ends_by (\<lambda>i. date + (if i \<in> plan - {jid j} then 2 * W else W)) (profile S')"
      by (rule ends_by_mono[OF r(8)[OF C(6)]]) (use r(7) in simp)
    then have "core W date (plan - {jid j}) S'"
      unfolding core_def using r(3,7,9,13) C(2-5) d by auto
    moreover have "keeps_covers (- {jid j}) S S'" using r(5) by (simp add: keeps_covers_def)
    ultimately show ?case using that[OF r(1,2) _ h r(12) _ r(10)] r(6) by blast
  qed
qed

lemma core_advance:
  assumes c: "core W d plan S" and W: "0 \<le> W" and t: "d \<le> date" "date \<le> end_of (hd (profile S))"
  obtains S' where "update_first_slice date S = Some S'" "core W date plan S'" "holds S' = holds S"
    "nb_machines S' = nb_machines S" "keeps_covers UNIV S S'"
proof -
  have C: "schedule_ok S" "repair_machines S = {}" "begin_of (hd (profile S)) = d"
    "held_ids (profile S) = dom (holds S) \<union> plan" "plan \<inter> dom (holds S) = {}"
    "ends_by (\<lambda>i. d + (if i \<in> plan then 2 * W else W)) (profile S)"
    using c unfolding core_def by blast+
  show thesis
  proof (rule update_first_slice_room[OF C(1), of date], goal_cases)
    case (3 S')
    note r = 3
    have h: "holds S' = holds S" unfolding holds_def r(9) ..
    have "ends_by (\<lambda>i. date + (if i \<in> plan then 2 * W else W)) (profile S')"
      by (rule ends_by_mono[OF r(5)[OF C(6)]]) (use t(1) in simp)
    then have "core W date plan S'" unfolding core_def h using r C by simp
    then show ?case using that[OF r(1) _ h r(7)] r(10) by (simp add: keeps_covers_def)
  qed (use C t in simp_all)
qed

text \<open>What is known of a waiting job.\<close>

definition waiting_ok :: "workload \<Rightarrow> time \<Rightarrow> int \<Rightarrow> job \<Rightarrow> bool" where
  "waiting_ok w W n j \<longleftrightarrow> w (jid j) = Some j \<and> 0 \<le> nb_requested_resources j \<and> nb_requested_resources j \<le> n \<and>
     good_id (jid j) \<and> has_walltime j \<and> 0 < walltime j \<and> walltime j \<le> W"

abbreviation queue_ok :: "workload \<Rightarrow> time \<Rightarrow> int \<Rightarrow> queue \<Rightarrow> bool" where
  "queue_ok w W n \<equiv> queue_fine (waiting_ok w W n)"

text \<open>The job is promised to start by \<open>b\<close>.\<close>

definition promised :: "job \<Rightarrow> time \<Rightarrow> schedule \<Rightarrow> bool" where
  "promised j b S \<longleftrightarrow> begin_of (hd (profile S)) \<le> b \<and> b + walltime j \<le> horizon \<and>
     (\<exists>V. int (card V) = nb_requested_resources j \<and> covers (jid j) V b (b + walltime j) (profile S))"

text \<open>A try of a job: it starts now, or it is planned; then it can be taken back.\<close>

context greedy_selector
begin

lemma core_try:
  assumes c: "core W date plan S" and j: "waiting_ok w W (nb_machines S) j" "jid j \<notin> held_ids (profile S)"
    and h: "date + 3 * W \<le> horizon"
  obtains alloc S' where "add_job_first_fit j fit True S = Some (j, alloc, S')"
    "int (card (used_machines alloc)) = nb_requested_resources j" "nb_machines S' = nb_machines S"
    "keeps_covers (- {jid j}) S S'"
    "started_in_first_slice alloc \<Longrightarrow> core W date plan S' \<and> holds S' = (holds S)(jid j \<mapsto> used_machines alloc)"
    "\<not> started_in_first_slice alloc \<Longrightarrow> plan = {} \<Longrightarrow>
       core W date {jid j} S' \<and> holds S' = holds S \<and> promised j (alloc_begin alloc) S'"
    "\<not> started_in_first_slice alloc \<Longrightarrow>
       \<exists>S''. remove_job j S' = Some S'' \<and> core W date plan S'' \<and> holds S'' = holds S \<and>
         nb_machines S'' = nb_machines S \<and> keeps_covers (- {jid j}) S S''"
    "\<And>V b. has_room V b (b + walltime j) (profile S) \<Longrightarrow> int (card V) = nb_requested_resources j \<Longrightarrow>
       date \<le> b \<Longrightarrow> b + walltime j \<le> horizon \<Longrightarrow> alloc_begin alloc \<le> b"
proof -
  have C: "schedule_ok S" "repair_machines S = {}" "begin_of (hd (profile S)) = date"
    "held_ids (profile S) = dom (holds S) \<union> plan" "plan \<inter> dom (holds S) = {}"
    "ends_by (\<lambda>i. date + (if i \<in> plan then 2 * W else W)) (profile S)"
    using c unfolding core_def by blast+
  have J: "0 \<le> nb_requested_resources j" "nb_requested_resources j \<le> nb_machines S" "good_id (jid j)"
    "has_walltime j" "0 < walltime j" "walltime j \<le> W"
    using j(1) by (simp_all add: waiting_ok_def)
  have ins: "insertable j S" using J j(2) by (simp add: insertable_def absent_held)
  define B where "B = date + (if plan = {} then W else 2 * W)"
  have room: "has_room (in_service S) B (B + walltime j) (profile S)"
    by (rule has_room_after[OF C(1,6)]) (use J in \<open>auto simp: B_def\<close>)
  have card: "nb_requested_resources j \<le> int (card (in_service S))" using J(1,2) C(2) by (simp add: in_service_def)
  have bound: "begin_of (hd (profile S)) \<le> B" "B + walltime j \<le> horizon"
    using J(5,6) h C(3) by (simp_all add: B_def)
  obtain n alloc S' where a: "add_job_first_fit j fit True S = Some (j, alloc, S')"
    "schedule_ok S'" "int (card (used_machines alloc)) = nb_requested_resources j"
    "places (jid j) (used_machines alloc) n (alloc_begin alloc) (alloc_begin alloc + walltime j) (profile S) (profile S')"
    "started_in_first_slice alloc \<longleftrightarrow> n = 0" "alloc_begin alloc \<le> B" "begin_of (hd (profile S)) \<le> alloc_begin alloc"
    "n = 0 \<Longrightarrow> alloc_begin alloc = begin_of (hd (profile S))"
    "begin_of (hd (profile S')) = begin_of (hd (profile S))" "in_service S' = in_service S"
    "nb_machines S' = nb_machines S" "repair_machines S' = repair_machines S"
    by (rule add_job_by[OF C(1) ins J(4) bound room card, where b = True]) (rule that)
  have held: "held_ids (profile S') = insert (jid j) (held_ids (profile S))" using a(4) by (simp add: places_def)
  have hS: "holds S' = (if n = 0 then (holds S)(jid j \<mapsto> used_machines alloc) else holds S)"
  proof
    fix k
    have jd: "jid j \<notin> dom (holds S)" using j(2) C(4) by simp
    then show "holds S' k = (if n = 0 then (holds S)(jid j \<mapsto> used_machines alloc) else holds S) k"
      using a(4) unfolding places_def holds_def by (cases "k = jid j") (auto simp: domIff)
  qed
  have keep: "keeps_covers (- {jid j}) S S'"
    using places_covers[OF a(4)] by (simp add: keeps_covers_def)
  have cov: "covers (jid j) (used_machines alloc) (alloc_begin alloc) (alloc_begin alloc + walltime j) (profile S')"
    using a(4) by (simp add: places_def)
  have jplan: "jid j \<notin> plan" "jid j \<notin> dom (holds S)" using j(2) C(4) by simp_all
  show thesis
  proof (rule that[OF a(1,3,11) keep], goal_cases)
    case 1
    then have n: "n = 0" "alloc_begin alloc = date" using a(5,8) C(3) by simp_all
    have "ends_by (\<lambda>i. date + (if i \<in> plan then 2 * W else W)) (profile S')"
      by (rule places_ends_by[OF a(4) C(6)]) (use n jplan J(6) in simp)
    then show ?case unfolding core_def using a(2,9,12) C(2-5) hS held n jplan by auto
  next
    case 2
    then have n: "n \<noteq> 0" using a(5) by simp
    have e0: "ends_by (\<lambda>i. date + (if i \<in> {jid j} then 2 * W else W)) (profile S)"
      by (rule ends_by_mono[OF C(6)]) (use 2 j(2) in auto)
    have "ends_by (\<lambda>i. date + (if i \<in> {jid j} then 2 * W else W)) (profile S')"
      by (rule places_ends_by[OF a(4) e0]) (use a(6) 2 J(6) in \<open>simp add: B_def\<close>)
    moreover have "promised j (alloc_begin alloc) S'"
      unfolding promised_def using a(3,6,7,9) bound(2) cov by auto
    ultimately show ?case unfolding core_def using a(2,9,12) C(2-5) hS held n jplan 2 by auto
  next
    case 3
    then have n: "n \<noteq> 0" using a(5) by simp
    have jh: "jid j \<in> held_ids (profile S')" using held by simp
    show ?case
    proof (rule remove_job_room[OF a(2) jh], goal_cases)
      case (1 S'')
      note r = 1
      have h'': "holds S'' = holds S"
      proof
        fix k
        show "holds S'' k = holds S k"
          using r(4)[of k] hS n jplan(2) unfolding holds_def by (auto simp: domIff fun_eq_iff)
      qed
      define g where "g i = (if i = jid j then alloc_begin alloc + walltime j else date + (if i \<in> plan then 2 * W else W))" for i
      have g0: "ends_by g (profile S)" by (rule ends_by_mono[OF C(6)]) (use j(2) in \<open>auto simp: g_def\<close>)
      have "ends_by g (profile S')"
        by (rule places_ends_by[OF a(4) g0]) (simp add: g_def)
      then have g2: "ends_by g (profile S'')" by (rule r(8))
      have held'': "held_ids (profile S'') = held_ids (profile S)" using r(7) held j(2) by simp
      have "ends_by (\<lambda>i. date + (if i \<in> plan then 2 * W else W)) (profile S'')"
        by (rule ends_by_mono[OF g2]) (use held'' j(2) in \<open>auto simp: g_def\<close>)
      then have "core W date plan S''" unfolding core_def h'' held'' using r(3,9,13) a(9,12) C(2-5) by simp
      moreover have "keeps_covers (- {jid j}) S S''"
        by (rule keeps_covers_trans[OF keep]) (use r(5) in \<open>simp add: keeps_covers_def\<close>)
      ultimately show ?case using r(1,12) a(11) h'' by simp
    qed
  next
    case (4 V b)
    have "nb_requested_resources j \<le> int (card V)" using 4(2) by simp
    moreover have "begin_of (hd (profile S)) \<le> b" using 4(3) C(3) by simp
    ultimately show ?case
      using add_job_by[OF C(1) ins J(4) _ 4(4) 4(1), where b = True] a(1) by fastforce
  qed
qed

end

subsection \<open>The scheduler\<close>

text \<open>The invariant between two calls is \<open>easy_bf_ok\<close>; within a call the planned job may vary.\<close>

definition easy_state :: "workload \<Rightarrow> time \<Rightarrow> job_id set \<Rightarrow> time \<Rightarrow> easy_bf \<Rightarrow> bool" where
  "easy_state w W plan date s \<longleftrightarrow> core W date plan (be_schedule s) \<and>
     nb_machines (be_schedule s) = be_nb_machines s \<and> queue_ok w W (be_nb_machines s) (be_queue s) \<and>
     jid ` set (queued (be_queue s)) \<inter> dom (holds (be_schedule s)) = {}"

definition easy_bf_ok :: "workload \<Rightarrow> time \<Rightarrow> easy_bf \<Rightarrow> bool" where
  "easy_bf_ok w W s \<longleftrightarrow> 0 \<le> W \<and>
     easy_state w W (head_ids (queued (be_queue s))) (begin_of (hd (profile (be_schedule s)))) s"

text \<open>A part of a call that only starts jobs, those of the events \<open>es\<close>, and leaves \<open>plan\<close> planned.\<close>

definition starts :: "workload \<Rightarrow> time \<Rightarrow> job_id set \<Rightarrow> job_id set \<Rightarrow> time \<Rightarrow> event list \<Rightarrow> easy_bf \<Rightarrow> easy_bf \<Rightarrow> bool" where
  "starts w W K plan date es s s' \<longleftrightarrow>
     easy_state w W plan date s' \<and> be_nb_machines s' = be_nb_machines s \<and>
     decided date es (be_decisions s) (be_decisions s') \<and> rejected es = [] \<and>
     distinct (map fst (executed es)) \<and> asked_by (queued (be_queue s)) (executed es) \<and>
     holds (be_schedule s') = grant (executed es) (holds (be_schedule s)) \<and>
     queued (be_queue s') = not_in (started_ids es) (queued (be_queue s)) \<and>
     keeps_covers K (be_schedule s) (be_schedule s')"

lemma starts_refl: "easy_state w W plan date s \<Longrightarrow> starts w W K plan date [] s s"
  by (simp add: starts_def asked_by_def)

lemma starts_mono: "starts w W K plan date es s s' \<Longrightarrow> K' \<subseteq> K \<Longrightarrow> starts w W K' plan date es s s'"
  unfolding starts_def using keeps_covers_mono by blast

lemma starts_trans:
  assumes "starts w W K plan1 date es s s1" "starts w W K plan date fs s1 s'"
  shows "starts w W K plan date (es @ fs) s s'"
proof -
  note a = assms(1)[unfolded starts_def] and b = assms(2)[unfolded starts_def]
  have q1: "queued (be_queue s1) = not_in (started_ids es) (queued (be_queue s))" using a by blast
  have ab: "asked_by (queued (be_queue s1)) (executed fs)" using b by blast
  have "fst ` set (executed fs) \<inter> fst ` set (executed es) = {}"
  proof -
    have "jid ` {j \<in> set (queued (be_queue s)). jid j \<notin> started_ids es} \<inter> started_ids es = {}" by auto
    then show ?thesis using asked_ids[OF ab] unfolding q1 not_in_simps started_ids_def by fast
  qed
  then have d: "distinct (map fst (executed (es @ fs)))" using a b by auto
  have as: "asked_by (queued (be_queue s)) (executed (es @ fs))"
    using a ab unfolding asked_by_def q1 by fastforce
  have "decided date (es @ fs) (be_decisions s) (be_decisions s')"
    using decided_trans a b by blast
  moreover have "keeps_covers K (be_schedule s) (be_schedule s')" using keeps_covers_trans a b by blast
  ultimately show ?thesis unfolding starts_def using a b d as by (simp add: grant_append not_in_not_in)
qed

lemma starts_last_date:
  "starts w W K plan date es s s' \<Longrightarrow> last_date (writer (be_decisions s)) \<le> date \<Longrightarrow>
     last_date (writer (be_decisions s')) \<le> date"
  unfolding starts_def using decided_last_date by blast

subsection \<open>One job\<close>

context greedy_selector
begin

text \<open>The job is tried, and when it starts, recorded and taken out of the queue.\<close>

lemma easy_try:
  assumes st: "easy_state w W plan date s" and j: "j \<in> set (queued (be_queue s))" "jid j \<notin> plan"
    and h: "date + 3 * W \<le> horizon" and ld: "last_date (writer (be_decisions s)) \<le> date"
  obtains (started) alloc s1 s2 where "try_job fit j s = Some (alloc, s1)" "started_in_first_slice alloc"
      "execute_job date j alloc s1 = Some s2" "be_queue s2 = be_queue s"
      "\<And>s3. s3 = s2\<lparr>be_queue := be_queue s3\<rparr> \<Longrightarrow> queued (be_queue s3) = not_in {jid j} (queued (be_queue s)) \<Longrightarrow>
        queue_ok w W (be_nb_machines s) (be_queue s3) \<Longrightarrow>
        starts w W (- {jid j}) plan date [ExecuteJob (jid j) (used_machines alloc) []] s s3"
  | (planned) alloc s1 where "try_job fit j s = Some (alloc, s1)" "\<not> started_in_first_slice alloc"
      "plan = {} \<Longrightarrow> starts w W (- {jid j}) {jid j} date [] s s1 \<and> promised j (alloc_begin alloc) (be_schedule s1)"
      "\<exists>s2. unschedule j s1 = Some s2 \<and> starts w W (- {jid j}) plan date [] s s2"
      "\<And>V b. has_room V b (b + walltime j) (profile (be_schedule s)) \<Longrightarrow> int (card V) = nb_requested_resources j \<Longrightarrow>
       date \<le> b \<Longrightarrow> b + walltime j \<le> horizon \<Longrightarrow> alloc_begin alloc \<le> b"
proof -
  let ?S = "be_schedule s" and ?q = "be_queue s"
  have st': "core W date plan ?S" "nb_machines ?S = be_nb_machines s" "queue_ok w W (be_nb_machines s) ?q"
    "jid ` set (queued ?q) \<inter> dom (holds ?S) = {}" using st unfolding easy_state_def by blast+
  have wj: "waiting_ok w W (nb_machines ?S) j" using st'(2,3) j(1) by (simp add: queue_fine_def)
  have jd: "jid j \<notin> dom (holds ?S)" using st'(4) j(1) by blast
  have nh: "jid j \<notin> held_ids (profile ?S)" using st'(1) j(2) jd by (simp add: core_def)
  obtain alloc S' where a: "add_job_first_fit j fit True ?S = Some (j, alloc, S')"
    "int (card (used_machines alloc)) = nb_requested_resources j" "nb_machines S' = nb_machines ?S"
    "keeps_covers (- {jid j}) ?S S'"
    "started_in_first_slice alloc \<Longrightarrow> core W date plan S' \<and> holds S' = (holds ?S)(jid j \<mapsto> used_machines alloc)"
    "\<not> started_in_first_slice alloc \<Longrightarrow> plan = {} \<Longrightarrow>
       core W date {jid j} S' \<and> holds S' = holds ?S \<and> promised j (alloc_begin alloc) S'"
    "\<not> started_in_first_slice alloc \<Longrightarrow>
       \<exists>S''. remove_job j S' = Some S'' \<and> core W date plan S'' \<and> holds S'' = holds ?S \<and>
         nb_machines S'' = nb_machines ?S \<and> keeps_covers (- {jid j}) ?S S''"
    "\<And>V b. has_room V b (b + walltime j) (profile ?S) \<Longrightarrow> int (card V) = nb_requested_resources j \<Longrightarrow>
       date \<le> b \<Longrightarrow> b + walltime j \<le> horizon \<Longrightarrow> alloc_begin alloc \<le> b"
    by (rule core_try[OF st'(1) wj nh h]) (rule that)
  define s1 where "s1 = s\<lparr>be_schedule := S'\<rparr>"
  have t: "try_job fit j s = Some (alloc, s1)" using a(1) by (simp add: try_job_def s1_def)
  show thesis
  proof (cases "started_in_first_slice alloc")
    case True
    obtain d where d: "add_execute_job (jid j) (used_machines alloc) date [] (be_decisions s) = Some d"
      "decided date [ExecuteJob (jid j) (used_machines alloc) []] (be_decisions s) d"
      using decided_one[OF ld] by (auto simp: decision_simps)
    define s2 where "s2 = s1\<lparr>be_decisions := d\<rparr>"
    have e: "execute_job date j alloc s1 = Some s2" using d(1) by (simp add: execute_job_def s1_def s2_def)
    note A = a(5)[OF True]
    show ?thesis
    proof (rule started[OF t True e], goal_cases)
      case 1
      then show ?case by (simp add: s1_def s2_def)
    next
      case (2 s3)
      have f: "be_schedule s3 = S'" "be_decisions s3 = d" "be_nb_machines s3 = be_nb_machines s"
        by (subst 2(1), simp add: s1_def s2_def)+
      have "jid ` set (queued (be_queue s3)) \<inter> dom (holds S') = {}"
        using st'(4) A unfolding 2(2) by auto
      then have "easy_state w W plan date s3"
        unfolding easy_state_def f using A 2(3) a(3) st'(2) by simp
      moreover have "asked_by (queued ?q) [(jid j, used_machines alloc)]"
        using a(2) j(1) unfolding asked_by_def by auto
      ultimately show ?case using d(2) a(4) A 2(2) f by (simp add: starts_def)
    qed
  next
    case False
    obtain S'' where S'': "remove_job j S' = Some S''" "core W date plan S''" "holds S'' = holds ?S"
         "nb_machines S'' = nb_machines ?S" "keeps_covers (- {jid j}) ?S S''" using a(7)[OF False] by blast
    show ?thesis
    proof (rule planned[OF t False], goal_cases)
      case 1
      have A: "core W date {jid j} S'" "holds S' = holds ?S" "promised j (alloc_begin alloc) S'"
        using a(6)[OF False 1] by blast+
      show ?case using A a(3,4) st'(2-4)
        by (simp add: starts_def easy_state_def s1_def asked_by_def)
    next
      case 2
      have "unschedule j s1 = Some (s1\<lparr>be_schedule := S''\<rparr>)" using S''(1) by (simp add: unschedule_def s1_def)
      moreover have "starts w W (- {jid j}) plan date [] s (s1\<lparr>be_schedule := S''\<rparr>)"
        using S'' st'(2-4) by (simp add: starts_def easy_state_def s1_def asked_by_def)
      ultimately show ?case by blast
    next
      case (3 V b)
      then show ?case by (rule a(8))
    qed
  qed
qed

text \<open>The loop over the priority jobs.\<close>

lemma dequeue_ok:
  assumes "queue_fine R (be_queue s)" "j \<in> set (queued (be_queue s))"
  obtains s' where "dequeue j s = Some s'" "s' = s\<lparr>be_queue := be_queue s'\<rparr>"
    "queued (be_queue s') = not_in {jid j} (queued (be_queue s))" "queue_fine R (be_queue s')"
proof (rule queue_remove_ok[OF assms])
  fix i q'
  assume "queue_remove_job j (be_queue s) = Some (i, q')" "queued q' = not_in {jid j} (queued (be_queue s))" "queue_fine R q'"
  then show thesis using that[of "s\<lparr>be_queue := q'\<rparr>"] by (simp add: dequeue_def)
qed

lemma dequeue_at_ok:
  assumes "queue_fine R (be_queue s)" "queued (be_queue s) = kept @ j # js" "i = length kept"
  obtains s' where "dequeue_at i s = Some s'" "s' = s\<lparr>be_queue := be_queue s'\<rparr>"
    "queued (be_queue s') = kept @ js" "queued (be_queue s') = not_in {jid j} (queued (be_queue s))" "queue_fine R (be_queue s')"
proof (rule remove_at_ok[OF assms])
  fix q'
  assume q': "remove_job_at i (be_queue s) = Some (i, q')" "queued q' = kept @ js" "queue_fine R q'"
  have d: "distinct (map jid (queued (be_queue s)))" using assms(1) by (simp add: queue_fine_def)
  have "not_in {jid j} (queued (be_queue s)) = kept @ js"
    using d not_in_all[of "{jid j}" kept] not_in_all[of "{jid j}" js] unfolding assms(2) by auto
  then show thesis using that[of "s\<lparr>be_queue := q'\<rparr>"] q' by (simp add: dequeue_at_def)
qed

lemma start_priority_ok:
  assumes h: "date + 3 * W \<le> horizon"
  shows "easy_state w W {} date s \<Longrightarrow> queued (be_queue s) = js \<Longrightarrow> last_date (writer (be_decisions s)) \<le> date \<Longrightarrow>
    \<exists>s' es. start_priority fit date (head_of js) s = Some (head_of (queued (be_queue s')), s') \<and>
      starts w W {} (head_ids (queued (be_queue s'))) date es s s'"
proof (induction js arbitrary: s)
  case Nil
  then show ?case
    by (intro exI[of _ s] exI[of _ "[]"]) (simp add: head_of_def head_ids_def starts_refl)
next
  case (Cons j js)
  note st = Cons.prems(1)
  have j: "j \<in> set (queued (be_queue s))" "jid j \<notin> {}" using Cons.prems(2) by simp_all
  have qok: "queue_ok w W (be_nb_machines s) (be_queue s)" using st by (simp add: easy_state_def)
  have d: "distinct (map jid (j # js))" using qok Cons.prems(2) by (simp add: queue_fine_def)
  have js: "not_in {jid j} (j # js) = js" using d not_in_all[of "{jid j}" js] by auto
  show ?case
  proof (rule easy_try[OF st j h Cons.prems(3)])
    fix alloc s1 s2
    assume t: "try_job fit j s = Some (alloc, s1)" "started_in_first_slice alloc"
      "execute_job date j alloc s1 = Some s2" "be_queue s2 = be_queue s"
      and next': "\<And>s3. s3 = s2\<lparr>be_queue := be_queue s3\<rparr> \<Longrightarrow> queued (be_queue s3) = not_in {jid j} (queued (be_queue s)) \<Longrightarrow>
        queue_ok w W (be_nb_machines s) (be_queue s3) \<Longrightarrow>
        starts w W (- {jid j}) {} date [ExecuteJob (jid j) (used_machines alloc) []] s s3"
    obtain s3 where s3: "dequeue j s2 = Some s3" "s3 = s2\<lparr>be_queue := be_queue s3\<rparr>"
      "queued (be_queue s3) = not_in {jid j} (queued (be_queue s2))" "queue_ok w W (be_nb_machines s) (be_queue s3)"
      by (rule dequeue_ok[of "waiting_ok w W (be_nb_machines s)" s2 j]) (use qok j(1) t(4) in auto)
    have a: "starts w W {} {} date [ExecuteJob (jid j) (used_machines alloc) []] s s3"
      by (rule starts_mono[OF next'[OF s3(2) _ s3(4)]]) (use s3(3) t(4) in simp_all)
    have q3: "queued (be_queue s3) = js" using s3(3) t(4) Cons.prems(2) js by simp
    have "easy_state w W {} date s3" using a by (simp add: starts_def)
    from Cons.IH[OF this q3 starts_last_date[OF a Cons.prems(3)]]
    obtain s' es where s': "start_priority fit date (head_of js) s3 = Some (head_of (queued (be_queue s')), s')"
      "starts w W {} (head_ids (queued (be_queue s'))) date es s3 s'" by blast
    have "start_priority fit date (head_of (j # js)) s = Some (head_of (queued (be_queue s')), s')"
      using t s3(1) s'(1) q3 by (simp add: head_of_def first_job_head)
    then show ?thesis using starts_trans[OF a s'(2)] by blast
  next
    fix alloc s1
    assume t: "try_job fit j s = Some (alloc, s1)" "\<not> started_in_first_slice alloc"
      and pl: "{} = {} \<Longrightarrow> starts w W (- {jid j}) {jid j} date [] s s1 \<and> promised j (alloc_begin alloc) (be_schedule s1)"
    have a: "starts w W {} {jid j} date [] s s1" by (rule starts_mono) (use pl in auto)
    then have q1: "queued (be_queue s1) = j # js" using Cons.prems(2) by (simp add: starts_def)
    have "start_priority fit date (head_of (j # js)) s = Some (head_of (j # js), s1)"
      using t by (simp add: head_of_def)
    then show ?thesis using a by (intro exI[of _ s1] exI[of _ "[]"]) (simp add: q1 head_ids_def)
  qed
qed

text \<open>The traversal of the queue behind the planned priority job.\<close>

lemma not_present:
  assumes "easy_state w W plan date s" "j \<in> set (queued (be_queue s))" "jid j \<notin> plan"
  shows "contains_job_sched j (be_schedule s) = Some False"
proof -
  have "schedule_ok (be_schedule s)" "jid j \<notin> held_ids (profile (be_schedule s))"
    using assms by (auto simp: easy_state_def core_def)
  then show ?thesis using contains_job_sched_iff[of "be_schedule s" j] by (simp add: absent_held schedule_ok_def)
qed

lemma traverse_rest:
  assumes h: "date + 3 * W \<le> horizon" and kp: "plan = {jid p}"
  shows "easy_state w W plan date s \<Longrightarrow> queued (be_queue s) = p # kept @ js \<Longrightarrow>
    last_date (writer (be_decisions s)) \<le> date \<Longrightarrow>
    \<exists>s' es. traverse fit date (Some p) (Suc (length kept)) js s = Some s' \<and> starts w W plan plan date es s s'"
proof (induction js arbitrary: s kept)
  case Nil
  then show ?case by (intro exI[of _ s] exI[of _ "[]"]) (simp add: starts_refl)
next
  case (Cons j js)
  note st = Cons.prems(1) and q = Cons.prems(2)
  have qok: "queue_ok w W (be_nb_machines s) (be_queue s)" using st by (simp add: easy_state_def)
  have "distinct (map jid (p # kept @ j # js))" using qok q by (simp add: queue_fine_def)
  then have j: "j \<in> set (queued (be_queue s))" "jid j \<notin> plan" "jid j \<noteq> jid p" using q kp by auto
  have np: "contains_job_sched j (be_schedule s) = Some False" by (rule not_present[OF st j(1,2)])
  have sub: "plan \<subseteq> - {jid j}" using j(2) by simp
  show ?case
  proof (rule easy_try[OF st j(1,2) h Cons.prems(3)])
    fix alloc s1 s2
    assume t: "try_job fit j s = Some (alloc, s1)" "started_in_first_slice alloc"
      "execute_job date j alloc s1 = Some s2" "be_queue s2 = be_queue s"
      and next': "\<And>s3. s3 = s2\<lparr>be_queue := be_queue s3\<rparr> \<Longrightarrow> queued (be_queue s3) = not_in {jid j} (queued (be_queue s)) \<Longrightarrow>
        queue_ok w W (be_nb_machines s) (be_queue s3) \<Longrightarrow>
        starts w W (- {jid j}) plan date [ExecuteJob (jid j) (used_machines alloc) []] s s3"
    obtain s3 where s3: "dequeue_at (Suc (length kept)) s2 = Some s3" "s3 = s2\<lparr>be_queue := be_queue s3\<rparr>"
      "queued (be_queue s3) = (p # kept) @ js" "queued (be_queue s3) = not_in {jid j} (queued (be_queue s2))"
      "queue_ok w W (be_nb_machines s) (be_queue s3)"
      by (rule dequeue_at_ok[of "waiting_ok w W (be_nb_machines s)" s2 "p # kept" j js]) (use qok q t(4) in auto)
    have a: "starts w W plan plan date [ExecuteJob (jid j) (used_machines alloc) []] s s3"
      by (rule starts_mono[OF next'[OF s3(2) _ s3(5)] sub]) (use s3(4) t(4) in simp)
    have st3: "easy_state w W plan date s3" using a by (simp add: starts_def)
    have q3: "queued (be_queue s3) = p # kept @ js" using s3(3) by simp
    from Cons.IH[OF st3 q3 starts_last_date[OF a Cons.prems(3)]]
    obtain s' es where s': "traverse fit date (Some p) (Suc (length kept)) js s3 = Some s'"
      "starts w W plan plan date es s3 s'" by blast
    have "traverse fit date (Some p) (Suc (length kept)) (j # js) s = Some s'"
      using t s3(1) s'(1) np j(3) by (simp add: same_job_def)
    then show ?thesis using starts_trans[OF a s'(2)] by blast
  next
    fix alloc s1
    assume t: "try_job fit j s = Some (alloc, s1)" "\<not> started_in_first_slice alloc"
      and pl: "\<exists>s2. unschedule j s1 = Some s2 \<and> starts w W (- {jid j}) plan date [] s s2"
    obtain s2 where s2: "unschedule j s1 = Some s2" "starts w W plan plan date [] s s2"
      using pl starts_mono[OF _ sub] by blast
    have st2: "easy_state w W plan date s2" and q2: "queued (be_queue s2) = p # (kept @ [j]) @ js"
      using s2(2) q by (simp_all add: starts_def)
    from Cons.IH[OF st2 q2 starts_last_date[OF s2(2) Cons.prems(3)]]
    obtain s' es where s': "traverse fit date (Some p) (Suc (Suc (length kept))) js s2 = Some s'"
      "starts w W plan plan date es s2 s'" by auto
    have "traverse fit date (Some p) (Suc (length kept)) (j # js) s = Some s'"
      using t s2(1) s'(1) np j(3) by (simp add: same_job_def)
    then show ?thesis using starts_trans[OF s2(2) s'(2)] by auto
  qed
qed

text \<open>Planned jobs are not started by a part of a call that leaves them planned.\<close>

lemma starts_plan_kept:
  assumes "starts w W K plan date es s s'"
  shows "plan \<inter> started_ids es = {}"
proof -
  have "dom (grant xs al) = dom al \<union> fst ` set xs" for xs and al :: allocations
  proof (induction xs arbitrary: al)
    case (Cons x xs)
    obtain i U where x: "x = (i, U)" by (cases x)
    have "dom (al(i \<mapsto> U)) = insert i (dom al)" by simp
    then show ?case unfolding x grant.simps Cons.IH by simp
  qed simp
  then have "started_ids es \<subseteq> dom (holds (be_schedule s'))" using assms by (simp add: starts_def started_ids_def)
  moreover have "plan \<inter> dom (holds (be_schedule s')) = {}"
    using assms unfolding starts_def easy_state_def core_def by blast
  ultimately show ?thesis by blast
qed

lemma starts_head:
  assumes "starts w W K {jid p} date es s s'" "queued (be_queue s) = p # js"
  shows "queued (be_queue s') = p # not_in (started_ids es) js"
  using assms starts_plan_kept[OF assms(1)] by (simp add: starts_def)

text \<open>The whole traversal: while priority jobs start, the next job of the queue is the priority job.\<close>

lemma promised_kept:
  assumes "promised p b (be_schedule s)" "starts w W {jid p} plan date es s s'" "easy_state w W plan' date s"
    and "0 < walltime p"
  shows "promised p b (be_schedule s')"
proof -
  have d: "begin_of (hd (profile (be_schedule s))) = date" "begin_of (hd (profile (be_schedule s'))) = date"
    using assms(2,3) by (simp_all add: starts_def easy_state_def core_def)
  have "keeps_covers {jid p} (be_schedule s) (be_schedule s')" using assms(2) by (simp add: starts_def)
  then show ?thesis using assms(1,4) d unfolding promised_def keeps_covers_def by auto
qed

lemma take_back:
  assumes st: "easy_state w W plan date s" and j: "j \<in> set (queued (be_queue s))" "plan \<subseteq> {jid j}"
  obtains present s1 where "contains_job_sched j (be_schedule s) = Some present"
    "(if present then unschedule j s else Some s) = Some s1" "starts w W {} {} date [] s s1"
    "\<And>V x y. plan = {jid j} \<Longrightarrow> x < y \<Longrightarrow> covers (jid j) V x y (profile (be_schedule s)) \<Longrightarrow>
       has_room V x y (profile (be_schedule s1))"
proof (cases "plan = {}")
  case True
  then have "starts w W {} {} date [] s s" using st by (simp add: starts_refl)
  moreover have "contains_job_sched j (be_schedule s) = Some False" by (rule not_present[OF st j(1)]) (simp add: True)
  ultimately show thesis using that[of False s] True by simp
next
  case False
  then have pl: "plan = {jid j}" using j(2) by blast
  have C: "core W date plan (be_schedule s)" "nb_machines (be_schedule s) = be_nb_machines s"
    using st by (simp_all add: easy_state_def)
  have "schedule_ok (be_schedule s)" "jid j \<in> held_ids (profile (be_schedule s))" using C(1) pl by (simp_all add: core_def)
  then have p: "contains_job_sched j (be_schedule s) = Some True"
    using contains_job_sched_iff[of "be_schedule s" j] by (simp add: absent_held schedule_ok_def)
  have jd: "jid j \<in> dom (holds (be_schedule s)) \<union> plan" using pl by simp
  have jn: "holds (be_schedule s) (jid j) = None" using C(1) pl by (auto simp: core_def domIff)
  show thesis
  proof (rule core_remove[OF C(1) jd], goal_cases)
    case (1 S')
    have hS: "holds S' = holds (be_schedule s)" using 1(4) jn by (simp add: fun_upd_idem)
    have c: "core W date {} S'" using 1(3) unfolding pl by simp
    have "easy_state w W {} date (s\<lparr>be_schedule := S'\<rparr>)"
      using st c 1(5) C(2) hS by (simp add: easy_state_def)
    then have "starts w W {} {} date [] s (s\<lparr>be_schedule := S'\<rparr>)"
      using hS by (simp add: starts_def asked_by_def keeps_covers_def)
    then show ?case using that[OF p, of "s\<lparr>be_schedule := S'\<rparr>"] 1(1,8) by (simp add: unschedule_def)
  qed
qed

lemma traverse_all:
  assumes h: "date + 3 * W \<le> horizon"
  shows "easy_state w W plan date s \<Longrightarrow> queued (be_queue s) = js \<Longrightarrow> plan \<subseteq> head_ids js \<Longrightarrow>
    last_date (writer (be_decisions s)) \<le> date \<Longrightarrow>
    \<exists>s' es. traverse fit date (head_of js) 0 js s = Some s' \<and>
      starts w W {} (head_ids (queued (be_queue s'))) date es s s' \<and>
      (\<forall>p b. plan = {jid p} \<longrightarrow> head_of js = Some p \<longrightarrow> promised p b (be_schedule s) \<longrightarrow>
        jid p \<in> started_ids es \<or> (\<exists>b' \<le> b. promised p b' (be_schedule s')))"
proof (induction js arbitrary: s plan)
  case Nil
  then have "plan = {}" "starts w W {} {} date [] s s" by (auto simp: head_ids_def intro: starts_refl)
  then show ?case using Nil.prems(2)
    by (intro exI[of _ s] exI[of _ "[]"]) (simp add: head_of_def head_ids_def)
next
  case (Cons j js)
  note st = Cons.prems(1) and q = Cons.prems(2)
  have qok: "queue_ok w W (be_nb_machines s) (be_queue s)" using st by (simp add: easy_state_def)
  have dist: "distinct (map jid (j # js))" using qok q by (simp add: queue_fine_def)
  have js: "not_in {jid j} (j # js) = js" using dist not_in_all[of "{jid j}" js] by auto
  have j: "j \<in> set (queued (be_queue s))" "plan \<subseteq> {jid j}" using q Cons.prems(3) by (simp_all add: head_ids_def)
  have wj: "0 < walltime j" using qok j(1) by (simp add: queue_fine_def waiting_ok_def)
  obtain present s1 where p: "contains_job_sched j (be_schedule s) = Some present"
    "(if present then unschedule j s else Some s) = Some s1" and a1: "starts w W {} {} date [] s s1"
    and room: "\<And>V x y. plan = {jid j} \<Longrightarrow> x < y \<Longrightarrow> covers (jid j) V x y (profile (be_schedule s)) \<Longrightarrow>
       has_room V x y (profile (be_schedule s1))"
    by (rule take_back[OF st j]) (rule that)
  have st1: "easy_state w W {} date s1" and q1: "queued (be_queue s1) = j # js" and nb1: "be_nb_machines s1 = be_nb_machines s"
    using a1 q by (simp_all add: starts_def)
  have j1: "j \<in> set (queued (be_queue s1))" "jid j \<notin> {}" using q1 by simp_all
  have qok1: "queue_ok w W (be_nb_machines s1) (be_queue s1)" using st1 by (simp add: easy_state_def)
  have ld1: "last_date (writer (be_decisions s1)) \<le> date" by (rule starts_last_date[OF a1 Cons.prems(4)])
  have sj: "same_job (Some j) (head_of (j # js))" by (simp add: same_job_def head_of_def)
  show ?case
  proof (rule easy_try[OF st1 j1 h ld1])
    fix alloc t1 s2
    assume t: "try_job fit j s1 = Some (alloc, t1)" "started_in_first_slice alloc"
      "execute_job date j alloc t1 = Some s2" "be_queue s2 = be_queue s1"
      and next': "\<And>s3. s3 = s2\<lparr>be_queue := be_queue s3\<rparr> \<Longrightarrow> queued (be_queue s3) = not_in {jid j} (queued (be_queue s1)) \<Longrightarrow>
        queue_ok w W (be_nb_machines s1) (be_queue s3) \<Longrightarrow>
        starts w W (- {jid j}) {} date [ExecuteJob (jid j) (used_machines alloc) []] s1 s3"
    let ?e = "[ExecuteJob (jid j) (used_machines alloc) []]"
    obtain s3 where s3: "dequeue_at 0 s2 = Some s3" "s3 = s2\<lparr>be_queue := be_queue s3\<rparr>"
      "queued (be_queue s3) = [] @ js" "queued (be_queue s3) = not_in {jid j} (queued (be_queue s2))"
      "queue_ok w W (be_nb_machines s1) (be_queue s3)"
      by (rule dequeue_at_ok[of "waiting_ok w W (be_nb_machines s1)" s2 "[]" j js]) (use qok1 q1 t(4) in auto)
    have a3: "starts w W {} {} date ?e s1 s3"
      by (rule starts_mono[OF next'[OF s3(2) _ s3(5)]]) (use s3(4) t(4) in simp_all)
    have st3: "easy_state w W {} date s3" and q3: "queued (be_queue s3) = js"
      using a3 s3(3) by (simp_all add: starts_def)
    from Cons.IH[OF st3 q3 _ starts_last_date[OF a3 ld1]]
    obtain s' es where s': "traverse fit date (head_of js) 0 js s3 = Some s'"
      "starts w W {} (head_ids (queued (be_queue s'))) date es s3 s'" by auto
    have "traverse fit date (head_of (j # js)) 0 (j # js) s = Some s'"
      using p t s3(1) s'(1) sj q3 by (simp add: first_job_head)
    moreover have "starts w W {} (head_ids (queued (be_queue s'))) date ([] @ ?e @ es) s s'"
      by (rule starts_trans[OF a1 starts_trans[OF a3 s'(2)]])
    ultimately show ?thesis by (intro exI[of _ s'] exI[of _ "[] @ ?e @ es"]) (auto simp: head_of_def)
  next
    fix alloc s2
    assume t: "try_job fit j s1 = Some (alloc, s2)" "\<not> started_in_first_slice alloc"
      and pl: "{} = {} \<Longrightarrow> starts w W (- {jid j}) {jid j} date [] s1 s2 \<and> promised j (alloc_begin alloc) (be_schedule s2)"
      and opt: "\<And>V b. has_room V b (b + walltime j) (profile (be_schedule s1)) \<Longrightarrow> int (card V) = nb_requested_resources j \<Longrightarrow>
       date \<le> b \<Longrightarrow> b + walltime j \<le> horizon \<Longrightarrow> alloc_begin alloc \<le> b"
    have a2: "starts w W {} {jid j} date [] s1 s2" by (rule starts_mono) (use pl in auto)
    have st2: "easy_state w W {jid j} date s2" and q2: "queued (be_queue s2) = j # [] @ js"
      using a2 q1 by (simp_all add: starts_def)
    obtain s' es where s': "traverse fit date (Some j) (Suc 0) js s2 = Some s'"
      "starts w W {jid j} {jid j} date es s2 s'"
      using traverse_rest[OF h HOL.refl st2 q2 starts_last_date[OF a2 ld1]] by auto
    have run: "traverse fit date (head_of (j # js)) 0 (j # js) s = Some s'"
      using p t s'(1) sj by (simp add: head_of_def)
    have "queued (be_queue s') = j # not_in (started_ids es) js" by (rule starts_head[OF s'(2)]) (simp add: q2)
    then have hd': "head_ids (queued (be_queue s')) = {jid j}" by (simp add: head_ids_def)
    have "starts w W {} {jid j} date ([] @ [] @ es) s s'"
      by (rule starts_trans[OF a1 starts_trans[OF a2 starts_mono[OF s'(2)]]]) simp
    moreover have "\<exists>b' \<le> b. promised p b' (be_schedule s')"
      if pr: "plan = {jid p}" "head_of (j # js) = Some p" "promised p b (be_schedule s)" for p b
    proof (intro exI conjI)
      have pj: "p = j" using pr(2) by (simp add: head_of_def)
      obtain V where V: "int (card V) = nb_requested_resources j" "covers (jid j) V b (b + walltime j) (profile (be_schedule s))"
        "begin_of (hd (profile (be_schedule s))) \<le> b" "b + walltime j \<le> horizon"
        using pr(3) unfolding pj promised_def by blast
      have "begin_of (hd (profile (be_schedule s))) = date" using st by (simp add: easy_state_def core_def)
      then show "alloc_begin alloc \<le> b"
        using opt[OF room[OF pr(1)[unfolded pj] _ V(2)] V(1) _ V(4)] V(3) wj by simp
      have "promised j (alloc_begin alloc) (be_schedule s2)" using pl by simp
      from promised_kept[OF this s'(2) st2 wj] show "promised p (alloc_begin alloc) (be_schedule s')" unfolding pj .
    qed
    ultimately show ?thesis using run hd' by (intro exI[of _ s'] exI[of _ es]) simp
  qed
qed

text \<open>The loop over the jobs just queued.\<close>

lemma starts_head_of:
  assumes "starts w W K plan date es s s'" "plan = head_ids (queued (be_queue s))"
  shows "head_of (queued (be_queue s')) = head_of (queued (be_queue s))" "plan = head_ids (queued (be_queue s'))"
proof -
  have "head_of (queued (be_queue s')) = head_of (queued (be_queue s)) \<and> plan = head_ids (queued (be_queue s'))"
  proof (cases "queued (be_queue s)")
    case Nil
    then show ?thesis using assms by (simp add: starts_def)
  next
    case (Cons p js)
    have pl: "plan = {jid p}" using assms(2) Cons by (simp add: head_ids_def)
    have "queued (be_queue s') = p # not_in (started_ids es) js"
      by (rule starts_head[OF assms(1)[unfolded pl] Cons])
    then show ?thesis using pl Cons by (simp add: head_of_def head_ids_def)
  qed
  then show "head_of (queued (be_queue s')) = head_of (queued (be_queue s))" "plan = head_ids (queued (be_queue s'))"
    by blast+
qed

lemma backfill_recent_ok:
  assumes h: "date + 3 * W \<le> horizon" and wf: "\<And>i j. w i = Some j \<Longrightarrow> jid j = i"
  shows "easy_state w W plan date s \<Longrightarrow> plan = head_ids (queued (be_queue s)) \<Longrightarrow> set ids \<subseteq> dom w \<Longrightarrow>
    last_date (writer (be_decisions s)) \<le> date \<Longrightarrow>
    \<exists>s' es. backfill_recent fit w date (head_of (queued (be_queue s))) ids nb s = Some s' \<and>
      starts w W plan plan date es s s'"
proof (induction ids arbitrary: s nb)
  case Nil
  then show ?case by (intro exI[of _ s] exI[of _ "[]"]) (simp add: starts_refl)
next
  case (Cons i ids)
  note st = Cons.prems(1) and pl = Cons.prems(2)
  let ?after = "head_of (queued (be_queue s))"
  obtain j where j: "w i = Some j" using Cons.prems(3) by auto
  have ids: "set ids \<subseteq> dom w" using Cons.prems(3) by simp
  have skip: "\<exists>s' es. backfill_recent fit w date ?after ids nb s = Some s' \<and> starts w W plan plan date es s s'"
    by (rule Cons.IH[OF st pl ids Cons.prems(4)])
  show ?case
  proof (cases "0 < nb \<and> contains_job j (be_queue s) \<and> \<not> same_job (Some j) ?after \<and> nb_requested_resources j \<le> nb")
    case False
    then show ?thesis
    proof (cases "0 < nb")
      case False
      then show ?thesis using st by (intro exI[of _ s] exI[of _ "[]"]) (simp add: starts_refl)
    next
      case True
      then have "backfill_recent fit w date ?after (i # ids) nb s = backfill_recent fit w date ?after ids nb s"
        using False j by auto
      then show ?thesis using skip by simp
    qed
  next
    case True
    have qok: "queue_ok w W (be_nb_machines s) (be_queue s)" using st by (simp add: easy_state_def)
    obtain j' where j': "j' \<in> set (queued (be_queue s))" "jid j' = jid j" using True by (auto simp: contains_job_iff)
    have "w (jid j') = Some j'" using qok j'(1) by (simp add: queue_fine_def waiting_ok_def)
    then have "j' = j" using j'(2) wf[OF j] j by simp
    then have jq: "j \<in> set (queued (be_queue s))" using j'(1) by simp
    have np: "jid j \<notin> plan" using True unfolding pl head_ids_of by (auto simp: same_job_def split: option.splits)
    have sub: "plan \<subseteq> - {jid j}" using np by simp
    show ?thesis
    proof (rule easy_try[OF st jq np h Cons.prems(4)])
      fix alloc s1 s2
      assume t: "try_job fit j s = Some (alloc, s1)" "started_in_first_slice alloc"
        "execute_job date j alloc s1 = Some s2" "be_queue s2 = be_queue s"
        and next': "\<And>s3. s3 = s2\<lparr>be_queue := be_queue s3\<rparr> \<Longrightarrow> queued (be_queue s3) = not_in {jid j} (queued (be_queue s)) \<Longrightarrow>
          queue_ok w W (be_nb_machines s) (be_queue s3) \<Longrightarrow>
          starts w W (- {jid j}) plan date [ExecuteJob (jid j) (used_machines alloc) []] s s3"
      obtain s3 where s3: "dequeue j s2 = Some s3" "s3 = s2\<lparr>be_queue := be_queue s3\<rparr>"
        "queued (be_queue s3) = not_in {jid j} (queued (be_queue s2))" "queue_ok w W (be_nb_machines s) (be_queue s3)"
        by (rule dequeue_ok[of "waiting_ok w W (be_nb_machines s)" s2 j]) (use qok jq t(4) in auto)
      have a: "starts w W plan plan date [ExecuteJob (jid j) (used_machines alloc) []] s s3"
        by (rule starts_mono[OF next'[OF s3(2) _ s3(4)] sub]) (use s3(3) t(4) in simp)
      have st3: "easy_state w W plan date s3" using a by (simp add: starts_def)
      note hd3 = starts_head_of[OF a pl]
      from Cons.IH[OF st3 hd3(2) ids starts_last_date[OF a Cons.prems(4)], of "nb - nb_requested_resources j"]
      obtain s' es where s': "backfill_recent fit w date ?after ids (nb - nb_requested_resources j) s3 = Some s'"
        "starts w W plan plan date es s3 s'" unfolding hd3(1) by blast
      have "backfill_recent fit w date ?after (i # ids) nb s = Some s'"
        using True j t s3(1) s'(1) by simp
      then show ?thesis using starts_trans[OF a s'(2)] by blast
    next
      fix alloc s1
      assume t: "try_job fit j s = Some (alloc, s1)" "\<not> started_in_first_slice alloc"
        and un: "\<exists>s2. unschedule j s1 = Some s2 \<and> starts w W (- {jid j}) plan date [] s s2"
      obtain s2 where s2: "unschedule j s1 = Some s2" "starts w W plan plan date [] s s2"
        using un starts_mono[OF _ sub] by blast
      have st2: "easy_state w W plan date s2" using s2(2) by (simp add: starts_def)
      note hd2 = starts_head_of[OF s2(2) pl]
      from Cons.IH[OF st2 hd2(2) ids starts_last_date[OF s2(2) Cons.prems(4)], of nb]
      obtain s' es where s': "backfill_recent fit w date ?after ids nb s2 = Some s'"
        "starts w W plan plan date es s2 s'" unfolding hd2(1) by blast
      have "backfill_recent fit w date ?after (i # ids) nb s = Some s'"
        using True j t s2(1) s'(1) by simp
      then show ?thesis using starts_trans[OF s2(2) s'(2)] by blast
    qed
  qed
qed

end

subsection \<open>The other parts of a call\<close>

lemma ended_ok:
  "easy_state w W plan d s \<Longrightarrow> distinct ended \<Longrightarrow> set ended \<subseteq> dom (holds (be_schedule s)) \<Longrightarrow>
     \<forall>i \<in> set ended. \<exists>j. w i = Some j \<and> jid j = i \<Longrightarrow>
     \<exists>s1. fold_run (be_job_ended w) ended s = Some s1 \<and> s1 = s\<lparr>be_schedule := be_schedule s1\<rparr> \<and>
       easy_state w W plan d s1 \<and> holds (be_schedule s1) = holds (be_schedule s) |` (- set ended) \<and>
       keeps_covers plan (be_schedule s) (be_schedule s1) \<and>
       end_of (hd (profile (be_schedule s))) \<le> end_of (hd (profile (be_schedule s1)))"
proof (induction ended arbitrary: s)
  case Nil
  then show ?case by simp
next
  case (Cons i ids)
  obtain j where j: "w i = Some j" "jid j = i" using Cons.prems(4) by auto
  have C: "core W d plan (be_schedule s)" "nb_machines (be_schedule s) = be_nb_machines s"
    "queue_ok w W (be_nb_machines s) (be_queue s)" "jid ` set (queued (be_queue s)) \<inter> dom (holds (be_schedule s)) = {}"
    using Cons.prems(1) unfolding easy_state_def by blast+
  have ji: "jid j \<in> dom (holds (be_schedule s))" using Cons.prems(3) j(2) by simp
  then have np: "jid j \<notin> plan" using C(1) unfolding core_def by blast
  show ?case
  proof (rule core_remove[OF C(1), of j], goal_cases)
    case 1
    then show ?case using ji by simp
  next
    case (2 S')
    define s1 where "s1 = s\<lparr>be_schedule := S'\<rparr>"
    have e: "be_job_ended w i s = Some s1" using j(1) 2(1) by (simp add: be_job_ended_def unschedule_def s1_def)
    have c: "core W d plan S'" using 2(3) np by simp
    have st1: "easy_state w W plan d s1"
      using c C 2(4,5) by (auto simp: easy_state_def s1_def)
    have sub: "set ids \<subseteq> dom (holds (be_schedule s1))"
      using Cons.prems(2,3) 2(4) j(2) by (auto simp: s1_def)
    have k1: "keeps_covers plan (be_schedule s) (be_schedule s1)"
      using keeps_covers_mono[OF 2(6), of plan] np by (simp add: s1_def subset_Compl_singleton)
    obtain s2 where s2: "fold_run (be_job_ended w) ids s1 = Some s2" "s2 = s1\<lparr>be_schedule := be_schedule s2\<rparr>"
      "easy_state w W plan d s2" "holds (be_schedule s2) = holds (be_schedule s1) |` (- set ids)"
      "keeps_covers plan (be_schedule s1) (be_schedule s2)"
      "end_of (hd (profile (be_schedule s1))) \<le> end_of (hd (profile (be_schedule s2)))"
      using Cons.IH[OF st1 _ sub] Cons.prems(2,4) by auto
    have "holds (be_schedule s2) = holds (be_schedule s) |` (- set (i # ids))"
      unfolding s2(4) by (simp add: s1_def 2(4) j(2) restrict_map_def fun_eq_iff)
    moreover have "s2 = s\<lparr>be_schedule := be_schedule s2\<rparr>" by (subst s2(2)) (simp add: s1_def)
    moreover have "end_of (hd (profile (be_schedule s))) \<le> end_of (hd (profile (be_schedule s2)))"
      using 2(7) s2(6) by (simp add: s1_def)
    ultimately show ?case using e s2(1,3) keeps_covers_trans[OF k1 s2(5)] by auto
  qed
qed

text \<open>
  What the simulator guarantees of a call, the workload being well formed: jobs that end are
  running, released jobs are new; the call is made before the end of the first slice, and far
  enough from the horizon.
\<close>

definition easy_bf_input :: "workload \<Rightarrow> time \<Rightarrow> job_id list \<Rightarrow> job_id list \<Rightarrow> time \<Rightarrow> easy_bf \<Rightarrow> bool" where
  "easy_bf_input w W ended submitted date s \<longleftrightarrow>
     (\<forall>i j. w i = Some j \<longrightarrow> jid j = i) \<and>
     distinct ended \<and> set ended \<subseteq> dom w \<inter> dom (holds (be_schedule s)) \<and> distinct submitted \<and>
     (\<forall>i \<in> set submitted. i \<notin> dom (holds (be_schedule s)) \<and> i \<notin> jid ` set (queued (be_queue s)) \<and>
        (\<exists>j. w i = Some j \<and>
          (refused w (be_nb_machines s) i \<or> waiting_ok w W (be_nb_machines s) j \<and> submission_times j \<noteq> []))) \<and>
     begin_of (hd (profile (be_schedule s))) \<le> date \<and> date \<le> end_of (hd (profile (be_schedule s))) \<and>
     date + 3 * W \<le> horizon"

context greedy_selector
begin

lemma sort_while_ok:
  assumes h: "date + 3 * W \<le> horizon" and st: "easy_state w W plan date s"
    and before: "plan = (case before of None \<Rightarrow> {} | Some j \<Rightarrow> {jid j})"
    and ld: "last_date (writer (be_decisions s)) \<le> date"
  obtains q1 s' es where "sort_queue date (be_queue s) = Some q1" "mset (queued q1) = mset (queued (be_queue s))"
    "sort_queue_while_handling_priority_job fit date before s = Some (head_of (queued (be_queue s')), s')"
    "starts w W {} (head_ids (queued (be_queue s'))) date es (s\<lparr>be_queue := q1\<rparr>) s'"
    "same_job (head_of (queued q1)) before \<Longrightarrow> s' = s\<lparr>be_queue := q1\<rparr> \<and> es = []"
proof -
  have C: "core W date plan (be_schedule s)" "nb_machines (be_schedule s) = be_nb_machines s"
    "queue_ok w W (be_nb_machines s) (be_queue s)" "jid ` set (queued (be_queue s)) \<inter> dom (holds (be_schedule s)) = {}"
    using st unfolding easy_state_def by blast+
  obtain q1 where q1: "sort_queue date (be_queue s) = Some q1" "queue_ok w W (be_nb_machines s) q1"
    "mset (queued q1) = mset (queued (be_queue s))"
    by (rule sort_queue_ok[OF C(3)])
  let ?s1 = "s\<lparr>be_queue := q1\<rparr>" and ?after = "head_of (queued q1)"
  have "set (queued q1) = set (queued (be_queue s))" using q1(3) by (rule mset_eq_setD)
  then have st1: "easy_state w W plan date ?s1" using C q1(2) by (simp add: easy_state_def)
  show thesis
  proof (cases "same_job ?after before")
    case True
    have "plan = head_ids (queued q1)"
      using True before unfolding head_ids_of same_job_def by (auto split: option.splits)
    then have "starts w W {} (head_ids (queued q1)) date [] ?s1 ?s1" using st1 by (simp add: starts_refl)
    moreover have "sort_queue_while_handling_priority_job fit date before s = Some (?after, ?s1)"
      using True q1(1) by (simp add: sort_queue_while_handling_priority_job_def first_job_head)
    ultimately show thesis using that[OF q1(1,3), of ?s1 "[]"] by simp
  next
    case False
    obtain s2 where s2: "(case before of None \<Rightarrow> Some ?s1
              | Some j \<Rightarrow> do { (found, sch) \<leftarrow> remove_job_if_exists j (be_schedule ?s1); Some (?s1\<lparr>be_schedule := sch\<rparr>) }) = Some s2"
      "starts w W {} {} date [] ?s1 s2"
    proof (cases before)
      case None
      then show thesis using that[of ?s1] st1 before by (simp add: starts_refl)
    next
      case (Some p)
      then have pl: "plan = {jid p}" using before by simp
      have pd: "jid p \<in> dom (holds (be_schedule s)) \<union> plan" using pl by simp
      have pn: "holds (be_schedule s) (jid p) = None" using C(1) pl by (auto simp: core_def domIff)
      show thesis
      proof (rule core_remove[OF C(1) pd], goal_cases)
        case (1 S')
        have hS: "holds S' = holds (be_schedule s)" using 1(4) pn by (simp add: fun_upd_idem)
        have "core W date {} S'" using 1(3) unfolding pl by simp
        then have "starts w W {} {} date [] ?s1 (?s1\<lparr>be_schedule := S'\<rparr>)"
          using st1 1(5) C(2) hS by (simp add: starts_def asked_by_def keeps_covers_def easy_state_def)
        then show ?case using that[of "?s1\<lparr>be_schedule := S'\<rparr>"] 1(2) Some by simp
      qed
    qed
    have st2: "easy_state w W {} date s2" and q2: "queued (be_queue s2) = queued q1"
      using s2(2) by (simp_all add: starts_def)
    have "last_date (writer (be_decisions ?s1)) \<le> date" using ld by simp
    from start_priority_ok[OF h st2 q2 starts_last_date[OF s2(2) this]]
    obtain s' es where s': "start_priority fit date ?after s2 = Some (head_of (queued (be_queue s')), s')"
      "starts w W {} (head_ids (queued (be_queue s'))) date es s2 s'" by blast
    have "sort_queue_while_handling_priority_job fit date before s = Some (head_of (queued (be_queue s')), s')"
      unfolding sort_queue_while_handling_priority_job_def using False q1(1) s2(1) s'(1)
      by (simp add: first_job_head)
    then show thesis using that[OF q1(1,3) _ starts_trans[OF s2(2) s'(2)]] False by simp
  qed
qed

subsection \<open>The whole call\<close>

lemma notify_ok:
  assumes "last_date (writer (be_decisions s)) \<le> date"
  obtains d es where "easy_bf_notify date s = Some (s\<lparr>be_decisions := d\<rparr>)" "decided date es (be_decisions s) d"
    "executed es = []" "rejected es = []"
proof -
  let ?e = "[GenericNotification ''queue_size'' (show_int (nb_jobs (be_queue s))),
     GenericNotification ''schedule_size'' (show_int (sched_size (be_schedule s))),
     GenericNotification ''number_running_jobs'' (show_int (get_number_of_running_jobs (be_schedule s))),
     GenericNotification ''utilization'' (show_double (get_utilization (be_schedule s))),
     GenericNotification ''utilization_no_resv'' (show_double (get_utilization_no_resv (be_schedule s)))]"
  have "\<exists>d. easy_bf_notify date s = Some (s\<lparr>be_decisions := d\<rparr>) \<and> decided date ?e (be_decisions s) d"
    using assms unfolding easy_bf_notify_def Let_def
    by (simp add: decision_simps on_writer_def append_event_def decided_def)
  then show thesis using that[of _ ?e] by auto
qed

lemma starts_order:
  "starts w W K plan date es s s' \<Longrightarrow> easy_state w W plan date s'"
  by (simp add: starts_def)

lemma easy_bf_call:
  assumes ok: "easy_bf_ok w W s" and inp: "easy_bf_input w W ended submitted date s"
    and ld: "last_date (writer (be_decisions s)) \<le> date"
  obtains q1 s' es where
    "sort_queue date (enqueue w (be_nb_machines s) date submitted (be_queue s)) = Some q1"
    "easy_bf_make_decisions fit w ended submitted date s = Some s'" "easy_bf_ok w W s'"
    "be_nb_machines s' = be_nb_machines s" "decided date es (be_decisions s) (be_decisions s')"
    "rejected es = filter (refused w (be_nb_machines s)) submitted"
    "distinct (map fst (executed es))" "asked_by (queued q1) (executed es)"
    "holds (be_schedule s') = grant (executed es) (holds (be_schedule s) |` (- set ended))"
    "queued (be_queue s') = not_in (started_ids es) (queued q1)"
    "begin_of (hd (profile (be_schedule s'))) = date"
    "\<And>p b. head_of (queued (be_queue s)) = Some p \<Longrightarrow> head_of (queued q1) = Some p \<Longrightarrow>
       promised p b (be_schedule s) \<Longrightarrow>
       jid p \<in> started_ids es \<or> (\<exists>b' \<le> b. promised p b' (be_schedule s'))"
proof -
  let ?n = "be_nb_machines s" and ?S = "be_schedule s" and ?q = "be_queue s" and ?d = "begin_of (hd (profile (be_schedule s)))"
  define before where "before = head_of (queued ?q)"
  define plan where "plan = head_ids (queued ?q)"
  define q0 where "q0 = enqueue w ?n date submitted ?q"
  have plan: "plan = (case before of None \<Rightarrow> {} | Some j \<Rightarrow> {jid j})" unfolding plan_def before_def by (rule head_ids_of)
  have W: "0 \<le> W" and st: "easy_state w W plan ?d s" using ok unfolding easy_bf_ok_def plan_def by blast+
  have I: "\<And>i j. w i = Some j \<Longrightarrow> jid j = i" "distinct ended" "set ended \<subseteq> dom w" "set ended \<subseteq> dom (holds ?S)"
    "distinct submitted" "\<forall>i \<in> set submitted. i \<notin> dom (holds ?S) \<and> i \<notin> jid ` set (queued ?q)"
    "\<forall>i \<in> set submitted. \<exists>j. w i = Some j \<and> (refused w ?n i \<or> waiting_ok w W ?n j \<and> submission_times j \<noteq> [])"
    "?d \<le> date" "date \<le> end_of (hd (profile ?S))" and h: "date + 3 * W \<le> horizon"
    using inp unfolding easy_bf_input_def by blast+
  have C: "core W ?d plan ?S" "nb_machines ?S = ?n" "queue_ok w W ?n ?q"
    "jid ` set (queued ?q) \<inter> dom (holds ?S) = {}" using st unfolding easy_state_def by blast+
  have "\<forall>i \<in> set ended. \<exists>j. w i = Some j \<and> jid j = i" using I(1,3) by blast
  then obtain s1 where s1: "fold_run (be_job_ended w) ended s = Some s1" "s1 = s\<lparr>be_schedule := be_schedule s1\<rparr>"
    "easy_state w W plan ?d s1" "holds (be_schedule s1) = holds ?S |` (- set ended)"
    "keeps_covers plan ?S (be_schedule s1)" "end_of (hd (profile ?S)) \<le> end_of (hd (profile (be_schedule s1)))"
    using ended_ok[OF st I(2,4)] by blast
  have f1: "be_queue s1 = ?q" "be_decisions s1 = be_decisions s" "be_nb_machines s1 = ?n"
    by (subst s1(2), simp)+
  have "\<forall>i \<in> set submitted. \<exists>j. w i = Some j" using I(7) by blast
  then obtain recent d2 es2 where s2: "fold_run (queue_released w ?n date) submitted ([], be_decisions s, ?q) =
      Some (recent, d2, q0)" "set recent \<subseteq> dom w"
    "decided date es2 (be_decisions s) d2" "executed es2 = []" "rejected es2 = filter (refused w ?n) submitted"
    using released_ok[of submitted w "be_decisions s" date "[]" ?n ?q] ld unfolding q0_def by auto
  have "\<forall>i \<in> set submitted. \<exists>j. w i = Some j \<and> jid j = i \<and> (refused w ?n i \<or> waiting_ok w W ?n j \<and> submission_times j \<noteq> [])"
    using I(1,7) by blast
  then have q0: "queue_ok w W ?n q0" "jid ` set (queued q0) \<subseteq> jid ` set (queued ?q) \<union> set submitted"
    "set (queued ?q) \<subseteq> set (queued q0)"
    using enqueue_ok[OF C(3) I(5)] I(6) unfolding q0_def by blast+
  have C1: "core W ?d plan (be_schedule s1)" "nb_machines (be_schedule s1) = ?n"
    using s1(3) f1(3) unfolding easy_state_def by simp_all
  obtain S3 where S3: "update_first_slice date (be_schedule s1) = Some S3" "core W date plan S3"
    "holds S3 = holds (be_schedule s1)" "nb_machines S3 = nb_machines (be_schedule s1)" "keeps_covers UNIV (be_schedule s1) S3"
    by (rule core_advance[OF C1(1) W I(8)]) (use I(9) s1(6) in auto)
  define s3 where "s3 = s1\<lparr>be_decisions := d2, be_queue := q0, be_schedule := S3\<rparr>"
  have f3: "be_schedule s3 = S3" "be_queue s3 = q0" "be_decisions s3 = d2" "be_nb_machines s3 = ?n"
    using f1(3) by (simp_all add: s3_def)
  have "dom (holds S3) \<subseteq> dom (holds ?S)" unfolding S3(3) s1(4) by simp
  then have "jid ` set (queued q0) \<inter> dom (holds S3) = {}" using q0(2) C(4) I(6) by blast
  then have st3: "easy_state w W plan date s3" unfolding easy_state_def f3 using S3(2,4) C1(2) q0(1) by simp
  have ld3: "last_date (writer (be_decisions s3)) \<le> date" unfolding f3 using decided_last_date[OF s2(3) ld] .
  obtain q1 s4 es4 where s4: "sort_queue date q0 = Some q1" "mset (queued q1) = mset (queued q0)"
    "sort_queue_while_handling_priority_job fit date before s3 = Some (head_of (queued (be_queue s4)), s4)"
    "starts w W {} (head_ids (queued (be_queue s4))) date es4 (s3\<lparr>be_queue := q1\<rparr>) s4"
    "same_job (head_of (queued q1)) before \<Longrightarrow> s4 = s3\<lparr>be_queue := q1\<rparr> \<and> es4 = []"
    by (rule sort_while_ok[OF h st3 plan ld3, unfolded f3]) (rule that)
  let ?p4 = "head_ids (queued (be_queue s4))"
  note st4 = starts_order[OF s4(4)]
  have "last_date (writer (be_decisions (s3\<lparr>be_queue := q1\<rparr>))) \<le> date" using ld3 by simp
  note ld4 = starts_last_date[OF s4(4) this]
  let ?rest = "if ended = [] then backfill_recent fit w date (head_of (queued (be_queue s4))) recent (nb_free_now s4) s4
           else if 0 < nb_free_now s4 then traverse fit date (head_of (queued (be_queue s4))) 0 (queued (be_queue s4)) s4
           else Some s4"
  have "\<exists>s5 es5. ?rest = Some s5 \<and> starts w W {} (head_ids (queued (be_queue s5))) date es5 s4 s5 \<and>
    (\<forall>p b. head_of (queued (be_queue s4)) = Some p \<longrightarrow> promised p b (be_schedule s4) \<longrightarrow>
        jid p \<in> started_ids es5 \<or> (\<exists>b' \<le> b. promised p b' (be_schedule s5)))"
  proof (cases "ended = []")
    case True
    obtain s5 es5 where s5: "?rest = Some s5" "starts w W ?p4 ?p4 date es5 s4 s5"
      using backfill_recent_ok[OF h I(1) st4 HOL.refl s2(2) ld4, of "nb_free_now s4"] True by auto
    have hd5: "?p4 = head_ids (queued (be_queue s5))" by (rule starts_head_of(2)[OF s5(2) HOL.refl])
    have "promised p b (be_schedule s5)" if p: "head_of (queued (be_queue s4)) = Some p" "promised p b (be_schedule s4)" for p b
    proof -
      have "?p4 = {jid p}" using p(1) unfolding head_ids_of by simp
      moreover have "p \<in> set (queued (be_queue s4))" using p(1) by (cases "queued (be_queue s4)") (auto simp: head_of_def)
      then have "0 < walltime p" using st4 by (simp add: easy_state_def queue_fine_def waiting_ok_def)
      ultimately show ?thesis using promised_kept[OF p(2) _ st4] s5(2) by metis
    qed
    then show ?thesis using s5 starts_mono[OF s5(2), of "{}"] hd5 by auto
  next
    case False
    show ?thesis
    proof (cases "0 < nb_free_now s4")
      case True
      obtain s5 es5 where s5: "traverse fit date (head_of (queued (be_queue s4))) 0 (queued (be_queue s4)) s4 = Some s5"
        "starts w W {} (head_ids (queued (be_queue s5))) date es5 s4 s5"
        and pr: "\<And>p b. ?p4 = {jid p} \<Longrightarrow> head_of (queued (be_queue s4)) = Some p \<Longrightarrow> promised p b (be_schedule s4) \<Longrightarrow>
          jid p \<in> started_ids es5 \<or> (\<exists>b' \<le> b. promised p b' (be_schedule s5))"
        using traverse_all[OF h st4 HOL.refl _ ld4] by blast
      have "jid p \<in> started_ids es5 \<or> (\<exists>b' \<le> b. promised p b' (be_schedule s5))"
        if "head_of (queued (be_queue s4)) = Some p" "promised p b (be_schedule s4)" for p b
        by (rule pr[OF _ that]) (simp add: head_ids_of that(1))
      then show ?thesis using s5 False True by (intro exI[of _ s5] exI[of _ es5]) simp
    next
      case no: False
      have "starts w W {} ?p4 date [] s4 s4" using st4 by (simp add: starts_refl)
      then show ?thesis using False no by (intro exI[of _ s4] exI[of _ "[]"]) auto
    qed
  qed
  then obtain s5 es5 where s5: "?rest = Some s5" "starts w W {} (head_ids (queued (be_queue s5))) date es5 s4 s5"
    and pr5: "\<And>p b. head_of (queued (be_queue s4)) = Some p \<Longrightarrow> promised p b (be_schedule s4) \<Longrightarrow>
        jid p \<in> started_ids es5 \<or> (\<exists>b' \<le> b. promised p b' (be_schedule s5))" by blast
  obtain d6 es6 where s6: "easy_bf_notify date s5 = Some (s5\<lparr>be_decisions := d6\<rparr>)" "decided date es6 (be_decisions s5) d6"
    "executed es6 = []" "rejected es6 = []"
    by (rule notify_ok[OF starts_last_date[OF s5(2) ld4]])
  let ?es = "es2 @ (es4 @ es5) @ es6" and ?s' = "s5\<lparr>be_decisions := d6\<rparr>"
  have run: "easy_bf_make_decisions fit w ended submitted date s = Some ?s'"
    unfolding easy_bf_make_decisions_def first_job_head before_def[symmetric]
    using s1(1) s2(1) S3(1) s4(3) s5(1) s6(1) by (simp add: s3_def f1)
  have all: "starts w W {} (head_ids (queued (be_queue s5))) date (es4 @ es5) (s3\<lparr>be_queue := q1\<rparr>) s5"
    by (rule starts_trans[OF s4(4) s5(2)])
  note A = all[unfolded starts_def]
  have "decided date (es4 @ es5) d2 (be_decisions s5)" using A f3 by simp
  then have dec: "decided date ?es (be_decisions s) d6"
    using decided_trans[OF s2(3) decided_trans[OF _ s6(2)]] by blast
  have ex: "executed ?es = executed (es4 @ es5)" "rejected ?es = filter (refused w ?n) submitted"
    using s2(4,5) s6(3,4) A by simp_all
  have sid: "started_ids ?es = started_ids (es4 @ es5)" unfolding started_ids_def ex ..
  have d5: "begin_of (hd (profile (be_schedule s5))) = date" using A by (simp add: easy_state_def core_def)
  have ok': "easy_bf_ok w W ?s'" using starts_order[OF all] W d5 by (simp add: easy_bf_ok_def easy_state_def)
  have "holds (be_schedule s5) = grant (executed ?es) (holds ?S |` (- set ended))"
    using A f3 S3(3) s1(4) unfolding ex by simp
  moreover have "queued (be_queue s5) = not_in (started_ids ?es) (queued q1)" using A unfolding sid by simp
  moreover have "distinct (map fst (executed ?es))" "asked_by (queued q1) (executed ?es)" unfolding ex using A by simp_all
  moreover have "be_nb_machines s5 = ?n" using A f3 by simp
  moreover have "jid p \<in> started_ids ?es \<or> (\<exists>b' \<le> b. promised p b' (be_schedule s5))"
    if p: "before = Some p" "head_of (queued q1) = Some p" "promised p b ?S" for p b
  proof -
    have s4e: "s4 = s3\<lparr>be_queue := q1\<rparr>" using s4(5) p(1,2) by (simp add: same_job_def)
    have pl: "plan = {jid p}" using plan p(1) by simp
    have "p \<in> set (queued ?q)" using p(1) unfolding before_def by (cases "queued ?q") (auto simp: head_of_def)
    then have wp: "0 < walltime p" using C(3) by (simp add: queue_fine_def waiting_ok_def)
    obtain V where V: "int (card V) = nb_requested_resources p" "covers (jid p) V b (b + walltime p) (profile ?S)"
      "?d \<le> b" "b + walltime p \<le> horizon" using p(3) unfolding promised_def by blast
    have "end_of (hd (profile ?S)) \<le> b"
    proof (rule ccontr)
      assume "\<not> end_of (hd (profile ?S)) \<le> b"
      moreover have "hd (profile ?S) \<in> set (profile ?S)" using C(1) by (simp add: core_def schedule_ok_def)
      ultimately have "holds ?S (jid p) = Some V" using V(2,3) wp unfolding covers_def holds_def by auto
      then show False using C(1) pl by (auto simp: core_def)
    qed
    then have b: "date \<le> b" using I(9) by simp
    have "covers (jid p) V b (b + walltime p) (profile S3)"
      using s1(5) S3(5) V(2) wp pl unfolding keeps_covers_def by simp
    then have "promised p b (be_schedule s4)"
      unfolding promised_def using V(1,4) b S3(2) s4e f3 by (auto simp: core_def)
    then show ?thesis using pr5[of p b] p(2) s4e unfolding sid by auto
  qed
  ultimately show thesis
    using that[OF s4(1)[unfolded q0_def] run ok' _ _ ex(2), of] dec d5 unfolding before_def by simp
qed

end

subsection \<open>Properties\<close>

text \<open>
  C10: a call of EASY backfilling on a schedule never aborts and keeps its invariant.  The rejected
  jobs are exactly the released ones that are too large or have no walltime.  The machines of
  the running jobs evolve as in a pool: the jobs that ended give theirs back, each started job
  was waiting and gets as many machines as it asked for, no machine has two holders; and the jobs
  left in the queue are, in the order of the sorted queue, those not started.
\<close>

theorem easy_bf_decides:
  assumes "greedy_selector fit" "easy_bf_ok w W s" "easy_bf_input w W ended submitted date s"
    and "last_date (writer (be_decisions s)) \<le> date"
  shows "\<exists>q1 s' es. sort_queue date (enqueue w (be_nb_machines s) date submitted (be_queue s)) = Some q1 \<and>
    easy_bf_make_decisions fit w ended submitted date s = Some s' \<and> easy_bf_ok w W s' \<and>
    decided date es (be_decisions s) (be_decisions s') \<and>
    rejected es = filter (refused w (be_nb_machines s)) submitted \<and>
    distinct (map fst (executed es)) \<and> asked_by (queued q1) (executed es) \<and>
    holds (be_schedule s') = grant (executed es) (holds (be_schedule s) |` (- set ended)) \<and>
    pool_ok (be_nb_machines s) (available_machines (hd (profile (be_schedule s')))) (holds (be_schedule s')) \<and>
    queued (be_queue s') = not_in (started_ids es) (queued q1)"
proof (rule greedy_selector.easy_bf_call[OF assms], goal_cases)
  case (1 q1 s' es)
  have "core W (begin_of (hd (profile (be_schedule s')))) (head_ids (queued (be_queue s'))) (be_schedule s')"
    "nb_machines (be_schedule s') = be_nb_machines s"
    using 1(3,4) by (simp_all add: easy_bf_ok_def easy_state_def)
  from core_pool[OF this(1)] this(2) 1 show ?case by (intro exI[of _ q1] exI[of _ s'] exI[of _ es]) simp
qed

text \<open>
  C11: backfilling never postpones the priority job.  When the first job of the queue is promised
  to start by a date, and sorting the queue leaves it first, then one call either starts it or
  leaves it promised to start by the same date or an earlier one.
\<close>

theorem easy_bf_keeps_promise:
  assumes "greedy_selector fit" "easy_bf_ok w W s" "easy_bf_input w W ended submitted date s"
    and "last_date (writer (be_decisions s)) \<le> date"
    and "sort_queue date (enqueue w (be_nb_machines s) date submitted (be_queue s)) = Some q1"
    and "head_of (queued (be_queue s)) = Some p" "head_of (queued q1) = Some p" "promised p b (be_schedule s)"
  shows "\<exists>s' es. easy_bf_make_decisions fit w ended submitted date s = Some s' \<and>
    decided date es (be_decisions s) (be_decisions s') \<and>
    (jid p \<in> fst ` set (executed es) \<or> (\<exists>b' \<le> b. promised p b' (be_schedule s')))"
proof (rule greedy_selector.easy_bf_call[OF assms(1-4)], goal_cases)
  case (1 q2 s' es)
  have "q2 = q1" using 1(1) assms(5) by simp
  then have "jid p \<in> started_ids es \<or> (\<exists>b' \<le> b. promised p b' (be_schedule s'))"
    using 1(12)[OF assms(6) _ assms(8)] assms(7) by simp
  then show ?case using 1(2,5) unfolding started_ids_def by blast
qed

subsection \<open>Example\<close>

text \<open>
  Four machines: \<^verbatim>\<open>a\<close> runs on three of them until date 10, \<^verbatim>\<open>b\<close>, which asks for three, is planned
  after it.  At date 4 \<^verbatim>\<open>a\<close> ends, and \<^verbatim>\<open>c\<close> is released; \<^verbatim>\<open>d\<close> is too large.
\<close>

definition demo_workload :: workload where
  "demo_workload = [''a'' \<mapsto> plain_job ''a'' 3 10, ''b'' \<mapsto> plain_job ''b'' 3 10,
     ''c'' \<mapsto> plain_job ''c'' 1 10, ''d'' \<mapsto> plain_job ''d'' 9 10]"

definition demo_slice :: "time \<Rightarrow> time \<Rightarrow> job_map \<Rightarrow> machines \<Rightarrow> time_slice" where
  "demo_slice b e m U = \<lparr>begin_of = b, end_of = e, length_of = e - b, has_reservation = False,
     nb_reservations = 0, available_machines = {0..<4} - U, allocated_machines = U,
     nb_available_machines = int (card ({0..<4} - U)), allocated_jobs = m\<rparr>"

definition demo_schedule :: schedule where
  "demo_schedule = sample_schedule\<lparr>profile := [
     demo_slice 0 10 [(plain_job ''a'' 3 10, {0, 1, 2})] {0, 1, 2},
     demo_slice 10 20 [(plain_job ''b'' 3 10, {0, 1, 2})] {0, 1, 2},
     demo_slice 20 horizon [] {}]\<rparr>"

definition demo_easy_bf :: easy_bf where
  "demo_easy_bf = \<lparr>be_nb_machines = 4, be_schedule = demo_schedule,
     be_queue = append_job (plain_job ''b'' 3 10) 0 (new_queue FCFSOrder), be_decisions = new_decisions\<rparr>"

lemma demo_schedule_ok: "schedule_ok demo_schedule"
proof -
  have sl: "slice_ok {0..<4} (demo_slice b e [] {})" for b e
    by (simp add: slice_ok_def demo_slice_def jm_disjoint_def jm_union_def)
  have sl3: "slice_ok {0..<4} (demo_slice b e [(j, {0, 1, 2})] {0, 1, 2})" for b e j
    by (auto simp: slice_ok_def demo_slice_def jm_disjoint_def jm_union_def)
  have M: "in_service demo_schedule = {0..<4}" by (simp add: in_service_def demo_schedule_def)
  have co: "coherent (profile demo_schedule)"
    by (auto simp: coherent_def demo_schedule_def demo_slice_def split: if_splits)
  have one: "one_run (map (slice_has i) (profile demo_schedule))" for i
    by (cases "i = ''a''"; cases "i = ''b''") (simp_all add: demo_schedule_def demo_slice_def slice_has_def)
  have "profile_ok {0..<4} (profile demo_schedule)"
    unfolding profile_ok_def
  proof (intro conjI allI co one)
    show "\<forall>ts \<in> set (profile demo_schedule). slice_ok {0..<4} ts"
      using sl sl3 by (simp add: demo_schedule_def)
  qed (simp_all add: demo_schedule_def demo_slice_def good_id_def)
  moreover have "chain (begin_of (hd (profile demo_schedule))) (profile demo_schedule) horizon"
    by (simp add: demo_schedule_def demo_slice_def horizon_def)
  ultimately show ?thesis unfolding schedule_ok_def M by (simp add: demo_schedule_def)
qed

lemma demo_holds: "holds demo_schedule = [''a'' \<mapsto> {0, 1, 2}]"
  by (auto simp: holds_def demo_schedule_def demo_slice_def)

lemma demo_core: "core 10 0 {''b''} demo_schedule"
proof -
  have "held_ids (profile demo_schedule) = {''a'', ''b''}"
    by (auto simp: held_ids_def demo_schedule_def demo_slice_def slice_has_def)
  moreover have "ends_by (\<lambda>i. 0 + (if i \<in> {''b''} then 2 * 10 else 10)) (profile demo_schedule)"
    by (simp add: ends_by_def demo_schedule_def demo_slice_def slice_has_def)
  moreover have "repair_machines demo_schedule = {}" "begin_of (hd (profile demo_schedule)) = 0"
    by (simp_all add: demo_schedule_def demo_slice_def)
  ultimately show ?thesis unfolding core_def demo_holds using demo_schedule_ok by auto
qed

lemma demo_ok:
  "easy_bf_ok demo_workload 10 demo_easy_bf"
  "easy_bf_input demo_workload 10 [''a''] [''c'', ''d''] 4 demo_easy_bf"
  "last_date (writer (be_decisions demo_easy_bf)) \<le> 4"
proof -
  have q: "queued (be_queue demo_easy_bf) = [plain_job ''b'' 3 10]" "be_schedule demo_easy_bf = demo_schedule"
    "be_nb_machines demo_easy_bf = 4" "nb_machines demo_schedule = 4"
    "q_order (be_queue demo_easy_bf) = FCFSOrder"
    "begin_of (hd (profile demo_schedule)) = 0" "end_of (hd (profile demo_schedule)) = 10"
    by (simp_all add: demo_easy_bf_def demo_schedule_def demo_slice_def new_queue_def append_job_def queued_def)
  have w: "waiting_ok demo_workload 10 4 (plain_job ''b'' 3 10)" "waiting_ok demo_workload 10 4 (plain_job ''c'' 1 10)"
    by (simp_all add: waiting_ok_def demo_workload_def good_id_def)
  have "queue_ok demo_workload 10 4 (be_queue demo_easy_bf)"
    unfolding queue_fine_def q using w by simp
  then show "easy_bf_ok demo_workload 10 demo_easy_bf"
    unfolding easy_bf_ok_def easy_state_def q demo_holds using demo_core q(4) by (simp add: head_ids_def)
  show "last_date (writer (be_decisions demo_easy_bf)) \<le> 4"
    by (simp add: demo_easy_bf_def new_decisions_def new_writer_def)
  have wf: "\<forall>i j. demo_workload i = Some j \<longrightarrow> jid j = i" by (auto simp: demo_workload_def split: if_splits)
  have "\<exists>j. demo_workload i = Some j \<and>
      (refused demo_workload 4 i \<or> waiting_ok demo_workload 10 4 j \<and> submission_times j \<noteq> [])"
    if "i \<in> set [''c'', ''d'']" for i
  proof -
    consider "i = ''c''" | "i = ''d''" using \<open>i \<in> set [''c'', ''d'']\<close> by auto
    then show ?thesis
    proof cases
      case 1
      have "demo_workload i = Some (plain_job ''c'' 1 10)" unfolding 1 by (simp add: demo_workload_def)
      then show ?thesis using w(2) by (simp add: plain_job_def)
    next
      case 2
      then show ?thesis by (simp add: refused_def demo_workload_def)
    qed
  qed
  then show "easy_bf_input demo_workload 10 [''a''] [''c'', ''d''] 4 demo_easy_bf"
    unfolding easy_bf_input_def q demo_holds
  proof (intro conjI wf ballI)
    show "set [''a''] \<subseteq> dom demo_workload \<inter> dom [''a'' \<mapsto> {0, 1, 2}]" by (simp add: demo_workload_def)
    show "i \<notin> dom [''a'' \<mapsto> {0, 1, 2}]" "i \<notin> jid ` set [plain_job ''b'' 3 10]" if "i \<in> set [''c'', ''d'']" for i
      using that by auto
  qed (simp_all add: horizon_def)
qed

theorem easy_bf_decides_witness:
  "\<exists>s' es. easy_bf_make_decisions (basic_fit std_lib) demo_workload [''a''] [''c'', ''d''] 4 demo_easy_bf = Some s' \<and>
     easy_bf_ok demo_workload 10 s' \<and> rejected es = [''d''] \<and>
     decided 4 es (be_decisions demo_easy_bf) (be_decisions s')"
proof -
  have "filter (refused demo_workload (be_nb_machines demo_easy_bf)) [''c'', ''d''] = [''d'']"
    by (simp add: refused_def demo_workload_def demo_easy_bf_def)
  then show ?thesis using easy_bf_decides[OF std_basic(2) demo_ok] by metis
qed

theorem easy_bf_keeps_promise_witness:
  "\<exists>s' es. easy_bf_make_decisions (basic_fit std_lib) demo_workload [''a''] [''c'', ''d''] 4 demo_easy_bf = Some s' \<and>
     decided 4 es (be_decisions demo_easy_bf) (be_decisions s') \<and>
     (''b'' \<in> fst ` set (executed es) \<or> (\<exists>b' \<le> 10. promised (plain_job ''b'' 3 10) b' (be_schedule s')))"
proof -
  let ?p = "plain_job ''b'' 3 10"
  define q0 where "q0 = enqueue demo_workload (be_nb_machines demo_easy_bf) 4 [''c'', ''d''] (be_queue demo_easy_bf)"
  have q0: "q0 = append_job (plain_job ''c'' 1 10) 4 (append_job ?p 0 (new_queue FCFSOrder))"
    by (simp add: q0_def demo_workload_def demo_easy_bf_def refused_def)
  obtain q1 where q1: "sort_queue 4 q0 = Some q1" "head_of (queued q1) = Some ?p"
    unfolding q0 by (simp add: sort_queue_def append_job_def new_queue_def order_reads_ok_def list_sort_def
        FCFSOrder_compare_def queued_def head_of_def)
  have h: "head_of (queued (be_queue demo_easy_bf)) = Some ?p"
    by (simp add: demo_easy_bf_def head_of_def)
  have "promised ?p 10 (be_schedule demo_easy_bf)"
    unfolding promised_def covers_def
    by (simp add: demo_easy_bf_def demo_schedule_def demo_slice_def horizon_def exI[of _ "{0, 1, 2}"])
  from easy_bf_keeps_promise[OF std_basic(2) demo_ok q1(1)[unfolded q0_def] h q1(2) this]
  show ?thesis by simp
qed

end
