(* ===== verification/Heap_Schedule.thy ===== *)
theory Heap_Schedule
  imports Locality
begin

text \<open>
  The running jobs of \<^verbatim>\<open>algo/easy_bf3.cpp\<close>, which the code keeps sorted by expected end with a heap
  sort of its own (\<^verbatim>\<open>max_heapify\<close>, \<^verbatim>\<open>sort_max_heap\<close>).  The sort is proved to permute the jobs and
  to order them.
\<close>

subsection \<open>The operations\<close>

record scheduled_job =
  sc_id :: job_id
  sc_requested :: int
  sc_wall_time :: time
  sc_start_time :: time
  sc_run_time :: time
  est_finish_time :: time
  sc_allocated :: machines

text \<open>\<^verbatim>\<open>std::swap\<close> of two elements of a vector.\<close>

definition swap_at :: "nat \<Rightarrow> nat \<Rightarrow> 'a list \<Rightarrow> 'a list" where
  "swap_at i j xs = xs[i := xs ! j, j := xs ! i]"

text \<open>The child, of a node of the heap of the first \<open>n\<close> jobs, that ends last, or the node itself.\<close>

definition latest_of :: "nat \<Rightarrow> nat \<Rightarrow> scheduled_job list \<Rightarrow> nat" where
  "latest_of node n xs =
     (let left = 2 * node + 1; right = left + 1;
          m1 = (if left < n \<and> est_finish_time (xs ! left) > est_finish_time (xs ! node) then left else node)
      in if right < n \<and> est_finish_time (xs ! right) > est_finish_time (xs ! m1) then right else m1)"

lemma latest_of_below: "latest_of node n xs \<noteq> node \<Longrightarrow> node < latest_of node n xs \<and> latest_of node n xs < n"
  by (auto simp: latest_of_def Let_def split: if_splits)

function max_heapify :: "nat \<Rightarrow> nat \<Rightarrow> scheduled_job list \<Rightarrow> scheduled_job list" where
  "max_heapify node n xs =
     (let m = latest_of node n xs in
      if m \<noteq> node then max_heapify m n (swap_at node m xs) else xs)"
  by pat_completeness auto

termination
proof (relation "measure (\<lambda>(node, n, xs). n - node)")
  fix node n m :: nat and xs :: "scheduled_job list"
  assume "m = latest_of node n xs" "m \<noteq> node"
  then have "node < m" "m < n" using latest_of_below[of node n xs] by simp_all
  then have "n - m < n - node" by linarith
  then show "((m, n, swap_at node m xs), (node, n, xs)) \<in> measure (\<lambda>(node, n, xs). n - node)" by simp
qed simp

declare max_heapify.simps [simp del]

text \<open>The loops of the sort: \<open>i\<close> and \<open>j\<close> count down.\<close>

fun build_heap :: "nat \<Rightarrow> nat \<Rightarrow> scheduled_job list \<Rightarrow> scheduled_job list" where
  "build_heap 0 n xs = max_heapify 0 n xs"
| "build_heap (Suc i) n xs = build_heap i n (max_heapify (Suc i) n xs)"

fun unheap :: "nat \<Rightarrow> scheduled_job list \<Rightarrow> scheduled_job list" where
  "unheap 0 xs = xs"
| "unheap (Suc j) xs = unheap j (max_heapify 0 (Suc j) (swap_at 0 (Suc j) xs))"

definition sort_max_heap :: "nat \<Rightarrow> scheduled_job list \<Rightarrow> scheduled_job list" where
  "sort_max_heap n xs = (if n < 2 then xs else unheap (n - 1) (build_heap (n div 2) n xs))"

subsection \<open>The elements\<close>

lemma swap_at_simps [simp]: "length (swap_at i j xs) = length xs"
  by (simp add: swap_at_def)

lemma swap_at_nth: "i < length xs \<Longrightarrow> j < length xs \<Longrightarrow>
    swap_at i j xs ! k = (if k = j then xs ! i else if k = i then xs ! j else xs ! k)"
  by (auto simp: swap_at_def nth_list_update)

lemma mset_swap_at [simp]: "i < length xs \<Longrightarrow> j < length xs \<Longrightarrow> mset (swap_at i j xs) = mset xs"
  unfolding swap_at_def by (rule mset_swap)

text \<open>Only the first \<open>n\<close> elements are moved.\<close>

definition moves_below :: "nat \<Rightarrow> 'a list \<Rightarrow> 'a list \<Rightarrow> bool" where
  "moves_below n xs ys \<longleftrightarrow> length ys = length xs \<and> mset ys = mset xs \<and> (\<forall>k. n \<le> k \<longrightarrow> ys ! k = xs ! k)"

lemma moves_below_refl [simp]: "moves_below n xs xs"
  by (simp add: moves_below_def)

lemma moves_below_trans: "moves_below n xs ys \<Longrightarrow> moves_below n ys zs \<Longrightarrow> moves_below n xs zs"
  by (simp add: moves_below_def)

lemma moves_below_swap: "i < n \<Longrightarrow> j < n \<Longrightarrow> n \<le> length xs \<Longrightarrow> moves_below n xs (swap_at i j xs)"
  by (simp add: moves_below_def swap_at_nth)

lemma moves_below_prefix:
  assumes "moves_below n xs ys" "n \<le> length xs"
  shows "set (take n ys) = set (take n xs)"
proof -
  have "drop n ys = drop n xs"
    by (rule nth_equalityI) (use assms in \<open>simp_all add: moves_below_def\<close>)
  moreover have "mset (take n ys) + mset (drop n ys) = mset (take n xs) + mset (drop n xs)"
    using assms(1) unfolding moves_below_def by (metis append_take_drop_id mset_append)
  ultimately show ?thesis by (metis add_right_cancel set_mset_mset)
qed

lemma max_heapify_moves:
  "node < n \<Longrightarrow> n \<le> length xs \<Longrightarrow> moves_below n xs (max_heapify node n xs)"
proof (induction node n xs rule: max_heapify.induct)
  case (1 node n xs)
  let ?m = "latest_of node n xs"
  show ?case
  proof (cases "?m = node")
    case True
    then show ?thesis by (subst max_heapify.simps) (simp add: Let_def)
  next
    case False
    note b = latest_of_below[OF False]
    have s: "moves_below n xs (swap_at node ?m xs)" by (rule moves_below_swap) (use 1 b in auto)
    have "moves_below n (swap_at node ?m xs) (max_heapify ?m n (swap_at node ?m xs))"
      by (rule "1.IH"[OF HOL.refl False]) (use 1 b in auto)
    then show ?thesis using moves_below_trans[OF s] False by (subst max_heapify.simps) (simp add: Let_def)
  qed
qed

subsection \<open>Heaps\<close>

text \<open>No child ends after its node, for the nodes from \<open>i\<close> on, apart from the nodes in \<open>E\<close>.\<close>

definition heap_but :: "nat set \<Rightarrow> nat \<Rightarrow> nat \<Rightarrow> scheduled_job list \<Rightarrow> bool" where
  "heap_but E i n xs \<longleftrightarrow> (\<forall>k c. i \<le> k \<longrightarrow> k \<notin> E \<longrightarrow> c < n \<longrightarrow> c = 2 * k + 1 \<or> c = 2 * k + 2 \<longrightarrow>
     est_finish_time (xs ! c) \<le> est_finish_time (xs ! k))"

text \<open>The children of \<open>r\<close> do not end after the node above \<open>r\<close>.\<close>

definition above_ok :: "nat \<Rightarrow> nat \<Rightarrow> nat \<Rightarrow> scheduled_job list \<Rightarrow> bool" where
  "above_ok r i n xs \<longleftrightarrow> (\<forall>p c. i \<le> p \<longrightarrow> r = 2 * p + 1 \<or> r = 2 * p + 2 \<longrightarrow> c < n \<longrightarrow> c = 2 * r + 1 \<or> c = 2 * r + 2 \<longrightarrow>
     est_finish_time (xs ! c) \<le> est_finish_time (xs ! p))"

lemma latest_of_child:
  assumes "latest_of node n xs \<noteq> node"
  shows "latest_of node n xs = 2 * node + 1 \<or> latest_of node n xs = 2 * node + 2"
  using assms by (auto simp: latest_of_def Let_def split: if_splits)

lemma latest_of_max:
  assumes "c < n" "c = 2 * node + 1 \<or> c = 2 * node + 2"
  shows "est_finish_time (xs ! c) \<le> est_finish_time (xs ! latest_of node n xs)"
    "est_finish_time (xs ! node) \<le> est_finish_time (xs ! latest_of node n xs)"
  using assms by (auto simp: latest_of_def Let_def split: if_splits)

lemma max_heapify_heap:
  "node < n \<Longrightarrow> n \<le> length xs \<Longrightarrow> i \<le> node \<Longrightarrow> heap_but {node} i n xs \<Longrightarrow> above_ok node i n xs \<Longrightarrow>
     heap_but {} i n (max_heapify node n xs)"
proof (induction node n xs rule: max_heapify.induct)
  case (1 node n xs)
  let ?m = "latest_of node n xs" and ?f = "\<lambda>xs k. est_finish_time (xs ! k)"
  note heap = "1.prems"(4)[unfolded heap_but_def] and above = "1.prems"(5)[unfolded above_ok_def]
  show ?case
  proof (cases "?m = node")
    case True
    have "heap_but {} i n xs"
      unfolding heap_but_def
    proof (intro allI impI)
      fix k c
      assume k: "i \<le> k" "c < n" "c = 2 * k + 1 \<or> c = 2 * k + 2"
      show "?f xs c \<le> ?f xs k"
        using heap k latest_of_max[of c n node xs] True by (cases "k = node") auto
    qed
    then show ?thesis using True by (subst max_heapify.simps) (simp add: Let_def)
  next
    case False
    note b = latest_of_below[OF False] and ch = latest_of_child[OF False]
    let ?ys = "swap_at node ?m xs"
    have nth: "?ys ! k = (if k = ?m then xs ! node else if k = node then xs ! ?m else xs ! k)" for k
      by (rule swap_at_nth) (use 1 b in auto)
    have "heap_but {?m} i n ?ys"
      unfolding heap_but_def
    proof (intro allI impI)
      fix k c
      assume k: "i \<le> k" "k \<notin> {?m}" "c < n" "c = 2 * k + 1 \<or> c = 2 * k + 2"
      have ck: "c \<noteq> k" using k(4) by auto
      consider "k = node" | "c = node" "k \<noteq> node" | "k \<noteq> node" "c \<noteq> node" by blast
      then show "?f ?ys c \<le> ?f ?ys k"
      proof cases
        case 1
        then show ?thesis using latest_of_max[OF k(3), of node xs] k(4) b ck by (auto simp: nth)
      next
        case 2
        have "?f xs ?m \<le> ?f xs k" using above k(1,4) 2(1) b ch by blast
        then show ?thesis using 2 k(2) b by (auto simp: nth)
      next
        case 3
        have "c \<noteq> ?m" using k(4) ch 3(1) by auto
        then show ?thesis using heap k 3 by (auto simp: nth)
      qed
    qed
    moreover have "above_ok ?m i n ?ys"
      unfolding above_ok_def
    proof (intro allI impI)
      fix p c
      assume p: "i \<le> p" "?m = 2 * p + 1 \<or> ?m = 2 * p + 2" "c < n" "c = 2 * ?m + 1 \<or> c = 2 * ?m + 2"
      have pr: "p = node" using p(2) ch by auto
      have "?f xs c \<le> ?f xs ?m" using heap p(3,4) b "1.prems"(3) by auto
      then show "?f ?ys c \<le> ?f ?ys p" using p(4) pr b by (auto simp: nth)
    qed
    ultimately have "heap_but {} i n (max_heapify ?m n ?ys)"
      by (intro "1.IH"[OF HOL.refl False]) (use "1.prems" b in auto)
    then show ?thesis using False by (subst max_heapify.simps) (simp add: Let_def)
  qed
qed

lemma heap_top:
  assumes "heap_but {} 0 n xs"
  shows "k < n \<Longrightarrow> est_finish_time (xs ! k) \<le> est_finish_time (xs ! 0)"
proof (induction k rule: less_induct)
  case (less k)
  show ?case
  proof (cases "k = 0")
    case False
    define p where "p = (k - 1) div 2"
    have p: "p < k" "k = 2 * p + 1 \<or> k = 2 * p + 2" using False unfolding p_def by presburger+
    have "est_finish_time (xs ! k) \<le> est_finish_time (xs ! p)"
      using assms less.prems p(2) unfolding heap_but_def by blast
    then show ?thesis using less.IH[OF p(1)] p(1) less.prems by fastforce
  qed simp
qed

lemma heap_but_down:
  assumes "heap_but {} (Suc i) n xs"
  shows "heap_but {i} i n xs"
  unfolding heap_but_def
proof (intro allI impI)
  fix k c
  assume k: "i \<le> k" "k \<notin> {i}" "c < n" "c = 2 * k + 1 \<or> c = 2 * k + 2"
  have "Suc i \<le> k" using k(1,2) by simp
  then show "est_finish_time (xs ! c) \<le> est_finish_time (xs ! k)"
    using assms k(3,4) unfolding heap_but_def by blast
qed

lemma build_heap_ok:
  "i < n \<Longrightarrow> n \<le> length xs \<Longrightarrow> heap_but {} (Suc i) n xs \<Longrightarrow>
     moves_below n xs (build_heap i n xs) \<and> heap_but {} 0 n (build_heap i n xs)"
proof (induction i arbitrary: xs)
  case 0
  have "heap_but {0} 0 n xs" by (rule heap_but_down[OF "0.prems"(3)])
  then show ?case using max_heapify_moves[of 0 n xs] max_heapify_heap[of 0 n xs 0] 0 by (simp add: above_ok_def)
next
  case (Suc i)
  let ?ys = "max_heapify (Suc i) n xs"
  have m: "moves_below n xs ?ys" by (rule max_heapify_moves[OF Suc.prems(1,2)])
  have "heap_but {Suc i} (Suc i) n xs" by (rule heap_but_down[OF Suc.prems(3)])
  moreover have "above_ok (Suc i) (Suc i) n xs" unfolding above_ok_def by auto
  ultimately have h: "heap_but {} (Suc i) n ?ys" by (intro max_heapify_heap[OF Suc.prems(1,2)]) auto
  have l: "n \<le> length ?ys" using m Suc.prems(2) by (simp add: moves_below_def)
  have "moves_below n ?ys (build_heap i n ?ys) \<and> heap_but {} 0 n (build_heap i n ?ys)"
    by (rule Suc.IH[OF _ l h]) (use Suc.prems(1) in simp)
  then show ?case using moves_below_trans[OF m] by simp
qed

lemma unheap_ok:
  "j < length xs \<Longrightarrow> heap_but {} 0 (Suc j) xs \<Longrightarrow>
     sorted_wrt (\<lambda>x y. est_finish_time x \<le> est_finish_time y) (drop (Suc j) xs) \<Longrightarrow>
     \<forall>x \<in> set (take (Suc j) xs). \<forall>y \<in> set (drop (Suc j) xs). est_finish_time x \<le> est_finish_time y \<Longrightarrow>
     mset (unheap j xs) = mset xs \<and> sorted_wrt (\<lambda>x y. est_finish_time x \<le> est_finish_time y) (unheap j xs)"
proof (induction j arbitrary: xs)
  case 0
  then show ?case by (cases xs) simp_all
next
  case (Suc j)
  let ?ys = "swap_at 0 (Suc j) xs" and ?le = "\<lambda>x y. est_finish_time x \<le> est_finish_time y"
  let ?zs = "max_heapify 0 (Suc j) ?ys"
  have nth: "?ys ! k = (if k = Suc j then xs ! 0 else if k = 0 then xs ! Suc j else xs ! k)" for k
    by (rule swap_at_nth) (use Suc.prems(1) in auto)
  have my: "moves_below (Suc (Suc j)) xs ?ys" by (rule moves_below_swap) (use Suc.prems(1) in auto)
  have mz: "moves_below (Suc j) ?ys ?zs" by (rule max_heapify_moves) (use Suc.prems(1) in auto)
  have l: "length ?zs = length xs" using mz by (simp add: moves_below_def)
  have "heap_but {0} 0 (Suc j) ?ys"
    unfolding heap_but_def
  proof (intro allI impI)
    fix k c
    assume k: "k \<notin> {0}" "c < Suc j" "c = 2 * k + 1 \<or> c = 2 * k + 2"
    have "c < Suc (Suc j)" using k(2) by simp
    then have "?le (xs ! c) (xs ! k)" using Suc.prems(2) k(3) unfolding heap_but_def by blast
    then show "?le (?ys ! c) (?ys ! k)" using k by (auto simp: nth)
  qed
  then have h: "heap_but {} 0 (Suc j) ?zs"
    by (intro max_heapify_heap) (use Suc.prems(1) in \<open>auto simp: above_ok_def\<close>)
  have zj: "?zs ! Suc j = xs ! 0" using mz by (simp add: moves_below_def nth)
  have "drop (Suc (Suc j)) ?zs = drop (Suc (Suc j)) xs"
    by (rule nth_equalityI) (use mz my l in \<open>simp_all add: moves_below_def\<close>)
  then have d: "drop (Suc j) ?zs = xs ! 0 # drop (Suc (Suc j)) xs"
    using zj l Suc.prems(1) by (metis Cons_nth_drop_Suc)
  have tk: "set (take (Suc j) ?zs) \<subseteq> set (take (Suc (Suc j)) xs)"
  proof -
    have "set (take (Suc j) ?zs) = set (take (Suc j) ?ys)"
      by (rule moves_below_prefix[OF mz]) (use Suc.prems(1) in simp)
    also have "\<dots> \<subseteq> set (take (Suc (Suc j)) ?ys)" by (rule set_take_subset_set_take) simp
    also have "\<dots> = set (take (Suc (Suc j)) xs)" by (rule moves_below_prefix[OF my]) (use Suc.prems(1) in simp)
    finally show ?thesis .
  qed
  have top: "?le x (xs ! 0)" if "x \<in> set (take (Suc (Suc j)) xs)" for x
    using that heap_top[OF Suc.prems(2)] by (auto simp: in_set_conv_nth)
  have x0: "xs ! 0 \<in> set (take (Suc (Suc j)) xs)" using Suc.prems(1) by (cases xs) auto
  have "mset (unheap j ?zs) = mset ?zs \<and> sorted_wrt ?le (unheap j ?zs)"
  proof (rule Suc.IH[OF _ h])
    show "j < length ?zs" using l Suc.prems(1) by simp
    show "sorted_wrt ?le (drop (Suc j) ?zs)" unfolding d using Suc.prems(3,4) x0 by auto
    show "\<forall>x \<in> set (take (Suc j) ?zs). \<forall>y \<in> set (drop (Suc j) ?zs). ?le x y"
      unfolding d using tk top Suc.prems(4) by auto
  qed
  moreover have "mset ?zs = mset xs" using mz my by (simp add: moves_below_def)
  ultimately show ?case by simp
qed

text \<open>The sort permutes the running jobs and orders them by expected end.\<close>

lemma sort_max_heap_ok:
  "mset (sort_max_heap (length xs) xs) = mset xs"
  "sorted_wrt (\<lambda>x y. est_finish_time x \<le> est_finish_time y) (sort_max_heap (length xs) xs)"
proof -
  let ?n = "length xs" and ?le = "\<lambda>x y. est_finish_time x \<le> est_finish_time y"
  have "mset (sort_max_heap ?n xs) = mset xs \<and> sorted_wrt ?le (sort_max_heap ?n xs)"
  proof (cases "?n < 2")
    case True
    then show ?thesis by (cases xs) (auto simp: sort_max_heap_def)
  next
    case False
    let ?ys = "build_heap (?n div 2) ?n xs"
    have "heap_but {} (Suc (?n div 2)) ?n xs" unfolding heap_but_def by auto
    then have b: "moves_below ?n xs ?ys" "heap_but {} 0 ?n ?ys"
      using build_heap_ok[of "?n div 2" ?n xs] False by auto
    have "length ?ys = ?n" "mset ?ys = mset xs" using b(1) by (simp_all add: moves_below_def)
    moreover have "Suc (?n - 1) = ?n" using False by simp
    ultimately show ?thesis
      using unheap_ok[of "?n - 1" ?ys] b(2) False by (simp add: sort_max_heap_def)
  qed
  then show "mset (sort_max_heap ?n xs) = mset xs" "sorted_wrt ?le (sort_max_heap ?n xs)" by blast+
qed

end
