(* ===== verification/Easy_Bf3.thy ===== *)
theory Easy_Bf3
  imports Heap_Schedule Waiting Failures
begin

text \<open>
  EASY backfilling with its own list of running jobs (\<^verbatim>\<open>algo/easy_bf3.cpp\<close>, \<^verbatim>\<open>easy_bf3.hpp\<close>).  The
  running jobs are kept sorted by expected end; the first waiting job is promised the date at which
  enough of them will have ended (the shadow time), and what will be free beside it then (the extra
  machines) may be given to jobs that end later.

  \<^verbatim>\<open>_can_run\<close> and \<^verbatim>\<open>_tmp_job\<close> are only read after the call that sets them: the checks return the
  job just put in the schedule, or nothing.  The log files and the clocks are left out.
\<close>

subsection \<open>State and operations\<close>

record priority_point =
  pj_id :: job_id
  pj_requested :: int
  pj_extra :: int
  pj_shadow :: time
  pj_finish :: time

record easy_bf3 =
  e3_nb_machines :: int
  e3_scheduled :: "scheduled_job list"
  e3_priority :: priority_point
  e3_available :: machines
  e3_nb_available :: int
  e3_backfilled :: int
  e3_queue :: queue
  e3_decisions :: decisions

text \<open>\<^verbatim>\<open>new Priority_Job()\<close>\<close>

definition no_priority :: priority_point where
  "no_priority = \<lparr>pj_id = [], pj_requested = 0, pj_extra = 0, pj_shadow = 0, pj_finish = 0\<rparr>"

definition easy_bf3_on_simulation_start ::
  "int \<Rightarrow> sched_workload \<Rightarrow> draws \<Rightarrow> time \<Rightarrow> easy_bf3 \<Rightarrow> easy_bf3 run" where
  "easy_bf3_on_simulation_start pid w dr date s = do {
     d0 \<leftarrow> add_generic_notification ''PID'' (show_int pid) date (e3_decisions s);
     d \<leftarrow> set_generators w dr date d0;
     let s1 = s\<lparr>e3_decisions := d, e3_available := e3_available s \<union> {0..<nat (e3_nb_machines s)},
       e3_nb_available := e3_nb_machines s\<rparr>;
     assertion (int (card (e3_available s1)) = e3_nb_machines s1);
     Some s1 }"

definition handle_scheduled_job :: "interval_lib \<Rightarrow> job \<Rightarrow> time \<Rightarrow> easy_bf3 \<Rightarrow> scheduled_job \<times> easy_bf3" where
  "handle_scheduled_job lib j date s =
     (let tmp = \<lparr>sc_id = jid j, sc_requested = nb_requested_resources j, sc_wall_time = walltime j,
            sc_start_time = date, sc_run_time = duration j, est_finish_time = date + walltime j,
            sc_allocated = left_of lib (e3_available s) (nb_requested_resources j)\<rparr>
      in (tmp, s\<lparr>e3_scheduled := e3_scheduled s @ [tmp], e3_available := e3_available s - sc_allocated tmp,
                 e3_nb_available := e3_nb_available s - sc_requested tmp\<rparr>))"

definition sort_scheduled :: "easy_bf3 \<Rightarrow> easy_bf3" where
  "sort_scheduled s = s\<lparr>e3_scheduled := sort_max_heap (length (e3_scheduled s)) (e3_scheduled s)\<rparr>"

definition handle_finished_job :: "job_id \<Rightarrow> easy_bf3 \<Rightarrow> easy_bf3" where
  "handle_finished_job i s =
     (let k = find_if (\<lambda>sj. sc_id sj = i) (e3_scheduled s) in
      if k \<noteq> length (e3_scheduled s) then
        (let tmp = e3_scheduled s ! k in
         s\<lparr>e3_available := e3_available s \<union> sc_allocated tmp,
           e3_nb_available := e3_nb_available s + sc_requested tmp,
           e3_scheduled := take k (e3_scheduled s) @ drop (Suc k) (e3_scheduled s)\<rparr>)
      else s)"

text \<open>The running jobs in order of expected end, until enough machines are counted.\<close>

fun shadow_of :: "scheduled_job list \<Rightarrow> int \<Rightarrow> int \<Rightarrow> (time \<times> int) option" where
  "shadow_of [] machine_count required = None"
| "shadow_of (sj # sjs) machine_count required =
     (if required \<le> machine_count + sc_requested sj then Some (est_finish_time sj, machine_count + sc_requested sj)
      else shadow_of sjs (machine_count + sc_requested sj) required)"

definition update_priority :: "job \<Rightarrow> priority_point \<Rightarrow> priority_point" where
  "update_priority j p =
     (if pj_id p \<noteq> jid j then p\<lparr>pj_id := jid j, pj_requested := nb_requested_resources j\<rparr> else p)"

definition check_priority_job :: "interval_lib \<Rightarrow> time \<Rightarrow> job \<Rightarrow> easy_bf3 \<Rightarrow> scheduled_job option \<times> easy_bf3" where
  "check_priority_job lib date j s =
     (let p = update_priority j (e3_priority s); s1 = s\<lparr>e3_priority := p\<rparr> in
      if pj_requested p \<le> e3_nb_available s then
        (let (tmp, s2) = handle_scheduled_job lib j date s1 in (Some tmp, sort_scheduled s2))
      else
        (None,
         case shadow_of (e3_scheduled s) (e3_nb_available s) (pj_requested p) of
           None \<Rightarrow> s1
         | Some (t, machine_count) \<Rightarrow>
             s1\<lparr>e3_priority := p\<lparr>pj_shadow := t, pj_finish := t + walltime j,
                  pj_extra := machine_count - nb_requested_resources j\<rparr>\<rparr>))"

definition check_next_job :: "interval_lib \<Rightarrow> time \<Rightarrow> job \<Rightarrow> easy_bf3 \<Rightarrow> scheduled_job option \<times> easy_bf3" where
  "check_next_job lib date j s =
     (if (if date + walltime j \<le> pj_shadow (e3_priority s) then nb_requested_resources j \<le> e3_nb_available s
          else nb_requested_resources j \<le> min (e3_nb_available s) (pj_extra (e3_priority s)))
      then
        (let (tmp, s1) = handle_scheduled_job lib j date s; s2 = sort_scheduled s1
         in (Some tmp, s2\<lparr>e3_backfilled := e3_backfilled s2 + 1\<rparr>))
      else (None, s))"

text \<open>The decision to start a job that a check has put in the schedule, and its removal from the queue.\<close>

definition e3_execute :: "time \<Rightarrow> job \<Rightarrow> scheduled_job \<Rightarrow> easy_bf3 \<Rightarrow> easy_bf3 run" where
  "e3_execute date j tmp s = do {
     d \<leftarrow> add_execute_job (jid j) (sc_allocated tmp) date [] (e3_decisions s);
     Some (s\<lparr>e3_decisions := d\<rparr>) }"

definition e3_dequeue :: "job \<Rightarrow> easy_bf3 \<Rightarrow> easy_bf3 run" where
  "e3_dequeue j s = do {
     (i, q) \<leftarrow> queue_remove_job j (e3_queue s);
     Some (s\<lparr>e3_queue := q\<rparr>) }"

definition e3_dequeue_at :: "nat \<Rightarrow> easy_bf3 \<Rightarrow> easy_bf3 run" where
  "e3_dequeue_at i s = do {
     (i', q) \<leftarrow> remove_job_at i (e3_queue s);
     Some (s\<lparr>e3_queue := q\<rparr>) }"

lemma sort_scheduled_queue [simp]: "e3_queue (sort_scheduled s) = e3_queue s"
  by (simp add: sort_scheduled_def)

lemma check_priority_queue: "e3_queue (snd (check_priority_job lib date j s)) = e3_queue s"
  by (simp add: check_priority_job_def handle_scheduled_job_def Let_def split: option.splits)

lemma e3_shorter:
  assumes "check_priority_job lib date j s = (r, s1)" "e3_execute date j tmp s1 = Some s2" "e3_dequeue j s2 = Some s3"
  shows "length (q_jobs (e3_queue s3)) < length (q_jobs (e3_queue s))"
proof -
  have "e3_queue s1 = e3_queue s" using check_priority_queue[of lib date j s] assms(1) by simp
  then show ?thesis using assms(2,3)
    by (auto simp: e3_execute_def e3_dequeue_def queue_remove_job_def remove_job_at_def run_simps Let_def)
qed

text \<open>The loop that starts priority jobs, until one cannot start or the queue is empty.\<close>

function e3_start_priority :: "interval_lib \<Rightarrow> time \<Rightarrow> job option \<Rightarrow> easy_bf3 \<Rightarrow> (job option \<times> easy_bf3) run" where
  "e3_start_priority lib date None s = Some (None, s)"
| "e3_start_priority lib date (Some j) s =
     (case check_priority_job lib date j s of
        (None, s1) \<Rightarrow> Some (Some j, s1)
      | (Some tmp, s1) \<Rightarrow> do {
          s2 \<leftarrow> e3_execute date j tmp s1;
          s3 \<leftarrow> e3_dequeue j s2;
          after \<leftarrow> first_job_or_nullptr (e3_queue s3);
          e3_start_priority lib date after s3 })"
  by pat_completeness auto

termination
  by (relation "measure (\<lambda>(lib, date, after, s). length (q_jobs (e3_queue s)))") (auto intro: e3_shorter[OF HOL.sym])

definition e3_sort_queue_while_handling_priority_job ::
  "interval_lib \<Rightarrow> time \<Rightarrow> job option \<Rightarrow> easy_bf3 \<Rightarrow> (job option \<times> easy_bf3) run" where
  "e3_sort_queue_while_handling_priority_job lib date before s = do {
     q \<leftarrow> sort_queue date (e3_queue s);
     let s1 = s\<lparr>e3_queue := q\<rparr>;
     after \<leftarrow> first_job_or_nullptr q;
     if \<not> same_job after before then e3_start_priority lib date after s1 else Some (after, s1) }"

text \<open>No machine was released: only the jobs just queued are tried.\<close>

fun e3_backfill_recent ::
  "interval_lib \<Rightarrow> workload \<Rightarrow> time \<Rightarrow> job option \<Rightarrow> job_id list \<Rightarrow> easy_bf3 \<Rightarrow> easy_bf3 run" where
  "e3_backfill_recent lib w date after [] s = Some s"
| "e3_backfill_recent lib w date after (i # ids) s =
     (if 0 < e3_nb_available s then do {
        new_job \<leftarrow> w i;
        if contains_job new_job (e3_queue s) \<and> \<not> same_job (Some new_job) after then
          (case check_next_job lib date new_job s of
             (None, s1) \<Rightarrow> e3_backfill_recent lib w date after ids s1
           | (Some tmp, s1) \<Rightarrow> do {
               s2 \<leftarrow> e3_execute date new_job tmp s1;
               s3 \<leftarrow> e3_dequeue new_job s2;
               e3_backfill_recent lib w date after ids s3 })
        else e3_backfill_recent lib w date after ids s }
      else Some s)"

text \<open>
  The traversal of the queue after machines were released; \<open>i\<close> is the position of the iterator and
  the list argument what follows it.
\<close>

fun e3_traverse :: "interval_lib \<Rightarrow> time \<Rightarrow> job option \<Rightarrow> nat \<Rightarrow> job list \<Rightarrow> easy_bf3 \<Rightarrow> easy_bf3 run" where
  "e3_traverse lib date after i [] s = Some s"
| "e3_traverse lib date after i (j # js) s =
     (if 0 < e3_nb_available s then
        (case (if same_job (Some j) after then check_priority_job lib date j s else check_next_job lib date j s) of
           (None, s1) \<Rightarrow> e3_traverse lib date after (Suc i) js s1
         | (Some tmp, s1) \<Rightarrow> do {
             s2 \<leftarrow> e3_execute date j tmp s1;
             s3 \<leftarrow> e3_dequeue_at i s2;
             after' \<leftarrow> (if same_job (Some j) after then first_job_or_nullptr (e3_queue s3) else Some after);
             e3_traverse lib date after' i js s3 })
      else Some s)"

definition e3_notify :: "time \<Rightarrow> easy_bf3 \<Rightarrow> easy_bf3 run" where
  "e3_notify date s = do {
     d1 \<leftarrow> add_generic_notification ''queue_size'' (show_int (nb_jobs (e3_queue s))) date (e3_decisions s);
     d2 \<leftarrow> add_generic_notification ''schedule_size'' (show_int (int (length (e3_scheduled s)))) date d1;
     Some (s\<lparr>e3_decisions := d2\<rparr>) }"

definition easy_bf3_make_decisions ::
  "interval_lib \<Rightarrow> workload \<Rightarrow> job_id list \<Rightarrow> job_id list \<Rightarrow> time \<Rightarrow> easy_bf3 \<Rightarrow> easy_bf3 run" where
  "easy_bf3_make_decisions lib w ended submitted date s = do {
     before \<leftarrow> first_job_or_nullptr (e3_queue s);
     let s1 = fold handle_finished_job ended s;
     (recent, d, q) \<leftarrow> fold_run (queue_released w (e3_nb_machines s1) date) submitted ([], e3_decisions s1, e3_queue s1);
     let s2 = s1\<lparr>e3_decisions := d, e3_queue := q\<rparr>;
     (after, s3) \<leftarrow> e3_sort_queue_while_handling_priority_job lib date before s2;
     s4 \<leftarrow> (if ended = [] then e3_backfill_recent lib w date after recent s3
           else e3_traverse lib date after 0 (queued (e3_queue s3)) s3);
     e3_notify date s4 }"

end
