(* ===== verification/Easy_Bf3_Correct.thy ===== *)
theory Easy_Bf3_Correct
  imports Easy_Bf3
begin

text \<open>
  The correctness of \<^verbatim>\<open>EasyBackfilling3\<close>: its invariant, the refinement of the pool, the meaning of
  the shadow time, and what the backfilling does to the promise made to the priority job.
\<close>

subsection \<open>Invariant\<close>

definition held3 :: "scheduled_job list \<Rightarrow> allocations" where
  "held3 sjs = map_of (map (\<lambda>sj. (sc_id sj, sc_allocated sj)) sjs)"

abbreviation by_end :: "scheduled_job list \<Rightarrow> bool" where
  "by_end \<equiv> sorted_wrt (\<lambda>x y. est_finish_time x \<le> est_finish_time y)"

text \<open>The machines, the counter and the running jobs agree; the running jobs are sorted.\<close>

definition scheduled_ok :: "easy_bf3 \<Rightarrow> bool" where
  "scheduled_ok s \<longleftrightarrow> pool_ok (e3_nb_machines s) (e3_available s) (held3 (e3_scheduled s)) \<and>
     e3_nb_available s = int (card (e3_available s)) \<and> 0 \<le> e3_nb_machines s \<and>
     distinct (map sc_id (e3_scheduled s)) \<and> by_end (e3_scheduled s) \<and>
     (\<forall>sj \<in> set (e3_scheduled s). sc_requested sj = int (card (sc_allocated sj)))"

definition waits3 :: "workload \<Rightarrow> int \<Rightarrow> job \<Rightarrow> bool" where
  "waits3 w n j \<longleftrightarrow> w (jid j) = Some j \<and> 0 < nb_requested_resources j \<and> nb_requested_resources j \<le> n \<and> has_walltime j"

text \<open>The size recorded for the priority job is that of the job it names.\<close>

definition priority_fits :: "workload \<Rightarrow> priority_point \<Rightarrow> bool" where
  "priority_fits w p \<longleftrightarrow> (\<forall>j. w (pj_id p) = Some j \<longrightarrow> pj_requested p = nb_requested_resources j)"

definition e3_state :: "workload \<Rightarrow> easy_bf3 \<Rightarrow> bool" where
  "e3_state w s \<longleftrightarrow> scheduled_ok s \<and> queue_fine (waits3 w (e3_nb_machines s)) (e3_queue s) \<and>
     jid ` set (queued (e3_queue s)) \<inter> sc_id ` set (e3_scheduled s) = {} \<and> priority_fits w (e3_priority s)"

text \<open>The first waiting job, if any, does not fit in the free machines.\<close>

definition blocked :: "easy_bf3 \<Rightarrow> bool" where
  "blocked s \<longleftrightarrow> (\<forall>j. head_of (queued (e3_queue s)) = Some j \<longrightarrow> e3_nb_available s < nb_requested_resources j)"

definition easy_bf3_ok :: "workload \<Rightarrow> easy_bf3 \<Rightarrow> bool" where
  "easy_bf3_ok w s \<longleftrightarrow> e3_state w s \<and> blocked s"

lemma dom_held3: "dom (held3 sjs) = sc_id ` set sjs"
  by (simp add: held3_def dom_map_of_conv_image_fst image_image)

lemma held3_at: "distinct (map sc_id sjs) \<Longrightarrow> sj \<in> set sjs \<Longrightarrow> held3 sjs (sc_id sj) = Some (sc_allocated sj)"
  unfolding held3_def by (rule map_of_is_SomeI) (auto simp: comp_def)

lemma held3_cong:
  assumes "distinct (map sc_id xs)" "mset ys = mset xs"
  shows "held3 ys = held3 xs" "distinct (map sc_id ys)" "set ys = set xs"
proof -
  show d: "distinct (map sc_id ys)" using assms by (metis mset_eq_imp_distinct_iff mset_map)
  show s: "set ys = set xs" using assms(2) by (rule mset_eq_setD)
  have "map_of (map (\<lambda>sj. (sc_id sj, sc_allocated sj)) ys) = map_of (map (\<lambda>sj. (sc_id sj, sc_allocated sj)) xs)"
    by (rule map_of_inject_set[THEN iffD2]) (use assms(1) d s in \<open>simp_all add: comp_def\<close>)
  then show "held3 ys = held3 xs" by (simp add: held3_def)
qed

lemma held3_append: "sc_id sj \<notin> sc_id ` set sjs \<Longrightarrow> held3 (sjs @ [sj]) = (held3 sjs)(sc_id sj \<mapsto> sc_allocated sj)"
proof -
  assume "sc_id sj \<notin> sc_id ` set sjs"
  then have "held3 sjs (sc_id sj) = None" by (simp add: dom_held3[symmetric] domIff)
  then show ?thesis by (auto simp: held3_def map_add_def fun_eq_iff split: option.splits)
qed

lemma held3_filter: "held3 (filter (\<lambda>sj. sc_id sj \<noteq> i) sjs) = (held3 sjs)(i := None)"
  by (induction sjs) (auto simp: held3_def fun_eq_iff)

subsection \<open>The start and the end of a job\<close>

text \<open>A job of the queue has been put in the schedule: the machines it got, and what is left.\<close>

definition put_in :: "workload \<Rightarrow> job \<Rightarrow> easy_bf3 \<Rightarrow> scheduled_job \<Rightarrow> easy_bf3 \<Rightarrow> bool" where
  "put_in w j s tmp s1 \<longleftrightarrow> scheduled_ok s1 \<and> priority_fits w (e3_priority s1) \<and>
     e3_queue s1 = e3_queue s \<and> e3_decisions s1 = e3_decisions s \<and> e3_nb_machines s1 = e3_nb_machines s \<and>
     held3 (e3_scheduled s1) = (held3 (e3_scheduled s))(jid j \<mapsto> sc_allocated tmp) \<and>
     sc_id ` set (e3_scheduled s1) = insert (jid j) (sc_id ` set (e3_scheduled s)) \<and>
     int (card (sc_allocated tmp)) = nb_requested_resources j \<and> e3_nb_available s1 \<le> e3_nb_available s"

lemma sort_scheduled_ok:
  assumes "distinct (map sc_id (e3_scheduled s))"
  shows "held3 (e3_scheduled (sort_scheduled s)) = held3 (e3_scheduled s)"
    "distinct (map sc_id (e3_scheduled (sort_scheduled s)))" "by_end (e3_scheduled (sort_scheduled s))"
    "set (e3_scheduled (sort_scheduled s)) = set (e3_scheduled s)"
  using held3_cong[OF assms sort_max_heap_ok(1)] sort_max_heap_ok(2) by (simp_all add: sort_scheduled_def)

context interval_set
begin

lemma handle_scheduled_job_ok:
  assumes s: "scheduled_ok s" "priority_fits w (e3_priority s)"
    and j: "0 \<le> nb_requested_resources j" "nb_requested_resources j \<le> e3_nb_available s"
    and i: "jid j \<notin> sc_id ` set (e3_scheduled s)" and h: "handle_scheduled_job lib j date s = (tmp, s1)"
  shows "put_in w j s tmp (sort_scheduled s1)"
proof -
  let ?U = "left_of lib (e3_available s) (nb_requested_resources j)" and ?s2 = "sort_scheduled s1"
  have S: "pool_ok (e3_nb_machines s) (e3_available s) (held3 (e3_scheduled s))"
    "e3_nb_available s = int (card (e3_available s))" "distinct (map sc_id (e3_scheduled s))"
    using s(1) by (simp_all add: scheduled_ok_def)
  have fin: "finite (e3_available s)" using pool_ok_subset(2)[OF S(1)] .
  have U: "?U \<subseteq> e3_available s" "int (card ?U) = nb_requested_resources j"
    using left_subset[OF fin] left_card[OF fin j(1)] j(2) S(2) by simp_all
  have tmp: "sc_id tmp = jid j" "sc_allocated tmp = ?U" "sc_requested tmp = nb_requested_resources j"
    and s1: "s1 = s\<lparr>e3_scheduled := e3_scheduled s @ [tmp], e3_available := e3_available s - ?U,
      e3_nb_available := e3_nb_available s - nb_requested_resources j\<rparr>"
    using h by (auto simp: handle_scheduled_job_def Let_def)
  have d1: "distinct (map sc_id (e3_scheduled s1))" using S(3) i tmp(1) by (simp add: s1)
  note so = sort_scheduled_ok[OF d1]
  have hs: "held3 (e3_scheduled s1) = (held3 (e3_scheduled s))(jid j \<mapsto> ?U)"
    using held3_append[of tmp "e3_scheduled s"] i tmp by (simp add: s1)
  have none: "held3 (e3_scheduled s) (jid j) = None" using i by (simp add: dom_held3[symmetric] domIff)
  have f: "e3_available ?s2 = e3_available s - ?U" "e3_nb_available ?s2 = e3_nb_available s - nb_requested_resources j"
    "e3_nb_machines ?s2 = e3_nb_machines s" "e3_queue ?s2 = e3_queue s" "e3_decisions ?s2 = e3_decisions s"
    "e3_priority ?s2 = e3_priority s"
    by (simp_all add: sort_scheduled_def s1)
  have "pool_ok (e3_nb_machines s) (e3_available s - ?U) (held3 (e3_scheduled s1))"
    unfolding hs by (rule pool_ok_start[OF S(1) U(1) none])
  moreover have "e3_nb_available s - nb_requested_resources j = int (card (e3_available s - ?U))"
    using card_Diff_subset_int[OF fin U(1)] U(2) S(2) by simp
  moreover have "sc_requested sj = int (card (sc_allocated sj))" if "sj \<in> set (e3_scheduled ?s2)" for sj
    using that s(1) tmp(2,3) U(2) unfolding so(4) by (auto simp: s1 scheduled_ok_def)
  ultimately have "scheduled_ok ?s2" using s(1) so(1-3) f by (simp add: scheduled_ok_def)
  moreover have "sc_id ` set (e3_scheduled ?s2) = insert (jid j) (sc_id ` set (e3_scheduled s))"
    unfolding so(4) by (simp add: s1 tmp(1))
  ultimately show ?thesis using f s(2) so(1) hs tmp(2) U(2) j(1) by (simp add: put_in_def)
qed

lemma check_next_job_ok:
  assumes s: "e3_state w s" and j: "waits3 w (e3_nb_machines s) j" "jid j \<notin> sc_id ` set (e3_scheduled s)"
    and c: "check_next_job lib date j s = (r, s1)"
  shows "case r of None \<Rightarrow> s1 = s | Some tmp \<Rightarrow> put_in w j s tmp s1"
proof -
  have S: "scheduled_ok s" "priority_fits w (e3_priority s)" using s by (simp_all add: e3_state_def)
  obtain tmp s2 where h: "handle_scheduled_job lib j date s = (tmp, s2)" by fastforce
  have p: "put_in w j s tmp (sort_scheduled s2)" if "nb_requested_resources j \<le> e3_nb_available s"
    by (rule handle_scheduled_job_ok[OF S _ that j(2) h]) (use j(1) in \<open>simp add: waits3_def\<close>)
  have q: "put_in w j s tmp (t\<lparr>e3_backfilled := b\<rparr>) = put_in w j s tmp t" for t b
    by (simp add: put_in_def scheduled_ok_def)
  show ?thesis using c p h by (auto simp: check_next_job_def Let_def q split: if_splits)
qed

lemma check_priority_job_ok:
  assumes s: "e3_state w s" and j: "waits3 w (e3_nb_machines s) j" "jid j \<notin> sc_id ` set (e3_scheduled s)"
    and c: "check_priority_job lib date j s = (r, s1)"
  shows "case r of None \<Rightarrow> e3_nb_available s < nb_requested_resources j \<and>
      (\<exists>p. priority_fits w p \<and> s1 = s\<lparr>e3_priority := p\<rparr>)
    | Some tmp \<Rightarrow> put_in w j s tmp s1"
proof -
  let ?p = "update_priority j (e3_priority s)"
  let ?s1 = "s\<lparr>e3_priority := ?p\<rparr>"
  have wj: "w (jid j) = Some j" using j(1) by (simp add: waits3_def)
  have S: "scheduled_ok ?s1" "priority_fits w (e3_priority s)" using s by (simp_all add: e3_state_def scheduled_ok_def)
  have p: "pj_id ?p = jid j" "pj_requested ?p = nb_requested_resources j"
    using S(2) wj by (auto simp: update_priority_def priority_fits_def)
  then have pf: "priority_fits w ?p" using wj by (simp add: priority_fits_def)
  obtain tmp s2 where h: "handle_scheduled_job lib j date ?s1 = (tmp, s2)" by fastforce
  have "put_in w j ?s1 tmp (sort_scheduled s2)" if "nb_requested_resources j \<le> e3_nb_available s"
    by (rule handle_scheduled_job_ok[OF S(1) _ _ _ _ h]) (use that j pf in \<open>simp_all add: waits3_def\<close>)
  then have q: "put_in w j s tmp (sort_scheduled s2)" if "nb_requested_resources j \<le> e3_nb_available s"
    using that by (simp add: put_in_def)
  have pf': "priority_fits w (?p\<lparr>pj_shadow := t, pj_finish := f, pj_extra := e\<rparr>)" for t f e
    using pf by (simp add: priority_fits_def)
  show ?thesis
  proof (cases "nb_requested_resources j \<le> e3_nb_available s")
    case True
    then show ?thesis using c q h p by (auto simp: check_priority_job_def Let_def)
  next
    case False
    then show ?thesis using c p pf pf'
      by (auto simp: check_priority_job_def Let_def split: option.splits prod.splits)
  qed
qed

end

text \<open>A finished job gives its machines back.\<close>

lemma handle_finished_job_ok:
  assumes "e3_state w s"
  shows "e3_state w (handle_finished_job i s) \<and>
    held3 (e3_scheduled (handle_finished_job i s)) = (held3 (e3_scheduled s))(i := None) \<and>
    e3_queue (handle_finished_job i s) = e3_queue s \<and> e3_decisions (handle_finished_job i s) = e3_decisions s \<and>
    e3_nb_machines (handle_finished_job i s) = e3_nb_machines s"
proof (cases "i \<in> sc_id ` set (e3_scheduled s)")
  case False
  then have "find_if (\<lambda>sj. sc_id sj = i) (e3_scheduled s) = length (e3_scheduled s)"
    by (auto simp: find_if_absent)
  moreover have "held3 (e3_scheduled s) i = None" using False by (simp add: dom_held3[symmetric] domIff)
  ultimately show ?thesis using assms by (simp add: handle_finished_job_def Let_def fun_upd_idem)
next
  case True
  let ?k = "find_if (\<lambda>sj. sc_id sj = i) (e3_scheduled s)" and ?sjs = "e3_scheduled s"
  have S: "pool_ok (e3_nb_machines s) (e3_available s) (held3 ?sjs)" "e3_nb_available s = int (card (e3_available s))"
    "distinct (map sc_id ?sjs)" "by_end ?sjs" "\<forall>sj \<in> set ?sjs. sc_requested sj = int (card (sc_allocated sj))"
    using assms by (simp_all add: e3_state_def scheduled_ok_def)
  have "?k \<noteq> length ?sjs" using True by (auto simp: find_if_absent)
  then have k: "?k < length ?sjs" using find_if_le[of "\<lambda>sj. sc_id sj = i" ?sjs] by simp
  then have ki: "sc_id (?sjs ! ?k) = i" "?sjs ! ?k \<in> set ?sjs" using find_if_spec[of "\<lambda>sj. sc_id sj = i" ?sjs] by simp_all
  define sj where "sj = ?sjs ! ?k"
  have sj: "sc_id sj = i" "sj \<in> set ?sjs" using ki by (simp_all add: sj_def)
  define s' where "s' = handle_finished_job i s"
  have s': "s' = s\<lparr>e3_available := e3_available s \<union> sc_allocated sj,
      e3_nb_available := e3_nb_available s + sc_requested sj, e3_scheduled := filter (\<lambda>sj. sc_id sj \<noteq> i) ?sjs\<rparr>"
    using k find_if_removed[OF S(3) k] by (simp add: s'_def handle_finished_job_def Let_def sj_def)
  have al: "alloc_of (held3 ?sjs) i = sc_allocated sj"
    using held3_at[OF S(3) sj(2)] sj(1) by (simp add: alloc_of_def)
  have "pool_ok (e3_nb_machines s) (e3_available s \<union> sc_allocated sj) ((held3 ?sjs)(i := None))"
    using pool_ok_end[OF S(1), of i] unfolding al .
  moreover have "int (card (e3_available s \<union> sc_allocated sj)) = e3_nb_available s + sc_requested sj"
    using card_alloc_of[OF S(1), of i] S(2,5) sj(2) unfolding al by simp
  ultimately have "scheduled_ok s'" using assms S(3-5)
    by (simp add: s' scheduled_ok_def held3_filter e3_state_def distinct_map_filter sorted_wrt_filter)
  then show ?thesis using assms unfolding s'_def[symmetric] by (auto simp: s' e3_state_def held3_filter)
qed

lemma finished_ok:
  "e3_state w s \<Longrightarrow> e3_state w (fold handle_finished_job ended s) \<and>
    held3 (e3_scheduled (fold handle_finished_job ended s)) = held3 (e3_scheduled s) |` (- set ended) \<and>
    e3_queue (fold handle_finished_job ended s) = e3_queue s \<and>
    e3_decisions (fold handle_finished_job ended s) = e3_decisions s \<and>
    e3_nb_machines (fold handle_finished_job ended s) = e3_nb_machines s"
proof (induction ended arbitrary: s)
  case (Cons i ended)
  note h = handle_finished_job_ok[OF Cons.prems, of i]
  show ?case using Cons.IH[of "handle_finished_job i s"] h by (simp add: restrict_map_def fun_eq_iff)
qed (simp add: restrict_map_def)

subsection \<open>Jobs that start\<close>

text \<open>
  What a part of a call does between two of its states: jobs of the queue are started, and the
  decisions, the queue and the machines held follow.
\<close>

definition starts3 :: "workload \<Rightarrow> time \<Rightarrow> event list \<Rightarrow> easy_bf3 \<Rightarrow> easy_bf3 \<Rightarrow> bool" where
  "starts3 w date es s s' \<longleftrightarrow> e3_state w s' \<and> e3_nb_machines s' = e3_nb_machines s \<and>
     decided date es (e3_decisions s) (e3_decisions s') \<and> rejected es = [] \<and>
     distinct (map fst (executed es)) \<and> asked_by (queued (e3_queue s)) (executed es) \<and>
     held3 (e3_scheduled s') = grant (executed es) (held3 (e3_scheduled s)) \<and>
     queued (e3_queue s') = not_in (started_ids es) (queued (e3_queue s)) \<and>
     e3_nb_available s' \<le> e3_nb_available s"

lemma starts3_refl: "e3_state w s \<Longrightarrow> starts3 w date [] s s"
  by (simp add: starts3_def asked_by_def)

lemma starts3_trans:
  assumes "starts3 w date es s s1" "starts3 w date fs s1 s2"
  shows "starts3 w date (es @ fs) s s2"
proof -
  note A = assms[unfolded starts3_def]
  have q: "queued (e3_queue s1) = not_in (started_ids es) (queued (e3_queue s))" using A(1) by blast
  have "fst ` set (executed fs) \<subseteq> jid ` set (queued (e3_queue s1))" using A(2) by (intro asked_ids) blast
  then have "i \<notin> started_ids es" if "i \<in> fst ` set (executed fs)" for i using that unfolding q by auto
  then have dis: "fst ` set (executed es) \<inter> fst ` set (executed fs) = {}" unfolding started_ids_def by blast
  have "asked_by (queued (e3_queue s)) (executed fs)"
    using A(2) unfolding q asked_by_def by fastforce
  then have "asked_by (queued (e3_queue s)) (executed (es @ fs))" using A(1) by (auto simp: asked_by_def)
  moreover have "decided date (es @ fs) (e3_decisions s) (e3_decisions s2)"
    by (rule decided_trans) (use A in blast)+
  moreover have "distinct (map fst (executed (es @ fs)))" using A dis by simp
  moreover have "queued (e3_queue s2) = not_in (started_ids (es @ fs)) (queued (e3_queue s))"
    using A by (simp add: not_in_not_in)
  ultimately show ?thesis using A unfolding starts3_def by (simp add: grant_append)
qed

lemma starts3_last_date:
  "starts3 w date es s s' \<Longrightarrow> last_date (writer (e3_decisions s)) \<le> date \<Longrightarrow> last_date (writer (e3_decisions s')) \<le> date"
  unfolding starts3_def using decided_last_date by blast

text \<open>The job just put in the schedule is executed and leaves the queue.\<close>

lemma start_one:
  assumes s: "e3_state w s" and p: "put_in w j s tmp s1" and j: "j \<in> set (queued (e3_queue s))"
    and d: "decided date [ExecuteJob (jid j) (sc_allocated tmp) []] (e3_decisions s) d"
    and q: "queued q = not_in {jid j} (queued (e3_queue s))" "queue_fine (waits3 w (e3_nb_machines s)) q"
  shows "starts3 w date [ExecuteJob (jid j) (sc_allocated tmp) []] s (s1\<lparr>e3_decisions := d, e3_queue := q\<rparr>)"
proof -
  have st: "e3_state w (s1\<lparr>e3_decisions := d, e3_queue := q\<rparr>)"
    using s p q unfolding e3_state_def put_in_def scheduled_ok_def by auto
  show ?thesis
    using st p d q(1) j unfolding starts3_def put_in_def asked_by_def
    by (auto simp: started_ids_def)
qed

lemma execute_and_dequeue:
  assumes s: "e3_state w s" and p: "put_in w j s tmp s1" and j: "j \<in> set (queued (e3_queue s))"
    and ld: "last_date (writer (e3_decisions s)) \<le> date"
  obtains s2 s3 where "e3_execute date j tmp s1 = Some s2" "e3_dequeue j s2 = Some s3"
    "starts3 w date [ExecuteJob (jid j) (sc_allocated tmp) []] s s3"
proof -
  have P: "e3_decisions s1 = e3_decisions s" "e3_queue s1 = e3_queue s" using p by (simp_all add: put_in_def)
  obtain d where d: "add_execute_job (jid j) (sc_allocated tmp) date [] (e3_decisions s) = Some d"
    "decided date [ExecuteJob (jid j) (sc_allocated tmp) []] (e3_decisions s) d"
    using decided_one[OF ld] by (auto simp: decision_simps)
  have qf: "queue_fine (waits3 w (e3_nb_machines s)) (e3_queue s)" using s by (simp add: e3_state_def)
  obtain i q where q: "queue_remove_job j (e3_queue s) = Some (i, q)" "queued q = not_in {jid j} (queued (e3_queue s))"
    "queue_fine (waits3 w (e3_nb_machines s)) q" by (rule queue_remove_ok[OF qf j])
  show thesis
    by (rule that[of "s1\<lparr>e3_decisions := d\<rparr>" "s1\<lparr>e3_decisions := d, e3_queue := q\<rparr>"])
      (use d(1) q(1) P start_one[OF s p j d(2) q(2,3)] in \<open>simp_all add: e3_execute_def e3_dequeue_def\<close>)
qed

lemma execute_and_dequeue_at:
  assumes s: "e3_state w s" and p: "put_in w j s tmp s1"
    and i: "queued (e3_queue s) = kept @ j # js" "i = length kept"
    and ld: "last_date (writer (e3_decisions s)) \<le> date"
  obtains s2 s3 where "e3_execute date j tmp s1 = Some s2" "e3_dequeue_at i s2 = Some s3"
    "starts3 w date [ExecuteJob (jid j) (sc_allocated tmp) []] s s3" "queued (e3_queue s3) = kept @ js"
proof -
  have P: "e3_decisions s1 = e3_decisions s" "e3_queue s1 = e3_queue s" using p by (simp_all add: put_in_def)
  obtain d where d: "add_execute_job (jid j) (sc_allocated tmp) date [] (e3_decisions s) = Some d"
    "decided date [ExecuteJob (jid j) (sc_allocated tmp) []] (e3_decisions s) d"
    using decided_one[OF ld] by (auto simp: decision_simps)
  have qf: "queue_fine (waits3 w (e3_nb_machines s)) (e3_queue s)" using s by (simp add: e3_state_def)
  obtain q where q: "remove_job_at i (e3_queue s) = Some (i, q)" "queued q = kept @ js"
    "queue_fine (waits3 w (e3_nb_machines s)) q" by (rule remove_at_ok[OF qf i])
  have "distinct (map jid (queued (e3_queue s)))" using qf by (simp add: queue_fine_def)
  then have "not_in {jid j} (queued (e3_queue s)) = kept @ js"
    using not_in_all[of "{jid j}" kept] not_in_all[of "{jid j}" js] unfolding i(1) by auto
  then have qn: "queued q = not_in {jid j} (queued (e3_queue s))" using q(2) by simp
  have j: "j \<in> set (queued (e3_queue s))" using i(1) by simp
  show thesis
    by (rule that[of "s1\<lparr>e3_decisions := d\<rparr>" "s1\<lparr>e3_decisions := d, e3_queue := q\<rparr>"])
      (use d(1) q(1,2) P start_one[OF s p j d(2) qn q(3)] in \<open>simp_all add: e3_execute_def e3_dequeue_at_def\<close>)
qed

lemma waiting_facts:
  assumes "e3_state w s" "j \<in> set (queued (e3_queue s))"
  shows "waits3 w (e3_nb_machines s) j" "jid j \<notin> sc_id ` set (e3_scheduled s)" "0 < nb_requested_resources j"
  using assms by (auto simp: e3_state_def queue_fine_def waits3_def)

lemma e3_state_priority: "priority_fits w p \<Longrightarrow> e3_state w s \<Longrightarrow> starts3 w date [] s (s\<lparr>e3_priority := p\<rparr>)"
  by (simp add: starts3_def e3_state_def scheduled_ok_def asked_by_def)

subsection \<open>The loops\<close>

text \<open>
  The inputs of a call: known jobs, distinct and new, each refused or of a positive size, with a
  submission time.  A job that ended need not be known.
\<close>

definition easy_bf3_input :: "workload \<Rightarrow> job_id list \<Rightarrow> easy_bf3 \<Rightarrow> bool" where
  "easy_bf3_input w submitted s \<longleftrightarrow> (\<forall>i j. w i = Some j \<longrightarrow> jid j = i) \<and> distinct submitted \<and>
     (\<forall>i \<in> set submitted. i \<notin> sc_id ` set (e3_scheduled s) \<and> i \<notin> jid ` set (queued (e3_queue s)) \<and>
        (\<exists>j. w i = Some j \<and> (refused w (e3_nb_machines s) i \<or>
           waits3 w (e3_nb_machines s) j \<and> submission_times j \<noteq> [])))"

context interval_set
begin

lemma start_priority3_ok:
  "e3_state w s \<Longrightarrow> last_date (writer (e3_decisions s)) \<le> date \<Longrightarrow> queued (e3_queue s) = js \<Longrightarrow>
     \<exists>s' es. e3_start_priority lib date (head_of js) s = Some (head_of (queued (e3_queue s')), s') \<and>
       starts3 w date es s s' \<and> blocked s'"
proof (induction js arbitrary: s)
  case Nil
  then show ?case by (intro exI[of _ s] exI[of _ "[]"]) (simp add: starts3_refl blocked_def head_of_def)
next
  case (Cons j js)
  note 2 = Cons.IH Cons.prems
  have hd: "j \<in> set (queued (e3_queue s))" using 2(4) by simp
  obtain r s1 where c: "check_priority_job lib date j s = (r, s1)" by fastforce
  note k = check_priority_job_ok[OF 2(2) waiting_facts(1,2)[OF 2(2) hd] c]
  show ?case
  proof (cases r)
    case None
    then obtain p where p: "e3_nb_available s < nb_requested_resources j" "priority_fits w p" "s1 = s\<lparr>e3_priority := p\<rparr>"
      using k by auto
    have "starts3 w date [] s s1" unfolding p(3) by (rule e3_state_priority[OF p(2) 2(2)])
    moreover have "blocked s1" using p(1) 2(4) by (simp add: blocked_def p(3) head_of_def)
    ultimately show ?thesis using c None p(3) 2(4) by (intro exI[of _ s1] exI[of _ "[]"]) (simp add: head_of_def)
  next
    case (Some tmp)
    then have p: "put_in w j s tmp s1" using k by simp
    obtain s2 s3 where e: "e3_execute date j tmp s1 = Some s2" "e3_dequeue j s2 = Some s3"
      "starts3 w date [ExecuteJob (jid j) (sc_allocated tmp) []] s s3"
      by (rule execute_and_dequeue[OF 2(2) p hd 2(3)])
    have st: "e3_state w s3" using e(3) by (simp add: starts3_def)
    have "distinct (map jid (j # js))" using 2(2) unfolding 2(4)[symmetric] by (simp add: e3_state_def queue_fine_def)
    then have "not_in {jid j} (j # js) = js" using not_in_all[of "{jid j}" js] by auto
    then have q3: "queued (e3_queue s3) = js" using e(3) 2(4) by (simp add: starts3_def started_ids_def)
    obtain s' es where r: "e3_start_priority lib date (head_of js) s3 = Some (head_of (queued (e3_queue s')), s')"
      "starts3 w date es s3 s'" "blocked s'"
      using 2(1)[OF st starts3_last_date[OF e(3) 2(3)] q3] by blast
    have "e3_start_priority lib date (head_of (j # js)) s = Some (head_of (queued (e3_queue s')), s')"
      using c Some e(1,2) r(1) q3 by (simp add: first_job_head head_of_def)
    then show ?thesis using starts3_trans[OF e(3) r(2)] r(3) by blast
  qed
qed

lemma sort_while3_ok:
  assumes st: "e3_state w s" and ld: "last_date (writer (e3_decisions s)) \<le> date"
  obtains q1 s' es where "sort_queue date (e3_queue s) = Some q1"
    "e3_sort_queue_while_handling_priority_job lib date before s = Some (head_of (queued (e3_queue s')), s')"
    "starts3 w date es (s\<lparr>e3_queue := q1\<rparr>) s'"
    "blocked s' \<or> same_job (head_of (queued q1)) before \<and> s' = s\<lparr>e3_queue := q1\<rparr>"
proof -
  have qf: "queue_fine (waits3 w (e3_nb_machines s)) (e3_queue s)" using st by (simp add: e3_state_def)
  obtain q1 where q1: "sort_queue date (e3_queue s) = Some q1" "queue_fine (waits3 w (e3_nb_machines s)) q1"
    "mset (queued q1) = mset (queued (e3_queue s))" by (rule sort_queue_ok[OF qf])
  let ?s1 = "s\<lparr>e3_queue := q1\<rparr>"
  have "set (queued q1) = set (queued (e3_queue s))" using q1(3) by (rule mset_eq_setD)
  then have st1: "e3_state w ?s1" using st q1(2) by (simp add: e3_state_def scheduled_ok_def)
  show thesis
  proof (cases "same_job (head_of (queued q1)) before")
    case True
    then show thesis
      using that[OF q1(1), of ?s1 "[]"] starts3_refl[OF st1] q1(1)
      by (simp add: e3_sort_queue_while_handling_priority_job_def first_job_head)
  next
    case False
    have "last_date (writer (e3_decisions ?s1)) \<le> date" using ld by simp
    from start_priority3_ok[OF st1 this]
    obtain s' es where "e3_start_priority lib date (head_of (queued q1)) ?s1 = Some (head_of (queued (e3_queue s')), s')"
      "starts3 w date es ?s1 s'" "blocked s'" by auto
    then show thesis
      using that[OF q1(1), of s' es] q1(1) False
      by (simp add: e3_sort_queue_while_handling_priority_job_def first_job_head)
  qed
qed

lemma starts3_blocked:
  assumes "starts3 w date es s s'" "blocked s" "\<And>p. head_of (queued (e3_queue s)) = Some p \<Longrightarrow> jid p \<notin> started_ids es"
  shows "blocked s' \<and> head_of (queued (e3_queue s')) = head_of (queued (e3_queue s))"
proof -
  have "queued (e3_queue s') = not_in (started_ids es) (queued (e3_queue s))" "e3_nb_available s' \<le> e3_nb_available s"
    using assms(1) by (simp_all add: starts3_def)
  then show ?thesis using assms(2,3)
    by (cases "queued (e3_queue s)") (auto simp: blocked_def head_of_def)
qed

lemma backfill_recent3_ok:
  assumes w: "\<And>i j. w i = Some j \<Longrightarrow> jid j = i"
  shows "e3_state w s \<Longrightarrow> blocked s \<Longrightarrow> after = head_of (queued (e3_queue s)) \<Longrightarrow> set ids \<subseteq> dom w \<Longrightarrow>
     last_date (writer (e3_decisions s)) \<le> date \<Longrightarrow>
     \<exists>s' es. e3_backfill_recent lib w date after ids s = Some s' \<and> starts3 w date es s s' \<and> blocked s'"
proof (induction ids arbitrary: s)
  case Nil
  then show ?case by (intro exI[of _ s] exI[of _ "[]"]) (simp add: starts3_refl)
next
  case (Cons i ids)
  obtain j where j: "w i = Some j" "jid j = i" using Cons.prems(4) w by auto
  have ids: "set ids \<subseteq> dom w" using Cons.prems(4) by simp
  note IH0 = Cons.IH[OF Cons.prems(1-3) ids Cons.prems(5)]
  show ?case
  proof (cases "0 < e3_nb_available s")
    case False
    then show ?thesis using Cons.prems by (intro exI[of _ s] exI[of _ "[]"]) (simp add: starts3_refl)
  next
    case av: True
    show ?thesis
    proof (cases "contains_job j (e3_queue s) \<and> \<not> same_job (Some j) after")
      case False
      then show ?thesis using IH0 av j(1) by auto
    next
      case True
      then have "jid j \<in> jid ` set (queued (e3_queue s))" by (simp add: contains_job_iff)
      then obtain j' where j': "j' \<in> set (queued (e3_queue s))" "jid j' = jid j" by (rule imageE) simp
      have "w (jid j') = Some j'" using waiting_facts(1)[OF Cons.prems(1) j'(1)] unfolding waits3_def by (rule conjunct1)
      then have "j' = j" unfolding j'(2) j(2) j(1) by simp
      then have jq: "j \<in> set (queued (e3_queue s))" using j'(1) by (simp only:)
      obtain r s1 where c: "check_next_job lib date j s = (r, s1)" by fastforce
      note k = check_next_job_ok[OF Cons.prems(1) waiting_facts(1,2)[OF Cons.prems(1) jq] c]
      show ?thesis
      proof (cases r)
        case None
        then show ?thesis using IH0 av True j(1) c k by auto
      next
        case (Some tmp)
        then have p: "put_in w j s tmp s1" using k by simp
        let ?e = "[ExecuteJob (jid j) (sc_allocated tmp) []]"
        obtain s2 s3 where e: "e3_execute date j tmp s1 = Some s2" "e3_dequeue j s2 = Some s3" "starts3 w date ?e s s3"
          by (rule execute_and_dequeue[OF Cons.prems(1) p jq Cons.prems(5)])
        have "jid p \<notin> started_ids ?e" if "head_of (queued (e3_queue s)) = Some p" for p
          using True Cons.prems(3) that by (auto simp: same_job_def started_ids_def)
        then have b: "blocked s3" "head_of (queued (e3_queue s3)) = head_of (queued (e3_queue s))"
          using starts3_blocked[OF e(3) Cons.prems(2)] by blast+
        have st: "e3_state w s3" using e(3) by (simp add: starts3_def)
        have a: "after = head_of (queued (e3_queue s3))" using Cons.prems(3) b(2) by simp
        obtain s' es where s': "e3_backfill_recent lib w date after ids s3 = Some s'" "starts3 w date es s3 s'" "blocked s'"
          using Cons.IH[OF st b(1) a ids starts3_last_date[OF e(3) Cons.prems(5)]] by blast
        have "e3_backfill_recent lib w date after (i # ids) s = Some s'" using av True j(1) c Some e(1,2) s'(1) by simp
        then show ?thesis using starts3_trans[OF e(3) s'(2)] s'(3) by blast
      qed
    qed
  qed
qed

lemma traverse3_ok:
  "e3_state w s \<Longrightarrow> queued (e3_queue s) = kept @ js \<Longrightarrow> i = length kept \<Longrightarrow> after = head_of (kept @ js) \<Longrightarrow>
     (kept \<noteq> [] \<longrightarrow> blocked s) \<Longrightarrow> last_date (writer (e3_decisions s)) \<le> date \<Longrightarrow>
     \<exists>s' es. e3_traverse lib date after i js s = Some s' \<and> starts3 w date es s s' \<and> blocked s'"
proof (induction js arbitrary: s kept i after)
  case Nil
  then have "blocked s" by (cases kept) (simp_all add: blocked_def head_of_def)
  then show ?case using Nil by (intro exI[of _ s] exI[of _ "[]"]) (simp add: starts3_refl)
next
  case (Cons j js)
  note st = Cons.prems(1) and q = Cons.prems(2) and bl = Cons.prems(5) and ld = Cons.prems(6)
  have jq: "j \<in> set (queued (e3_queue s))" using q by simp
  have dq: "distinct (map jid (kept @ j # js))" using st unfolding q[symmetric] by (simp add: e3_state_def queue_fine_def)
  note wf = waiting_facts[OF st jq]
  show ?case
  proof (cases "0 < e3_nb_available s")
    case False
    have "blocked s" unfolding blocked_def
    proof (intro allI impI)
      fix p assume "head_of (queued (e3_queue s)) = Some p"
      then have "p \<in> set (queued (e3_queue s))" by (cases "queued (e3_queue s)") (simp_all add: head_of_def)
      then show "e3_nb_available s < nb_requested_resources p" using waiting_facts(3)[OF st] False by fastforce
    qed
    then show ?thesis using st False by (intro exI[of _ s] exI[of _ "[]"]) (simp add: starts3_refl)
  next
    case av: True
    let ?same = "same_job (Some j) after"
    have same: "?same \<longleftrightarrow> kept = []"
      using dq unfolding Cons.prems(4) by (cases kept) (auto simp: same_job_def head_of_def)
    obtain r s1 where c: "(if ?same then check_priority_job lib date j s else check_next_job lib date j s) = (r, s1)" by fastforce
    have k: "case r of None \<Rightarrow> (\<exists>p. priority_fits w p \<and> s1 = s\<lparr>e3_priority := p\<rparr>) \<and>
          (kept = [] \<longrightarrow> e3_nb_available s < nb_requested_resources j)
        | Some tmp \<Rightarrow> put_in w j s tmp s1"
    proof (cases "kept = []")
      case True
      then show ?thesis using check_priority_job_ok[OF st wf(1,2), of date r s1] c same by (auto split: option.splits)
    next
      case False
      have "\<exists>p. priority_fits w p \<and> s = s\<lparr>e3_priority := p\<rparr>"
        using st by (intro exI[of _ "e3_priority s"]) (simp add: e3_state_def)
      then show ?thesis using check_next_job_ok[OF st wf(1,2), of date r s1] c same False by (auto split: option.splits)
    qed
    show ?thesis
    proof (cases r)
      case None
      then obtain p where p: "priority_fits w p" "s1 = s\<lparr>e3_priority := p\<rparr>" "kept = [] \<longrightarrow> e3_nb_available s < nb_requested_resources j"
        using k by auto
      have s1: "starts3 w date [] s s1" unfolding p(2) by (rule e3_state_priority[OF p(1) st])
      have b1: "blocked s1"
        using bl p(3) q by (cases kept) (auto simp: blocked_def p(2) head_of_def)
      have "\<exists>s' es. e3_traverse lib date after (Suc i) js s1 = Some s' \<and> starts3 w date es s1 s' \<and> blocked s'"
        by (rule Cons.IH[of s1 "kept @ [j]"]) (use s1 b1 q Cons.prems(3,4) ld in \<open>simp_all add: p(2) starts3_def\<close>)
      then obtain s' es where s': "e3_traverse lib date after (Suc i) js s1 = Some s'" "starts3 w date es s1 s'" "blocked s'" by blast
      have "e3_traverse lib date after i (j # js) s = Some s'" using av c None s'(1) by simp
      then show ?thesis using starts3_trans[OF s1 s'(2)] s'(3) by auto
    next
      case (Some tmp)
      then have p: "put_in w j s tmp s1" using k by simp
      let ?e = "[ExecuteJob (jid j) (sc_allocated tmp) []]"
      obtain s2 s3 where e: "e3_execute date j tmp s1 = Some s2" "e3_dequeue_at i s2 = Some s3"
        "starts3 w date ?e s s3" "queued (e3_queue s3) = kept @ js"
        by (rule execute_and_dequeue_at[OF st p q Cons.prems(3) ld])
      define after' where "after' = (if ?same then head_of (queued (e3_queue s3)) else after)"
      have a: "after' = head_of (kept @ js)"
        using same Cons.prems(4) e(4) by (cases kept) (simp_all add: after'_def head_of_def)
      have b3: "kept \<noteq> [] \<longrightarrow> blocked s3"
      proof
        assume ne: "kept \<noteq> []"
        then have "jid p \<notin> started_ids ?e" if "head_of (queued (e3_queue s)) = Some p" for p
          using that dq q by (cases kept) (auto simp: head_of_def started_ids_def)
        then show "blocked s3" using starts3_blocked[OF e(3)] bl ne by blast
      qed
      have st3: "e3_state w s3" using e(3) by (simp add: starts3_def)
      obtain s' es where s': "e3_traverse lib date after' i js s3 = Some s'" "starts3 w date es s3 s'" "blocked s'"
        using Cons.IH[OF st3 e(4) Cons.prems(3) a b3 starts3_last_date[OF e(3) ld]] by blast
      have "e3_traverse lib date after i (j # js) s = Some s'"
        using av c Some e(1,2) s'(1) by (simp add: after'_def first_job_head split: if_splits)
      then show ?thesis using starts3_trans[OF e(3) s'(2)] s'(3) by blast
    qed
  qed
qed

lemma call3:
  assumes ok: "easy_bf3_ok w s" and inp: "easy_bf3_input w submitted s" and ld: "last_date (writer (e3_decisions s)) \<le> date"
  obtains q1 s' es where "sort_queue date (enqueue w (e3_nb_machines s) date submitted (e3_queue s)) = Some q1"
    "easy_bf3_make_decisions lib w ended submitted date s = Some s'" "easy_bf3_ok w s'"
    "e3_nb_machines s' = e3_nb_machines s" "decided date es (e3_decisions s) (e3_decisions s')"
    "rejected es = filter (refused w (e3_nb_machines s)) submitted"
    "distinct (map fst (executed es))" "asked_by (queued q1) (executed es)"
    "held3 (e3_scheduled s') = grant (executed es) (held3 (e3_scheduled s) |` (- set ended))"
    "queued (e3_queue s') = not_in (started_ids es) (queued q1)"
proof -
  let ?n = "e3_nb_machines s" and ?q = "e3_queue s"
  define before where "before = head_of (queued ?q)"
  define s1 where "s1 = fold handle_finished_job ended s"
  define q0 where "q0 = enqueue w ?n date submitted ?q"
  have st: "e3_state w s" and bl: "blocked s" using ok by (simp_all add: easy_bf3_ok_def)
  have w: "\<And>i j. w i = Some j \<Longrightarrow> jid j = i" and ds: "distinct submitted"
    and new: "set submitted \<inter> sc_id ` set (e3_scheduled s) = {}" "set submitted \<inter> jid ` set (queued ?q) = {}"
    and sub: "\<forall>i \<in> set submitted. \<exists>j. w i = Some j \<and> (refused w ?n i \<or> waits3 w ?n j \<and> submission_times j \<noteq> [])"
    using inp unfolding easy_bf3_input_def by blast+
  have s1: "e3_state w s1" "held3 (e3_scheduled s1) = held3 (e3_scheduled s) |` (- set ended)" "e3_queue s1 = ?q"
    "e3_decisions s1 = e3_decisions s" "e3_nb_machines s1 = ?n"
    using finished_ok[OF st, of ended] unfolding s1_def by blast+
  have "sc_id ` set (e3_scheduled s1) \<subseteq> sc_id ` set (e3_scheduled s)"
    unfolding dom_held3[symmetric] s1(2) by simp
  then have new1: "set submitted \<inter> sc_id ` set (e3_scheduled s1) = {}" using new(1) by blast
  have "\<forall>i \<in> set submitted. \<exists>j. w i = Some j" using sub by blast
  then obtain recent d2 es2 where s2: "fold_run (queue_released w ?n date) submitted ([], e3_decisions s, ?q) =
      Some (recent, d2, q0)" "set recent \<subseteq> dom w"
    "decided date es2 (e3_decisions s) d2" "executed es2 = []" "rejected es2 = filter (refused w ?n) submitted"
    using released_ok[of submitted w "e3_decisions s" date "[]" ?n ?q] ld unfolding q0_def by auto
  have "\<forall>i \<in> set submitted. \<exists>j. w i = Some j \<and> jid j = i \<and> (refused w ?n i \<or> waits3 w ?n j \<and> submission_times j \<noteq> [])"
    using sub w by blast
  moreover have qf: "queue_fine (waits3 w ?n) ?q" using st by (simp add: e3_state_def)
  ultimately have q0: "queue_fine (waits3 w ?n) q0" "jid ` set (queued q0) \<subseteq> jid ` set (queued ?q) \<union> set submitted"
    using enqueue_ok[OF qf ds new(2)] unfolding q0_def by blast+
  define s2' where "s2' = s1\<lparr>e3_decisions := d2, e3_queue := q0\<rparr>"
  have "jid ` set (queued ?q) \<inter> sc_id ` set (e3_scheduled s1) = {}" using s1(1,3) by (simp add: e3_state_def)
  then have "jid ` set (queued q0) \<inter> sc_id ` set (e3_scheduled s1) = {}" using q0(2) new1 by blast
  then have st2: "e3_state w s2'" using s1(1,5) q0(1) by (simp add: s2'_def e3_state_def scheduled_ok_def)
  have ld2: "last_date (writer (e3_decisions s2')) \<le> date"
    using decided_last_date[OF s2(3) ld] by (simp add: s2'_def)
  obtain q1 s3 es3 where s3: "sort_queue date q0 = Some q1"
    "e3_sort_queue_while_handling_priority_job lib date before s2' = Some (head_of (queued (e3_queue s3)), s3)"
    "starts3 w date es3 (s2'\<lparr>e3_queue := q1\<rparr>) s3"
    "blocked s3 \<or> same_job (head_of (queued q1)) before \<and> s3 = s2'\<lparr>e3_queue := q1\<rparr>"
    using sort_while3_ok[OF st2 ld2, of before] by (auto simp: s2'_def)
  have st3: "e3_state w s3" using s3(3) by (simp add: starts3_def)
  have "last_date (writer (e3_decisions (s2'\<lparr>e3_queue := q1\<rparr>))) \<le> date" using ld2 by simp
  note ld3 = starts3_last_date[OF s3(3) this]
  let ?rest = "if ended = [] then e3_backfill_recent lib w date (head_of (queued (e3_queue s3))) recent s3
           else e3_traverse lib date (head_of (queued (e3_queue s3))) 0 (queued (e3_queue s3)) s3"
  have "\<exists>s4 es4. ?rest = Some s4 \<and> starts3 w date es4 s3 s4 \<and> blocked s4"
  proof (cases "ended = []")
    case True
    have "blocked s3"
    proof (rule disjE[OF s3(4)])
      assume h: "same_job (head_of (queued q1)) before \<and> s3 = s2'\<lparr>e3_queue := q1\<rparr>"
      have "s1 = s" unfolding s1_def True by simp
      then have av: "e3_nb_available s3 = e3_nb_available s" "e3_queue s3 = q1" using h by (simp_all add: s2'_def)
      have "e3_nb_available s < nb_requested_resources p" if p: "head_of (queued q1) = Some p" for p
      proof -
        obtain b where b: "before = Some b" "jid b = jid p" using h p by (cases before) (auto simp: same_job_def)
        have "p \<in> set (queued (e3_queue s3))" using p av(2) by (cases "queued q1") (simp_all add: head_of_def)
        then have "w (jid p) = Some p" using waiting_facts(1)[OF st3] by (simp add: waits3_def)
        moreover have "b \<in> set (queued ?q)" using b(1) unfolding before_def by (cases "queued ?q") (simp_all add: head_of_def)
        then have "w (jid b) = Some b" using waiting_facts(1)[OF st] by (simp add: waits3_def)
        ultimately have "p = b" using b(2) by (metis option.inject)
        then show ?thesis using bl b(1) unfolding before_def blocked_def by blast
      qed
      then show "blocked s3" unfolding blocked_def av by blast
    qed
    from backfill_recent3_ok[OF w st3 this HOL.refl s2(2) ld3] True show ?thesis by simp
  next
    case False
    have "\<exists>s4 es4. e3_traverse lib date (head_of (queued (e3_queue s3))) 0 (queued (e3_queue s3)) s3 = Some s4 \<and>
      starts3 w date es4 s3 s4 \<and> blocked s4"
      by (rule traverse3_ok[OF st3, of "[]"]) (use ld3 in simp_all)
    then show ?thesis using False by simp
  qed
  then obtain s4 es4 where s4: "?rest = Some s4" "starts3 w date es4 s3 s4" "blocked s4" by blast
  let ?e = "[GenericNotification ''queue_size'' (show_int (nb_jobs (e3_queue s4))),
     GenericNotification ''schedule_size'' (show_int (int (length (e3_scheduled s4))))]"
  obtain d5 where d5: "e3_notify date s4 = Some (s4\<lparr>e3_decisions := d5\<rparr>)" "decided date ?e (e3_decisions s4) d5"
    using starts3_last_date[OF s4(2) ld3]
    by (auto simp: e3_notify_def decision_simps on_writer_def append_event_def decided_def)
  let ?es = "es2 @ (es3 @ es4) @ ?e" and ?s' = "s4\<lparr>e3_decisions := d5\<rparr>"
  have run: "easy_bf3_make_decisions lib w ended submitted date s = Some ?s'"
    unfolding easy_bf3_make_decisions_def first_job_head before_def[symmetric] s1_def[symmetric]
    using s2(1) s3(2) s4(1) d5(1) by (simp add: s2'_def s1(3-5))
  note A = starts3_trans[OF s3(3) s4(2), unfolded starts3_def]
  have "decided date (es3 @ es4) d2 (e3_decisions s4)" using A by (simp add: s2'_def)
  from decided_trans[OF s2(3) decided_trans[OF this d5(2)]]
  have dec: "decided date ?es (e3_decisions s) (e3_decisions ?s')" by simp
  have ex: "executed ?es = executed (es3 @ es4)" "rejected ?es = filter (refused w ?n) submitted"
    using s2(4,5) A by simp_all
  have sid: "started_ids ?es = started_ids (es3 @ es4)" unfolding started_ids_def ex ..
  have "e3_state w s4" using A by blast
  then have "e3_state w ?s'" by (simp add: e3_state_def scheduled_ok_def)
  then have ok': "easy_bf3_ok w ?s'" using s4(3) by (simp add: easy_bf3_ok_def blocked_def)
  show thesis
  proof (rule that[OF s3(1)[unfolded q0_def] run ok' _ dec ex(2)])
    show "e3_nb_machines ?s' = ?n" using A by (simp add: s2'_def s1(5))
    show "distinct (map fst (executed ?es))" "asked_by (queued q1) (executed ?es)" unfolding ex using A by simp_all
    show "held3 (e3_scheduled ?s') = grant (executed ?es) (held3 (e3_scheduled s) |` (- set ended))"
      unfolding ex using A by (simp add: s2'_def s1(2))
    show "queued (e3_queue ?s') = not_in (started_ids ?es) (queued q1)" unfolding sid using A by simp
  qed
qed

end

subsection \<open>The shadow time\<close>

text \<open>The machines of the running jobs whose walltime ends by a date.\<close>

definition freed_by :: "time \<Rightarrow> scheduled_job list \<Rightarrow> int" where
  "freed_by t sjs = (\<Sum>sj \<leftarrow> sjs. if est_finish_time sj \<le> t then sc_requested sj else 0)"

text \<open>
  The promise: at the shadow time the free machines and those freed by then are enough; the extra
  machines are not needed for it.
\<close>

definition promise3 :: "easy_bf3 \<Rightarrow> bool" where
  "promise3 s \<longleftrightarrow> pj_requested (e3_priority s) \<le> e3_nb_available s + freed_by (pj_shadow (e3_priority s)) (e3_scheduled s)"

definition extra_free :: "easy_bf3 \<Rightarrow> bool" where
  "extra_free s \<longleftrightarrow> pj_requested (e3_priority s) + pj_extra (e3_priority s) \<le>
     e3_nb_available s + freed_by (pj_shadow (e3_priority s)) (e3_scheduled s)"

lemma freed_by_simps [simp]:
  "freed_by t [] = 0"
  "freed_by t (sj # sjs) = (if est_finish_time sj \<le> t then sc_requested sj else 0) + freed_by t sjs"
  "freed_by t (xs @ ys) = freed_by t xs + freed_by t ys"
  by (simp_all add: freed_by_def)

lemma freed_by_mset: "mset ys = mset xs \<Longrightarrow> freed_by t ys = freed_by t xs"
proof -
  assume "mset ys = mset xs"
  then have "mset (map f ys) = mset (map f xs)" for f :: "scheduled_job \<Rightarrow> int" by simp
  then show ?thesis unfolding freed_by_def by (simp only: sum_mset_sum_list[symmetric])
qed

lemma freed_by_sorted [simp]: "freed_by t (e3_scheduled (sort_scheduled s)) = freed_by t (e3_scheduled s)"
  by (simp add: sort_scheduled_def freed_by_mset[OF sort_max_heap_ok(1)])

lemma freed_by_nonneg: "\<forall>sj \<in> set sjs. 0 \<le> sc_requested sj \<Longrightarrow> 0 \<le> freed_by t sjs"
  by (induction sjs) auto

lemma freed_by_none: "\<forall>sj \<in> set sjs. t < est_finish_time sj \<Longrightarrow> freed_by t sjs = 0"
  by (induction sjs) auto

text \<open>The free machines and those of the running jobs are the platform.\<close>

lemma total_machines:
  "pool_ok n F (held3 sjs) \<Longrightarrow> distinct (map sc_id sjs) \<Longrightarrow> \<forall>sj \<in> set sjs. sc_requested sj = int (card (sc_allocated sj)) \<Longrightarrow>
     0 \<le> n \<Longrightarrow> int (card F) + (\<Sum>sj \<leftarrow> sjs. sc_requested sj) = n"
proof (induction sjs arbitrary: F)
  case Nil
  have "m < nat n \<longleftrightarrow> m \<in> F" for m using pool_ok_partition[OF Nil.prems(1), of m] by (simp add: held3_def)
  then have "F = {0..<nat n}" by (auto simp only: set_eq_iff atLeastLessThan_iff zero_le)
  then show ?case using Nil.prems(4) by simp
next
  case (Cons sj sjs)
  have "held3 sjs (sc_id sj) = None" using Cons.prems(2) by (simp add: dom_held3[symmetric] domIff)
  then have h: "(held3 (sj # sjs))(sc_id sj := None) = held3 sjs" by (simp add: held3_def fun_upd_idem)
  have al: "alloc_of (held3 (sj # sjs)) (sc_id sj) = sc_allocated sj" by (simp add: alloc_of_def held3_def)
  have "pool_ok n (F \<union> sc_allocated sj) (held3 sjs)"
    using pool_ok_end[OF Cons.prems(1), of "sc_id sj"] unfolding h al .
  then have "int (card (F \<union> sc_allocated sj)) + (\<Sum>sj \<leftarrow> sjs. sc_requested sj) = n"
    by (rule Cons.IH) (use Cons.prems in simp_all)
  then show ?case using card_alloc_of[OF Cons.prems(1), of "sc_id sj"] Cons.prems(3) unfolding al by simp
qed

lemma shadow_exists: "req \<le> nb + (\<Sum>sj \<leftarrow> sjs. sc_requested sj) \<Longrightarrow> nb < req \<Longrightarrow> \<exists>t mc. shadow_of sjs nb req = Some (t, mc)"
  by (induction sjs nb req rule: shadow_of.induct) auto

lemma shadow_in: "shadow_of sjs nb req = Some (t, mc) \<Longrightarrow> \<exists>sj \<in> set sjs. est_finish_time sj = t"
  by (induction sjs nb req rule: shadow_of.induct) (auto split: if_splits)

lemma shadow_enough:
  "\<forall>sj \<in> set sjs. 0 \<le> sc_requested sj \<Longrightarrow> by_end sjs \<Longrightarrow> shadow_of sjs nb req = Some (t, mc) \<Longrightarrow>
     req \<le> mc \<and> mc \<le> nb + freed_by t sjs"
proof (induction sjs nb req rule: shadow_of.induct)
  case (2 sj sjs nb req)
  have nn: "0 \<le> freed_by t sjs" using 2(2) by (intro freed_by_nonneg) simp
  show ?case
  proof (cases "req \<le> nb + sc_requested sj")
    case True
    then show ?thesis using 2(4) nn by simp
  next
    case False
    then have e: "shadow_of sjs (nb + sc_requested sj) req = Some (t, mc)" using 2(4) by simp
    then have "est_finish_time sj \<le> t" using shadow_in[OF e] 2(3) by auto
    then show ?thesis using 2(1)[OF False _ _ e] 2(2,3) by simp
  qed
qed simp

lemma shadow_minimal:
  "\<forall>sj \<in> set sjs. 0 \<le> sc_requested sj \<Longrightarrow> by_end sjs \<Longrightarrow> nb < req \<Longrightarrow> shadow_of sjs nb req = Some (t, mc) \<Longrightarrow>
     t' < t \<Longrightarrow> nb + freed_by t' sjs < req"
proof (induction sjs nb req rule: shadow_of.induct)
  case (2 sj sjs nb req)
  show ?case
  proof (cases "req \<le> nb + sc_requested sj")
    case True
    then have t: "t = est_finish_time sj" using 2(5) by simp
    then have "freed_by t' sjs = 0" using 2(3,6) by (intro freed_by_none) auto
    then show ?thesis using 2(4,6) t by simp
  next
    case False
    then have "nb + sc_requested sj + freed_by t' sjs < req"
      using 2(1)[OF False] 2(2,3,5,6) by simp
    then show ?thesis using 2(2) by simp
  qed
qed simp

text \<open>What a backfilled job takes.\<close>

lemma check_next_job_takes:
  assumes "check_next_job lib date k s = (r, s')"
  shows "e3_priority s' = e3_priority s" "r = None \<Longrightarrow> s' = s"
    "r \<noteq> None \<Longrightarrow> e3_nb_available s' = e3_nb_available s - nb_requested_resources k"
    "r \<noteq> None \<Longrightarrow> freed_by t (e3_scheduled s') =
       freed_by t (e3_scheduled s) + (if date + walltime k \<le> t then nb_requested_resources k else 0)"
    "r \<noteq> None \<longleftrightarrow> (if date + walltime k \<le> pj_shadow (e3_priority s) then nb_requested_resources k \<le> e3_nb_available s
       else nb_requested_resources k \<le> min (e3_nb_available s) (pj_extra (e3_priority s)))"
proof -
  define c where "c \<longleftrightarrow> (if date + walltime k \<le> pj_shadow (e3_priority s) then nb_requested_resources k \<le> e3_nb_available s
       else nb_requested_resources k \<le> min (e3_nb_available s) (pj_extra (e3_priority s)))"
  obtain tmp s1 where h: "handle_scheduled_job lib k date s = (tmp, s1)" by fastforce
  have s1: "e3_scheduled s1 = e3_scheduled s @ [tmp]" "e3_priority s1 = e3_priority s"
    "e3_nb_available s1 = e3_nb_available s - nb_requested_resources k"
    and tmp: "est_finish_time tmp = date + walltime k" "sc_requested tmp = nb_requested_resources k"
    using h by (auto simp: handle_scheduled_job_def Let_def)
  have so: "e3_priority (sort_scheduled s1) = e3_priority s1" "e3_nb_available (sort_scheduled s1) = e3_nb_available s1"
    by (simp_all add: sort_scheduled_def)
  have "check_next_job lib date k s = (if c then (Some tmp, sort_scheduled s1\<lparr>e3_backfilled := e3_backfilled (sort_scheduled s1) + 1\<rparr>)
      else (None, s))"
    unfolding check_next_job_def h c_def[symmetric] Let_def prod.case ..
  then have r: "r = (if c then Some tmp else None)"
    "s' = (if c then sort_scheduled s1\<lparr>e3_backfilled := e3_backfilled (sort_scheduled s1) + 1\<rparr> else s)"
    using assms by (cases c; simp)+
  show "r \<noteq> None \<longleftrightarrow> (if date + walltime k \<le> pj_shadow (e3_priority s) then nb_requested_resources k \<le> e3_nb_available s
       else nb_requested_resources k \<le> min (e3_nb_available s) (pj_extra (e3_priority s)))"
    unfolding c_def[symmetric] r(1) by simp
  show "e3_priority s' = e3_priority s" "r = None \<Longrightarrow> s' = s"
    "r \<noteq> None \<Longrightarrow> e3_nb_available s' = e3_nb_available s - nb_requested_resources k"
    "r \<noteq> None \<Longrightarrow> freed_by t (e3_scheduled s') =
       freed_by t (e3_scheduled s) + (if date + walltime k \<le> t then nb_requested_resources k else 0)"
    unfolding r using so s1 tmp by (cases c; simp)+
qed

text \<open>One backfilled job keeps the promise, when the extra machines are really free.\<close>

lemma one_backfill_keeps_promise:
  assumes "promise3 s" "extra_free s" "check_next_job lib date k s = (r, s')"
  shows "promise3 s'"
proof (cases "r = None")
  case True
  then show ?thesis using assms check_next_job_takes(2) by metis
next
  case False
  note k = check_next_job_takes[OF assms(3)]
  show ?thesis
    using assms(1,2) k(1) k(3)[OF False] k(4)[OF False, of "pj_shadow (e3_priority s)"] k(5) False
    unfolding promise3_def extra_free_def by (simp split: if_splits)
qed

text \<open>The check of a priority job that does not fit.\<close>

lemma check_priority_shadow:
  assumes s: "e3_state w s" and j: "j \<in> set (queued (e3_queue s))" "e3_nb_available s < nb_requested_resources j"
  obtains t e where "check_priority_job lib date j s = (None, s\<lparr>e3_priority :=
      \<lparr>pj_id = jid j, pj_requested = nb_requested_resources j, pj_extra = e, pj_shadow = t, pj_finish = t + walltime j\<rparr>\<rparr>)"
    "0 \<le> e" "nb_requested_resources j + e \<le> e3_nb_available s + freed_by t (e3_scheduled s)"
    "\<And>t'. t' < t \<Longrightarrow> e3_nb_available s + freed_by t' (e3_scheduled s) < nb_requested_resources j"
proof -
  let ?p = "update_priority j (e3_priority s)" and ?r = "nb_requested_resources j" and ?sjs = "e3_scheduled s"
  have wj: "w (jid j) = Some j" "?r \<le> e3_nb_machines s" using waiting_facts(1)[OF s j(1)] by (simp_all add: waits3_def)
  have p: "pj_id ?p = jid j" "pj_requested ?p = ?r"
    using s wj(1) by (auto simp: update_priority_def e3_state_def priority_fits_def)
  have S: "pool_ok (e3_nb_machines s) (e3_available s) (held3 ?sjs)" "e3_nb_available s = int (card (e3_available s))"
    "distinct (map sc_id ?sjs)" "by_end ?sjs" "\<forall>sj \<in> set ?sjs. sc_requested sj = int (card (sc_allocated sj))" "0 \<le> e3_nb_machines s"
    using s by (simp_all add: e3_state_def scheduled_ok_def)
  have nn: "\<forall>sj \<in> set ?sjs. 0 \<le> sc_requested sj" using S(5) by simp
  have "?r \<le> e3_nb_available s + (\<Sum>sj \<leftarrow> ?sjs. sc_requested sj)"
    using total_machines[OF S(1,3,5,6)] S(2) wj(2) by simp
  then obtain t mc where sh: "shadow_of ?sjs (e3_nb_available s) ?r = Some (t, mc)"
    using shadow_exists[OF _ j(2)] by blast
  have "check_priority_job lib date j s = (None, s\<lparr>e3_priority :=
      \<lparr>pj_id = jid j, pj_requested = ?r, pj_extra = mc - ?r, pj_shadow = t, pj_finish = t + walltime j\<rparr>\<rparr>)"
    using j(2) sh p by (cases ?p) (simp add: check_priority_job_def Let_def)
  then show thesis
    by (rule that) (use shadow_enough[OF nn S(4) sh] shadow_minimal[OF nn S(4) j(2) sh] in simp_all)
qed

subsection \<open>Properties\<close>

text \<open>
  C12: one call of \<^verbatim>\<open>EasyBackfilling3::make_decisions\<close> never aborts and keeps its invariant: the running
  jobs hold disjoint machines, are sorted by expected end, and the first waiting job does not fit
  in the free machines.  The rejected jobs are the released ones that are too large or have no
  walltime; the jobs that ended give their machines back; each started job was waiting and gets
  as many machines as it asked for; the jobs left waiting are those not started, in the sorted order.
\<close>

theorem easy_bf3_decides:
  assumes "interval_set lib" "easy_bf3_ok w s" "easy_bf3_input w submitted s"
    and "last_date (writer (e3_decisions s)) \<le> date"
  shows "\<exists>q1 s' es. sort_queue date (enqueue w (e3_nb_machines s) date submitted (e3_queue s)) = Some q1 \<and>
    easy_bf3_make_decisions lib w ended submitted date s = Some s' \<and> easy_bf3_ok w s' \<and>
    decided date es (e3_decisions s) (e3_decisions s') \<and>
    rejected es = filter (refused w (e3_nb_machines s)) submitted \<and>
    distinct (map fst (executed es)) \<and> asked_by (queued q1) (executed es) \<and>
    held3 (e3_scheduled s') = grant (executed es) (held3 (e3_scheduled s) |` (- set ended)) \<and>
    pool_ok (e3_nb_machines s) (e3_available s') (held3 (e3_scheduled s')) \<and>
    queued (e3_queue s') = not_in (started_ids es) (queued q1)"
proof (rule interval_set.call3[OF assms, of ended], goal_cases)
  case (1 q1 s' es)
  have "pool_ok (e3_nb_machines s) (e3_available s') (held3 (e3_scheduled s'))"
    using 1(3,4) by (simp add: easy_bf3_ok_def e3_state_def scheduled_ok_def)
  then show ?case using 1 by (intro exI[of _ q1] exI[of _ s'] exI[of _ es]) simp
qed

text \<open>
  C13: the shadow time.  When the priority job does not fit, it is promised the earliest date at
  which the free machines and those of the jobs that end by then are enough, and one job that is
  backfilled after that, whichever it is, leaves the promise intact.
\<close>

theorem easy_bf3_promises:
  assumes "e3_state w s" "j \<in> set (queued (e3_queue s))" "e3_nb_available s < nb_requested_resources j"
  shows "\<exists>p s1. check_priority_job lib date j s = (None, s1) \<and> s1 = s\<lparr>e3_priority := p\<rparr> \<and>
    pj_id p = jid j \<and> pj_requested p = nb_requested_resources j \<and> promise3 s1 \<and>
    (\<forall>t < pj_shadow p. e3_nb_available s + freed_by t (e3_scheduled s) < nb_requested_resources j) \<and>
    (\<forall>k r s2. check_next_job lib date k s1 = (r, s2) \<longrightarrow> promise3 s2)"
proof (rule check_priority_shadow[OF assms, of lib date], goal_cases)
  case (1 t e)
  define s1 where "s1 = s\<lparr>e3_priority :=
      \<lparr>pj_id = jid j, pj_requested = nb_requested_resources j, pj_extra = e, pj_shadow = t, pj_finish = t + walltime j\<rparr>\<rparr>"
  have "promise3 s1" "extra_free s1" using 1(2,3) by (simp_all add: s1_def promise3_def extra_free_def)
  then show ?case using 1(1,4) one_backfill_keeps_promise[of s1] unfolding s1_def[symmetric]
    by (intro exI[of _ "e3_priority s1"] exI[of _ s1]) (auto simp: s1_def)
qed

text \<open>
  C14: two backfilled jobs can break the promise.  The extra machines are not counted down when a
  job takes some of them: two jobs that both end after the shadow time, each within the extra
  machines but not together, are both started, and then the machines free at the shadow time are
  too few for the priority job.
\<close>

theorem easy_bf3_overbooks:
  assumes "pj_shadow (e3_priority s) < date + walltime x" "pj_shadow (e3_priority s) < date + walltime y"
    and "nb_requested_resources x \<le> pj_extra (e3_priority s)" "nb_requested_resources y \<le> pj_extra (e3_priority s)"
    and "0 \<le> nb_requested_resources y" "nb_requested_resources x + nb_requested_resources y \<le> e3_nb_available s"
    and "e3_nb_available s + freed_by (pj_shadow (e3_priority s)) (e3_scheduled s) <
      pj_requested (e3_priority s) + nb_requested_resources x + nb_requested_resources y"
  shows "\<exists>tx s1 ty s2. check_next_job lib date x s = (Some tx, s1) \<and> check_next_job lib date y s1 = (Some ty, s2) \<and>
    e3_priority s2 = e3_priority s \<and> \<not> promise3 s2"
proof -
  obtain r s1 where x: "check_next_job lib date x s = (r, s1)" by fastforce
  note X = check_next_job_takes[OF x]
  have rx: "r \<noteq> None" using X(5) assms(1,3,5,6) by simp
  obtain r' s2 where y: "check_next_job lib date y s1 = (r', s2)" by fastforce
  note Y = check_next_job_takes[OF y]
  have ry: "r' \<noteq> None" using Y(5) X(1) X(3)[OF rx] assms(2,4,6) by simp
  have "\<not> promise3 s2"
    using X(1) X(3)[OF rx] X(4)[OF rx, of "pj_shadow (e3_priority s)"] Y(1) Y(3)[OF ry]
      Y(4)[OF ry, of "pj_shadow (e3_priority s)"] assms(1,2,7)
    by (simp add: promise3_def)
  then show ?thesis using x y rx ry X(1) Y(1) by auto
qed

subsection \<open>Examples\<close>

text \<open>
  Four machines: \<^verbatim>\<open>a\<close> runs on three of them until date 10, \<^verbatim>\<open>b\<close>, which asks for three, waits.  At
  date 4 \<^verbatim>\<open>a\<close> ends, \<^verbatim>\<open>c\<close> and \<^verbatim>\<open>d\<close> are released, and \<^verbatim>\<open>d\<close> is too large.
\<close>

definition plain_scheduled :: "job_id \<Rightarrow> int \<Rightarrow> time \<Rightarrow> machines \<Rightarrow> scheduled_job" where
  "plain_scheduled i k wt ms = \<lparr>sc_id = i, sc_requested = k, sc_wall_time = wt, sc_start_time = 0, sc_run_time = wt,
     est_finish_time = wt, sc_allocated = ms\<rparr>"

definition example3_workload :: workload where
  "example3_workload = [''a'' \<mapsto> plain_job ''a'' 3 10, ''b'' \<mapsto> plain_job ''b'' 3 10,
     ''c'' \<mapsto> plain_job ''c'' 1 10, ''d'' \<mapsto> plain_job ''d'' 9 10]"

definition example3 :: easy_bf3 where
  "example3 = \<lparr>e3_nb_machines = 4, e3_scheduled = [plain_scheduled ''a'' 3 10 {0, 1, 2}],
     e3_priority = \<lparr>pj_id = ''b'', pj_requested = 3, pj_extra = 1, pj_shadow = 10, pj_finish = 20\<rparr>,
     e3_available = {3}, e3_nb_available = 1, e3_backfilled = 0,
     e3_queue = append_job (plain_job ''b'' 3 10) 0 (new_queue FCFSOrder), e3_decisions = new_decisions\<rparr>"

lemma example3_ok:
  "easy_bf3_ok example3_workload example3" "easy_bf3_input example3_workload [''c'', ''d''] example3"
  "last_date (writer (e3_decisions example3)) \<le> 4"
proof -
  let ?w = example3_workload
  have f: "queued (e3_queue example3) = [plain_job ''b'' 3 10]" "e3_nb_machines example3 = 4"
    "q_order (e3_queue example3) = FCFSOrder" "sc_id ` set (e3_scheduled example3) = {''a''}"
    "e3_nb_available example3 = 1"
    by (simp_all add: example3_def new_queue_def append_job_def queued_def plain_scheduled_def)
  have w: "waits3 ?w 4 (plain_job ''b'' 3 10)" "waits3 ?w 4 (plain_job ''c'' 1 10)"
    by (simp_all add: waits3_def example3_workload_def)
  have qf: "queue_fine (waits3 ?w 4) (e3_queue example3)" unfolding queue_fine_def f using w by simp
  have h: "held3 (e3_scheduled example3) = [''a'' \<mapsto> {0, 1, 2}]"
    by (simp add: held3_def example3_def plain_scheduled_def)
  have "pool_ok 4 {3} [''a'' \<mapsto> {0, 1, 2}]" unfolding pool_ok_def by (auto split: if_splits)
  then have so: "scheduled_ok example3"
    unfolding scheduled_ok_def h by (simp add: example3_def plain_scheduled_def)
  have "priority_fits ?w (e3_priority example3)"
    by (simp add: priority_fits_def example3_def example3_workload_def)
  then have "e3_state ?w example3" using so qf by (simp add: e3_state_def f)
  moreover have "blocked example3" by (simp add: blocked_def f head_of_def)
  ultimately show "easy_bf3_ok ?w example3" by (simp add: easy_bf3_ok_def)
  show "last_date (writer (e3_decisions example3)) \<le> 4"
    by (simp add: example3_def new_decisions_def new_writer_def)
  have wf: "\<forall>i j. ?w i = Some j \<longrightarrow> jid j = i" by (auto simp: example3_workload_def split: if_splits)
  have "\<exists>j. ?w i = Some j \<and> (refused ?w 4 i \<or> waits3 ?w 4 j \<and> submission_times j \<noteq> [])"
    if "i \<in> set [''c'', ''d'']" for i
  proof -
    consider "i = ''c''" | "i = ''d''" using \<open>i \<in> set [''c'', ''d'']\<close> by auto
    then show ?thesis
    proof cases
      case 1
      have "?w i = Some (plain_job ''c'' 1 10)" unfolding 1 by (simp add: example3_workload_def)
      then show ?thesis using w(2) by (simp add: plain_job_def)
    next
      case 2
      then show ?thesis by (simp add: refused_def example3_workload_def)
    qed
  qed
  then show "easy_bf3_input ?w [''c'', ''d''] example3"
    unfolding easy_bf3_input_def f
  proof (intro conjI wf ballI)
    show "i \<notin> {''a''}" "i \<notin> jid ` set [plain_job ''b'' 3 10]" if "i \<in> set [''c'', ''d'']" for i
      using that by auto
  qed simp_all
qed

theorem easy_bf3_decides_witness:
  "\<exists>s' es. easy_bf3_make_decisions std_lib example3_workload [''a''] [''c'', ''d''] 4 example3 = Some s' \<and>
     easy_bf3_ok example3_workload s' \<and> rejected es = [''d''] \<and> decided 4 es (e3_decisions example3) (e3_decisions s')"
proof -
  have "filter (refused example3_workload (e3_nb_machines example3)) [''c'', ''d''] = [''d'']"
    by (simp add: refused_def example3_workload_def example3_def)
  then show ?thesis using easy_bf3_decides[OF std.interval_set_axioms example3_ok, of "[''a'']"] by metis
qed

theorem easy_bf3_promises_witness:
  "\<exists>s1. check_priority_job std_lib 4 (plain_job ''b'' 3 10) example3 = (None, s1) \<and> promise3 s1 \<and>
     pj_id (e3_priority s1) = ''b''"
proof -
  have "e3_state example3_workload example3" using example3_ok(1) by (simp add: easy_bf3_ok_def)
  moreover have "plain_job ''b'' 3 10 \<in> set (queued (e3_queue example3))" by (simp add: example3_def)
  moreover have "e3_nb_available example3 < nb_requested_resources (plain_job ''b'' 3 10)" by (simp add: example3_def)
  ultimately show ?thesis using easy_bf3_promises[of example3_workload example3 "plain_job ''b'' 3 10" std_lib 4]
    by auto
qed

text \<open>
  Ten machines: \<^verbatim>\<open>r\<close> runs on six of them until date 100, so that \<^verbatim>\<open>p\<close>, which asks for eight, is
  promised date 100 and leaves two extra machines.  Two jobs of two machines and of walltime 1000
  are both backfilled.
\<close>

definition overbooked :: easy_bf3 where
  "overbooked = \<lparr>e3_nb_machines = 10, e3_scheduled = [plain_scheduled ''r'' 6 100 {0..5}],
     e3_priority = \<lparr>pj_id = ''p'', pj_requested = 8, pj_extra = 2, pj_shadow = 100, pj_finish = 200\<rparr>,
     e3_available = {6..9}, e3_nb_available = 4, e3_backfilled = 0,
     e3_queue = append_job (plain_job ''p'' 8 100) 0 (new_queue FCFSOrder), e3_decisions = new_decisions\<rparr>"

theorem easy_bf3_overbooks_witness:
  "\<exists>tx s1 ty s2. check_next_job std_lib 0 (plain_job ''x'' 2 1000) overbooked = (Some tx, s1) \<and>
     check_next_job std_lib 0 (plain_job ''y'' 2 1000) s1 = (Some ty, s2) \<and>
     e3_priority s2 = e3_priority overbooked \<and> \<not> promise3 s2"
  by (rule easy_bf3_overbooks) (simp_all add: overbooked_def plain_scheduled_def)

end
