(* ===== verification/Sim_Reader.thy ===== *)
theory Sim_Reader
  imports Sim_Context Sched_Protocol
begin

text \<open>
  The simulator's reader of the scheduler's messages (\<^verbatim>\<open>JsonProtocolReader\<close> in
  \<^verbatim>\<open>protocol.cpp\<close> of batsim): one handler per type of event, which checks the event and sends a
  message to the server's mailbox at the event's date.  The parameter \<open>loaders\<close> holds what the
  handlers call outside: loading a job or a profile from its description (\<^verbatim>\<open>Job::from_json\<close>,
  \<^verbatim>\<open>Profile::from_json\<close>, modelled apart in \<open>Sim_Loading\<close> and \<open>Sim_Profiles\<close> on all the data of a
  profile, of which only a part is kept here), the text of a document, and the Redis storage.
\<close>

subsection \<open>Numerals and ordered maps\<close>

text \<open>
  \<^verbatim>\<open>std::stod\<close> on decimal numerals; hexadecimal numerals, infinities and rounding are left out.
\<close>

definition stod :: "string \<Rightarrow> rat run" where
  "stod s =
     (let s1 = dropWhile is_space s;
          neg = (s1 \<noteq> [] \<and> hd s1 = CHR ''-'');
          s2 = (if s1 \<noteq> [] \<and> (hd s1 = CHR ''-'' \<or> hd s1 = CHR ''+'') then tl s1 else s1);
          ip = takeWhile is_digit s2;
          s3 = dropWhile is_digit s2;
          dot = (s3 \<noteq> [] \<and> hd s3 = CHR ''.'');
          fp = (if dot then takeWhile is_digit (tl s3) else []);
          s4 = (if dot then dropWhile is_digit (tl s3) else s3);
          ex = (if s4 \<noteq> [] \<and> (hd s4 = CHR ''e'' \<or> hd s4 = CHR ''E'') then stoi (tl s4) else None);
          m = rat_of_nat (digits_value (ip @ fp)) / 10 ^ length fp;
          v = (case ex of None \<Rightarrow> m | Some e \<Rightarrow> if e < 0 then m / 10 ^ nat (- e) else m * 10 ^ nat e)
      in if ip = [] \<and> fp = [] then None else Some (if neg then - v else v))"

text \<open>\<^verbatim>\<open>m[k] = v\<close> on a \<^verbatim>\<open>std::map\<close>, as the list of its entries in increasing order.\<close>

fun ordered_put :: "'k::linorder \<Rightarrow> 'v \<Rightarrow> ('k \<times> 'v) list \<Rightarrow> ('k \<times> 'v) list" where
  "ordered_put k v [] = [(k, v)]"
| "ordered_put k v ((k', v') # m) =
     (if k < k' then (k, v) # (k', v') # m
      else if k = k' then (k, v) # m
      else (k', v') # ordered_put k v m)"

subsection \<open>Messages to the server\<close>

record scheduling_allocation =
  sa_job :: job_identifier
  sa_machine_ids :: machines
  sa_mapping :: "int list"
  sa_storage_mapping :: "(string \<times> int) list"
  sa_io_allocation :: machines
  sa_io_profile :: "sim_profile option"

record kill_message =
  km_simple_id :: string
  km_id :: job_identifier
  km_for_what :: int

datatype server_message =
    SCHED_TELL_ME_ENERGY
  | SCHED_REJECT_JOB job_identifier
  | SCHED_EXECUTE_JOB scheduling_allocation
  | SCHED_CALL_ME_LATER time int int
  | PSTATE_MODIFICATION machines int
  | SCHED_SET_JOB_METADATA job_identifier string
  | SCHED_CHANGE_JOB_STATE job_identifier string
  | TO_JOB_MSG job_identifier string
  | SCHED_KILL_JOB "kill_message list"
  | JOB_REGISTERED_BY_DP job_identifier string
  | PROFILE_REGISTERED_BY_DP string string string
  | END_DYNAMIC_REGISTER
  | CONTINUE_DYNAMIC_REGISTER
  | SCHED_READY

text \<open>
  The part of \<^verbatim>\<open>BatsimContext\<close> the reader uses, the simulated clock, and the messages sent to
  the server with their dates.
\<close>

record batsim_context =
  clock :: time
  ctx_workloads :: workloads
  redis_enabled :: bool
  registration_sched_enabled :: bool
  registration_sched_finished :: bool
  queue_size :: int
  schedule_size :: int
  ctx_nb_running_jobs :: int
  utilization :: rat
  utilization_no_resv :: rat
  batsched_PID :: int
  checkpoint_keep :: int
  nb_checkpoints :: int
  server_mailbox :: "(time \<times> server_message) list"

record loaders =
  load_job :: "string \<Rightarrow> sim_workload \<Rightarrow> sim_job run"
  load_profile :: "string \<Rightarrow> string \<Rightarrow> sim_profile run"
  document_text :: "json \<Rightarrow> string"
  redis_get :: "string \<Rightarrow> string run"

text \<open>\<^verbatim>\<open>send_message_at_time\<close> sleeps until the date when it is in the future.\<close>

definition send_message_at_time :: "time \<Rightarrow> server_message \<Rightarrow> batsim_context \<Rightarrow> batsim_context" where
  "send_message_at_time date msg c =
     (let now = (if clock c < date then date else clock c) in
      c\<lparr>clock := now, server_mailbox := server_mailbox c @ [(now, msg)]\<rparr>)"

subsection \<open>Handlers\<close>

definition handle_query :: "time \<Rightarrow> json \<Rightarrow> batsim_context \<Rightarrow> batsim_context run" where
  "handle_query timestamp d c = do {
     n \<leftarrow> member_count d;
     assertion (n = 1);
     requests \<leftarrow> member_at ''requests'' d;
     rs \<leftarrow> members requests;
     assertion (0 < length rs);
     fold_run (\<lambda>(key, v) c'. do {
       assertion (key \<in> {''consumed_energy''});
       ms \<leftarrow> members v;
       assertion (ms = []);
       Some (send_message_at_time timestamp SCHED_TELL_ME_ENERGY c') }) rs c }"

text \<open>An answer is checked and otherwise ignored.\<close>

definition handle_answer :: "time \<Rightarrow> json \<Rightarrow> batsim_context \<Rightarrow> batsim_context run" where
  "handle_answer timestamp d c = do {
     ms \<leftarrow> members d;
     assertion (0 < length ms);
     fold_run (\<lambda>(key, v) c'. do {
       assertion (key = ''estimate_waiting_time'');
       i \<leftarrow> string_member ''job_id'' v;
       t \<leftarrow> double_member ''estimated_waiting_time'' v;
       Some c' }) ms c }"

definition handle_reject_job :: "time \<Rightarrow> json \<Rightarrow> batsim_context \<Rightarrow> batsim_context run" where
  "handle_reject_job timestamp d c = do {
     n \<leftarrow> member_count d;
     assertion (n = 1);
     i \<leftarrow> string_member ''job_id'' d;
     ji \<leftarrow> job_identifier i;
     Some (send_message_at_time timestamp (SCHED_REJECT_JOB ji) c) }"

text \<open>An index of the mapping is an integer or the text of one.\<close>

fun read_index :: "json \<Rightarrow> int run" where
  "read_index (JInt n) = get_int (JInt n)"
| "read_index (JString s) = stoi s"
| "read_index _ = None"

fun check_mapping :: "int \<Rightarrow> int \<Rightarrow> (int \<times> int) list \<Rightarrow> int list run" where
  "check_mapping nb_inserted nb_allocated [] = Some []"
| "check_mapping nb_inserted nb_allocated ((k, r) # m) = do {
     assertion (k = nb_inserted);
     assertion (0 \<le> r \<and> r < nb_allocated);
     rs \<leftarrow> check_mapping (nb_inserted + 1) nb_allocated m;
     Some (r # rs) }"

definition read_mapping :: "int \<Rightarrow> json \<Rightarrow> int list run" where
  "read_mapping nb_allocated v = do {
     ms \<leftarrow> members v;
     assertion (0 < length ms);
     m \<leftarrow> fold_run (\<lambda>(key, value) m'. do {
         k \<leftarrow> stoi key; r \<leftarrow> read_index value; Some (ordered_put k r m') }) ms [];
     check_mapping 0 nb_allocated m }"

definition read_storage_mapping :: "json \<Rightarrow> (string \<times> int) list run" where
  "read_storage_mapping v = do {
     ms \<leftarrow> members v;
     assertion (0 < length ms);
     fold_run (\<lambda>(key, value) m'. do { r \<leftarrow> get_int value; Some (ordered_put key r m') }) ms [] }"

text \<open>The additional I/O job may register a profile in the workload of the job.\<close>

definition read_io_job ::
  "loaders \<Rightarrow> hyphen_format \<Rightarrow> job_identifier \<Rightarrow> json \<Rightarrow> sim_workload \<Rightarrow>
   (sim_workload \<times> sim_profile \<times> machines) run" where
  "read_io_job ld fmt ji io w = do {
     p \<leftarrow> string_member ''profile_name'' io;
     given \<leftarrow> has_member ''profile'' io;
     w1 \<leftarrow> (if given then do {
              assertion (\<not> profiles_exists p w);
              po \<leftarrow> member_at ''profile'' io;
              assertion (is_object po);
              pr \<leftarrow> load_profile ld p (document_text ld po);
              profiles_add p pr w }
            else Some w);
     assertion (profiles_exists p w1);
     pr \<leftarrow> profiles_at p w1;
     (if pf_type pr = SEQUENCE then do {
        j \<leftarrow> jobs_at ji w1;
        assertion (pf_type (sj_profile j) = SEQUENCE);
        assertion (length (pf_sequence (sj_profile j)) = length (pf_sequence pr)) }
      else Some ());
     a \<leftarrow> string_member ''alloc'' io;
     U \<leftarrow> from_hyphen fmt a;
     Some (w1, pr, U) }"

definition handle_execute_job ::
  "loaders \<Rightarrow> hyphen_format \<Rightarrow> time \<Rightarrow> json \<Rightarrow> batsim_context \<Rightarrow> batsim_context run" where
  "handle_execute_job ld fmt timestamp d c = do {
     n \<leftarrow> member_count d;
     assertion (n = 2 \<or> n = 3);
     i \<leftarrow> string_member ''job_id'' d;
     ji \<leftarrow> job_identifier i;
     j \<leftarrow> job_at ji (ctx_workloads c);
     a \<leftarrow> string_member ''alloc'' d;
     U \<leftarrow> from_hyphen fmt a;
     assertion (0 < int (card U));
     has_mapping \<leftarrow> has_member ''mapping'' d;
     mapping \<leftarrow> (if has_mapping then do { v \<leftarrow> member_at ''mapping'' d; read_mapping (int (card U)) v }
                else Some []);
     has_storage \<leftarrow> has_member ''storage_mapping'' d;
     storage \<leftarrow> (if has_storage then do { v \<leftarrow> member_at ''storage_mapping'' d; read_storage_mapping v }
                else Some []);
     has_io \<leftarrow> has_member ''additional_io_job'' d;
     (c1, io_profile, io_alloc) \<leftarrow> (if has_io then do {
         io \<leftarrow> member_at ''additional_io_job'' d;
         w \<leftarrow> ctx_workloads c (workload_name ji);
         (w1, pr, V) \<leftarrow> read_io_job ld fmt ji io w;
         Some (c\<lparr>ctx_workloads := (ctx_workloads c)(workload_name ji \<mapsto> w1)\<rparr>, Some pr, V) }
       else Some (c, None, {}));
     Some (send_message_at_time timestamp (SCHED_EXECUTE_JOB
       \<lparr>sa_job = sj_id j, sa_machine_ids = U, sa_mapping = mapping, sa_storage_mapping = storage,
        sa_io_allocation = io_alloc, sa_io_profile = io_profile\<rparr>) c1) }"

text \<open>\<^verbatim>\<open>GetInt\<close> on the identifier fails when it is not an integer: the code checks
  \<^verbatim>\<open>forWhat\<close> a second time instead.\<close>

definition handle_call_me_later :: "time \<Rightarrow> json \<Rightarrow> batsim_context \<Rightarrow> batsim_context run" where
  "handle_call_me_later timestamp d c = do {
     n \<leftarrow> member_count d;
     assertion (n = 3);
     timestamp_value \<leftarrow> member_at ''timestamp'' d;
     id_value \<leftarrow> member_at ''id'' d;
     for_what_value \<leftarrow> member_at ''forWhat'' d;
     assertion (is_number timestamp_value);
     assertion (is_number for_what_value);
     target \<leftarrow> get_double timestamp_value;
     what \<leftarrow> get_int for_what_value;
     k \<leftarrow> get_int id_value;
     Some (send_message_at_time timestamp (SCHED_CALL_ME_LATER target k what) c) }"

text \<open>The new power state is converted to \<^verbatim>\<open>unsigned long\<close>.\<close>

definition handle_set_resource_state ::
  "hyphen_format \<Rightarrow> time \<Rightarrow> json \<Rightarrow> batsim_context \<Rightarrow> batsim_context run" where
  "handle_set_resource_state fmt timestamp d c = do {
     n \<leftarrow> member_count d;
     assertion (n = 2);
     r \<leftarrow> string_member ''resources'' d;
     U \<leftarrow> from_hyphen fmt r;
     assertion (0 < int (card U));
     s \<leftarrow> string_member ''state'' d;
     p \<leftarrow> stoi s;
     Some (send_message_at_time timestamp (PSTATE_MODIFICATION U (p mod 2 ^ 64)) c) }"

definition handle_set_job_metadata :: "time \<Rightarrow> json \<Rightarrow> batsim_context \<Rightarrow> batsim_context run" where
  "handle_set_job_metadata timestamp d c = do {
     n \<leftarrow> member_count d;
     assertion (n = 2);
     i \<leftarrow> string_member ''job_id'' d;
     metadata \<leftarrow> string_member ''metadata'' d;
     assertion (CHR 0x22 \<notin> set metadata);
     ji \<leftarrow> job_identifier i;
     Some (send_message_at_time timestamp (SCHED_SET_JOB_METADATA ji metadata) c) }"

definition handle_change_job_state :: "time \<Rightarrow> json \<Rightarrow> batsim_context \<Rightarrow> batsim_context run" where
  "handle_change_job_state timestamp d c = do {
     i \<leftarrow> string_member ''job_id'' d;
     st \<leftarrow> string_member ''job_state'' d;
     assertion (st \<in> {''NOT_SUBMITTED'', ''RUNNING'', ''COMPLETED_SUCCESSFULLY'',
       ''COMPLETED_WALLTIME_REACHED'', ''COMPLETED_KILLED'', ''REJECTED''});
     ji \<leftarrow> job_identifier i;
     Some (send_message_at_time timestamp (SCHED_CHANGE_JOB_STATE ji st) c) }"

text \<open>
  The files a checkpoint writes are left out; the kept folders are counted and the scheduler is
  called back at once.
\<close>

definition notify_checkpoint :: "time \<Rightarrow> batsim_context \<Rightarrow> batsim_context run" where
  "notify_checkpoint timestamp c = do {
     w0 \<leftarrow> ctx_workloads c ''w0'';
     let c1 = (if 1 < checkpoint_keep c then c\<lparr>nb_checkpoints := nb_checkpoints c + 1\<rparr> else c);
     Some (send_message_at_time timestamp (SCHED_CALL_ME_LATER (clock c) 1 5) c1) }"

definition notify_recover_from_checkpoint :: "time \<Rightarrow> batsim_context \<Rightarrow> batsim_context" where
  "notify_recover_from_checkpoint timestamp c =
     send_message_at_time timestamp (SCHED_CALL_ME_LATER (clock c) 1 6) c"

definition handle_notify :: "time \<Rightarrow> json \<Rightarrow> batsim_context \<Rightarrow> batsim_context run" where
  "handle_notify timestamp d c = do {
     typ \<leftarrow> string_member ''type'' d;
     (if typ = ''registration_finished'' then
        Some (send_message_at_time timestamp END_DYNAMIC_REGISTER c)
      else if typ = ''continue_registration'' then
        Some (send_message_at_time timestamp CONTINUE_DYNAMIC_REGISTER c)
      else if typ = ''queue_size'' then do {
        s \<leftarrow> string_member ''data'' d; n \<leftarrow> stoi s; Some (c\<lparr>queue_size := n\<rparr>) }
      else if typ = ''schedule_size'' then do {
        s \<leftarrow> string_member ''data'' d; n \<leftarrow> stoi s; Some (c\<lparr>schedule_size := n\<rparr>) }
      else if typ = ''number_running_jobs'' then do {
        s \<leftarrow> string_member ''data'' d; n \<leftarrow> stoi s; Some (c\<lparr>ctx_nb_running_jobs := n\<rparr>) }
      else if typ = ''utilization'' then do {
        s \<leftarrow> string_member ''data'' d; x \<leftarrow> stod s; Some (c\<lparr>utilization := x\<rparr>) }
      else if typ = ''utilization_no_resv'' then do {
        s \<leftarrow> string_member ''data'' d; x \<leftarrow> stod s; Some (c\<lparr>utilization_no_resv := x\<rparr>) }
      else if typ = ''PID'' then do {
        s \<leftarrow> string_member ''data'' d; n \<leftarrow> stoi s; Some (c\<lparr>batsched_PID := n\<rparr>) }
      else if typ = ''checkpoint'' then notify_checkpoint timestamp c
      else if typ = ''recover_from_checkpoint'' then Some (notify_recover_from_checkpoint timestamp c)
      else None) }"

definition handle_to_job_msg :: "time \<Rightarrow> json \<Rightarrow> batsim_context \<Rightarrow> batsim_context run" where
  "handle_to_job_msg timestamp d c = do {
     i \<leftarrow> string_member ''job_id'' d;
     msg \<leftarrow> string_member ''msg'' d;
     ji \<leftarrow> job_identifier i;
     Some (send_message_at_time timestamp (TO_JOB_MSG ji msg) c) }"

text \<open>
  A registered job is loaded and added to its workload before the server hears of it; the job's
  description comes from the event or from Redis.
\<close>

definition handle_register_job ::
  "loaders \<Rightarrow> time \<Rightarrow> json \<Rightarrow> batsim_context \<Rightarrow> batsim_context run" where
  "handle_register_job ld timestamp d c = do {
     assertion (registration_sched_enabled c);
     assertion (\<not> registration_sched_finished c);
     i \<leftarrow> string_member ''job_id'' d;
     ji \<leftarrow> job_identifier i;
     given \<leftarrow> has_member ''job'' d;
     txt \<leftarrow> (if given then do {
              assertion (\<not> redis_enabled c);
              jo \<leftarrow> member_at ''job'' d;
              assertion (is_object jo);
              Some (document_text ld jo) }
            else do {
              assertion (redis_enabled c);
              redis_get ld (''job_'' @ representation ji) });
     w \<leftarrow> ctx_workloads c (workload_name ji);
     registered \<leftarrow> job_is_registered ji (ctx_workloads c);
     assertion (\<not> registered);
     j \<leftarrow> load_job ld txt w;
     assertion (job_name (sj_id j) = job_name ji);
     assertion (workload_name (sj_id j) = workload_name ji);
     check_single_job_validity j w;
     w1 \<leftarrow> jobs_add_job (j\<lparr>sj_state := JOB_STATE_SUBMITTED\<rparr>) w;
     Some (send_message_at_time timestamp (JOB_REGISTERED_BY_DP (sj_id j) txt)
       (c\<lparr>ctx_workloads := (ctx_workloads c)(workload_name ji \<mapsto> w1)\<rparr>)) }"

definition handle_register_profile ::
  "loaders \<Rightarrow> time \<Rightarrow> json \<Rightarrow> batsim_context \<Rightarrow> batsim_context run" where
  "handle_register_profile ld timestamp d c = do {
     assertion (registration_sched_enabled c);
     assertion (\<not> registration_sched_finished c);
     wn \<leftarrow> string_member ''workload_name'' d;
     pn \<leftarrow> string_member ''profile_name'' d;
     po \<leftarrow> member_at ''profile'' d;
     assertion (is_object po);
     let txt = document_text ld po;
     ws \<leftarrow> (if ctx_workloads c wn \<noteq> None then Some (ctx_workloads c)
           else do { w \<leftarrow> new_dynamic_workload wn; insert_workload (sw_name w) w (ctx_workloads c) });
     w \<leftarrow> ws wn;
     assertion (\<not> profiles_exists pn w);
     pr \<leftarrow> load_profile ld pn txt;
     w1 \<leftarrow> profiles_add pn pr w;
     Some (send_message_at_time timestamp (PROFILE_REGISTERED_BY_DP wn pn txt)
       (c\<lparr>ctx_workloads := ws(wn \<mapsto> w1)\<rparr>)) }"

definition read_kill_message :: "json \<Rightarrow> kill_message run" where
  "read_kill_message v = do {
     i \<leftarrow> string_member ''id'' v;
     what \<leftarrow> int_member ''forWhat'' v;
     ji \<leftarrow> job_identifier i;
     Some \<lparr>km_simple_id = i, km_id = ji, km_for_what = what\<rparr> }"

definition handle_kill_job :: "time \<Rightarrow> json \<Rightarrow> batsim_context \<Rightarrow> batsim_context run" where
  "handle_kill_job timestamp d c = do {
     n \<leftarrow> member_count d;
     assertion (n = 1);
     v \<leftarrow> member_at ''job_msgs'' d;
     vs \<leftarrow> elements v;
     assertion (0 < length vs);
     msgs \<leftarrow> map_run read_kill_message vs;
     Some (send_message_at_time timestamp (SCHED_KILL_JOB msgs) c) }"

subsection \<open>Events and messages\<close>

text \<open>The table of handlers; an unknown type is refused before the data are looked at.\<close>

definition handler ::
  "loaders \<Rightarrow> hyphen_format \<Rightarrow> string \<Rightarrow> (time \<Rightarrow> json \<Rightarrow> batsim_context \<Rightarrow> batsim_context run) run" where
  "handler ld fmt typ = map_of
     [(''QUERY'', handle_query),
      (''ANSWER'', handle_answer),
      (''REJECT_JOB'', handle_reject_job),
      (''EXECUTE_JOB'', handle_execute_job ld fmt),
      (''CHANGE_JOB_STATE'', handle_change_job_state),
      (''CALL_ME_LATER'', handle_call_me_later),
      (''KILL_JOB'', handle_kill_job),
      (''REGISTER_JOB'', handle_register_job ld),
      (''REGISTER_PROFILE'', handle_register_profile ld),
      (''SET_RESOURCE_STATE'', handle_set_resource_state fmt),
      (''SET_JOB_METADATA'', handle_set_job_metadata),
      (''NOTIFY'', handle_notify),
      (''TO_JOB_MSG'', handle_to_job_msg)] typ"

definition parse_and_apply_event ::
  "loaders \<Rightarrow> hyphen_format \<Rightarrow> time \<Rightarrow> json \<Rightarrow> batsim_context \<Rightarrow> batsim_context run" where
  "parse_and_apply_event ld fmt now e c = do {
     timestamp \<leftarrow> double_member ''timestamp'' e;
     assertion (timestamp \<le> now);
     typ \<leftarrow> string_member ''type'' e;
     h \<leftarrow> handler ld fmt typ;
     d \<leftarrow> member_at ''data'' e;
     h timestamp d c }"

definition parse_and_apply_message ::
  "loaders \<Rightarrow> hyphen_format \<Rightarrow> json \<Rightarrow> batsim_context \<Rightarrow> batsim_context run" where
  "parse_and_apply_message ld fmt doc c = do {
     now \<leftarrow> double_member ''now'' doc;
     v \<leftarrow> member_at ''events'' doc;
     es \<leftarrow> elements v;
     c1 \<leftarrow> fold_run (parse_and_apply_event ld fmt now) es c;
     Some (send_message_at_time now SCHED_READY c1) }"

end
