(* ===== verification/Wire.thy ===== *)
theory Wire
  imports Sim_Reader
begin

text \<open>
  What the scheduler decides is what the simulator's server hears: the message written by batsched
  (\<open>generate_current_message\<close>) and read by batsim (\<open>parse_and_apply_message\<close>) delivers the events
  in order, each at its date.
\<close>

subsection \<open>What an event asks of the simulator\<close>

definition valid_id :: "job_id \<Rightarrow> bool" where
  "valid_id i \<longleftrightarrow> job_identifier i \<noteq> None"

definition ident :: "job_id \<Rightarrow> job_identifier" where
  "ident i = the (job_identifier i)"

text \<open>The messages the server gets for an event read when the clock shows \<open>now\<close>.\<close>

fun delivered :: "workloads \<Rightarrow> time \<Rightarrow> event \<Rightarrow> server_message list" where
  "delivered ws now QueryConsumedEnergy = [SCHED_TELL_ME_ENERGY]"
| "delivered ws now (ExecuteJob i ms mapping) =
     [SCHED_EXECUTE_JOB \<lparr>sa_job = sj_id (the (job_at (ident i) ws)), sa_machine_ids = ms,
        sa_mapping = mapping, sa_storage_mapping = [], sa_io_allocation = {}, sa_io_profile = None\<rparr>]"
| "delivered ws now (RejectJob i) = [SCHED_REJECT_JOB (ident i)]"
| "delivered ws now (KillJob msgs) = [SCHED_KILL_JOB (map (\<lambda>(i, what).
     \<lparr>km_simple_id = i, km_id = ident i, km_for_what = kill_type_number what\<rparr>) msgs)]"
| "delivered ws now (SetResourceState ms st) = [PSTATE_MODIFICATION ms (the (stoi st) mod 2 ^ 64)]"
| "delivered ws now (SetJobMetadata i metadata) = [SCHED_SET_JOB_METADATA (ident i) metadata]"
| "delivered ws now (CallMeLater t n what) = [SCHED_CALL_ME_LATER t n (call_me_later_number what)]"
| "delivered ws now (GenericNotification typ txt) =
     (if typ = ''checkpoint'' then [SCHED_CALL_ME_LATER now 1 5]
      else if typ = ''recover_from_checkpoint'' then [SCHED_CALL_ME_LATER now 1 6] else [])"
| "delivered ws now RegistrationFinished = [END_DYNAMIC_REGISTER]"
| "delivered ws now ContinueRegistration = [CONTINUE_DYNAMIC_REGISTER]"
| "delivered ws now e = []"

text \<open>
  An event the simulator must accept.  Registrations, which load descriptions from outside, are
  not covered.
\<close>

fun sendable :: "workloads \<Rightarrow> event \<Rightarrow> bool" where
  "sendable ws (ExecuteJob i ms mapping) \<longleftrightarrow>
     valid_id i \<and> job_at (ident i) ws \<noteq> None \<and> finite ms \<and> ms \<noteq> {} \<and> int (card ms) < 2 ^ 31 \<and>
     int (length mapping) < 2 ^ 31 \<and> (\<forall>r \<in> set mapping. 0 \<le> r \<and> r < int (card ms))"
| "sendable ws (RejectJob i) \<longleftrightarrow> valid_id i"
| "sendable ws (KillJob msgs) \<longleftrightarrow> msgs \<noteq> [] \<and> (\<forall>(i, what) \<in> set msgs. valid_id i)"
| "sendable ws (SetResourceState ms st) \<longleftrightarrow> finite ms \<and> ms \<noteq> {} \<and> stoi st \<noteq> None"
| "sendable ws (SetJobMetadata i metadata) \<longleftrightarrow> valid_id i \<and> CHR 0x22 \<notin> set metadata"
| "sendable ws (CallMeLater t n what) \<longleftrightarrow> fits_int n"
| "sendable ws (GenericNotification typ txt) \<longleftrightarrow>
     (typ \<in> {''queue_size'', ''schedule_size'', ''number_running_jobs'', ''PID''} \<and> stoi txt \<noteq> None) \<or>
     (typ \<in> {''utilization'', ''utilization_no_resv''} \<and> stod txt \<noteq> None) \<or>
     (typ = ''checkpoint'' \<and> ws ''w0'' \<noteq> None) \<or> typ = ''recover_from_checkpoint''"
| "sendable ws (RegisterJob _ _ _ _) \<longleftrightarrow> False"
| "sendable ws (RegisterProfile _ _ _) \<longleftrightarrow> False"
| "sendable ws _ \<longleftrightarrow> True"

text \<open>The deliveries of a message, with their dates: a message waits for the date of its event.\<close>

fun deliveries :: "workloads \<Rightarrow> time \<Rightarrow> (time \<times> event) list \<Rightarrow> (time \<times> server_message) list" where
  "deliveries ws now [] = []"
| "deliveries ws now ((t, e) # es) =
     (let ms = delivered ws now e; now' = (if ms = [] then now else max now t)
      in map (Pair now') ms @ deliveries ws now' es)"

fun clock_after :: "workloads \<Rightarrow> time \<Rightarrow> (time \<times> event) list \<Rightarrow> time" where
  "clock_after ws now [] = now"
| "clock_after ws now ((t, e) # es) =
     clock_after ws (if delivered ws now e = [] then now else max now t) es"

subsection \<open>The mapping of executors\<close>

lemma ordered_put_last: "\<forall>(k', v') \<in> set m. k' < k \<Longrightarrow> ordered_put k v m = m @ [(k, v)]"
  by (induction m) auto

fun numbered :: "nat \<Rightarrow> int list \<Rightarrow> (int \<times> int) list" where
  "numbered i [] = []"
| "numbered i (r # rs) = (int i, r) # numbered (Suc i) rs"

lemma read_mapping_members:
  assumes "\<forall>(k, v) \<in> set m. k < int i" "int (i + length rs) \<le> 2 ^ 31" "\<forall>r \<in> set rs. fits_int r"
  shows "fold_run (\<lambda>(key, value) m'. do {
         k \<leftarrow> stoi key; r \<leftarrow> read_index value; Some (ordered_put k r m') }) (mapping_members i rs) m
       = Some (m @ numbered i rs)"
  using assms
proof (induction rs arbitrary: i m)
  case Nil
  then show ?case by simp
next
  case (Cons r rs)
  have i: "stoi (show_nat i) = Some (int i)"
    using stoi_show_nat_prefix[of i "[]"] Cons.prems(2) by (simp add: fits_int_def)
  have r: "stoi (show_int r) = Some r" using Cons.prems(3) by (simp add: stoi_show_int)
  have m: "ordered_put (int i) r m = m @ [(int i, r)]"
    using Cons.prems(1) by (intro ordered_put_last) auto
  have "fold_run (\<lambda>(key, value) m'. do {
         k \<leftarrow> stoi key; r \<leftarrow> read_index value; Some (ordered_put k r m') })
       (mapping_members (Suc i) rs) (m @ [(int i, r)])
     = Some ((m @ [(int i, r)]) @ numbered (Suc i) rs)"
    using Cons.prems by (intro Cons.IH) auto
  then show ?case by (simp add: i r m)
qed

lemma check_mapping_numbered:
  "\<forall>r \<in> set rs. 0 \<le> r \<and> r < nb \<Longrightarrow> check_mapping (int i) nb (numbered i rs) = Some rs"
proof (induction rs arbitrary: i)
  case (Cons r rs)
  then show ?case using Cons.IH[of "Suc i"] by (simp add: add.commute)
qed simp

lemma mapping_members_Nil [simp]: "mapping_members i rs = [] \<longleftrightarrow> rs = []"
  by (cases rs) auto

lemma read_mapping_round_trip:
  assumes "rs \<noteq> []" "int (length rs) < 2 ^ 31" "nb < 2 ^ 31" "\<forall>r \<in> set rs. 0 \<le> r \<and> r < nb"
  shows "read_mapping nb (JObject (mapping_members 0 rs)) = Some rs"
proof -
  have "\<forall>r \<in> set rs. fits_int r" using assms(3,4) by (fastforce simp: fits_int_def)
  then show ?thesis
    using read_mapping_members[of "[]" 0 rs] check_mapping_numbered[of rs nb 0] assms
    by (simp add: read_mapping_def)
qed

subsection \<open>One event\<close>

lemma send_facts [simp]:
  "clock (send_message_at_time t m c) = max (clock c) t"
  "server_mailbox (send_message_at_time t m c) = server_mailbox c @ [(max (clock c) t, m)]"
  "ctx_workloads (send_message_at_time t m c) = ctx_workloads c"
  by (auto simp: send_message_at_time_def Let_def max_def)

text \<open>A context after an event: what it sent and when, the workloads kept.\<close>

definition heard :: "time \<Rightarrow> event \<Rightarrow> batsim_context \<Rightarrow> batsim_context \<Rightarrow> bool" where
  "heard t e c c' \<longleftrightarrow>
     (let ms = delivered (ctx_workloads c) (clock c) e;
          now = (if ms = [] then clock c else max (clock c) t)
      in clock c' = now \<and> server_mailbox c' = server_mailbox c @ map (Pair now) ms \<and>
         ctx_workloads c' = ctx_workloads c)"

lemma job_identifier_ident: "valid_id i \<Longrightarrow> job_identifier i = Some (ident i)"
  by (auto simp: valid_id_def ident_def)

lemma read_kill_messages:
  "\<forall>(i, what) \<in> set msgs. valid_id i \<Longrightarrow>
   map_run read_kill_message (map (\<lambda>(i, what).
       JObject [(''id'', JString i), (''forWhat'', JInt (kill_type_number what))]) msgs)
   = Some (map (\<lambda>(i, what). \<lparr>km_simple_id = i, km_id = ident i, km_for_what = kill_type_number what\<rparr>) msgs)"
  by (induction msgs) (auto simp: read_kill_message_def json_simps job_identifier_ident)

lemma handlers [simp]:
  "handler ld fmt ''QUERY'' = Some handle_query"
  "handler ld fmt ''ANSWER'' = Some handle_answer"
  "handler ld fmt ''REJECT_JOB'' = Some handle_reject_job"
  "handler ld fmt ''EXECUTE_JOB'' = Some (handle_execute_job ld fmt)"
  "handler ld fmt ''CALL_ME_LATER'' = Some handle_call_me_later"
  "handler ld fmt ''KILL_JOB'' = Some handle_kill_job"
  "handler ld fmt ''SET_RESOURCE_STATE'' = Some (handle_set_resource_state fmt)"
  "handler ld fmt ''SET_JOB_METADATA'' = Some handle_set_job_metadata"
  "handler ld fmt ''NOTIFY'' = Some handle_notify"
  by (simp_all add: handler_def)

lemma notification_cases:
  assumes "sendable ws (GenericNotification k s)"
  obtains
    (number) n where "k \<in> {''queue_size'', ''schedule_size'', ''number_running_jobs'', ''PID''}" "stoi s = Some n"
  | (share) x where "k \<in> {''utilization'', ''utilization_no_resv''}" "stod s = Some x"
  | (checkpoint) w where "k = ''checkpoint''" "ws ''w0'' = Some w"
  | (recover) "k = ''recover_from_checkpoint''"
  using assms unfolding sendable.simps not_None_eq
  by (elim disjE conjE exE)
    (erule that(1), assumption, erule that(2), assumption, erule that(3), assumption, erule that(4))

lemma notify_heard:
  assumes "sendable (ctx_workloads c) (GenericNotification k s)"
  shows "\<exists>c'. handle_notify t (JObject [(''type'', JString k), (''data'', JString s)]) c = Some c' \<and>
    heard t (GenericNotification k s) c c'"
  using assms
proof (cases rule: notification_cases)
  case (number n)
  then have "k = ''queue_size'' \<or> k = ''schedule_size'' \<or> k = ''number_running_jobs'' \<or> k = ''PID''"
    by (simp only: insert_iff empty_iff simp_thms)
  then show ?thesis using number(2) by (elim disjE) (simp_all add: handle_notify_def json_simps heard_def)
next
  case (share x)
  then have "k = ''utilization'' \<or> k = ''utilization_no_resv''"
    by (simp only: insert_iff empty_iff simp_thms)
  then show ?thesis using share(2) by (elim disjE) (simp_all add: handle_notify_def json_simps heard_def)
next
  case (checkpoint w)
  then show ?thesis by (simp add: handle_notify_def json_simps heard_def notify_checkpoint_def)
next
  case recover
  then show ?thesis by (simp add: handle_notify_def json_simps heard_def notify_recover_from_checkpoint_def)
qed

lemma event_heard:
  assumes "hyphen_codec fmt" "sendable (ctx_workloads c) e" "t \<le> now"
  shows "\<exists>v c'. event_json parse fmt (t, e) = Some v \<and>
    parse_and_apply_event ld fmt now v c = Some c' \<and> heard t e c c'"
proof (cases e)
  case (ExecuteJob i ms mapping)
  note s = assms(2)[unfolded ExecuteJob sendable.simps]
  have f: "from_hyphen fmt (to_hyphen fmt ms) = Some ms"
    using hyphen_codec.from_to[OF assms(1)] s by blast
  obtain j where j: "job_at (ident i) (ctx_workloads c) = Some j" using s by auto
  have m: "mapping \<noteq> [] \<Longrightarrow> read_mapping (int (card ms)) (JObject (mapping_members 0 mapping)) = Some mapping"
    using read_mapping_round_trip s by blast
  have "0 < card ms" using s by (simp add: card_gt_0_iff)
  then show ?thesis using s f j m assms(3) ExecuteJob
    by (cases "mapping = []") (simp_all add: event_json_def parse_and_apply_event_def
        handle_execute_job_def json_simps job_identifier_ident heard_def)
next
  case (KillJob msgs)
  then show ?thesis using assms(2,3) read_kill_messages[of msgs]
    by (simp add: event_json_def parse_and_apply_event_def handle_kill_job_def json_simps
        heard_def)
next
  case (SetResourceState ms st)
  note s = assms(2)[unfolded SetResourceState sendable.simps]
  have f: "from_hyphen fmt (to_hyphen fmt ms) = Some ms"
    using hyphen_codec.from_to[OF assms(1)] s by blast
  have "0 < card ms" using s by (simp add: card_gt_0_iff)
  then show ?thesis using s f assms(3) SetResourceState
    by (auto simp: event_json_def parse_and_apply_event_def handle_set_resource_state_def
        json_simps heard_def)
next
  case (GenericNotification k s)
  obtain c' where c': "handle_notify t (JObject [(''type'', JString k), (''data'', JString s)]) c = Some c'"
      "heard t (GenericNotification k s) c c'"
    using notify_heard[OF assms(2)[unfolded GenericNotification], of t] by (elim exE conjE)
  then show ?thesis using assms(3) GenericNotification
    by (simp add: event_json_def parse_and_apply_event_def json_simps)
qed (insert assms, auto simp: event_json_def parse_and_apply_event_def handle_query_def handle_answer_def
  handle_reject_job_def handle_set_job_metadata_def handle_call_me_later_def
  handle_notify_def json_simps job_identifier_ident heard_def)

subsection \<open>Messages\<close>

lemma events_heard:
  assumes "hyphen_codec fmt" "\<forall>(t, e) \<in> set es. sendable (ctx_workloads c) e \<and> t \<le> now"
  shows "\<exists>vs c'. map_run (event_json parse fmt) es = Some vs \<and>
    fold_run (parse_and_apply_event ld fmt now) vs c = Some c' \<and>
    clock c' = clock_after (ctx_workloads c) (clock c) es \<and>
    server_mailbox c' = server_mailbox c @ deliveries (ctx_workloads c) (clock c) es \<and>
    ctx_workloads c' = ctx_workloads c"
  using assms(2)
proof (induction es arbitrary: c)
  case Nil
  then show ?case by simp
next
  case (Cons x es)
  obtain t e where x: "x = (t, e)" by (cases x)
  have e: "sendable (ctx_workloads c) e" "t \<le> now" using Cons.prems x by simp_all
  obtain v c1 where v: "event_json parse fmt (t, e) = Some v"
      "parse_and_apply_event ld fmt now v c = Some c1" "heard t e c c1"
    using event_heard[OF assms(1) e] by blast
  have c1: "ctx_workloads c1 = ctx_workloads c" using v(3) by (simp add: heard_def Let_def)
  obtain vs c' where vs: "map_run (event_json parse fmt) es = Some vs"
      "fold_run (parse_and_apply_event ld fmt now) vs c1 = Some c'"
      "clock c' = clock_after (ctx_workloads c1) (clock c1) es"
      "server_mailbox c' = server_mailbox c1 @ deliveries (ctx_workloads c1) (clock c1) es"
      "ctx_workloads c' = ctx_workloads c1"
    using Cons.IH[of c1] Cons.prems c1 by auto
  show ?case
    using v vs c1 x by (simp add: heard_def Let_def)
qed

lemma clock_after_bound:
  assumes "\<forall>(t, e) \<in> set es. t \<le> date"
  shows "max (clock_after ws now es) date = max now date"
  using assms
proof (induction es arbitrary: now)
  case (Cons x es)
  obtain t e where x: "x = (t, e)" by (cases x)
  have "max (clock_after ws now' es) date = max now' date" for now' using Cons by simp
  moreover have "max (max now t) date = max now date" using Cons.prems x by (simp add: max_def)
  ultimately show ?case by (simp add: x)
qed simp

text \<open>
  C27: A message of the scheduler whose events ask for something the simulator can do is written,
  sent and read without a failed assertion, and the server receives exactly what was decided, in
  the order of the decisions, each at the later of its date and the simulated time; then it learns
  that the scheduler is ready.
\<close>

theorem wire_round_trip:
  assumes "hyphen_codec fmt" "writer_ok w" "last_date w \<le> date"
    "\<forall>(t, e) \<in> set (events w). sendable (ctx_workloads c) e"
  shows "\<exists>doc c'. generate_current_message parse fmt date w = Some doc \<and>
    parse_and_apply_message ld fmt doc c = Some c' \<and>
    server_mailbox c' = server_mailbox c @ deliveries (ctx_workloads c) (clock c) (events w)
      @ [(max (clock c) date, SCHED_READY)] \<and>
    clock c' = max (clock c) date \<and> ctx_workloads c' = ctx_workloads c"
proof -
  have d: "\<forall>(t, e) \<in> set (events w). t \<le> date"
    using assms(2,3) by (fastforce simp: writer_ok_def)
  then have "\<forall>(t, e) \<in> set (events w). sendable (ctx_workloads c) e \<and> t \<le> date"
    using assms(4) by blast
  from events_heard[OF assms(1) this, of parse ld] obtain vs c1 where
    "map_run (event_json parse fmt) (events w) = Some vs"
    "fold_run (parse_and_apply_event ld fmt date) vs c = Some c1"
    "clock c1 = clock_after (ctx_workloads c) (clock c) (events w)"
    "server_mailbox c1 = server_mailbox c @ deliveries (ctx_workloads c) (clock c) (events w)"
    "ctx_workloads c1 = ctx_workloads c" by (elim exE conjE)
  then show ?thesis using assms(3) clock_after_bound[OF d]
    by (simp add: generate_current_message_def parse_and_apply_message_def json_simps)
qed

text \<open>A message that starts a job on two machines with a mapping and asks to be called later.\<close>

definition demo_job :: "string \<Rightarrow> string \<Rightarrow> int \<Rightarrow> sim_job" where
  "demo_job w n res = \<lparr>sj_id = \<lparr>workload_name = w, job_name = n, job_number = 1\<rparr>,
     sj_state = JOB_STATE_SUBMITTED, sj_json = [], sj_profile = Sim_Profile ''p'' DELAY [] 0 [],
     sj_requested_nb_res = res, sj_walltime = 10, sj_submission_time = 0, sj_starting_time = - 1,
     sj_runtime = - 1, sj_allocation = {}, sj_return_code = - 1, sj_kill_requested = False,
     sj_metadata = [], sj_batsim_metadata = [], sj_incoming_messages = [],
     sj_original_walltime = 100, sj_checkpoint = no_checkpoint\<rparr>"

definition demo_workloads :: workloads where
  "demo_workloads = [''w0'' \<mapsto> \<lparr>sw_name = ''w0'', sw_static = True, sw_file = ''w0.json'',
     sw_jobs = [''w0!1'' \<mapsto> demo_job ''w0'' ''1'' 2], sw_jobs_met = {''w0!1''},
     sw_profiles = [''p'' \<mapsto> Some (Sim_Profile ''p'' DELAY [] 0 [])]\<rparr>]"

definition demo_context :: batsim_context where
  "demo_context = \<lparr>clock = 5, ctx_workloads = demo_workloads, redis_enabled = False,
     registration_sched_enabled = False, registration_sched_finished = False, queue_size = - 1,
     schedule_size = - 1, ctx_nb_running_jobs = 0, utilization = 0, utilization_no_resv = 0,
     batsched_PID = 0, checkpoint_keep = 1, nb_checkpoints = 0, server_mailbox = []\<rparr>"

definition demo_loaders :: loaders where
  "demo_loaders = \<lparr>load_job = (\<lambda>s w. None), load_profile = (\<lambda>n s. None),
     document_text = (\<lambda>d. []), redis_get = (\<lambda>k. None)\<rparr>"

definition demo_writer :: proto_writer where
  "demo_writer = \<lparr>last_date = 7, pw_is_empty = False,
     events = [(5, ExecuteJob ''w0!1'' {1, 2} [0, 1]), (7, CallMeLater 9 3 REPAIR_DONE)]\<rparr>"

lemma demo_identifier:
  "job_identifier ''w0!1'' = Some \<lparr>workload_name = ''w0'', job_name = ''1'', job_number = 1\<rparr>"
  by code_simp

theorem wire_round_trip_witness:
  "\<exists>doc c'. generate_current_message (\<lambda>s. None) std_format 8 demo_writer = Some doc \<and>
    parse_and_apply_message demo_loaders std_format doc demo_context = Some c' \<and>
    server_mailbox c' = server_mailbox demo_context
      @ deliveries (ctx_workloads demo_context) (clock demo_context) (events demo_writer)
      @ [(max (clock demo_context) 8, SCHED_READY)] \<and>
    clock c' = max (clock demo_context) 8 \<and> ctx_workloads c' = ctx_workloads demo_context"
proof (rule wire_round_trip)
  show "hyphen_codec std_format" by (rule std.hyphen_codec_axioms)
  show "writer_ok demo_writer" by (simp add: writer_ok_def demo_writer_def)
  show "last_date demo_writer \<le> 8" by (simp add: demo_writer_def)
  show "\<forall>(t, e) \<in> set (events demo_writer). sendable (ctx_workloads demo_context) e"
    by (simp add: demo_writer_def demo_context_def valid_id_def ident_def demo_identifier job_at_def
        jobs_at_def demo_workloads_def representation_def fits_int_def)
qed

end
