(* ===== verification/Sim_Machines.thy ===== *)
theory Sim_Machines
  imports Sim_Context
begin

text \<open>
  The machines of the simulated platform (\<^verbatim>\<open>machines.cpp\<close>, \<^verbatim>\<open>permissions.cpp\<close>) and the grouped
  changes of power state (\<^verbatim>\<open>pstate.cpp\<close>) of batsim.  The simulation kernel is reduced to what the
  code asks of it: the clock is an argument, the power state of a host is a field of its machine.
  The traces written to files are left out.
\<close>

subsection \<open>Machines\<close>

datatype machine_state =
    SLEEPING | IDLE | COMPUTING | TRANSITING_FROM_SLEEPING_TO_COMPUTING
  | TRANSITING_FROM_COMPUTING_TO_SLEEPING | UNAVAILABLE

fun machine_state_to_string :: "machine_state \<Rightarrow> string" where
  "machine_state_to_string SLEEPING = ''sleeping''"
| "machine_state_to_string IDLE = ''idle''"
| "machine_state_to_string COMPUTING = ''computing''"
| "machine_state_to_string TRANSITING_FROM_SLEEPING_TO_COMPUTING = ''switching_on''"
| "machine_state_to_string TRANSITING_FROM_COMPUTING_TO_SLEEPING = ''switching_off''"
| "machine_state_to_string UNAVAILABLE = ''unavailable''"

datatype pstate_type = COMPUTATION_PSTATE | SLEEP_PSTATE | TRANSITION_VIRTUAL_PSTATE

record sleep_pstate =
  sleep_number :: int
  switch_on_virtual_pstate :: int
  switch_off_virtual_pstate :: int

text \<open>The permissions of a machine are the bits of a number.\<close>

definition COMPUTE_FLOPS :: nat where "COMPUTE_FLOPS = 1"
definition RECEIVE_BYTES :: nat where "RECEIVE_BYTES = 2"
definition SEND_BYTES :: nat where "SEND_BYTES = 4"
definition MASTER :: nat where "MASTER = 0"
definition COMPUTE_NODE :: nat where "COMPUTE_NODE = or (or COMPUTE_FLOPS RECEIVE_BYTES) SEND_BYTES"
definition STORAGE :: nat where "STORAGE = or RECEIVE_BYTES SEND_BYTES"

text \<open>An unknown role throws.\<close>

definition permissions_from_role :: "string \<Rightarrow> nat run" where
  "permissions_from_role s =
     (if s = [] then Some COMPUTE_NODE
      else map_of [(''master'', MASTER), (''compute_node'', COMPUTE_NODE), (''storage'', STORAGE)] s)"

text \<open>The jobs being computed are kept by the representation of their identifiers.\<close>

record machine =
  m_id :: int
  m_name :: string
  m_permissions :: nat
  m_state :: machine_state
  m_jobs :: "string set"
  m_pstates :: "int \<Rightarrow> pstate_type option"
  m_sleep_pstates :: "int \<Rightarrow> sleep_pstate option"
  m_host_pstate :: int
  last_state_change_date :: rat
  time_spent_in_each_state :: "machine_state \<Rightarrow> rat"
  m_speed :: rat
  m_core_count :: int
  m_repair_time :: rat
  m_properties :: "(string \<times> string) list"
  m_zone_properties :: "(string \<times> string) list"

definition has_role :: "nat \<Rightarrow> machine \<Rightarrow> bool" where
  "has_role role m \<longleftrightarrow> and role (m_permissions m) = role"

definition has_pstate :: "int \<Rightarrow> machine \<Rightarrow> bool" where
  "has_pstate p m \<longleftrightarrow> m_pstates m p \<noteq> None"

definition jobs_being_computed_as_string :: "(string set \<Rightarrow> string list) \<Rightarrow> machine \<Rightarrow> string" where
  "jobs_being_computed_as_string pointer_order m = join '', '' (pointer_order (m_jobs m))"

record sim_machines =
  all_machines :: "machine list"
  nb_machines_in_each_state :: "machine_state \<Rightarrow> int"

text \<open>The lists of compute machines and of storage machines the code keeps beside.\<close>

definition compute_machines :: "sim_machines \<Rightarrow> machine list" where
  "compute_machines ms = filter (\<lambda>m. m_permissions m = COMPUTE_NODE) (all_machines ms)"

definition storage_machines :: "sim_machines \<Rightarrow> machine list" where
  "storage_machines ms = filter (\<lambda>m. m_permissions m = STORAGE) (all_machines ms)"

definition machine_at :: "nat \<Rightarrow> sim_machines \<Rightarrow> machine run" where
  "machine_at i ms = (if i < length (all_machines ms) then Some (all_machines ms ! i) else None)"

definition put_machine :: "nat \<Rightarrow> machine \<Rightarrow> sim_machines \<Rightarrow> sim_machines" where
  "put_machine i m ms = ms\<lparr>all_machines := (all_machines ms)[i := m]\<rparr>"

definition update_nb_machines_in_each_state ::
  "machine_state \<Rightarrow> machine_state \<Rightarrow> sim_machines \<Rightarrow> sim_machines" where
  "update_nb_machines_in_each_state old_state new_state ms =
     (let f = nb_machines_in_each_state ms;
          f1 = f(old_state := f old_state - 1)
      in ms\<lparr>nb_machines_in_each_state := f1(new_state := f1 new_state + 1)\<rparr>)"

text \<open>\<^verbatim>\<open>Machine::update_machine_state\<close> of the machine numbered \<open>i\<close>.\<close>

definition update_machine_state ::
  "rat \<Rightarrow> machine_state \<Rightarrow> nat \<Rightarrow> sim_machines \<Rightarrow> sim_machines run" where
  "update_machine_state now new_state i ms = do {
     m \<leftarrow> machine_at i ms;
     let delta_time = now - last_state_change_date m;
     assertion (0 \<le> delta_time);
     let t = time_spent_in_each_state m;
     Some (put_machine i (m\<lparr>time_spent_in_each_state := t(m_state m := t (m_state m) + delta_time),
         m_state := new_state, last_state_change_date := now\<rparr>)
       (update_nb_machines_in_each_state (m_state m) new_state ms)) }"

text \<open>The elements of an interval set are visited in increasing order.\<close>

definition for_machines ::
  "(nat \<Rightarrow> sim_machines \<Rightarrow> sim_machines run) \<Rightarrow> machines \<Rightarrow> sim_machines \<Rightarrow> sim_machines run" where
  "for_machines f U ms = fold_run f (sorted_list_of_set U) ms"

definition job_runs_on :: "rat \<Rightarrow> string \<Rightarrow> nat \<Rightarrow> sim_machines \<Rightarrow> sim_machines run" where
  "job_runs_on now job i ms = do {
     ms1 \<leftarrow> update_machine_state now COMPUTING i ms;
     m \<leftarrow> machine_at i ms1;
     Some (put_machine i (m\<lparr>m_jobs := insert job (m_jobs m)\<rparr>) ms1) }"

definition update_machines_on_job_run ::
  "rat \<Rightarrow> string \<Rightarrow> machines \<Rightarrow> sim_machines \<Rightarrow> sim_machines run" where
  "update_machines_on_job_run now job U ms = for_machines (job_runs_on now job) U ms"

definition job_ends_on :: "rat \<Rightarrow> string \<Rightarrow> nat \<Rightarrow> sim_machines \<Rightarrow> sim_machines run" where
  "job_ends_on now job i ms = do {
     m \<leftarrow> machine_at i ms;
     assertion (m_jobs m \<noteq> {});
     assertion (job \<in> m_jobs m);
     let m1 = m\<lparr>m_jobs := m_jobs m - {job}\<rparr>;
     let ms1 = put_machine i m1 ms;
     (if m_jobs m1 = {} \<and> m_state m1 \<noteq> UNAVAILABLE then update_machine_state now IDLE i ms1
      else Some ms1) }"

definition update_machines_on_job_end ::
  "rat \<Rightarrow> string \<Rightarrow> machines \<Rightarrow> sim_machines \<Rightarrow> sim_machines run" where
  "update_machines_on_job_end now job U ms = for_machines (job_ends_on now job) U ms"

text \<open>The loops of the server's handlers of external events (\<^verbatim>\<open>server.cpp\<close>).\<close>

definition make_unavailable :: "rat \<Rightarrow> nat \<Rightarrow> sim_machines \<Rightarrow> sim_machines run" where
  "make_unavailable now i ms = do {
     m \<leftarrow> machine_at i ms;
     assertion (m_state m \<noteq> UNAVAILABLE);
     update_machine_state now UNAVAILABLE i ms }"

definition make_available :: "rat \<Rightarrow> nat \<Rightarrow> sim_machines \<Rightarrow> sim_machines run" where
  "make_available now i ms = do {
     m \<leftarrow> machine_at i ms;
     assertion (m_state m = UNAVAILABLE);
     (if m_jobs m = {} then update_machine_state now IDLE i ms
      else update_machine_state now COMPUTING i ms) }"

subsection \<open>Changes of power state\<close>

record switch =
  target_pstate :: int
  sw_all_machines :: machines
  switching_machines :: machines

type_synonym switches = "int \<Rightarrow> switch list option"

definition add_switch :: "machines \<Rightarrow> int \<Rightarrow> switches \<Rightarrow> switches" where
  "add_switch U p sws =
     (let s = \<lparr>target_pstate = p, sw_all_machines = U, switching_machines = U\<rparr> in
      case sws p of Some l \<Rightarrow> sws(p \<mapsto> l @ [s]) | None \<Rightarrow> sws(p \<mapsto> [s]))"

text \<open>
  The first request that waits for the machine is served; the machines of a request whose last
  machine has switched are returned.
\<close>

fun mark_in :: "nat \<Rightarrow> switch list \<Rightarrow> (machines option \<times> switch list) run" where
  "mark_in i [] = None"
| "mark_in i (s # l) =
     (if i \<in> switching_machines s then
        (let s1 = s\<lparr>switching_machines := switching_machines s - {i}\<rparr> in
         if switching_machines s1 = {} then Some (Some (sw_all_machines s), l)
         else Some (None, s1 # l))
      else do { (r, l') \<leftarrow> mark_in i l; Some (r, s # l') })"

definition mark_switch_as_done :: "nat \<Rightarrow> int \<Rightarrow> switches \<Rightarrow> (machines option \<times> switches) run" where
  "mark_switch_as_done i p sws = do {
     l \<leftarrow> sws p;
     (r, l') \<leftarrow> mark_in i l;
     Some (r, if r \<noteq> None \<and> l' = [] then sws(p := None) else sws(p \<mapsto> l')) }"

text \<open>
  The actors that switch a machine: their checks before the transition and their effect after it.
  The simulated transition takes time, during which other operations may change the machine.
\<close>

definition switch_on_begin :: "nat \<Rightarrow> int \<Rightarrow> sim_machines \<Rightarrow> sim_machines run" where
  "switch_on_begin i new_pstate ms = do {
     m \<leftarrow> machine_at i ms;
     assertion (m_state m = TRANSITING_FROM_SLEEPING_TO_COMPUTING);
     assertion (m_jobs m = {});
     assertion (has_pstate new_pstate m);
     assertion (m_pstates m new_pstate = Some COMPUTATION_PSTATE);
     sp \<leftarrow> m_sleep_pstates m (m_host_pstate m);
     Some (put_machine i (m\<lparr>m_host_pstate := switch_on_virtual_pstate sp\<rparr>) ms) }"

definition switch_off_begin :: "nat \<Rightarrow> int \<Rightarrow> sim_machines \<Rightarrow> sim_machines run" where
  "switch_off_begin i new_pstate ms = do {
     m \<leftarrow> machine_at i ms;
     assertion (m_state m = TRANSITING_FROM_COMPUTING_TO_SLEEPING);
     assertion (m_jobs m = {});
     assertion (has_pstate new_pstate m);
     assertion (m_pstates m new_pstate = Some SLEEP_PSTATE);
     sp \<leftarrow> m_sleep_pstates m new_pstate;
     Some (put_machine i (m\<lparr>m_host_pstate := switch_off_virtual_pstate sp\<rparr>) ms) }"

definition switch_end :: "machine_state \<Rightarrow> rat \<Rightarrow> nat \<Rightarrow> int \<Rightarrow> sim_machines \<Rightarrow> sim_machines run" where
  "switch_end st now i new_pstate ms = do {
     m \<leftarrow> machine_at i ms;
     update_machine_state now st i (put_machine i (m\<lparr>m_host_pstate := new_pstate\<rparr>) ms) }"

definition switch_on_end :: "rat \<Rightarrow> nat \<Rightarrow> int \<Rightarrow> sim_machines \<Rightarrow> sim_machines run" where
  "switch_on_end = switch_end IDLE"

definition switch_off_end :: "rat \<Rightarrow> nat \<Rightarrow> int \<Rightarrow> sim_machines \<Rightarrow> sim_machines run" where
  "switch_off_end = switch_end SLEEPING"

end
