(* ===== verification/Sim_Machines_Inv.thy ===== *)
theory Sim_Machines_Inv
  imports Sim_Machines
begin

text \<open>
  The machines of the simulator as a state machine: whatever the order of job starts, job ends,
  failures, repairs and switches, the accounts of every machine are exact, the counters of
  machines in each state are exact, and a computing machine runs a job.  An idle or sleeping machine
  runs none, unless a switch of it ended while a job ran on it.
\<close>

subsection \<open>The invariant\<close>

lemma machine_states: "(UNIV :: machine_state set) = {SLEEPING, IDLE, COMPUTING,
    TRANSITING_FROM_SLEEPING_TO_COMPUTING, TRANSITING_FROM_COMPUTING_TO_SLEEPING, UNAVAILABLE}"
  by (auto intro: machine_state.exhaust)

lemma finite_machine_states [simp]: "finite (UNIV :: machine_state set)"
  by (simp add: machine_states)

text \<open>
  The actor of a switch checks that its machine runs no job when the transition begins, and not
  when it ends; \<open>disturbed\<close> is a machine on which a transition ended while a job ran.
\<close>

definition busy_ok :: "bool \<Rightarrow> machine_state \<Rightarrow> string set \<Rightarrow> bool" where
  "busy_ok disturbed st jobs \<longleftrightarrow> (st = COMPUTING \<longrightarrow> jobs \<noteq> {}) \<and>
     (\<not> disturbed \<and> (st = IDLE \<or> st = SLEEPING) \<longrightarrow> jobs = {})"

definition machine_ok :: "bool \<Rightarrow> rat \<Rightarrow> machine \<Rightarrow> bool" where
  "machine_ok disturbed now m \<longleftrightarrow> last_state_change_date m \<le> now \<and>
     (\<Sum>st \<in> UNIV. time_spent_in_each_state m st) = last_state_change_date m \<and>
     busy_ok disturbed (m_state m) (m_jobs m)"

definition nb_in :: "machine_state \<Rightarrow> machine list \<Rightarrow> int" where
  "nb_in st ms = int (length (filter (\<lambda>m. m_state m = st) ms))"

text \<open>
  The constructor of the platform counts only the compute machines, as idle; \<open>uncounted\<close> is the
  difference between the counters and the machines, which no operation changes.
\<close>

definition machines_ok :: "(machine_state \<Rightarrow> int) \<Rightarrow> nat set \<Rightarrow> rat \<Rightarrow> sim_machines \<Rightarrow> bool" where
  "machines_ok uncounted disturbed now ms \<longleftrightarrow>
     (\<forall>i m. machine_at i ms = Some m \<longrightarrow> machine_ok (i \<in> disturbed) now m) \<and>
     (\<forall>st. nb_machines_in_each_state ms st = nb_in st (all_machines ms) - uncounted st)"

lemma nb_in_update:
  "i < length xs \<Longrightarrow> nb_in st (xs[i := x]) =
     nb_in st xs - (if m_state (xs ! i) = st then 1 else 0) + (if m_state x = st then 1 else 0)"
proof (induction xs arbitrary: i)
  case (Cons y ys)
  show ?case
  proof (cases i)
    case (Suc k)
    then have "nb_in st (ys[k := x]) =
        nb_in st ys - (if m_state (ys ! k) = st then 1 else 0) + (if m_state x = st then 1 else 0)"
      using Cons by simp
    then show ?thesis using Suc by (simp add: nb_in_def split: if_splits)
  qed (simp add: nb_in_def)
qed simp

lemma sum_spent: "(\<Sum>st \<in> UNIV. (f(s := f s + d)) st) = (\<Sum>st \<in> UNIV. f st) + (d :: rat)"
  for s :: machine_state
  using sum.remove[of UNIV s "f(s := f s + d)"] sum.remove[of UNIV s f] by simp

subsection \<open>One machine changes\<close>

text \<open>The machine numbered \<open>i\<close> becomes \<open>m'\<close> and the counters follow its state.\<close>

definition becomes :: "nat \<Rightarrow> machine \<Rightarrow> machine \<Rightarrow> sim_machines \<Rightarrow> sim_machines \<Rightarrow> bool" where
  "becomes i m m' ms ms' \<longleftrightarrow> machine_at i ms = Some m \<and>
     all_machines ms' = (all_machines ms)[i := m'] \<and>
     (\<forall>st. nb_machines_in_each_state ms' st = nb_machines_in_each_state ms st
        - (if m_state m = st then 1 else 0) + (if m_state m' = st then 1 else 0))"

lemma busy_ok_more: "busy_ok d st jobs \<Longrightarrow> (d \<Longrightarrow> d') \<Longrightarrow> busy_ok d' st jobs"
  by (auto simp: busy_ok_def)

lemma machine_ok_later: "machine_ok d t m \<Longrightarrow> t \<le> now \<Longrightarrow> (d \<Longrightarrow> d') \<Longrightarrow> machine_ok d' now m"
  by (auto simp: machine_ok_def intro: busy_ok_more)

lemma machines_ok_later:
  assumes "machines_ok unc D t ms" "t \<le> now" "D \<subseteq> D'"
  shows "machines_ok unc D' now ms"
proof -
  have "machine_ok (i \<in> D') now m" if "machine_at i ms = Some m" for i m
    using assms that unfolding machines_ok_def by (blast intro: machine_ok_later)
  then show ?thesis using assms(1) by (simp add: machines_ok_def)
qed

lemma machines_ok_at: "machines_ok unc D now ms \<Longrightarrow> machine_at i ms = Some m \<Longrightarrow> machine_ok (i \<in> D) now m"
  by (simp add: machines_ok_def)

lemma becomes_ok:
  assumes "machines_ok unc D now ms" "becomes i m m' ms ms'" "machine_ok (i \<in> D) now m'"
  shows "machines_ok unc D now ms'"
proof -
  have i: "i < length (all_machines ms)" "all_machines ms ! i = m" "all_machines ms' = (all_machines ms)[i := m']"
    using assms(2) by (auto simp: becomes_def machine_at_def split: if_splits)
  have "machine_ok (k \<in> D) now x" if "machine_at k ms' = Some x" for k x
  proof (cases "k = i")
    case True
    then have "x = m'" using that i by (simp add: machine_at_def)
    then show ?thesis using True assms(3) by simp
  next
    case False
    then have "machine_at k ms = Some x" using that i(3) by (simp add: machine_at_def split: if_splits)
    then show ?thesis by (rule machines_ok_at[OF assms(1)])
  qed
  then show ?thesis using assms(1,2) i(1,2) by (simp add: machines_ok_def becomes_def nb_in_update)
qed

lemma becomes_trans:
  "becomes i m m1 ms ms1 \<Longrightarrow> becomes i m1' m2 ms1 ms2 \<Longrightarrow> m1' = m1 \<and> becomes i m m2 ms ms2"
  by (auto simp: becomes_def machine_at_def split: if_splits)

lemma put_becomes:
  "machine_at i ms = Some m \<Longrightarrow> m_state m' = m_state m \<Longrightarrow> becomes i m m' ms (put_machine i m' ms)"
  by (simp add: becomes_def put_machine_def)

text \<open>What \<^verbatim>\<open>update_machine_state\<close> does to the machine.\<close>

definition moved :: "rat \<Rightarrow> machine_state \<Rightarrow> machine \<Rightarrow> machine" where
  "moved now st m = m\<lparr>time_spent_in_each_state :=
       (time_spent_in_each_state m)(m_state m := time_spent_in_each_state m (m_state m)
         + (now - last_state_change_date m)),
     m_state := st, last_state_change_date := now\<rparr>"

lemma moved_simps [simp]:
  "m_state (moved now st m) = st" "m_jobs (moved now st m) = m_jobs m"
  "last_state_change_date (moved now st m) = now"
  "(\<Sum>s \<in> UNIV. time_spent_in_each_state (moved now st m) s)
     = (\<Sum>s \<in> UNIV. time_spent_in_each_state m s) + (now - last_state_change_date m)"
  by (simp_all add: moved_def sum_spent del: fun_upd_apply)

lemma update_machine_state_becomes:
  assumes "update_machine_state now st i ms = Some ms'"
  obtains m where "becomes i m (moved now st m) ms ms'" "last_state_change_date m \<le> now"
proof -
  obtain m where m: "machine_at i ms = Some m" "last_state_change_date m \<le> now"
      "ms' = put_machine i (moved now st m) (update_nb_machines_in_each_state (m_state m) st ms)"
    using assms by (auto simp: update_machine_state_def Let_def run_simps moved_def)
  have "becomes i m (moved now st m) ms ms'"
    using m(1) by (simp add: becomes_def m(3) put_machine_def update_nb_machines_in_each_state_def Let_def)
  then show thesis using m(2) by (rule that)
qed

lemma moved_ok:
  assumes "machine_ok d now m" "busy_ok d st jobs"
  shows "machine_ok d now ((moved now st m)\<lparr>m_jobs := jobs\<rparr>)"
  using assms by (simp add: machine_ok_def)

lemma moved_ok':
  assumes "machine_ok d now m" "busy_ok d st (m_jobs m)"
  shows "machine_ok d now (moved now st m)"
  using assms by (simp add: machine_ok_def)

subsection \<open>The operations\<close>

lemma update_machine_state_ok:
  assumes "machines_ok unc D now ms" "update_machine_state now st i ms = Some ms'"
    "\<And>m. machine_at i ms = Some m \<Longrightarrow> busy_ok (i \<in> D) st (m_jobs m)"
  shows "machines_ok unc D now ms'"
proof -
  obtain m where m: "becomes i m (moved now st m) ms ms'"
    using update_machine_state_becomes[OF assms(2)] .
  then have "machine_at i ms = Some m" by (simp add: becomes_def)
  then show ?thesis using becomes_ok[OF assms(1) m moved_ok'] machines_ok_at[OF assms(1)] assms(3)
    by simp
qed

lemma job_runs_on_ok:
  assumes "machines_ok unc D now ms" "job_runs_on now job i ms = Some ms'"
  shows "machines_ok unc D now ms'"
proof -
  obtain ms1 m1 where r: "update_machine_state now COMPUTING i ms = Some ms1" "machine_at i ms1 = Some m1"
      "ms' = put_machine i (m1\<lparr>m_jobs := insert job (m_jobs m1)\<rparr>) ms1"
    using assms(2) by (auto simp: job_runs_on_def run_simps)
  obtain m where m: "becomes i m (moved now COMPUTING m) ms ms1"
    using update_machine_state_becomes[OF r(1)] .
  have p: "becomes i m1 (m1\<lparr>m_jobs := insert job (m_jobs m1)\<rparr>) ms1 ms'"
    unfolding r(3) by (rule put_becomes[OF r(2)]) simp
  have m1: "m1 = moved now COMPUTING m" and b: "becomes i m (m1\<lparr>m_jobs := insert job (m_jobs m1)\<rparr>) ms ms'"
    using becomes_trans[OF m p] by blast+
  have "machine_ok (i \<in> D) now m" using machines_ok_at[OF assms(1)] m unfolding becomes_def by blast
  then have "machine_ok (i \<in> D) now (m1\<lparr>m_jobs := insert job (m_jobs m1)\<rparr>)"
    unfolding m1 by (rule moved_ok) (simp add: busy_ok_def)
  then show ?thesis by (rule becomes_ok[OF assms(1) b])
qed

lemma job_ends_on_ok:
  assumes "machines_ok unc D now ms" "job_ends_on now job i ms = Some ms'"
  shows "machines_ok unc D now ms'"
proof -
  obtain m where m: "machine_at i ms = Some m" "job \<in> m_jobs m"
    using assms(2) by (auto simp: job_ends_on_def run_simps)
  let ?m1 = "m\<lparr>m_jobs := m_jobs m - {job}\<rparr>"
  have ok: "machine_ok (i \<in> D) now m" using machines_ok_at[OF assms(1) m(1)] .
  have p: "becomes i m ?m1 ms (put_machine i ?m1 ms)" by (rule put_becomes[OF m(1)]) simp
  have run: "ms' = put_machine i ?m1 ms \<and> \<not> (m_jobs ?m1 = {} \<and> m_state ?m1 \<noteq> UNAVAILABLE) \<or>
      m_jobs ?m1 = {} \<and> m_state ?m1 \<noteq> UNAVAILABLE \<and>
      update_machine_state now IDLE i (put_machine i ?m1 ms) = Some ms'"
    using assms(2) m by (auto simp: job_ends_on_def run_simps Let_def split: if_splits)
  show ?thesis
  proof (cases "m_jobs ?m1 = {} \<and> m_state ?m1 \<noteq> UNAVAILABLE")
    case True
    then obtain m2 where m2: "becomes i m2 (moved now IDLE m2) (put_machine i ?m1 ms) ms'"
      using run update_machine_state_becomes by blast
    have m2eq: "m2 = ?m1" and b: "becomes i m (moved now IDLE m2) ms ms'"
      using becomes_trans[OF p m2] by blast+
    have "machine_ok (i \<in> D) now (moved now IDLE ?m1)"
      using ok True by (simp add: machine_ok_def busy_ok_def)
    then show ?thesis using becomes_ok[OF assms(1) b] m2eq by simp
  next
    case False
    then have eq: "ms' = put_machine i ?m1 ms" using run by blast
    have "busy_ok (i \<in> D) (m_state m) (m_jobs m)" using ok by (simp add: machine_ok_def)
    moreover have "m_jobs m \<noteq> {}" using m(2) by blast
    ultimately have "busy_ok (i \<in> D) (m_state m) (m_jobs m - {job})"
      using False by (cases "m_state m") (simp_all add: busy_ok_def)
    then have "machine_ok (i \<in> D) now ?m1" using ok by (simp add: machine_ok_def)
    then show ?thesis using becomes_ok[OF assms(1) p] eq by simp
  qed
qed

lemma make_unavailable_ok:
  "machines_ok unc D now ms \<Longrightarrow> make_unavailable now i ms = Some ms' \<Longrightarrow> machines_ok unc D now ms'"
  by (auto simp: make_unavailable_def run_simps busy_ok_def intro: update_machine_state_ok)

lemma make_available_ok:
  assumes "machines_ok unc D now ms" "make_available now i ms = Some ms'"
  shows "machines_ok unc D now ms'"
proof -
  obtain m where m: "machine_at i ms = Some m" using assms(2) by (auto simp: make_available_def run_simps)
  have "update_machine_state now (if m_jobs m = {} then IDLE else COMPUTING) i ms = Some ms'"
    using assms(2) m by (auto simp: make_available_def run_simps split: if_splits)
  then show ?thesis by (rule update_machine_state_ok[OF assms(1)]) (use m in \<open>auto simp: busy_ok_def\<close>)
qed

lemma for_machines_ok:
  assumes "machines_ok unc D now ms" "for_machines f U ms = Some ms'"
    and "\<And>i ms ms'. machines_ok unc D now ms \<Longrightarrow> f i ms = Some ms' \<Longrightarrow> machines_ok unc D now ms'"
  shows "machines_ok unc D now ms'"
  using fold_run_preserves[OF assms(2)[unfolded for_machines_def], of "machines_ok unc D now"] assms(1,3)
  by blast

lemma switch_begin_ok:
  assumes "machines_ok unc D now ms"
    and "switch_on_begin i p ms = Some ms' \<or> switch_off_begin i p ms = Some ms'"
  shows "machines_ok unc D now ms'"
proof -
  obtain m hp where m: "machine_at i ms = Some m" "ms' = put_machine i (m\<lparr>m_host_pstate := hp\<rparr>) ms"
    using assms(2) by (auto simp: switch_on_begin_def switch_off_begin_def run_simps)
  have "becomes i m (m\<lparr>m_host_pstate := hp\<rparr>) ms ms'"
    unfolding m(2) by (rule put_becomes[OF m(1)]) simp
  moreover have "machine_ok (i \<in> D) now (m\<lparr>m_host_pstate := hp\<rparr>)"
    using machines_ok_at[OF assms(1) m(1)] by (simp add: machine_ok_def)
  ultimately show ?thesis by (rule becomes_ok[OF assms(1)])
qed

lemma switch_end_ok:
  assumes "machines_ok unc D now ms" "switch_end st now i p ms = Some ms'"
    and "machine_at i ms = Some m" "busy_ok (i \<in> D) st (m_jobs m)"
  shows "machines_ok unc D now ms'"
proof -
  let ?m1 = "m\<lparr>m_host_pstate := p\<rparr>"
  have r: "update_machine_state now st i (put_machine i ?m1 ms) = Some ms'"
    using assms(2,3) by (auto simp: switch_end_def run_simps)
  have b: "becomes i m ?m1 ms (put_machine i ?m1 ms)" by (rule put_becomes[OF assms(3)]) simp
  have "machine_ok (i \<in> D) now ?m1"
    using machines_ok_at[OF assms(1,3)] by (simp add: machine_ok_def)
  then have ok: "machines_ok unc D now (put_machine i ?m1 ms)" by (rule becomes_ok[OF assms(1) b])
  show ?thesis
  proof (rule update_machine_state_ok[OF ok r])
    fix m' assume "machine_at i (put_machine i ?m1 ms) = Some m'"
    then have "m' = ?m1" by (auto simp: machine_at_def put_machine_def split: if_splits)
    then show "busy_ok (i \<in> D) st (m_jobs m')" using assms(4) by simp
  qed
qed

subsection \<open>Every history\<close>

text \<open>
  What changes machines, each operation as the code runs it, and the machines an operation disturbs.
\<close>

datatype machine_op =
    Job_runs string machines
  | Job_ends string machines
  | Machines_fail machines
  | Machines_return machines
  | Switch_requested bool nat
  | Switch_begins bool nat int
  | Switch_ends bool nat int

fun apply_op :: "rat \<Rightarrow> machine_op \<Rightarrow> sim_machines \<Rightarrow> sim_machines run" where
  "apply_op now (Job_runs job U) ms = update_machines_on_job_run now job U ms"
| "apply_op now (Job_ends job U) ms = update_machines_on_job_end now job U ms"
| "apply_op now (Machines_fail U) ms = for_machines (make_unavailable now) U ms"
| "apply_op now (Machines_return U) ms = for_machines (make_available now) U ms"
| "apply_op now (Switch_requested on i) ms = update_machine_state now
     (if on then TRANSITING_FROM_SLEEPING_TO_COMPUTING else TRANSITING_FROM_COMPUTING_TO_SLEEPING) i ms"
| "apply_op now (Switch_begins on i p) ms = (if on then switch_on_begin i p ms else switch_off_begin i p ms)"
| "apply_op now (Switch_ends on i p) ms = (if on then switch_on_end now i p ms else switch_off_end now i p ms)"

definition runs_job :: "nat \<Rightarrow> sim_machines \<Rightarrow> bool" where
  "runs_job i ms \<longleftrightarrow> (case machine_at i ms of Some m \<Rightarrow> m_jobs m \<noteq> {} | None \<Rightarrow> False)"

fun disturbs :: "machine_op \<Rightarrow> sim_machines \<Rightarrow> nat set" where
  "disturbs (Switch_ends on i p) ms = (if runs_job i ms then {i} else {})"
| "disturbs _ ms = {}"

text \<open>Any operations in any order, at dates that do not go back.\<close>

inductive machines_history :: "rat \<Rightarrow> sim_machines \<Rightarrow> rat \<Rightarrow> sim_machines \<Rightarrow> nat set \<Rightarrow> bool" for t0 ms0 where
  start: "machines_history t0 ms0 t0 ms0 {}"
| later: "machines_history t0 ms0 t ms D \<Longrightarrow> t \<le> now \<Longrightarrow> apply_op now op ms = Some ms' \<Longrightarrow>
    machines_history t0 ms0 now ms' (D \<union> disturbs op ms)"

lemma apply_op_ok:
  assumes "apply_op now op ms = Some ms'" "machines_ok unc D now ms"
  shows "machines_ok unc (D \<union> disturbs op ms) now ms'"
proof -
  have ok: "machines_ok unc (D \<union> disturbs op ms) now ms" by (rule machines_ok_later[OF assms(2)]) simp_all
  show ?thesis
  proof (cases op)
    case (Job_runs job U)
    then show ?thesis using assms(1) for_machines_ok[OF ok _ job_runs_on_ok] by (simp add: update_machines_on_job_run_def)
  next
    case (Job_ends job U)
    then show ?thesis using assms(1) for_machines_ok[OF ok _ job_ends_on_ok] by (simp add: update_machines_on_job_end_def)
  next
    case (Machines_fail U)
    then show ?thesis using assms(1) for_machines_ok[OF ok _ make_unavailable_ok] by simp
  next
    case (Machines_return U)
    then show ?thesis using assms(1) for_machines_ok[OF ok _ make_available_ok] by simp
  next
    case (Switch_requested on i)
    have "update_machine_state now (if on then TRANSITING_FROM_SLEEPING_TO_COMPUTING
        else TRANSITING_FROM_COMPUTING_TO_SLEEPING) i ms = Some ms'" using assms(1) Switch_requested by simp
    then show ?thesis by (rule update_machine_state_ok[OF ok]) (simp add: busy_ok_def)
  next
    case (Switch_begins on i p)
    then show ?thesis using assms(1) switch_begin_ok[OF ok, of i p ms'] by (cases on) auto
  next
    case (Switch_ends on i p)
    let ?st = "if on then IDLE else SLEEPING"
    have e: "switch_end ?st now i p ms = Some ms'"
      using assms(1) Switch_ends by (simp add: switch_on_end_def switch_off_end_def split: if_splits)
    then obtain m where m: "machine_at i ms = Some m" by (auto simp: switch_end_def run_simps)
    have "busy_ok (i \<in> D \<union> disturbs op ms) ?st (m_jobs m)"
      using m Switch_ends by (simp add: busy_ok_def runs_job_def)
    then show ?thesis by (rule switch_end_ok[OF ok e m])
  qed
qed

lemma machines_history_ok:
  "machines_history t0 ms0 t ms D \<Longrightarrow> machines_ok unc {} t0 ms0 \<Longrightarrow> machines_ok unc D t ms"
proof (induction rule: machines_history.induct)
  case (later t ms D now op ms')
  then show ?case using apply_op_ok[OF later(3) machines_ok_later[of unc D t ms now D]] by simp
qed

text \<open>
  C34: Whatever the order of the job starts, job ends, failures, repairs and switches of machines,
  the times a machine spent in its states add up to the date of its last change, the counters of
  machines in each state change with the machines, and a computing machine runs a job.  An idle or
  sleeping machine runs none, except a machine on which a switch has ended while a job ran: the end of
  a switch, unlike its begin, does not check it.
\<close>

theorem machines_stay_consistent:
  assumes "machines_history t0 ms0 t ms disturbed" "machines_ok uncounted {} t0 ms0"
  shows "(\<forall>st. nb_machines_in_each_state ms st =
      int (length (filter (\<lambda>m. m_state m = st) (all_machines ms))) - uncounted st) \<and>
    (\<forall>i < length (all_machines ms). let m = all_machines ms ! i in
       last_state_change_date m \<le> t \<and>
       (\<Sum>st \<in> UNIV. time_spent_in_each_state m st) = last_state_change_date m \<and>
       (m_state m = COMPUTING \<longrightarrow> m_jobs m \<noteq> {}) \<and>
       (m_state m = IDLE \<or> m_state m = SLEEPING \<longrightarrow> m_jobs m = {} \<or> i \<in> disturbed))"
proof (intro conjI allI impI)
  note ok = machines_history_ok[OF assms]
  show "nb_machines_in_each_state ms st =
      int (length (filter (\<lambda>m. m_state m = st) (all_machines ms))) - uncounted st" for st
    using ok by (simp add: machines_ok_def nb_in_def)
  fix i assume i: "i < length (all_machines ms)"
  let ?m = "all_machines ms ! i"
  have "machine_ok (i \<in> disturbed) t ?m" by (rule machines_ok_at[OF ok]) (simp add: machine_at_def i)
  then show "let m = ?m in last_state_change_date m \<le> t \<and>
       (\<Sum>st \<in> UNIV. time_spent_in_each_state m st) = last_state_change_date m \<and>
       (m_state m = COMPUTING \<longrightarrow> m_jobs m \<noteq> {}) \<and>
       (m_state m = IDLE \<or> m_state m = SLEEPING \<longrightarrow> m_jobs m = {} \<or> i \<in> disturbed)"
    unfolding Let_def machine_ok_def busy_ok_def by blast
qed

definition demo_machine :: machine where
  "demo_machine = \<lparr>m_id = 0, m_name = ''a0'', m_permissions = COMPUTE_NODE, m_state = IDLE, m_jobs = {},
     m_pstates = Map.empty, m_sleep_pstates = Map.empty, m_host_pstate = 0, last_state_change_date = 0,
     time_spent_in_each_state = (\<lambda>st. 0), m_speed = 100, m_core_count = 1, m_repair_time = 0,
     m_properties = [], m_zone_properties = []\<rparr>"

definition demo_sim_machines :: sim_machines where
  "demo_sim_machines = \<lparr>all_machines = [demo_machine, demo_machine\<lparr>m_id := 1, m_name := ''a1''\<rparr>],
     nb_machines_in_each_state = (\<lambda>st. if st = IDLE then 2 else 0)\<rparr>"

lemma demo_sim_machines_ok: "machines_ok (\<lambda>st. 0) {} 0 demo_sim_machines"
  by (auto simp: machines_ok_def machine_at_def demo_sim_machines_def demo_machine_def machine_ok_def busy_ok_def
      nb_in_def less_Suc_eq split: if_splits)

theorem machines_stay_consistent_witness:
  "\<exists>ms. machines_history 0 demo_sim_machines 5 ms {} \<and> nb_machines_in_each_state ms COMPUTING = 1 \<and>
     int (length (filter (\<lambda>m. m_state m = COMPUTING) (all_machines ms))) = 1"
proof -
  obtain ms where ms: "apply_op 5 (Job_runs ''w0!1'' {1}) demo_sim_machines = Some ms"
      "nb_machines_in_each_state ms COMPUTING = 1"
    by (simp add: update_machines_on_job_run_def for_machines_def job_runs_on_def update_machine_state_def
        demo_sim_machines_def demo_machine_def machine_at_def put_machine_def
        update_nb_machines_in_each_state_def Let_def)
  have "machines_history 0 demo_sim_machines 5 ms ({} \<union> disturbs (Job_runs ''w0!1'' {1}) demo_sim_machines)"
    by (rule machines_history.later[OF machines_history.start _ ms(1)]) simp
  then have h: "machines_history 0 demo_sim_machines 5 ms {}" by simp
  show ?thesis using machines_stay_consistent[OF h demo_sim_machines_ok] h ms(2) by (intro exI[of _ ms]) simp
qed

text \<open>
  A failure during a transition is forgotten when the transition ends, and the repair then fails an
  assertion: the simulator stops.
\<close>

theorem repair_after_switch_aborts:
  assumes "make_unavailable t1 i ms1 = Some ms2" "apply_op t2 (Switch_ends on i p) ms2 = Some ms3"
  shows "make_available t3 i ms3 = None"
proof -
  have "switch_end (if on then IDLE else SLEEPING) t2 i p ms2 = Some ms3"
    using assms(2) by (simp add: switch_on_end_def switch_off_end_def split: if_splits)
  then obtain m where m: "machine_at i ms3 = Some m" "m_state m = (if on then IDLE else SLEEPING)"
    by (auto simp: switch_end_def update_machine_state_def run_simps Let_def machine_at_def put_machine_def
        update_nb_machines_in_each_state_def split: if_splits)
  then show ?thesis by (simp add: make_available_def run_simps)
qed

subsection \<open>Grouped switches\<close>

text \<open>The machines of a request report in turn; what each report makes the server announce.\<close>

fun marks :: "nat list \<Rightarrow> int \<Rightarrow> switches \<Rightarrow> (machines option list \<times> switches) run" where
  "marks [] p sws = Some ([], sws)"
| "marks (i # is) p sws = do {
     (r, sws1) \<leftarrow> mark_switch_as_done i p sws;
     (rs, sws2) \<leftarrow> marks is p sws1;
     Some (r # rs, sws2) }"

definition others_waiting :: "machines \<Rightarrow> switch list \<Rightarrow> bool" where
  "others_waiting U l \<longleftrightarrow> (\<forall>s \<in> set l. switching_machines s \<inter> U = {})"

lemma mark_in_last:
  assumes "others_waiting {i} l" "i \<in> switching_machines s"
  shows "mark_in i (l @ [s]) =
    Some (if switching_machines s = {i} then (Some (sw_all_machines s), l)
          else (None, l @ [s\<lparr>switching_machines := switching_machines s - {i}\<rparr>]))"
  using assms(1)
proof (induction l)
  case Nil
  have "switching_machines s - {i} = {} \<longleftrightarrow> switching_machines s = {i}" using assms(2) by blast
  then show ?case using assms(2) by simp
qed (simp_all add: others_waiting_def)

lemma marks_of_request:
  assumes "sws p = Some (l @ [s])" "switching_machines s = set is" "distinct is" "is \<noteq> []"
    "others_waiting (set is) l"
  shows "marks is p sws = Some (replicate (length is - 1) None @ [Some (sw_all_machines s)],
    sws(p := if l = [] then None else Some l))"
  using assms
proof (induction "is" arbitrary: sws s)
  case (Cons i "is")
  have o: "others_waiting {i} l" "others_waiting (set is) l"
    using Cons.prems(5) by (auto simp: others_waiting_def)
  have i: "i \<in> switching_machines s" using Cons.prems(2) by simp
  show ?case
  proof (cases "is = []")
    case True
    then show ?thesis using Cons.prems mark_in_last[OF o(1) i]
      by (auto simp: mark_switch_as_done_def)
  next
    case False
    let ?s = "s\<lparr>switching_machines := switching_machines s - {i}\<rparr>"
    have ne: "switching_machines s \<noteq> {i}" using Cons.prems(2,3) False by (cases "is") auto
    have step: "mark_switch_as_done i p sws = Some (None, sws(p \<mapsto> l @ [?s]))"
      using Cons.prems(1) mark_in_last[OF o(1) i] ne by (simp add: mark_switch_as_done_def)
    have "marks is p (sws(p \<mapsto> l @ [?s])) = Some (replicate (length is - 1) None @ [Some (sw_all_machines ?s)],
        (sws(p \<mapsto> l @ [?s]))(p := if l = [] then None else Some l))"
      by (rule Cons.IH) (use Cons.prems False o(2) in auto)
    moreover have "None # replicate (length is - 1) None = replicate (length is) (None :: machines option)"
      using False by (cases "is") auto
    ultimately show ?thesis using step by (auto simp: fun_eq_iff simp flip: append_Cons)
  qed
qed simp

text \<open>
  C35: A grouped change of power state is announced once, when the last of its machines has
  switched, for all the machines of the request; in whatever order the machines report, and with
  other requests pending for the same power state on other machines.
\<close>

theorem switch_announced_once:
  assumes "set is = U" "distinct is" "U \<noteq> {}" "case sws p of Some l \<Rightarrow> l \<noteq> [] \<and> others_waiting U l | None \<Rightarrow> True"
  shows "marks is p (add_switch U p sws) = Some (replicate (card U - 1) None @ [Some U], sws)"
proof -
  let ?s = "\<lparr>target_pstate = p, sw_all_machines = U, switching_machines = U\<rparr>"
  define l where "l = (case sws p of Some l \<Rightarrow> l | None \<Rightarrow> [])"
  have l: "add_switch U p sws = sws(p \<mapsto> l @ [?s])" "others_waiting U l"
      "sws p = (if l = [] then None else Some l)"
    using assms(4) by (auto simp: l_def add_switch_def Let_def others_waiting_def split: option.splits)
  have "marks is p (sws(p \<mapsto> l @ [?s])) = Some (replicate (length is - 1) None @ [Some (sw_all_machines ?s)],
      (sws(p \<mapsto> l @ [?s]))(p := if l = [] then None else Some l))"
  proof (rule marks_of_request)
    show "is \<noteq> []" using assms(1,3) by force
    show "others_waiting (set is) l" using assms(1) l(2) by simp
  qed (use assms(1,2) in simp_all)
  moreover have "length is = card U" using distinct_card[OF assms(2)] assms(1) by simp
  ultimately show ?thesis using l(1,3) by (simp add: fun_upd_idem)
qed

theorem switch_announced_once_witness:
  "marks [3, 1] 2 (add_switch {1, 3} 2 Map.empty) = Some (replicate (card {1::nat, 3} - 1) None @ [Some {1, 3}], Map.empty)"
  by (rule switch_announced_once) auto

end
