(* ===== verification/Sim_Writer.thy ===== *)
theory Sim_Writer
  imports Sim_Reader Sim_Machines
begin

text \<open>
  The simulator's side of the protocol, writing (\<^verbatim>\<open>JsonProtocolWriter\<close> in \<^verbatim>\<open>protocol.cpp\<close> of
  batsim): one operation per type of event, and the message that carries the events.  The events
  are JSON documents; \<open>parse\<close> stands for \<^verbatim>\<open>rapidjson\<close>'s parser, applied to the texts that
  describe jobs, profiles and external events.
\<close>

subsection \<open>The text of a number\<close>

text \<open>
  \<^verbatim>\<open>to_string<double>\<close> prints fifteen decimals, rounding to nearest, ties to even.
\<close>

definition round_even :: "rat \<Rightarrow> int" where
  "round_even x =
     (let f = \<lfloor>x\<rfloor>; r = x - rat_of_int f in
      if r < 1 / 2 \<or> (r = 1 / 2 \<and> even f) then f else f + 1)"

definition pad_left :: "nat \<Rightarrow> string \<Rightarrow> string" where
  "pad_left n s = replicate (n - length s) CHR ''0'' @ s"

definition show_double :: "rat \<Rightarrow> string" where
  "show_double x =
     (let m = nat (round_even (\<bar>x\<bar> * 10 ^ 15)) in
      (if x < 0 then ''-'' else []) @ show_nat (m div 10 ^ 15) @ ''.'' @ pad_left 15 (show_nat (m mod 10 ^ 15)))"

subsection \<open>The state of the writer\<close>

text \<open>
  The last date, the empty flag, and the array of events.  Generating a message moves the array
  into the document, and \<^verbatim>\<open>clear\<close> makes a new one: meanwhile there is no array.
\<close>

record sim_writer =
  sw_last_date :: time
  sw_is_empty :: bool
  sw_events :: "json list option"

definition new_sim_writer :: sim_writer where
  "new_sim_writer = \<lparr>sw_last_date = - 1, sw_is_empty = True, sw_events = Some []\<rparr>"

definition sim_event :: "string \<Rightarrow> json \<Rightarrow> time \<Rightarrow> json" where
  "sim_event typ d date =
     JObject [(''timestamp'', JDouble date), (''type'', JString typ), (''data'', d)]"

definition push_event :: "json \<Rightarrow> time \<Rightarrow> sim_writer \<Rightarrow> sim_writer run" where
  "push_event e date w = do {
     es \<leftarrow> sw_events w;
     Some (w\<lparr>sw_last_date := date, sw_is_empty := False, sw_events := Some (es @ [e])\<rparr>) }"

definition append_dated :: "string \<Rightarrow> json \<Rightarrow> time \<Rightarrow> sim_writer \<Rightarrow> sim_writer run" where
  "append_dated typ d date w = do {
     assertion (sw_last_date w \<le> date);
     push_event (sim_event typ d date) date w }"

definition sim_clear :: "sim_writer \<Rightarrow> sim_writer" where
  "sim_clear w = w\<lparr>sw_is_empty := True, sw_events := Some []\<rparr>"

definition sim_generate_message :: "time \<Rightarrow> sim_writer \<Rightarrow> (json \<times> sim_writer) run" where
  "sim_generate_message date w = do {
     assertion (sw_last_date w \<le> date);
     es \<leftarrow> sw_events w;
     Some (JObject [(''now'', JDouble date), (''events'', JArray es)], w\<lparr>sw_events := None\<rparr>) }"

subsection \<open>The beginning of a simulation\<close>

definition machine_to_json_value :: "machine \<Rightarrow> json" where
  "machine_to_json_value m = JObject
     [(''id'', JInt (m_id m)), (''name'', JString (m_name m)),
      (''state'', JString (machine_state_to_string (m_state m))),
      (''core_count'', JInt (m_core_count m)), (''speed'', JDouble (m_speed m)),
      (''repair-time'', JDouble (m_repair_time m)),
      (''properties'', JObject (map (\<lambda>(k, v). (k, JString v)) (m_properties m))),
      (''zone_properties'', JObject (map (\<lambda>(k, v). (k, JString v)) (m_zone_properties m)))]"

text \<open>
  The workloads are visited in the order of their map, their jobs and profiles in an order the
  containers choose: all three are arguments.  A profile whose text does not parse is sent as null.
\<close>

definition profile_members ::
  "(string \<Rightarrow> json run) \<Rightarrow> string list \<Rightarrow> sim_workload \<Rightarrow> (string \<times> json) list" where
  "profile_members parse ns w =
     fold (\<lambda>n ms. case sw_profiles w n of
         Some (Some p) \<Rightarrow> ms @ [(n, case parse (pf_json p) of Some d \<Rightarrow> d | None \<Rightarrow> JNull)]
       | _ \<Rightarrow> ms) ns []"

definition job_texts :: "string list \<Rightarrow> sim_workload \<Rightarrow> json list" where
  "job_texts ks w = concat (map (\<lambda>k. case sw_jobs w k of Some j \<Rightarrow> [JString (sj_json j)] | None \<Rightarrow> []) ks)"

record visit_order =
  workload_order :: "string list"
  job_order :: "string \<Rightarrow> string list"
  profile_order :: "string \<Rightarrow> string list"

definition append_simulation_begins ::
  "(string \<Rightarrow> json run) \<Rightarrow> visit_order \<Rightarrow> sim_machines \<Rightarrow> workloads \<Rightarrow> json \<Rightarrow> bool \<Rightarrow> bool \<Rightarrow> time \<Rightarrow>
   sim_writer \<Rightarrow> sim_writer run" where
  "append_simulation_begins parse ord ms ws configuration compute_sharing storage_sharing date w = do {
     profiles \<leftarrow> map_run (\<lambda>n. do {
         wl \<leftarrow> ws n; Some (n, JObject (profile_members parse (profile_order ord n) wl)) })
       (workload_order ord);
     files \<leftarrow> map_run (\<lambda>n. do { wl \<leftarrow> ws n; Some (n, JString (sw_file wl)) }) (workload_order ord);
     jobs \<leftarrow> map_run (\<lambda>n. do { wl \<leftarrow> ws n; Some (n, JArray (job_texts (job_order ord n) wl)) })
       (workload_order ord);
     append_dated ''SIMULATION_BEGINS'' (JObject
       [(''nb_resources'', JInt (int (length (all_machines ms)))),
        (''nb_compute_resources'', JInt (int (length (compute_machines ms)))),
        (''nb_storage_resources'', JInt (int (length (storage_machines ms)))),
        (''allow_compute_sharing'', JBool compute_sharing),
        (''allow_storage_sharing'', JBool storage_sharing),
        (''config'', configuration),
        (''compute_resources'', JArray (map machine_to_json_value (compute_machines ms))),
        (''storage_resources'', JArray (map machine_to_json_value (storage_machines ms))),
        (''workloads'', JObject files), (''jobs'', JObject jobs), (''profiles'', JObject profiles)])
       date w }"

definition append_simulation_ends :: "time \<Rightarrow> sim_writer \<Rightarrow> sim_writer run" where
  "append_simulation_ends = append_dated ''SIMULATION_ENDS'' (JObject [])"

subsection \<open>Jobs\<close>

fun add_member :: "string \<Rightarrow> json \<Rightarrow> json \<Rightarrow> json run" where
  "add_member k v (JObject ms) = Some (JObject (ms @ [(k, v)]))"
| "add_member k v _ = None"

definition add_missing :: "string \<Rightarrow> json \<Rightarrow> json \<Rightarrow> json run" where
  "add_missing k v d = do { there \<leftarrow> has_member k d; if there then Some d else add_member k v d }"

definition checkpoint_json :: "checkpoint_job_data \<Rightarrow> json" where
  "checkpoint_json ck = JObject
     [(''allocation'', JString (ck_allocation ck)),
      (''consumed_energy'', JString (show_double (ck_consumed_energy ck))),
      (''jitter'', JString (ck_jitter ck)),
      (''progress'', JString (show_double (ck_progress ck))),
      (''state'', JInt (ck_state ck)),
      (''runtime'', JString (show_double (ck_runtime ck))),
      (''progressTimeCpu'', JString (show_double (ck_progress_time_cpu ck)))]"

definition described_job :: "(string \<Rightarrow> json run) \<Rightarrow> workloads \<Rightarrow> string \<Rightarrow> string \<Rightarrow> json run" where
  "described_job parse ws i job_description = do {
     d \<leftarrow> parse job_description;
     parts \<leftarrow> get_job_parts i;
     wl \<leftarrow> ws (p_workload parts);
     ji \<leftarrow> job_identifier i;
     j \<leftarrow> jobs_at ji wl;
     d1 \<leftarrow> add_missing ''original_submit'' (JDouble (ck_original_submit (sj_checkpoint j))) d;
     d2 \<leftarrow> add_missing ''original_start'' (JDouble (ck_original_start (sj_checkpoint j))) d1;
     d3 \<leftarrow> add_missing ''original_walltime'' (JDouble (sj_original_walltime j)) d2;
     add_member ''checkpoint_job_data'' (checkpoint_json (sj_checkpoint j)) d3 }"

definition append_job_submitted ::
  "(string \<Rightarrow> json run) \<Rightarrow> workloads \<Rightarrow> bool \<Rightarrow> bool \<Rightarrow> string \<Rightarrow> string \<Rightarrow> string \<Rightarrow> time \<Rightarrow>
   sim_writer \<Rightarrow> sim_writer run" where
  "append_job_submitted parse ws redis forward_profiles i job_description profile_description date w = do {
     more \<leftarrow> (if redis then Some []
       else do {
         j \<leftarrow> described_job parse ws i job_description;
         (if forward_profiles then do {
            p \<leftarrow> parse profile_description; Some [(''job'', j), (''profile'', p)] }
          else Some [(''job'', j)]) });
     append_dated ''JOB_SUBMITTED'' (JObject ((''job_id'', JString i) # more)) date w }"

definition append_job_completed ::
  "string \<Rightarrow> string \<Rightarrow> string \<Rightarrow> int \<Rightarrow> time \<Rightarrow> sim_writer \<Rightarrow> sim_writer run" where
  "append_job_completed i st alloc return_code = append_dated ''JOB_COMPLETED'' (JObject
     [(''job_id'', JString i), (''job_state'', JString st), (''return_code'', JInt return_code),
      (''alloc'', JString alloc)])"

text \<open>
  The tree of the tasks of a job.  A leaf knows the remaining ratio of its parallel task once that
  has started, or the start and the length of its delay; the current subtask of a sequence is unset
  before the sequence starts.
\<close>

datatype bat_task = Bat_Task (bt_profile: sim_profile) (bt_ptask: "rat option")
    (bt_delay_start: rat) (bt_delay_required: rat) (bt_current: "nat option") (bt_progress: rat)
    (bt_sub: "bat_task list")

definition is_parallel_task :: "profile_type \<Rightarrow> bool" where
  "is_parallel_task t \<longleftrightarrow> t \<in> {PARALLEL, PARALLEL_HOMOGENEOUS, PARALLEL_HOMOGENEOUS_TOTAL_AMOUNT,
     PARALLEL_HOMOGENEOUS_PFS, DATA_STAGING}"

definition compute_leaf_progress :: "time \<Rightarrow> bat_task \<Rightarrow> bat_task run" where
  "compute_leaf_progress now t = do {
     assertion (bt_sub t = []);
     (case t of Bat_Task p pt ds dr c r sub \<Rightarrow>
        if is_parallel_task (pf_type p) then
          Some (Bat_Task p pt ds dr c (case pt of Some rest \<Rightarrow> 1 - rest | None \<Rightarrow> 0) sub)
        else if pf_type p = DELAY then do {
          assertion (ds \<noteq> - 1);
          Some (Bat_Task p pt ds dr c (if dr = 0 then 1 else (now - ds) / dr) sub) }
        else Some t) }"

fun compute_tasks_progress :: "time \<Rightarrow> bat_task \<Rightarrow> bat_task run"
  and compute_progress_nth :: "time \<Rightarrow> nat \<Rightarrow> bat_task list \<Rightarrow> bat_task list run" where
  "compute_tasks_progress now (Bat_Task p pt ds dr c r sub) =
     (if pf_type p = SEQUENCE then do {
        i \<leftarrow> c;
        sub' \<leftarrow> compute_progress_nth now i sub;
        Some (Bat_Task p pt ds dr c r sub') }
      else compute_leaf_progress now (Bat_Task p pt ds dr c r sub))"
| "compute_progress_nth now i [] = None"
| "compute_progress_nth now 0 (t # ts) = do { t' \<leftarrow> compute_tasks_progress now t; Some (t' # ts) }"
| "compute_progress_nth now (Suc i) (t # ts) = do { ts' \<leftarrow> compute_progress_nth now i ts; Some (t # ts') }"

fun generate_task_tree :: "bat_task \<Rightarrow> json run"
  and generate_task_tree_nth :: "nat \<Rightarrow> bat_task list \<Rightarrow> json run" where
  "generate_task_tree (Bat_Task p pt ds dr c r sub) =
     (if pt \<noteq> None \<or> ds \<noteq> - 1 then
        Some (JObject [(''profile_name'', JString (pf_name p)), (''progress'', JDouble r)])
      else (case c of
          Some i \<Rightarrow> do {
            d \<leftarrow> generate_task_tree_nth i sub;
            Some (JObject [(''profile_name'', JString (pf_name p)),
              (''current_task_index'', JInt (int i)), (''current_task'', d)]) }
        | None \<Rightarrow> Some (JObject [(''profile_name'', JString (pf_name p)),
              (''current_task_index'', JInt (- 1))])))"
| "generate_task_tree_nth i [] = None"
| "generate_task_tree_nth 0 (t # ts) = generate_task_tree t"
| "generate_task_tree_nth (Suc i) (t # ts) = generate_task_tree_nth i ts"

text \<open>
  The killing of jobs.  The progress of a message is set by the killer when the job was still
  running; otherwise the pointer is never set (the code then tests an uninitialised pointer, which
  the model takes as null).
\<close>

definition kill_message_json :: "kill_message \<times> bat_task option \<Rightarrow> json run" where
  "kill_message_json mp = do {
     progress \<leftarrow> (case snd mp of
         Some t \<Rightarrow> do { d \<leftarrow> generate_task_tree t; Some [(''job_progress'', d)] }
       | None \<Rightarrow> Some []);
     Some (JObject ([(''id'', JString (km_simple_id (fst mp))), (''forWhat'', JInt (km_for_what (fst mp)))]
       @ progress)) }"

definition append_job_killed ::
  "(kill_message \<times> bat_task option) list \<Rightarrow> time \<Rightarrow> sim_writer \<Rightarrow> sim_writer run" where
  "append_job_killed msgs date w = do {
     ds \<leftarrow> map_run kill_message_json msgs;
     append_dated ''JOB_KILLED'' (JObject
       [(''job_ids'', JArray (map (\<lambda>mp. JString (km_simple_id (fst mp))) msgs)), (''job_msgs'', JArray ds)])
       date w }"

definition append_from_job_message :: "string \<Rightarrow> json \<Rightarrow> time \<Rightarrow> sim_writer \<Rightarrow> sim_writer run" where
  "append_from_job_message i message =
     append_dated ''FROM_JOB_MSG'' (JObject [(''job_id'', JString i), (''msg'', message)])"

subsection \<open>Machines, answers, calls, notifications\<close>

definition append_resource_state_changed ::
  "hyphen_format \<Rightarrow> machines \<Rightarrow> string \<Rightarrow> time \<Rightarrow> sim_writer \<Rightarrow> sim_writer run" where
  "append_resource_state_changed fmt U new_state = append_dated ''RESOURCE_STATE_CHANGED''
     (JObject [(''resources'', JString (to_hyphen fmt U)), (''state'', JString new_state)])"

definition append_query_estimate_waiting_time ::
  "(string \<Rightarrow> json run) \<Rightarrow> string \<Rightarrow> string \<Rightarrow> time \<Rightarrow> sim_writer \<Rightarrow> sim_writer run" where
  "append_query_estimate_waiting_time parse i job_description date w = do {
     d \<leftarrow> parse job_description;
     append_dated ''QUERY'' (JObject [(''requests'', JObject [(''estimate_waiting_time'',
       JObject [(''job_id'', JString i), (''job'', d)])])]) date w }"

definition append_answer_energy :: "rat \<Rightarrow> time \<Rightarrow> sim_writer \<Rightarrow> sim_writer run" where
  "append_answer_energy joules =
     append_dated ''ANSWER'' (JObject [(''consumed_energy'', JDouble joules)])"

definition append_requested_call :: "time \<Rightarrow> int \<Rightarrow> int \<Rightarrow> sim_writer \<Rightarrow> sim_writer run" where
  "append_requested_call date n what =
     append_dated ''REQUESTED_CALL'' (JObject [(''id'', JInt n), (''forWhat'', JInt what)]) date"

definition append_notify :: "string \<Rightarrow> time \<Rightarrow> sim_writer \<Rightarrow> sim_writer run" where
  "append_notify typ = append_dated ''NOTIFY'' (JObject [(''type'', JString typ)])"

definition append_notify_resource_event ::
  "hyphen_format \<Rightarrow> string \<Rightarrow> machines \<Rightarrow> time \<Rightarrow> sim_writer \<Rightarrow> sim_writer run" where
  "append_notify_resource_event fmt typ U = append_dated ''NOTIFY''
     (JObject [(''type'', JString typ), (''resources'', JString (to_hyphen fmt U))])"

text \<open>Alone among the operations, this one does not check the date.\<close>

definition append_notify_job_fault_event :: "string \<Rightarrow> string \<Rightarrow> time \<Rightarrow> sim_writer \<Rightarrow> sim_writer run" where
  "append_notify_job_fault_event typ i date =
     push_event (sim_event ''NOTIFY'' (JObject [(''type'', JString typ), (''job'', JString i)]) date) date"

definition append_notify_generic_event ::
  "(string \<Rightarrow> json run) \<Rightarrow> string \<Rightarrow> time \<Rightarrow> sim_writer \<Rightarrow> sim_writer run" where
  "append_notify_generic_event parse description date w = do {
     d \<leftarrow> parse description;
     append_dated ''NOTIFY'' d date w }"

text \<open>The notification the server builds after every completion (its description is a document already).\<close>

definition append_batsim_metadata :: "string \<Rightarrow> string \<Rightarrow> time \<Rightarrow> sim_writer \<Rightarrow> sim_writer run" where
  "append_batsim_metadata i metadata = append_dated ''NOTIFY'' (JObject
     [(''type'', JString ''batsim_metadata''), (''job_id'', JString i), (''metadata'', JString metadata)])"

end
