(* ===== verification/Sched_Main.thy ===== *)
theory Sched_Main
  imports Sched_Workload
begin

text \<open>
  The main loop of batsched (\<^verbatim>\<open>run\<close> in \<^verbatim>\<open>main.cpp\<close>) and the state every algorithm has
  (\<^verbatim>\<open>isalgorithm.cpp\<close>): a message of the simulator is read event by event, each event updates the
  workload and calls the algorithm back, then the algorithm makes its decisions and the answer is
  sent.  The algorithm is a parameter: it owns a state \<open>'a\<close>, receives \<open>callback\<close>s and works on the
  workload and on the decisions.
\<close>

subsection \<open>Callbacks\<close>

datatype callback =
    On_simulation_start json
  | On_start_from_checkpoint json
  | On_simulation_end
  | On_job_release "job_id list"
  | On_job_end "job_id list"
  | On_job_killed "(job_id \<times> rat \<times> int) list"
  | On_machine_state_changed machines int
  | On_requested_call int int
  | On_answer_energy_consumption rat
  | On_query_estimate_waiting_time job_id
  | On_no_more_static_job_to_submit
  | On_no_more_external_event_to_occur
  | On_machine_available machines
  | On_machine_unavailable machines
  | On_myKillJob
  | On_job_fault string

subsection \<open>The base class\<close>

text \<open>
  What happened since the last decisions.  A killed job is recorded by its identifier with its
  progress and the reason; the first record of an identifier is kept.
\<close>

record base_algorithm =
  nb_machines_total :: int
  jobs_released_recently :: "job_id list"
  jobs_ended_recently :: "job_id list"
  jobs_killed_recently :: "job_id \<Rightarrow> (rat \<times> int) option"
  waiting_time_requests :: "job_id list"
  pstate_changed_recently :: "int \<Rightarrow> machines option"
  became_available_recently :: machines
  became_unavailable_recently :: machines
  nopped_recently :: bool
  consumed_joules_updated :: bool
  consumed_joules :: rat
  no_more_static_job_received :: bool
  no_more_external_event_received :: bool
  need_to_checkpoint :: bool
  need_to_send_checkpoint :: bool
  nb_batsim_checkpoints :: int
  checkpoint_interval_seconds :: int
  checkpoint_interval_type :: string

definition set_nb_machines :: "int \<Rightarrow> base_algorithm \<Rightarrow> base_algorithm run" where
  "set_nb_machines n a = do { assertion (nb_machines_total a = - 1); Some (a\<lparr>nb_machines_total := n\<rparr>) }"

definition set_checkpoint_time :: "int \<Rightarrow> string \<Rightarrow> base_algorithm \<Rightarrow> base_algorithm" where
  "set_checkpoint_time seconds typ a =
     a\<lparr>checkpoint_interval_type := typ, checkpoint_interval_seconds := seconds\<rparr>"

definition clear_recent_data_structures :: "base_algorithm \<Rightarrow> base_algorithm" where
  "clear_recent_data_structures a = a\<lparr>jobs_released_recently := [], jobs_ended_recently := [],
     jobs_killed_recently := Map.empty, waiting_time_requests := [], pstate_changed_recently := Map.empty,
     became_available_recently := {}, became_unavailable_recently := {}, nopped_recently := False,
     consumed_joules_updated := False, consumed_joules := - 1\<rparr>"

fun base_callback :: "callback \<Rightarrow> base_algorithm \<Rightarrow> base_algorithm" where
  "base_callback (On_job_release is) a = a\<lparr>jobs_released_recently := jobs_released_recently a @ is\<rparr>"
| "base_callback (On_job_end is) a = a\<lparr>jobs_ended_recently := jobs_ended_recently a @ is\<rparr>"
| "base_callback (On_job_killed msgs) a =
     a\<lparr>jobs_killed_recently := map_of (map (\<lambda>(i, v). (i, v)) msgs) ++ jobs_killed_recently a\<rparr>"
| "base_callback (On_machine_state_changed U p) a =
     a\<lparr>pstate_changed_recently := (pstate_changed_recently a)(p \<mapsto>
        (case pstate_changed_recently a p of None \<Rightarrow> U | Some V \<Rightarrow> V \<union> U))\<rparr>"
| "base_callback (On_requested_call n what) a =
     (if what = call_me_later_number CHECKPOINT_BATSCHED then a\<lparr>need_to_checkpoint := True\<rparr> else a)
       \<lparr>nopped_recently := True\<rparr>"
| "base_callback On_no_more_static_job_to_submit a = a\<lparr>no_more_static_job_received := True\<rparr>"
| "base_callback On_no_more_external_event_to_occur a = a\<lparr>no_more_external_event_received := True\<rparr>"
| "base_callback (On_answer_energy_consumption x) a =
     a\<lparr>consumed_joules := x, consumed_joules_updated := True\<rparr>"
| "base_callback (On_machine_available U) a =
     a\<lparr>became_available_recently := became_available_recently a \<union> U\<rparr>"
| "base_callback (On_machine_unavailable U) a =
     a\<lparr>became_unavailable_recently := became_unavailable_recently a \<union> U\<rparr>"
| "base_callback (On_query_estimate_waiting_time i) a =
     a\<lparr>waiting_time_requests := waiting_time_requests a @ [i]\<rparr>"
| "base_callback _ a = a"

text \<open>\<^verbatim>\<open>real\<close> is the number of seconds since the start in real time.\<close>

definition check_checkpoint_time :: "rat \<Rightarrow> time \<Rightarrow> base_algorithm \<Rightarrow> bool" where
  "check_checkpoint_time real_seconds date a \<longleftrightarrow>
     (let next = rat_of_int (checkpoint_interval_seconds a * (nb_batsim_checkpoints a + 1)) in
      if checkpoint_interval_type a = ''simulated'' then next \<le> date
      else next \<le> rat_of_int \<lfloor>real_seconds\<rfloor>)"

definition send_batsim_checkpoint_if_ready ::
  "rat \<Rightarrow> time \<Rightarrow> base_algorithm \<Rightarrow> decisions \<Rightarrow> (bool \<times> base_algorithm \<times> decisions) run" where
  "send_batsim_checkpoint_if_ready real_seconds date a d =
     (if (checkpoint_interval_type a \<noteq> ''False'' \<and> check_checkpoint_time real_seconds date a)
         \<or> need_to_send_checkpoint a then do {
        d1 \<leftarrow> add_generic_notification ''checkpoint'' [] date d;
        Some (True, a\<lparr>need_to_send_checkpoint := False,
          nb_batsim_checkpoints := nb_batsim_checkpoints a + 1\<rparr>, d1) }
      else Some (False, a, d))"

subsection \<open>Reading events\<close>

text \<open>The algorithm, as the main loop sees it.\<close>

record 'a algorithm =
  call_back :: "time \<Rightarrow> callback \<Rightarrow> sched_workload \<times> decisions \<times> 'a \<Rightarrow> (sched_workload \<times> decisions \<times> 'a) run"
  make_decisions :: "time \<Rightarrow> time \<Rightarrow> sched_workload \<times> decisions \<times> 'a \<Rightarrow> (sched_workload \<times> decisions \<times> 'a) run"
  on_base :: "(base_algorithm \<Rightarrow> base_algorithm run) \<Rightarrow> 'a \<Rightarrow> 'a run"

text \<open>What the main loop calls outside.\<close>

record sched_externals =
  profile_loads :: "job_id \<Rightarrow> json \<Rightarrow> bool"
  redis_job :: "job_id \<Rightarrow> string"
  parse_text :: "string \<Rightarrow> json run"

record 'a main_state =
  wl :: sched_workload
  dec :: decisions
  algo :: 'a
  sim_machine_list :: sched_machines
  simulation_finished :: bool
  redis_on :: bool

definition notify :: "'a algorithm \<Rightarrow> time \<Rightarrow> callback \<Rightarrow> 'a main_state \<Rightarrow> 'a main_state run" where
  "notify al date cb s = do {
     (w, d, a) \<leftarrow> call_back al date cb (wl s, dec s, algo s);
     Some (s\<lparr>wl := w, dec := d, algo := a\<rparr>) }"

definition bool_member :: "string \<Rightarrow> json \<Rightarrow> bool run" where
  "bool_member k d = do { v \<leftarrow> member_at k d; get_bool v }"

definition read_simulation_parameters :: "json \<Rightarrow> json \<Rightarrow> sched_workload \<Rightarrow> sched_workload run" where
  "read_simulation_parameters d config w = do {
     on \<leftarrow> bool_member ''checkpointing_on'' config;
     comp \<leftarrow> bool_member ''compute_checkpointing'' config;
     interval \<leftarrow> double_member ''checkpointing_interval'' config;
     mtbf \<leftarrow> double_member ''MTBF'' config;
     smtbf \<leftarrow> double_member ''SMTBF'' config;
     repair \<leftarrow> double_member ''repair_time'' config;
     ff \<leftarrow> double_member ''fixed_failures'' config;
     cr \<leftarrow> member_at ''compute_resources'' d;
     rs \<leftarrow> elements cr;
     assertion (rs \<noteq> []);
     speed \<leftarrow> double_member ''speed'' (hd rs);
     seedf \<leftarrow> bool_member ''seed-failures'' config;
     depth \<leftarrow> int_member ''scheduler-queue-depth'' config;
     subtract \<leftarrow> bool_member ''subtract-progress-from-walltime'' config;
     seedr \<leftarrow> bool_member ''seed-repair-time'' config;
     mttr \<leftarrow> double_member ''MTTR'' config;
     ck \<leftarrow> member_at ''start-from-checkpoint'' config;
     started \<leftarrow> bool_member ''started_from_checkpoint'' ck;
     folder \<leftarrow> int_member ''nb_folder'' ck;
     nck \<leftarrow> int_member ''nb_checkpoint'' ck;
     prev \<leftarrow> int_member ''nb_previously_completed'' ck;
     orig \<leftarrow> int_member ''nb_original_jobs'' ck;
     Some (w\<lparr>checkpointing_on := on, compute_checkpointing := comp, checkpointing_interval := interval,
       wl_MTBF := mtbf, wl_SMTBF := smtbf, wl_repair_time := repair, fixed_failures := ff,
       host_speed := speed, seed_failures := seedf, queue_depth := depth,
       subtract_progress_from_walltime := subtract, seed_repair_time := seedr, wl_MTTR := mttr,
       started_from_checkpoint := started, nb_folder := folder, nb_checkpoint := nck,
       nb_previously_completed := prev, nb_original_jobs := orig\<rparr>) }"

text \<open>
  The beginning of the simulation.  The signal and the addresses of the Redis server are read and
  otherwise ignored here.
\<close>

definition read_simulation_begins ::
  "'a algorithm \<Rightarrow> time \<Rightarrow> json \<Rightarrow> 'a main_state \<Rightarrow> 'a main_state run" where
  "read_simulation_begins al date d s = do {
     config \<leftarrow> member_at ''config'' d;
     sig \<leftarrow> int_member ''checkpoint-signal'' config;
     interval \<leftarrow> member_at ''checkpoint-batsim-interval'' config;
     raw \<leftarrow> string_member ''raw'' interval;
     (secs, typ) \<leftarrow> (if raw \<noteq> ''False'' then do {
         n \<leftarrow> int_member ''total_seconds'' interval;
         t \<leftarrow> string_member ''type'' interval;
         Some (n, t) } else Some (0, ''False''));
     a1 \<leftarrow> on_base al (\<lambda>b. Some (set_checkpoint_time secs typ b)) (algo s);
     compute \<leftarrow> has_member ''nb_compute_resources'' d;
     nb \<leftarrow> int_member (if compute then ''nb_compute_resources'' else ''nb_resources'') d;
     redis \<leftarrow> bool_member ''redis-enabled'' config;
     (if redis then do {
        h \<leftarrow> string_member ''redis-hostname'' config;
        p \<leftarrow> int_member ''redis-port'' config;
        x \<leftarrow> string_member ''redis-prefix'' config;
        Some () } else Some ());
     cr \<leftarrow> member_at ''compute_resources'' d;
     rs \<leftarrow> elements cr;
     ms \<leftarrow> fold_run add_machine_from_json_object rs no_machines;
     w \<leftarrow> read_simulation_parameters d config (wl s);
     a2 \<leftarrow> on_base al (set_nb_machines nb) a1;
     notify al date (if started_from_checkpoint w then On_start_from_checkpoint d else On_simulation_start d)
       (s\<lparr>wl := w, algo := a2, sim_machine_list := ms, redis_on := redis\<rparr>) }"

text \<open>
  The progress of a killed job.  The text of \<^verbatim>\<open>job_progress\<close> is parsed; as long as the document has
  no member \<^verbatim>\<open>progress\<close>, its \<^verbatim>\<open>current_task\<close> is written by the same writer into the same buffer.
  A writer accepts one document only (an assertion of \<^verbatim>\<open>rapidjson\<close>), so the loop never turns.
\<close>

definition read_progress :: "json \<Rightarrow> rat run" where
  "read_progress d = do {
     final \<leftarrow> has_member ''progress'' d;
     (if final then double_member ''progress'' d
      else do {
        nested \<leftarrow> has_member ''current_task'' d;
        assertion nested;
        None }) }"

definition read_killed_job :: "json \<Rightarrow> (job_id \<times> rat \<times> int) run" where
  "read_killed_job v = do {
     i \<leftarrow> string_member ''id'' v;
     what \<leftarrow> int_member ''forWhat'' v;
     p \<leftarrow> member_at ''job_progress'' v;
     x \<leftarrow> read_progress p;
     Some (i, x, what) }"

text \<open>\<^verbatim>\<open>insert\<close> keeps the first message of an identifier.\<close>

definition keep_first :: "('k \<times> 'v) list \<Rightarrow> ('k \<times> 'v) list" where
  "keep_first kvs = foldl (\<lambda>m kv. if fst kv \<in> set (map fst m) then m else m @ [kv]) [] kvs"

definition read_answer ::
  "'a algorithm \<Rightarrow> time \<Rightarrow> json \<Rightarrow> 'a main_state \<Rightarrow> 'a main_state run" where
  "read_answer al date d s = do {
     ms \<leftarrow> members d;
     fold_run (\<lambda>(k, v) s'. do {
       assertion (k = ''consumed_energy'');
       x \<leftarrow> get_double v;
       notify al date (On_answer_energy_consumption x) s' }) ms s }"

definition read_query ::
  "'a algorithm \<Rightarrow> sched_externals \<Rightarrow> hyphen_format \<Rightarrow> time \<Rightarrow> json \<Rightarrow> 'a main_state \<Rightarrow> 'a main_state run" where
  "read_query al ex fmt date d s = do {
     rq \<leftarrow> member_at ''requests'' d;
     ms \<leftarrow> members rq;
     fold_run (\<lambda>(k, v) s'. do {
       assertion (k = ''estimate_waiting_time'');
       i \<leftarrow> string_member ''job_id'' v;
       jo \<leftarrow> member_at ''job'' v;
       w \<leftarrow> add_job_from_json_object (profile_loads ex) fmt jo i date (wl s');
       notify al date (On_query_estimate_waiting_time i) (s'\<lparr>wl := w\<rparr>) }) ms s }"

definition read_notify ::
  "'a algorithm \<Rightarrow> hyphen_format \<Rightarrow> time \<Rightarrow> json \<Rightarrow> 'a main_state \<Rightarrow> 'a main_state run" where
  "read_notify al fmt date d s = do {
     typ \<leftarrow> string_member ''type'' d;
     if typ = ''no_more_static_job_to_submit'' then notify al date On_no_more_static_job_to_submit s
     else if typ = ''no_more_external_event_to_occur'' then notify al date On_no_more_external_event_to_occur s
     else if typ = ''event_machine_available'' then do {
       t \<leftarrow> string_member ''resources'' d;
       U \<leftarrow> from_hyphen fmt t;
       notify al date (On_machine_available U) s }
     else if typ = ''event_machine_unavailable'' then do {
       t \<leftarrow> string_member ''resources'' d;
       U \<leftarrow> from_hyphen fmt t;
       notify al date (On_machine_unavailable U) s }
     else if typ = ''myKillJob'' then notify al date On_myKillJob s
     else if typ = ''job_fault'' then do { i \<leftarrow> string_member ''job'' d; notify al date (On_job_fault i) s }
     else if typ = ''batsim_metadata'' then do { t \<leftarrow> string_member ''metadata'' d; Some s }
     else if typ = ''test'' then Some s
     else None }"

text \<open>One event: its type, its date and its data are read first.\<close>

definition read_event_data ::
  "'a algorithm \<Rightarrow> sched_externals \<Rightarrow> hyphen_format \<Rightarrow> string \<Rightarrow> time \<Rightarrow> json \<Rightarrow> 'a main_state \<Rightarrow>
   'a main_state run" where
  "read_event_data al ex fmt typ date d s =
     (if typ = ''SIMULATION_BEGINS'' then read_simulation_begins al date d s
      else if typ = ''SIMULATION_ENDS'' then do {
        s1 \<leftarrow> notify al date On_simulation_end s;
        Some (s1\<lparr>simulation_finished := True\<rparr>) }
      else if typ = ''JOB_SUBMITTED'' then do {
        i \<leftarrow> string_member ''job_id'' d;
        w \<leftarrow> (if redis_on s then add_job_from_redis (parse_text ex) fmt (redis_job ex) i date (wl s)
             else add_job_from_json_object (profile_loads ex) fmt d i date (wl s));
        notify al date (On_job_release [i]) (s\<lparr>wl := w\<rparr>) }
      else if typ = ''JOB_COMPLETED'' then do {
        i \<leftarrow> string_member ''job_id'' d;
        w \<leftarrow> complete_job i date (wl s);
        notify al date (On_job_end [i]) (s\<lparr>wl := w\<rparr>) }
      else if typ = ''RESOURCE_STATE_CHANGED'' then do {
        t \<leftarrow> string_member ''resources'' d;
        U \<leftarrow> from_hyphen fmt t;
        p \<leftarrow> string_member ''state'' d;
        n \<leftarrow> stoi p;
        notify al date (On_machine_state_changed U n) s }
      else if typ = ''JOB_KILLED'' then do {
        v \<leftarrow> member_at ''job_msgs'' d;
        vs \<leftarrow> elements v;
        msgs \<leftarrow> map_run read_killed_job vs;
        notify al date (On_job_killed (keep_first msgs)) s }
      else if typ = ''REQUESTED_CALL'' then do {
        n \<leftarrow> int_member ''id'' d;
        what \<leftarrow> int_member ''forWhat'' d;
        notify al date (On_requested_call n what) s }
      else if typ = ''ANSWER'' then read_answer al date d s
      else if typ = ''QUERY'' then read_query al ex fmt date d s
      else if typ = ''NOTIFY'' then read_notify al fmt date d s
      else None)"

text \<open>The date of the event read last, and whether a requested call was among them, are kept beside.\<close>

definition read_event ::
  "'a algorithm \<Rightarrow> sched_externals \<Rightarrow> hyphen_format \<Rightarrow> json \<Rightarrow> 'a main_state \<times> time \<times> bool \<Rightarrow>
   ('a main_state \<times> time \<times> bool) run" where
  "read_event al ex fmt e sdb = do {
     typ \<leftarrow> string_member ''type'' e;
     date \<leftarrow> double_member ''timestamp'' e;
     d \<leftarrow> member_at ''data'' e;
     s \<leftarrow> read_event_data al ex fmt typ date d (fst sdb);
     Some (s, date, snd (snd sdb) \<or> typ = ''REQUESTED_CALL'') }"

subsection \<open>One turn of the loop\<close>

text \<open>The decisions, unless they are to be skipped, and the answer, dated after all of them.\<close>

definition decide_and_answer ::
  "'a algorithm \<Rightarrow> sched_externals \<Rightarrow> hyphen_format \<Rightarrow> bool \<Rightarrow> time \<Rightarrow> time \<Rightarrow> 'a main_state \<Rightarrow>
   ('a main_state \<times> json) run" where
  "decide_and_answer al ex fmt skip now current s1 = do {
     s2 \<leftarrow> (if skip then Some s1
           else do {
             (w, d, a) \<leftarrow> make_decisions al now current (wl s1, dec s1, algo s1);
             a' \<leftarrow> on_base al (\<lambda>b. Some (clear_recent_data_structures b)) a;
             Some (s1\<lparr>wl := w, dec := d, algo := a'\<rparr>) });
     let date = max now (last_date (writer (dec s2)));
     answer \<leftarrow> decisions_content (parse_text ex) fmt date (dec s2);
     Some (s2, answer) }"

text \<open>\<open>single_nop\<close> is \<^verbatim>\<open>call_make_decisions_on_single_nop\<close>.\<close>

definition handle_message ::
  "'a algorithm \<Rightarrow> sched_externals \<Rightarrow> hyphen_format \<Rightarrow> bool \<Rightarrow> json \<Rightarrow> 'a main_state \<Rightarrow>
   ('a main_state \<times> json) run" where
  "handle_message al ex fmt single_nop doc s = do {
     now \<leftarrow> double_member ''now'' doc;
     v \<leftarrow> member_at ''events'' doc;
     es \<leftarrow> elements v;
     (s1, current, requested) \<leftarrow>
       fold_run (read_event al ex fmt) es (s\<lparr>dec := decisions_clear (dec s)\<rparr>, now, False);
     decide_and_answer al ex fmt (\<not> single_nop \<and> requested \<and> length es = 1) now current s1 }"

text \<open>The loop over the messages received stops after the one that ends the simulation.\<close>

fun run_loop ::
  "'a algorithm \<Rightarrow> sched_externals \<Rightarrow> hyphen_format \<Rightarrow> bool \<Rightarrow> json list \<Rightarrow> 'a main_state \<Rightarrow>
   ('a main_state \<times> json list) run" where
  "run_loop al ex fmt single_nop msgs s =
     (if simulation_finished s then Some (s, [])
      else (case msgs of
          [] \<Rightarrow> None
        | doc # rest \<Rightarrow> do {
            (s1, answer) \<leftarrow> handle_message al ex fmt single_nop doc s;
            (s2, answers) \<leftarrow> run_loop al ex fmt single_nop rest s1;
            Some (s2, answer # answers) }))"

end
