(* ===== verification/Sched_Wire.thy ===== *)
theory Sched_Wire
  imports Sim_Writer Sched_Main Wire Job_Names
begin

text \<open>
  From the simulator to the scheduler: what the writer of batsim records reaches the algorithm of
  batsched as the callbacks it stands for.
\<close>

subsection \<open>Operations of the simulator's writer\<close>

text \<open>
  A call of one of the writer's operations with its arguments; only the beginning of the simulation
  is apart.  \<open>Op_batsim_metadata\<close> is the notification that follows every completion.
\<close>

datatype sim_op =
    Op_requested_call int int
  | Op_simulation_ends
  | Op_job_submitted "string \<Rightarrow> json run" workloads bool bool string string string
  | Op_job_completed string string string int
  | Op_batsim_metadata string string
  | Op_job_killed "(kill_message \<times> bat_task option) list"
  | Op_resource_state_changed machines int
  | Op_answer_energy rat
  | Op_notify string
  | Op_notify_resource string machines
  | Op_job_fault string
  | Op_notify_generic "string \<Rightarrow> json run" string
  | Op_from_job_message string json
  | Op_query_waiting_time "string \<Rightarrow> json run" string string

fun write_op :: "hyphen_format \<Rightarrow> time \<times> sim_op \<Rightarrow> sim_writer \<Rightarrow> sim_writer run" where
  "write_op fmt (date, Op_requested_call n what) = append_requested_call date n what"
| "write_op fmt (date, Op_simulation_ends) = append_simulation_ends date"
| "write_op fmt (date, Op_job_submitted parse ws redis forward i jd pd) =
     append_job_submitted parse ws redis forward i jd pd date"
| "write_op fmt (date, Op_job_completed i st al rc) = append_job_completed i st al rc date"
| "write_op fmt (date, Op_batsim_metadata i m) = append_batsim_metadata i m date"
| "write_op fmt (date, Op_job_killed msgs) = append_job_killed msgs date"
| "write_op fmt (date, Op_resource_state_changed U p) =
     append_resource_state_changed fmt U (show_int p) date"
| "write_op fmt (date, Op_answer_energy x) = append_answer_energy x date"
| "write_op fmt (date, Op_notify t) = append_notify t date"
| "write_op fmt (date, Op_notify_resource t U) = append_notify_resource_event fmt t U date"
| "write_op fmt (date, Op_job_fault i) = append_notify_job_fault_event ''job_fault'' i date"
| "write_op fmt (date, Op_notify_generic parse t) = append_notify_generic_event parse t date"
| "write_op fmt (date, Op_from_job_message i m) = append_from_job_message i m date"
| "write_op fmt (date, Op_query_waiting_time parse i jd) =
     append_query_estimate_waiting_time parse i jd date"

text \<open>A task whose progress is sent at once: a leaf that has started.\<close>

definition started_leaf :: "bat_task option \<Rightarrow> bool" where
  "started_leaf t \<longleftrightarrow> (\<exists>t'. t = Some t' \<and> (bt_ptask t' \<noteq> None \<or> bt_delay_start t' \<noteq> - 1))"

definition killed_entry :: "kill_message \<times> bat_task option \<Rightarrow> job_id \<times> rat \<times> int" where
  "killed_entry mp = (km_simple_id (fst mp), bt_progress (the (snd mp)), km_for_what (fst mp))"

text \<open>The type of a notification taken from a file of external events.\<close>

definition generic_type :: "(string \<Rightarrow> json run) \<Rightarrow> string \<Rightarrow> string run" where
  "generic_type parse t = do { d \<leftarrow> parse t; string_member ''type'' d }"

definition named_notifications :: "string set" where
  "named_notifications = {''no_more_static_job_to_submit'', ''no_more_external_event_to_occur'',
     ''event_machine_available'', ''event_machine_unavailable'', ''job_fault'', ''batsim_metadata''}"

text \<open>
  The arguments the writer is called with: integers of the code's width, sets of machines that are
  not empty, the two notifications without data, external events that do not pass for one of the
  simulator's own notifications, and a description of a job that is the description itself.
\<close>

fun well_formed_op :: "sim_op \<Rightarrow> bool" where
  "well_formed_op (Op_requested_call n what) \<longleftrightarrow> fits_int n \<and> fits_int what"
| "well_formed_op (Op_job_killed msgs) \<longleftrightarrow> (\<forall>mp \<in> set msgs. fits_int (km_for_what (fst mp)))"
| "well_formed_op (Op_resource_state_changed U p) \<longleftrightarrow> finite U \<and> U \<noteq> {} \<and> fits_int p"
| "well_formed_op (Op_notify t) \<longleftrightarrow>
     t = ''no_more_static_job_to_submit'' \<or> t = ''no_more_external_event_to_occur''"
| "well_formed_op (Op_notify_resource t U) \<longleftrightarrow>
     (t = ''event_machine_available'' \<or> t = ''event_machine_unavailable'') \<and> finite U \<and> U \<noteq> {}"
| "well_formed_op (Op_notify_generic parse t) \<longleftrightarrow>
     (case generic_type parse t of Some n \<Rightarrow> n \<notin> named_notifications | None \<Rightarrow> True)"
| "well_formed_op (Op_query_waiting_time parse i jd) \<longleftrightarrow>
     (case parse jd of Some d \<Rightarrow> has_member ''job'' d \<noteq> Some True | None \<Rightarrow> True)"
| "well_formed_op _ \<longleftrightarrow> True"

text \<open>
  What an operation means to the scheduler: the change of its workload and the callback, or an
  abort.  It aborts on the kill of a job that is not one started task, on a message of a job, on a
  query of a waiting time and on a notification it does not know; a submission needs the same
  choice of Redis on both sides, and the profile beside the job without it.
\<close>

definition deliver_submission ::
  "sched_externals \<Rightarrow> hyphen_format \<Rightarrow> (string \<Rightarrow> json run) \<Rightarrow> workloads \<Rightarrow> bool \<Rightarrow> string \<Rightarrow> string \<Rightarrow>
   string \<Rightarrow> time \<Rightarrow> 'a main_state \<Rightarrow> sched_workload run" where
  "deliver_submission ex fmt parse ws with_profile i jd pd date s =
     (if redis_on s then add_job_from_redis (parse_text ex) fmt (redis_job ex) i date (wl s)
      else do {
        assertion with_profile;
        d \<leftarrow> described_job parse ws i jd;
        p \<leftarrow> parse pd;
        (j, w) \<leftarrow> job_from_json_objects (profile_loads ex) fmt d p (wl s);
        add_new_job i date j w })"

fun deliver ::
  "'a algorithm \<Rightarrow> sched_externals \<Rightarrow> hyphen_format \<Rightarrow> time \<times> sim_op \<Rightarrow> 'a main_state \<Rightarrow> 'a main_state run" where
  "deliver al ex fmt (date, Op_requested_call n what) s = notify al date (On_requested_call n what) s"
| "deliver al ex fmt (date, Op_simulation_ends) s = do {
     s1 \<leftarrow> notify al date On_simulation_end s; Some (s1\<lparr>simulation_finished := True\<rparr>) }"
| "deliver al ex fmt (date, Op_job_submitted parse ws redis forward i jd pd) s = do {
     w \<leftarrow> deliver_submission ex fmt parse ws (\<not> redis \<and> forward) i jd pd date s;
     notify al date (On_job_release [i]) (s\<lparr>wl := w\<rparr>) }"
| "deliver al ex fmt (date, Op_job_completed i st alloc rc) s = do {
     w \<leftarrow> complete_job i date (wl s); notify al date (On_job_end [i]) (s\<lparr>wl := w\<rparr>) }"
| "deliver al ex fmt (date, Op_batsim_metadata i m) s = Some s"
| "deliver al ex fmt (date, Op_job_killed msgs) s = do {
     assertion (\<forall>mp \<in> set msgs. started_leaf (snd mp));
     notify al date (On_job_killed (keep_first (map killed_entry msgs))) s }"
| "deliver al ex fmt (date, Op_resource_state_changed U p) s =
     notify al date (On_machine_state_changed U p) s"
| "deliver al ex fmt (date, Op_answer_energy x) s = notify al date (On_answer_energy_consumption x) s"
| "deliver al ex fmt (date, Op_notify t) s = notify al date
     (if t = ''no_more_static_job_to_submit'' then On_no_more_static_job_to_submit
      else On_no_more_external_event_to_occur) s"
| "deliver al ex fmt (date, Op_notify_resource t U) s = notify al date
     (if t = ''event_machine_available'' then On_machine_available U else On_machine_unavailable U) s"
| "deliver al ex fmt (date, Op_job_fault i) s = notify al date (On_job_fault i) s"
| "deliver al ex fmt (date, Op_notify_generic parse t) s =
     (if generic_type parse t = Some ''myKillJob'' then notify al date On_myKillJob s
      else if generic_type parse t = Some ''test'' then Some s
      else None)"
| "deliver al ex fmt (date, Op_from_job_message i m) s = None"
| "deliver al ex fmt (date, Op_query_waiting_time parse i jd) s = None"

subsection \<open>One operation\<close>

text \<open>The event an operation records.\<close>

definition records :: "sim_writer \<Rightarrow> json \<Rightarrow> sim_writer \<Rightarrow> bool" where
  "records w e w' \<longleftrightarrow> (\<exists>es. sw_events w = Some es \<and> sw_events w' = Some (es @ [e]))"

lemma append_dated_records:
  "append_dated typ d date w = Some w' \<Longrightarrow> records w (sim_event typ d date) w'"
  by (auto simp: append_dated_def push_event_def records_def run_simps)

lemma started_leaf_progress:
  assumes "started_leaf (snd mp)" "fits_int (km_for_what (fst mp))" "kill_message_json mp = Some d"
  shows "read_killed_job d = Some (killed_entry mp)"
proof -
  obtain t where t: "snd mp = Some t" "bt_ptask t \<noteq> None \<or> bt_delay_start t \<noteq> - 1"
    using assms(1) by (auto simp: started_leaf_def)
  have g: "generate_task_tree t =
      Some (JObject [(''profile_name'', JString (pf_name (bt_profile t))), (''progress'', JDouble (bt_progress t))])"
    using t(2) by (cases t) auto
  have "d = JObject [(''id'', JString (km_simple_id (fst mp))), (''forWhat'', JInt (km_for_what (fst mp))),
      (''job_progress'', JObject [(''profile_name'', JString (pf_name (bt_profile t))),
         (''progress'', JDouble (bt_progress t))])]"
    using assms(3) t(1) g by (simp add: kill_message_json_def)
  then show ?thesis using assms(2) t(1)
    by (simp add: read_killed_job_def read_progress_def killed_entry_def json_simps)
qed

lemma killed_not_leaf:
  assumes "kill_message_json mp = Some d" "\<not> started_leaf (snd mp)"
  shows "read_killed_job d = None"
proof (cases "snd mp")
  case None
  then have "d = JObject [(''id'', JString (km_simple_id (fst mp))), (''forWhat'', JInt (km_for_what (fst mp)))]"
    using assms(1) by (simp add: kill_message_json_def)
  then show ?thesis by (simp add: read_killed_job_def json_simps)
next
  case (Some t)
  then have t: "bt_ptask t = None" "bt_delay_start t = - 1" using assms(2) by (auto simp: started_leaf_def)
  obtain tree where tree: "generate_task_tree t = Some tree"
      "d = JObject [(''id'', JString (km_simple_id (fst mp))), (''forWhat'', JInt (km_for_what (fst mp))),
        (''job_progress'', tree)]"
    using assms(1) Some by (auto simp: kill_message_json_def run_simps)
  have "\<exists>rest. tree = JObject ((''profile_name'', JString (pf_name (bt_profile t))) # rest) \<and>
      map_of rest ''progress'' = None"
    using tree(1) t by (cases t) (auto simp: run_simps split: option.splits)
  then have "read_progress tree = None"
    by (auto simp: read_progress_def json_simps run_simps)
  then show ?thesis using tree(2) by (simp add: read_killed_job_def json_simps)
qed

lemma killed_jobs_unread:
  assumes "map_run kill_message_json msgs = Some ds" "\<exists>mp \<in> set msgs. \<not> started_leaf (snd mp)"
  shows "map_run read_killed_job ds = None"
  using assms
proof (induction msgs arbitrary: ds)
  case (Cons x xs)
  obtain d ds' where d: "kill_message_json x = Some d" "map_run kill_message_json xs = Some ds'" "ds = d # ds'"
    using Cons.prems(1) by (auto simp: run_simps)
  show ?case
  proof (cases "started_leaf (snd x)")
    case False
    then show ?thesis using killed_not_leaf[OF d(1)] d(3) by simp
  next
    case True
    then have "map_run read_killed_job ds' = None" using Cons d(2) by simp
    then show ?thesis using d(3) by (cases "read_killed_job d") simp_all
  qed
qed simp

lemma killed_jobs_read:
  assumes "\<forall>mp \<in> set msgs. fits_int (km_for_what (fst mp)) \<and> started_leaf (snd mp)"
    and "map_run kill_message_json msgs = Some ds"
  shows "map_run read_killed_job ds = Some (map killed_entry msgs)"
  using assms
proof (induction msgs arbitrary: ds)
  case (Cons mp msgs)
  obtain d ds' where d: "kill_message_json mp = Some d" "map_run kill_message_json msgs = Some ds'" "ds = d # ds'"
    using Cons.prems(2) by (auto simp: run_simps)
  have "read_killed_job d = Some (killed_entry mp)" using started_leaf_progress d(1) Cons.prems(1) by simp
  then show ?case using Cons.IH[OF _ d(2)] Cons.prems(1) d(3) by simp
qed simp

lemma bind_fold_run_Nil [simp]: "Option.bind m (fold_run f []) = m"
  by (cases m) simp_all

text \<open>Reading the event an operation recorded delivers the operation.\<close>

definition delivers ::
  "'a algorithm \<Rightarrow> sched_externals \<Rightarrow> hyphen_format \<Rightarrow> time \<Rightarrow> sim_op \<Rightarrow> sim_writer \<Rightarrow> sim_writer \<Rightarrow> bool" where
  "delivers al ex fmt date op w w' \<longleftrightarrow> (\<exists>typ d. records w (sim_event typ d date) w' \<and>
    (typ = ''REQUESTED_CALL'' \<longleftrightarrow> (\<exists>n what. op = Op_requested_call n what)) \<and>
    (\<forall>s. read_event_data al ex fmt typ date d s = deliver al ex fmt (date, op) s))"

lemma deliversI:
  assumes "append_dated typ d date w = Some w'"
    and "typ = ''REQUESTED_CALL'' \<longleftrightarrow> (\<exists>n what. op = Op_requested_call n what)"
    and "\<And>s. read_event_data al ex fmt typ date d s = deliver al ex fmt (date, op) s"
  shows "delivers al ex fmt date op w w'"
  using append_dated_records[OF assms(1)] assms(2,3) unfolding delivers_def by blast

lemma op_delivered:
  assumes "hyphen_codec fmt" "well_formed_op op" "write_op fmt (date, op) w = Some w'"
  shows "delivers al ex fmt date op w w'"
proof (cases op)
  case (Op_requested_call n what)
  show ?thesis
    by (rule deliversI[OF assms(3)[unfolded Op_requested_call write_op.simps append_requested_call_def]])
      (use assms(2) Op_requested_call in \<open>simp_all add: read_event_data_def json_simps\<close>)
next
  case Op_simulation_ends
  show ?thesis
    by (rule deliversI[OF assms(3)[unfolded Op_simulation_ends write_op.simps append_simulation_ends_def]])
      (simp_all add: Op_simulation_ends read_event_data_def)
next
  case (Op_job_completed i st alloc rc)
  show ?thesis
    by (rule deliversI[OF assms(3)[unfolded Op_job_completed write_op.simps append_job_completed_def]])
      (simp_all add: Op_job_completed read_event_data_def json_simps)
next
  case (Op_job_killed msgs)
  obtain ds where ds: "map_run kill_message_json msgs = Some ds"
      "append_dated ''JOB_KILLED'' (JObject
       [(''job_ids'', JArray (map (\<lambda>mp. JString (km_simple_id (fst mp))) msgs)), (''job_msgs'', JArray ds)])
       date w = Some w'"
    using assms(3) Op_job_killed by (auto simp: append_job_killed_def run_simps)
  have "map_run read_killed_job ds = do {
      assertion (\<forall>mp \<in> set msgs. started_leaf (snd mp)); Some (map killed_entry msgs) }"
  proof (cases "\<forall>mp \<in> set msgs. started_leaf (snd mp)")
    case True
    then show ?thesis using killed_jobs_read[OF _ ds(1)] assms(2) Op_job_killed by simp
  next
    case False
    then have "map_run read_killed_job ds = None" using killed_jobs_unread[OF ds(1)] by blast
    then show ?thesis by (simp only: False assertion_simps Option.bind.simps)
  qed
  then show ?thesis
    by (intro deliversI[OF ds(2)]) (simp_all add: Op_job_killed read_event_data_def json_simps bind_assoc)
next
  case (Op_resource_state_changed U p)
  have "from_hyphen fmt (to_hyphen fmt U) = Some U" "stoi (show_int p) = Some p"
    using hyphen_codec.from_to[OF assms(1)] assms(2) Op_resource_state_changed by (simp_all add: stoi_show_int)
  then show ?thesis
    by (intro deliversI[OF assms(3)[unfolded Op_resource_state_changed write_op.simps append_resource_state_changed_def]])
      (simp_all add: Op_resource_state_changed read_event_data_def json_simps)
next
  case (Op_answer_energy x)
  show ?thesis
    by (rule deliversI[OF assms(3)[unfolded Op_answer_energy write_op.simps append_answer_energy_def]])
      (simp_all add: Op_answer_energy read_event_data_def read_answer_def json_simps)
next
  case (Op_notify t)
  show ?thesis
  proof (rule deliversI[OF assms(3)[unfolded Op_notify write_op.simps append_notify_def]])
    show "read_event_data al ex fmt ''NOTIFY'' date (JObject [(''type'', JString t)]) s = deliver al ex fmt (date, op) s" for s
      using assms(2) unfolding Op_notify well_formed_op.simps
      by (elim disjE) (simp_all add: read_event_data_def read_notify_def json_simps)
  qed (simp add: Op_notify)
next
  case (Op_notify_resource t U)
  have U: "from_hyphen fmt (to_hyphen fmt U) = Some U"
    using hyphen_codec.from_to[OF assms(1)] assms(2) Op_notify_resource by simp
  show ?thesis
  proof (rule deliversI[OF assms(3)[unfolded Op_notify_resource write_op.simps append_notify_resource_event_def]])
    show "read_event_data al ex fmt ''NOTIFY'' date
        (JObject [(''type'', JString t), (''resources'', JString (to_hyphen fmt U))]) s = deliver al ex fmt (date, op) s" for s
      using assms(2) U unfolding Op_notify_resource well_formed_op.simps
      by (elim disjE conjE) (simp_all add: read_event_data_def read_notify_def json_simps)
  qed (simp add: Op_notify_resource)
next
  case (Op_job_fault i)
  have "records w (sim_event ''NOTIFY'' (JObject [(''type'', JString ''job_fault''), (''job'', JString i)]) date) w'"
    using assms(3) by (auto simp: Op_job_fault append_notify_job_fault_event_def push_event_def records_def run_simps)
  moreover have "read_event_data al ex fmt ''NOTIFY'' date
      (JObject [(''type'', JString ''job_fault''), (''job'', JString i)]) s = deliver al ex fmt (date, op) s" for s
    by (simp add: Op_job_fault read_event_data_def read_notify_def json_simps)
  ultimately show ?thesis unfolding delivers_def Op_job_fault by blast
next
  case (Op_job_submitted parse ws redis forward i jd pd)
  obtain more where more: "(if redis then Some []
       else do {
         j \<leftarrow> described_job parse ws i jd;
         (if forward then do { p \<leftarrow> parse pd; Some [(''job'', j), (''profile'', p)] }
          else Some [(''job'', j)]) }) = Some more"
      "append_dated ''JOB_SUBMITTED'' (JObject ((''job_id'', JString i) # more)) date w = Some w'"
    using assms(3) by (auto simp: Op_job_submitted append_job_submitted_def run_simps)
  show ?thesis
  proof (rule deliversI[OF more(2)])
    show "read_event_data al ex fmt ''JOB_SUBMITTED'' date (JObject ((''job_id'', JString i) # more)) s =
        deliver al ex fmt (date, op) s" for s
      by (cases "redis_on s")
        (use more(1) in \<open>auto simp: Op_job_submitted read_event_data_def deliver_submission_def json_simps
           add_job_from_json_object_def run_simps split: if_splits option.splits\<close>)
  qed (simp add: Op_job_submitted)
next
  case (Op_batsim_metadata i m)
  show ?thesis
    by (rule deliversI[OF assms(3)[unfolded Op_batsim_metadata write_op.simps append_batsim_metadata_def]])
      (simp_all add: Op_batsim_metadata read_event_data_def read_notify_def json_simps)
next
  case (Op_notify_generic parse t)
  obtain d where d: "parse t = Some d" "append_dated ''NOTIFY'' d date w = Some w'"
    using assms(3) by (auto simp: Op_notify_generic append_notify_generic_event_def run_simps)
  show ?thesis
  proof (rule deliversI[OF d(2)])
    show "read_event_data al ex fmt ''NOTIFY'' date d s = deliver al ex fmt (date, op) s" for s
      using assms(2) d(1) by (cases "string_member ''type'' d")
        (auto simp: Op_notify_generic generic_type_def named_notifications_def read_event_data_def read_notify_def)
  qed (simp add: Op_notify_generic)
next
  case (Op_from_job_message i m)
  show ?thesis
    by (rule deliversI[OF assms(3)[unfolded Op_from_job_message write_op.simps append_from_job_message_def]])
      (simp_all add: Op_from_job_message read_event_data_def)
next
  case (Op_query_waiting_time parse i jd)
  obtain d where d: "parse jd = Some d" "append_dated ''QUERY'' (JObject [(''requests'', JObject
      [(''estimate_waiting_time'', JObject [(''job_id'', JString i), (''job'', d)])])]) date w = Some w'"
    using assms(3) by (auto simp: Op_query_waiting_time append_query_estimate_waiting_time_def run_simps)
  have "member_at ''job'' d = None"
    using assms(2) d(1) by (cases "members d") (auto simp: Op_query_waiting_time json_simps)
  then have none: "add_job_from_json_object pl fm d i' t k = None" for pl fm i' t k
    by (simp add: add_job_from_json_object_def)
  show ?thesis
    by (rule deliversI[OF d(2)])
      (simp_all add: Op_query_waiting_time read_event_data_def read_query_def json_simps none)
qed

subsection \<open>Messages\<close>

definition asks_call :: "time \<times> sim_op \<Rightarrow> bool" where
  "asks_call dop \<longleftrightarrow> (\<exists>n what. snd dop = Op_requested_call n what)"

definition last_op_date :: "time \<Rightarrow> (time \<times> sim_op) list \<Rightarrow> time" where
  "last_op_date now ops = (if ops = [] then now else fst (last ops))"

lemma ops_delivered:
  assumes "hyphen_codec fmt" "\<forall>dop \<in> set ops. well_formed_op (snd dop)"
    "fold_run (write_op fmt) ops w = Some w'" "sw_events w = Some es0"
  shows "\<exists>es. sw_events w' = Some (es0 @ es) \<and> length es = length ops \<and>
    (\<forall>s now b. fold_run (read_event al ex fmt) es (s, now, b) =
       do { s1 \<leftarrow> fold_run (deliver al ex fmt) ops s;
            Some (s1, last_op_date now ops, b \<or> (\<exists>dop \<in> set ops. asks_call dop)) })"
  using assms(2-4)
proof (induction ops arbitrary: w es0)
  case Nil
  then show ?case by (simp add: last_op_date_def)
next
  case (Cons x ops)
  obtain date op where x: "x = (date, op)" by (cases x)
  obtain w1 where w1: "write_op fmt (date, op) w = Some w1" "fold_run (write_op fmt) ops w1 = Some w'"
    using Cons.prems(2) x by (auto simp: run_simps)
  have "delivers al ex fmt date op w w1" using op_delivered[OF assms(1) _ w1(1)] Cons.prems(1) x by simp
  then obtain ty d where d: "records w (sim_event ty d date) w1"
      "ty = ''REQUESTED_CALL'' \<longleftrightarrow> (\<exists>n what. op = Op_requested_call n what)"
      "\<And>s. read_event_data al ex fmt ty date d s = deliver al ex fmt (date, op) s"
    unfolding delivers_def by blast
  have e1: "sw_events w1 = Some (es0 @ [sim_event ty d date])"
    using d(1) Cons.prems(3) by (auto simp: records_def)
  obtain es where es: "sw_events w' = Some ((es0 @ [sim_event ty d date]) @ es)" "length es = length ops"
      "\<And>s now b. fold_run (read_event al ex fmt) es (s, now, b) =
       do { s1 \<leftarrow> fold_run (deliver al ex fmt) ops s;
            Some (s1, last_op_date now ops, b \<or> (\<exists>dop \<in> set ops. asks_call dop)) }"
    using Cons.IH[OF _ w1(2) e1] Cons.prems(1) by auto
  have one: "read_event al ex fmt (sim_event ty d date) (s, now, b) =
      do { s1 \<leftarrow> deliver al ex fmt (date, op) s; Some (s1, date, b \<or> asks_call (date, op)) }" for s now b
    using d(2) by (simp add: read_event_def sim_event_def json_simps d(3) asks_call_def)
  have "fold_run (read_event al ex fmt) (sim_event ty d date # es) (s, now, b) =
      do { s1 \<leftarrow> fold_run (deliver al ex fmt) (x # ops) s;
           Some (s1, last_op_date now (x # ops), b \<or> (\<exists>dop \<in> set (x # ops). asks_call dop)) }" for s now b
    using x by (cases "deliver al ex fmt (date, op) s") (simp_all add: one es(3) last_op_date_def)
  then show ?case using es(1,2) by (intro exI[of _ "sim_event ty d date # es"]) simp
qed

text \<open>
  C36: What the simulator's writer records between two messages, the beginning of the simulation
  apart, is delivered by the main loop of batsched as the same operations, in their order and with
  their dates and arguments: a submission adds the job that its description and its profile give and
  releases it, a completion sets the completion time and ends the job, its metadata changes nothing,
  and kills, machine states, energy, requested calls, failures and repairs of machines and the ends
  of the submitters are one callback each.  It aborts where \<open>deliver\<close> says so: on the kill of a job
  that is not one started task, on a message of a job, on a query of a waiting time and on an external
  event it does not know.  Then the algorithm decides, unless the only event was a requested call and
  decisions on it are switched off.
\<close>

theorem simulator_to_scheduler:
  assumes "hyphen_codec fmt" "\<forall>dop \<in> set ops. well_formed_op (snd dop)"
    "fold_run (write_op fmt) ops (sim_clear w) = Some w'" "sim_generate_message now w' = Some (doc, w'')"
  shows "handle_message al ex fmt single_nop doc s = do {
     s1 \<leftarrow> fold_run (deliver al ex fmt) ops (s\<lparr>dec := decisions_clear (dec s)\<rparr>);
     decide_and_answer al ex fmt (\<not> single_nop \<and> (\<exists>dop \<in> set ops. asks_call dop) \<and> length ops = 1)
       now (last_op_date now ops) s1 }"
proof -
  have "sw_events (sim_clear w) = Some []" by (simp add: sim_clear_def)
  then obtain es where es: "sw_events w' = Some es" "length es = length ops"
      "\<And>s now b. fold_run (read_event al ex fmt) es (s, now, b) =
       do { s1 \<leftarrow> fold_run (deliver al ex fmt) ops s;
            Some (s1, last_op_date now ops, b \<or> (\<exists>dop \<in> set ops. asks_call dop)) }"
    using ops_delivered[OF assms(1-3)] by force
  have "doc = JObject [(''now'', JDouble now), (''events'', JArray es)]"
    using assms(4) es(1) by (simp add: sim_generate_message_def run_simps)
  then show ?thesis using es(2,3)
    by (cases "fold_run (deliver al ex fmt) ops (s\<lparr>dec := decisions_clear (dec s)\<rparr>)")
      (simp_all add: handle_message_def json_simps)
qed

text \<open>
  An algorithm that only keeps what every algorithm keeps, and the operations of a simulator
  whose machines have just been switched, where a job has completed and that was asked for a call.
\<close>

definition idle_algorithm :: "base_algorithm algorithm" where
  "idle_algorithm = \<lparr>call_back = (\<lambda>date cb (w, d, a). Some (w, d, base_callback cb a)),
     make_decisions = (\<lambda>now current x. Some x), on_base = (\<lambda>f a. f a)\<rparr>"

definition no_externals :: sched_externals where
  "no_externals = \<lparr>profile_loads = (\<lambda>i p. True), redis_job = (\<lambda>i. []), parse_text = (\<lambda>t. None)\<rparr>"

definition demo_ops :: "(time \<times> sim_op) list" where
  "demo_ops = [(5, Op_resource_state_changed {1, 2} 3),
     (6, Op_job_completed ''w0!1'' ''COMPLETED_SUCCESSFULLY'' ''1-2'' 0), (6, Op_batsim_metadata ''1'' ''{}''),
     (7, Op_requested_call 4 5)]"

theorem simulator_to_scheduler_witness:
  "\<exists>w' doc w''. fold_run (write_op std_format) demo_ops (sim_clear new_sim_writer) = Some w' \<and>
     sim_generate_message 8 w' = Some (doc, w'') \<and>
     (\<forall>s. handle_message idle_algorithm no_externals std_format False doc s = do {
        s1 \<leftarrow> fold_run (deliver idle_algorithm no_externals std_format) demo_ops (s\<lparr>dec := decisions_clear (dec s)\<rparr>);
        decide_and_answer idle_algorithm no_externals std_format
          (\<not> False \<and> (\<exists>dop \<in> set demo_ops. asks_call dop) \<and> length demo_ops = 1)
          8 (last_op_date 8 demo_ops) s1 })"
proof -
  obtain w' where w': "fold_run (write_op std_format) demo_ops (sim_clear new_sim_writer) = Some w'"
      "sw_last_date w' = 7" "\<exists>es. sw_events w' = Some es"
    by (simp add: demo_ops_def sim_clear_def new_sim_writer_def append_resource_state_changed_def
        append_requested_call_def append_job_completed_def append_batsim_metadata_def append_dated_def push_event_def)
  then obtain doc w'' where d: "sim_generate_message 8 w' = Some (doc, w'')"
    by (auto simp: sim_generate_message_def)
  have u: "\<forall>dop \<in> set demo_ops. well_formed_op (snd dop)" by (simp add: demo_ops_def fits_int_def)
  show ?thesis
    using w'(1) d simulator_to_scheduler[OF std.hyphen_codec_axioms u w'(1) d] by blast
qed

subsection \<open>Submissions\<close>

lemma sim_event_members:
  "string_member ''type'' (sim_event ty d date) = Some ty"
  "double_member ''timestamp'' (sim_event ty d date) = Some date"
  "member_at ''data'' (sim_event ty d date) = Some d"
  by (simp_all add: sim_event_def json_simps)

lemma read_sim_event:
  "read_event al ex fmt (sim_event ty d date) s =
     do { s' \<leftarrow> read_event_data al ex fmt ty date d (fst s);
          Some (s', date, snd (snd s) \<or> ty = ''REQUESTED_CALL'') }"
  by (simp add: read_event_def sim_event_members)

lemma add_missing_members:
  "add_missing k v (JObject ms) = Some (JObject (if map_of ms k = None then ms @ [(k, v)] else ms))"
  by (simp add: add_missing_def json_simps)

text \<open>Members that are added behind change only what was missing.\<close>

lemma map_of_behind: "map_of (ms @ [(k, v)]) k' = (if k' = k \<and> map_of ms k' = None then Some v else map_of ms k')"
  by (auto simp: map_add_def split: option.splits)

lemma job_from_more_members:
  assumes "\<And>k. k \<noteq> ''original_walltime'' \<Longrightarrow> k \<noteq> ''original_submit'' \<Longrightarrow> k \<noteq> ''original_start'' \<Longrightarrow>
      k \<noteq> ''checkpoint_job_data'' \<Longrightarrow> map_of ms' k = map_of ms k"
    and "map_of ms' ''original_walltime'' = Some (JDouble owt)" "map_of ms ''original_walltime'' = None"
    and "job_from_json_object fmt (JObject ms) w = Some (j, w1)"
  shows "job_from_json_object fmt (JObject ms') w = Some (j\<lparr>original_walltime := owt\<rparr>, w1)"
proof -
  have same: "member_at k (JObject ms') = member_at k (JObject ms)"
      "has_member k (JObject ms') = has_member k (JObject ms)"
    if "k \<noteq> ''original_walltime''" "k \<noteq> ''original_submit''" "k \<noteq> ''original_start''"
      "k \<noteq> ''checkpoint_job_data''" for k
    using assms(1)[OF that] by (simp_all add: member_at_def has_member_def)
  have owt: "optional_member get_double ''original_walltime'' (- 1) (JObject ms') = Some owt"
      "optional_member get_double ''original_walltime'' (- 1) (JObject ms) = Some (- 1)"
    using assms(2,3) by (simp_all add: optional_member_def json_simps)
  have opt: "optional_member get k dflt (JObject ms') = optional_member get k dflt (JObject ms)"
    if "k \<noteq> ''original_walltime''" "k \<noteq> ''original_submit''" "k \<noteq> ''original_start''"
      "k \<noteq> ''checkpoint_job_data''" for get :: "json \<Rightarrow> 'b run" and k dflt
    unfolding optional_member_def same[OF that] ..
  have eq: "string_member k (JObject ms') = string_member k (JObject ms)"
      "int_member k (JObject ms') = int_member k (JObject ms)"
      "double_member k (JObject ms') = double_member k (JObject ms)"
    if "k \<noteq> ''original_walltime''" "k \<noteq> ''original_submit''" "k \<noteq> ''original_start''"
      "k \<noteq> ''checkpoint_job_data''" for k
    by (simp_all add: string_member_def int_member_def double_member_def same[OF that])
  have ck: "check_checkpoint_members (JObject ms') = check_checkpoint_members (JObject ms)"
    by (simp add: check_checkpoint_members_def eq)
  have "job_from_json_object fmt (JObject ms') w =
      do { (j, w1) \<leftarrow> job_from_json_object fmt (JObject ms) w; Some (j\<lparr>original_walltime := owt\<rparr>, w1) }"
    unfolding job_from_json_object_def by (simp add: eq opt ck owt bind_assoc)
  then show ?thesis using assms(4) by simp
qed

text \<open>The members the simulator adds to the description of a job.\<close>

definition with_submit :: "sim_job \<Rightarrow> (string \<times> json) list \<Rightarrow> (string \<times> json) list" where
  "with_submit sj ms = (if map_of ms ''original_submit'' = None
     then ms @ [(''original_submit'', JDouble (ck_original_submit (sj_checkpoint sj)))] else ms)"

definition with_start :: "sim_job \<Rightarrow> (string \<times> json) list \<Rightarrow> (string \<times> json) list" where
  "with_start sj ms = (if map_of ms ''original_start'' = None
     then ms @ [(''original_start'', JDouble (ck_original_start (sj_checkpoint sj)))] else ms)"

definition more_members :: "sim_job \<Rightarrow> (string \<times> json) list \<Rightarrow> (string \<times> json) list" where
  "more_members sj ms = with_start sj (with_submit sj ms) @
     [(''original_walltime'', JDouble (sj_original_walltime sj)), (''checkpoint_job_data'', checkpoint_json (sj_checkpoint sj))]"

lemma members_added:
  "k \<noteq> ''original_submit'' \<Longrightarrow> map_of (with_submit sj ms) k = map_of ms k"
  "k \<noteq> ''original_start'' \<Longrightarrow> map_of (with_start sj ms) k = map_of ms k"
  by (simp_all add: with_submit_def with_start_def map_add_def split: option.splits)

lemma more_members_same:
  assumes "k \<noteq> ''original_walltime''" "k \<noteq> ''original_submit''" "k \<noteq> ''original_start''" "k \<noteq> ''checkpoint_job_data''"
  shows "map_of (more_members sj ms) k = map_of ms k"
  using assms by (simp add: more_members_def map_add_def members_added split: option.splits)

lemma more_members_walltime:
  "map_of ms ''original_walltime'' = None \<Longrightarrow>
   map_of (more_members sj ms) ''original_walltime'' = Some (JDouble (sj_original_walltime sj))"
  by (simp add: more_members_def map_add_def members_added)

text \<open>
  C37: The submission of a job that the simulator writes, profile included, is read by batsched as
  that job: it is filed under the identifier of the event, with the fields of its description, the
  original walltime the simulator knows, the walltime lengthened by the delay of the resource
  manager and the duration of its profile, and the algorithm is told of its release.
\<close>

theorem submission_round_trip:
  assumes "append_job_submitted parse ws False True i jd pd date w = Some w'"
    and "parse jd = Some (JObject ms)" "parse pd = Some p" "map_of ms ''original_walltime'' = None"
    and "job_identifier i = Some ji" "job_at ji ws = Some sj"
    and "get_job_parts i = Some parts" "p_workload parts = workload_name ji"
    and "job_from_json_object fmt (JObject ms) (wl s) = Some (j, wk)"
    and "profile_loads ex (jid j) p" "double_member ''real_cpu'' p = Some cpu"
    and "sw_job_map wk i = None" "\<not> redis_on s"
  shows "\<exists>e. records w e w' \<and> read_event al ex fmt e (s, now, b) = do {
     s' \<leftarrow> notify al date (On_job_release [i]) (s\<lparr>wl := wk\<lparr>sw_job_map := (sw_job_map wk)(i \<mapsto>
       j\<lparr>original_walltime := sj_original_walltime sj, duration := cpu, jid := i,
         submission_time := date, walltime := walltime j + rjms_delay wk\<rparr>)\<rparr>\<rparr>);
     Some (s', date, b) }"
proof -
  obtain wk0 where wk0: "ws (workload_name ji) = Some wk0" "jobs_at ji wk0 = Some sj"
    using assms(6) by (auto simp: job_at_def run_simps)
  let ?ms4 = "more_members sj ms"
  have "map_of (with_start sj (with_submit sj ms)) ''original_walltime'' = None"
    using assms(4) by (simp add: members_added)
  then have d: "described_job parse ws i jd = Some (JObject ?ms4)"
    using assms(2,5,7,8) wk0
    by (simp add: described_job_def add_missing_members more_members_def flip: with_submit_def with_start_def)
  let ?d = "JObject [(''job_id'', JString i), (''job'', JObject ?ms4), (''profile'', p)]"
  have r: "records w (sim_event ''JOB_SUBMITTED'' ?d date) w'"
    using assms(1,3) d by (intro append_dated_records) (simp add: append_job_submitted_def)
  have "job_from_json_object fmt (JObject ?ms4) (wl s) = Some (j\<lparr>original_walltime := sj_original_walltime sj\<rparr>, wk)"
    by (rule job_from_more_members[OF more_members_same more_members_walltime[OF assms(4)] assms(4,9)])
  then have "read_event_data al ex fmt ''JOB_SUBMITTED'' date ?d s =
     notify al date (On_job_release [i]) (s\<lparr>wl := wk\<lparr>sw_job_map := (sw_job_map wk)(i \<mapsto>
       j\<lparr>original_walltime := sj_original_walltime sj, duration := cpu, jid := i,
         submission_time := date, walltime := walltime j + rjms_delay wk\<rparr>)\<rparr>\<rparr>)"
    using assms(10-13)
    by (simp add: read_event_data_def string_member_def member_at_def
        add_job_from_json_object_def job_from_json_objects_def add_new_job_def)
  then have "read_event al ex fmt (sim_event ''JOB_SUBMITTED'' ?d date) (s, now, b) = do {
     s' \<leftarrow> notify al date (On_job_release [i]) (s\<lparr>wl := wk\<lparr>sw_job_map := (sw_job_map wk)(i \<mapsto>
       j\<lparr>original_walltime := sj_original_walltime sj, duration := cpu, jid := i,
         submission_time := date, walltime := walltime j + rjms_delay wk\<rparr>)\<rparr>\<rparr>);
     Some (s', date, b) }"
    by (simp add: read_event_def sim_event_members)
  then show ?thesis using r by blast
qed

text \<open>The submission of a job of two machines, with a walltime and a profile.\<close>

definition demo_parse :: "string \<Rightarrow> json run" where
  "demo_parse t =
     (if t = ''job'' then Some (JObject [(''id'', JString ''1''), (''res'', JInt 2), (''walltime'', JDouble 30)])
      else if t = ''profile'' then Some (JObject [(''real_cpu'', JInt 20)]) else None)"

definition demo_state :: "base_algorithm main_state" where
  "demo_state = \<lparr>wl = new_sched_workload 5, dec = new_decisions,
     algo = \<lparr>nb_machines_total = 4, jobs_released_recently = [], jobs_ended_recently = [],
       jobs_killed_recently = Map.empty, waiting_time_requests = [], pstate_changed_recently = Map.empty,
       became_available_recently = {}, became_unavailable_recently = {}, nopped_recently = False,
       consumed_joules_updated = False, consumed_joules = - 1, no_more_static_job_received = False,
       no_more_external_event_received = False, need_to_checkpoint = False,
       need_to_send_checkpoint = False, nb_batsim_checkpoints = 0, checkpoint_interval_seconds = 0,
       checkpoint_interval_type = ''False''\<rparr>,
     sim_machine_list = no_machines, simulation_finished = False, redis_on = False\<rparr>"

definition demo_read_job :: job where
  "demo_read_job = \<lparr>jid = ''1'', unique_number = 0, nb_requested_resources = 2, walltime = 30,
     original_walltime = - 1, has_walltime = True, submission_time = 0, submission_times = [],
     completion_time = - 1, cores = 1, purpose = ''job'', future_allocations = {}, start = - 1,
     duration = 0\<rparr>"

lemma demo_described: "job_from_json_object std_format
    (JObject [(''id'', JString ''1''), (''res'', JInt 2), (''walltime'', JDouble 30)]) (wl demo_state)
  = Some (demo_read_job, (wl demo_state)\<lparr>next_job_number := 1\<rparr>)"
  by (simp add: job_from_json_object_def optional_member_def json_simps fits_int_def demo_state_def
      new_sched_workload_def demo_read_job_def)

lemma job_parts_w0: "map_option p_workload (get_job_parts ''w0!1'') = Some ''w0''"
proof -
  have "substr_to ''w0!1'' (Suc (Suc (Suc 0))) (Suc (Suc (Suc (Suc 0)))) = ''1''"
    using substr_to_rest[of "Suc (Suc (Suc 0))" "Suc (Suc (Suc (Suc 0)))" "''w0!1''"] by simp
  moreover have "stoi ''1'' = Some 1" by code_simp
  ultimately show ?thesis by (simp add: get_job_parts_def find_char_def)
qed

theorem submission_round_trip_witness:
  "\<exists>w' e. append_job_submitted demo_parse demo_workloads False True ''w0!1'' ''job'' ''profile'' 3
       (sim_clear new_sim_writer) = Some w' \<and>
     records (sim_clear new_sim_writer) e w' \<and>
     read_event idle_algorithm no_externals std_format e (demo_state, 0, False) = do {
       s' \<leftarrow> notify idle_algorithm 3 (On_job_release [''w0!1'']) (demo_state\<lparr>wl :=
         (wl demo_state)\<lparr>next_job_number := 1, sw_job_map := [''w0!1'' \<mapsto>
           demo_read_job\<lparr>original_walltime := 100, duration := 20, jid := ''w0!1'',
             submission_time := 3, walltime := 35\<rparr>]\<rparr>\<rparr>);
       Some (s', 3, False) }"
proof -
  let ?ji = "\<lparr>workload_name = ''w0'', job_name = ''1'', job_number = 1\<rparr>"
  let ?ms = "[(''id'', JString ''1''), (''res'', JInt 2), (''walltime'', JDouble 30)]"
  obtain parts where parts: "get_job_parts ''w0!1'' = Some parts" "p_workload parts = workload_name ?ji"
    using job_parts_w0 by auto
  have p: "demo_parse ''job'' = Some (JObject ?ms)" "demo_parse ''profile'' = Some (JObject [(''real_cpu'', JInt 20)])"
    by (simp_all add: demo_parse_def)
  have j: "job_at ?ji demo_workloads = Some (demo_job ''w0'' ''1'' 2)"
    by (simp add: job_at_def jobs_at_def demo_workloads_def representation_def)
  obtain w' where w': "append_job_submitted demo_parse demo_workloads False True ''w0!1'' ''job'' ''profile'' 3
      (sim_clear new_sim_writer) = Some w'"
    using p parts demo_identifier j
    by (simp add: append_job_submitted_def described_job_def add_missing_members demo_workloads_def
        jobs_at_def representation_def append_dated_def push_event_def sim_clear_def new_sim_writer_def)
  have "\<exists>e. records (sim_clear new_sim_writer) e w' \<and>
     read_event idle_algorithm no_externals std_format e (demo_state, 0, False) = do {
       s' \<leftarrow> notify idle_algorithm 3 (On_job_release [''w0!1'']) (demo_state\<lparr>wl :=
         ((wl demo_state)\<lparr>next_job_number := 1\<rparr>)\<lparr>sw_job_map := (sw_job_map ((wl demo_state)\<lparr>next_job_number := 1\<rparr>))(''w0!1'' \<mapsto>
           demo_read_job\<lparr>original_walltime := sj_original_walltime (demo_job ''w0'' ''1'' 2), duration := 20,
             jid := ''w0!1'', submission_time := 3,
             walltime := walltime demo_read_job + rjms_delay ((wl demo_state)\<lparr>next_job_number := 1\<rparr>)\<rparr>)\<rparr>\<rparr>);
       Some (s', 3, False) }"
    by (rule submission_round_trip[OF w' p _ demo_identifier j parts demo_described])
      (simp_all add: no_externals_def json_simps demo_state_def new_sched_workload_def)
  then show ?thesis using w'
    by (simp add: demo_state_def new_sched_workload_def demo_job_def demo_read_job_def)
qed

subsection \<open>Events the scheduler cannot read\<close>

text \<open>
  A kill that the simulator acknowledges aborts the scheduler as soon as one of the jobs killed
  is not a single task that has started: the main loop cannot read the progress of a sequence, nor
  a message without progress.
\<close>

theorem killed_sequence_aborts:
  assumes "append_job_killed msgs date w = Some w'" "mp \<in> set msgs" "\<not> started_leaf (snd mp)"
  shows "\<exists>e. records w e w' \<and> (\<forall>s. read_event al ex fmt e s = None)"
proof -
  obtain ds where ds: "map_run kill_message_json msgs = Some ds"
      "append_dated ''JOB_KILLED'' (JObject
       [(''job_ids'', JArray (map (\<lambda>mp. JString (km_simple_id (fst mp))) msgs)), (''job_msgs'', JArray ds)])
       date w = Some w'"
    using assms(1) by (auto simp: append_job_killed_def run_simps)
  note r = append_dated_records[OF ds(2)]
  have "map_run read_killed_job ds = None" using killed_jobs_unread[OF ds(1)] assms(2,3) by blast
  then have "read_event al ex fmt (sim_event ''JOB_KILLED'' (JObject
       [(''job_ids'', JArray (map (\<lambda>mp. JString (km_simple_id (fst mp))) msgs)), (''job_msgs'', JArray ds)])
       date) s = None" for s
    by (simp add: read_sim_event read_event_data_def json_simps)
  then show ?thesis using r by blast
qed

text \<open>A sequence of two delays whose first has started.\<close>

definition demo_sequence :: bat_task where
  "demo_sequence = (let d = Sim_Profile ''d'' DELAY [] 0 [] in
     Bat_Task (Sim_Profile ''s'' SEQUENCE [] 0 [d, d]) None (- 1) 0 (Some 0) 0
       [Bat_Task d None 2 10 None (1 / 5) [], Bat_Task d None (- 1) 0 None 0 []])"

definition demo_kill :: kill_message where
  "demo_kill = \<lparr>km_simple_id = ''w0!1'', km_id = \<lparr>workload_name = ''w0'', job_name = ''1'', job_number = 1\<rparr>,
     km_for_what = 2\<rparr>"

theorem killed_sequence_aborts_witness:
  "\<exists>w' e. append_job_killed [(demo_kill, Some demo_sequence)] 4 (sim_clear new_sim_writer) = Some w' \<and>
     records (sim_clear new_sim_writer) e w' \<and>
     (\<forall>s. read_event idle_algorithm no_externals std_format e s = None)"
proof -
  obtain w' where w': "append_job_killed [(demo_kill, Some demo_sequence)] 4 (sim_clear new_sim_writer) = Some w'"
    by (simp add: append_job_killed_def kill_message_json_def demo_sequence_def Let_def append_dated_def
        push_event_def sim_clear_def new_sim_writer_def)
  have "\<not> started_leaf (snd (demo_kill, Some demo_sequence))"
    by (simp add: started_leaf_def demo_sequence_def Let_def)
  then show ?thesis
    using w' killed_sequence_aborts[OF w', of "(demo_kill, Some demo_sequence)"] by auto
qed

text \<open>
  Every query of a waiting time aborts the scheduler: the main loop hands the description of
  the job to a function that looks for the description inside it.
\<close>

theorem waiting_time_query_aborts:
  assumes "append_query_estimate_waiting_time parse i jd date w = Some w'"
    and "parse jd = Some d" "has_member ''job'' d \<noteq> Some True"
  shows "\<exists>e. records w e w' \<and> (\<forall>s. read_event al ex fmt e s = None)"
proof -
  have r: "append_dated ''QUERY'' (JObject [(''requests'', JObject [(''estimate_waiting_time'',
       JObject [(''job_id'', JString i), (''job'', d)])])]) date w = Some w'"
    using assms(1,2) by (simp add: append_query_estimate_waiting_time_def)
  have "member_at ''job'' d = None"
    using assms(3) by (cases "members d") (auto simp: json_simps)
  then have none: "add_job_from_json_object pl fmt d i t k = None" for pl t k
    by (simp add: add_job_from_json_object_def)
  have "read_event al ex fmt (sim_event ''QUERY'' (JObject [(''requests'',
       JObject [(''estimate_waiting_time'', JObject [(''job_id'', JString i), (''job'', d)])])]) date) s = None" for s
    by (simp add: read_sim_event read_event_data_def read_query_def json_simps none)
  then show ?thesis using append_dated_records[OF r] by blast
qed

theorem waiting_time_query_aborts_witness:
  "\<exists>w' e. append_query_estimate_waiting_time demo_parse ''w!job'' ''job'' 2 (sim_clear new_sim_writer) = Some w' \<and>
     records (sim_clear new_sim_writer) e w' \<and>
     (\<forall>s. read_event idle_algorithm no_externals std_format e s = None)"
proof -
  obtain w' where w': "append_query_estimate_waiting_time demo_parse ''w!job'' ''job'' 2
      (sim_clear new_sim_writer) = Some w'"
    by (simp add: append_query_estimate_waiting_time_def demo_parse_def append_dated_def push_event_def
        sim_clear_def new_sim_writer_def)
  have "\<exists>e. records (sim_clear new_sim_writer) e w' \<and>
      (\<forall>s. read_event idle_algorithm no_externals std_format e s = None)"
    by (rule waiting_time_query_aborts[OF w']) (simp add: demo_parse_def, simp add: json_simps)
  then show ?thesis using w' by blast
qed

end
