(* ===== verification/Sim_Server.thy ===== *)
theory Sim_Server
  imports Sim_Writer
begin

text \<open>
  The server of the simulator (\<^verbatim>\<open>server.cpp\<close>): the process that receives the messages of the
  submitters, of the jobs, of the machines that switch and of the scheduler, keeps the counters
  that decide when the simulation is over, and tells the scheduler what happened.  One definition
  per handler, with all its assertions.  Creating an actor of the simulation kernel appends to the
  list \<open>spawned\<close>; a message sent to a submitter appends to \<open>outbox\<close>.  Log lines and trace files
  are left out.
\<close>

subsection \<open>State\<close>

datatype submitter_type = JOB_SUBMITTER | EVENT_SUBMITTER

record submitter_counts =
  expected_nb_submitters :: int
  nb_submitters :: int
  nb_submitters_finished :: int

datatype actor =
    Request_reply json
  | Switch_on nat int
  | Switch_off nat int
  | Killer "kill_message list"
  | Waiter time int int
  | Execute_job scheduling_allocation

datatype submitter_message =
    Submitter_callback job_identifier
  | Wait_answer int rat rat

text \<open>
  \<^verbatim>\<open>ServerData\<close>.  The submitter that must hear of the end of a job is kept by its name; the code
  keeps a pointer, which dangles once the submitter has said goodbye.
\<close>

record server_data =
  nb_completed_jobs :: int
  nb_submitted_jobs :: int
  nb_running_jobs :: int
  nb_killed_jobs :: int
  nb_workflow_submitters_finished :: int
  nb_switching_machines :: int
  nb_waiters :: int
  nb_killers :: int
  sched_ready :: bool
  end_of_simulation_sent :: bool
  end_of_simulation_ack_received :: bool
  submitters :: "string \<Rightarrow> bool option"
  submitter_counters :: "submitter_type \<Rightarrow> submitter_counts"
  origin_of_jobs :: "string \<Rightarrow> string option"
  jobs_to_be_deleted :: "job_identifier list"

text \<open>The rest of \<^verbatim>\<open>BatsimContext\<close>, and what the server does to the outside.\<close>

record server = server_data +
  base :: batsim_context
  proto_writer :: sim_writer
  platform :: sim_machines
  current_switches :: switches
  energy_used :: bool
  allow_compute_sharing :: bool
  allow_storage_sharing :: bool
  submission_forward_profiles :: bool
  registration_sched_ack :: bool
  garbage_collect_profiles :: bool
  terminate_with_last_workflow :: bool
  nb_workflows :: int
  nb_grouped_switches :: int
  nb_machine_switches :: int
  sim_call_me_laters :: "(time \<times> time \<times> int \<times> int) list"
  outbox :: "(string \<times> submitter_message) list"
  spawned :: "actor list"

datatype external_event =
    Event_machine_available machines
  | Event_machine_unavailable machines
  | Event_generic string
  | Event_job_fault string

datatype ip_message =
    From_scheduler server_message
  | Submitter_hello string bool submitter_type
  | Submitter_bye string submitter_type bool
  | Job_submitted string "job_identifier list"
  | Job_completed job_identifier
  | Event_occurred "external_event list"
  | Waiting_done int int
  | Sched_wait_answer string int rat rat
  | Wait_query
  | Switched nat int
  | Killing_done "(kill_message \<times> bat_task option) list" bool
  | From_job_msg job_identifier json

record server_externals =
  sx_parse :: "string \<Rightarrow> json run"
  sx_format :: hyphen_format
  sx_consumed_energy :: rat

subsection \<open>Helpers\<close>

abbreviation now_of :: "server \<Rightarrow> time" where "now_of st \<equiv> clock (base st)"
abbreviation ws_of :: "server \<Rightarrow> workloads" where "ws_of st \<equiv> ctx_workloads (base st)"

definition on_proto :: "(sim_writer \<Rightarrow> sim_writer run) \<Rightarrow> server \<Rightarrow> server run" where
  "on_proto f st = do { w \<leftarrow> f (proto_writer st); Some (st\<lparr>proto_writer := w\<rparr>) }"

definition write_job :: "sim_job \<Rightarrow> server \<Rightarrow> server run" where
  "write_job j st = do {
     ws \<leftarrow> set_job j (ws_of st);
     Some (st\<lparr>base := (base st)\<lparr>ctx_workloads := ws\<rparr>\<rparr>) }"

definition spawn :: "actor \<Rightarrow> server \<Rightarrow> server" where
  "spawn a st = st\<lparr>spawned := spawned st @ [a]\<rparr>"

text \<open>A registered job, as the handlers look it up; an unknown one stops the simulator.\<close>

definition registered_job :: "job_identifier \<Rightarrow> server \<Rightarrow> sim_job run" where
  "registered_job ji st = do {
     known \<leftarrow> job_is_registered ji (ws_of st);
     assertion known;
     job_at ji (ws_of st) }"

definition completed_plus_running_ok :: "server \<Rightarrow> bool" where
  "completed_plus_running_ok st \<longleftrightarrow> nb_completed_jobs st + nb_running_jobs st \<le> nb_submitted_jobs st"

text \<open>The end of a job, for the scheduler, and the metadata batsim attaches to it.\<close>

definition tell_job_completed :: "server_externals \<Rightarrow> sim_job \<Rightarrow> server \<Rightarrow> server run" where
  "tell_job_completed sx j st = do {
     st1 \<leftarrow> on_proto (append_job_completed (representation (sj_id j)) (job_state_to_string (sj_state j))
         (to_hyphen (sx_format sx) (sj_allocation j)) (sj_return_code j) (now_of st)) st;
     st2 \<leftarrow> on_proto (append_batsim_metadata (job_name (sj_id j)) (sj_batsim_metadata j) (now_of st1)) st1;
     Some (st2\<lparr>jobs_to_be_deleted := jobs_to_be_deleted st2 @ [sj_id j]\<rparr>) }"

definition tell_job_submitted :: "server_externals \<Rightarrow> sim_job \<Rightarrow> server \<Rightarrow> server run" where
  "tell_job_submitted sx j st =
     on_proto (append_job_submitted (sx_parse sx) (ws_of st) (redis_enabled (base st))
       (submission_forward_profiles st) (representation (sj_id j))
       (if redis_enabled (base st) then [] else sj_json j)
       (if \<not> redis_enabled (base st) \<and> submission_forward_profiles st then pf_json (sj_profile j) else [])
       (now_of st)) st"

subsection \<open>Submitters\<close>

definition server_on_submitter_hello :: "string \<Rightarrow> bool \<Rightarrow> submitter_type \<Rightarrow> server \<Rightarrow> server run" where
  "server_on_submitter_hello n callback typ st = do {
     assertion (\<not> end_of_simulation_sent st);
     assertion (submitters st n = None);
     let c = submitter_counters st typ;
     Some (st\<lparr>submitters := (submitters st)(n \<mapsto> callback),
       submitter_counters := (submitter_counters st)(typ := c\<lparr>nb_submitters := nb_submitters c + 1\<rparr>)\<rparr>) }"

definition server_on_submitter_bye :: "string \<Rightarrow> submitter_type \<Rightarrow> bool \<Rightarrow> server \<Rightarrow> server run" where
  "server_on_submitter_bye n typ workflow st = do {
     assertion (submitters st n \<noteq> None);
     let c = submitter_counters st typ;
     let c1 = c\<lparr>nb_submitters_finished := nb_submitters_finished c + 1\<rparr>;
     let st1 = st\<lparr>submitters := (submitters st)(n := None),
       submitter_counters := (submitter_counters st)(typ := c1)\<rparr>;
     let last = (nb_submitters_finished c1 = expected_nb_submitters c1);
     (case typ of
        EVENT_SUBMITTER \<Rightarrow>
          if last then on_proto (append_notify ''no_more_external_event_to_occur'' (now_of st1)) st1
          else Some st1
      | JOB_SUBMITTER \<Rightarrow> do {
          st2 \<leftarrow> (if last then on_proto (append_notify ''no_more_static_job_to_submit'' (now_of st1)) st1
                else Some st1);
          Some (if workflow then st2\<lparr>nb_workflow_submitters_finished := nb_workflow_submitters_finished st2 + 1\<rparr>
                else st2) }) }"

definition submit_one :: "server_externals \<Rightarrow> string \<Rightarrow> bool \<Rightarrow> job_identifier \<Rightarrow> server \<Rightarrow> server run" where
  "submit_one sx n callback ji st = do {
     j \<leftarrow> job_at ji (ws_of st);
     assertion (callback \<longrightarrow> origin_of_jobs st (representation ji) = None);
     let st1 = (if callback then st\<lparr>origin_of_jobs := (origin_of_jobs st)(representation ji \<mapsto> n)\<rparr> else st);
     let j1 = j\<lparr>sj_state := JOB_STATE_SUBMITTED\<rparr>;
     st2 \<leftarrow> write_job j1 st1;
     tell_job_submitted sx j1 (st2\<lparr>nb_submitted_jobs := nb_submitted_jobs st2 + 1\<rparr>) }"

definition server_on_job_submitted ::
  "server_externals \<Rightarrow> string \<Rightarrow> job_identifier list \<Rightarrow> server \<Rightarrow> server run" where
  "server_on_job_submitted sx n jis st =
     (if nb_workflows st \<noteq> 0 \<and> terminate_with_last_workflow st
         \<and> nb_workflow_submitters_finished st = nb_workflows st then Some st
      else do {
        callback \<leftarrow> submitters st n;
        fold_run (submit_one sx n callback) jis st })"

subsection \<open>The ends of jobs\<close>

definition call_submitter_back :: "job_identifier \<Rightarrow> server \<Rightarrow> server run" where
  "call_submitter_back ji st =
     (case origin_of_jobs st (representation ji) of
        None \<Rightarrow> Some st
      | Some n \<Rightarrow> do {
          assertion (submitters st n \<noteq> None);
          Some (st\<lparr>outbox := outbox st @ [(n, Submitter_callback ji)],
            origin_of_jobs := (origin_of_jobs st)(representation ji := None)\<rparr>) })"

definition server_on_job_completed :: "server_externals \<Rightarrow> job_identifier \<Rightarrow> server \<Rightarrow> server run" where
  "server_on_job_completed sx ji st = do {
     j \<leftarrow> job_at ji (ws_of st);
     st1 \<leftarrow> call_submitter_back ji st;
     let st2 = st1\<lparr>nb_running_jobs := nb_running_jobs st1 - 1\<rparr>;
     assertion (0 \<le> nb_running_jobs st2);
     let st3 = st2\<lparr>nb_completed_jobs := nb_completed_jobs st2 + 1\<rparr>;
     assertion (completed_plus_running_ok st3);
     tell_job_completed sx j st3 }"

definition killing_done_one :: "server_externals \<Rightarrow> kill_message \<Rightarrow> server \<Rightarrow> server run" where
  "killing_done_one sx km st = do {
     j \<leftarrow> job_at (km_id km) (ws_of st);
     (if sj_state j = JOB_STATE_COMPLETED_KILLED then do {
        let st1 = st\<lparr>nb_running_jobs := nb_running_jobs st - 1\<rparr>;
        assertion (0 \<le> nb_running_jobs st1);
        let st2 = st1\<lparr>nb_completed_jobs := nb_completed_jobs st1 + 1, nb_killed_jobs := nb_killed_jobs st1 + 1\<rparr>;
        assertion (completed_plus_running_ok st2);
        tell_job_completed sx j st2 }
      else Some st) }"

definition server_on_killing_done ::
  "server_externals \<Rightarrow> (kill_message \<times> bat_task option) list \<Rightarrow> bool \<Rightarrow> server \<Rightarrow> server run" where
  "server_on_killing_done sx msgs acknowledge st = do {
     st1 \<leftarrow> fold_run (killing_done_one sx) (map fst msgs) st;
     st2 \<leftarrow> (if acknowledge then on_proto (append_job_killed msgs (now_of st1)) st1 else Some st1);
     Some (st2\<lparr>nb_killers := nb_killers st2 - 1\<rparr>) }"

subsection \<open>External events\<close>

definition on_platform :: "(sim_machines \<Rightarrow> sim_machines run) \<Rightarrow> server \<Rightarrow> server run" where
  "on_platform f st = do { ms \<leftarrow> f (platform st); Some (st\<lparr>platform := ms\<rparr>) }"

definition server_on_event_machine_unavailable :: "server_externals \<Rightarrow> machines \<Rightarrow> server \<Rightarrow> server run" where
  "server_on_event_machine_unavailable sx U st =
     (if U = {} then Some st
      else do {
        st1 \<leftarrow> on_platform (for_machines (make_unavailable (now_of st)) U) st;
        on_proto (append_notify_resource_event (sx_format sx) ''event_machine_unavailable'' U (now_of st1)) st1 })"

definition server_on_event_machine_available :: "server_externals \<Rightarrow> machines \<Rightarrow> server \<Rightarrow> server run" where
  "server_on_event_machine_available sx U st =
     (if U = {} then Some st
      else do {
        st1 \<leftarrow> on_platform (for_machines (make_available (now_of st)) U) st;
        on_proto (append_notify_resource_event (sx_format sx) ''event_machine_available'' U (now_of st1)) st1 })"

fun server_on_event :: "server_externals \<Rightarrow> external_event \<Rightarrow> server \<Rightarrow> server run" where
  "server_on_event sx (Event_machine_available U) st = server_on_event_machine_available sx U st"
| "server_on_event sx (Event_machine_unavailable U) st = server_on_event_machine_unavailable sx U st"
| "server_on_event sx (Event_generic s) st =
     on_proto (append_notify_generic_event (sx_parse sx) s (now_of st)) st"
| "server_on_event sx (Event_job_fault i) st =
     on_proto (append_notify_job_fault_event ''job_fault'' i (now_of st)) st"

definition server_on_event_occurred :: "server_externals \<Rightarrow> external_event list \<Rightarrow> server \<Rightarrow> server run" where
  "server_on_event_occurred sx es st = fold_run (server_on_event sx) es st"

subsection \<open>Power states\<close>

text \<open>\<^verbatim>\<open>pstates[p]\<close> of an unknown number is the first enumerator.\<close>

definition pstate_of :: "int \<Rightarrow> machine \<Rightarrow> pstate_type" where
  "pstate_of p m = (case m_pstates m p of Some t \<Rightarrow> t | None \<Rightarrow> COMPUTATION_PSTATE)"

definition announce_switch :: "server_externals \<Rightarrow> nat \<Rightarrow> int \<Rightarrow> server \<Rightarrow> server run" where
  "announce_switch sx i p st = do {
     (r, sws) \<leftarrow> mark_switch_as_done i p (current_switches st);
     let st1 = st\<lparr>current_switches := sws\<rparr>;
     (case r of
        None \<Rightarrow> Some st1
      | Some U \<Rightarrow> on_proto (append_resource_state_changed (sx_format sx) U (show_int p) (now_of st1)) st1) }"

definition switch_one :: "server_externals \<Rightarrow> int \<Rightarrow> nat \<Rightarrow> server \<Rightarrow> server run" where
  "switch_one sx p i st = do {
     m \<leftarrow> machine_at i (platform st);
     (case pstate_of (m_host_pstate m) m of
        COMPUTATION_PSTATE \<Rightarrow>
          (case pstate_of p m of
             COMPUTATION_PSTATE \<Rightarrow>
               announce_switch sx i p (st\<lparr>platform := put_machine i (m\<lparr>m_host_pstate := p\<rparr>) (platform st)\<rparr>)
           | SLEEP_PSTATE \<Rightarrow> do {
               st1 \<leftarrow> on_platform (update_machine_state (now_of st) TRANSITING_FROM_COMPUTING_TO_SLEEPING i) st;
               Some ((spawn (Switch_off i p) st1)\<lparr>nb_switching_machines := nb_switching_machines st1 + 1\<rparr>) }
           | TRANSITION_VIRTUAL_PSTATE \<Rightarrow> Some st)
      | SLEEP_PSTATE \<Rightarrow> do {
          assertion (pstate_of p m = COMPUTATION_PSTATE);
          st1 \<leftarrow> on_platform (update_machine_state (now_of st) TRANSITING_FROM_SLEEPING_TO_COMPUTING i) st;
          Some ((spawn (Switch_on i p) st1)\<lparr>nb_switching_machines := nb_switching_machines st1 + 1\<rparr>) }
      | TRANSITION_VIRTUAL_PSTATE \<Rightarrow> Some st) }"

definition server_on_pstate_modification :: "server_externals \<Rightarrow> machines \<Rightarrow> int \<Rightarrow> server \<Rightarrow> server run" where
  "server_on_pstate_modification sx U p st = do {
     assertion (energy_used st);
     assertion (U \<noteq> {});
     first \<leftarrow> machine_at (Min U) (platform st);
     fold_run (switch_one sx p) (sorted_list_of_set U)
       (st\<lparr>current_switches := add_switch U p (current_switches st),
         nb_grouped_switches := nb_grouped_switches st + 1,
         nb_machine_switches := nb_machine_switches st + int (card U)\<rparr>) }"

definition server_on_switched :: "server_externals \<Rightarrow> nat \<Rightarrow> int \<Rightarrow> server \<Rightarrow> server run" where
  "server_on_switched sx i p st = do {
     m \<leftarrow> machine_at i (platform st);
     assertion (m_host_pstate m = p);
     st1 \<leftarrow> announce_switch sx i p st;
     Some (st1\<lparr>nb_switching_machines := nb_switching_machines st1 - 1\<rparr>) }"

subsection \<open>The scheduler's requests\<close>

definition server_on_waiting_done :: "int \<Rightarrow> int \<Rightarrow> server \<Rightarrow> server run" where
  "server_on_waiting_done n what st = do {
     st1 \<leftarrow> on_proto (append_requested_call (now_of st) n what) st;
     Some (st1\<lparr>nb_waiters := nb_waiters st1 - 1\<rparr>) }"

definition server_on_sched_ready :: "server \<Rightarrow> server" where
  "server_on_sched_ready st =
     (let st1 = st\<lparr>sched_ready := True\<rparr> in
      if end_of_simulation_sent st1 then st1\<lparr>end_of_simulation_ack_received := True\<rparr> else st1)"

definition server_on_sched_wait_answer :: "string \<Rightarrow> int \<Rightarrow> rat \<Rightarrow> rat \<Rightarrow> server \<Rightarrow> server" where
  "server_on_sched_wait_answer n res t expected st = st\<lparr>outbox := outbox st @ [(n, Wait_answer res t expected)]\<rparr>"

definition server_on_sched_tell_me_energy :: "server_externals \<Rightarrow> server \<Rightarrow> server run" where
  "server_on_sched_tell_me_energy sx st = do {
     assertion (energy_used st);
     on_proto (append_answer_energy (sx_consumed_energy sx) (now_of st)) st }"

definition server_on_end_dynamic_register :: "server \<Rightarrow> server" where
  "server_on_end_dynamic_register st = st\<lparr>base := (base st)\<lparr>registration_sched_finished := True\<rparr>\<rparr>"

definition server_on_continue_dynamic_register :: "server \<Rightarrow> server" where
  "server_on_continue_dynamic_register st = st\<lparr>base := (base st)\<lparr>registration_sched_finished := False\<rparr>\<rparr>"

definition server_on_register_job :: "server_externals \<Rightarrow> job_identifier \<Rightarrow> server \<Rightarrow> server run" where
  "server_on_register_job sx ji st = do {
     j \<leftarrow> job_at ji (ws_of st);
     let st1 = st\<lparr>nb_submitted_jobs := nb_submitted_jobs st + 1\<rparr>;
     (if registration_sched_ack st1 then tell_job_submitted sx j st1 else Some st1) }"

definition server_on_set_job_metadata :: "job_identifier \<Rightarrow> string \<Rightarrow> server \<Rightarrow> server run" where
  "server_on_set_job_metadata ji metadata st = do {
     j \<leftarrow> registered_job ji st;
     write_job (j\<lparr>sj_metadata := metadata\<rparr>) st }"

definition to_delete :: "job_identifier \<Rightarrow> server \<Rightarrow> server" where
  "to_delete ji st = st\<lparr>jobs_to_be_deleted := jobs_to_be_deleted st @ [ji]\<rparr>"

text \<open>The states a scheduler may give to a job it runs itself.\<close>

definition server_on_change_job_state :: "job_identifier \<Rightarrow> string \<Rightarrow> server \<Rightarrow> server run" where
  "server_on_change_job_state ji s st = do {
     j \<leftarrow> registered_job ji st;
     new_state \<leftarrow> job_state_from_string s;
     (if sj_state j = JOB_STATE_SUBMITTED then
        (if new_state = JOB_STATE_RUNNING then do {
           let st1 = st\<lparr>nb_running_jobs := nb_running_jobs st + 1\<rparr>;
           assertion (nb_running_jobs st1 \<le> nb_submitted_jobs st1);
           write_job (j\<lparr>sj_starting_time := now_of st, sj_state := new_state\<rparr>) st1 }
         else if new_state = JOB_STATE_REJECTED then do {
           let st1 = st\<lparr>nb_completed_jobs := nb_completed_jobs st + 1\<rparr>;
           assertion (completed_plus_running_ok st1);
           write_job (j\<lparr>sj_state := new_state\<rparr>) (to_delete ji st1) }
         else None)
      else if sj_state j = JOB_STATE_RUNNING then
        (if new_state \<in> {JOB_STATE_COMPLETED_SUCCESSFULLY, JOB_STATE_COMPLETED_FAILED,
             JOB_STATE_COMPLETED_WALLTIME_REACHED, JOB_STATE_COMPLETED_KILLED} then do {
           let st1 = st\<lparr>nb_running_jobs := nb_running_jobs st - 1\<rparr>;
           assertion (0 \<le> nb_running_jobs st1);
           let st2 = st1\<lparr>nb_completed_jobs := nb_completed_jobs st1 + 1\<rparr>;
           assertion (completed_plus_running_ok st2);
           write_job (j\<lparr>sj_runtime := now_of st - sj_starting_time j, sj_state := new_state\<rparr>) (to_delete ji st2) }
         else None)
      else None) }"

definition server_on_to_job_msg :: "job_identifier \<Rightarrow> string \<Rightarrow> server \<Rightarrow> server run" where
  "server_on_to_job_msg ji msg st = do {
     j \<leftarrow> registered_job ji st;
     write_job (j\<lparr>sj_incoming_messages := sj_incoming_messages j @ [msg]\<rparr>) st }"

definition server_on_from_job_msg :: "job_identifier \<Rightarrow> json \<Rightarrow> server \<Rightarrow> server run" where
  "server_on_from_job_msg ji msg st = do {
     j \<leftarrow> job_at ji (ws_of st);
     on_proto (append_from_job_message (representation ji) msg (now_of st)) st }"

definition server_on_reject_job :: "job_identifier \<Rightarrow> server \<Rightarrow> server run" where
  "server_on_reject_job ji st = do {
     j \<leftarrow> registered_job ji st;
     assertion (sj_state j = JOB_STATE_SUBMITTED);
     st1 \<leftarrow> write_job (j\<lparr>sj_state := JOB_STATE_REJECTED\<rparr>) st;
     Some (to_delete ji (st1\<lparr>nb_completed_jobs := nb_completed_jobs st1 + 1\<rparr>)) }"

text \<open>A kill that was requested already is dropped.\<close>

fun jobs_to_kill :: "kill_message list \<Rightarrow> server \<Rightarrow> (kill_message list \<times> server) run" where
  "jobs_to_kill [] st = Some ([], st)"
| "jobs_to_kill (km # kms) st = do {
     j \<leftarrow> registered_job (km_id km) st;
     (if sj_kill_requested j then jobs_to_kill kms st
      else do {
        assertion (sj_state j = JOB_STATE_RUNNING \<or> is_complete (sj_state j));
        st1 \<leftarrow> write_job (j\<lparr>sj_kill_requested := True\<rparr>) st;
        (rest, st2) \<leftarrow> jobs_to_kill kms st1;
        Some (km # rest, st2) }) }"

definition server_on_kill_jobs :: "kill_message list \<Rightarrow> server \<Rightarrow> server run" where
  "server_on_kill_jobs kms st = do {
     (killed, st1) \<leftarrow> jobs_to_kill kms st;
     Some (if killed \<noteq> [] then (spawn (Killer killed) st1)\<lparr>nb_killers := nb_killers st1 + 1\<rparr> else st1) }"

definition server_on_call_me_later :: "time \<Rightarrow> int \<Rightarrow> int \<Rightarrow> server \<Rightarrow> server run" where
  "server_on_call_me_later target n what st = do {
     assertion (0 \<le> target + 1 / 10 ^ 4 - now_of st);
     Some ((spawn (Waiter target n what) st)\<lparr>nb_waiters := nb_waiters st + 1,
       sim_call_me_laters := sim_call_me_laters st @ [(target, now_of st, n, what)]\<rparr>) }"

text \<open>The checks of an allocation: sharing, then the ability to compute, then the size.\<close>

definition check_sharing :: "server \<Rightarrow> nat \<Rightarrow> unit run" where
  "check_sharing st i = do {
     m \<leftarrow> machine_at i (platform st);
     assertion (has_role COMPUTE_NODE m \<and> \<not> allow_compute_sharing st \<longrightarrow> m_jobs m = {});
     assertion (has_role STORAGE m \<and> \<not> allow_storage_sharing st \<longrightarrow> m_jobs m = {}) }"

definition check_can_compute :: "server \<Rightarrow> nat \<Rightarrow> unit run" where
  "check_can_compute st i = do {
     m \<leftarrow> machine_at i (platform st);
     assertion (m_state m = COMPUTING \<or> m_state m = IDLE);
     (if energy_used st then do {
        assertion (has_pstate (m_host_pstate m) m);
        assertion (m_pstates m (m_host_pstate m) = Some COMPUTATION_PSTATE) }
      else Some ()) }"

fun flexible_profile :: "sim_profile \<Rightarrow> bool" where
  "flexible_profile (Sim_Profile n t d res ps) \<longleftrightarrow>
     t = PARALLEL_HOMOGENEOUS_TOTAL_AMOUNT \<or>
     (t = SEQUENCE \<and> (\<forall>p \<in> set ps. pf_type p = PARALLEL_HOMOGENEOUS_TOTAL_AMOUNT))"

definition server_on_execute_job :: "scheduling_allocation \<Rightarrow> server \<Rightarrow> server run" where
  "server_on_execute_job a st = do {
     j \<leftarrow> job_at (sa_job a) (ws_of st);
     assertion (sj_state j = JOB_STATE_SUBMITTED);
     st1 \<leftarrow> write_job (j\<lparr>sj_state := JOB_STATE_RUNNING\<rparr>) st;
     let st2 = st1\<lparr>nb_running_jobs := nb_running_jobs st1 + 1\<rparr>;
     assertion (nb_running_jobs st2 \<le> nb_submitted_jobs st2);
     let is = sorted_list_of_set (sa_machine_ids a);
     (if \<not> allow_compute_sharing st2 \<or> \<not> allow_storage_sharing st2
      then do { us \<leftarrow> map_run (check_sharing st2) is; Some () } else Some ());
     us \<leftarrow> map_run (check_can_compute st2) is;
     assertion (\<not> flexible_profile (sj_profile j) \<longrightarrow>
       (if sa_mapping a \<noteq> [] then int (length (sa_mapping a)) = sj_requested_nb_res j
        else int (card (sa_machine_ids a)) = sj_requested_nb_res j));
     assertion (sa_machine_ids a \<noteq> {});
     Some (spawn (Execute_job a) st2) }"

subsection \<open>The loop\<close>

text \<open>The table of handlers.\<close>

fun handle_scheduler :: "server_externals \<Rightarrow> server_message \<Rightarrow> server \<Rightarrow> server run" where
  "handle_scheduler sx SCHED_TELL_ME_ENERGY st = server_on_sched_tell_me_energy sx st"
| "handle_scheduler sx (SCHED_REJECT_JOB ji) st = server_on_reject_job ji st"
| "handle_scheduler sx (SCHED_EXECUTE_JOB a) st = server_on_execute_job a st"
| "handle_scheduler sx (SCHED_CALL_ME_LATER t n what) st = server_on_call_me_later t n what st"
| "handle_scheduler sx (PSTATE_MODIFICATION U p) st = server_on_pstate_modification sx U p st"
| "handle_scheduler sx (SCHED_SET_JOB_METADATA ji m) st = server_on_set_job_metadata ji m st"
| "handle_scheduler sx (SCHED_CHANGE_JOB_STATE ji s) st = server_on_change_job_state ji s st"
| "handle_scheduler sx (TO_JOB_MSG ji m) st = server_on_to_job_msg ji m st"
| "handle_scheduler sx (SCHED_KILL_JOB kms) st = server_on_kill_jobs kms st"
| "handle_scheduler sx (JOB_REGISTERED_BY_DP ji d) st = server_on_register_job sx ji st"
| "handle_scheduler sx (PROFILE_REGISTERED_BY_DP w p d) st = Some st"
| "handle_scheduler sx END_DYNAMIC_REGISTER st = Some (server_on_end_dynamic_register st)"
| "handle_scheduler sx CONTINUE_DYNAMIC_REGISTER st = Some (server_on_continue_dynamic_register st)"
| "handle_scheduler sx SCHED_READY st = Some (server_on_sched_ready st)"

fun handle_ip :: "server_externals \<Rightarrow> ip_message \<Rightarrow> server \<Rightarrow> server run" where
  "handle_ip sx (From_scheduler m) st = handle_scheduler sx m st"
| "handle_ip sx (Submitter_hello n cb t) st = server_on_submitter_hello n cb t st"
| "handle_ip sx (Submitter_bye n t flow) st = server_on_submitter_bye n t flow st"
| "handle_ip sx (Job_submitted n jis) st = server_on_job_submitted sx n jis st"
| "handle_ip sx (Job_completed ji) st = server_on_job_completed sx ji st"
| "handle_ip sx (Event_occurred es) st = server_on_event_occurred sx es st"
| "handle_ip sx (Waiting_done n what) st = server_on_waiting_done n what st"
| "handle_ip sx (Sched_wait_answer n r t e) st = Some (server_on_sched_wait_answer n r t e st)"
| "handle_ip sx Wait_query st = None"
| "handle_ip sx (Switched i p) st = server_on_switched sx i p st"
| "handle_ip sx (Killing_done msgs ack) st = server_on_killing_done sx msgs ack st"
| "handle_ip sx (From_job_msg ji m) st = server_on_from_job_msg ji m st"

definition is_simulation_finished :: "server \<Rightarrow> bool" where
  "is_simulation_finished st \<longleftrightarrow>
     (let js = submitter_counters st JOB_SUBMITTER; es = submitter_counters st EVENT_SUBMITTER in
      nb_submitters_finished js = expected_nb_submitters js \<and>
      nb_submitters_finished es = expected_nb_submitters es \<and>
      (\<not> registration_sched_enabled (base st) \<or> registration_sched_finished (base st)) \<and>
      nb_completed_jobs st = nb_submitted_jobs st \<and>
      nb_running_jobs st = 0 \<and> nb_switching_machines st = 0 \<and> nb_waiters st = 0 \<and> nb_killers st = 0)"

definition generate_and_send_message :: "server \<Rightarrow> server run" where
  "generate_and_send_message st = do {
     (doc, w) \<leftarrow> sim_generate_message (now_of st) (proto_writer st);
     Some ((spawn (Request_reply doc) st)\<lparr>proto_writer := sim_clear w, sched_ready := False\<rparr>) }"

definition send_if_needed :: "bool \<Rightarrow> server \<Rightarrow> server run" where
  "send_if_needed mailbox_empty st =
     (if sched_ready st \<and> \<not> end_of_simulation_ack_received st \<and> mailbox_empty then
        (if \<not> sw_is_empty (proto_writer st) then do {
           st1 \<leftarrow> generate_and_send_message st;
           (if jobs_to_be_deleted st1 \<noteq> [] then do {
              ws \<leftarrow> delete_jobs (garbage_collect_profiles st1) (jobs_to_be_deleted st1) (ws_of st1);
              Some (st1\<lparr>base := (base st1)\<lparr>ctx_workloads := ws\<rparr>, jobs_to_be_deleted := []\<rparr>) }
            else Some st1) }
         else if is_simulation_finished st \<and> \<not> end_of_simulation_sent st then do {
           st1 \<leftarrow> on_proto (append_simulation_ends (now_of st)) st;
           st2 \<leftarrow> generate_and_send_message st1;
           Some (st2\<lparr>end_of_simulation_sent := True\<rparr>) }
         else Some st)
      else Some st)"

definition server_turn :: "server_externals \<Rightarrow> ip_message \<Rightarrow> bool \<Rightarrow> server \<Rightarrow> server run" where
  "server_turn sx m mailbox_empty st = do { st1 \<leftarrow> handle_ip sx m st; send_if_needed mailbox_empty st1 }"

text \<open>The assertions after the loop.\<close>

definition final_assertions :: "server \<Rightarrow> bool" where
  "final_assertions st \<longleftrightarrow> end_of_simulation_sent st \<and> end_of_simulation_ack_received st \<and> sched_ready st \<and>
     nb_running_jobs st = 0 \<and> nb_switching_machines st = 0 \<and> nb_killers st = 0 \<and> nb_waiters st = 0 \<and>
     nb_completed_jobs st = nb_submitted_jobs st"

text \<open>
  Before the loop the server sends the beginning of the simulation, with its counters at zero; one
  submitter is expected for each static workload and each list of events.
\<close>

definition nb_static_workloads :: "string list \<Rightarrow> workloads \<Rightarrow> int" where
  "nb_static_workloads ns ws =
     int (length (filter (\<lambda>n. case ws n of Some w \<Rightarrow> sw_static w | None \<Rightarrow> False) ns))"

definition server_start ::
  "server_externals \<Rightarrow> visit_order \<Rightarrow> json \<Rightarrow> int \<Rightarrow> server \<Rightarrow> server run" where
  "server_start sx ord config nb_event_lists st = do {
     st1 \<leftarrow> on_proto (append_simulation_begins (sx_parse sx) ord (platform st) (ws_of st) config
         (allow_compute_sharing st) (allow_storage_sharing st) (now_of st)) st;
     st2 \<leftarrow> generate_and_send_message st1;
     let expected = (\<lambda>n. \<lparr>expected_nb_submitters = n, nb_submitters = 0, nb_submitters_finished = 0\<rparr>);
     Some (st2\<lparr>nb_completed_jobs := 0, nb_submitted_jobs := 0, nb_running_jobs := 0, nb_killed_jobs := 0,
       nb_workflow_submitters_finished := 0, nb_switching_machines := 0, nb_waiters := 0, nb_killers := 0,
       end_of_simulation_sent := False, end_of_simulation_ack_received := False,
       submitters := Map.empty, origin_of_jobs := Map.empty, jobs_to_be_deleted := [],
       submitter_counters := (\<lambda>t. case t of
          JOB_SUBMITTER \<Rightarrow> expected (nb_static_workloads (workload_order ord) (ws_of st))
        | EVENT_SUBMITTER \<Rightarrow> expected nb_event_lists)\<rparr>) }"

text \<open>
  The messages received, each with the date and whether the mailbox is empty after it.  Without an
  acknowledgement of the end the server waits for ever: \<open>None\<close>.
\<close>

fun server_loop :: "server_externals \<Rightarrow> (time \<times> ip_message \<times> bool) list \<Rightarrow> server \<Rightarrow> server run" where
  "server_loop sx msgs st =
     (if end_of_simulation_ack_received st then do { assertion (final_assertions st); Some st }
      else (case msgs of
          [] \<Rightarrow> None
        | (date, m, mailbox_empty) # rest \<Rightarrow> do {
            st1 \<leftarrow> server_turn sx m mailbox_empty (st\<lparr>base := (base st)\<lparr>clock := date\<rparr>\<rparr>);
            server_loop sx rest st1 }))"

end
