(* ===== verification/Sim_Execution.thy ===== *)
theory Sim_Execution
  imports Sim_Server
begin

text \<open>
  The actors of the simulator that run, wait for and kill jobs (\<^verbatim>\<open>jobs_execution.cpp\<close>).  The
  execution of the tasks by the simulation kernel is reduced to what comes out of it: the return
  code of a job, and the tree of its tasks when it is killed.
\<close>

subsection \<open>Running a job\<close>

text \<open>
  The hosts of a job: the executors are mapped to the allocated machines, one each by default.
  \<^verbatim>\<open>IntervalSet\<close>'s subscript fails an assertion past the end.  For the machines of the additional
  I/O job the code takes the positions in the allocation for the machines' numbers.
\<close>

definition mapping_of :: "scheduling_allocation \<Rightarrow> int list" where
  "mapping_of a = (if sa_mapping a = [] then map int [0..<card (sa_machine_ids a)] else sa_mapping a)"

definition allocated_machine :: "machines \<Rightarrow> int \<Rightarrow> nat run" where
  "allocated_machine U k = do {
     assertion (0 \<le> k \<and> k < int (card U));
     Some (sorted_list_of_set U ! nat k) }"

definition executor_hosts :: "scheduling_allocation \<Rightarrow> sim_machines \<Rightarrow> machine list run" where
  "executor_hosts a ms = map_run (\<lambda>k. do { i \<leftarrow> allocated_machine (sa_machine_ids a) k; machine_at i ms }) (mapping_of a)"

definition io_hosts :: "scheduling_allocation \<Rightarrow> sim_machines \<Rightarrow> machine list run" where
  "io_hosts a ms = map_run (\<lambda>i. machine_at i ms) [0..<card (sa_io_allocation a)]"

text \<open>What \<^verbatim>\<open>execute_job_process\<close> does before and after the execution of the task.\<close>

definition job_begins :: "scheduling_allocation \<Rightarrow> server \<Rightarrow> server run" where
  "job_begins a st = do {
     j \<leftarrow> job_at (sa_job a) (ws_of st);
     st1 \<leftarrow> write_job (j\<lparr>sj_starting_time := now_of st, sj_allocation := sa_machine_ids a\<rparr>) st;
     hosts \<leftarrow> executor_hosts a (platform st1);
     io \<leftarrow> io_hosts a (platform st1);
     on_platform (update_machines_on_job_run (now_of st) (representation (sj_id j)) (sa_machine_ids a)) st1 }"

definition state_of_return_code :: "int \<Rightarrow> job_state run" where
  "state_of_return_code rc =
     (if rc = 0 then Some JOB_STATE_COMPLETED_SUCCESSFULLY
      else if 0 < rc then Some JOB_STATE_COMPLETED_FAILED
      else if rc = - 1 then Some JOB_STATE_COMPLETED_WALLTIME_REACHED
      else if rc = - 2 then Some JOB_STATE_COMPLETED_KILLED
      else None)"

definition run_time :: "time \<Rightarrow> sim_job \<Rightarrow> rat" where
  "run_time now j = (let t = now - sj_starting_time j in if t = 0 then 1 / 10 ^ 5 else t)"

text \<open>The server hears of the end of a job unless it was killed: its killer reports it then.\<close>

definition job_finishes :: "scheduling_allocation \<Rightarrow> int \<Rightarrow> server \<Rightarrow> (ip_message list \<times> server) run" where
  "job_finishes a rc st = do {
     j \<leftarrow> job_at (sa_job a) (ws_of st);
     new_state \<leftarrow> state_of_return_code rc;
     st1 \<leftarrow> on_platform (update_machines_on_job_end (now_of st) (representation (sj_id j)) (sa_machine_ids a)) st;
     st2 \<leftarrow> write_job (j\<lparr>sj_return_code := rc, sj_state := new_state, sj_runtime := run_time (now_of st) j\<rparr>) st1;
     Some (if new_state = JOB_STATE_COMPLETED_KILLED then [] else [Job_completed (sj_id j)], st2) }"

subsection \<open>Killing jobs\<close>

fun cancel_ptask :: "bat_task \<Rightarrow> bool run"
  and cancel_nth :: "nat \<Rightarrow> bat_task list \<Rightarrow> bool run" where
  "cancel_ptask (Bat_Task p pt ds dr c r sub) =
     (if pt \<noteq> None then Some True
      else if sub = [] then Some False
      else do { i \<leftarrow> c; cancel_nth i sub })"
| "cancel_nth i [] = None"
| "cancel_nth 0 (t # ts) = cancel_ptask t"
| "cancel_nth (Suc i) (t # ts) = cancel_nth i ts"

text \<open>
  One job of \<^verbatim>\<open>killer_process\<close>; \<open>tasks\<close> gives the tree of the tasks of a job that runs.  When a
  parallel task is cancelled the job ends by itself, with the return code of a killed job.
\<close>

definition kill_one ::
  "(job_identifier \<Rightarrow> bat_task option) \<Rightarrow> kill_message \<Rightarrow> server \<Rightarrow>
   ((kill_message \<times> bat_task option) \<times> server) run" where
  "kill_one tasks km st = do {
     j \<leftarrow> job_at (km_id km) (ws_of st);
     assertion (sj_state j \<noteq> JOB_STATE_REJECTED \<and> sj_state j \<noteq> JOB_STATE_SUBMITTED
       \<and> sj_state j \<noteq> JOB_STATE_NOT_SUBMITTED);
     (if sj_state j = JOB_STATE_RUNNING then do {
        t \<leftarrow> tasks (km_id km);
        progress \<leftarrow> compute_tasks_progress (now_of st) t;
        cancelled \<leftarrow> cancel_ptask t;
        (if cancelled then Some ((km, Some progress), st)
         else do {
           st1 \<leftarrow> on_platform (update_machines_on_job_end (now_of st) (representation (sj_id j)) (sj_allocation j)) st;
           assertion (0 \<le> now_of st - sj_starting_time j);
           st2 \<leftarrow> write_job (j\<lparr>sj_state := JOB_STATE_COMPLETED_KILLED, sj_runtime := run_time (now_of st) j\<rparr>) st1;
           Some ((km, Some progress), st2) }) }
      else Some ((km, None), st)) }"

fun kill_all ::
  "(job_identifier \<Rightarrow> bat_task option) \<Rightarrow> kill_message list \<Rightarrow> server \<Rightarrow>
   ((kill_message \<times> bat_task option) list \<times> server) run" where
  "kill_all tasks [] st = Some ([], st)"
| "kill_all tasks (km # kms) st = do {
     (r, st1) \<leftarrow> kill_one tasks km st;
     (rs, st2) \<leftarrow> kill_all tasks kms st1;
     Some (r # rs, st2) }"

definition killer_process ::
  "(job_identifier \<Rightarrow> bat_task option) \<Rightarrow> kill_message list \<Rightarrow> bool \<Rightarrow> server \<Rightarrow> (ip_message \<times> server) run" where
  "killer_process tasks kms acknowledge st = do {
     (msgs, st1) \<leftarrow> kill_all tasks kms st;
     Some (Killing_done msgs acknowledge, st1) }"

subsection \<open>Waiting\<close>

text \<open>A delay too small for the kernel is lengthened.  A waiter is silent once the end was sent.\<close>

definition waking_date :: "time \<Rightarrow> time \<Rightarrow> time" where
  "waking_date now target =
     (if now < target then (if target - now < 1 / 10 ^ 5 then now + 1 / 10 ^ 5 else target) else now)"

definition waiter_says :: "int \<Rightarrow> int \<Rightarrow> server \<Rightarrow> ip_message list" where
  "waiter_says n what st =
     (if end_of_simulation_sent st \<or> end_of_simulation_ack_received st then [] else [Waiting_done n what])"

end
