(* ===== verification/Sim_Books.thy ===== *)
theory Sim_Books
  imports Sim_Execution
begin

text \<open>
  The accounts of the simulator's server.  The server decides from counters when the simulation is
  over; this theory relates them to the jobs: whatever the interleaving of submissions,
  registrations, decisions, ends and kills of jobs, every submitted job is counted once, as waiting,
  running or completed.
\<close>

subsection \<open>Jobs by key\<close>

type_synonym key = "string \<times> string"

definition key_of :: "job_identifier \<Rightarrow> key" where
  "key_of ji = (workload_name ji, representation ji)"

definition jobs_map :: "workloads \<Rightarrow> key \<Rightarrow> sim_job option" where
  "jobs_map ws k = (case ws (fst k) of Some w \<Rightarrow> sw_jobs w (snd k) | None \<Rightarrow> None)"

lemma job_at_map: "job_at ji ws = jobs_map ws (key_of ji)"
  by (cases "ws (workload_name ji)") (simp_all add: job_at_def jobs_at_def jobs_map_def key_of_def)

definition jobs_in :: "(job_state \<Rightarrow> bool) \<Rightarrow> (key \<Rightarrow> sim_job option) \<Rightarrow> key set" where
  "jobs_in P f = {k. \<exists>j. f k = Some j \<and> P (sj_state j)}"

abbreviation fresh_jobs :: "(key \<Rightarrow> sim_job option) \<Rightarrow> key set" where
  "fresh_jobs \<equiv> jobs_in (\<lambda>s. s = JOB_STATE_NOT_SUBMITTED)"
abbreviation submitted_jobs :: "(key \<Rightarrow> sim_job option) \<Rightarrow> key set" where
  "submitted_jobs \<equiv> jobs_in (\<lambda>s. s = JOB_STATE_SUBMITTED)"
abbreviation running_jobs :: "(key \<Rightarrow> sim_job option) \<Rightarrow> key set" where
  "running_jobs \<equiv> jobs_in (\<lambda>s. s = JOB_STATE_RUNNING)"
abbreviation complete_jobs :: "(key \<Rightarrow> sim_job option) \<Rightarrow> key set" where
  "complete_jobs \<equiv> jobs_in is_complete"

lemma jobs_in_upd [simp]:
  "jobs_in P (f(k \<mapsto> j)) = (if P (sj_state j) then insert k (jobs_in P f) else jobs_in P f - {k})"
  by (auto simp: jobs_in_def)

lemma jobs_in_drop [simp]: "jobs_in P (f(k := None)) = jobs_in P f - {k}"
  by (auto simp: jobs_in_def)

lemma jobs_in_iff: "f k = Some j \<Longrightarrow> k \<in> jobs_in P f \<longleftrightarrow> P (sj_state j)"
  by (auto simp: jobs_in_def)

lemma finite_jobs_in: "finite (dom f) \<Longrightarrow> finite (jobs_in P f)"
  by (rule finite_subset[of _ "dom f"]) (auto simp: jobs_in_def)

subsection \<open>The books\<close>

text \<open>
  \<open>gone\<close> are the jobs that will be deleted: the server has counted their ends.  \<open>ended\<close> are the
  other jobs that are complete, whose end the server has not heard of yet, and \<open>announced\<close> those the
  scheduler has registered and the server has not counted yet.
\<close>

definition keyed :: "(key \<Rightarrow> sim_job option) \<Rightarrow> bool" where
  "keyed f \<longleftrightarrow> finite (dom f) \<and> (\<forall>k j. f k = Some j \<longrightarrow> key_of (sj_id j) = k)"

definition books_ok ::
  "(key \<Rightarrow> sim_job option) \<Rightarrow> int \<Rightarrow> int \<Rightarrow> int \<Rightarrow> key set \<Rightarrow> key set \<Rightarrow> key set \<Rightarrow> bool" where
  "books_ok f completed submitted running gone ended announced \<longleftrightarrow>
     keyed f \<and> ended = complete_jobs f - gone \<and> announced \<subseteq> submitted_jobs f \<and>
     gone \<inter> (fresh_jobs f \<union> submitted_jobs f \<union> running_jobs f) = {} \<and>
     running = int (card (running_jobs f)) + int (card ended) \<and>
     submitted = completed + int (card (submitted_jobs f - announced)) + running"

lemma keyed_upd: "keyed f \<Longrightarrow> key_of (sj_id j) = k \<Longrightarrow> keyed (f(k \<mapsto> j))"
  by (simp add: keyed_def del: split_paired_All)

lemma keyed_drop: "keyed f \<Longrightarrow> keyed (f(k := None))"
  by (simp add: keyed_def del: split_paired_All)

lemma booksI:
  assumes "keyed f" "e = complete_jobs f - g" "a \<subseteq> submitted_jobs f"
    "g \<inter> (fresh_jobs f \<union> submitted_jobs f \<union> running_jobs f) = {}"
    "r = int (card (running_jobs f)) + int (card e)"
    "s = c + int (card (submitted_jobs f - a)) + r"
  shows "books_ok f c s r g e a"
  using assms unfolding books_ok_def by blast

lemma books_setI:
  assumes "keyed f" "submitted_jobs f = S" "running_jobs f = R" "complete_jobs f = C" "fresh_jobs f = N"
    and "e = C - g" "a \<subseteq> S" "g \<inter> S = {}" "g \<inter> R = {}" "g \<inter> N = {}"
    and "r = int (card R) + int (card e)" "s = c + int (card (S - a)) + r"
  shows "books_ok f c s r g e a"
proof (rule booksI)
  show "g \<inter> (fresh_jobs f \<union> submitted_jobs f \<union> running_jobs f) = {}" using assms(2,3,5,8-10) by blast
qed (use assms in simp_all)

lemma booksD:
  assumes "books_ok f c s r g e a"
  shows "keyed f" "e = complete_jobs f - g" "a \<subseteq> submitted_jobs f"
    "g \<inter> submitted_jobs f = {}" "g \<inter> running_jobs f = {}" "g \<inter> fresh_jobs f = {}"
    "r = int (card (running_jobs f)) + int (card e)"
    "s = c + int (card (submitted_jobs f - a)) + r"
  using assms unfolding books_ok_def by blast+

lemma books_finite:
  assumes "books_ok f c s r g e a"
  shows "finite (jobs_in P f)" "finite e" "finite a"
proof -
  note b = booksD[OF assms]
  have f: "finite (jobs_in Q f)" for Q using finite_jobs_in b(1) by (auto simp: keyed_def)
  show "finite (jobs_in P f)" "finite e" "finite a"
    using f finite_Diff[OF f] finite_subset[OF b(3)] unfolding b(2) by blast+
qed

text \<open>The states exclude each other.\<close>

lemma jobs_apart:
  "fresh_jobs f \<inter> submitted_jobs f = {}" "fresh_jobs f \<inter> running_jobs f = {}" "fresh_jobs f \<inter> complete_jobs f = {}"
  "submitted_jobs f \<inter> running_jobs f = {}" "submitted_jobs f \<inter> complete_jobs f = {}"
  "running_jobs f \<inter> complete_jobs f = {}"
  by (auto simp: jobs_in_def)

lemma card_take: "finite A \<Longrightarrow> k \<in> A \<Longrightarrow> int (card (A - {k})) = int (card A) - 1"
  using card_Suc_Diff1[of A k] by simp

text \<open>A job changes without changing its state.\<close>

lemma books_same:
  assumes "books_ok f c s r g e a" "f k = Some j" "sj_state j' = sj_state j" "key_of (sj_id j') = k"
  shows "books_ok (f(k \<mapsto> j')) c s r g e a"
proof -
  have same: "jobs_in P (f(k \<mapsto> j')) = jobs_in P f" for P
    using assms(2,3) by (auto simp: jobs_in_def)
  show ?thesis
    using booksD[OF assms(1)] keyed_upd[OF _ assms(4)]
    by (intro books_setI[OF _ same same same same])
qed

lemma books_submit:
  assumes "books_ok f c s r g e a" "f k = Some j" "sj_state j = JOB_STATE_NOT_SUBMITTED"
    "sj_state j' = JOB_STATE_SUBMITTED" "key_of (sj_id j') = k"
  shows "books_ok (f(k \<mapsto> j')) c (s + 1) r g e a"
proof -
  note b = booksD[OF assms(1)]
  have k: "k \<notin> submitted_jobs f" "k \<notin> running_jobs f" "k \<notin> complete_jobs f" "k \<in> fresh_jobs f"
    using assms(2,3) by (simp_all add: jobs_in_iff)
  have new: "submitted_jobs (f(k \<mapsto> j')) = insert k (submitted_jobs f)"
      "running_jobs (f(k \<mapsto> j')) = running_jobs f" "complete_jobs (f(k \<mapsto> j')) = complete_jobs f"
      "fresh_jobs (f(k \<mapsto> j')) = fresh_jobs f - {k}"
    using assms(4) k by simp_all
  have "insert k (submitted_jobs f) - a = insert k (submitted_jobs f - a)" using b(3) k(1) by blast
  then have "int (card (insert k (submitted_jobs f) - a)) = int (card (submitted_jobs f - a)) + 1"
    using books_finite[OF assms(1)] k by simp
  then show ?thesis
    by (intro books_setI[OF keyed_upd[OF b(1) assms(5)] new])
      (use b(7,8) in linarith | use b(2-6) k(4) in blast)+
qed

text \<open>The scheduler registers a job, and the server counts it.\<close>

lemma books_announce:
  assumes "books_ok f c s r g e a" "f k = None" "sj_state j = JOB_STATE_SUBMITTED" "key_of (sj_id j) = k" "k \<notin> g"
  shows "books_ok (f(k \<mapsto> j)) c s r g e (insert k a)"
proof -
  note b = booksD[OF assms(1)]
  have k: "k \<notin> jobs_in P f" for P using assms(2) by (simp add: jobs_in_def)
  have new: "submitted_jobs (f(k \<mapsto> j)) = insert k (submitted_jobs f)"
      "running_jobs (f(k \<mapsto> j)) = running_jobs f" "complete_jobs (f(k \<mapsto> j)) = complete_jobs f"
      "fresh_jobs (f(k \<mapsto> j)) = fresh_jobs f"
    using assms(3) k by simp_all
  have eq: "insert k (submitted_jobs f) - insert k a = submitted_jobs f - a" using k by blast
  show ?thesis
  proof (rule books_setI[OF keyed_upd[OF b(1) assms(4)] new])
    show "s = c + int (card (insert k (submitted_jobs f) - insert k a)) + r" using b(8) by (simp only: eq)
  qed (use b(7) in linarith | use b(2-6) assms(5) in blast)+
qed

lemma books_count:
  assumes "books_ok f c s r g e a" "k \<in> a"
  shows "books_ok f c (s + 1) r g e (a - {k})"
proof -
  note b = booksD[OF assms(1)]
  have "submitted_jobs f - (a - {k}) = insert k (submitted_jobs f - a)" using b(3) assms(2) by blast
  then have "int (card (submitted_jobs f - (a - {k}))) = int (card (submitted_jobs f - a)) + 1"
    using books_finite[OF assms(1)] assms(2) by simp
  then show ?thesis
    by (intro books_setI[OF b(1) refl refl refl refl]) (use b(7,8) in linarith | use b(2-6) in blast)+
qed

text \<open>A waiting job is started, or rejected.\<close>

lemma waiting_leaves:
  assumes "books_ok f c s r g e a" "k \<in> submitted_jobs f" "k \<notin> a"
  shows "int (card (submitted_jobs f - {k} - a)) = int (card (submitted_jobs f - a)) - 1"
    "a \<subseteq> submitted_jobs f - {k}" "k \<notin> g" "k \<notin> e"
proof -
  note b = booksD[OF assms(1)]
  have "submitted_jobs f - {k} - a = (submitted_jobs f - a) - {k}" by blast
  then show "int (card (submitted_jobs f - {k} - a)) = int (card (submitted_jobs f - a)) - 1"
    using card_take[of "submitted_jobs f - a" k] books_finite[OF assms(1)] assms(2,3) by simp
  show "a \<subseteq> submitted_jobs f - {k}" "k \<notin> g" "k \<notin> e"
    using b(2-6) assms(2,3) jobs_apart(5)[of f] by blast+
qed

lemma books_start:
  assumes "books_ok f c s r g e a" "f k = Some j" "sj_state j = JOB_STATE_SUBMITTED" "k \<notin> a"
    "sj_state j' = JOB_STATE_RUNNING" "key_of (sj_id j') = k"
  shows "books_ok (f(k \<mapsto> j')) c s (r + 1) g e a"
proof -
  note b = booksD[OF assms(1)]
  have k: "k \<in> submitted_jobs f" "k \<notin> running_jobs f" "k \<notin> complete_jobs f"
    using assms(2,3) by (simp_all add: jobs_in_iff)
  note w = waiting_leaves[OF assms(1) k(1) assms(4)]
  have new: "submitted_jobs (f(k \<mapsto> j')) = submitted_jobs f - {k}"
      "running_jobs (f(k \<mapsto> j')) = insert k (running_jobs f)" "complete_jobs (f(k \<mapsto> j')) = complete_jobs f"
      "fresh_jobs (f(k \<mapsto> j')) = fresh_jobs f"
    using assms(5) k jobs_apart(1)[of f] by auto
  have "int (card (insert k (running_jobs f))) = int (card (running_jobs f)) + 1"
    using books_finite[OF assms(1)] k by simp
  then show ?thesis
    by (intro books_setI[OF keyed_upd[OF b(1) assms(6)] new])
      (use b(7,8) w(1) in linarith | use b(2-6) w(2-4) in blast)+
qed

lemma books_reject:
  assumes "books_ok f c s r g e a" "f k = Some j" "sj_state j = JOB_STATE_SUBMITTED" "k \<notin> a"
    "sj_state j' = JOB_STATE_REJECTED" "key_of (sj_id j') = k"
  shows "books_ok (f(k \<mapsto> j')) (c + 1) s r (insert k g) e a"
proof -
  note b = booksD[OF assms(1)]
  have k: "k \<in> submitted_jobs f" "k \<notin> running_jobs f"
    using assms(2,3) by (simp_all add: jobs_in_iff)
  note w = waiting_leaves[OF assms(1) k(1) assms(4)]
  have new: "submitted_jobs (f(k \<mapsto> j')) = submitted_jobs f - {k}"
      "running_jobs (f(k \<mapsto> j')) = running_jobs f" "complete_jobs (f(k \<mapsto> j')) = insert k (complete_jobs f)"
      "fresh_jobs (f(k \<mapsto> j')) = fresh_jobs f"
    using assms(5) k jobs_apart(1)[of f] by auto
  show ?thesis
    by (intro books_setI[OF keyed_upd[OF b(1) assms(6)] new])
      (use b(7,8) w(1) in linarith | use b(2-6) w(2-4) k jobs_apart(1)[of f] in blast)+
qed

text \<open>A job ends by itself, and the server hears of it; or the scheduler ends it.\<close>

lemma books_end:
  assumes "books_ok f c s r g e a" "f k = Some j" "sj_state j = JOB_STATE_RUNNING"
    "is_complete (sj_state j')" "key_of (sj_id j') = k"
  shows "books_ok (f(k \<mapsto> j')) c s r g (insert k e) a"
proof -
  note b = booksD[OF assms(1)]
  have k: "k \<notin> submitted_jobs f" "k \<in> running_jobs f" "k \<notin> complete_jobs f"
    using assms(2,3) by (simp_all add: jobs_in_iff)
  have new: "submitted_jobs (f(k \<mapsto> j')) = submitted_jobs f"
      "running_jobs (f(k \<mapsto> j')) = running_jobs f - {k}" "complete_jobs (f(k \<mapsto> j')) = insert k (complete_jobs f)"
      "fresh_jobs (f(k \<mapsto> j')) = fresh_jobs f"
    using assms(4) k jobs_apart(2)[of f] by (auto simp: jobs_in_def)
  have "k \<notin> e" using b(2) k(3) by blast
  then have e: "int (card (insert k e)) = int (card e) + 1" using books_finite[OF assms(1)] by simp
  have r: "int (card (running_jobs f - {k})) = int (card (running_jobs f)) - 1"
    using card_take[OF books_finite(1)[OF assms(1)] k(2)] .
  show ?thesis
    by (intro books_setI[OF keyed_upd[OF b(1) assms(5)] new])
      (use b(7,8) e r in linarith | use b(2-6) k in blast)+
qed

lemma books_report:
  assumes "books_ok f c s r g e a" "k \<in> e"
  shows "books_ok f (c + 1) s (r - 1) (insert k g) (e - {k}) a"
proof -
  note b = booksD[OF assms(1)]
  have e: "int (card (e - {k})) = int (card e) - 1" using card_take[OF books_finite(2)[OF assms(1)] assms(2)] .
  have k: "k \<notin> submitted_jobs f" "k \<notin> running_jobs f" "k \<notin> fresh_jobs f"
    using b(2) assms(2) jobs_apart[of f] by blast+
  show ?thesis
    by (intro books_setI[OF b(1) refl refl refl refl]) (use b(7,8) e in linarith | use b(2-6) k in blast)+
qed

lemma books_end_report:
  assumes "books_ok f c s r g e a" "f k = Some j" "sj_state j = JOB_STATE_RUNNING"
    "is_complete (sj_state j')" "key_of (sj_id j') = k"
  shows "books_ok (f(k \<mapsto> j')) (c + 1) s (r - 1) (insert k g) e a"
proof -
  have "k \<notin> e" using booksD(2)[OF assms(1)] assms(2,3) by (auto simp: jobs_in_def)
  then show ?thesis using books_report[OF books_end[OF assms], of k] by simp
qed

text \<open>Jobs that are gone are deleted.\<close>

lemma books_delete:
  assumes "books_ok f c s r g e a" "k \<in> g"
  shows "books_ok (f(k := None)) c s r g e a"
proof -
  note b = booksD[OF assms(1)]
  have k: "k \<notin> submitted_jobs f" "k \<notin> running_jobs f" "k \<notin> fresh_jobs f" using b(4-6) assms(2) by blast+
  have new: "submitted_jobs (f(k := None)) = submitted_jobs f" "running_jobs (f(k := None)) = running_jobs f"
      "complete_jobs (f(k := None)) = complete_jobs f - {k}" "fresh_jobs (f(k := None)) = fresh_jobs f"
    using k by simp_all
  have e: "e = complete_jobs f - {k} - g" using b(2) assms(2) by auto
  show ?thesis
    by (intro books_setI[OF keyed_drop[OF b(1)] new e])
      (use b(7,8) in linarith | use b(3-6) in blast)+
qed

lemma books_forget:
  assumes "books_ok f c s r g e a" "g \<inter> dom f = {}"
  shows "books_ok f c s r {} e a"
proof -
  have "complete_jobs f - g = complete_jobs f" using assms(2) by (auto simp: jobs_in_def)
  then show ?thesis using assms(1) by (simp add: books_ok_def)
qed

end
