(* ===== verification/Sim_Accounts.thy ===== *)
theory Sim_Accounts
  imports Sim_Books
begin

text \<open>
  What each handler of the server, each actor and the reader of the scheduler's messages do to the
  accounts of the server: a lemma per operation, over the bookkeeping of \<^verbatim>\<open>Sim_Books\<close>.
\<close>

subsection \<open>The books of a server\<close>

definition gone_jobs :: "server \<Rightarrow> key set" where
  "gone_jobs st = key_of ` set (jobs_to_be_deleted st)"

definition met :: "workloads \<Rightarrow> key \<Rightarrow> bool" where
  "met ws k \<longleftrightarrow> (\<exists>w. ws (fst k) = Some w \<and> snd k \<in> sw_jobs_met w)"

text \<open>\<^verbatim>\<open>_jobs_met\<close> holds every job that is or was in the workload.\<close>

definition books :: "server \<Rightarrow> key set \<Rightarrow> key set \<Rightarrow> bool" where
  "books st ended announced \<longleftrightarrow>
     books_ok (jobs_map (ws_of st)) (nb_completed_jobs st) (nb_submitted_jobs st) (nb_running_jobs st)
       (gone_jobs st) ended announced \<and>
     (\<forall>k \<in> dom (jobs_map (ws_of st)) \<union> gone_jobs st. met (ws_of st) k)"

text \<open>The actors a state has created that work on jobs.\<close>

fun works_on_jobs :: "actor \<Rightarrow> bool" where
  "works_on_jobs (Execute_job al) = True"
| "works_on_jobs (Killer kms) = True"
| "works_on_jobs _ = False"

abbreviation crew :: "server \<Rightarrow> actor list" where
  "crew st \<equiv> filter works_on_jobs (spawned st)"

abbreviation queue_of :: "server \<Rightarrow> (time \<times> server_message) list" where
  "queue_of st \<equiv> server_mailbox (base st)"

text \<open>
  Operations that leave the accounts alone, create no actor that works on jobs and leave the
  scheduler's messages where they are.
\<close>

definition same_books :: "server \<Rightarrow> server \<Rightarrow> bool" where
  "same_books s t \<longleftrightarrow> ws_of t = ws_of s \<and> nb_completed_jobs t = nb_completed_jobs s \<and>
     nb_submitted_jobs t = nb_submitted_jobs s \<and> nb_running_jobs t = nb_running_jobs s \<and>
     jobs_to_be_deleted t = jobs_to_be_deleted s \<and> queue_of t = queue_of s \<and> crew t = crew s"

lemma same_books_refl [simp]: "same_books s s"
  by (simp add: same_books_def)

lemma same_books_trans: "same_books s t \<Longrightarrow> same_books t u \<Longrightarrow> same_books s u"
  by (simp add: same_books_def)

lemma books_frame: "same_books s t \<Longrightarrow> books t e a = books s e a"
  by (simp add: same_books_def books_def gone_jobs_def)

lemma on_proto_same: "on_proto f s = Some t \<Longrightarrow> same_books s t"
  by (auto simp: on_proto_def same_books_def split: bind_splits)

lemma on_platform_same: "on_platform f s = Some t \<Longrightarrow> same_books s t"
  by (auto simp: on_platform_def same_books_def split: bind_splits)

lemma spawn_same [simp]: "\<not> works_on_jobs x \<Longrightarrow> same_books s (spawn x s)"
  by (simp add: spawn_def same_books_def)

lemma books_spawn [simp]: "books (spawn x s) e a = books s e a"
  by (simp add: spawn_def books_def gone_jobs_def)

lemma fold_run_same:
  assumes "fold_run f xs s = Some t" "\<And>x u v. f x u = Some v \<Longrightarrow> same_books u v"
  shows "same_books s t"
  using fold_run_preserves[of f xs s t "same_books s"] assms same_books_trans same_books_refl by blast

subsection \<open>Writing through a job pointer\<close>

lemma set_job_map:
  assumes "set_job j ws = Some ws'"
  shows "jobs_map ws' = (jobs_map ws)(key_of (sj_id j) \<mapsto> j)" "met ws' = met ws"
proof -
  obtain w where w: "ws (workload_name (sj_id j)) = Some w"
    and ws': "ws' = ws(workload_name (sj_id j) \<mapsto>
        w\<lparr>sw_jobs := (sw_jobs w)(representation (sj_id j) \<mapsto> j)\<rparr>)"
    using assms by (auto simp: set_job_def split: bind_splits)
  show "jobs_map ws' = (jobs_map ws)(key_of (sj_id j) \<mapsto> j)"
    using w by (intro ext) (auto simp: jobs_map_def key_of_def ws' prod_eq_iff)
  show "met ws' = met ws" using w by (intro ext) (auto simp: met_def ws')
qed

text \<open>
  What \<open>write_job\<close> does to the accounts: the job changes in the map, the rest stays.  The counters
  and the list of jobs to delete are taken from the state before.
\<close>

lemma write_job_accounts:
  assumes "write_job j s = Some t"
  shows "jobs_map (ws_of t) = (jobs_map (ws_of s))(key_of (sj_id j) \<mapsto> j)" "met (ws_of t) = met (ws_of s)"
    "nb_completed_jobs t = nb_completed_jobs s" "nb_submitted_jobs t = nb_submitted_jobs s"
    "nb_running_jobs t = nb_running_jobs s" "jobs_to_be_deleted t = jobs_to_be_deleted s"
    "gone_jobs t = gone_jobs s"
  using assms set_job_map by (auto simp: write_job_def gone_jobs_def split: bind_splits)

lemma books_keyed:
  assumes "books s e a" "job_at ji (ws_of s) = Some j"
  shows "jobs_map (ws_of s) (key_of ji) = Some j" "key_of (sj_id j) = key_of ji"
    "met (ws_of s) (key_of ji)"
proof -
  show m: "jobs_map (ws_of s) (key_of ji) = Some j" using assms(2) by (simp add: job_at_map)
  show "key_of (sj_id j) = key_of ji"
    using booksD(1)[of "jobs_map (ws_of s)"] assms(1) m unfolding books_def keyed_def by blast
  show "met (ws_of s) (key_of ji)" using assms(1) m unfolding books_def by blast
qed

lemma books_ok_of: "books s e a \<Longrightarrow> books_ok (jobs_map (ws_of s)) (nb_completed_jobs s)
    (nb_submitted_jobs s) (nb_running_jobs s) (gone_jobs s) e a"
  by (simp add: books_def)

text \<open>A job that is written back keeps its key: the new books follow from the bookkeeping lemmas.\<close>

lemma books_written:
  assumes "books s e a" "job_at ji (ws_of s) = Some j"
    and "jobs_map (ws_of t) = (jobs_map (ws_of s))(key_of ji \<mapsto> j')" "met (ws_of t) = met (ws_of s)"
    and "gone_jobs t \<subseteq> insert (key_of ji) (gone_jobs s)"
    and "books_ok ((jobs_map (ws_of s))(key_of ji \<mapsto> j')) (nb_completed_jobs t) (nb_submitted_jobs t)
      (nb_running_jobs t) (gone_jobs t) e' a'"
  shows "books t e' a'"
proof -
  have "dom (jobs_map (ws_of t)) \<union> gone_jobs t \<subseteq> dom (jobs_map (ws_of s)) \<union> gone_jobs s"
    using assms(3,5) books_keyed(1)[OF assms(1,2)] by auto
  then show ?thesis using assms(1,3,4,6) unfolding books_def by auto
qed

subsection \<open>The handlers\<close>

lemma tell_job_submitted_same: "tell_job_submitted sx j s = Some t \<Longrightarrow> same_books s t"
  unfolding tell_job_submitted_def by (rule on_proto_same)

text \<open>Telling the end of a job adds it to the jobs to delete, nothing else.\<close>

lemma tell_job_completed_books:
  assumes "tell_job_completed sx j s = Some t"
  shows "same_books (to_delete (sj_id j) s) t"
proof -
  obtain s1 s2 where s1: "on_proto (append_job_completed (representation (sj_id j)) (job_state_to_string (sj_state j))
         (to_hyphen (sx_format sx) (sj_allocation j)) (sj_return_code j) (now_of s)) s = Some s1"
    and s2: "on_proto (append_batsim_metadata (job_name (sj_id j)) (sj_batsim_metadata j) (now_of s1)) s1
         = Some s2"
    and t: "t = s2\<lparr>jobs_to_be_deleted := jobs_to_be_deleted s2 @ [sj_id j]\<rparr>"
    using assms unfolding tell_job_completed_def by (auto split: bind_splits)
  show ?thesis using same_books_trans[OF on_proto_same[OF s1] on_proto_same[OF s2]]
    by (simp add: t same_books_def to_delete_def)
qed

lemma gone_to_delete [simp]: "gone_jobs (to_delete ji s) = insert (key_of ji) (gone_jobs s)"
  by (simp add: gone_jobs_def to_delete_def)

lemma to_delete_rest [simp]:
  "ws_of (to_delete ji s) = ws_of s" "nb_completed_jobs (to_delete ji s) = nb_completed_jobs s"
  "nb_submitted_jobs (to_delete ji s) = nb_submitted_jobs s" "nb_running_jobs (to_delete ji s) = nb_running_jobs s"
  "now_of (to_delete ji s) = now_of s"
  by (simp_all add: to_delete_def)

lemma registered_job_at: "registered_job ji s = Some j \<Longrightarrow> job_at ji (ws_of s) = Some j"
  by (auto simp: registered_job_def split: bind_splits)

lemma gone_counters [simp]:
  "gone_jobs (s\<lparr>nb_completed_jobs := n\<rparr>) = gone_jobs s" "gone_jobs (s\<lparr>nb_submitted_jobs := n\<rparr>) = gone_jobs s"
  "gone_jobs (s\<lparr>nb_running_jobs := n\<rparr>) = gone_jobs s" "gone_jobs (s\<lparr>nb_killed_jobs := n\<rparr>) = gone_jobs s"
  by (simp_all add: gone_jobs_def)

text \<open>
  A handler that writes one job back.  Its identifier stays; the books of the state it returns are
  those that a bookkeeping lemma gives for the changed job.
\<close>

lemma books_write:
  assumes "books s e a" "job_at ji (ws_of s) = Some j" "sj_id j' = sj_id j"
    and "write_job j' s0 = Some t0" "ws_of s0 = ws_of s" "ws_of t = ws_of t0"
    and "gone_jobs t \<subseteq> insert (key_of ji) (gone_jobs s)"
    and "books_ok ((jobs_map (ws_of s))(key_of ji \<mapsto> j')) (nb_completed_jobs t) (nb_submitted_jobs t)
      (nb_running_jobs t) (gone_jobs t) e' a'"
  shows "books t e' a'"
  by (rule books_written[OF assms(1,2) _ _ assms(7,8)])
    (simp_all add: write_job_accounts[OF assms(4)] assms(3,5,6) books_keyed(2)[OF assms(1,2)])

lemma write_job_same_state:
  assumes "books s e a" "job_at ji (ws_of s) = Some j" "write_job j' s = Some t"
    "sj_state j' = sj_state j" "sj_id j' = sj_id j"
  shows "books t e a"
proof -
  note k = books_keyed[OF assms(1,2)]
  have "books_ok ((jobs_map (ws_of s))(key_of ji \<mapsto> j')) (nb_completed_jobs s) (nb_submitted_jobs s)
      (nb_running_jobs s) (gone_jobs s) e a"
    by (rule books_same[OF books_ok_of[OF assms(1)] k(1) assms(4)]) (simp add: assms(5) k(2))
  then show ?thesis
    by (intro books_write[OF assms(1,2,5,3)]) (simp_all add: write_job_accounts[OF assms(3)] subset_insertI)
qed

lemma on_reject_books:
  assumes "books s e a" "server_on_reject_job ji s = Some t" "key_of ji \<notin> a"
  shows "books t e a"
proof -
  obtain j s1 where j: "job_at ji (ws_of s) = Some j" "sj_state j = JOB_STATE_SUBMITTED"
    and w: "write_job (j\<lparr>sj_state := JOB_STATE_REJECTED\<rparr>) s = Some s1"
    and t: "t = to_delete ji (s1\<lparr>nb_completed_jobs := nb_completed_jobs s1 + 1\<rparr>)"
    using assms(2) unfolding server_on_reject_job_def by (auto dest: registered_job_at split: bind_splits)
  note k = books_keyed[OF assms(1) j(1)]
  have "books_ok ((jobs_map (ws_of s))(key_of ji \<mapsto> j\<lparr>sj_state := JOB_STATE_REJECTED\<rparr>))
      (nb_completed_jobs s + 1) (nb_submitted_jobs s) (nb_running_jobs s) (insert (key_of ji) (gone_jobs s)) e a"
    by (rule books_reject[OF books_ok_of[OF assms(1)] k(1) j(2) assms(3)]) (simp_all add: k(2))
  then show ?thesis
    by (intro books_write[OF assms(1) j(1) _ w]) (simp_all add: write_job_accounts[OF w] t)
qed

lemma on_execute_books:
  assumes "books s e a" "server_on_execute_job al s = Some t" "key_of (sa_job al) \<notin> a"
  shows "books t e a"
proof -
  obtain j s1 where j: "job_at (sa_job al) (ws_of s) = Some j" "sj_state j = JOB_STATE_SUBMITTED"
    and w: "write_job (j\<lparr>sj_state := JOB_STATE_RUNNING\<rparr>) s = Some s1"
    and t: "t = spawn (Execute_job al) (s1\<lparr>nb_running_jobs := nb_running_jobs s1 + 1\<rparr>)"
    using assms(2) unfolding server_on_execute_job_def Let_def by (auto split: bind_splits)
  note k = books_keyed[OF assms(1) j(1)]
  have "books_ok ((jobs_map (ws_of s))(key_of (sa_job al) \<mapsto> j\<lparr>sj_state := JOB_STATE_RUNNING\<rparr>))
      (nb_completed_jobs s) (nb_submitted_jobs s) (nb_running_jobs s + 1) (gone_jobs s) e a"
    by (rule books_start[OF books_ok_of[OF assms(1)] k(1) j(2) assms(3)]) (simp_all add: k(2))
  then have "books (s1\<lparr>nb_running_jobs := nb_running_jobs s1 + 1\<rparr>) e a"
    by (intro books_write[OF assms(1) j(1) _ w]) (simp_all add: write_job_accounts[OF w] subset_insertI)
  then show ?thesis unfolding t by simp
qed

lemma on_register_books:
  assumes "books s e a" "server_on_register_job sx ji s = Some t" "key_of ji \<in> a"
  shows "books t e (a - {key_of ji})"
proof -
  have "books (s\<lparr>nb_submitted_jobs := nb_submitted_jobs s + 1\<rparr>) e (a - {key_of ji})"
    using assms(1) books_count[OF books_ok_of[OF assms(1)] assms(3)] by (simp add: books_def)
  moreover have "same_books (s\<lparr>nb_submitted_jobs := nb_submitted_jobs s + 1\<rparr>) t"
    using assms(2) unfolding server_on_register_job_def Let_def
    by (auto dest: tell_job_submitted_same split: bind_splits if_splits)
  ultimately show ?thesis by (simp add: books_frame)
qed

lemma submit_one_books:
  assumes "books s e a" "submit_one sx n cb ji s = Some t" "job_at ji (ws_of s) = Some j"
    "sj_state j = JOB_STATE_NOT_SUBMITTED"
  shows "books t e a" "jobs_map (ws_of t) = (jobs_map (ws_of s))(key_of ji \<mapsto> j\<lparr>sj_state := JOB_STATE_SUBMITTED\<rparr>)"
proof -
  obtain s0 s1 where w: "write_job (j\<lparr>sj_state := JOB_STATE_SUBMITTED\<rparr>) s0 = Some s1"
    and s0: "same_books s s0"
    and tell: "tell_job_submitted sx (j\<lparr>sj_state := JOB_STATE_SUBMITTED\<rparr>)
        (s1\<lparr>nb_submitted_jobs := nb_submitted_jobs s1 + 1\<rparr>) = Some t"
    using assms(2,3) unfolding submit_one_def Let_def
    by (auto simp: same_books_def split: bind_splits if_splits)
  note k = books_keyed[OF assms(1,3)]
  note acc = write_job_accounts[OF w]
  note t = tell_job_submitted_same[OF tell]
  have g: "gone_jobs s0 = gone_jobs s" using s0 by (simp add: same_books_def gone_jobs_def)
  have "books_ok ((jobs_map (ws_of s))(key_of ji \<mapsto> j\<lparr>sj_state := JOB_STATE_SUBMITTED\<rparr>))
      (nb_completed_jobs s) (nb_submitted_jobs s + 1) (nb_running_jobs s) (gone_jobs s) e a"
    by (rule books_submit[OF books_ok_of[OF assms(1)] k(1) assms(4)]) (simp_all add: k(2))
  then have "books (s1\<lparr>nb_submitted_jobs := nb_submitted_jobs s1 + 1\<rparr>) e a"
    using s0 g by (intro books_write[OF assms(1,3) _ w]) (simp_all add: acc same_books_def subset_insertI)
  then show "books t e a" by (simp add: books_frame[OF t])
  show "jobs_map (ws_of t) = (jobs_map (ws_of s))(key_of ji \<mapsto> j\<lparr>sj_state := JOB_STATE_SUBMITTED\<rparr>)"
    using t s0 acc(1) k(2) by (simp add: same_books_def)
qed

lemma submit_all_books:
  assumes "books s e a" "fold_run (submit_one sx n cb) jis s = Some t" "distinct (map key_of jis)"
    "\<forall>ji \<in> set jis. \<forall>j. job_at ji (ws_of s) = Some j \<longrightarrow> sj_state j = JOB_STATE_NOT_SUBMITTED"
  shows "books t e a"
  using assms
proof (induction jis arbitrary: s)
  case Nil
  then show ?case by simp
next
  case (Cons ji jis)
  obtain s1 where s1: "submit_one sx n cb ji s = Some s1" "fold_run (submit_one sx n cb) jis s1 = Some t"
    using Cons.prems(2) by (auto split: bind_splits)
  obtain j where j: "job_at ji (ws_of s) = Some j"
    using s1(1) unfolding submit_one_def by (auto split: bind_splits)
  note b = submit_one_books[OF Cons.prems(1) s1(1) j] 
  have st: "sj_state j = JOB_STATE_NOT_SUBMITTED" using Cons.prems(4) j by simp
  have "job_at ji' (ws_of s1) = job_at ji' (ws_of s)" if "ji' \<in> set jis" for ji'
  proof -
    have "key_of ji' \<noteq> key_of ji" using that Cons.prems(3) by (metis distinct.simps(2) image_eqI list.simps(9) set_map)
    then show ?thesis using b(2)[OF st] by (simp add: job_at_map)
  qed
  then show ?case using Cons.IH[OF b(1)[OF st] s1(2)] Cons.prems(3,4) by simp
qed

lemma on_job_submitted_books:
  assumes "books s e a" "server_on_job_submitted sx n jis s = Some t" "distinct (map key_of jis)"
    "\<forall>ji \<in> set jis. \<forall>j. job_at ji (ws_of s) = Some j \<longrightarrow> sj_state j = JOB_STATE_NOT_SUBMITTED"
  shows "books t e a"
  using assms submit_all_books[OF assms(1) _ assms(3,4)] unfolding server_on_job_submitted_def
  by (auto split: bind_splits if_splits)

text \<open>The end of a job is reported: it leaves the list of the ends not heard of yet.\<close>

lemma report_books:
  assumes "books s e a" "key_of ji \<in> e" "same_books (to_delete ji s0) t" "ws_of s0 = ws_of s"
    "jobs_to_be_deleted s0 = jobs_to_be_deleted s" "nb_submitted_jobs s0 = nb_submitted_jobs s"
    "nb_completed_jobs s0 = nb_completed_jobs s + 1" "nb_running_jobs s0 = nb_running_jobs s - 1"
  shows "books t (e - {key_of ji}) a"
proof -
  have g: "gone_jobs s0 = gone_jobs s" using assms(5) by (simp add: gone_jobs_def)
  have "e \<subseteq> dom (jobs_map (ws_of s))"
    using booksD(2)[OF books_ok_of[OF assms(1)]] by (auto simp: jobs_in_def)
  then have m: "met (ws_of s) (key_of ji)" using assms(1,2) unfolding books_def by blast
  have "books_ok (jobs_map (ws_of s)) (nb_completed_jobs s + 1) (nb_submitted_jobs s) (nb_running_jobs s - 1)
      (insert (key_of ji) (gone_jobs s)) (e - {key_of ji}) a"
    by (rule books_report[OF books_ok_of[OF assms(1)] assms(2)])
  then have "books (to_delete ji s0) (e - {key_of ji}) a"
    using assms(1,4-8) g m by (simp add: books_def)
  then show ?thesis by (simp add: books_frame[OF assms(3)])
qed

lemma on_job_completed_books:
  assumes "books s e a" "server_on_job_completed sx ji s = Some t" "key_of ji \<in> e"
  shows "books t (e - {key_of ji}) a"
proof -
  obtain j s1 s2 where j: "job_at ji (ws_of s) = Some j" and s1: "call_submitter_back ji s = Some s1"
    and s2: "s2 = s1\<lparr>nb_running_jobs := nb_running_jobs s1 - 1, nb_completed_jobs := nb_completed_jobs s1 + 1\<rparr>"
    and t: "tell_job_completed sx j s2 = Some t"
    using assms(2) unfolding server_on_job_completed_def Let_def by (auto split: bind_splits)
  have f: "same_books s s1"
    using s1 by (auto simp: call_submitter_back_def same_books_def split: option.splits bind_splits)
  note k = books_keyed(2)[OF assms(1) j]
  show ?thesis
    using report_books[OF assms(1), of "sj_id j" s2 t] assms(3) tell_job_completed_books[OF t] f s2 k
    by (simp add: same_books_def)
qed

lemma killing_done_one_books:
  assumes "books s e a" "killing_done_one sx km s = Some t"
    "\<forall>j. job_at (km_id km) (ws_of s) = Some j \<and> sj_state j = JOB_STATE_COMPLETED_KILLED \<longrightarrow> key_of (km_id km) \<in> e"
  shows "books t (e - (if \<exists>j. job_at (km_id km) (ws_of s) = Some j \<and> sj_state j = JOB_STATE_COMPLETED_KILLED
      then {key_of (km_id km)} else {})) a" "ws_of t = ws_of s"
proof -
  obtain j where j: "job_at (km_id km) (ws_of s) = Some j"
    using assms(2) unfolding killing_done_one_def by (auto split: bind_splits)
  note k = books_keyed(2)[OF assms(1) j]
  have "books t (e - (if sj_state j = JOB_STATE_COMPLETED_KILLED then {key_of (km_id km)} else {})) a
    \<and> ws_of t = ws_of s"
  proof (cases "sj_state j = JOB_STATE_COMPLETED_KILLED")
    case True
    let ?s = "s\<lparr>nb_running_jobs := nb_running_jobs s - 1, nb_completed_jobs := nb_completed_jobs s + 1,
        nb_killed_jobs := nb_killed_jobs s + 1\<rparr>"
    have t: "tell_job_completed sx j ?s = Some t"
      using assms(2) j True unfolding killing_done_one_def Let_def by (auto split: bind_splits)
    show ?thesis
      using report_books[OF assms(1), of "sj_id j" ?s t] tell_job_completed_books[OF t] assms(3) j True k
      by (simp add: same_books_def)
  next
    case False
    then show ?thesis using assms(1,2) j unfolding killing_done_one_def by (simp split: bind_splits)
  qed
  then show "books t (e - (if \<exists>j. job_at (km_id km) (ws_of s) = Some j \<and> sj_state j = JOB_STATE_COMPLETED_KILLED
      then {key_of (km_id km)} else {})) a" "ws_of t = ws_of s"
    using j by simp_all
qed

definition really_killed :: "workloads \<Rightarrow> kill_message list \<Rightarrow> kill_message list" where
  "really_killed ws kms = filter (\<lambda>km. case job_at (km_id km) ws of
     Some j \<Rightarrow> sj_state j = JOB_STATE_COMPLETED_KILLED | None \<Rightarrow> False) kms"

abbreviation keys_of :: "kill_message list \<Rightarrow> key list" where
  "keys_of kms \<equiv> map (\<lambda>km. key_of (km_id km)) kms"

lemma killing_all_books:
  assumes "books s e a" "fold_run (killing_done_one sx) kms s = Some t"
    "distinct (keys_of (really_killed (ws_of s) kms))" "set (keys_of (really_killed (ws_of s) kms)) \<subseteq> e"
  shows "books t (e - set (keys_of (really_killed (ws_of s) kms))) a"
  using assms
proof (induction kms arbitrary: s e)
  case Nil
  then show ?case by (simp add: really_killed_def)
next
  case (Cons km kms)
  obtain s1 where s1: "killing_done_one sx km s = Some s1" "fold_run (killing_done_one sx) kms s1 = Some t"
    using Cons.prems(2) by (auto split: bind_splits)
  let ?rest = "set (keys_of (really_killed (ws_of s) kms))"
  let ?d = "if \<exists>j. job_at (km_id km) (ws_of s) = Some j \<and> sj_state j = JOB_STATE_COMPLETED_KILLED
      then {key_of (km_id km)} else {}"
  have all: "set (keys_of (really_killed (ws_of s) (km # kms))) = ?d \<union> ?rest"
    by (auto simp: really_killed_def split: option.splits)
  have apart: "?d \<inter> ?rest = {}" and d: "distinct (keys_of (really_killed (ws_of s) kms))"
    using Cons.prems(3) by (auto simp: really_killed_def split: option.splits if_splits)
  have sub: "?d \<union> ?rest \<subseteq> e" using Cons.prems(4) all by simp
  have e: "\<forall>j. job_at (km_id km) (ws_of s) = Some j \<and> sj_state j = JOB_STATE_COMPLETED_KILLED \<longrightarrow> key_of (km_id km) \<in> e"
    using sub by auto
  note b = killing_done_one_books[OF Cons.prems(1) s1(1) e]
  have "books t (e - ?d - ?rest) a"
    using Cons.IH[OF b(1) s1(2)] d sub apart unfolding b(2) by blast
  then show ?case unfolding all by (simp only: Diff_eq Compl_Un Int_assoc)
qed

lemma on_killing_done_books:
  assumes "books s e a" "server_on_killing_done sx msgs ack s = Some t"
    "distinct (keys_of (really_killed (ws_of s) (map fst msgs)))"
    "set (keys_of (really_killed (ws_of s) (map fst msgs))) \<subseteq> e"
  shows "books t (e - set (keys_of (really_killed (ws_of s) (map fst msgs)))) a"
proof -
  obtain s1 where s1: "fold_run (killing_done_one sx) (map fst msgs) s = Some s1" and f: "same_books s1 t"
    using assms(2) unfolding server_on_killing_done_def
    by (auto simp: same_books_def dest!: on_proto_same split: bind_splits if_splits)
  show ?thesis using killing_all_books[OF assms(1) s1 assms(3,4)] by (simp add: books_frame[OF f])
qed

lemma assertion_then [simp]: "Option.bind (assertion b) f = Some t \<longleftrightarrow> b \<and> f () = Some t"
  by (cases b) simp_all

text \<open>The scheduler moves a job that it runs itself through its states.\<close>

lemma on_change_state_books:
  assumes "books s e a" "server_on_change_job_state ji st s = Some t" "key_of ji \<notin> a"
  shows "books t e a"
proof -
  obtain j n where j: "job_at ji (ws_of s) = Some j" and n: "job_state_from_string st = Some n"
    using assms(2) unfolding server_on_change_job_state_def by (auto dest: registered_job_at split: bind_splits)
  have reg: "registered_job ji s = Some j"
    using assms(2) j unfolding server_on_change_job_state_def
    by (auto dest: registered_job_at split: bind_splits)
  note k = books_keyed[OF assms(1) j]
  note ok = books_ok_of[OF assms(1)]
  consider
      (run) "sj_state j = JOB_STATE_SUBMITTED" "n = JOB_STATE_RUNNING"
        "write_job (j\<lparr>sj_starting_time := now_of s, sj_state := n\<rparr>) (s\<lparr>nb_running_jobs := nb_running_jobs s + 1\<rparr>) = Some t"
    | (reject) "sj_state j = JOB_STATE_SUBMITTED" "n = JOB_STATE_REJECTED"
        "write_job (j\<lparr>sj_state := n\<rparr>) (to_delete ji (s\<lparr>nb_completed_jobs := nb_completed_jobs s + 1\<rparr>)) = Some t"
    | (complete) "sj_state j = JOB_STATE_RUNNING" "is_complete n"
        "write_job (j\<lparr>sj_runtime := now_of s - sj_starting_time j, sj_state := n\<rparr>)
          (to_delete ji (s\<lparr>nb_running_jobs := nb_running_jobs s - 1, nb_completed_jobs := nb_completed_jobs s + 1\<rparr>)) = Some t"
    using assms(2) reg n unfolding server_on_change_job_state_def Let_def by (auto split: if_splits)
  then show ?thesis
  proof cases
    case run
    have "books_ok ((jobs_map (ws_of s))(key_of ji \<mapsto> j\<lparr>sj_starting_time := now_of s, sj_state := n\<rparr>))
        (nb_completed_jobs s) (nb_submitted_jobs s) (nb_running_jobs s + 1) (gone_jobs s) e a"
      by (rule books_start[OF ok k(1) run(1) assms(3)]) (simp_all add: k(2) run(2))
    then show ?thesis
      by (intro books_write[OF assms(1) j _ run(3)]) (simp_all add: write_job_accounts[OF run(3)] subset_insertI)
  next
    case reject
    have "books_ok ((jobs_map (ws_of s))(key_of ji \<mapsto> j\<lparr>sj_state := n\<rparr>))
        (nb_completed_jobs s + 1) (nb_submitted_jobs s) (nb_running_jobs s) (insert (key_of ji) (gone_jobs s)) e a"
      by (rule books_reject[OF ok k(1) reject(1) assms(3)]) (simp_all add: k(2) reject(2))
    then show ?thesis
      by (intro books_write[OF assms(1) j _ reject(3)]) (simp_all add: write_job_accounts[OF reject(3)])
  next
    case complete
    have "books_ok ((jobs_map (ws_of s))(key_of ji \<mapsto> j\<lparr>sj_runtime := now_of s - sj_starting_time j, sj_state := n\<rparr>))
        (nb_completed_jobs s + 1) (nb_submitted_jobs s) (nb_running_jobs s - 1) (insert (key_of ji) (gone_jobs s)) e a"
      by (rule books_end_report[OF ok k(1) complete(1)]) (simp_all add: k(2) complete(2))
    then show ?thesis
      by (intro books_write[OF assms(1) j _ complete(3)]) (simp_all add: write_job_accounts[OF complete(3)])
  qed
qed

lemma jobs_to_kill_books:
  "books s e a \<Longrightarrow> jobs_to_kill kms s = Some (r, t) \<Longrightarrow> books t e a"
proof (induction kms arbitrary: s r)
  case (Cons km kms)
  obtain j where j: "registered_job (km_id km) s = Some j"
    using Cons.prems(2) by (auto split: bind_splits)
  show ?case
  proof (cases "sj_kill_requested j")
    case True
    then show ?thesis using Cons j by simp
  next
    case False
    then obtain s1 r1 where s1: "write_job (j\<lparr>sj_kill_requested := True\<rparr>) s = Some s1"
      and r1: "jobs_to_kill kms s1 = Some (r1, t)"
      using Cons.prems(2) j by (auto split: bind_splits)
    show ?thesis
      by (rule Cons.IH[OF write_job_same_state[OF Cons.prems(1) registered_job_at[OF j] s1] r1]) simp_all
  qed
qed simp

subsection \<open>The handlers that leave the accounts alone\<close>

lemma on_event_same: "server_on_event sx ev s = Some t \<Longrightarrow> same_books s t"
  by (cases ev) (auto simp: server_on_event_machine_available_def server_on_event_machine_unavailable_def
      dest: on_platform_same on_proto_same same_books_trans split: if_splits bind_splits)

lemma same_books_fields [simp]:
  "same_books s (t\<lparr>nb_switching_machines := n\<rparr>) = same_books s t" "same_books s (t\<lparr>nb_waiters := n\<rparr>) = same_books s t"
  "same_books s (t\<lparr>nb_killers := n\<rparr>) = same_books s t" "same_books (t\<lparr>platform := pf\<rparr>) s = same_books t s"
  "\<not> works_on_jobs ac \<Longrightarrow> same_books s (spawn ac t) = same_books s t" "same_books s (t\<lparr>outbox := ms\<rparr>) = same_books s t"
  "same_books s (t\<lparr>sim_call_me_laters := ls\<rparr>) = same_books s t"
  "same_books s (t\<lparr>submitters := sbs, submitter_counters := cs\<rparr>) = same_books s t"
  "same_books (t\<lparr>submitters := sbs, submitter_counters := cs\<rparr>) s = same_books t s"
  "same_books s (t\<lparr>nb_workflow_submitters_finished := n\<rparr>) = same_books s t"
  "same_books s (t\<lparr>sched_ready := r\<rparr>) = same_books s t"
  "same_books s (t\<lparr>end_of_simulation_ack_received := r\<rparr>) = same_books s t"
  "same_books s (t\<lparr>end_of_simulation_sent := r\<rparr>) = same_books s t"
  "same_books s (t\<lparr>proto_writer := pw\<rparr>) = same_books s t"
  by (simp_all add: same_books_def spawn_def)

lemma announce_switch_same:
  assumes "announce_switch sx i p s = Some t"
  shows "same_books s t"
proof -
  obtain r sws where m: "mark_switch_as_done i p (current_switches s) = Some (r, sws)"
    using assms unfolding announce_switch_def by (auto split: bind_splits)
  have s: "same_books s (s\<lparr>current_switches := sws\<rparr>)" by (simp add: same_books_def)
  show ?thesis
  proof (cases r)
    case None
    then show ?thesis using assms m s by (simp add: announce_switch_def)
  next
    case (Some U)
    then have "same_books (s\<lparr>current_switches := sws\<rparr>) t"
      using assms m by (auto simp: announce_switch_def dest!: on_proto_same)
    then show ?thesis by (rule same_books_trans[OF s])
  qed
qed

lemma switch_one_same: "switch_one sx p i s = Some t \<Longrightarrow> same_books s t"
  unfolding switch_one_def
  by (auto dest: announce_switch_same on_platform_same split: bind_splits pstate_type.splits)

lemma on_pstate_same:
  assumes "server_on_pstate_modification sx U p s = Some t"
  shows "same_books s t"
proof -
  let ?s = "s\<lparr>current_switches := add_switch U p (current_switches s), nb_grouped_switches := nb_grouped_switches s + 1,
      nb_machine_switches := nb_machine_switches s + int (card U)\<rparr>"
  have "fold_run (switch_one sx p) (sorted_list_of_set U) ?s = Some t"
    using assms unfolding server_on_pstate_modification_def by (auto split: bind_splits)
  then have "same_books ?s t" by (rule fold_run_same) (rule switch_one_same)
  then show ?thesis by (simp add: same_books_def)
qed

lemma on_submitter_same:
  "server_on_submitter_hello n cb ty s = Some t \<Longrightarrow> same_books s t"
  "server_on_submitter_bye n ty flow s = Some t \<Longrightarrow> same_books s t"
  unfolding server_on_submitter_hello_def server_on_submitter_bye_def Let_def
  by (auto dest!: on_proto_same split: bind_splits submitter_type.splits if_splits)

lemma on_requests_same:
  "server_on_waiting_done n what s = Some t \<Longrightarrow> same_books s t"
  "server_on_sched_tell_me_energy sx s = Some t \<Longrightarrow> same_books s t"
  "server_on_from_job_msg ji m s = Some t \<Longrightarrow> same_books s t"
  "server_on_switched sx i p s = Some t \<Longrightarrow> same_books s t"
  "server_on_call_me_later d n what s = Some t \<Longrightarrow> same_books s t"
  "server_on_event_occurred sx es s = Some t \<Longrightarrow> same_books s t"
  unfolding server_on_waiting_done_def server_on_sched_tell_me_energy_def server_on_from_job_msg_def
    server_on_switched_def server_on_call_me_later_def server_on_event_occurred_def
  by (auto dest: on_proto_same announce_switch_same fold_run_same on_event_same split: bind_splits)

lemma on_ready_same:
  "same_books s (server_on_sched_ready s)" "same_books s (server_on_sched_wait_answer n r d x s)"
  "same_books s (server_on_end_dynamic_register s)" "same_books s (server_on_continue_dynamic_register s)"
  by (simp_all add: server_on_sched_ready_def server_on_sched_wait_answer_def server_on_end_dynamic_register_def
      server_on_continue_dynamic_register_def same_books_def Let_def)

lemma on_job_data_books:
  assumes "books s e a"
  shows "server_on_set_job_metadata ji m s = Some t \<Longrightarrow> books t e a"
    "server_on_to_job_msg ji m s = Some t \<Longrightarrow> books t e a"
    "server_on_kill_jobs kms s = Some t \<Longrightarrow> books t e a"
proof -
  show "server_on_set_job_metadata ji m s = Some t \<Longrightarrow> books t e a"
    unfolding server_on_set_job_metadata_def
    by (auto dest!: registered_job_at intro: write_job_same_state[OF assms] split: bind_splits)
  show "server_on_to_job_msg ji m s = Some t \<Longrightarrow> books t e a"
    unfolding server_on_to_job_msg_def
    by (auto dest!: registered_job_at intro: write_job_same_state[OF assms] split: bind_splits)
  show "books t e a" if h: "server_on_kill_jobs kms s = Some t"
  proof -
    obtain r s1 where s1: "jobs_to_kill kms s = Some (r, s1)" and f: "books t e a = books s1 e a"
      using h unfolding server_on_kill_jobs_def
      by (auto simp: books_def gone_jobs_def spawn_def split: bind_splits if_splits)
    show ?thesis using jobs_to_kill_books[OF assms s1] by (simp add: f)
  qed
qed

text \<open>A job that no submitter has submitted yet.\<close>

definition not_submitted_yet :: "server \<Rightarrow> job_identifier \<Rightarrow> bool" where
  "not_submitted_yet st ji \<longleftrightarrow>
     (case job_at ji (ws_of st) of Some j \<Rightarrow> sj_state j = JOB_STATE_NOT_SUBMITTED | None \<Rightarrow> True)"

lemma books_keep: "same_books s t \<Longrightarrow> books s e a \<Longrightarrow> books t e a"
  by (simp add: books_frame)

subsection \<open>What the server sends, and the jobs it deletes\<close>

lemma delete_job_met:
  assumes "jobs_delete_job gc ji w = Some w'"
  shows "sw_jobs w' = (sw_jobs w)(representation ji := None)" "sw_jobs_met w' = sw_jobs_met w"
  using assms unfolding jobs_delete_job_def Let_def by (auto split: bind_splits if_splits)

text \<open>Deleting jobs removes their entries and nothing else.\<close>

definition prunes :: "key set \<Rightarrow> workloads \<Rightarrow> workloads \<Rightarrow> bool" where
  "prunes K ws ws' \<longleftrightarrow> met ws' = met ws \<and> jobs_map ws' = jobs_map ws |` (- K)"

lemma delete_jobs_prunes: "delete_jobs gc jis ws = Some ws' \<Longrightarrow> prunes (key_of ` set jis) ws ws'"
proof (induction jis arbitrary: ws)
  case Nil
  then have "ws = ws'" by (simp add: delete_jobs_def)
  moreover have "jobs_map ws |` UNIV = jobs_map ws" by (simp add: restrict_map_def)
  ultimately show ?case by (simp add: prunes_def)
next
  case (Cons ji jis)
  obtain w w' where w: "ws (workload_name ji) = Some w" "jobs_delete_job gc ji w = Some w'"
    and rest: "delete_jobs gc jis (ws(workload_name ji \<mapsto> w')) = Some ws'"
    using Cons.prems unfolding delete_jobs_def by (auto split: bind_splits)
  let ?ws = "ws(workload_name ji \<mapsto> w')"
  note d = delete_job_met[OF w(2)]
  have m: "jobs_map ?ws = (jobs_map ws)(key_of ji := None)"
    using w(1) by (intro ext) (auto simp: jobs_map_def key_of_def d prod_eq_iff)
  have met: "met ?ws = met ws" using w(1) by (intro ext) (auto simp: met_def d)
  show ?case using Cons.IH[OF rest] unfolding prunes_def m met by (auto simp: restrict_map_def fun_eq_iff)
qed

lemma books_prune:
  assumes "finite K" "K \<subseteq> g" "books_ok f c s r g e a"
  shows "books_ok (f |` (- K)) c s r g e a"
  using assms
proof (induction K rule: finite_induct)
  case (insert k K)
  have "f |` (- insert k K) = (f |` (- K))(k := None)" by (auto simp: restrict_map_def fun_eq_iff)
  then show ?case using books_delete[of "f |` (- K)" c s r g e a k] insert by simp
qed (simp add: restrict_map_def)

lemma generate_same: "generate_and_send_message s = Some t \<Longrightarrow> same_books s t"
  unfolding generate_and_send_message_def by (auto split: bind_splits)

text \<open>Its four outcomes: nothing, the end of the simulation, a message, a message and deleted jobs.\<close>

lemma send_cases:
  assumes "send_if_needed me s = Some t"
  obtains (idle) "t = s"
    | (ends) s1 s2 where "is_simulation_finished s" "\<not> end_of_simulation_sent s"
        "\<not> end_of_simulation_ack_received s" "on_proto (append_simulation_ends (now_of s)) s = Some s1"
        "generate_and_send_message s1 = Some s2" "t = s2\<lparr>end_of_simulation_sent := True\<rparr>"
    | (sent) "generate_and_send_message s = Some t"
    | (deleted) s1 ws where "generate_and_send_message s = Some s1"
        "delete_jobs (garbage_collect_profiles s1) (jobs_to_be_deleted s1) (ws_of s1) = Some ws"
        "t = s1\<lparr>base := (base s1)\<lparr>ctx_workloads := ws\<rparr>, jobs_to_be_deleted := []\<rparr>"
proof (cases "sched_ready s \<and> \<not> end_of_simulation_ack_received s \<and> me")
  case False
  then have "t = s" using assms unfolding send_if_needed_def if_not_P[OF False] by simp
  then show thesis by (rule idle)
next
  case on: True
  note run = assms[unfolded send_if_needed_def if_P[OF on]]
  show thesis
  proof (cases "sw_is_empty (proto_writer s)")
    case True
    show thesis
    proof (cases "is_simulation_finished s \<and> \<not> end_of_simulation_sent s")
      case fin: True
      then obtain s1 s2 where "on_proto (append_simulation_ends (now_of s)) s = Some s1"
          "generate_and_send_message s1 = Some s2" "t = s2\<lparr>end_of_simulation_sent := True\<rparr>"
        using run True by (auto split: bind_splits)
      then show thesis using ends fin on by blast
    next
      case fin: False
      then have "t = s" using run True by auto
      then show thesis by (rule idle)
    qed
  next
    case False
    then obtain s1 where s1: "generate_and_send_message s = Some s1"
      using run by (auto split: bind_splits)
    show thesis
    proof (cases "jobs_to_be_deleted s1 = []")
      case True
      then have "t = s1" using run False s1 by simp
      then show thesis using sent s1 by simp
    next
      case some: False
      then obtain ws where "delete_jobs (garbage_collect_profiles s1) (jobs_to_be_deleted s1) (ws_of s1) = Some ws"
          "t = s1\<lparr>base := (base s1)\<lparr>ctx_workloads := ws\<rparr>, jobs_to_be_deleted := []\<rparr>"
        using run False s1 by (auto split: bind_splits)
      then show thesis by (rule deleted[OF s1])
    qed
  qed
qed

lemma send_books:
  assumes "books s e a" "send_if_needed me s = Some t"
  shows "books t e a"
  using assms(2)
proof (cases rule: send_cases)
  case (ends s1 s2)
  have "same_books s s2" by (rule same_books_trans[OF on_proto_same[OF ends(4)] generate_same[OF ends(5)]])
  then show ?thesis using books_keep[OF _ assms(1)] ends(6) by simp
next
  case sent
  then show ?thesis by (rule books_keep[OF generate_same assms(1)])
next
  case (deleted s1 ws)
  have b: "books s1 e a" by (rule books_keep[OF generate_same[OF deleted(1)] assms(1)])
  note p = delete_jobs_prunes[OF deleted(2), folded gone_jobs_def]
  have jm: "jobs_map ws = jobs_map (ws_of s1) |` (- gone_jobs s1)" and met: "met ws = met (ws_of s1)"
    using p by (simp_all add: prunes_def)
  have "books_ok (jobs_map ws) (nb_completed_jobs s1) (nb_submitted_jobs s1) (nb_running_jobs s1) {} e a"
    unfolding jm by (rule books_forget[OF books_prune[OF _ _ books_ok_of[OF b]]]) (auto simp: gone_jobs_def)
  moreover have "\<forall>k \<in> dom (jobs_map ws). met ws k"
    using b unfolding books_def jm met by simp
  ultimately show ?thesis by (simp add: deleted(3) books_def gone_jobs_def)
qed (use assms(1) in simp)

subsection \<open>The actors\<close>

lemma job_begins_books:
  assumes "books s e a" "job_begins al s = Some t"
  shows "books t e a"
proof -
  obtain j s1 where j: "job_at (sa_job al) (ws_of s) = Some j"
    and w: "write_job (j\<lparr>sj_starting_time := now_of s, sj_allocation := sa_machine_ids al\<rparr>) s = Some s1"
    and f: "same_books s1 t"
    using assms(2) unfolding job_begins_def by (auto dest: on_platform_same split: bind_splits)
  have "books s1 e a" by (rule write_job_same_state[OF assms(1) j w]) simp_all
  then show ?thesis by (rule books_keep[OF f])
qed

definition runs :: "job_identifier \<Rightarrow> server \<Rightarrow> bool" where
  "runs ji st \<longleftrightarrow> (case job_at ji (ws_of st) of Some j \<Rightarrow> sj_state j = JOB_STATE_RUNNING | None \<Rightarrow> False)"

lemma end_job_books:
  assumes "books s e a" "job_at ji (ws_of s) = Some j" "sj_state j = JOB_STATE_RUNNING"
    "is_complete (sj_state j')" "sj_id j' = sj_id j" "same_books s s0" "write_job j' s0 = Some t"
  shows "books t (insert (key_of ji) e) a"
proof -
  note k = books_keyed[OF assms(1,2)]
  have g: "gone_jobs s0 = gone_jobs s" using assms(6) by (simp add: same_books_def gone_jobs_def)
  have "books_ok ((jobs_map (ws_of s))(key_of ji \<mapsto> j')) (nb_completed_jobs s) (nb_submitted_jobs s)
      (nb_running_jobs s) (gone_jobs s) (insert (key_of ji) e) a"
    by (rule books_end[OF books_ok_of[OF assms(1)] k(1) assms(3,4)]) (simp add: assms(5) k(2))
  then show ?thesis
    using assms(6) g
    by (intro books_write[OF assms(1,2,5,7)]) (simp_all add: write_job_accounts[OF assms(7)] same_books_def subset_insertI)
qed

lemma return_code_complete: "state_of_return_code rc = Some n \<Longrightarrow> is_complete n"
  by (auto simp: state_of_return_code_def split: if_splits)

lemma job_finishes_books:
  assumes "books s e a" "job_finishes al rc s = Some (ms, t)" "runs (sa_job al) s"
  shows "books t (insert (key_of (sa_job al)) e) a"
proof -
  obtain j n s1 where j: "job_at (sa_job al) (ws_of s) = Some j" and n: "state_of_return_code rc = Some n"
    and f: "same_books s s1"
    and w: "write_job (j\<lparr>sj_return_code := rc, sj_state := n, sj_runtime := run_time (now_of s) j\<rparr>) s1 = Some t"
    using assms(2) unfolding job_finishes_def by (auto simp: same_books_def dest!: on_platform_same split: bind_splits)
  show ?thesis
    by (rule end_job_books[OF assms(1) j _ _ _ f w])
      (use assms(3) j return_code_complete[OF n] in \<open>simp_all add: runs_def\<close>)
qed

text \<open>A killer that cancels a task leaves the job running; otherwise the job ends here.\<close>

definition killed_by :: "kill_message \<Rightarrow> server \<Rightarrow> server \<Rightarrow> key set" where
  "killed_by km s t = (if runs (km_id km) s \<and> \<not> runs (km_id km) t then {key_of (km_id km)} else {})"

lemma kill_one_books:
  assumes "books s e a" "kill_one tasks km s = Some (r, t)"
  shows "books t (e \<union> killed_by km s t) a"
proof (cases "runs (km_id km) s")
  case False
  then have "t = s" using assms(2) by (auto simp: kill_one_def runs_def split: bind_splits if_splits)
  then show ?thesis using assms(1) by (simp add: killed_by_def)
next
  case True
  then obtain j where j: "job_at (km_id km) (ws_of s) = Some j" "sj_state j = JOB_STATE_RUNNING"
    by (auto simp: runs_def split: option.splits)
  obtain tk pr cancelled where tk: "tasks (km_id km) = Some tk" "compute_tasks_progress (now_of s) tk = Some pr"
      "cancel_ptask tk = Some cancelled"
    using assms(2) j by (auto simp: kill_one_def split: bind_splits)
  show ?thesis
  proof (cases cancelled)
    case True
    then show ?thesis using assms j tk by (simp add: kill_one_def killed_by_def)
  next
    case False
    then obtain s1 where f: "same_books s s1"
      and w: "write_job (j\<lparr>sj_state := JOB_STATE_COMPLETED_KILLED, sj_runtime := run_time (now_of s) j\<rparr>) s1 = Some t"
      using assms(2) j tk by (auto simp: kill_one_def dest: on_platform_same split: bind_splits)
    have "books t (insert (key_of (km_id km)) e) a"
      by (rule end_job_books[OF assms(1) j _ _ f w]) simp_all
    moreover have "\<not> runs (km_id km) t"
      using books_keyed(2)[OF assms(1) j(1)] write_job_accounts(1)[OF w] by (simp add: runs_def job_at_map)
    ultimately show ?thesis using True by (simp add: killed_by_def)
  qed
qed

subsection \<open>The reader of the scheduler's messages\<close>

text \<open>The jobs whose registration is among the scheduler's messages.\<close>

fun registered_keys :: "server_message \<Rightarrow> key list" where
  "registered_keys (JOB_REGISTERED_BY_DP ji d) = [key_of ji]"
| "registered_keys _ = []"

definition announced_in :: "batsim_context \<Rightarrow> key list" where
  "announced_in c = concat (map (\<lambda>m. registered_keys (snd m)) (server_mailbox c))"

text \<open>An event registers one new job and announces it, or leaves the jobs as they are.\<close>

definition grows :: "batsim_context \<Rightarrow> batsim_context \<Rightarrow> bool" where
  "grows c c' \<longleftrightarrow> (let ws = ctx_workloads c; ws' = ctx_workloads c' in
     (\<forall>k. met ws k \<longrightarrow> met ws' k) \<and>
     (jobs_map ws' = jobs_map ws \<and> announced_in c' = announced_in c \<or>
      (\<exists>j. jobs_map ws' = (jobs_map ws)(key_of (sj_id j) \<mapsto> j) \<and> sj_state j = JOB_STATE_SUBMITTED \<and>
        \<not> met ws (key_of (sj_id j)) \<and> met ws' (key_of (sj_id j)) \<and>
        announced_in c' = announced_in c @ [key_of (sj_id j)])))"

lemma grows_cases:
  assumes "grows c c'"
  obtains (same) "jobs_map (ctx_workloads c') = jobs_map (ctx_workloads c)" "announced_in c' = announced_in c"
      "\<forall>k. met (ctx_workloads c) k \<longrightarrow> met (ctx_workloads c') k"
    | (new) j where "jobs_map (ctx_workloads c') = (jobs_map (ctx_workloads c))(key_of (sj_id j) \<mapsto> j)"
        "sj_state j = JOB_STATE_SUBMITTED" "\<not> met (ctx_workloads c) (key_of (sj_id j))"
        "met (ctx_workloads c') (key_of (sj_id j))" "announced_in c' = announced_in c @ [key_of (sj_id j)]"
        "\<forall>k. met (ctx_workloads c) k \<longrightarrow> met (ctx_workloads c') k"
  using assms unfolding grows_def Let_def by blast

abbreviation announced :: "server \<Rightarrow> key list" where
  "announced st \<equiv> announced_in (base st)"

lemma grows_books:
  assumes "books s e (set (announced s))" "distinct (announced s)" "grows (base s) c"
  shows "books (s\<lparr>base := c\<rparr>) e (set (announced_in c))" "distinct (announced_in c)"
proof -
  have "books (s\<lparr>base := c\<rparr>) e (set (announced_in c)) \<and> distinct (announced_in c)"
    using assms(3)
  proof (cases rule: grows_cases)
    case same
    then show ?thesis using assms(1,2) by (simp add: books_def gone_jobs_def del: split_paired_All)
  next
    case (new j)
    have k: "key_of (sj_id j) \<notin> dom (jobs_map (ws_of s)) \<union> gone_jobs s"
      using assms(1) new(3) unfolding books_def by blast
    have b: "books_ok ((jobs_map (ws_of s))(key_of (sj_id j) \<mapsto> j)) (nb_completed_jobs s) (nb_submitted_jobs s)
        (nb_running_jobs s) (gone_jobs s) e (insert (key_of (sj_id j)) (set (announced s)))"
      by (rule books_announce[OF books_ok_of[OF assms(1)] _ new(2) refl]) (use k in auto)
    have "set (announced s) \<subseteq> dom (jobs_map (ws_of s))"
      using booksD(3)[OF books_ok_of[OF assms(1)]] by (auto simp: jobs_in_def)
    then have "distinct (announced_in c)" using k assms(2) new(5) by auto
    moreover have "\<forall>k \<in> dom (jobs_map (ctx_workloads c)) \<union> gone_jobs s. met (ctx_workloads c) k"
      using assms(1) new(4,6) unfolding books_def new(1) by (simp del: split_paired_All)
    ultimately show ?thesis using new(1,5) b by (simp add: books_def gone_jobs_def)
  qed
  then show "books (s\<lparr>base := c\<rparr>) e (set (announced_in c))" "distinct (announced_in c)" by simp_all
qed

lemma ctx_send [simp]:
  "ctx_workloads (send_message_at_time d m c) = ctx_workloads c"
  "announced_in (send_message_at_time d m c) = announced_in c @ registered_keys m"
  by (simp_all add: send_message_at_time_def announced_in_def Let_def)

lemma announced_fields [simp]:
  "announced_in (c\<lparr>ctx_workloads := ws\<rparr>) = announced_in c" "announced_in (c\<lparr>clock := d\<rparr>) = announced_in c"
  "announced_in (c\<lparr>queue_size := n\<rparr>) = announced_in c" "announced_in (c\<lparr>schedule_size := n\<rparr>) = announced_in c"
  "announced_in (c\<lparr>ctx_nb_running_jobs := n\<rparr>) = announced_in c" "announced_in (c\<lparr>utilization := x\<rparr>) = announced_in c"
  "announced_in (c\<lparr>utilization_no_resv := x\<rparr>) = announced_in c" "announced_in (c\<lparr>batsched_PID := n\<rparr>) = announced_in c"
  "announced_in (c\<lparr>nb_checkpoints := n\<rparr>) = announced_in c"
  by (simp_all add: announced_in_def)

text \<open>A workload in which only profiles change, or a new one without jobs.\<close>

lemma profiles_grow:
  assumes "case ctx_workloads c n of None \<Rightarrow> sw_jobs w = Map.empty
      | Some w0 \<Rightarrow> sw_jobs w = sw_jobs w0 \<and> sw_jobs_met w0 \<subseteq> sw_jobs_met w"
    and "ctx_workloads c' = (ctx_workloads c)(n \<mapsto> w)" "announced_in c' = announced_in c"
  shows "grows c c'"
proof -
  have "jobs_map ((ctx_workloads c)(n \<mapsto> w)) = jobs_map (ctx_workloads c)"
    using assms(1) by (intro ext) (auto simp: jobs_map_def split: option.splits)
  moreover have "met ((ctx_workloads c)(n \<mapsto> w)) k" if "met (ctx_workloads c) k" for k
    using assms(1) that by (auto simp: met_def split: option.splits)
  ultimately show ?thesis using assms(2,3) by (simp add: grows_def)
qed

lemma register_job_grows:
  assumes "handle_register_job ld ts d c = Some c'"
  shows "grows c c'"
proof -
  obtain ji :: job_identifier and w j u w1 t where w: "ctx_workloads c (workload_name ji) = Some w"
    and u: "assertion (workload_name (sj_id j) = workload_name ji) = Some u"
    and w1: "jobs_add_job (j\<lparr>sj_state := JOB_STATE_SUBMITTED\<rparr>) w = Some w1"
    and sent: "Some (send_message_at_time ts (JOB_REGISTERED_BY_DP (sj_id j) t)
        (c\<lparr>ctx_workloads := (ctx_workloads c)(workload_name ji \<mapsto> w1)\<rparr>)) = Some c'"
    using assms unfolding handle_register_job_def by (elim run_bindE) (erule that, assumption+)
  have j: "workload_name (sj_id j) = workload_name ji" using u by simp
  have c': "ctx_workloads c' = (ctx_workloads c)(workload_name ji \<mapsto> w1)"
    and an: "announced_in c' = announced_in c @ [key_of (sj_id j)]" using sent by auto
  let ?j = "j\<lparr>sj_state := JOB_STATE_SUBMITTED\<rparr>"
  have fresh: "representation (sj_id j) \<notin> sw_jobs_met w" and new: "w1 = w\<lparr>sw_jobs := (sw_jobs w)(representation (sj_id j) \<mapsto> ?j),
      sw_jobs_met := insert (representation (sj_id j)) (sw_jobs_met w)\<rparr>"
    using w1 by (auto simp: jobs_add_job_def jobs_exists_def)
  have m: "jobs_map (ctx_workloads c') = (jobs_map (ctx_workloads c))(key_of (sj_id ?j) \<mapsto> ?j)"
    using w j by (intro ext) (auto simp: jobs_map_def key_of_def c' new prod_eq_iff)
  have "met (ctx_workloads c') k" if "met (ctx_workloads c) k" for k
    using that w by (auto simp: met_def c' new)
  moreover have "\<not> met (ctx_workloads c) (key_of (sj_id ?j))" "met (ctx_workloads c') (key_of (sj_id ?j))"
    using w j fresh by (simp_all add: met_def key_of_def c' new)
  ultimately show ?thesis unfolding grows_def Let_def using m an by (intro conjI disjI2 exI[of _ ?j]) auto
qed

lemma register_profile_grows:
  assumes "handle_register_profile ld ts d c = Some c'"
  shows "grows c c'"
proof -
  obtain wn pn w pr w1 where w: "ctx_workloads c wn = Some w" and w1: "profiles_add pn pr w = Some w1"
    and c': "ctx_workloads c' = (ctx_workloads c)(wn \<mapsto> w1)" "announced_in c' = announced_in c"
    using assms unfolding handle_register_profile_def Let_def by (auto split: bind_splits if_splits)
  have p: "sw_jobs w1 = sw_jobs w" "sw_jobs_met w1 = sw_jobs_met w" using w1 by (auto simp: profiles_add_def)
  show ?thesis by (rule profiles_grow[OF _ c']) (use w p in simp)
qed

lemma execute_job_grows:
  assumes "handle_execute_job ld fmt ts d c = Some c'"
  shows "grows c c'"
proof -
  have io: "sw_jobs w1 = sw_jobs w \<and> sw_jobs_met w1 = sw_jobs_met w"
    if "read_io_job ld fmt ji x w = Some (w1, pr, V)" for ji :: job_identifier and x w w1 pr V
    using that unfolding read_io_job_def by (auto simp: profiles_add_def split: bind_splits if_splits)
  obtain given and ji :: job_identifier and q al where q: "(if given then do {
         io \<leftarrow> member_at ''additional_io_job'' d;
         w \<leftarrow> ctx_workloads c (workload_name ji);
         (w1, pr, V) \<leftarrow> read_io_job ld fmt ji io w;
         Some (c\<lparr>ctx_workloads := (ctx_workloads c)(workload_name ji \<mapsto> w1)\<rparr>, Some pr, V) }
       else Some (c, None, {})) = Some q"
    and sent: "(case q of (c1, p, V) \<Rightarrow> Some (send_message_at_time ts (SCHED_EXECUTE_JOB (al p V)) c1)) = Some c'"
    using assms unfolding handle_execute_job_def by (elim run_bindE) (erule that)
  have c': "ctx_workloads c' = ctx_workloads (fst q)" "announced_in c' = announced_in (fst q)"
    using sent by (auto split: prod.splits)
  show ?thesis
  proof (cases given)
    case False
    then show ?thesis using q c' by (auto simp: grows_def)
  next
    case True
    then obtain x w w1 pr V where w: "ctx_workloads c (workload_name ji) = Some w"
      and r: "read_io_job ld fmt ji x w = Some (w1, pr, V)"
      and ws: "ctx_workloads c' = (ctx_workloads c)(workload_name ji \<mapsto> w1)" "announced_in c' = announced_in c"
      using q c' by (auto split: bind_splits)
    show ?thesis by (rule profiles_grow[OF _ ws]) (use w io[OF r] in simp)
  qed
qed

text \<open>Most events only send a message to the server.\<close>

definition keeps_ws :: "batsim_context \<Rightarrow> batsim_context run \<Rightarrow> bool" where
  "keeps_ws c r \<longleftrightarrow> (\<forall>c'. r = Some c' \<longrightarrow>
     ctx_workloads c' = ctx_workloads c \<and> announced_in c' = announced_in c)"

lemma keeps_intros:
  "ctx_workloads c' = ctx_workloads c \<and> announced_in c' = announced_in c \<Longrightarrow> keeps_ws c (Some c')" "keeps_ws c None"
  "(\<And>v. r = Some v \<Longrightarrow> keeps_ws c (f v)) \<Longrightarrow> keeps_ws c (Option.bind r f)"
  "(b \<Longrightarrow> keeps_ws c x) \<Longrightarrow> (\<not> b \<Longrightarrow> keeps_ws c y) \<Longrightarrow> keeps_ws c (if b then x else y)"
  by (auto simp: keeps_ws_def split: bind_splits)

lemma keeps_fold:
  assumes "\<And>x u. keeps_ws u (f x u)"
  shows "keeps_ws c (fold_run f xs c)"
  unfolding keeps_ws_def
  using fold_run_preserves[of f xs c _ "\<lambda>d. ctx_workloads d = ctx_workloads c \<and> announced_in d = announced_in c"]
    assms unfolding keeps_ws_def by force

lemma handlers_keep_ws:
  "keeps_ws c (handle_query ts d c)" "keeps_ws c (handle_answer ts d c)" "keeps_ws c (handle_reject_job ts d c)"
  "keeps_ws c (handle_change_job_state ts d c)" "keeps_ws c (handle_call_me_later ts d c)"
  "keeps_ws c (handle_kill_job ts d c)" "keeps_ws c (handle_set_resource_state fmt ts d c)"
  "keeps_ws c (handle_set_job_metadata ts d c)" "keeps_ws c (handle_notify ts d c)" "keeps_ws c (handle_to_job_msg ts d c)"
  unfolding handle_query_def handle_answer_def handle_reject_job_def handle_change_job_state_def
    handle_call_me_later_def handle_kill_job_def handle_set_resource_state_def handle_set_job_metadata_def
    handle_notify_def notify_checkpoint_def notify_recover_from_checkpoint_def handle_to_job_msg_def Let_def split_def
  by (intro keeps_intros keeps_fold; simp (no_asm))+

lemma map_of_range: "map_of xs k = Some v \<Longrightarrow> v \<in> snd ` set xs"
  using map_of_SomeD[of xs k v] by force

lemma event_grows:
  assumes "parse_and_apply_event ld fmt now ev c = Some c'"
  shows "grows c c'"
proof -
  obtain ty ts h d where h: "handler ld fmt ty = Some h" and r: "h ts d c = Some c'"
    using assms unfolding parse_and_apply_event_def by (elim run_bindE) (erule that)
  have k: ?thesis if "keeps_ws c (h ts d c)" using r that by (simp add: keeps_ws_def grows_def)
  have "h \<in> {handle_query, handle_answer, handle_reject_job, handle_execute_job ld fmt, handle_change_job_state,
      handle_call_me_later, handle_kill_job, handle_register_job ld, handle_register_profile ld,
      handle_set_resource_state fmt, handle_set_job_metadata, handle_notify, handle_to_job_msg}"
    using map_of_range[OF h[unfolded handler_def]] by (simp only: list.set image_insert image_empty snd_conv)
  then show ?thesis
  proof (elim insertE emptyE)
  qed ((rule k, (simp only: handlers_keep_ws; fail)
        | rule execute_job_grows[of ld fmt ts d], erule subst, rule r
        | rule register_job_grows[of ld ts d], erule subst, rule r
        | rule register_profile_grows[of ld ts d], erule subst, rule r)+)
qed

end
