(* ===== verification/Sim_Moves.thy ===== *)
theory Sim_Moves
  imports Sim_Accounts
begin

text \<open>
  How the steps of the simulator move jobs from state to state, ask for their deaths and create the
  actors that work on them: for each handler of the server and for each actor, the pairs of states
  between which it may move which jobs.
\<close>

subsection \<open>Moves\<close>

abbreviation job_map :: "server \<Rightarrow> key \<Rightarrow> sim_job option" where
  "job_map st \<equiv> jobs_map (ws_of st)"

text \<open>
  No job appears, disappears or loses the request to kill it, and a job that changes its state does
  it along \<open>P\<close>.
\<close>

definition moves :: "(key \<times> job_state \<times> job_state) set \<Rightarrow> server \<Rightarrow> server \<Rightarrow> bool" where
  "moves P s t \<longleftrightarrow> met (ws_of t) = met (ws_of s) \<and> dom (job_map t) = dom (job_map s) \<and>
     (\<forall>k j j'. job_map s k = Some j \<longrightarrow> job_map t k = Some j' \<longrightarrow>
        (sj_kill_requested j \<longrightarrow> sj_kill_requested j') \<and>
        (sj_state j' = sj_state j \<or> (k, sj_state j, sj_state j') \<in> P))"

lemma moves_same: "ws_of t = ws_of s \<Longrightarrow> moves P s t"
  by (simp add: moves_def del: split_paired_All)

lemma moves_mono: "moves P s t \<Longrightarrow> P \<subseteq> Q \<Longrightarrow> moves Q s t"
  unfolding moves_def by blast

lemma moves_trans:
  assumes "moves P s t" "moves P t u" "\<And>k a b c. (k, a, b) \<in> P \<Longrightarrow> (k, b, c) \<in> P \<Longrightarrow> (k, a, c) \<in> P"
  shows "moves P s u"
proof -
  have "(sj_kill_requested j \<longrightarrow> sj_kill_requested j'') \<and>
      (sj_state j'' = sj_state j \<or> (k, sj_state j, sj_state j'') \<in> P)"
    if j: "job_map s k = Some j" and j'': "job_map u k = Some j''" for k j j''
  proof -
    have "k \<in> dom (job_map t)" using assms(1) j unfolding moves_def by blast
    then obtain j' where j': "job_map t k = Some j'" by blast
    have "sj_kill_requested j \<longrightarrow> sj_kill_requested j'" "sj_state j' = sj_state j \<or> (k, sj_state j, sj_state j') \<in> P"
        "sj_kill_requested j' \<longrightarrow> sj_kill_requested j''" "sj_state j'' = sj_state j' \<or> (k, sj_state j', sj_state j'') \<in> P"
      using assms(1,2) j j' j'' unfolding moves_def by blast+
    then show ?thesis using assms(3)[of k "sj_state j" "sj_state j'" "sj_state j''"] by auto
  qed
  then show ?thesis using assms(1,2) by (simp add: moves_def del: split_paired_All)
qed

text \<open>A handler that writes one job back moves that job.\<close>

lemma moves_write:
  assumes "books s e a" "job_at ji (ws_of s) = Some j" "write_job j' s0 = Some t0"
    and "ws_of s0 = ws_of s" "ws_of t = ws_of t0" "sj_id j' = sj_id j"
    and "sj_kill_requested j \<longrightarrow> sj_kill_requested j'"
    and "sj_state j' = sj_state j \<or> (key_of ji, sj_state j, sj_state j') \<in> P"
  shows "moves P s t"
proof -
  note k = books_keyed[OF assms(1,2)]
  have m: "job_map t = (job_map s)(key_of ji \<mapsto> j')" "met (ws_of t) = met (ws_of s)"
    using write_job_accounts[OF assms(3)] by (simp_all add: assms(4-6) k(2))
  show ?thesis using k(1) assms(7,8) by (auto simp: moves_def m simp del: split_paired_All)
qed

text \<open>An operation that creates the actors \<open>h\<close> and leaves the scheduler's messages alone.\<close>

definition hires :: "actor list \<Rightarrow> server \<Rightarrow> server \<Rightarrow> bool" where
  "hires h s t \<longleftrightarrow> queue_of t = queue_of s \<and> crew t = crew s @ h"

lemma same_books_moves: "same_books s t \<Longrightarrow> moves P s t \<and> hires [] s t"
  by (simp add: same_books_def moves_same hires_def)

lemma write_job_crew: "write_job j s = Some t \<Longrightarrow> hires [] s t"
  by (auto simp: write_job_def hires_def split: bind_splits)

subsection \<open>The handlers\<close>

lemma on_reject_moves:
  assumes "books s e a" "server_on_reject_job ji s = Some t"
  shows "moves {(key_of ji, JOB_STATE_SUBMITTED, JOB_STATE_REJECTED)} s t \<and> hires [] s t"
proof -
  obtain j s1 where j: "job_at ji (ws_of s) = Some j" "sj_state j = JOB_STATE_SUBMITTED"
    and w: "write_job (j\<lparr>sj_state := JOB_STATE_REJECTED\<rparr>) s = Some s1"
    and t: "t = to_delete ji (s1\<lparr>nb_completed_jobs := nb_completed_jobs s1 + 1\<rparr>)"
    using assms(2) unfolding server_on_reject_job_def by (auto dest: registered_job_at split: bind_splits)
  have "moves {(key_of ji, JOB_STATE_SUBMITTED, JOB_STATE_REJECTED)} s t"
    by (rule moves_write[OF assms(1) j(1) w]) (simp_all add: t j(2))
  then show ?thesis using write_job_crew[OF w] by (simp add: hires_def t to_delete_def)
qed

lemma on_execute_moves:
  assumes "books s e a" "server_on_execute_job al s = Some t"
  shows "moves {(key_of (sa_job al), JOB_STATE_SUBMITTED, JOB_STATE_RUNNING)} s t \<and> hires [Execute_job al] s t"
    "key_of (sa_job al) \<in> submitted_jobs (job_map s) \<inter> running_jobs (job_map t)"
proof -
  obtain j s1 where j: "job_at (sa_job al) (ws_of s) = Some j" "sj_state j = JOB_STATE_SUBMITTED"
    and w: "write_job (j\<lparr>sj_state := JOB_STATE_RUNNING\<rparr>) s = Some s1"
    and t: "t = spawn (Execute_job al) (s1\<lparr>nb_running_jobs := nb_running_jobs s1 + 1\<rparr>)"
    using assms(2) unfolding server_on_execute_job_def Let_def by (auto split: bind_splits)
  have "moves {(key_of (sa_job al), JOB_STATE_SUBMITTED, JOB_STATE_RUNNING)} s t"
    by (rule moves_write[OF assms(1) j(1) w]) (simp_all add: t j(2) spawn_def)
  then show "moves {(key_of (sa_job al), JOB_STATE_SUBMITTED, JOB_STATE_RUNNING)} s t \<and> hires [Execute_job al] s t"
    using write_job_crew[OF w] by (simp add: hires_def t spawn_def)
  note k = books_keyed[OF assms(1) j(1)]
  have "job_map t = (job_map s)(key_of (sa_job al) \<mapsto> j\<lparr>sj_state := JOB_STATE_RUNNING\<rparr>)"
    using write_job_accounts(1)[OF w] k(2) by (simp add: t spawn_def)
  then show "key_of (sa_job al) \<in> submitted_jobs (job_map s) \<inter> running_jobs (job_map t)"
    using k(1) j(2) by (simp add: jobs_in_iff)
qed

lemma on_register_moves:
  assumes "server_on_register_job sx ji s = Some t"
  shows "moves P s t \<and> hires [] s t"
proof -
  have "same_books (s\<lparr>nb_submitted_jobs := nb_submitted_jobs s + 1\<rparr>) t"
    using assms unfolding server_on_register_job_def Let_def
    by (auto dest: tell_job_submitted_same split: bind_splits if_splits)
  then show ?thesis by (simp add: same_books_def moves_same hires_def)
qed

lemma submit_one_moves:
  assumes "books s e a" "submit_one sx n cb ji s = Some t" "not_submitted_yet s ji"
  shows "moves {(key_of ji, JOB_STATE_NOT_SUBMITTED, JOB_STATE_SUBMITTED)} s t \<and> hires [] s t" "books t e a"
    "key_of ji' \<noteq> key_of ji \<Longrightarrow> not_submitted_yet t ji' = not_submitted_yet s ji'"
proof -
  obtain j where j: "job_at ji (ws_of s) = Some j"
    using assms(2) unfolding submit_one_def by (auto split: bind_splits)
  obtain s0 s1 where w: "write_job (j\<lparr>sj_state := JOB_STATE_SUBMITTED\<rparr>) s0 = Some s1"
    and s0: "same_books s s0"
    and tell: "tell_job_submitted sx (j\<lparr>sj_state := JOB_STATE_SUBMITTED\<rparr>)
        (s1\<lparr>nb_submitted_jobs := nb_submitted_jobs s1 + 1\<rparr>) = Some t"
    using assms(2) j unfolding submit_one_def Let_def
    by (auto simp: same_books_def split: bind_splits if_splits)
  have st: "sj_state j = JOB_STATE_NOT_SUBMITTED" using assms(3) j by (simp add: not_submitted_yet_def)
  note f = tell_job_submitted_same[OF tell]
  have "moves {(key_of ji, JOB_STATE_NOT_SUBMITTED, JOB_STATE_SUBMITTED)} s t"
    by (rule moves_write[OF assms(1) j w]) (use s0 f st in \<open>simp_all add: same_books_def\<close>)
  then show "moves {(key_of ji, JOB_STATE_NOT_SUBMITTED, JOB_STATE_SUBMITTED)} s t \<and> hires [] s t"
    using write_job_crew[OF w] s0 f by (simp add: hires_def same_books_def)
  note b = submit_one_books[OF assms(1,2) j st]
  show "books t e a" by (rule b(1))
  show "key_of ji' \<noteq> key_of ji \<Longrightarrow> not_submitted_yet t ji' = not_submitted_yet s ji'"
    using b(2) by (simp add: not_submitted_yet_def job_at_map)
qed

lemma submit_all_moves:
  assumes "books s e a" "fold_run (submit_one sx n cb) jis s = Some t" "distinct (map key_of jis)"
    "list_all (not_submitted_yet s) jis" "key_of ` set jis \<subseteq> K"
  shows "moves (K \<times> {(JOB_STATE_NOT_SUBMITTED, JOB_STATE_SUBMITTED)}) s t \<and> hires [] s t"
  using assms
proof (induction jis arbitrary: s)
  case Nil
  then show ?case by (simp add: moves_same hires_def)
next
  case (Cons ji jis)
  let ?P = "K \<times> {(JOB_STATE_NOT_SUBMITTED, JOB_STATE_SUBMITTED)}"
  obtain s1 where s1: "submit_one sx n cb ji s = Some s1" "fold_run (submit_one sx n cb) jis s1 = Some t"
    using Cons.prems(2) by (auto split: bind_splits)
  have ns: "not_submitted_yet s ji" using Cons.prems(4) by simp
  note m = submit_one_moves[OF Cons.prems(1) s1(1) ns]
  have "list_all (not_submitted_yet s1) jis"
  proof (clarsimp simp: list_all_iff)
    fix ji' assume ji': "ji' \<in> set jis"
    then have "key_of ji' \<noteq> key_of ji" using Cons.prems(3) by (metis distinct.simps(2) image_eqI list.simps(9) set_map)
    then show "not_submitted_yet s1 ji'" using m(3) Cons.prems(4) ji' by (simp add: list_all_iff)
  qed
  then have r: "moves ?P s1 t \<and> hires [] s1 t"
    using Cons.IH[OF m(2) s1(2)] Cons.prems(3,5) by simp
  have "moves ?P s s1" by (rule moves_mono[OF conjunct1[OF m(1)]]) (use Cons.prems(5) in auto)
  then have "moves ?P s t" by (rule moves_trans) (use r in auto)
  then show ?case using r m(1) by (simp add: hires_def)
qed


text \<open>The end of a job moves nothing: the job was complete before the server heard of it.\<close>

lemma tell_job_completed_moves: "tell_job_completed sx j s = Some t \<Longrightarrow> ws_of t = ws_of s \<and> hires [] s t"
  using tell_job_completed_books by (fastforce simp: same_books_def to_delete_def hires_def)

lemma on_job_completed_moves:
  assumes "server_on_job_completed sx ji s = Some t"
  shows "ws_of t = ws_of s \<and> hires [] s t"
proof -
  obtain j s1 s2 where s1: "call_submitter_back ji s = Some s1"
    and s2: "s2 = s1\<lparr>nb_running_jobs := nb_running_jobs s1 - 1, nb_completed_jobs := nb_completed_jobs s1 + 1\<rparr>"
    and t: "tell_job_completed sx j s2 = Some t"
    using assms unfolding server_on_job_completed_def Let_def by (auto split: bind_splits)
  have "same_books s s1"
    using s1 by (auto simp: call_submitter_back_def same_books_def split: option.splits bind_splits)
  then show ?thesis using tell_job_completed_moves[OF t] by (simp add: same_books_def hires_def s2)
qed

lemma killing_done_one_moves:
  assumes "killing_done_one sx km s = Some t"
  shows "ws_of t = ws_of s \<and> hires [] s t"
  using assms unfolding killing_done_one_def Let_def
  by (auto simp: hires_def dest!: tell_job_completed_moves split: bind_splits if_splits)

lemma on_killing_done_moves:
  assumes "server_on_killing_done sx msgs ack s = Some t"
  shows "ws_of t = ws_of s \<and> hires [] s t"
proof -
  obtain s1 where s1: "fold_run (killing_done_one sx) (map fst msgs) s = Some s1" and f: "same_books s1 t"
    using assms unfolding server_on_killing_done_def
    by (auto simp: same_books_def dest!: on_proto_same split: bind_splits if_splits)
  have "ws_of s1 = ws_of s \<and> hires [] s s1"
    by (rule fold_run_preserves[OF s1]) (use killing_done_one_moves in \<open>fastforce simp: hires_def\<close>)+
  then show ?thesis using f by (simp add: same_books_def hires_def)
qed

text \<open>The states the scheduler may move a job through.\<close>

definition state_moves :: "key \<Rightarrow> job_state \<Rightarrow> (key \<times> job_state \<times> job_state) set" where
  "state_moves k n = {(k, JOB_STATE_SUBMITTED, JOB_STATE_RUNNING), (k, JOB_STATE_SUBMITTED, JOB_STATE_REJECTED),
     (k, JOB_STATE_RUNNING, n)}"

lemma on_change_state_moves:
  assumes "books s e a" "server_on_change_job_state ji st s = Some t"
  shows "\<exists>n. job_state_from_string st = Some n \<and> moves (state_moves (key_of ji) n) s t \<and> hires [] s t"
proof -
  obtain j n where reg: "registered_job ji s = Some j" and n: "job_state_from_string st = Some n"
    using assms(2) unfolding server_on_change_job_state_def by (auto split: bind_splits)
  note j = registered_job_at[OF reg]
  consider
      (run) "sj_state j = JOB_STATE_SUBMITTED" "n = JOB_STATE_RUNNING"
        "write_job (j\<lparr>sj_starting_time := now_of s, sj_state := n\<rparr>) (s\<lparr>nb_running_jobs := nb_running_jobs s + 1\<rparr>) = Some t"
    | (reject) "sj_state j = JOB_STATE_SUBMITTED" "n = JOB_STATE_REJECTED"
        "write_job (j\<lparr>sj_state := n\<rparr>) (to_delete ji (s\<lparr>nb_completed_jobs := nb_completed_jobs s + 1\<rparr>)) = Some t"
    | (complete) "sj_state j = JOB_STATE_RUNNING"
        "write_job (j\<lparr>sj_runtime := now_of s - sj_starting_time j, sj_state := n\<rparr>)
          (to_delete ji (s\<lparr>nb_running_jobs := nb_running_jobs s - 1, nb_completed_jobs := nb_completed_jobs s + 1\<rparr>)) = Some t"
    using assms(2) reg n unfolding server_on_change_job_state_def Let_def by (auto split: if_splits)
  then have "moves (state_moves (key_of ji) n) s t \<and> hires [] s t"
  proof cases
    case run
    have "moves (state_moves (key_of ji) n) s t"
      by (rule moves_write[OF assms(1) j run(3)]) (simp_all add: state_moves_def run)
    then show ?thesis using write_job_crew[OF run(3)] by (simp add: hires_def)
  next
    case reject
    have "moves (state_moves (key_of ji) n) s t"
      by (rule moves_write[OF assms(1) j reject(3)]) (simp_all add: state_moves_def reject)
    then show ?thesis using write_job_crew[OF reject(3)] by (simp add: hires_def to_delete_def)
  next
    case complete
    have "moves (state_moves (key_of ji) n) s t"
      by (rule moves_write[OF assms(1) j complete(2)]) (simp_all add: state_moves_def complete(1))
    then show ?thesis using write_job_crew[OF complete(2)] by (simp add: hires_def to_delete_def)
  qed
  then show ?thesis using n by blast
qed

lemma on_job_data_moves:
  assumes "books s e a"
  shows "server_on_set_job_metadata ji m s = Some t \<Longrightarrow> moves {} s t \<and> hires [] s t"
    "server_on_to_job_msg ji m s = Some t \<Longrightarrow> moves {} s t \<and> hires [] s t"
proof -
  have one: "moves {} s t \<and> hires [] s t" if "registered_job ji s = Some j" "write_job j' s = Some t"
      "sj_id j' = sj_id j" "sj_state j' = sj_state j" "sj_kill_requested j' = sj_kill_requested j" for j j'
    using moves_write[OF assms registered_job_at[OF that(1)] that(2) refl refl that(3), of "{}"] that(4,5)
      write_job_crew[OF that(2)] by simp
  show "server_on_set_job_metadata ji m s = Some t \<Longrightarrow> moves {} s t \<and> hires [] s t"
    unfolding server_on_set_job_metadata_def by (elim run_bindE) (rule one, assumption+, simp_all)
  show "server_on_to_job_msg ji m s = Some t \<Longrightarrow> moves {} s t \<and> hires [] s t"
    unfolding server_on_to_job_msg_def by (elim run_bindE) (rule one, assumption+, simp_all)
qed

subsection \<open>Kill requests\<close>

definition requested_jobs :: "server \<Rightarrow> key set" where
  "requested_jobs st = {k. \<exists>j. job_map st k = Some j \<and> sj_kill_requested j}"

lemma moves_requested: "moves P s t \<Longrightarrow> requested_jobs s \<subseteq> requested_jobs t"
  unfolding moves_def requested_jobs_def by blast

text \<open>The kills that are not dropped: of jobs there, once each, and of none asked for before.\<close>

lemma jobs_to_kill_moves:
  assumes "books s e a" "jobs_to_kill kms s = Some (r, t)"
  shows "moves {} s t \<and> hires [] s t \<and> distinct (keys_of r) \<and>
    set (keys_of r) \<subseteq> dom (job_map s) - requested_jobs s \<and> set (keys_of r) \<subseteq> requested_jobs t"
  using assms
proof (induction kms arbitrary: s r)
  case Nil
  then show ?case by (simp add: moves_same hires_def)
next
  case (Cons km kms)
  obtain j where reg: "registered_job (km_id km) s = Some j"
    using Cons.prems(2) by (auto split: bind_splits)
  note j = registered_job_at[OF reg]
  show ?case
  proof (cases "sj_kill_requested j")
    case True
    then show ?thesis using Cons.IH[OF Cons.prems(1)] Cons.prems(2) reg by simp
  next
    case False
    then obtain s1 r1 where s1: "write_job (j\<lparr>sj_kill_requested := True\<rparr>) s = Some s1"
      and r1: "jobs_to_kill kms s1 = Some (r1, t)" and r: "r = km # r1"
      using Cons.prems(2) reg by (auto split: bind_splits)
    note k = books_keyed[OF Cons.prems(1) j]
    have b: "books s1 e a" by (rule write_job_same_state[OF Cons.prems(1) j s1]) simp_all
    have m: "moves {} s s1" by (rule moves_write[OF Cons.prems(1) j s1]) simp_all
    have jm: "job_map s1 = (job_map s)(key_of (km_id km) \<mapsto> j\<lparr>sj_kill_requested := True\<rparr>)"
      using write_job_accounts(1)[OF s1] k(2) by simp
    note ih = Cons.IH[OF b r1]
    have new: "key_of (km_id km) \<in> dom (job_map s) - requested_jobs s" "key_of (km_id km) \<in> requested_jobs s1"
      using k(1) False by (auto simp: requested_jobs_def jm)
    have "requested_jobs s \<subseteq> requested_jobs s1" "requested_jobs s1 \<subseteq> requested_jobs t"
        "dom (job_map s1) = dom (job_map s)"
      using moves_requested m ih unfolding moves_def by blast+
    moreover have "moves {} s t" by (rule moves_trans[OF m]) (use ih in auto)
    ultimately show ?thesis using ih new write_job_crew[OF s1] unfolding r hires_def by auto
  qed
qed

lemma on_kill_jobs_moves:
  assumes "books s e a" "server_on_kill_jobs kms s = Some t"
  obtains r where "moves {} s t" "hires (if r = [] then [] else [Killer r]) s t" "distinct (keys_of r)"
    "set (keys_of r) \<subseteq> dom (job_map s) - requested_jobs s" "set (keys_of r) \<subseteq> requested_jobs t"
proof -
  obtain r s1 where r: "jobs_to_kill kms s = Some (r, s1)"
    and t: "t = (if r \<noteq> [] then (spawn (Killer r) s1)\<lparr>nb_killers := nb_killers s1 + 1\<rparr> else s1)"
    using assms(2) unfolding server_on_kill_jobs_def by (auto split: bind_splits)
  have "ws_of t = ws_of s1" "hires (if r = [] then [] else [Killer r]) s1 t"
    by (simp_all add: t spawn_def hires_def)
  then show thesis
    using jobs_to_kill_moves[OF assms(1) r] that[of r] by (simp add: hires_def moves_def requested_jobs_def)
qed


subsection \<open>The actors\<close>

lemma job_begins_moves:
  assumes "books s e a" "job_begins al s = Some t"
  shows "moves {} s t \<and> hires [] s t"
proof -
  obtain j s1 where j: "job_at (sa_job al) (ws_of s) = Some j"
    and w: "write_job (j\<lparr>sj_starting_time := now_of s, sj_allocation := sa_machine_ids al\<rparr>) s = Some s1"
    and f: "same_books s1 t"
    using assms(2) unfolding job_begins_def by (auto dest: on_platform_same split: bind_splits)
  have "moves {} s t" by (rule moves_write[OF assms(1) j w]) (use f in \<open>simp_all add: same_books_def\<close>)
  then show ?thesis using write_job_crew[OF w] f by (simp add: hires_def same_books_def)
qed

lemma job_finishes_moves:
  assumes "books s e a" "job_finishes al rc s = Some (ms, t)" "key_of (sa_job al) \<in> running_jobs (job_map s)"
  obtains n ji where "is_complete n" "moves {(key_of (sa_job al), JOB_STATE_RUNNING, n)} s t" "hires [] s t"
    "key_of (sa_job al) \<in> jobs_in (\<lambda>x. x = n) (job_map t)"
    "ms = (if n = JOB_STATE_COMPLETED_KILLED then [] else [Job_completed ji])" "key_of ji = key_of (sa_job al)"
proof -
  obtain j n s1 where j: "job_at (sa_job al) (ws_of s) = Some j" and n: "state_of_return_code rc = Some n"
    and f: "same_books s s1"
    and w: "write_job (j\<lparr>sj_return_code := rc, sj_state := n, sj_runtime := run_time (now_of s) j\<rparr>) s1 = Some t"
    and ms: "ms = (if n = JOB_STATE_COMPLETED_KILLED then [] else [Job_completed (sj_id j)])"
    using assms(2) unfolding job_finishes_def by (auto simp: same_books_def dest!: on_platform_same split: bind_splits)
  note k = books_keyed[OF assms(1) j]
  have st: "sj_state j = JOB_STATE_RUNNING" using assms(3) k(1) by (simp add: jobs_in_iff)
  have "job_map t = (job_map s)(key_of (sa_job al) \<mapsto> j\<lparr>sj_return_code := rc, sj_state := n, sj_runtime := run_time (now_of s) j\<rparr>)"
    using write_job_accounts(1)[OF w] f k(2) by (simp add: same_books_def)
  then have "key_of (sa_job al) \<in> jobs_in (\<lambda>x. x = n) (job_map t)" by simp
  moreover have "moves {(key_of (sa_job al), JOB_STATE_RUNNING, n)} s t"
    by (rule moves_write[OF assms(1) j w]) (use f st in \<open>simp_all add: same_books_def\<close>)
  moreover have "hires [] s t" using write_job_crew[OF w] f by (simp add: hires_def same_books_def)
  ultimately show thesis using that return_code_complete[OF n] ms k(2) by blast
qed

text \<open>A killer leaves the job alone, or ends it.\<close>

lemma kill_one_moves:
  assumes "books s e a" "kill_one tasks km s = Some (r, t)"
  obtains (alone) "t = s" "killed_by km s t = {}" "fst r = km"
    | (killed) "killed_by km s t = {key_of (km_id km)}" "fst r = km" "key_of (km_id km) \<in> running_jobs (job_map s)"
        "moves {(key_of (km_id km), JOB_STATE_RUNNING, JOB_STATE_COMPLETED_KILLED)} s t" "hires [] s t"
        "key_of (km_id km) \<in> jobs_in (\<lambda>x. x = JOB_STATE_COMPLETED_KILLED) (job_map t)"
proof (cases "runs (km_id km) s")
  case False
  then have "t = s \<and> fst r = km" using assms(2) by (auto simp: kill_one_def runs_def split: bind_splits if_splits)
  then show thesis using alone by (simp add: killed_by_def)
next
  case True
  then obtain j where j: "job_at (km_id km) (ws_of s) = Some j" "sj_state j = JOB_STATE_RUNNING"
    by (auto simp: runs_def split: option.splits)
  obtain tk pr cancelled where tk: "tasks (km_id km) = Some tk" "compute_tasks_progress (now_of s) tk = Some pr"
      "cancel_ptask tk = Some cancelled"
    using assms(2) j by (auto simp: kill_one_def split: bind_splits)
  show thesis
  proof (cases cancelled)
    case True
    then have "t = s \<and> fst r = km" using assms j tk by (auto simp: kill_one_def)
    then show thesis using alone by (simp add: killed_by_def)
  next
    case False
    let ?j = "j\<lparr>sj_state := JOB_STATE_COMPLETED_KILLED, sj_runtime := run_time (now_of s) j\<rparr>"
    obtain s1 where f: "same_books s s1" and w: "write_job ?j s1 = Some t" and r: "fst r = km"
      using assms(2) j tk False by (auto simp: kill_one_def dest: on_platform_same split: bind_splits)
    note k = books_keyed[OF assms(1) j(1)]
    have jm: "job_map t = (job_map s)(key_of (km_id km) \<mapsto> ?j)"
      using write_job_accounts(1)[OF w] f k(2) by (simp add: same_books_def)
    have "moves {(key_of (km_id km), JOB_STATE_RUNNING, JOB_STATE_COMPLETED_KILLED)} s t"
      by (rule moves_write[OF assms(1) j(1) w]) (use f j(2) in \<open>simp_all add: same_books_def\<close>)
    moreover have "hires [] s t" using write_job_crew[OF w] f by (simp add: hires_def same_books_def)
    moreover have "killed_by km s t = {key_of (km_id km)}"
      using True jm by (simp add: killed_by_def runs_def job_at_map)
    ultimately show thesis using killed r k(1) j(2) jm by (simp add: jobs_in_iff)
  qed
qed

end
