(* ===== verification/Sim_Sound.thy ===== *)
theory Sim_Sound
  imports Sim_Moves
begin

text \<open>
  What holds of the server together with the actors that work on jobs.  The invariant relates the
  jobs to four lists of keys: those of the jobs with an executor, of the ends that are reported and
  not yet heard of, of the kills that are under way, and of the jobs still to be submitted.  Each
  kind of step of the simulator keeps it.
\<close>

subsection \<open>The invariant\<close>

abbreviation killed_jobs :: "server \<Rightarrow> key set" where
  "killed_jobs st \<equiv> jobs_in (\<lambda>x. x = JOB_STATE_COMPLETED_KILLED) (job_map st)"

text \<open>The jobs that are complete and whose end the server has not counted.\<close>

definition unheard :: "server \<Rightarrow> key set" where
  "unheard st = complete_jobs (job_map st) - gone_jobs st"

lemma books_unheard: "books s e a \<Longrightarrow> e = unheard s"
  using booksD(2)[OF books_ok_of] by (simp add: unheard_def)

text \<open>
  An executor works on a running job.  A reported end is one the server has not counted, and not of
  a killed job, which its killer reports.  A kill that is under way is of a job that was asked to be
  killed, each once, and whose death the server has not counted; and only such a death is counted.
\<close>

definition sound :: "server \<Rightarrow> key list \<Rightarrow> key list \<Rightarrow> key list \<Rightarrow> key list \<Rightarrow> bool" where
  "sound st ex ends ks ts \<longleftrightarrow> books st (unheard st) (set (announced st)) \<and> distinct (announced st) \<and>
     distinct ex \<and> set ex \<subseteq> running_jobs (job_map st) \<and>
     distinct ends \<and> set ends \<subseteq> unheard st - killed_jobs st \<and>
     distinct ks \<and> (\<forall>k \<in> set ks. met (ws_of st) k) \<and> set ks \<inter> dom (job_map st) \<subseteq> requested_jobs st \<and>
     set ks \<inter> killed_jobs st \<subseteq> unheard st \<and> killed_jobs st - unheard st \<subseteq> requested_jobs st \<and>
     distinct ts \<and> set ts \<subseteq> fresh_jobs (job_map st)"

lemma soundD:
  assumes "sound st ex ends ks ts"
  shows "books st (unheard st) (set (announced st))" "distinct (announced st)"
    "distinct ex" "set ex \<subseteq> running_jobs (job_map st)"
    "distinct ends" "set ends \<subseteq> unheard st - killed_jobs st"
    "distinct ks" "\<forall>k \<in> set ks. met (ws_of st) k" "set ks \<inter> dom (job_map st) \<subseteq> requested_jobs st"
    "set ks \<inter> killed_jobs st \<subseteq> unheard st" "killed_jobs st - unheard st \<subseteq> requested_jobs st"
    "distinct ts" "set ts \<subseteq> fresh_jobs (job_map st)"
  using assms unfolding sound_def by blast+

lemma soundI:
  assumes "books st e (set (announced st))" "distinct (announced st)"
    "distinct ex" "set ex \<subseteq> running_jobs (job_map st)"
    "distinct ends" "set ends \<subseteq> e - killed_jobs st"
    "distinct ks" "\<forall>k \<in> set ks. met (ws_of st) k" "set ks \<inter> dom (job_map st) \<subseteq> requested_jobs st"
    "set ks \<inter> killed_jobs st \<subseteq> e" "killed_jobs st - e \<subseteq> requested_jobs st"
    "distinct ts" "set ts \<subseteq> fresh_jobs (job_map st)"
  shows "sound st ex ends ks ts"
  using assms unfolding sound_def books_unheard[OF assms(1), symmetric] by blast

lemma sound_same_sets:
  assumes "sound st ex ends ks ts" "distinct ex'" "set ex' = set ex" "distinct ends'" "set ends' = set ends"
    "distinct ks'" "set ks' = set ks" "distinct ts'" "set ts' = set ts"
  shows "sound st ex' ends' ks' ts'"
  using assms by (simp add: sound_def)

subsection \<open>Jobs in a state, before and after\<close>

lemma dom_moves: "moves P s t \<Longrightarrow> dom (job_map t) = dom (job_map s)" "moves P s t \<Longrightarrow> met (ws_of t) = met (ws_of s)"
  by (simp_all add: moves_def)

lemma moves_jobs:
  assumes "moves P s t"
  shows "\<And>k. k \<in> jobs_in Q (job_map s) \<Longrightarrow> (\<And>a b. (k, a, b) \<in> P \<Longrightarrow> Q a \<Longrightarrow> Q b) \<Longrightarrow> k \<in> jobs_in Q (job_map t)"
    "\<And>k. k \<in> jobs_in Q (job_map t) \<Longrightarrow> (\<And>a b. (k, a, b) \<in> P \<Longrightarrow> Q b \<Longrightarrow> Q a) \<Longrightarrow> k \<in> jobs_in Q (job_map s)"
proof -
  fix k
  have same: "\<exists>j j'. job_map s k = Some j \<and> job_map t k = Some j' \<and>
      (sj_state j' = sj_state j \<or> (k, sj_state j, sj_state j') \<in> P)"
    if "k \<in> dom (job_map s) \<or> k \<in> dom (job_map t)"
  proof -
    have "k \<in> dom (job_map s)" "k \<in> dom (job_map t)" using dom_moves(1)[OF assms] that by simp_all
    then obtain j j' where "job_map s k = Some j" "job_map t k = Some j'" by blast
    then show ?thesis using assms unfolding moves_def by blast
  qed
  have dom: "k \<in> dom f" if "k \<in> jobs_in Q f" for f Q using that by (auto simp: jobs_in_def)
  show "k \<in> jobs_in Q (job_map t)"
    if q: "k \<in> jobs_in Q (job_map s)" and p: "\<And>a b. (k, a, b) \<in> P \<Longrightarrow> Q a \<Longrightarrow> Q b"
  proof -
    obtain j j' where j: "job_map s k = Some j" "job_map t k = Some j'"
        "sj_state j' = sj_state j \<or> (k, sj_state j, sj_state j') \<in> P"
      using same dom[OF q] by blast
    then show ?thesis using q p[of "sj_state j" "sj_state j'"] by (auto simp: jobs_in_def)
  qed
  show "k \<in> jobs_in Q (job_map s)"
    if q: "k \<in> jobs_in Q (job_map t)" and p: "\<And>a b. (k, a, b) \<in> P \<Longrightarrow> Q b \<Longrightarrow> Q a"
  proof -
    obtain j j' where j: "job_map s k = Some j" "job_map t k = Some j'"
        "sj_state j' = sj_state j \<or> (k, sj_state j, sj_state j') \<in> P"
      using same dom[OF q] by blast
    then show ?thesis using q p[of "sj_state j" "sj_state j'"] by (auto simp: jobs_in_def)
  qed
qed

lemma jobs_in_dom: "jobs_in P f \<subseteq> dom f"
  by (auto simp: jobs_in_def)

subsection \<open>Handlers\<close>

text \<open>
  A handler that hears of the ends \<open>H\<close> keeps the invariant when it ends no job by killing it, moves
  no job that has an executor out of its running state, and hears of no killed job but those whose
  kills are under way.
\<close>

lemma sound_handled:
  assumes "sound s ex ends ks ts" "moves P s t"
    and "books t (unheard s - H) (set (announced t))" "distinct (announced t)"
    and P: "\<And>k a b. (k, a, b) \<in> P \<Longrightarrow> b \<noteq> JOB_STATE_COMPLETED_KILLED"
    and ex: "distinct ex'" "\<And>k. k \<in> set ex' \<Longrightarrow>
        k \<in> running_jobs (job_map t) \<or> k \<in> set ex \<and> (\<forall>b. (k, JOB_STATE_RUNNING, b) \<notin> P)"
    and "distinct ends'" "set ends' \<subseteq> set ends - H"
    and "distinct ks'" "set ks' \<subseteq> (set ks - H) \<union> N" "N \<subseteq> dom (job_map s) - requested_jobs s" "N \<subseteq> requested_jobs t"
    and "H \<inter> killed_jobs s \<subseteq> set ks"
    and "distinct ts'" "set ts' \<subseteq> set ts" "\<And>k b. k \<in> set ts' \<Longrightarrow> (k, JOB_STATE_NOT_SUBMITTED, b) \<notin> P"
  shows "sound t ex' ends' ks' ts'"
proof (rule soundI[OF assms(3,4) ex(1) _ assms(8) _ assms(10) _ _ _ _ assms(15)])
  note d = soundD[OF assms(1)] and m = dom_moves[OF assms(2)] and mv = moves_jobs[OF assms(2)]
  note req = moves_requested[OF assms(2)]
  have killed: "killed_jobs t \<subseteq> killed_jobs s" using mv(2) P by blast
  show "set ex' \<subseteq> running_jobs (job_map t)" using ex(2) d(4) mv(1) by blast
  show "set ends' \<subseteq> unheard s - H - killed_jobs t" using assms(9) d(6) killed by blast
  have "N \<subseteq> {k. met (ws_of s) k}" using assms(12) d(1) unfolding books_def by blast
  then show "\<forall>k \<in> set ks'. met (ws_of t) k" using assms(11) d(8) unfolding m by blast
  show "set ks' \<inter> dom (job_map t) \<subseteq> requested_jobs t"
    using assms(11,13) d(9) req unfolding m by blast
  have hk: "H \<inter> killed_jobs s \<subseteq> requested_jobs s" using assms(14) d(9) jobs_in_dom by blast
  show "set ks' \<inter> killed_jobs t \<subseteq> unheard s - H"
    using assms(11,12) d(10,11) killed hk by blast
  show "killed_jobs t - (unheard s - H) \<subseteq> requested_jobs t"
    using d(11) killed hk req by blast
  show "set ts' \<subseteq> fresh_jobs (job_map t)" using assms(16,17) d(13) mv(1) by blast
qed

text \<open>A job that runs ends: it is killed, or its end is reported.\<close>

lemma sound_ended:
  assumes "sound s ex ends ks ts" "moves {(k, JOB_STATE_RUNNING, n)} s t" "is_complete n" "k \<in> running_jobs (job_map s)"
    and "books t (insert k (unheard s)) (set (announced t))" "announced t = announced s"
    and "distinct ex'" "set ex' \<subseteq> set ex - {k}"
    and "ends' = (if n = JOB_STATE_COMPLETED_KILLED then ends else ends @ [k])" "k \<in> jobs_in (\<lambda>x. x = n) (job_map t)"
  shows "sound t ex' ends' ks ts"
proof (rule soundI[OF assms(5) _ assms(7) _ _ _ _ _ _ _ _ _])
  note d = soundD[OF assms(1)] and m = dom_moves[OF assms(2)] and mv = moves_jobs[OF assms(2)]
  have killed: "killed_jobs t \<subseteq> insert k (killed_jobs s)" using mv(2)[where Q = "\<lambda>x. x = JOB_STATE_COMPLETED_KILLED"] by blast
  have k: "k \<notin> set ends" "k \<notin> set ts"
    using assms(4) d(6,13) jobs_apart(2,6)[of "job_map s"] by (auto simp: unheard_def)
  show "distinct (announced t)" "distinct ks" "distinct ts" using d(2,7,12) assms(6) by simp_all
  show "set ex' \<subseteq> running_jobs (job_map t)" using assms(8) d(4) mv(1) by blast
  show "distinct ends'" using d(5) k assms(9) by simp
  have "k \<notin> killed_jobs t" if "n \<noteq> JOB_STATE_COMPLETED_KILLED" using assms(10) that by (auto simp: jobs_in_def)
  then show "set ends' \<subseteq> insert k (unheard s) - killed_jobs t" using assms(9) d(6) k killed by (auto split: if_splits)
  show "\<forall>k \<in> set ks. met (ws_of t) k" using d(8) unfolding m .
  show "set ks \<inter> dom (job_map t) \<subseteq> requested_jobs t" using d(9) moves_requested[OF assms(2)] unfolding m by blast
  show "set ks \<inter> killed_jobs t \<subseteq> insert k (unheard s)" using d(10) killed by blast
  show "killed_jobs t - insert k (unheard s) \<subseteq> requested_jobs t"
    using d(11) killed moves_requested[OF assms(2)] by blast
  show "set ts \<subseteq> fresh_jobs (job_map t)" using d(13) k mv(1) by blast
qed

text \<open>Steps that change no job.\<close>

lemma sound_frame:
  assumes "sound s ex ends ks ts" "ws_of t = ws_of s" "gone_jobs t = gone_jobs s" "announced t = announced s"
    "nb_completed_jobs t = nb_completed_jobs s" "nb_submitted_jobs t = nb_submitted_jobs s"
    "nb_running_jobs t = nb_running_jobs s"
  shows "sound t ex ends ks ts"
  using assms by (simp add: sound_def books_def unheard_def requested_jobs_def)

text \<open>A message to the scheduler lets the server delete the jobs whose ends it has counted.\<close>

lemma send_prunes:
  assumes "send_if_needed me s = Some t"
  obtains K where "K \<subseteq> gone_jobs s" "prunes K (ws_of s) (ws_of t)" "hires [] s t"
  using assms
proof (cases rule: send_cases)
  case idle
  then show thesis using that[of "{}"] by (simp add: prunes_def hires_def restrict_map_def)
next
  case (ends s1 s2)
  have "same_books s s2" by (rule same_books_trans[OF on_proto_same[OF ends(4)] generate_same[OF ends(5)]])
  then show thesis using that[of "{}"] ends(6) by (simp add: prunes_def hires_def restrict_map_def same_books_def)
next
  case sent
  then show thesis using that[of "{}"] generate_same by (fastforce simp: prunes_def hires_def restrict_map_def same_books_def)
next
  case (deleted s1 ws)
  have g: "same_books s s1" by (rule generate_same[OF deleted(1)])
  then have "prunes (gone_jobs s) (ws_of s) ws"
    using delete_jobs_prunes[OF deleted(2)] by (simp add: same_books_def gone_jobs_def)
  then show thesis using that[of "gone_jobs s"] g by (simp add: deleted(3) hires_def same_books_def)
qed

lemma sound_sent:
  assumes "sound s ex ends ks ts" "send_if_needed me s = Some t"
  shows "sound t ex ends ks ts"
proof -
  note d = soundD[OF assms(1)]
  obtain K where K: "K \<subseteq> gone_jobs s" and p: "prunes K (ws_of s) (ws_of t)" and h: "hires [] s t"
    using send_prunes[OF assms(2)] .
  have an: "announced t = announced s" using h by (simp add: hires_def announced_in_def)
  have met: "met (ws_of t) = met (ws_of s)" using p by (simp add: prunes_def)
  have jm: "job_map t k = (if k \<in> K then None else job_map s k)" for k
    using p by (simp add: prunes_def restrict_map_def)
  have js: "jobs_in P (job_map t) = jobs_in P (job_map s) - K" for P
    by (auto simp: jobs_in_def jm)
  have rq: "requested_jobs t = requested_jobs s - K" "dom (job_map t) = dom (job_map s) - K"
    by (auto simp: requested_jobs_def jm dom_def)
  note g = booksD(4-6)[OF books_ok_of[OF d(1)]]
  show ?thesis
  proof (rule soundI[OF send_books[OF d(1) assms(2), folded an]])
    show "set ex \<subseteq> running_jobs (job_map t)" "set ts \<subseteq> fresh_jobs (job_map t)"
      using d(4,13) g K unfolding js by blast+
    show "set ends \<subseteq> unheard s - killed_jobs t" "set ks \<inter> dom (job_map t) \<subseteq> requested_jobs t"
        "set ks \<inter> killed_jobs t \<subseteq> unheard s" "killed_jobs t - unheard s \<subseteq> requested_jobs t"
      using d(6,9-11) unfolding js rq by blast+
  qed (use d an met in simp_all)
qed

text \<open>The reader registers a job that was never met before.\<close>

lemma sound_reads:
  assumes "sound s ex ends ks ts" "grows (base s) c"
  shows "sound (s\<lparr>base := c\<rparr>) ex ends ks ts"
proof -
  note d = soundD[OF assms(1)]
  let ?t = "s\<lparr>base := c\<rparr>"
  note b = grows_books[OF d(1,2) assms(2)]
  have b1: "books ?t (unheard s) (set (announced ?t))" "distinct (announced ?t)" using b by simp_all
  show ?thesis
    using assms(2)
  proof (cases rule: grows_cases)
    case same
    have jm: "job_map ?t = job_map s" using same(1) by simp
    then have rq: "requested_jobs ?t = requested_jobs s" by (simp add: requested_jobs_def)
    show ?thesis
    proof (rule soundI[OF b1])
      show "\<forall>k \<in> set ks. met (ws_of ?t) k" using d(8) same(3) by (simp del: split_paired_All)
    qed (use d in \<open>simp_all only: jm rq\<close>)
  next
    case (new j)
    let ?k = "key_of (sj_id j)"
    have jm: "job_map ?t = (job_map s)(?k \<mapsto> j)" using new(1) by simp
    have k: "?k \<notin> dom (job_map s)" "?k \<notin> set ks" using new(3) d(1,8) unfolding books_def by blast+
    have js: "jobs_in P (job_map ?t) = jobs_in P (job_map s)" if "\<not> P JOB_STATE_SUBMITTED" for P
      using new(2) k(1) that jobs_in_dom[of P "job_map s"] unfolding jm by (simp add: insert_absorb) blast
    have rq: "requested_jobs s \<subseteq> requested_jobs ?t"
      using k(1) unfolding requested_jobs_def jm by auto
    show ?thesis
    proof (rule soundI[OF b1])
      show "\<forall>k \<in> set ks. met (ws_of ?t) k" using d(8) new(6) by (simp del: split_paired_All)
      show "set ks \<inter> dom (job_map ?t) \<subseteq> requested_jobs ?t"
        using d(9) rq k(2) unfolding jm by auto
    qed (use d rq js in auto)
  qed
qed


subsection \<open>One message of the scheduler\<close>

text \<open>The actors that work on jobs, by the keys of their jobs.\<close>

fun crew_executions :: "actor list \<Rightarrow> key list" where
  "crew_executions (Execute_job al # xs) = key_of (sa_job al) # crew_executions xs"
| "crew_executions (_ # xs) = crew_executions xs"
| "crew_executions [] = []"

fun crew_kills :: "actor list \<Rightarrow> key list" where
  "crew_kills (Killer kms # xs) = keys_of kms @ crew_kills xs"
| "crew_kills (_ # xs) = crew_kills xs"
| "crew_kills [] = []"

text \<open>
  What the scheduler is trusted with, as the server does not check it: it does not decide on a job
  whose registration by itself is still in the queue behind the decision, it does not change the
  state of a job that it has handed to an executor, and it does not declare a job killed itself.
\<close>

fun trusted :: "server_message \<Rightarrow> server \<Rightarrow> key list \<Rightarrow> bool" where
  "trusted (SCHED_EXECUTE_JOB al) st ex \<longleftrightarrow> key_of (sa_job al) \<notin> set (announced st)"
| "trusted (SCHED_REJECT_JOB ji) st ex \<longleftrightarrow> key_of ji \<notin> set (announced st)"
| "trusted (SCHED_CHANGE_JOB_STATE ji s) st ex \<longleftrightarrow> key_of ji \<notin> set (announced st) \<and> key_of ji \<notin> set ex \<and>
     job_state_from_string s \<noteq> Some JOB_STATE_COMPLETED_KILLED"
| "trusted _ st ex \<longleftrightarrow> True"

lemma sound_same:
  assumes "sound s ex ends ks ts" "same_books s t"
  shows "sound t ex ends ks ts" "hires [] s t"
  using assms(2) sound_frame[OF assms(1), of t]
  by (simp_all add: same_books_def gone_jobs_def announced_in_def hires_def)

lemma announced_hires: "hires h s t \<Longrightarrow> announced t = announced s"
  by (simp add: hires_def announced_in_def)

text \<open>A handler without reports and kills.\<close>

lemma sound_decided:
  assumes "sound s ex ends ks ts" "moves P s t \<and> hires h s t" "books t (unheard s) (set (announced s))"
    and "\<And>k a b. (k, a, b) \<in> P \<Longrightarrow> b \<noteq> JOB_STATE_COMPLETED_KILLED \<and> a \<noteq> JOB_STATE_NOT_SUBMITTED"
    and "distinct ex'" "\<And>k. k \<in> set ex' \<Longrightarrow>
        k \<in> running_jobs (job_map t) \<or> k \<in> set ex \<and> (\<forall>b. (k, JOB_STATE_RUNNING, b) \<notin> P)"
  shows "sound t ex' ends ks ts"
proof -
  have an: "announced t = announced s" using assms(2) announced_hires by blast
  have b: "books t (unheard s - {}) (set (announced t))" using assms(3) an by simp
  show ?thesis
    by (rule sound_handled[OF assms(1) conjunct1[OF assms(2)] b, where N = "{}"])
      (use assms(4-6) soundD[OF assms(1)] an in auto)
qed

lemma handle_scheduler_sound:
  assumes "sound s ex ends ks ts" "handle_scheduler sx m s = Some t" "trusted m s ex" "registered_keys m = []"
  shows "\<exists>h. hires h s t \<and> sound t (ex @ crew_executions h) ends (ks @ crew_kills h) ts"
proof -
  note d = soundD[OF assms(1)]
  have quiet: ?thesis if "same_books s t"
    using sound_same[OF assms(1) that] by (intro exI[of _ "[]"]) simp
  have plain: ?thesis if "sound t ex ends ks ts" "hires [] s t"
    using that by (intro exI[of _ "[]"]) simp
  have decided: ?thesis
    if "moves P s t \<and> hires [] s t" "books t (unheard s) (set (announced s))"
      "\<And>k a b. (k, a, b) \<in> P \<Longrightarrow> b \<noteq> JOB_STATE_COMPLETED_KILLED \<and> a \<noteq> JOB_STATE_NOT_SUBMITTED"
      "\<And>k b. k \<in> set ex \<Longrightarrow> (k, JOB_STATE_RUNNING, b) \<notin> P" for P
  proof (rule plain)
    show "sound t ex ends ks ts"
      by (rule sound_decided[OF assms(1) that(1,2)]) (use that(3,4) d(3) in blast)+
  qed (use that(1) in simp)
  show ?thesis
  proof (cases m)
    case SCHED_TELL_ME_ENERGY
    then show ?thesis using assms(2) by (intro quiet) (simp add: on_requests_same(2))
  next
    case (SCHED_CALL_ME_LATER dt n what)
    then show ?thesis using assms(2) by (intro quiet) (simp add: on_requests_same(5))
  next
    case (PSTATE_MODIFICATION U p)
    then show ?thesis using assms(2) by (intro quiet) (simp add: on_pstate_same)
  next
    case END_DYNAMIC_REGISTER
    then show ?thesis using assms(2) on_ready_same(3)[of s] by (intro quiet) auto
  next
    case CONTINUE_DYNAMIC_REGISTER
    then show ?thesis using assms(2) on_ready_same(4)[of s] by (intro quiet) auto
  next
    case SCHED_READY
    then show ?thesis using assms(2) on_ready_same(1)[of s] by (intro quiet) auto
  next
    case (PROFILE_REGISTERED_BY_DP w p x)
    then show ?thesis using assms(2) by (intro quiet) simp
  next
    case (SCHED_SET_JOB_METADATA ji md)
    then show ?thesis
      using assms(2) on_job_data_moves(1)[OF d(1)] on_job_data_books(1)[OF d(1)] by (intro decided[of "{}"]) auto
  next
    case (TO_JOB_MSG ji md)
    then show ?thesis
      using assms(2) on_job_data_moves(2)[OF d(1)] on_job_data_books(2)[OF d(1)] by (intro decided[of "{}"]) auto
  next
    case (SCHED_REJECT_JOB ji)
    have h: "server_on_reject_job ji s = Some t" using assms(2) SCHED_REJECT_JOB by simp
    show ?thesis
      by (rule decided[OF on_reject_moves[OF d(1) h] on_reject_books[OF d(1) h]]) (use assms(3) SCHED_REJECT_JOB in auto)
  next
    case (SCHED_CHANGE_JOB_STATE ji x)
    have h: "server_on_change_job_state ji x s = Some t" using assms(2) SCHED_CHANGE_JOB_STATE by simp
    have tr: "key_of ji \<notin> set (announced s)" "key_of ji \<notin> set ex"
        "job_state_from_string x \<noteq> Some JOB_STATE_COMPLETED_KILLED"
      using assms(3) SCHED_CHANGE_JOB_STATE by simp_all
    obtain n where n: "job_state_from_string x = Some n" "moves (state_moves (key_of ji) n) s t \<and> hires [] s t"
      using on_change_state_moves[OF d(1) h] by blast
    show ?thesis
      by (rule decided[OF n(2) on_change_state_books[OF d(1) h tr(1)]]) (use tr n(1) in \<open>auto simp: state_moves_def\<close>)
  next
    case (SCHED_EXECUTE_JOB al)
    let ?k = "key_of (sa_job al)"
    have h: "server_on_execute_job al s = Some t" using assms(2) SCHED_EXECUTE_JOB by simp
    note m = on_execute_moves[OF d(1) h]
    have b: "books t (unheard s) (set (announced s))"
      using on_execute_books[OF d(1) h] assms(3) SCHED_EXECUTE_JOB by simp
    have k: "?k \<notin> set ex" using m(2) d(4) jobs_apart(4)[of "job_map s"] by blast
    have "sound t (ex @ [?k]) ends ks ts"
      by (rule sound_decided[OF assms(1) m(1) b]) (use k d(3) m(2) in auto)
    then show ?thesis using m(1) by (intro exI[of _ "[Execute_job al]"]) simp
  next
    case (SCHED_KILL_JOB kms)
    have h: "server_on_kill_jobs kms s = Some t" using assms(2) SCHED_KILL_JOB by simp
    obtain r where r: "moves {} s t" "hires (if r = [] then [] else [Killer r]) s t" "distinct (keys_of r)"
        "set (keys_of r) \<subseteq> dom (job_map s) - requested_jobs s" "set (keys_of r) \<subseteq> requested_jobs t"
      using on_kill_jobs_moves[OF d(1) h] .
    have an: "announced t = announced s" by (rule announced_hires[OF r(2)])
    have b: "books t (unheard s - {}) (set (announced t))" using on_job_data_books(3)[OF d(1) h] an by simp
    have apart: "set ks \<inter> set (keys_of r) = {}" using r(4) d(9) by blast
    have "sound t ex ends (ks @ keys_of r) ts"
      by (rule sound_handled[OF assms(1) r(1) b, where N = "set (keys_of r)"])
        (use r(3-5) d(2,3,5,7,12) an apart in auto)
    moreover have "crew_kills (if r = [] then [] else [Killer r]) = keys_of r"
        "crew_executions (if r = [] then [] else [Killer r]) = []" by simp_all
    ultimately show ?thesis using r(2) by (intro exI[of _ "if r = [] then [] else [Killer r]"]) simp
  next
    case (JOB_REGISTERED_BY_DP ji x)
    then show ?thesis using assms(4) by simp
  qed
qed

text \<open>The server counts a job whose registration was the first message of the queue.\<close>

lemma register_sound:
  assumes "sound s ex ends ks ts" "queue_of s = (date, JOB_REGISTERED_BY_DP ji x) # queue"
    and "s1 = s\<lparr>base := (base s)\<lparr>server_mailbox := queue\<rparr>\<rparr>" "server_on_register_job sx ji s1 = Some t"
  shows "hires [] s1 t \<and> sound t ex ends ks ts"
proof -
  note d = soundD[OF assms(1)]
  have an: "announced s = key_of ji # announced s1" using assms(2,3) by (simp add: announced_in_def)
  have b1: "books s1 (unheard s) (set (announced s))" using d(1) assms(3) by (simp add: books_def gone_jobs_def)
  note m = on_register_moves[OF assms(4), of "{}"]
  have t: "announced t = announced s1" using m announced_hires by blast
  have "set (announced s) - {key_of ji} = set (announced t)" using d(2) an t by auto
  then have b: "books t (unheard s - {}) (set (announced t))"
    using on_register_books[OF b1 assms(4)] an by simp
  have mv: "moves {} s t" using m assms(3) by (simp add: moves_def)
  have "sound t ex ends ks ts"
    by (rule sound_handled[OF assms(1) mv b, where N = "{}"]) (use d an t in auto)
  then show ?thesis using m by blast
qed

subsection \<open>Messages of submitters, jobs and killers\<close>

lemma submitted_sound:
  assumes "sound s ex ends ks ts" "server_on_job_submitted sx n jis s = Some t" "distinct (map key_of jis)"
    "key_of ` set jis \<subseteq> set ts" "distinct ts'" "set ts' \<subseteq> set ts - key_of ` set jis"
  shows "hires [] s t \<and> sound t ex ends ks ts'"
proof -
  note d = soundD[OF assms(1)]
  let ?P = "(key_of ` set jis) \<times> {(JOB_STATE_NOT_SUBMITTED, JOB_STATE_SUBMITTED)}"
  have ns: "list_all (not_submitted_yet s) jis"
    using assms(4) d(13) by (fastforce simp: list_all_iff not_submitted_yet_def job_at_map jobs_in_def)
  have m: "moves ?P s t \<and> hires [] s t"
    using assms(2) submit_all_moves[OF d(1) _ assms(3) ns subset_refl] unfolding server_on_job_submitted_def
    by (auto simp: moves_same hires_def split: bind_splits if_splits)
  have an: "announced t = announced s" using m announced_hires by blast
  have b: "books t (unheard s - {}) (set (announced t))"
    using on_job_submitted_books[OF d(1) assms(2,3)] ns an
    by (simp add: list_all_iff not_submitted_yet_def split: option.splits)
  have "sound t ex ends ks ts'"
    by (rule sound_handled[OF assms(1) conjunct1[OF m] b, where N = "{}"]) (use assms(5,6) d an in auto)
  then show ?thesis using m by blast
qed

lemma completed_sound:
  assumes "sound s ex ends ks ts" "server_on_job_completed sx ji s = Some t" "key_of ji \<in> set ends"
    "distinct ends'" "set ends' \<subseteq> set ends - {key_of ji}"
  shows "hires [] s t \<and> sound t ex ends' ks ts"
proof -
  note d = soundD[OF assms(1)]
  have m: "moves {} s t \<and> hires [] s t" using on_job_completed_moves[OF assms(2)] by (simp add: moves_same)
  have an: "announced t = announced s" using m announced_hires by blast
  have k: "key_of ji \<in> unheard s" "key_of ji \<notin> killed_jobs s" using d(6) assms(3) by blast+
  have b: "books t (unheard s - {key_of ji}) (set (announced t))"
    using on_job_completed_books[OF d(1) assms(2) k(1)] an by simp
  have "set ks \<subseteq> (set ks - {key_of ji}) \<union> {key_of ji}" by blast
  have "sound t ex ends' ks ts"
  proof (rule soundI[OF b])
    have same: "ws_of t = ws_of s" using on_job_completed_moves[OF assms(2)] by blast
    then have jm: "job_map t = job_map s" "requested_jobs t = requested_jobs s" by (simp_all add: requested_jobs_def)
    show "set ends' \<subseteq> unheard s - {key_of ji} - killed_jobs t" "set ks \<inter> killed_jobs t \<subseteq> unheard s - {key_of ji}"
        "killed_jobs t - (unheard s - {key_of ji}) \<subseteq> requested_jobs t"
      using d(6,10,11) assms(5) k unfolding jm by blast+
    show "\<forall>k \<in> set ks. met (ws_of t) k" "set ks \<inter> dom (job_map t) \<subseteq> requested_jobs t"
        "set ex \<subseteq> running_jobs (job_map t)" "set ts \<subseteq> fresh_jobs (job_map t)"
      using d(4,8,9,13) unfolding jm same by blast+
  qed (use d assms(4) an in auto)
  then show ?thesis using m by blast
qed

lemma really_killed_keys:
  "set (keys_of (really_killed (ws_of s) kms)) \<subseteq> set (keys_of kms) \<inter> killed_jobs s"
  "distinct (keys_of kms) \<Longrightarrow> distinct (keys_of (really_killed (ws_of s) kms))"
  by (auto simp: really_killed_def jobs_in_def job_at_map distinct_map_filter split: option.splits)

lemma killing_done_sound:
  assumes "sound s ex ends ks ts" "server_on_killing_done sx msgs ack s = Some t"
    "distinct (keys_of (map fst msgs))" "set (keys_of (map fst msgs)) \<subseteq> set ks"
    "distinct ks'" "set ks' \<subseteq> set ks - set (keys_of (map fst msgs))"
  shows "hires [] s t \<and> sound t ex ends ks' ts"
proof -
  note d = soundD[OF assms(1)]
  let ?H = "set (keys_of (really_killed (ws_of s) (map fst msgs)))"
  have m: "moves {} s t \<and> hires [] s t" using on_killing_done_moves[OF assms(2)] by (simp add: moves_same)
  have an: "announced t = announced s" using m announced_hires by blast
  note h = really_killed_keys(1)[of s "map fst msgs"] really_killed_keys(2)[OF assms(3), of s]
  have "?H \<subseteq> unheard s" using h(1) assms(4) d(10) by blast
  then have b: "books t (unheard s - ?H) (set (announced t))"
    using on_killing_done_books[OF d(1) assms(2) h(2)] an by simp
  have "sound t ex ends ks' ts"
  proof (rule sound_handled[OF assms(1) conjunct1[OF m] b, where N = "{}"])
    show "set ends \<subseteq> set ends - ?H" using d(6) h(1) by blast
    show "set ks' \<subseteq> set ks - ?H \<union> {}" using assms(6) h(1) by blast
    show "?H \<inter> killed_jobs s \<subseteq> set ks" using assms(4) h(1) by blast
  qed (use d assms(5) an in auto)
  then show ?thesis using m by blast
qed

end
