(* ===== verification/Sim_System.thy ===== *)
theory Sim_System
  imports Sim_Sound Wire
begin

text \<open>
  The simulator's server with the actors around it, as a transition system: the server takes a
  message out of its mailbox and says what it has to say, a job begins or ends, a killer kills the
  next of its jobs, a submitter submits, the scheduler's reader applies an event, time passes.  The
  accounts of the server stay right in every reachable state, so that the simulation is declared
  over only when every submitted job has ended.
\<close>

subsection \<open>The system\<close>

text \<open>
  Around the server: the messages that submitters, jobs and killers have sent it, the executors (an
  allocation, and whether the job has begun), the killers (the kills done and those to do) and, by
  submitter, the jobs still to be submitted.  The messages of the scheduler are in the queue of the
  server's context.
\<close>

record system =
  server_of :: server
  mailbox :: "ip_message list"
  executors :: "(scheduling_allocation \<times> bool) list"
  killers :: "((kill_message \<times> bat_task option) list \<times> kill_message list) list"
  to_submit :: "(string \<times> job_identifier list) list"

text \<open>The actors the server has created start.\<close>

fun executor_of :: "actor \<Rightarrow> (scheduling_allocation \<times> bool) list" where
  "executor_of (Execute_job al) = [(al, False)]"
| "executor_of _ = []"

fun killer_of :: "actor \<Rightarrow> ((kill_message \<times> bat_task option) list \<times> kill_message list) list" where
  "killer_of (Killer kms) = [([], kms)]"
| "killer_of _ = []"

definition start_actors :: "system \<Rightarrow> system" where
  "start_actors sy = (let actors = spawned (server_of sy) in
     sy\<lparr>server_of := (server_of sy)\<lparr>spawned := []\<rparr>,
       executors := executors sy @ concat (map executor_of actors),
       killers := killers sy @ concat (map killer_of actors)\<rparr>)"

text \<open>The jobs the actors and the messages are about.\<close>

definition execution_keys :: "system \<Rightarrow> key list" where
  "execution_keys sy = map (\<lambda>x. key_of (sa_job (fst x))) (executors sy)"

fun reported_by :: "ip_message \<Rightarrow> key list" where
  "reported_by (Job_completed ji) = [key_of ji]"
| "reported_by _ = []"

fun killed_in :: "ip_message \<Rightarrow> key list" where
  "killed_in (Killing_done msgs ack) = keys_of (map fst msgs)"
| "killed_in _ = []"

fun submitted_in :: "ip_message \<Rightarrow> key list" where
  "submitted_in (Job_submitted n jis) = map key_of jis"
| "submitted_in _ = []"

definition reported :: "system \<Rightarrow> key list" where
  "reported sy = concat (map reported_by (mailbox sy))"

definition kill_keys :: "system \<Rightarrow> key list" where
  "kill_keys sy = concat (map killed_in (mailbox sy)) @
     concat (map (\<lambda>x. keys_of (map fst (fst x) @ snd x)) (killers sy))"

definition submit_keys :: "system \<Rightarrow> key list" where
  "submit_keys sy = concat (map submitted_in (mailbox sy)) @ concat (map (\<lambda>x. map key_of (snd x)) (to_submit sy))"

text \<open>The messages nobody has to answer for: they say nothing of jobs that run or end.\<close>

fun outside :: "ip_message \<Rightarrow> bool" where
  "outside (From_scheduler m) = False"
| "outside (Job_submitted n jis) = False"
| "outside (Job_completed ji) = False"
| "outside (Killing_done msgs ack) = False"
| "outside _ = True"

text \<open>
  A killer that ends a job itself kills the job's executor; one that cancels a task leaves it.
  The reader ends each message of the scheduler with \<^verbatim>\<open>SCHED_READY\<close>.
\<close>

inductive system_step ::
  "server_externals \<Rightarrow> loaders \<Rightarrow> hyphen_format \<Rightarrow> system \<Rightarrow> system \<Rightarrow> bool"
  for sx ld fmt where
  receives: "mailbox sy = ms @ m # ms' \<Longrightarrow> server_turn sx m mailbox_empty (server_of sy) = Some st \<Longrightarrow>
    system_step sx ld fmt sy (start_actors (sy\<lparr>server_of := st, mailbox := ms @ ms'\<rparr>))"
| obeys: "server_of sy = st0 \<Longrightarrow> queue_of st0 = (date, m) # queue \<Longrightarrow>
    st1 = st0\<lparr>base := (base st0)\<lparr>server_mailbox := queue\<rparr>\<rparr> \<Longrightarrow> trusted m st1 (execution_keys sy) \<Longrightarrow>
    server_turn sx (From_scheduler m) mailbox_empty st1 = Some st \<Longrightarrow>
    system_step sx ld fmt sy (start_actors (sy\<lparr>server_of := st\<rparr>))"
| hears: "outside m \<Longrightarrow> server_turn sx m mailbox_empty (server_of sy) = Some st \<Longrightarrow>
    system_step sx ld fmt sy (start_actors (sy\<lparr>server_of := st\<rparr>))"
| begins: "executors sy = xs @ (al, False) # xs' \<Longrightarrow> job_begins al (server_of sy) = Some st \<Longrightarrow>
    system_step sx ld fmt sy (sy\<lparr>server_of := st, executors := xs @ (al, True) # xs'\<rparr>)"
| finishes: "executors sy = xs @ (al, True) # xs' \<Longrightarrow> job_finishes al rc (server_of sy) = Some (ms, st) \<Longrightarrow>
    system_step sx ld fmt sy (sy\<lparr>server_of := st, mailbox := mailbox sy @ ms, executors := xs @ xs'\<rparr>)"
| kills: "killers sy = xs @ (killed, km # kms) # xs' \<Longrightarrow> kill_one tasks km (server_of sy) = Some (r, st) \<Longrightarrow>
    system_step sx ld fmt sy (sy\<lparr>server_of := st, killers := xs @ (killed @ [r], kms) # xs',
      executors := filter (\<lambda>x. key_of (sa_job (fst x)) \<notin> killed_by km (server_of sy) st) (executors sy)\<rparr>)"
| has_killed: "killers sy = xs @ (killed, []) # xs' \<Longrightarrow>
    system_step sx ld fmt sy (sy\<lparr>mailbox := mailbox sy @ [Killing_done killed True], killers := xs @ xs'\<rparr>)"
| submits: "to_submit sy = xs @ (n, jis @ later) # xs' \<Longrightarrow>
    system_step sx ld fmt sy (sy\<lparr>mailbox := mailbox sy @ [Job_submitted n jis], to_submit := xs @ (n, later) # xs'\<rparr>)"
| reads: "parse_and_apply_event ld fmt now ev (base (server_of sy)) = Some c \<Longrightarrow>
    system_step sx ld fmt sy (sy\<lparr>server_of := (server_of sy)\<lparr>base := c\<rparr>\<rparr>)"
| has_read: "c = send_message_at_time now SCHED_READY (base (server_of sy)) \<Longrightarrow>
    system_step sx ld fmt sy (sy\<lparr>server_of := (server_of sy)\<lparr>base := c\<rparr>\<rparr>)"
| passes: "c = (base (server_of sy))\<lparr>clock := date\<rparr> \<Longrightarrow>
    system_step sx ld fmt sy (sy\<lparr>server_of := (server_of sy)\<lparr>base := c\<rparr>\<rparr>)"

text \<open>
  The system just after the start of the server: nothing counted, nothing sent, no actor but the
  submitters, each job to submit in one list, once, and no job submitted yet.
\<close>

definition opened :: "system \<Rightarrow> bool" where
  "opened sy \<longleftrightarrow> (let st = server_of sy in
     nb_completed_jobs st = 0 \<and> nb_submitted_jobs st = 0 \<and> nb_running_jobs st = 0 \<and>
     jobs_to_be_deleted st = [] \<and> queue_of st = [] \<and> keyed (job_map st) \<and>
     (\<forall>k j. job_map st k = Some j \<longrightarrow> sj_state j = JOB_STATE_NOT_SUBMITTED \<and> met (ws_of st) k) \<and>
     mailbox sy = [] \<and> executors sy = [] \<and> killers sy = [] \<and> crew st = [] \<and>
     distinct (submit_keys sy) \<and> set (submit_keys sy) \<subseteq> dom (job_map st))"

inductive system_reachable ::
  "server_externals \<Rightarrow> loaders \<Rightarrow> hyphen_format \<Rightarrow> system \<Rightarrow> system \<Rightarrow> bool"
  for sx ld fmt sy0 where
  start: "system_reachable sx ld fmt sy0 sy0"
| step: "system_reachable sx ld fmt sy0 sy \<Longrightarrow> system_step sx ld fmt sy sy' \<Longrightarrow> system_reachable sx ld fmt sy0 sy'"

inductive_cases system_stepE: "system_step sx ld fmt sy sy'"

subsection \<open>Actors that start\<close>

lemma crew_filtered:
  "crew_executions (filter works_on_jobs xs) = map (\<lambda>x. key_of (sa_job (fst x))) (concat (map executor_of xs))"
  "crew_kills (filter works_on_jobs xs) = concat (map (\<lambda>x. keys_of (map fst (fst x) @ snd x)) (concat (map killer_of xs)))"
proof -
  show "crew_executions (filter works_on_jobs xs) = map (\<lambda>x. key_of (sa_job (fst x))) (concat (map executor_of xs))"
  proof (induction xs)
    case (Cons x xs)
    then show ?case by (cases x) simp_all
  qed simp
  show "crew_kills (filter works_on_jobs xs) = concat (map (\<lambda>x. keys_of (map fst (fst x) @ snd x)) (concat (map killer_of xs)))"
  proof (induction xs)
    case (Cons x xs)
    then show ?case by (cases x) simp_all
  qed simp
qed

fun from_actor :: "ip_message \<Rightarrow> bool" where
  "from_actor (Job_submitted n jis) = True"
| "from_actor (Job_completed ji) = True"
| "from_actor (Killing_done msgs ack) = True"
| "from_actor _ = False"

definition system_sound :: "system \<Rightarrow> bool" where
  "system_sound sy \<longleftrightarrow> crew (server_of sy) = [] \<and> list_all from_actor (mailbox sy) \<and>
     sound (server_of sy) (execution_keys sy) (reported sy) (kill_keys sy) (submit_keys sy)"

text \<open>The start of the actors that a turn has created keeps what was true with their jobs added.\<close>

lemma start_actors_sound:
  assumes "list_all from_actor (mailbox sy)"
    "sound (server_of sy) (execution_keys sy @ crew_executions (crew (server_of sy))) (reported sy)
      (kill_keys sy @ crew_kills (crew (server_of sy))) (submit_keys sy)"
  shows "system_sound (start_actors sy)"
proof -
  have "sound ((server_of sy)\<lparr>spawned := []\<rparr>) (execution_keys sy @ crew_executions (crew (server_of sy))) (reported sy)
      (kill_keys sy @ crew_kills (crew (server_of sy))) (submit_keys sy)"
    by (rule sound_frame[OF assms(2)]) (simp_all add: gone_jobs_def)
  then show ?thesis using assms(1)
    unfolding crew_filtered system_sound_def
    by (simp add: start_actors_def Let_def execution_keys_def reported_def kill_keys_def submit_keys_def)
qed


lemma turn_sound:
  assumes "hires h s t" "crew s = []" "sound t (execution_keys sy @ crew_executions h) (reported sy)
      (kill_keys sy @ crew_kills h) (submit_keys sy)"
    and "send_if_needed mailbox_empty t = Some (server_of sy)" "list_all from_actor (mailbox sy)"
  shows "system_sound (start_actors sy)"
proof (rule start_actors_sound[OF assms(5)])
  obtain K where "hires [] t (server_of sy)" using send_prunes[OF assms(4)] by blast
  then have "crew (server_of sy) = h" using assms(1,2) by (simp add: hires_def)
  then show "sound (server_of sy) (execution_keys sy @ crew_executions (crew (server_of sy))) (reported sy)
      (kill_keys sy @ crew_kills (crew (server_of sy))) (submit_keys sy)"
    using sound_sent[OF assms(3,4)] by simp
qed

lemma outside_same: "outside m \<Longrightarrow> handle_ip sx m s = Some t \<Longrightarrow> same_books s t"
  using on_ready_same(2)[of s] by (cases m) (auto intro: on_submitter_same on_requests_same)

text \<open>A message that was taken out of the mailbox.\<close>

lemma received_sound:
  assumes "system_sound sy" "mailbox sy = ms @ m # ms'" "handle_ip sx m (server_of sy) = Some t"
    and "sy' = sy\<lparr>server_of := u, mailbox := ms @ ms'\<rparr>"
  shows "hires [] (server_of sy) t \<and> sound t (execution_keys sy') (reported sy') (kill_keys sy') (submit_keys sy')"
proof -
  have so: "sound (server_of sy) (execution_keys sy) (reported sy) (kill_keys sy) (submit_keys sy)"
    using assms(1) by (simp add: system_sound_def)
  note d = soundD(3,5,7,12)[OF so]
  obtain a b where k: "kill_keys sy = a @ killed_in m @ b" "kill_keys sy' = a @ b"
    by (rule that[of "concat (map killed_in ms)"]) (simp_all add: kill_keys_def assms(2,4))
  obtain a' b' where u: "submit_keys sy = a' @ submitted_in m @ b'" "submit_keys sy' = a' @ b'"
    by (rule that[of "concat (map submitted_in ms)"]) (simp_all add: submit_keys_def assms(2,4))
  obtain a'' b'' where r: "reported sy = a'' @ reported_by m @ b''" "reported sy' = a'' @ b''"
    by (rule that[of "concat (map reported_by ms)"]) (simp_all add: reported_def assms(2,4))
  have ex: "execution_keys sy' = execution_keys sy" by (simp add: execution_keys_def assms(4))
  have "from_actor m" using assms(1,2) by (simp add: system_sound_def)
  then show ?thesis
  proof (cases m)
    case (Job_submitted n jis)
    have "hires [] (server_of sy) t \<and> sound t (execution_keys sy) (reported sy) (kill_keys sy) (submit_keys sy')"
      by (rule submitted_sound[OF so, of sx n jis]) (use Job_submitted assms(3) u d(4) in auto)
    then show ?thesis using Job_submitted k r ex by simp
  next
    case (Job_completed ji)
    have "hires [] (server_of sy) t \<and> sound t (execution_keys sy) (reported sy') (kill_keys sy) (submit_keys sy)"
      by (rule completed_sound[OF so, of sx ji]) (use Job_completed assms(3) r d(2) in auto)
    then show ?thesis using Job_completed k u ex by simp
  next
    case (Killing_done msgs ack)
    have "hires [] (server_of sy) t \<and> sound t (execution_keys sy) (reported sy) (kill_keys sy') (submit_keys sy)"
      by (rule killing_done_sound[OF so, of sx msgs ack]) (use Killing_done assms(3) k d(3) in auto)
    then show ?thesis using Killing_done r u ex by simp
  qed simp_all
qed

text \<open>The first message of the scheduler's queue.\<close>

lemma obeyed_sound:
  assumes "sound s ex ends ks ts" "queue_of s = (date, m) # queue" "s1 = s\<lparr>base := (base s)\<lparr>server_mailbox := queue\<rparr>\<rparr>"
    and "trusted m s1 ex" "handle_scheduler sx m s1 = Some t"
  shows "\<exists>h. hires h s1 t \<and> sound t (ex @ crew_executions h) ends (ks @ crew_kills h) ts"
proof (cases "registered_keys m")
  case Nil
  then have "announced s1 = announced s" using assms(2,3) by (simp add: announced_in_def)
  then have "sound s1 ex ends ks ts" using assms(3) by (intro sound_frame[OF assms(1)]) (simp_all add: gone_jobs_def)
  then show ?thesis using handle_scheduler_sound[OF _ assms(5,4) Nil] by blast
next
  case (Cons k ks')
  then obtain ji x where m: "m = JOB_REGISTERED_BY_DP ji x" by (cases m) simp_all
  have "hires [] s1 t \<and> sound t ex ends ks ts"
    using register_sound[OF assms(1) _ assms(3), of date ji x sx t] assms(2,5) m by simp
  then show ?thesis by (intro exI[of _ "[]"]) simp
qed


subsection \<open>Every step keeps the invariant\<close>

lemma job_step_sound:
  assumes "system_sound sy" "hires [] (server_of sy) (server_of sy')" "list_all from_actor (mailbox sy')"
    "sound (server_of sy') (execution_keys sy') (reported sy') (kill_keys sy') (submit_keys sy')"
  shows "system_sound sy'"
  using assms by (simp add: system_sound_def hires_def)

lemma finishes_sound:
  assumes "system_sound sy" "executors sy = xs @ (al, True) # xs'" "job_finishes al rc (server_of sy) = Some (ms, st)"
  shows "system_sound (sy\<lparr>server_of := st, mailbox := mailbox sy @ ms, executors := xs @ xs'\<rparr>)" (is "system_sound ?sy")
proof -
  have so: "sound (server_of sy) (execution_keys sy) (reported sy) (kill_keys sy) (submit_keys sy)"
    and fa: "list_all from_actor (mailbox sy)" using assms(1) by (simp_all add: system_sound_def)
  note d = soundD[OF so]
  let ?k = "key_of (sa_job al)"
  have ex: "execution_keys sy = execution_keys (sy\<lparr>executors := xs\<rparr>) @ ?k # execution_keys (sy\<lparr>executors := xs'\<rparr>)"
      "execution_keys ?sy = execution_keys (sy\<lparr>executors := xs\<rparr>) @ execution_keys (sy\<lparr>executors := xs'\<rparr>)"
    by (simp_all add: execution_keys_def assms(2))
  have run: "?k \<in> running_jobs (job_map (server_of sy))" using d(4) ex(1) by auto
  obtain n ji where n: "is_complete n" "moves {(?k, JOB_STATE_RUNNING, n)} (server_of sy) st" "hires [] (server_of sy) st"
      "?k \<in> jobs_in (\<lambda>x. x = n) (job_map st)"
      "ms = (if n = JOB_STATE_COMPLETED_KILLED then [] else [Job_completed ji])" "key_of ji = ?k"
    using job_finishes_moves[OF d(1) assms(3) run] by blast
  have an: "announced st = announced (server_of sy)" by (rule announced_hires[OF n(3)])
  have "runs (sa_job al) (server_of sy)"
    using run by (auto simp: runs_def job_at_map jobs_in_def)
  then have b: "books st (insert ?k (unheard (server_of sy))) (set (announced st))"
    using job_finishes_books[OF d(1) assms(3)] an by simp
  have ms: "reported ?sy = (if n = JOB_STATE_COMPLETED_KILLED then reported sy else reported sy @ [?k])"
      "kill_keys ?sy = kill_keys sy" "submit_keys ?sy = submit_keys sy" "list_all from_actor (mailbox ?sy)"
    using fa by (simp_all add: reported_def kill_keys_def submit_keys_def n(5,6))
  have "sound st (execution_keys ?sy) (reported ?sy) (kill_keys sy) (submit_keys sy)"
    by (rule sound_ended[OF so n(2,1) run b an _ _ ms(1) n(4)]) (use d(3) ex in auto)
  then show ?thesis using n(3) ms by (intro job_step_sound[OF assms(1)]) simp_all
qed

lemma kills_sound:
  assumes "system_sound sy" "killers sy = xs @ (killed, km # kms) # xs'" "kill_one tasks km (server_of sy) = Some (r, st)"
  shows "system_sound (sy\<lparr>server_of := st, killers := xs @ (killed @ [r], kms) # xs',
      executors := filter (\<lambda>x. key_of (sa_job (fst x)) \<notin> killed_by km (server_of sy) st) (executors sy)\<rparr>)"
    (is "system_sound ?sy")
proof -
  have so: "sound (server_of sy) (execution_keys sy) (reported sy) (kill_keys sy) (submit_keys sy)"
    and fa: "list_all from_actor (mailbox sy)" using assms(1) by (simp_all add: system_sound_def)
  note d = soundD[OF so]
  have ex: "execution_keys ?sy = filter (\<lambda>k. k \<notin> killed_by km (server_of sy) st) (execution_keys sy)"
    by (simp add: execution_keys_def filter_map comp_def)
  have rest: "reported ?sy = reported sy" "submit_keys ?sy = submit_keys sy" "mailbox ?sy = mailbox sy"
    by (simp_all add: reported_def submit_keys_def)
  show ?thesis
    using d(1) assms(3)
  proof (cases rule: kill_one_moves)
    case alone
    have "kill_keys ?sy = kill_keys sy" "execution_keys ?sy = execution_keys sy"
      using ex alone by (simp_all add: kill_keys_def assms(2))
    then show ?thesis using so fa rest alone(1) by (intro job_step_sound[OF assms(1)]) (simp_all add: hires_def)
  next
    case killed
    let ?k = "key_of (km_id km)"
    have kk: "kill_keys ?sy = kill_keys sy" using killed(2) by (simp add: kill_keys_def assms(2))
    have an: "announced st = announced (server_of sy)" by (rule announced_hires[OF killed(5)])
    have b: "books st (insert ?k (unheard (server_of sy))) (set (announced st))"
      using kill_one_books[OF d(1) assms(3)] killed(1) an by simp
    have "sound st (execution_keys ?sy) (reported sy) (kill_keys sy) (submit_keys sy)"
      by (rule sound_ended[OF so killed(4) _ killed(3) b an _ _ _ killed(6)])
        (use d(3) ex killed(1) in auto)
    then show ?thesis using killed(5) kk rest fa by (intro job_step_sound[OF assms(1)]) simp_all
  qed
qed

lemma step_sound:
  assumes "system_step sx ld fmt sy sy'" "system_sound sy"
  shows "system_sound sy'"
proof -
  have so: "sound (server_of sy) (execution_keys sy) (reported sy) (kill_keys sy) (submit_keys sy)"
    and cr: "crew (server_of sy) = []" and fa: "list_all from_actor (mailbox sy)"
    using assms(2) by (simp_all add: system_sound_def)
  note d = soundD[OF so]
  have reader: "system_sound (sy\<lparr>server_of := (server_of sy)\<lparr>base := c\<rparr>\<rparr>)"
    if "sound ((server_of sy)\<lparr>base := c\<rparr>) (execution_keys sy) (reported sy) (kill_keys sy) (submit_keys sy)" for c
    using that cr fa
    by (simp add: system_sound_def execution_keys_def reported_def kill_keys_def submit_keys_def)
  have clock: "system_sound (sy\<lparr>server_of := (server_of sy)\<lparr>base := c\<rparr>\<rparr>)"
    if "ctx_workloads c = ws_of (server_of sy)" "announced_in c = announced (server_of sy)" for c
    by (rule reader, rule sound_frame[OF so]) (use that in \<open>simp_all add: gone_jobs_def\<close>)
  show ?thesis
    using assms(1)
  proof cases
    case (receives ms m ms' me st)
    obtain t where t: "handle_ip sx m (server_of sy) = Some t" "send_if_needed me t = Some st"
      using receives(3) by (auto simp: server_turn_def split: bind_splits)
    note r = received_sound[OF assms(2) receives(2) t(1) refl, of st]
    show ?thesis unfolding receives(1)
      by (rule turn_sound[OF conjunct1[OF r] cr, where mailbox_empty = me])
        (use r t(2) fa receives(2) in simp_all)
  next
    case (obeys st0 date m queue st1 me st)
    obtain t where t: "handle_scheduler sx m st1 = Some t" "send_if_needed me t = Some st"
      using obeys(6) by (auto simp: server_turn_def split: bind_splits)
    have so0: "sound st0 (execution_keys sy) (reported sy) (kill_keys sy) (submit_keys sy)" using so obeys(2) by simp
    obtain h where h: "hires h st1 t" "sound t (execution_keys sy @ crew_executions h) (reported sy)
        (kill_keys sy @ crew_kills h) (submit_keys sy)"
      using obeyed_sound[OF so0 obeys(3,4,5) t(1)] by blast
    have keys: "execution_keys (sy\<lparr>server_of := st\<rparr>) = execution_keys sy" "reported (sy\<lparr>server_of := st\<rparr>) = reported sy"
        "kill_keys (sy\<lparr>server_of := st\<rparr>) = kill_keys sy" "submit_keys (sy\<lparr>server_of := st\<rparr>) = submit_keys sy"
      by (simp_all add: execution_keys_def reported_def kill_keys_def submit_keys_def)
    have "crew st1 = []" using cr obeys(2,4) by simp
    then show ?thesis unfolding obeys(1)
      using turn_sound[OF h(1), of "sy\<lparr>server_of := st\<rparr>" me] h(2) t(2) fa by (simp only: keys) simp
  next
    case (hears m me st)
    obtain t where t: "handle_ip sx m (server_of sy) = Some t" "send_if_needed me t = Some st"
      using hears(3) by (auto simp: server_turn_def split: bind_splits)
    note so1 = sound_same[OF so outside_same[OF hears(2) t(1)]]
    have keys: "execution_keys (sy\<lparr>server_of := st\<rparr>) = execution_keys sy" "reported (sy\<lparr>server_of := st\<rparr>) = reported sy"
        "kill_keys (sy\<lparr>server_of := st\<rparr>) = kill_keys sy" "submit_keys (sy\<lparr>server_of := st\<rparr>) = submit_keys sy"
      by (simp_all add: execution_keys_def reported_def kill_keys_def submit_keys_def)
    show ?thesis unfolding hears(1)
      by (rule turn_sound[OF so1(2) cr, where mailbox_empty = me]) (use so1(1) t(2) fa in \<open>simp_all add: keys\<close>)
  next
    case (begins xs al xs' st)
    note m = job_begins_moves[OF d(1) begins(3)]
    have "execution_keys sy' = execution_keys sy" "reported sy' = reported sy" "kill_keys sy' = kill_keys sy"
        "submit_keys sy' = submit_keys sy" "server_of sy' = st" "mailbox sy' = mailbox sy"
      by (simp_all add: begins(1,2) execution_keys_def reported_def kill_keys_def submit_keys_def)
    moreover have "sound st (execution_keys sy) (reported sy) (kill_keys sy) (submit_keys sy)"
      by (rule sound_decided[OF so m job_begins_books[OF d(1) begins(3)]]) (use d(3) in simp_all)
    ultimately show ?thesis using m fa by (intro job_step_sound[OF assms(2)]) simp_all
  next
    case (finishes xs al xs' rc ms st)
    show ?thesis unfolding finishes(1) by (rule finishes_sound[OF assms(2) finishes(2,3)])
  next
    case (kills xs killed km kms xs' tasks r st)
    show ?thesis unfolding kills(1) by (rule kills_sound[OF assms(2) kills(2,3)])
  next
    case (has_killed xs killed xs')
    obtain a b k c where "kill_keys sy = a @ b @ k @ c" "kill_keys sy' = a @ k @ b @ c"
      by (rule that[of "concat (map killed_in (mailbox sy))" "concat (map (\<lambda>x. keys_of (map fst (fst x) @ snd x)) xs)"
            "keys_of (map fst killed)" "concat (map (\<lambda>x. keys_of (map fst (fst x) @ snd x)) xs')"])
        (simp_all add: has_killed(1,2) kill_keys_def)
    then have keys: "set (kill_keys sy') = set (kill_keys sy)" "distinct (kill_keys sy')"
      using d(7) by auto
    have "execution_keys sy' = execution_keys sy" "reported sy' = reported sy" "submit_keys sy' = submit_keys sy"
        "server_of sy' = server_of sy"
      by (simp_all add: has_killed(1) execution_keys_def reported_def submit_keys_def)
    then show ?thesis
      using sound_same_sets[OF so, of "execution_keys sy'" "reported sy'" "kill_keys sy'" "submit_keys sy'"] keys d fa
      by (intro job_step_sound[OF assms(2)]) (simp_all add: has_killed(1) hires_def)
  next
    case (submits xs n jis later xs')
    obtain a b k c where "submit_keys sy = a @ b @ k @ c" "submit_keys sy' = a @ k @ b @ c"
      by (rule that[of "concat (map submitted_in (mailbox sy))" "concat (map (\<lambda>x. map key_of (snd x)) xs)"
            "map key_of jis" "map key_of later @ concat (map (\<lambda>x. map key_of (snd x)) xs')"])
        (simp_all add: submits(1,2) submit_keys_def)
    then have keys: "set (submit_keys sy') = set (submit_keys sy)" "distinct (submit_keys sy')"
      using d(12) by auto
    have "execution_keys sy' = execution_keys sy" "reported sy' = reported sy" "kill_keys sy' = kill_keys sy"
        "server_of sy' = server_of sy"
      by (simp_all add: submits(1) execution_keys_def reported_def kill_keys_def)
    then show ?thesis
      using sound_same_sets[OF so, of "execution_keys sy'" "reported sy'" "kill_keys sy'" "submit_keys sy'"] keys d fa
      by (intro job_step_sound[OF assms(2)]) (simp_all add: submits(1) hires_def)
  next
    case (reads now ev c)
    show ?thesis unfolding reads(1) by (rule reader, rule sound_reads[OF so event_grows[OF reads(2)]])
  next
    case (has_read c now)
    show ?thesis unfolding has_read(1) by (rule clock) (simp_all add: has_read(2))
  next
    case (passes c date)
    show ?thesis unfolding passes(1) by (rule clock) (simp_all add: passes(2))
  qed
qed

lemma opened_sound:
  assumes "opened sy"
  shows "system_sound sy"
proof -
  let ?s = "server_of sy"
  have o: "nb_completed_jobs ?s = 0" "nb_submitted_jobs ?s = 0" "nb_running_jobs ?s = 0" "jobs_to_be_deleted ?s = []"
      "queue_of ?s = []" "keyed (job_map ?s)" "mailbox sy = []" "executors sy = []" "killers sy = []" "crew ?s = []"
      "distinct (submit_keys sy)" "set (submit_keys sy) \<subseteq> dom (job_map ?s)"
    using assms unfolding opened_def Let_def by simp_all
  have n: "sj_state j = JOB_STATE_NOT_SUBMITTED" "met (ws_of ?s) k" if "job_map ?s k = Some j" for k j
    using assms that unfolding opened_def Let_def by blast+
  have none: "jobs_in P (job_map ?s) = {}" if "\<not> P JOB_STATE_NOT_SUBMITTED" for P
    using n(1) that by (auto simp: jobs_in_def)
  have fresh: "set (submit_keys sy) \<subseteq> fresh_jobs (job_map ?s)" using o(12) n(1) by (auto simp: jobs_in_def)
  have an: "announced ?s = []" using o(5) by (simp add: announced_in_def)
  have "books_ok (job_map ?s) 0 0 0 {} {} {}"
    using o(6) none by (intro booksI) simp_all
  then have b: "books ?s {} (set (announced ?s))" using o(1-4) n(2) an by (auto simp: books_def gone_jobs_def)
  have "sound ?s [] [] [] (submit_keys sy)"
    by (rule soundI[OF b]) (use an none fresh o(11) in simp_all)
  then show ?thesis using o
    by (simp add: system_sound_def execution_keys_def reported_def kill_keys_def)
qed

lemma server_start_opened:
  assumes "server_start sx ord config n s = Some t" "keyed (job_map s)" "queue_of s = []" "crew s = []"
    "\<forall>k j. job_map s k = Some j \<longrightarrow> sj_state j = JOB_STATE_NOT_SUBMITTED \<and> met (ws_of s) k"
    "distinct (concat (map (\<lambda>x. map key_of (snd x)) ts))" "set (concat (map (\<lambda>x. map key_of (snd x)) ts)) \<subseteq> dom (job_map s)"
  shows "opened \<lparr>server_of = t, mailbox = [], executors = [], killers = [], to_submit = ts\<rparr>"
proof -
  obtain s1 s2 where f: "same_books s s1" "same_books s1 s2"
    and t: "nb_completed_jobs t = 0" "nb_submitted_jobs t = 0" "nb_running_jobs t = 0" "jobs_to_be_deleted t = []"
      "ws_of t = ws_of s2" "queue_of t = queue_of s2" "crew t = crew s2"
    using assms(1) unfolding server_start_def Let_def
    by (auto dest!: on_proto_same generate_same split: bind_splits)
  have "ws_of t = ws_of s" "queue_of t = queue_of s" "crew t = crew s" using f t(5-7) by (simp_all add: same_books_def)
  then show ?thesis using assms(2-7) t(1-4) by (simp add: opened_def submit_keys_def del: split_paired_All)
qed

lemma reachable_sound: "system_reachable sx ld fmt sy0 sy \<Longrightarrow> opened sy0 \<Longrightarrow> system_sound sy"
  by (induction rule: system_reachable.induct) (auto intro: opened_sound step_sound)

definition same_accounts :: "server \<Rightarrow> server \<Rightarrow> bool" where
  "same_accounts s t \<longleftrightarrow> nb_running_jobs t = nb_running_jobs s \<and> nb_switching_machines t = nb_switching_machines s \<and>
     nb_killers t = nb_killers s \<and> nb_waiters t = nb_waiters s \<and> nb_completed_jobs t = nb_completed_jobs s \<and>
     nb_submitted_jobs t = nb_submitted_jobs s"

subsection \<open>A run\<close>

text \<open>
  One machine and one job of a static workload: the job is submitted, executed and reported, and its
  submitter says goodbye.
\<close>

definition demo_waiting_job :: sim_job where
  "demo_waiting_job = \<lparr>sj_id = \<lparr>workload_name = ''w0'', job_name = ''1'', job_number = 1\<rparr>,
     sj_state = JOB_STATE_NOT_SUBMITTED, sj_json = [], sj_profile = Sim_Profile ''p'' DELAY [] 0 [],
     sj_requested_nb_res = 1, sj_walltime = 10, sj_submission_time = 0, sj_starting_time = - 1,
     sj_runtime = - 1, sj_allocation = {}, sj_return_code = - 1, sj_kill_requested = False,
     sj_metadata = [], sj_batsim_metadata = [], sj_incoming_messages = [],
     sj_original_walltime = 100, sj_checkpoint = no_checkpoint\<rparr>"

definition demo_workload_map :: "sim_job \<Rightarrow> workloads" where
  "demo_workload_map j = [''w0'' \<mapsto> \<lparr>sw_name = ''w0'', sw_static = True, sw_file = ''w0.json'',
     sw_jobs = [''w0!1'' \<mapsto> j], sw_jobs_met = {''w0!1''},
     sw_profiles = [''p'' \<mapsto> Some (Sim_Profile ''p'' DELAY [] 0 [])]\<rparr>]"

definition demo_node :: machine where
  "demo_node = \<lparr>m_id = 0, m_name = ''a0'', m_permissions = COMPUTE_NODE, m_state = IDLE, m_jobs = {},
     m_pstates = Map.empty, m_sleep_pstates = Map.empty, m_host_pstate = 0, last_state_change_date = 0,
     time_spent_in_each_state = (\<lambda>st. 0), m_speed = 100, m_core_count = 1, m_repair_time = 0,
     m_properties = [], m_zone_properties = []\<rparr>"

definition demo_server :: server where
  "demo_server = \<lparr>nb_completed_jobs = 0, nb_submitted_jobs = 0, nb_running_jobs = 0, nb_killed_jobs = 0,
     nb_workflow_submitters_finished = 0, nb_switching_machines = 0, nb_waiters = 0, nb_killers = 0,
     sched_ready = True, end_of_simulation_sent = False, end_of_simulation_ack_received = False,
     submitters = Map.empty,
     submitter_counters = (\<lambda>t. \<lparr>expected_nb_submitters = if t = JOB_SUBMITTER then 1 else 0,
       nb_submitters = 0, nb_submitters_finished = 0\<rparr>),
     origin_of_jobs = Map.empty, jobs_to_be_deleted = [],
     base = \<lparr>clock = 0, ctx_workloads = demo_workload_map demo_waiting_job, redis_enabled = True,
       registration_sched_enabled = False, registration_sched_finished = False, queue_size = - 1,
       schedule_size = - 1, ctx_nb_running_jobs = 0, utilization = 0, utilization_no_resv = 0,
       batsched_PID = 0, checkpoint_keep = 1, nb_checkpoints = 0, server_mailbox = []\<rparr>,
     proto_writer = new_sim_writer,
     platform = \<lparr>all_machines = [demo_node], nb_machines_in_each_state = (\<lambda>s. if s = IDLE then 1 else 0)\<rparr>,
     current_switches = Map.empty, energy_used = False, allow_compute_sharing = False,
     allow_storage_sharing = True, submission_forward_profiles = False, registration_sched_ack = False,
     garbage_collect_profiles = False, terminate_with_last_workflow = False, nb_workflows = 0,
     nb_grouped_switches = 0, nb_machine_switches = 0, sim_call_me_laters = [], outbox = [], spawned = []\<rparr>"

definition demo_system :: system where
  "demo_system = \<lparr>server_of = demo_server, mailbox = [], executors = [], killers = [],
     to_submit = [(''s'', [sj_id demo_waiting_job])]\<rparr>"

definition demo_externals :: server_externals where
  "demo_externals = \<lparr>sx_parse = (\<lambda>s. None), sx_format = std_format, sx_consumed_energy = 0\<rparr>"

definition no_loaders :: loaders where
  "no_loaders = \<lparr>load_job = (\<lambda>s w. None), load_profile = (\<lambda>n s. None), document_text = (\<lambda>d. []),
     redis_get = (\<lambda>k. None)\<rparr>"

definition demo_allocation :: scheduling_allocation where
  "demo_allocation = \<lparr>sa_job = sj_id demo_waiting_job, sa_machine_ids = {0}, sa_mapping = [],
     sa_storage_mapping = [], sa_io_allocation = {}, sa_io_profile = None\<rparr>"

text \<open>The server of the run while its submitter is there, with the job and the machine as they are.\<close>

definition demo_with :: "sim_job \<Rightarrow> sim_machines \<Rightarrow> sim_writer \<Rightarrow> server" where
  "demo_with j pf w = demo_server\<lparr>submitters := [''s'' \<mapsto> False],
     submitter_counters := (submitter_counters demo_server)(JOB_SUBMITTER :=
       \<lparr>expected_nb_submitters = 1, nb_submitters = 1, nb_submitters_finished = 0\<rparr>),
     base := (base demo_server)\<lparr>ctx_workloads := demo_workload_map j\<rparr>, platform := pf, proto_writer := w\<rparr>"

lemma demo_opened: "opened demo_system"
proof -
  have "jobs_map (demo_workload_map demo_waiting_job) k = (if k = (''w0'', ''w0!1'') then Some demo_waiting_job else None)" for k
    by (cases k) (simp add: jobs_map_def demo_workload_map_def)
  then have jm: "jobs_map (demo_workload_map demo_waiting_job) = [(''w0'', ''w0!1'') \<mapsto> demo_waiting_job]" by (intro ext) simp
  have ws: "ws_of demo_server = demo_workload_map demo_waiting_job" by (simp add: demo_server_def)
  have key: "key_of (sj_id demo_waiting_job) = (''w0'', ''w0!1'')"
    by (simp add: key_of_def representation_def demo_waiting_job_def)
  have "keyed (jobs_map (demo_workload_map demo_waiting_job))"
    unfolding jm by (rule keyed_upd) (simp_all add: keyed_def key)
  moreover have "met (demo_workload_map demo_waiting_job) (''w0'', ''w0!1'')"
    by (simp add: met_def demo_workload_map_def)
  moreover have "sj_state demo_waiting_job = JOB_STATE_NOT_SUBMITTED" by (simp add: demo_waiting_job_def)
  moreover have "nb_completed_jobs demo_server = 0" "nb_submitted_jobs demo_server = 0" "nb_running_jobs demo_server = 0"
      "jobs_to_be_deleted demo_server = []" "queue_of demo_server = []" "spawned demo_server = []"
    by (simp_all add: demo_server_def)
  moreover have "submit_keys demo_system = [(''w0'', ''w0!1'')]"
    by (simp add: submit_keys_def demo_system_def key)
  moreover have "server_of demo_system = demo_server" "mailbox demo_system = []" "executors demo_system = []"
      "killers demo_system = []" by (simp_all add: demo_system_def)
  ultimately show ?thesis unfolding opened_def Let_def by (simp add: ws jm del: split_paired_All)
qed

abbreviation demo_reachable :: "system \<Rightarrow> bool" where
  "demo_reachable \<equiv> system_reachable demo_externals no_loaders std_format demo_system"

lemmas demo_state = demo_with_def demo_server_def demo_workload_map_def demo_waiting_job_def
lemmas demo_turn = server_turn_def send_if_needed_def write_job_def set_job_def job_at_def jobs_at_def
  representation_def on_proto_def Let_def start_actors_def

lemma submitted_by_redis: "append_job_submitted parse ws True forward i jd pd date w =
    append_dated ''JOB_SUBMITTED'' (JObject [(''job_id'', JString i)]) date w"
  by (simp add: append_job_submitted_def)

lemma demo_submitted:
  obtains w where "demo_reachable \<lparr>server_of = (demo_with (demo_waiting_job\<lparr>sj_state := JOB_STATE_SUBMITTED\<rparr>)
      (platform demo_server) w)\<lparr>nb_submitted_jobs := 1\<rparr>, mailbox = [], executors = [], killers = [],
      to_submit = [(''s'', [])]\<rparr>" "sw_events w \<noteq> None" "sw_last_date w = 0"
proof -
  let ?ji = "sj_id demo_waiting_job"
  have "server_turn demo_externals (Submitter_hello ''s'' False JOB_SUBMITTER) False (server_of demo_system) =
      Some (demo_with demo_waiting_job (platform demo_server) new_sim_writer)"
    by (simp add: demo_turn server_on_submitter_hello_def demo_system_def demo_state)
  from system_reachable.step[OF system_reachable.start system_step.hears[OF _ this]]
  have "demo_reachable \<lparr>server_of = demo_with demo_waiting_job (platform demo_server) new_sim_writer,
      mailbox = [], executors = [], killers = [], to_submit = [(''s'', [?ji])]\<rparr>" (is "demo_reachable ?sy")
    by (simp add: start_actors_def Let_def demo_system_def demo_state)
  from system_reachable.step[OF this system_step.submits[of ?sy "[]" "''s''" "[?ji]" "[]"]]
  have sub: "demo_reachable \<lparr>server_of = demo_with demo_waiting_job (platform demo_server) new_sim_writer,
      mailbox = [Job_submitted ''s'' [?ji]], executors = [], killers = [], to_submit = [(''s'', [])]\<rparr>" (is "demo_reachable ?sy")
    by simp
  obtain w where w: "append_dated ''JOB_SUBMITTED'' (JObject [(''job_id'', JString ''w0!1'')]) 0 new_sim_writer = Some w"
      "sw_events w \<noteq> None" "sw_last_date w = 0"
    by (simp add: append_dated_def push_event_def new_sim_writer_def)
  have "server_turn demo_externals (Job_submitted ''s'' [?ji]) False (server_of ?sy) =
      Some ((demo_with (demo_waiting_job\<lparr>sj_state := JOB_STATE_SUBMITTED\<rparr>) (platform demo_server) w)\<lparr>nb_submitted_jobs := 1\<rparr>)"
    using w(1) by (simp add: demo_turn server_on_job_submitted_def submit_one_def tell_job_submitted_def submitted_by_redis demo_state)
  from system_reachable.step[OF sub system_step.receives[of ?sy "[]" _ "[]", OF _ this]]
  have "demo_reachable \<lparr>server_of = (demo_with (demo_waiting_job\<lparr>sj_state := JOB_STATE_SUBMITTED\<rparr>)
      (platform demo_server) w)\<lparr>nb_submitted_jobs := 1\<rparr>, mailbox = [], executors = [], killers = [],
      to_submit = [(''s'', [])]\<rparr>"
    by (simp add: start_actors_def Let_def demo_state)
  then show thesis using that w(2,3) by blast
qed

text \<open>The scheduler has the job executed on the machine.\<close>

definition demo_event :: json where
  "demo_event = JObject [(''timestamp'', JDouble 0), (''type'', JString ''EXECUTE_JOB''),
     (''data'', JObject [(''job_id'', JString ''w0!1''), (''alloc'', JString (to_hyphen std_format {0}))])]"

lemma demo_event_read:
  assumes "job_at (sj_id demo_waiting_job) (ctx_workloads c) = Some j" "sj_id j = sj_id demo_waiting_job" "clock c = 0"
  shows "parse_and_apply_event no_loaders std_format 0 demo_event c =
    Some (c\<lparr>server_mailbox := server_mailbox c @ [(0, SCHED_EXECUTE_JOB demo_allocation)]\<rparr>)"
proof -
  have "from_hyphen std_format (to_hyphen std_format {0}) = Some {0}" by (rule std.from_to) simp_all
  then show ?thesis
    using assms(1,2,3)
    by (simp add: parse_and_apply_event_def demo_event_def json_simps handler_def handle_execute_job_def
        demo_identifier demo_waiting_job_def send_message_at_time_def Let_def demo_allocation_def)
qed

lemma demo_executed:
  obtains w where "demo_reachable \<lparr>server_of = (demo_with (demo_waiting_job\<lparr>sj_state := JOB_STATE_RUNNING\<rparr>)
      (platform demo_server) w)\<lparr>nb_submitted_jobs := 1, nb_running_jobs := 1\<rparr>, mailbox = [],
      executors = [(demo_allocation, False)], killers = [], to_submit = [(''s'', [])]\<rparr>"
    "sw_events w \<noteq> None" "sw_last_date w = 0"
proof -
  let ?j = "demo_waiting_job\<lparr>sj_state := JOB_STATE_SUBMITTED\<rparr>"
  obtain w where w: "demo_reachable \<lparr>server_of = (demo_with ?j (platform demo_server) w)\<lparr>nb_submitted_jobs := 1\<rparr>,
      mailbox = [], executors = [], killers = [], to_submit = [(''s'', [])]\<rparr>" (is "demo_reachable ?sy")
      "sw_events w \<noteq> None" "sw_last_date w = 0" by (rule demo_submitted)
  have j: "job_at (sj_id demo_waiting_job) (ws_of (server_of ?sy)) = Some ?j"
    by (simp add: job_at_def jobs_at_def representation_def demo_state)
  have "clock (base (server_of ?sy)) = 0" by (simp add: demo_state)
  from system_reachable.step[OF w(1) system_step.reads[OF demo_event_read[OF j _ this]]]
  have r: "demo_reachable (?sy\<lparr>server_of := (server_of ?sy)\<lparr>base := (base (server_of ?sy))\<lparr>server_mailbox :=
      [(0, SCHED_EXECUTE_JOB demo_allocation)]\<rparr>\<rparr>\<rparr>)" (is "demo_reachable ?sy'")
    by (simp add: demo_state)
  let ?t = "(demo_with (demo_waiting_job\<lparr>sj_state := JOB_STATE_RUNNING\<rparr>) (platform demo_server) w)
      \<lparr>nb_submitted_jobs := 1, nb_running_jobs := 1, spawned := [Execute_job demo_allocation]\<rparr>"
  have q: "queue_of (server_of ?sy') = [(0, SCHED_EXECUTE_JOB demo_allocation)]" by simp
  have t: "server_turn demo_externals (From_scheduler (SCHED_EXECUTE_JOB demo_allocation)) False
      ((server_of ?sy')\<lparr>base := (base (server_of ?sy'))\<lparr>server_mailbox := []\<rparr>\<rparr>) = Some ?t"
    by (simp add: demo_turn server_on_execute_job_def demo_allocation_def demo_state check_sharing_def
        check_can_compute_def machine_at_def demo_node_def has_role_def STORAGE_def COMPUTE_NODE_def spawn_def)
  have tr: "trusted (SCHED_EXECUTE_JOB demo_allocation)
      ((server_of ?sy')\<lparr>base := (base (server_of ?sy'))\<lparr>server_mailbox := []\<rparr>\<rparr>) (execution_keys ?sy')"
    by (simp add: announced_in_def)
  from system_reachable.step[OF r system_step.obeys[OF refl q refl tr t]]
  have "demo_reachable \<lparr>server_of = ?t\<lparr>spawned := []\<rparr>, mailbox = [], executors = [(demo_allocation, False)],
      killers = [], to_submit = [(''s'', [])]\<rparr>"
    by (simp add: start_actors_def Let_def)
  moreover have "?t\<lparr>spawned := []\<rparr> = (demo_with (demo_waiting_job\<lparr>sj_state := JOB_STATE_RUNNING\<rparr>) (platform demo_server) w)
      \<lparr>nb_submitted_jobs := 1, nb_running_jobs := 1\<rparr>"
    by (simp add: demo_with_def demo_server_def)
  ultimately show thesis using that w(2,3) by simp
qed


text \<open>The job begins and ends; its report is on the way.\<close>

definition demo_ended_job :: sim_job where
  "demo_ended_job = demo_waiting_job\<lparr>sj_state := JOB_STATE_COMPLETED_SUCCESSFULLY, sj_starting_time := 0,
     sj_allocation := {0}, sj_return_code := 0, sj_runtime := 1 / 10 ^ 5\<rparr>"

lemma demo_ended:
  obtains w pf where "demo_reachable \<lparr>server_of = (demo_with demo_ended_job pf w)\<lparr>nb_submitted_jobs := 1, nb_running_jobs := 1\<rparr>,
      mailbox = [Job_completed (sj_id demo_waiting_job)], executors = [], killers = [], to_submit = [(''s'', [])]\<rparr>"
    "sw_events w \<noteq> None" "sw_last_date w = 0"
proof -
  let ?j = "demo_waiting_job\<lparr>sj_state := JOB_STATE_RUNNING\<rparr>"
  let ?j1 = "demo_waiting_job\<lparr>sj_state := JOB_STATE_RUNNING, sj_starting_time := 0, sj_allocation := {0}\<rparr>"
  obtain w where w: "demo_reachable \<lparr>server_of = (demo_with ?j (platform demo_server) w)
      \<lparr>nb_submitted_jobs := 1, nb_running_jobs := 1\<rparr>, mailbox = [],
      executors = [(demo_allocation, False)], killers = [], to_submit = [(''s'', [])]\<rparr>" (is "demo_reachable ?sy")
      "sw_events w \<noteq> None" "sw_last_date w = 0" by (rule demo_executed)
  obtain pf1 pf2 where pf: "update_machines_on_job_run 0 ''w0!1'' {0} (platform demo_server) = Some pf1"
      "update_machines_on_job_end 0 ''w0!1'' {0} pf1 = Some pf2"
    by (simp add: update_machines_on_job_run_def for_machines_def job_runs_on_def update_machine_state_def machine_at_def
        demo_server_def demo_node_def put_machine_def update_nb_machines_in_each_state_def Let_def
        update_machines_on_job_end_def job_ends_on_def)
  have hosts: "executor_hosts demo_allocation (platform demo_server) = Some [demo_node]" "io_hosts demo_allocation (platform demo_server) = Some []"
    by (simp_all add: executor_hosts_def mapping_of_def demo_allocation_def allocated_machine_def machine_at_def
        demo_server_def io_hosts_def)
  have rep: "representation (sj_id demo_waiting_job) = ''w0!1''" by (simp add: representation_def demo_waiting_job_def)
  have b: "job_begins demo_allocation (server_of ?sy) = Some ((demo_with ?j1 pf1 w)\<lparr>nb_submitted_jobs := 1, nb_running_jobs := 1\<rparr>)"
    using pf(1) hosts
    by (simp add: job_begins_def demo_turn demo_state on_platform_def demo_allocation_def)
  from system_reachable.step[OF w(1) system_step.begins[of ?sy "[]" demo_allocation "[]", OF _ b]]
  have r: "demo_reachable \<lparr>server_of = (demo_with ?j1 pf1 w)\<lparr>nb_submitted_jobs := 1, nb_running_jobs := 1\<rparr>, mailbox = [],
      executors = [(demo_allocation, True)], killers = [], to_submit = [(''s'', [])]\<rparr>" (is "demo_reachable ?sy'")
    by simp
  have f: "job_finishes demo_allocation 0 (server_of ?sy') = Some ([Job_completed (sj_id demo_waiting_job)],
      (demo_with demo_ended_job pf2 w)\<lparr>nb_submitted_jobs := 1, nb_running_jobs := 1\<rparr>)"
    using pf(2)
    by (simp add: job_finishes_def demo_turn demo_state on_platform_def demo_allocation_def state_of_return_code_def
        demo_ended_job_def run_time_def)
  from system_reachable.step[OF r system_step.finishes[of ?sy' "[]" demo_allocation "[]", OF _ f]]
  have "demo_reachable \<lparr>server_of = (demo_with demo_ended_job pf2 w)\<lparr>nb_submitted_jobs := 1, nb_running_jobs := 1\<rparr>,
      mailbox = [Job_completed (sj_id demo_waiting_job)], executors = [], killers = [], to_submit = [(''s'', [])]\<rparr>"
    by simp
  then show thesis using that w(2,3) by blast
qed

text \<open>The report is received and the submitter says goodbye; the server sends what it has recorded.\<close>

lemma demo_finished:
  obtains sy x where "demo_reachable sy" "is_simulation_finished (server_of sy)" "nb_submitted_jobs (server_of sy) = 1"
    "nb_completed_jobs (server_of sy) = 1" "\<not> end_of_simulation_sent (server_of sy)"
    "send_if_needed True ((server_of sy)\<lparr>sched_ready := True\<rparr>) = Some x" "end_of_simulation_sent x"
proof -
  obtain w pf where w: "demo_reachable \<lparr>server_of = (demo_with demo_ended_job pf w)\<lparr>nb_submitted_jobs := 1, nb_running_jobs := 1\<rparr>,
      mailbox = [Job_completed (sj_id demo_waiting_job)], executors = [], killers = [], to_submit = [(''s'', [])]\<rparr>"
      (is "demo_reachable ?sy") "sw_events w \<noteq> None" "sw_last_date w = 0" by (rule demo_ended)
  obtain w1 where w1: "do { w0 \<leftarrow> append_job_completed ''w0!1'' ''COMPLETED_SUCCESSFULLY'' (to_hyphen std_format {0}) 0 0 w;
      append_batsim_metadata ''1'' [] 0 w0 } = Some w1" "sw_events w1 \<noteq> None" "sw_last_date w1 = 0"
    using w(2,3) by (auto simp: append_job_completed_def append_batsim_metadata_def append_dated_def push_event_def)
  let ?t = "(demo_with demo_ended_job pf w1)\<lparr>nb_submitted_jobs := 1, nb_completed_jobs := 1,
      jobs_to_be_deleted := [sj_id demo_waiting_job]\<rparr>"
  have t: "server_turn demo_externals (Job_completed (sj_id demo_waiting_job)) False (server_of ?sy) = Some ?t"
    using w1(1)
    by (auto simp: demo_turn server_on_job_completed_def call_submitter_back_def demo_state demo_ended_job_def
        completed_plus_running_ok_def tell_job_completed_def demo_externals_def split: bind_splits)
  from system_reachable.step[OF w(1) system_step.receives[of ?sy "[]" _ "[]", OF _ t]]
  have r: "demo_reachable \<lparr>server_of = ?t, mailbox = [], executors = [], killers = [], to_submit = [(''s'', [])]\<rparr>"
      (is "demo_reachable ?sy'")
    by (simp add: start_actors_def Let_def demo_with_def demo_server_def)
  obtain w2 where w2: "append_notify ''no_more_static_job_to_submit'' 0 w1 = Some w2" "sw_events w2 \<noteq> None"
      "sw_last_date w2 = 0" "\<not> sw_is_empty w2"
    using w1(2,3) by (auto simp: append_notify_def append_dated_def push_event_def)
  obtain doc w3 where w3: "sim_generate_message 0 w2 = Some (doc, w3)" "sw_last_date w3 = 0"
    using w2(2,3) by (auto simp: sim_generate_message_def)
  obtain u where u: "server_turn demo_externals (Submitter_bye ''s'' JOB_SUBMITTER False) True (server_of ?sy') = Some u"
      "is_simulation_finished u" "nb_submitted_jobs u = 1" "nb_completed_jobs u = 1" "\<not> end_of_simulation_sent u"
      "proto_writer u = sim_clear w3" "now_of u = 0" "jobs_to_be_deleted u = []" "\<not> end_of_simulation_ack_received u"
    using w2(1,4) w3(1)
    by (simp add: demo_turn server_on_submitter_bye_def demo_state is_simulation_finished_def generate_and_send_message_def
        spawn_def delete_jobs_def jobs_delete_job_def jobs_exists_def)
  have s: "is_simulation_finished (server_of (start_actors (?sy'\<lparr>server_of := u\<rparr>)))"
    using u(2) by (simp add: start_actors_def Let_def is_simulation_finished_def)
  obtain x where x: "send_if_needed True ((server_of (start_actors (?sy'\<lparr>server_of := u\<rparr>)))\<lparr>sched_ready := True\<rparr>) = Some x"
      "end_of_simulation_sent x"
    using u(2,5-9) w3(2)
    by (simp add: start_actors_def Let_def send_if_needed_def sim_clear_def is_simulation_finished_def on_proto_def
        append_simulation_ends_def append_dated_def push_event_def generate_and_send_message_def sim_generate_message_def)
  have "demo_reachable (start_actors (?sy'\<lparr>server_of := u\<rparr>))"
    by (rule system_reachable.step[OF r system_step.hears[OF _ u(1)]]) simp
  then show thesis
    using s x u(3-5) by (intro that[of "start_actors (?sy'\<lparr>server_of := u\<rparr>)" x]) (simp_all add: start_actors_def Let_def)
qed

subsection \<open>Properties\<close>



text \<open>
  C39: the simulation is not declared over too early: in a reachable state where the server's test
  succeeds no job runs, no executor is left, no report of an end is on the way, the server has heard
  of every end, no job that was killed waits for its killer to report, and the only jobs that wait
  are those whose registration is still in the scheduler's queue.
\<close>

theorem finished_means_done:
  assumes "opened sy0" "system_reachable sx ld fmt sy0 sy" "is_simulation_finished (server_of sy)"
  shows "running_jobs (job_map (server_of sy)) = {} \<and> executors sy = [] \<and> reported sy = [] \<and>
    unheard (server_of sy) = {} \<and> set (kill_keys sy) \<inter> killed_jobs (server_of sy) = {} \<and>
    submitted_jobs (job_map (server_of sy)) \<subseteq> set (announced (server_of sy))"
proof -
  let ?s = "server_of sy"
  have so: "sound ?s (execution_keys sy) (reported sy) (kill_keys sy) (submit_keys sy)"
    using reachable_sound[OF assms(2,1)] by (simp add: system_sound_def)
  note d = soundD[OF so]
  note ok = books_ok_of[OF d(1)]
  have n: "nb_completed_jobs ?s = nb_submitted_jobs ?s" "nb_running_jobs ?s = 0"
    using assms(3) by (simp_all add: is_simulation_finished_def Let_def)
  have "card (running_jobs (job_map ?s)) = 0" "card (unheard ?s) = 0"
      "card (submitted_jobs (job_map ?s) - set (announced ?s)) = 0"
    using booksD(7,8)[OF ok] n by linarith+
  then have e: "running_jobs (job_map ?s) = {}" "unheard ?s = {}" "submitted_jobs (job_map ?s) - set (announced ?s) = {}"
    using books_finite[OF ok] finite_Diff[OF books_finite(1)[OF ok]] by (simp_all only: card_eq_0_iff) simp_all
  then have "execution_keys sy = []" using d(4) by simp
  then have "executors sy = []" by (simp add: execution_keys_def)
  then show ?thesis using e d(6,10) by auto
qed

theorem finished_means_done_witness:
  "\<exists>sy. demo_reachable sy \<and> is_simulation_finished (server_of sy) \<and> nb_submitted_jobs (server_of sy) = 1 \<and>
    nb_completed_jobs (server_of sy) = 1 \<and> executors sy = [] \<and> reported sy = [] \<and>
    running_jobs (job_map (server_of sy)) = {}"
proof -
  obtain sy where sy: "demo_reachable sy" "is_simulation_finished (server_of sy)" "nb_submitted_jobs (server_of sy) = 1"
    "nb_completed_jobs (server_of sy) = 1" by (rule demo_finished)
  show ?thesis using finished_means_done[OF demo_opened sy(1,2)] sy by blast
qed

text \<open>
  Why the scheduler must be trusted not to change the state of a job that has an executor: the
  server accepts the change and counts the end, and the executor then reports it once more.
\<close>

theorem end_counted_twice:
  assumes "server_on_change_job_state (sa_job al) ''COMPLETED_SUCCESSFULLY'' s = Some s1"
    and "job_at (sa_job al) (ws_of s) = Some j" "sj_state j = JOB_STATE_RUNNING" "sj_id j = sa_job al"
    and "job_finishes al 0 s1 = Some (ms, s2)" "server_on_job_completed sx (sa_job al) s2 = Some s3"
  shows "ms = [Job_completed (sa_job al)] \<and> nb_running_jobs s3 = nb_running_jobs s - 2 \<and>
    nb_completed_jobs s3 = nb_completed_jobs s + 2"
proof -
  let ?j = "j\<lparr>sj_runtime := now_of s - sj_starting_time j, sj_state := JOB_STATE_COMPLETED_SUCCESSFULLY\<rparr>"
  have reg: "registered_job (sa_job al) s = Some j"
    using assms(1,2) unfolding server_on_change_job_state_def by (auto dest: registered_job_at split: bind_splits)
  have st: "job_state_from_string ''COMPLETED_SUCCESSFULLY'' = Some JOB_STATE_COMPLETED_SUCCESSFULLY"
    by (simp add: job_state_from_string_def)
  have w: "write_job ?j (to_delete (sa_job al) (s\<lparr>nb_running_jobs := nb_running_jobs s - 1,
      nb_completed_jobs := nb_completed_jobs s + 1\<rparr>)) = Some s1"
    using assms(1) reg assms(3) st unfolding server_on_change_job_state_def Let_def by (auto split: if_splits)
  have j1: "job_at (sa_job al) (ws_of s1) = Some ?j"
    using write_job_accounts(1)[OF w] assms(4) by (simp add: job_at_map)
  have c1: "nb_running_jobs s1 = nb_running_jobs s - 1" "nb_completed_jobs s1 = nb_completed_jobs s + 1"
    using write_job_accounts(3,5)[OF w] by simp_all
  obtain s0 where f: "same_books s1 s0" and w2: "write_job (?j\<lparr>sj_return_code := 0,
      sj_state := JOB_STATE_COMPLETED_SUCCESSFULLY, sj_runtime := run_time (now_of s1) ?j\<rparr>) s0 = Some s2"
    and ms: "ms = [Job_completed (sa_job al)]"
    using assms(5) j1 assms(4) unfolding job_finishes_def state_of_return_code_def
    by (auto dest!: on_platform_same split: bind_splits)
  have c2: "nb_running_jobs s2 = nb_running_jobs s - 1" "nb_completed_jobs s2 = nb_completed_jobs s + 1"
    using write_job_accounts(3,5)[OF w2] f c1 by (simp_all add: same_books_def)
  obtain j' s4 s5 where s4: "call_submitter_back (sa_job al) s2 = Some s4"
    and s5: "s5 = s4\<lparr>nb_running_jobs := nb_running_jobs s4 - 1, nb_completed_jobs := nb_completed_jobs s4 + 1\<rparr>"
    and t: "tell_job_completed sx j' s5 = Some s3"
    using assms(6) unfolding server_on_job_completed_def Let_def by (auto split: bind_splits)
  have "same_books s2 s4"
    using s4 by (auto simp: call_submitter_back_def same_books_def split: option.splits bind_splits)
  then show ?thesis
    using tell_job_completed_books[OF t] c2 ms by (simp add: same_books_def s5)
qed

text \<open>
  C40: the server ends as it should: once it has sent the end of the simulation and the scheduler
  has answered, the loop is left and all assertions after it hold.
\<close>

theorem server_ends_cleanly:
  assumes "send_if_needed mailbox_empty st = Some st'" "\<not> end_of_simulation_sent st" "end_of_simulation_sent st'"
  shows "\<exists>st''. server_loop sx ((date, From_scheduler SCHED_READY, mailbox_empty') # rest) st' = Some st'' \<and>
    final_assertions st''"
  using assms(1)
proof (cases rule: send_cases)
  case (ends s1 s2)
  have f: "end_of_simulation_ack_received s2 = end_of_simulation_ack_received st"
      "same_accounts st s2"
    using ends(4,5) by (auto simp: on_proto_def generate_and_send_message_def spawn_def same_accounts_def split: bind_splits)
  let ?t = "server_on_sched_ready (st'\<lparr>base := (base st')\<lparr>clock := date\<rparr>\<rparr>)"
  have ack: "end_of_simulation_ack_received ?t" "end_of_simulation_sent ?t" "sched_ready ?t"
    using assms(3) by (simp_all add: server_on_sched_ready_def Let_def)
  have fin: "final_assertions ?t"
    using ends(1,6) f(2) ack
    by (simp add: final_assertions_def is_simulation_finished_def same_accounts_def server_on_sched_ready_def Let_def)
  have "send_if_needed mailbox_empty' ?t = Some ?t" using ack(1) by (simp add: send_if_needed_def)
  moreover have "\<not> end_of_simulation_ack_received st'" using ends(3,6) f(1) by simp
  ultimately show ?thesis using fin ack(1) by (simp add: server_turn_def)
next
  case sent
  then show ?thesis using assms(2,3) by (auto simp: generate_and_send_message_def spawn_def split: bind_splits)
next
  case (deleted s1 ws)
  then show ?thesis using assms(2,3) by (auto simp: generate_and_send_message_def spawn_def split: bind_splits)
qed (use assms(2,3) in simp)

theorem server_ends_cleanly_witness:
  "\<exists>st st''. end_of_simulation_sent st \<and>
    server_loop demo_externals [(7, From_scheduler SCHED_READY, True)] st = Some st'' \<and> final_assertions st''"
proof -
  obtain sy x where "demo_reachable sy" "is_simulation_finished (server_of sy)" "nb_submitted_jobs (server_of sy) = 1"
    "nb_completed_jobs (server_of sy) = 1" and x: "\<not> end_of_simulation_sent (server_of sy)"
    "send_if_needed True ((server_of sy)\<lparr>sched_ready := True\<rparr>) = Some x" "end_of_simulation_sent x"
    by (rule demo_finished)
  have "\<not> end_of_simulation_sent ((server_of sy)\<lparr>sched_ready := True\<rparr>)" using x(1) by simp
  from server_ends_cleanly[OF x(2) this x(3), of demo_externals 7 True "[]"] x(3) show ?thesis by blast
qed

text \<open>
  Disabling the sharing of storage machines also refuses it on compute machines, whatever the
  option for those says: the role of a storage machine is part of the role of a compute node, so
  that a job is not started on a compute node that runs another one.
\<close>

theorem storage_sharing_covers_compute_nodes:
  assumes "machine_at i (platform st) = Some m" "m_permissions m = COMPUTE_NODE" "m_jobs m \<noteq> {}"
    "\<not> allow_storage_sharing st" "finite (sa_machine_ids al)" "i \<in> sa_machine_ids al"
  shows "server_on_execute_job al st = None"
proof (rule ccontr)
  assume "server_on_execute_job al st \<noteq> None"
  then obtain t where "server_on_execute_job al st = Some t" by blast
  then obtain j s1 u where w: "write_job (j\<lparr>sj_state := JOB_STATE_RUNNING\<rparr>) st = Some s1"
    and u: "(if \<not> allow_compute_sharing (s1\<lparr>nb_running_jobs := nb_running_jobs s1 + 1\<rparr>)
        \<or> \<not> allow_storage_sharing (s1\<lparr>nb_running_jobs := nb_running_jobs s1 + 1\<rparr>)
      then do { us \<leftarrow> map_run (check_sharing (s1\<lparr>nb_running_jobs := nb_running_jobs s1 + 1\<rparr>))
        (sorted_list_of_set (sa_machine_ids al)); Some () } else Some ()) = Some u"
    unfolding server_on_execute_job_def Let_def by (elim run_bindE) (erule that)
  have same: "platform s1 = platform st" "allow_storage_sharing s1 = allow_storage_sharing st"
    using w by (auto simp: write_job_def split: bind_splits)
  obtain us where us: "map_run (check_sharing (s1\<lparr>nb_running_jobs := nb_running_jobs s1 + 1\<rparr>))
      (sorted_list_of_set (sa_machine_ids al)) = Some us"
    using u same(2) assms(4) by (auto split: bind_splits)
  have "i \<in> set (sorted_list_of_set (sa_machine_ids al))" using assms(5,6) by simp
  then obtain u where "check_sharing (s1\<lparr>nb_running_jobs := nb_running_jobs s1 + 1\<rparr>) i = Some u"
    using map_run_each[OF us] by blast
  moreover have "has_role STORAGE m"
    using assms(2) by (simp add: has_role_def STORAGE_def COMPUTE_NODE_def COMPUTE_FLOPS_def RECEIVE_BYTES_def SEND_BYTES_def)
  ultimately show False using assms(1,3,4) same by (auto simp: check_sharing_def split: bind_splits)
qed

definition busy_node :: machine where
  "busy_node = demo_node\<lparr>m_state := COMPUTING, m_jobs := {''w0!0''}\<rparr>"

theorem storage_sharing_covers_compute_nodes_witness:
  "server_on_execute_job demo_allocation
   (demo_server\<lparr>platform := \<lparr>all_machines = [busy_node], nb_machines_in_each_state = (\<lambda>s. if s = COMPUTING then 1 else 0)\<rparr>,
      allow_compute_sharing := True, allow_storage_sharing := False\<rparr>) = None"
  by (rule storage_sharing_covers_compute_nodes[of 0 _ busy_node])
    (simp_all add: machine_at_def busy_node_def demo_node_def demo_allocation_def)

end
