(* ===== verification/Sim_Profiles.thy ===== *)
theory Sim_Profiles
  imports Sim_Context
begin

text \<open>
  The loading of profiles from JSON documents (\<^verbatim>\<open>Profile::from_json\<close> and
  \<^verbatim>\<open>Profiles::load_from_json\<close> of \<^verbatim>\<open>profiles.cpp\<close>): one group of data per type of profile, with the
  checks on each.  The data are behind a \<^verbatim>\<open>void\<close> pointer that the rest of the simulator casts
  after the type of the profile: the cast is right for every loaded profile.

  Two parameters: \<open>files\<close> is what the loader of traces sees of the file system, \<open>print\<close> is the
  writer of the JSON library, for the description each profile keeps.
\<close>

subsection \<open>The data of a profile\<close>

record delay_data =
  dd_delay :: rat
  dd_real_delay :: rat
  dd_original_delay :: rat
  dd_original_real_delay :: rat

record parallel_data =
  pd_nb_res :: int
  pd_cpu :: "rat list"
  pd_com :: "rat list"

record homogeneous_data =
  hd_cpu :: rat
  hd_com :: rat
  hd_real_cpu :: rat
  hd_original_cpu :: rat
  hd_original_real_cpu :: rat

record total_amount_data =
  td_cpu :: rat
  td_com :: rat
  td_real_cpu :: rat
  td_original_cpu :: rat

text \<open>\<^verbatim>\<open>profile_sequence\<close> points to profiles of the same workload: the names they are stored under.\<close>

record sequence_data =
  qd_repeat :: int
  qd_sequence :: "string list"
  qd_profile_sequence :: "string list"

record pfs_data =
  fd_bytes_to_read :: rat
  fd_bytes_to_write :: rat
  fd_storage_label :: string

record staging_data =
  gd_nb_bytes :: rat
  gd_from_storage_label :: string
  gd_to_storage_label :: string

record send_data =
  nd_message :: json
  nd_sleeptime :: rat

record recv_data =
  rd_regex :: string
  rd_on_success :: string
  rd_on_failure :: string
  rd_on_timeout :: string
  rd_polltime :: rat

datatype profile_data =
    Delay_Data delay_data
  | Parallel_Data parallel_data
  | Homogeneous_Data homogeneous_data
  | Total_Amount_Data total_amount_data
  | Smpi_Data "string list"
  | Usage_Trace_Data "string list"
  | Sequence_Data sequence_data
  | Pfs_Data pfs_data
  | Staging_Data staging_data
  | Send_Data send_data
  | Recv_Data recv_data

record profile =
  pr_name :: string
  pr_type :: profile_type
  pr_data :: profile_data
  pr_json :: string
  pr_return_code :: int

subsection \<open>Numbers\<close>

definition load_delay :: "json \<Rightarrow> delay_data run" where
  "load_delay d = do {
     delay \<leftarrow> double_member ''delay'' d;
     orig \<leftarrow> optional_member get_double ''original_delay'' (- 1) d;
     orig_real \<leftarrow> optional_member get_double ''original_real_delay'' (- 1) d;
     real \<leftarrow> optional_member get_double ''real_delay'' 0 d;
     assertion (0 < delay);
     Some \<lparr>dd_delay = delay, dd_real_delay = real, dd_original_delay = orig,
       dd_original_real_delay = orig_real\<rparr> }"

text \<open>
  The number of communications is compared with the square of the number of resources, a product
  of unsigned 32-bit integers.
\<close>

definition get_amount :: "json \<Rightarrow> rat run" where
  "get_amount v = do { x \<leftarrow> get_double v; assertion (0 \<le> x); Some x }"

definition load_parallel :: "json \<Rightarrow> parallel_data run" where
  "load_parallel d = do {
     cpu \<leftarrow> member_at ''cpu'' d;
     com \<leftarrow> member_at ''com'' d;
     cs \<leftarrow> elements cpu;
     assertion (0 < length cs);
     let nb_res = int (length cs);
     xs \<leftarrow> map_run get_amount cs;
     ms \<leftarrow> elements com;
     assertion (int (length ms) = nb_res * nb_res mod 2 ^ 32);
     ys \<leftarrow> map_run get_amount ms;
     Some \<lparr>pd_nb_res = nb_res, pd_cpu = xs, pd_com = ys\<rparr> }"

definition load_homogeneous :: "json \<Rightarrow> homogeneous_data run" where
  "load_homogeneous d = do {
     cpu \<leftarrow> double_member ''cpu'' d;
     orig \<leftarrow> optional_member get_double ''original_cpu'' (- 1) d;
     orig_real \<leftarrow> optional_member get_double ''original_real_cpu'' (- 1) d;
     real \<leftarrow> optional_member get_double ''real_cpu'' 0 d;
     assertion (0 \<le> cpu);
     com \<leftarrow> double_member ''com'' d;
     assertion (0 \<le> com);
     Some \<lparr>hd_cpu = cpu, hd_com = com, hd_real_cpu = real, hd_original_cpu = orig,
       hd_original_real_cpu = orig_real\<rparr> }"

definition load_total_amount :: "json \<Rightarrow> total_amount_data run" where
  "load_total_amount d = do {
     cpu \<leftarrow> double_member ''cpu'' d;
     assertion (0 \<le> cpu);
     orig \<leftarrow> optional_member get_double ''original_cpu'' (- 1) d;
     real \<leftarrow> optional_member get_double ''real_cpu'' 0 d;
     com \<leftarrow> double_member ''com'' d;
     assertion (0 \<le> com);
     Some \<lparr>td_cpu = cpu, td_com = com, td_real_cpu = real, td_original_cpu = orig\<rparr> }"

subsection \<open>Composed profiles, transfers, messages\<close>

definition load_sequence :: "json \<Rightarrow> sequence_data run" where
  "load_sequence d = do {
     n \<leftarrow> optional_member get_int ''repeat'' 1 d;
     assertion (0 \<le> n);
     assertion (0 < n);
     seq \<leftarrow> member_at ''seq'' d;
     vs \<leftarrow> elements seq;
     assertion (0 < length vs);
     names \<leftarrow> map_run get_string vs;
     Some \<lparr>qd_repeat = n, qd_sequence = names, qd_profile_sequence = []\<rparr> }"

definition load_pfs :: "json \<Rightarrow> pfs_data run" where
  "load_pfs d = do {
     reads \<leftarrow> has_member ''bytes_to_read'' d;
     writes \<leftarrow> has_member ''bytes_to_write'' d;
     assertion (reads \<or> writes);
     r \<leftarrow> optional_member get_double ''bytes_to_read'' 0 d;
     w \<leftarrow> optional_member get_double ''bytes_to_write'' 0 d;
     storage \<leftarrow> has_member ''storage'' d;
     host \<leftarrow> has_member ''host'' d;
     label \<leftarrow> (if storage \<or> host then string_member (if storage then ''storage'' else ''host'') d
               else Some ''pfs'');
     Some \<lparr>fd_bytes_to_read = r, fd_bytes_to_write = w, fd_storage_label = label\<rparr> }"

definition load_staging :: "json \<Rightarrow> staging_data run" where
  "load_staging d = do {
     n \<leftarrow> double_member ''nb_bytes'' d;
     assertion (0 \<le> n);
     a \<leftarrow> string_member ''from'' d;
     b \<leftarrow> string_member ''to'' d;
     Some \<lparr>gd_nb_bytes = n, gd_from_storage_label = a, gd_to_storage_label = b\<rparr> }"

definition load_send :: "json \<Rightarrow> send_data run" where
  "load_send d = do {
     msg \<leftarrow> member_at ''msg'' d;
     assertion (is_object msg);
     sleeps \<leftarrow> has_member ''sleeptime'' d;
     t \<leftarrow> (if sleeps then do { t \<leftarrow> double_member ''sleeptime'' d; assertion (0 < t); Some t }
           else Some (1 / 10 ^ 7));
     Some \<lparr>nd_message = msg, nd_sleeptime = t\<rparr> }"

definition load_recv :: "json \<Rightarrow> recv_data run" where
  "load_recv d = do {
     regex \<leftarrow> optional_member get_string ''regex'' ''.*'' d;
     success \<leftarrow> optional_member get_string ''success'' [] d;
     failure \<leftarrow> optional_member get_string ''failure'' [] d;
     timeout \<leftarrow> optional_member get_string ''timeout'' [] d;
     polls \<leftarrow> has_member ''polltime'' d;
     t \<leftarrow> (if polls then do { t \<leftarrow> double_member ''polltime'' d; assertion (0 < t); Some t }
           else Some (5 / 1000));
     Some \<lparr>rd_regex = regex, rd_on_success = success, rd_on_failure = failure, rd_on_timeout = timeout,
       rd_polltime = t\<rparr> }"

subsection \<open>Traces\<close>

record files =
  is_directory :: "string \<Rightarrow> bool"
  is_regular_file :: "string \<Rightarrow> bool"
  lines_of :: "string \<Rightarrow> string list run"

text \<open>\<^verbatim>\<open>std::filesystem::path::parent_path\<close>, on paths of a POSIX system, and \<^verbatim>\<open>boost::trim_right\<close>.\<close>

definition parent_path :: "string \<Rightarrow> string" where
  "parent_path p =
     (let up = dropWhile (\<lambda>c. c \<noteq> CHR ''/'') (rev p); dir = dropWhile (\<lambda>c. c = CHR ''/'') up
      in if up \<noteq> [] \<and> dir = [] then ''/'' else rev dir)"

definition trim_right :: "string \<Rightarrow> string" where
  "trim_right s = rev (dropWhile is_space (rev s))"

definition load_traces :: "files \<Rightarrow> bool \<Rightarrow> string \<Rightarrow> json \<Rightarrow> string list run" where
  "load_traces fs from_file json_filename d = do {
     trace \<leftarrow> string_member ''trace'' d;
     assertion from_file;
     let base_dir = parent_path json_filename;
     assertion (is_directory fs base_dir);
     let trace_path = base_dir @ ''/'' @ trace;
     assertion (is_regular_file fs trace_path);
     ls \<leftarrow> lines_of fs trace_path;
     Some (map (\<lambda>l. parent_path trace_path @ ''/'' @ trim_right l) ls) }"

subsection \<open>Profiles\<close>

text \<open>
  The chain of comparisons of \<^verbatim>\<open>from_json\<close>.  The condition of the last branch is
  \<^verbatim>\<open>profile_type == "smpi" || "usage_trace"\<close>: the literal is a pointer that is not null, the
  condition always holds, and the error for an unknown type that follows is never reached.
\<close>

definition load_data ::
  "files \<Rightarrow> bool \<Rightarrow> string \<Rightarrow> string \<Rightarrow> json \<Rightarrow> (profile_type \<times> profile_data) run" where
  "load_data fs from_file json_filename typ d =
     (if typ = ''delay'' then do { x \<leftarrow> load_delay d; Some (DELAY, Delay_Data x) }
      else if typ = ''parallel'' then do { x \<leftarrow> load_parallel d; Some (PARALLEL, Parallel_Data x) }
      else if typ = ''parallel_homogeneous'' then do {
        x \<leftarrow> load_homogeneous d; Some (PARALLEL_HOMOGENEOUS, Homogeneous_Data x) }
      else if typ = ''parallel_homogeneous_total'' then do {
        x \<leftarrow> load_total_amount d; Some (PARALLEL_HOMOGENEOUS_TOTAL_AMOUNT, Total_Amount_Data x) }
      else if typ = ''composed'' then do { x \<leftarrow> load_sequence d; Some (SEQUENCE, Sequence_Data x) }
      else if typ = ''parallel_homogeneous_pfs'' then do {
        x \<leftarrow> load_pfs d; Some (PARALLEL_HOMOGENEOUS_PFS, Pfs_Data x) }
      else if typ = ''data_staging'' then do { x \<leftarrow> load_staging d; Some (DATA_STAGING, Staging_Data x) }
      else if typ = ''send'' then do { x \<leftarrow> load_send d; Some (SCHEDULER_SEND, Send_Data x) }
      else if typ = ''recv'' then do { x \<leftarrow> load_recv d; Some (SCHEDULER_RECV, Recv_Data x) }
      else do {
        ts \<leftarrow> load_traces fs from_file json_filename d;
        Some (if typ = ''smpi'' then (SMPI, Smpi_Data ts) else (USAGE_TRACE, Usage_Trace_Data ts)) })"

definition profile_from_json ::
  "files \<Rightarrow> (json \<Rightarrow> string) \<Rightarrow> bool \<Rightarrow> string \<Rightarrow> string \<Rightarrow> json \<Rightarrow> profile run" where
  "profile_from_json fs print from_file json_filename name d = do {
     assertion (is_object d);
     typ \<leftarrow> string_member ''type'' d;
     ret \<leftarrow> optional_member get_int ''ret'' 0 d;
     (ty, x) \<leftarrow> load_data fs from_file json_filename typ d;
     Some \<lparr>pr_name = name, pr_type = ty, pr_data = x, pr_json = print d, pr_return_code = ret\<rparr> }"

definition profile_from_text ::
  "files \<Rightarrow> (string \<Rightarrow> json run) \<Rightarrow> (json \<Rightarrow> string) \<Rightarrow> string \<Rightarrow> string \<Rightarrow> profile run" where
  "profile_from_text fs parse print name s = do {
     d \<leftarrow> parse s;
     profile_from_json fs print False ''unset'' name d }"

text \<open>
  The profiles of a workload, in the order of the container; a removed one keeps a null entry.
\<close>

type_synonym profile_store = "(string \<times> profile option) list"

definition load_profiles ::
  "files \<Rightarrow> (json \<Rightarrow> string) \<Rightarrow> string \<Rightarrow> json \<Rightarrow> profile_store \<Rightarrow> profile_store run" where
  "load_profiles fs print filename d ps = do {
     profiles \<leftarrow> member_at ''profiles'' d;
     ms \<leftarrow> members profiles;
     fold_run (\<lambda>(key, v) ps'. do {
       p \<leftarrow> profile_from_json fs print True filename key v;
       assertion (map_of ps' key = None);
       Some (ps' @ [(key, Some p)]) }) ms ps }"

subsection \<open>What a loaded profile guarantees\<close>

text \<open>The cast the simulator makes for a type of profile is to the class of the data.\<close>

fun type_of_data :: "profile_data \<Rightarrow> profile_type" where
  "type_of_data (Delay_Data x) = DELAY"
| "type_of_data (Parallel_Data x) = PARALLEL"
| "type_of_data (Homogeneous_Data x) = PARALLEL_HOMOGENEOUS"
| "type_of_data (Total_Amount_Data x) = PARALLEL_HOMOGENEOUS_TOTAL_AMOUNT"
| "type_of_data (Smpi_Data ts) = SMPI"
| "type_of_data (Usage_Trace_Data ts) = USAGE_TRACE"
| "type_of_data (Sequence_Data x) = SEQUENCE"
| "type_of_data (Pfs_Data x) = PARALLEL_HOMOGENEOUS_PFS"
| "type_of_data (Staging_Data x) = DATA_STAGING"
| "type_of_data (Send_Data x) = SCHEDULER_SEND"
| "type_of_data (Recv_Data x) = SCHEDULER_RECV"

text \<open>The bounds each group of data keeps.  The product of the sizes is exact below \<open>2 ^ 16\<close>.\<close>

fun data_ok :: "profile_data \<Rightarrow> bool" where
  "data_ok (Delay_Data x) \<longleftrightarrow> 0 < dd_delay x"
| "data_ok (Parallel_Data x) \<longleftrightarrow>
     0 < pd_nb_res x \<and> length (pd_cpu x) = nat (pd_nb_res x) \<and>
     (pd_nb_res x < 2 ^ 16 \<longrightarrow> length (pd_com x) = nat (pd_nb_res x) * nat (pd_nb_res x)) \<and>
     (\<forall>a \<in> set (pd_cpu x) \<union> set (pd_com x). 0 \<le> a)"
| "data_ok (Homogeneous_Data x) \<longleftrightarrow> 0 \<le> hd_cpu x \<and> 0 \<le> hd_com x"
| "data_ok (Total_Amount_Data x) \<longleftrightarrow> 0 \<le> td_cpu x \<and> 0 \<le> td_com x"
| "data_ok (Smpi_Data ts) \<longleftrightarrow> True"
| "data_ok (Usage_Trace_Data ts) \<longleftrightarrow> True"
| "data_ok (Sequence_Data x) \<longleftrightarrow> 0 < qd_repeat x \<and> qd_sequence x \<noteq> [] \<and> qd_profile_sequence x = []"
| "data_ok (Pfs_Data x) \<longleftrightarrow> True"
| "data_ok (Staging_Data x) \<longleftrightarrow> 0 \<le> gd_nb_bytes x"
| "data_ok (Send_Data x) \<longleftrightarrow> is_object (nd_message x) \<and> 0 < nd_sleeptime x"
| "data_ok (Recv_Data x) \<longleftrightarrow> 0 < rd_polltime x"

lemma map_run_amounts:
  assumes "map_run get_amount vs = Some xs"
  shows "length xs = length vs" "\<forall>a \<in> set xs. 0 \<le> a"
  using assms by (induction vs arbitrary: xs) (auto simp: get_amount_def run_simps)

lemma small_square:
  assumes "0 \<le> n" "n < 2 ^ 16" shows "(n * n) mod 2 ^ 32 = (n::int)  * n"
proof -
  have "n * n < 2 ^ 16 * 2 ^ 16" by (rule mult_strict_mono) (use assms in auto)
  then show ?thesis using assms(1) by simp
qed

lemma load_parallel_ok:
  assumes "load_parallel d = Some x" shows "data_ok (Parallel_Data x)"
proof -
  obtain cs ms xs ys where "0 < length cs" and xs: "map_run get_amount cs = Some xs"
    and ys: "map_run get_amount ms = Some ys"
    and len: "int (length ms) = int (length cs) * int (length cs) mod 2 ^ 32"
    and x: "x = \<lparr>pd_nb_res = int (length cs), pd_cpu = xs, pd_com = ys\<rparr>"
    using assms unfolding load_parallel_def Let_def by (auto simp: run_simps)
  have "length ms = length cs * length cs" if "int (length cs) < 2 ^ 16"
    using len that small_square[of "int (length cs)"] by (simp flip: of_nat_mult)
  then show ?thesis using map_run_amounts[OF xs] map_run_amounts[OF ys] \<open>0 < length cs\<close> by (auto simp: x)
qed

lemma load_sequence_ok:
  assumes "load_sequence d = Some x" shows "data_ok (Sequence_Data x)"
  using assms unfolding load_sequence_def by (auto simp: run_simps dest: map_run_length)

lemma loads_ok:
  "load_delay d = Some x1 \<Longrightarrow> data_ok (Delay_Data x1)"
  "load_homogeneous d = Some x3 \<Longrightarrow> data_ok (Homogeneous_Data x3)"
  "load_total_amount d = Some x4 \<Longrightarrow> data_ok (Total_Amount_Data x4)"
  "load_staging d = Some x7 \<Longrightarrow> data_ok (Staging_Data x7)"
  "load_send d = Some x8 \<Longrightarrow> data_ok (Send_Data x8)"
  "load_recv d = Some x9 \<Longrightarrow> data_ok (Recv_Data x9)"
  by (auto simp: load_delay_def load_homogeneous_def load_total_amount_def load_staging_def load_send_def
      load_recv_def run_simps split: if_splits)

lemma load_data_ok:
  assumes "load_data fs from_file filename typ d = Some (ty, x)"
  shows "type_of_data x = ty \<and> data_ok x"
  using assms unfolding load_data_def
  by (auto split: if_splits bind_splits dest: loads_ok load_parallel_ok load_sequence_ok simp del: data_ok.simps)
    simp_all

text \<open>
  C29: Every profile the simulator loads is well typed and within its bounds: its data are of the
  class its type announces, so that no cast of the data pointer is ever wrong; a delay is positive,
  amounts of work and of communication are not negative, the communications of a parallel task
  are a square matrix over its resources (below 65536 of them), a sequence is not empty and is
  repeated at least once, polling and sleeping times are positive.  It carries the name it was
  loaded under and the text of the document it was read from.
\<close>
theorem loaded_profile_well_typed:
  assumes "profile_from_json fs print from_file filename name d = Some p"
  shows "type_of_data (pr_data p) = pr_type p \<and> data_ok (pr_data p) \<and> pr_name p = name \<and> pr_json p = print d"
  using assms unfolding profile_from_json_def by (auto simp: run_simps split: prod.splits dest: load_data_ok)

definition demo_parallel :: json where
  "demo_parallel = JObject [(''type'', JString ''parallel''), (''cpu'', JArray [JInt 5, JDouble (1 / 2)]),
     (''com'', JArray [JInt 0, JInt 1, JInt 1, JInt 0])]"

definition no_files :: files where
  "no_files = \<lparr>is_directory = (\<lambda>p. False), is_regular_file = (\<lambda>p. False), lines_of = (\<lambda>p. None)\<rparr>"

lemma demo_parallel_loads:
  "profile_from_json no_files (\<lambda>d. ''text'') True ''w.json'' ''p'' demo_parallel =
   Some \<lparr>pr_name = ''p'', pr_type = PARALLEL,
     pr_data = Parallel_Data \<lparr>pd_nb_res = 2, pd_cpu = [5, 1 / 2], pd_com = [0, 1, 1, 0]\<rparr>, pr_json = ''text'',
     pr_return_code = 0\<rparr>"
  by (simp add: profile_from_json_def demo_parallel_def load_data_def load_parallel_def get_amount_def json_simps
      optional_member_def)

theorem loaded_profile_well_typed_witness:
  "\<exists>p. profile_from_json no_files (\<lambda>d. ''text'') True ''w.json'' ''p'' demo_parallel = Some p \<and>
     type_of_data (pr_data p) = pr_type p \<and> data_ok (pr_data p) \<and> pr_type p = PARALLEL"
  using loaded_profile_well_typed[OF demo_parallel_loads] demo_parallel_loads by simp

text \<open>
  A profile of an unknown type is not refused: when it has a readable trace it is loaded as a
  usage trace, whatever its type says.
\<close>
theorem unknown_profile_type_accepted:
  assumes "typ \<notin> {''delay'', ''parallel'', ''parallel_homogeneous'', ''parallel_homogeneous_total'', ''composed'',
      ''parallel_homogeneous_pfs'', ''data_staging'', ''send'', ''recv'', ''smpi''}"
    and "load_traces fs True filename (JObject [(''type'', JString typ), (''trace'', JString tr)]) = Some ts"
  shows "profile_from_json fs print True filename name (JObject [(''type'', JString typ), (''trace'', JString tr)]) =
    Some \<lparr>pr_name = name, pr_type = USAGE_TRACE, pr_data = Usage_Trace_Data ts,
      pr_json = print (JObject [(''type'', JString typ), (''trace'', JString tr)]), pr_return_code = 0\<rparr>"
  using assms by (simp add: profile_from_json_def load_data_def json_simps optional_member_def)

definition demo_files :: files where
  "demo_files = \<lparr>is_directory = (\<lambda>p. p = ''in''), is_regular_file = (\<lambda>p. p = ''in/t.txt''),
     lines_of = (\<lambda>p. Some [''rank0 '', ''rank1''])\<rparr>"

theorem unknown_profile_type_accepted_witness:
  "profile_from_json demo_files (\<lambda>d. ''text'') True ''in/w.json'' ''p''
     (JObject [(''type'', JString ''delai''), (''trace'', JString ''t.txt'')]) =
   Some \<lparr>pr_name = ''p'', pr_type = USAGE_TRACE, pr_data = Usage_Trace_Data [''in/rank0'', ''in/rank1''],
     pr_json = ''text'', pr_return_code = 0\<rparr>"
  by (rule unknown_profile_type_accepted)
    (simp_all add: load_traces_def demo_files_def parent_path_def trim_right_def is_space_def json_simps)

text \<open>
  With 65536 resources the square is \<open>0\<close> in 32 bits: a parallel task without any communication is
  accepted.
\<close>
lemma large_parallel_profile_unchecked:
  assumes "n = 2 ^ 16"
  shows "load_parallel (JObject [(''cpu'', JArray (replicate n (JInt 1))), (''com'', JArray [])]) =
    Some \<lparr>pd_nb_res = int n, pd_cpu = replicate n 1, pd_com = []\<rparr>"
proof -
  have "map_run get_amount (replicate k (JInt 1)) = Some (replicate k 1)" for k
    by (induction k) (simp_all add: get_amount_def)
  moreover have "int n * int n mod 2 ^ 32 = 0" "0 < n" by (simp_all add: assms)
  ultimately show ?thesis by (simp add: load_parallel_def json_simps)
qed

end
