(* ===== verification/Sim_Loading.thy ===== *)
theory Sim_Loading
  imports Sim_Profiles Job_Names "HOL-Library.AList"
begin

text \<open>
  The loading of jobs from JSON documents (\<^verbatim>\<open>Job::from_json\<close> and \<^verbatim>\<open>Jobs::load_from_json\<close> of
  \<^verbatim>\<open>jobs.cpp\<close>): identifiers, checks, the settings of checkpoints, and the changes the command line
  asks for to the profile of the job.  Profiles are shared: a job points to a profile of its
  workload, here by the name it is stored under, and the loading of a job may change it.

  External to the code, and parameters: the parser and the writer of JSON texts, the text form of
  machine sets, the files of traces, and the square root of doubles.
\<close>

record load_externals =
  lx_parse :: "string \<Rightarrow> json run"
  lx_print :: "json \<Rightarrow> string"
  lx_format :: hyphen_format
  lx_files :: files
  lx_sqrt :: "rat \<Rightarrow> rat"

text \<open>What the loading reads of the workload, of its arguments and of its context.\<close>

record load_settings =
  st_name :: string
  st_checkpointing_on :: bool
  st_compute_checkpointing :: bool
  st_compute_error :: rat
  st_MTBF :: rat
  st_SMTBF :: rat
  st_performance_factor :: rat
  st_global_interval :: rat
  st_num_machines :: int
  st_speed :: rat
  st_reservations_start :: "(int \<times> rat) list option"
  st_from_checkpoint :: bool

record loaded_job =
  lj_id :: job_identifier
  lj_submission_time :: rat
  lj_submission_times :: "rat list"
  lj_walltime :: rat
  lj_original_walltime :: rat
  lj_requested_nb_res :: int
  lj_profile :: string
  lj_purpose :: string
  lj_start :: rat
  lj_future_allocation :: machines
  lj_checkpoint :: checkpoint_job_data
  lj_metadata :: string
  lj_batsim_metadata :: string
  lj_jitter :: string
  lj_checkpoint_interval :: rat
  lj_dump_time :: rat
  lj_read_time :: rat
  lj_smpi_mapping :: "int list"
  lj_json :: string

subsection \<open>Identifiers\<close>

fun occurs_in :: "string \<Rightarrow> string \<Rightarrow> bool" where
  "occurs_in x [] \<longleftrightarrow> x = []"
| "occurs_in x (c # s) \<longleftrightarrow> take (length x) (c # s) = x \<or> occurs_in x s"

text \<open>
  The identifier is normalised: the number of the checkpoint is replaced when the simulation starts
  from one.  The name of the workload is added unless it occurs somewhere in the text.
\<close>

fun id_text :: "json \<Rightarrow> string run" where
  "id_text (JString s) = Some s"
| "id_text (JInt n) = (if fits_int n then Some (show_int n) else None)"
| "id_text _ = None"

definition read_identifier :: "string \<Rightarrow> int \<Rightarrow> json \<Rightarrow> job_identifier run" where
  "read_identifier workload nb_checkpoint v = do {
     s \<leftarrow> id_text v;
     parts \<leftarrow> get_job_parts s;
     let txt = str_workload parts @ str_job_number parts @ str_job_resubmit parts @
       (if nb_checkpoint = - 1 then str_job_checkpoint parts else ''$'' @ show_int nb_checkpoint);
     (if occurs_in workload txt then job_identifier txt
      else make_identifier workload txt (p_job_number parts)) }"

subsection \<open>The fields of a job\<close>

definition read_walltime :: "json \<Rightarrow> rat run" where
  "read_walltime d = do {
     wt \<leftarrow> optional_member get_double ''walltime'' (- 1) d;
     assertion (wt = - 1 \<or> 0 < wt);
     Some wt }"

text \<open>The start of a reservation, moved by what the command line says of its order.\<close>

definition read_start :: "load_settings \<Rightarrow> json \<Rightarrow> rat run" where
  "read_start st d = do {
     s \<leftarrow> optional_member get_double ''start'' (- 1) d;
     reserved \<leftarrow> has_member ''start'' d;
     ordered \<leftarrow> has_member ''order'' d;
     (case st_reservations_start st of
        Some starts \<Rightarrow>
          if reserved \<and> ordered then do {
            k \<leftarrow> int_member ''order'' d;
            (case map_of starts k of
               None \<Rightarrow> Some s
             | Some move \<Rightarrow> do { assertion (0 < s + move); Some (s + move) }) }
          else Some s
      | None \<Rightarrow> Some s) }"

text \<open>What a checkpoint of the simulation recorded; every member is required, none is read otherwise.\<close>

definition read_checkpoint_data :: "load_settings \<Rightarrow> json \<Rightarrow> loaded_job \<Rightarrow> loaded_job run" where
  "read_checkpoint_data st d j =
     (if st_from_checkpoint st then do {
        alloc \<leftarrow> string_member ''allocation'' d;
        progr \<leftarrow> double_member ''progress'' d;
        state \<leftarrow> int_member ''state'' d;
        meta \<leftarrow> string_member ''metadata'' d;
        bmeta \<leftarrow> string_member ''batsim_metadata'' d;
        jit \<leftarrow> string_member ''jitter'' d;
        ostart \<leftarrow> double_member ''original_start'' d;
        osubmit \<leftarrow> double_member ''original_submit'' d;
        run \<leftarrow> double_member ''runtime'' d;
        cpu \<leftarrow> double_member ''progressTimeCpu'' d;
        Some (j\<lparr>lj_checkpoint := no_checkpoint\<lparr>ck_allocation := alloc, ck_progress := progr, ck_state := state,
            ck_original_start := ostart, ck_original_submit := osubmit, ck_runtime := run,
            ck_progress_time_cpu := cpu\<rparr>,
          lj_metadata := meta, lj_batsim_metadata := bmeta, lj_jitter := jit\<rparr>) }
      else Some (j\<lparr>lj_checkpoint := no_checkpoint\<lparr>ck_original_submit := lj_submission_time j\<rparr>\<rparr>))"

definition read_fields :: "load_externals \<Rightarrow> load_settings \<Rightarrow> int \<Rightarrow> json \<Rightarrow> profile_store \<Rightarrow> loaded_job run" where
  "read_fields lx st nb_checkpoint d ps = do {
     assertion (is_object d);
     v \<leftarrow> member_at ''id'' d;
     ji \<leftarrow> read_identifier (st_name st) nb_checkpoint v;
     sub \<leftarrow> double_member ''subtime'' d;
     times \<leftarrow> optional_member get_doubles ''submission_times'' [sub] d;
     wt \<leftarrow> read_walltime d;
     owt \<leftarrow> optional_member get_double ''original_walltime'' (- 1) d;
     res \<leftarrow> int_member ''res'' d;
     assertion (0 \<le> res);
     pn \<leftarrow> string_member ''profile'' d;
     assertion (map_of ps pn \<noteq> None);
     what \<leftarrow> optional_member get_string ''purpose'' ''job'' d;
     s \<leftarrow> read_start st d;
     alloc \<leftarrow> optional_member (\<lambda>v. do { a \<leftarrow> get_string v; from_hyphen (lx_format lx) a }) ''alloc'' {} d;
     read_checkpoint_data st d
       \<lparr>lj_id = ji, lj_submission_time = sub, lj_submission_times = times, lj_walltime = wt,
         lj_original_walltime = owt, lj_requested_nb_res = res, lj_profile = pn, lj_purpose = what, lj_start = s,
         lj_future_allocation = alloc, lj_checkpoint = no_checkpoint, lj_metadata = [], lj_batsim_metadata = [],
         lj_jitter = [], lj_checkpoint_interval = - 1, lj_dump_time = - 1, lj_read_time = - 1,
         lj_smpi_mapping = [], lj_json = []\<rparr> }"

subsection \<open>Work, checkpoints and the performance factor\<close>

text \<open>
  Delays and homogeneous computations go through the same code, written twice: the work is a time
  for the first and a number of operations for the second, \<open>speed\<close> is 1 and the speed of the hosts,
  \<open>key\<close> and \<open>orig\<close> are the members of the description that hold the work and the one before checkpoints.
\<close>

fun work_of :: "profile_data \<Rightarrow> rat" where
  "work_of (Delay_Data x) = dd_delay x"
| "work_of (Homogeneous_Data x) = hd_cpu x"
| "work_of _ = 0"

fun original_work_of :: "profile_data \<Rightarrow> rat" where
  "original_work_of (Delay_Data x) = dd_original_delay x"
| "original_work_of (Homogeneous_Data x) = hd_original_cpu x"
| "original_work_of _ = 0"

fun set_work :: "rat \<Rightarrow> profile_data \<Rightarrow> profile_data" where
  "set_work w (Delay_Data x) = Delay_Data (x\<lparr>dd_delay := w\<rparr>)"
| "set_work w (Homogeneous_Data x) = Homogeneous_Data (x\<lparr>hd_cpu := w\<rparr>)"
| "set_work w x = x"

fun set_real_work :: "rat \<Rightarrow> profile_data \<Rightarrow> profile_data" where
  "set_real_work w (Delay_Data x) = Delay_Data (x\<lparr>dd_real_delay := w\<rparr>)"
| "set_real_work w (Homogeneous_Data x) = Homogeneous_Data (x\<lparr>hd_real_cpu := w\<rparr>)"
| "set_real_work w x = x"

definition is_parent :: "loaded_job \<Rightarrow> bool" where
  "is_parent j \<longleftrightarrow> CHR ''#'' \<notin> set (job_name (lj_id j))"

definition apply_performance_factor ::
  "load_externals \<Rightarrow> load_settings \<Rightarrow> string \<Rightarrow> loaded_job \<Rightarrow> profile \<times> json \<Rightarrow> (profile \<times> json) run" where
  "apply_performance_factor lx st key j pd =
     (case pd of (p, doc) \<Rightarrow>
        let pf = st_performance_factor st in
        if is_parent j \<and> pf \<noteq> 1 then do {
          let w = pf * work_of (pr_data p);
          doc' \<leftarrow> set_member key (JDouble w) doc;
          Some (p\<lparr>pr_data := set_work w (pr_data p), pr_json := lx_print lx doc'\<rparr>, doc') }
        else Some (p, doc))"

text \<open>
  The interval that minimises the work lost, from the mean time between failures, of the whole
  system first.  The root of a negative number is not a number and fails the assertion; a job
  that asks for no resource has an infinite interval, which is not a value of the model.
\<close>

definition optimal_interval ::
  "load_externals \<Rightarrow> load_settings \<Rightarrow> int \<Rightarrow> rat \<Rightarrow> rat \<Rightarrow> rat run" where
  "optimal_interval lx st nb_res dump interval =
     (if st_compute_checkpointing st then do {
        assertion (st_MTBF st \<noteq> - 1 \<or> st_SMTBF st \<noteq> - 1);
        assertion (st_SMTBF st \<noteq> - 1 \<longrightarrow> nb_res \<noteq> 0);
        let m = (if st_SMTBF st \<noteq> - 1 then of_int (st_num_machines st) * st_SMTBF st / of_int nb_res else st_MTBF st);
        assertion (0 \<le> dump * 2 * m);
        let iv = st_compute_error st * lx_sqrt lx (dump * 2 * m) - dump;
        assertion (0 < iv);
        Some iv }
      else Some interval)"

text \<open>
  The delay with the time of the checkpoints: one after each full interval, but none at the end of
  the work.  A null interval makes it infinite, as does a null speed of the hosts: these are not
  values of the model.
\<close>

definition with_checkpoints :: "rat \<Rightarrow> rat \<Rightarrow> rat \<Rightarrow> rat run" where
  "with_checkpoints interval dump delay = do {
     assertion (interval \<noteq> 0);
     let n = floor (delay / interval);
     let subtract = (if of_int n * interval = delay then 1 else 0);
     Some (if 0 < n then of_int (n - subtract) * dump + delay else delay) }"

definition lengthen_profile ::
  "load_externals \<Rightarrow> string \<Rightarrow> string \<Rightarrow> rat \<Rightarrow> rat \<Rightarrow> rat \<Rightarrow> profile \<times> json \<Rightarrow> profile run" where
  "lengthen_profile lx key orig speed interval dump pd =
     (case pd of (p, doc) \<Rightarrow>
        if original_work_of (pr_data p) = - 1 then do {
          assertion (speed \<noteq> 0);
          let work = work_of (pr_data p);
          delay \<leftarrow> with_checkpoints interval dump (work / speed);
          doc1 \<leftarrow> set_member key (JDouble (delay * speed)) doc;
          doc2 \<leftarrow> add_member orig (JDouble work) doc1;
          Some (p\<lparr>pr_data := set_work (delay * speed) (set_real_work work (pr_data p)), pr_json := lx_print lx doc2\<rparr>) }
        else Some p)"

text \<open>An optional member of the description is overwritten when it is there, or added when asked for.\<close>

definition overwrite_member :: "bool \<Rightarrow> string \<Rightarrow> json \<Rightarrow> json \<Rightarrow> json run" where
  "overwrite_member add k v d = do {
     there \<leftarrow> has_member k d;
     (if there then set_member k v d else if add then add_member k v d else Some d) }"

record checkpoint_times =
  ct_interval :: rat
  ct_dump :: rat
  ct_read :: rat

definition read_checkpoint_times :: "json \<Rightarrow> checkpoint_times run" where
  "read_checkpoint_times d = do {
     iv \<leftarrow> optional_member get_double ''checkpoint_interval'' (- 1) d;
     dump \<leftarrow> optional_member get_double ''dumptime'' (- 1) d;
     readt \<leftarrow> optional_member get_double ''readtime'' (- 1) d;
     Some \<lparr>ct_interval = iv, ct_dump = dump, ct_read = readt\<rparr> }"

text \<open>For a job that was not resubmitted, the times that hold and the profile they give.\<close>

definition plan_checkpoints :: "load_externals \<Rightarrow> load_settings \<Rightarrow> int \<Rightarrow> checkpoint_times \<Rightarrow> checkpoint_times run" where
  "plan_checkpoints lx st nb_res ct = do {
     let scaled = (if st_performance_factor st \<noteq> 1
       then ct\<lparr>ct_dump := st_performance_factor st * ct_dump ct, ct_read := st_performance_factor st * ct_read ct\<rparr>
       else ct);
     iv \<leftarrow> optimal_interval lx st nb_res (ct_dump scaled) (ct_interval ct);
     Some (scaled\<lparr>ct_interval :=
       (if st_global_interval st \<noteq> - 1 then st_global_interval st - ct_dump scaled else iv)\<rparr>) }"

definition parent_checkpoints ::
  "load_externals \<Rightarrow> load_settings \<Rightarrow> string \<Rightarrow> string \<Rightarrow> rat \<Rightarrow> int \<Rightarrow> checkpoint_times \<Rightarrow> json \<Rightarrow> profile \<times> json \<Rightarrow>
   (checkpoint_times \<times> json \<times> profile) run" where
  "parent_checkpoints lx st key orig speed nb_res ct copy pd = do {
     ct' \<leftarrow> plan_checkpoints lx st nb_res ct;
     p \<leftarrow> lengthen_profile lx key orig speed (ct_interval ct') (ct_dump ct') pd;
     copy1 \<leftarrow> overwrite_member True ''checkpoint_interval'' (JDouble (ct_interval ct')) copy;
     Some (ct', copy1, p) }"

definition set_checkpoints ::
  "load_externals \<Rightarrow> load_settings \<Rightarrow> string \<Rightarrow> string \<Rightarrow> rat \<Rightarrow> json \<Rightarrow> loaded_job \<times> json \<Rightarrow> profile \<times> json \<Rightarrow>
   ((loaded_job \<times> json) \<times> profile) run" where
  "set_checkpoints lx st key orig speed d jc pd = do {
     ct \<leftarrow> read_checkpoint_times d;
     (ct', copy1, p) \<leftarrow> (if is_parent (fst jc)
       then parent_checkpoints lx st key orig speed (lj_requested_nb_res (fst jc)) ct (snd jc) pd
       else Some (ct, snd jc, fst pd));
     copy2 \<leftarrow> overwrite_member False ''dumptime'' (JDouble (ct_dump ct')) copy1;
     copy3 \<leftarrow> overwrite_member False ''readtime'' (JDouble (ct_read ct')) copy2;
     Some ((fst jc\<lparr>lj_checkpoint_interval := ct_interval ct', lj_dump_time := ct_dump ct',
       lj_read_time := ct_read ct'\<rparr>, copy3), p) }"

definition add_missing :: "string \<Rightarrow> json \<Rightarrow> json \<Rightarrow> json run" where
  "add_missing k v d = do { there \<leftarrow> has_member k d; if there then Some d else add_member k v d }"

definition edit_work ::
  "load_externals \<Rightarrow> load_settings \<Rightarrow> string \<Rightarrow> string \<Rightarrow> rat \<Rightarrow> json \<Rightarrow> loaded_job \<times> json \<Rightarrow> profile \<Rightarrow>
   ((loaded_job \<times> json) \<times> profile) run" where
  "edit_work lx st key orig speed d jc p = do {
     pd \<leftarrow> apply_performance_factor lx st key (fst jc) (p, parse_doc (lx_parse lx) (pr_json p));
     ((j, copy), p1) \<leftarrow> (if st_checkpointing_on st then set_checkpoints lx st key orig speed d jc pd
                        else Some (jc, fst pd));
     copy1 \<leftarrow> add_missing ''purpose'' (JString (lj_purpose j)) copy;
     copy2 \<leftarrow> add_missing ''start'' (JDouble (lj_start j)) copy1;
     Some ((j, copy2), p1) }"

definition edit_job ::
  "load_externals \<Rightarrow> load_settings \<Rightarrow> json \<Rightarrow> loaded_job \<times> json \<Rightarrow> profile \<Rightarrow> ((loaded_job \<times> json) \<times> profile) run" where
  "edit_job lx st d jc p =
     (if pr_type p = DELAY then edit_work lx st ''delay'' ''original_delay'' 1 d jc p
      else if pr_type p = PARALLEL_HOMOGENEOUS then edit_work lx st ''cpu'' ''original_cpu'' (st_speed st) d jc p
      else Some (jc, p))"

subsection \<open>The identifier in the description\<close>

text \<open>
  \<^verbatim>\<open>std::regex_replace\<close> on the text of the description, with the pattern
  \<^verbatim>\<open>"id"\s*:\s*(?:"*[^(,|})]*"*)\s*\<close>: each match runs from the member name up to the next character
  of \<^verbatim>\<open>( , | } )\<close>.  The replacement is a format: \<^verbatim>\<open>$$\<close> stands for a dollar, \<^verbatim>\<open>$&\<close> for the match,
  \<^verbatim>\<open>$`\<close> and \<^verbatim>\<open>$'\<close> for what is around it, and a dollar before one or two digits for a group; the
  pattern has no group but the whole match, number 0, and the GNU library replaces any other by nothing.
\<close>

definition id_key :: string where
  "id_key = [double_quote, CHR ''i'', CHR ''d'', double_quote]"

definition match_id :: "string \<Rightarrow> string option" where
  "match_id s =
     (if take 4 s = id_key then
        (case dropWhile is_space (drop 4 s) of
           c # r \<Rightarrow> if c = CHR '':'' then Some (dropWhile (\<lambda>x. x \<notin> set ''(,|})'') (dropWhile is_space r)) else None
         | [] \<Rightarrow> None)
      else None)"

definition group :: "string \<Rightarrow> nat \<Rightarrow> string" where
  "group m n = (if n = 0 then m else [])"

fun expand :: "string \<Rightarrow> string \<Rightarrow> string \<Rightarrow> string \<Rightarrow> string" where
  "expand m pre post [] = []"
| "expand m pre post [c] = [c]"
| "expand m pre post (c # e # s) =
     (if c \<noteq> CHR ''$'' then c # expand m pre post (e # s)
      else if e = CHR ''$'' then e # expand m pre post s
      else if e = CHR ''&'' then m @ expand m pre post s
      else if e = CHR 0x60 then pre @ expand m pre post s
      else if e = single_quote then post @ expand m pre post s
      else if is_digit e then
        (case s of
           [] \<Rightarrow> group m (digit_value e)
         | f # s' \<Rightarrow>
             if is_digit f then group m (digit_value e * 10 + digit_value f) @ expand m pre post s'
             else group m (digit_value e) @ expand m pre post s)
      else c # expand m pre post (e # s))"

lemma match_id_shorter:
  assumes "match_id s = Some r" shows "length r < length s"
proof -
  obtain u where u: "dropWhile is_space (drop 4 s) = CHR '':'' # u"
      and r: "r = dropWhile (\<lambda>x. x \<notin> set ''(,|})'') (dropWhile is_space u)"
    using assms unfolding match_id_def by (auto split: if_splits list.splits)
  have "length r \<le> length u" unfolding r by (meson le_trans length_dropWhile_le)
  moreover have "length u < length (drop 4 s)"
    using length_dropWhile_le[of is_space "drop 4 s"] u by simp
  ultimately show ?thesis by simp
qed

text \<open>\<open>pre\<close> is the text since the last match.\<close>

function replace_ids :: "string \<Rightarrow> string \<Rightarrow> string \<Rightarrow> string" where
  "replace_ids format pre s =
     (case s of
        [] \<Rightarrow> []
      | c # s' \<Rightarrow>
          (case match_id s of
             None \<Rightarrow> c # replace_ids format (pre @ [c]) s'
           | Some r \<Rightarrow> expand (take (length s - length r) s) pre r format @ replace_ids format [] r))"
  by pat_completeness auto
termination by (relation "measure (\<lambda>(_, _, s). length s)") (auto dest: match_id_shorter)

declare replace_ids.simps [simp del]

definition id_member :: "job_identifier \<Rightarrow> string" where
  "id_member ji = id_key @ '':'' @ [double_quote] @ representation ji @ [double_quote]"

text \<open>The checks on the new description.\<close>

definition check_description :: "json \<Rightarrow> unit run" where
  "check_description d = do {
     assertion (is_object d);
     i \<leftarrow> string_member ''id'' d;
     sub \<leftarrow> double_member ''subtime'' d;
     wt \<leftarrow> optional_member get_double ''walltime'' 0 d;
     res \<leftarrow> member_at ''res'' d;
     assertion (is_int res);
     pn \<leftarrow> string_member ''profile'' d;
     Some () }"

definition read_rank :: "int \<Rightarrow> json \<Rightarrow> int run" where
  "read_rank nb_res v = do { h \<leftarrow> get_int v; assertion (0 \<le> h \<and> h < nb_res); Some h }"

subsection \<open>A job\<close>

definition job_document :: "loaded_job \<Rightarrow> json \<Rightarrow> json run" where
  "job_document j d = do {
     timed \<leftarrow> has_member ''submission_times'' d;
     d1 \<leftarrow> (if timed then Some d
           else add_member ''submission_times'' (JArray (map JDouble (lj_submission_times j))) d);
     reserved \<leftarrow> has_member ''start'' d1;
     (if reserved then set_member ''start'' (JDouble (lj_start j)) d1 else Some d1) }"

definition job_from_json ::
  "load_externals \<Rightarrow> load_settings \<Rightarrow> int \<Rightarrow> json \<Rightarrow> profile_store \<Rightarrow> (loaded_job \<times> profile_store) run" where
  "job_from_json lx st nb_checkpoint d ps = do {
     j \<leftarrow> read_fields lx st nb_checkpoint d ps;
     p \<leftarrow> Option.bind (map_of ps (lj_profile j)) (\<lambda>entry. entry);
     copy \<leftarrow> job_document j d;
     ((j1, copy1), p1) \<leftarrow> edit_job lx st d (j, copy) p;
     let txt = replace_ids (id_member (lj_id j)) [] (lx_print lx copy1);
     checked \<leftarrow> lx_parse lx txt;
     check_description checked;
     ranks \<leftarrow> optional_member (\<lambda>v. do { vs \<leftarrow> elements v; map_run (read_rank (lj_requested_nb_res j)) vs })
       ''smpi_ranks_to_hosts_mapping'' [] d;
     Some (j1\<lparr>lj_json := txt, lj_smpi_mapping := ranks\<rparr>, AList.update (lj_profile j) (Some p1) ps) }"

text \<open>From a text; the number of the checkpoint is not passed on.\<close>

definition job_from_text ::
  "load_externals \<Rightarrow> load_settings \<Rightarrow> int \<Rightarrow> string \<Rightarrow> profile_store \<Rightarrow> (loaded_job \<times> profile_store) run" where
  "job_from_text lx st nb_checkpoint s ps = do {
     d \<leftarrow> lx_parse lx s;
     job_from_json lx st (- 1) d ps }"

subsection \<open>The jobs of a workload\<close>

text \<open>The entries of a hash map, here in the order they were added; the order of its traversal is not used.\<close>

record loaded_workload =
  lw_jobs :: "(string \<times> loaded_job) list"
  lw_jobs_met :: "string set"
  lw_profiles :: profile_store

definition add_loaded :: "loaded_job \<Rightarrow> loaded_workload \<Rightarrow> loaded_workload run" where
  "add_loaded j w = do {
     assertion (representation (lj_id j) \<notin> lw_jobs_met w);
     Some (w\<lparr>lw_jobs := AList.update (representation (lj_id j)) j (lw_jobs w),
       lw_jobs_met := insert (representation (lj_id j)) (lw_jobs_met w)\<rparr>) }"

definition load_job_entry ::
  "load_externals \<Rightarrow> load_settings \<Rightarrow> int \<Rightarrow> json \<Rightarrow> loaded_workload \<Rightarrow> loaded_workload run" where
  "load_job_entry lx st nb_checkpoint d w = do {
     (j, ps) \<leftarrow> job_from_json lx st nb_checkpoint d (lw_profiles w);
     add_loaded j (w\<lparr>lw_profiles := ps\<rparr>) }"

definition load_jobs ::
  "load_externals \<Rightarrow> load_settings \<Rightarrow> int \<Rightarrow> json \<Rightarrow> loaded_workload \<Rightarrow> loaded_workload run" where
  "load_jobs lx st nb_checkpoint d w = do {
     assertion (is_object d);
     v \<leftarrow> member_at ''jobs'' d;
     ds \<leftarrow> elements v;
     fold_run (load_job_entry lx st nb_checkpoint) ds w }"

end
