(* ===== verification/Sim_Workload.thy ===== *)
theory Sim_Workload
  imports Sim_Loading Sim_Reader
begin

text \<open>
  The loading of a workload from its document (\<^verbatim>\<open>workload.cpp\<close>): its profiles and its jobs, the
  changes the command line asks for (copies of the jobs, new submission times), the checks, and the
  release of the profiles nothing points to.  What the random generators draw, and the order a
  shuffle gives, are parameters.
\<close>

subsection \<open>Checks\<close>

text \<open>A composed profile points to its subprofiles once they are known to exist.\<close>

definition link_profile :: "string \<times> profile option \<Rightarrow> profile_store \<Rightarrow> profile_store run" where
  "link_profile entry ps = do {
     p \<leftarrow> snd entry;
     (if pr_type p = SEQUENCE then
        (case pr_data p of
           Sequence_Data q \<Rightarrow> do {
             linked \<leftarrow> map_run (\<lambda>n. do { e \<leftarrow> map_of ps n; sub \<leftarrow> e; Some n }) (qd_sequence q);
             Some (AList.update (fst entry)
               (Some (p\<lparr>pr_data := Sequence_Data (q\<lparr>qd_profile_sequence := qd_profile_sequence q @ linked\<rparr>)\<rparr>)) ps) }
         | _ \<Rightarrow> None)
      else Some ps) }"

definition check_loaded_job :: "profile_store \<Rightarrow> loaded_job \<Rightarrow> unit run" where
  "check_loaded_job ps j = do {
     entry \<leftarrow> map_of ps (lj_profile j);
     p \<leftarrow> entry;
     (if pr_type p = PARALLEL then
        (case pr_data p of
           Parallel_Data x \<Rightarrow> assertion (pd_nb_res x = lj_requested_nb_res j)
         | _ \<Rightarrow> None)
      else Some ()) }"

definition check_validity :: "loaded_workload \<Rightarrow> loaded_workload run" where
  "check_validity w = do {
     ps \<leftarrow> fold_run link_profile (lw_profiles w) (lw_profiles w);
     us \<leftarrow> map_run (\<lambda>(i, j). check_loaded_job ps j) (lw_jobs w);
     Some (w\<lparr>lw_profiles := ps\<rparr>) }"

text \<open>
  The profiles counted by a single pointer, the one of the container.  Releasing a composed profile
  releases its pointers, so that the entries traversed later count fewer; the code traverses a hash
  map, whose order is not specified.
\<close>

definition pointers_of :: "string \<Rightarrow> profile option \<Rightarrow> nat" where
  "pointers_of n e =
     (case e of
        None \<Rightarrow> 0
      | Some p \<Rightarrow> (case pr_data p of Sequence_Data q \<Rightarrow> length (filter ((=) n) (qd_profile_sequence q)) | _ \<Rightarrow> 0))"

definition use_count :: "string \<Rightarrow> loaded_workload \<Rightarrow> nat" where
  "use_count n w =
     (case map_of (lw_profiles w) n of
        Some (Some p) \<Rightarrow> 1 + length (filter (\<lambda>(i, j). lj_profile j = n) (lw_jobs w)) +
          sum_list (map (\<lambda>(m, e). pointers_of n e) (lw_profiles w))
      | _ \<Rightarrow> 0)"

definition remove_unreferenced_profiles :: "loaded_workload \<Rightarrow> loaded_workload" where
  "remove_unreferenced_profiles w =
     fold (\<lambda>n w'. if use_count n w' < 2 then w'\<lparr>lw_profiles := AList.update n None (lw_profiles w')\<rparr> else w')
       (map fst (lw_profiles w)) w"

subsection \<open>Copies of jobs\<close>

text \<open>
  Jobs are copied by loading their descriptions again, reservations excepted; this changes the
  profiles of the workload as any loading does.
\<close>

definition copied_jobs ::
  "load_externals \<Rightarrow> load_settings \<Rightarrow> loaded_job list \<Rightarrow> profile_store \<Rightarrow> (loaded_job list \<times> profile_store) run" where
  "copied_jobs lx st js ps =
     fold_run (\<lambda>j (copies, ps').
       if lj_purpose j = ''reservation'' then Some (copies, ps')
       else do {
         (j', ps'') \<leftarrow> job_from_text lx st (- 1) (lj_json j) ps';
         Some (copies @ [j'], ps'') }) js ([], ps)"

definition by_submission :: "loaded_job \<Rightarrow> loaded_job \<Rightarrow> bool" where
  "by_submission a b \<longleftrightarrow>
     (if lj_submission_time a = lj_submission_time b then job_number (lj_id a) < job_number (lj_id b)
      else lj_submission_time a < lj_submission_time b)"

definition set_jobs :: "loaded_job list \<Rightarrow> loaded_workload \<Rightarrow> loaded_workload" where
  "set_jobs js w = fold (\<lambda>j w'. w'\<lparr>lw_jobs := AList.update (representation (lj_id j)) j (lw_jobs w')\<rparr>) js w"

definition set_submission :: "load_externals \<Rightarrow> rat \<Rightarrow> loaded_job \<Rightarrow> loaded_job run" where
  "set_submission lx t j = do {
     d \<leftarrow> set_member ''subtime'' (JDouble t) (parse_doc (lx_parse lx) (lj_json j));
     Some (j\<lparr>lj_submission_time := t, lj_json := lx_print lx d\<rparr>) }"

record random_draws =
  rd_real :: "nat \<Rightarrow> rat"
  rd_int :: "nat \<Rightarrow> int"
  rd_shuffle :: "nat \<Rightarrow> nat list"

subsection \<open>New submission times\<close>

record submission_option =
  so_value1 :: string
  so_value2 :: string
  so_random :: string
  so_shuffle :: string
  so_seed :: string

definition seeded :: "string \<Rightarrow> unit run" where
  "seeded s = (if s = [] then Some () else do { k \<leftarrow> stoi s; Some () })"

text \<open>
  One time after the other, from the previous one, \<open>- 1\<close> before the first; \<open>k\<close> counts the draws.  With
  an unknown kind the time is a variable never set.
\<close>

definition next_time ::
  "random_draws \<Rightarrow> submission_option \<Rightarrow> rat \<Rightarrow> rat \<times> nat \<Rightarrow> (rat \<times> rat \<times> nat) run" where
  "next_time rd so v s =
     (case s of (previous, k) \<Rightarrow>
        if so_random so = ''fixed'' then
          (let t = (if previous = - 1 then v else v + previous) in
           Some (t, if v \<noteq> 0 then t else previous, k))
        else if so_random so = ''exp'' then
          (let t = (if previous = - 1 then rd_real rd k else rd_real rd k + previous) in Some (t, t, Suc k))
        else if so_random so = ''unif'' then do {
          v2 \<leftarrow> stod (so_value2 so);
          let t = (if previous = - 1 then rd_real rd k else rd_real rd k + previous);
          Some (t, t, Suc k) }
        else None)"

fun respaced :: "load_externals \<Rightarrow> random_draws \<Rightarrow> submission_option \<Rightarrow> rat \<Rightarrow> rat \<times> nat \<Rightarrow>
    loaded_job list \<Rightarrow> loaded_job list run" where
  "respaced lx rd so v s [] = Some []"
| "respaced lx rd so v s (j # js) = do {
     (t, s') \<leftarrow> next_time rd so v s;
     j' \<leftarrow> set_submission lx t j;
     js' \<leftarrow> respaced lx rd so v s' js;
     Some (j' # js') }"

definition shuffled :: "load_externals \<Rightarrow> random_draws \<Rightarrow> loaded_job list \<Rightarrow> loaded_job list \<Rightarrow> loaded_job list run" where
  "shuffled lx rd old new =
     map_run (\<lambda>(i, j). set_submission lx (lj_submission_time (old ! i)) j)
       (zip (rd_shuffle rd (length old)) new)"

definition space_submits ::
  "load_externals \<Rightarrow> load_settings \<Rightarrow> random_draws \<Rightarrow> submission_option \<Rightarrow> loaded_workload \<Rightarrow> loaded_workload run" where
  "space_submits lx st rd so w = do {
     (js, ps) \<leftarrow> copied_jobs lx st (map snd (lw_jobs w)) (lw_profiles w);
     seeded (so_seed so);
     (if so_value1 so \<noteq> [] then do {
        v \<leftarrow> stod (so_value1 so);
        js' \<leftarrow> respaced lx rd so v (- 1, 0) (list_sort by_submission js);
        Some (set_jobs js' (w\<lparr>lw_profiles := ps\<rparr>)) }
      else Some (w\<lparr>lw_profiles := ps\<rparr>)) }"

definition shuffle_submits ::
  "load_externals \<Rightarrow> load_settings \<Rightarrow> random_draws \<Rightarrow> submission_option \<Rightarrow> loaded_workload \<Rightarrow> loaded_workload run" where
  "shuffle_submits lx st rd so w =
     (if so_shuffle so = ''shuffle'' \<or> so_shuffle so = ''s'' then do {
        (old, ps1) \<leftarrow> copied_jobs lx st (map snd (lw_jobs w)) (lw_profiles w);
        (new, ps2) \<leftarrow> copied_jobs lx st (map snd (lw_jobs w)) ps1;
        js \<leftarrow> shuffled lx rd (list_sort by_submission old) (list_sort by_submission new);
        Some (set_jobs js (w\<lparr>lw_profiles := ps2\<rparr>)) }
      else Some w)"

definition change_submits ::
  "load_externals \<Rightarrow> load_settings \<Rightarrow> random_draws \<Rightarrow> submission_option option \<Rightarrow> loaded_workload \<Rightarrow>
   loaded_workload run" where
  "change_submits lx st rd option w =
     (case option of
        None \<Rightarrow> Some w
      | Some so \<Rightarrow> do { w1 \<leftarrow> space_submits lx st rd so w; shuffle_submits lx st rd so w1 })"

subsection \<open>Copies of the workload\<close>

record copy_option =
  co_copies :: string
  co_symbol :: string
  co_value1 :: string
  co_value2 :: string
  co_seed :: string
  co_unif :: string
  co_how_many :: string

text \<open>
  The state of a round of copies: the previous time, the number kept for several jobs (\<open>- 1\<close> when
  none is), the count of draws.
\<close>

record copy_state =
  cs_previous :: rat
  cs_random :: int
  cs_draws :: nat

definition signed_text :: "char \<Rightarrow> int \<Rightarrow> string" where
  "signed_text sign n = [sign] @ show_int n"

text \<open>
  The new time of a copy and its jitter.  Where no branch of the code sets the time it is a variable
  never set, or the time of the job before; these runs are left out.
\<close>

definition shifted_time :: "copy_option \<Rightarrow> int \<Rightarrow> rat \<Rightarrow> string \<Rightarrow> (rat \<times> string) run" where
  "shifted_time co n old jitter =
     (if co_symbol co = ''+'' then Some (old + of_int n, signed_text CHR ''+'' n)
      else if co_symbol co = ''-'' then Some (old - of_int n, signed_text CHR ''-'' n)
      else None)"

definition copy_time ::
  "random_draws \<Rightarrow> copy_option \<Rightarrow> rat \<Rightarrow> string \<Rightarrow> copy_state \<Rightarrow> (rat \<times> string \<times> copy_state) run" where
  "copy_time rd co old jitter s = do {
     value1 \<leftarrow> stoi (co_value1 co);
     (if co_value2 co = ''fixed'' then
        (if co_symbol co = ''='' then
           (let t = (if cs_previous s = - 1 then of_int value1 else cs_previous s + of_int value1) in
            Some (t, jitter, if value1 \<noteq> 0 then s\<lparr>cs_previous := t\<rparr> else s))
         else do { (t, jit) \<leftarrow> shifted_time co value1 old jitter; Some (t, jit, s) })
      else if co_value2 co = ''exp'' then do {
        assertion (co_symbol co = ''='');
        let t = (if cs_previous s = - 1 then rd_real rd (cs_draws s) else rd_real rd (cs_draws s) + cs_previous s);
        Some (t, jitter, s\<lparr>cs_previous := t, cs_draws := Suc (cs_draws s)\<rparr>) }
      else if co_unif co = ''unif'' then do {
        value2 \<leftarrow> stoi (co_value2 co);
        (if co_symbol co = ''='' then
           (let x = of_int (rd_int rd (cs_draws s)); t = (if cs_previous s = - 1 then x else x + cs_previous s) in
            Some (t, jitter, s\<lparr>cs_previous := t, cs_draws := Suc (cs_draws s)\<rparr>))
         else if co_how_many co \<in> {''single'', ''each-copy'', ''all''} then do {
           let s1 = (if cs_random s = - 1 then s\<lparr>cs_random := rd_int rd (cs_draws s), cs_draws := Suc (cs_draws s)\<rparr> else s);
           (t, jit) \<leftarrow> shifted_time co (cs_random s1) old jitter;
           Some (t, jit, if co_how_many co = ''all'' then s1\<lparr>cs_random := - 1\<rparr> else s1) }
         else None) }
      else None) }"

text \<open>One copied job: its number is its name and the name of its own profile.\<close>

definition copy_one ::
  "load_externals \<Rightarrow> load_settings \<Rightarrow> random_draws \<Rightarrow> copy_option \<Rightarrow> profile_store \<Rightarrow> int \<Rightarrow> copy_state \<Rightarrow>
   loaded_job \<Rightarrow> ((loaded_job \<times> profile) \<times> copy_state) run" where
  "copy_one lx st rd co ps number s j = do {
     let name = show_int number;
     ji \<leftarrow> make_identifier (st_name st) name number;
     d1 \<leftarrow> set_member ''id'' (JString name) (parse_doc (lx_parse lx) (lj_json j));
     d2 \<leftarrow> set_member ''profile'' (JString name) d1;
     entry \<leftarrow> map_of ps (lj_profile j);
     old_profile \<leftarrow> entry;
     p \<leftarrow> profile_from_text (lx_files lx) (lx_parse lx) (lx_print lx) name (pr_json old_profile);
     let j1 = j\<lparr>lj_id := ji, lj_profile := name\<rparr>;
     (if co_value1 co = [] then Some ((j1\<lparr>lj_json := lx_print lx d2\<rparr>, p), s)
      else do {
        (t, jit, s1) \<leftarrow> copy_time rd co (lj_submission_time j) (lj_jitter j) s;
        d3 \<leftarrow> set_member ''subtime'' (JDouble t) d2;
        Some ((j1\<lparr>lj_submission_time := t, lj_jitter := jit, lj_json := lx_print lx d3\<rparr>, p), s1) }) }"

definition copy_job ::
  "load_externals \<Rightarrow> load_settings \<Rightarrow> random_draws \<Rightarrow> copy_option \<Rightarrow> profile_store \<Rightarrow> loaded_job \<Rightarrow>
   int \<times> copy_state \<times> (loaded_job \<times> profile) list \<Rightarrow> (int \<times> copy_state \<times> (loaded_job \<times> profile) list) run" where
  "copy_job lx st rd co ps j acc =
     (case acc of (number, s, done) \<Rightarrow> do {
        (copy, s1) \<leftarrow> copy_one lx st rd co ps number s j;
        Some (number + 1, s1, done @ [copy]) })"

definition copy_components ::
  "load_externals \<Rightarrow> load_settings \<Rightarrow> random_draws \<Rightarrow> copy_option \<Rightarrow> int \<Rightarrow> loaded_job list \<Rightarrow> copy_state \<Rightarrow> profile_store \<Rightarrow>
   ((loaded_job \<times> profile) list \<times> copy_state \<times> profile_store) run" where
  "copy_components lx st rd co start_id old s ps = do {
     seeded (co_seed co);
     (js, ps1) \<leftarrow> copied_jobs lx st old ps;
     (number, s1, new) \<leftarrow> fold_run (copy_job lx st rd co ps1) (list_sort by_submission js)
       (start_id, s\<lparr>cs_previous := - 1\<rparr>, []);
     Some (new, if co_unif co = ''unif'' \<and> co_how_many co = ''each-copy'' then s1\<lparr>cs_random := - 1\<rparr> else s1, ps1) }"

definition extend_jobs :: "(loaded_job \<times> profile) list \<Rightarrow> loaded_workload \<Rightarrow> loaded_workload run" where
  "extend_jobs new w =
     fold_run (\<lambda>(j, p) w'. do {
       w1 \<leftarrow> add_loaded j w';
       assertion (map_of (lw_profiles w1) (pr_name p) = None);
       Some (w1\<lparr>lw_profiles := lw_profiles w1 @ [(pr_name p, Some p)]\<rparr>) }) new w"

fun copy_rounds ::
  "load_externals \<Rightarrow> load_settings \<Rightarrow> random_draws \<Rightarrow> copy_option \<Rightarrow> loaded_job list \<Rightarrow> nat \<Rightarrow> int \<Rightarrow> copy_state \<Rightarrow>
   loaded_workload \<Rightarrow> loaded_workload run" where
  "copy_rounds lx st rd co old 0 start_id s w = Some w"
| "copy_rounds lx st rd co old (Suc n) start_id s w = do {
     (new, s1, ps) \<leftarrow> copy_components lx st rd co start_id old s (lw_profiles w);
     w1 \<leftarrow> extend_jobs new (w\<lparr>lw_profiles := ps\<rparr>);
     copy_rounds lx st rd co old n (start_id + int (length new) + 1) s1 w1 }"

definition largest_number :: "loaded_job list \<Rightarrow> int" where
  "largest_number js = fold (\<lambda>j m. if m < job_number (lj_id j) then job_number (lj_id j) else m) js 0"

definition copy_workload ::
  "load_externals \<Rightarrow> load_settings \<Rightarrow> random_draws \<Rightarrow> copy_option \<Rightarrow> loaded_workload \<Rightarrow> loaded_workload run" where
  "copy_workload lx st rd co w = do {
     (old, ps) \<leftarrow> copied_jobs lx st (map snd (lw_jobs w)) (lw_profiles w);
     n \<leftarrow> stoi (co_copies co);
     copy_rounds lx st rd co old (nat (n - 1)) (largest_number old + 1)
       \<lparr>cs_previous = - 1, cs_random = - 1, cs_draws = 0\<rparr> (w\<lparr>lw_profiles := ps\<rparr>) }"

record alterations =
  al_before :: "submission_option option"
  al_copy :: "copy_option option"
  al_after :: "submission_option option"

definition alter_workload ::
  "load_externals \<Rightarrow> load_settings \<Rightarrow> random_draws \<Rightarrow> alterations \<Rightarrow> loaded_workload \<Rightarrow> loaded_workload run" where
  "alter_workload lx st rd al w = do {
     w1 \<leftarrow> change_submits lx st rd (al_before al) w;
     w2 \<leftarrow> (case al_copy al of None \<Rightarrow> Some w1 | Some co \<Rightarrow> copy_workload lx st rd co w1);
     change_submits lx st rd (al_after al) w2 }"

subsection \<open>A workload\<close>

definition empty_workload :: loaded_workload where
  "empty_workload = \<lparr>lw_jobs = [], lw_jobs_met = {}, lw_profiles = []\<rparr>"

definition load_workload ::
  "load_externals \<Rightarrow> load_settings \<Rightarrow> random_draws \<Rightarrow> alterations \<Rightarrow> string \<Rightarrow> json \<Rightarrow>
   (load_settings \<times> loaded_workload) run" where
  "load_workload lx st rd al filename d = do {
     assertion (is_object d);
     n \<leftarrow> int_member ''nb_res'' d;
     assertion (0 < n);
     let st' = st\<lparr>st_num_machines := n\<rparr>;
     ps \<leftarrow> load_profiles (lx_files lx) (lx_print lx) filename d [];
     w \<leftarrow> load_jobs lx st' (- 1) d (empty_workload\<lparr>lw_profiles := ps\<rparr>);
     w1 \<leftarrow> alter_workload lx st' rd al w;
     w2 \<leftarrow> check_validity w1;
     Some (st', remove_unreferenced_profiles w2) }"

text \<open>From a checkpoint: its number is increased, and written into the names of the jobs.\<close>

record checkpoint_counts =
  cc_nb_checkpoint :: int
  cc_nb_original_jobs :: int
  cc_nb_previously_completed :: int
  cc_nb_actually_completed :: int

definition load_checkpointed_workload ::
  "load_externals \<Rightarrow> load_settings \<Rightarrow> string \<Rightarrow> json \<Rightarrow> (load_settings \<times> checkpoint_counts \<times> loaded_workload) run" where
  "load_checkpointed_workload lx st filename d = do {
     assertion (is_object d);
     n \<leftarrow> int_member ''nb_res'' d;
     assertion (0 < n);
     k \<leftarrow> int_member ''nb_checkpoint'' d;
     orig \<leftarrow> int_member ''nb_original_jobs'' d;
     completed \<leftarrow> int_member ''nb_actually_completed'' d;
     let st' = st\<lparr>st_num_machines := n\<rparr>;
     ps \<leftarrow> load_profiles (lx_files lx) (lx_print lx) filename d [];
     w \<leftarrow> load_jobs lx st' (k + 1) d (empty_workload\<lparr>lw_profiles := ps\<rparr>);
     w1 \<leftarrow> check_validity w;
     Some (st', \<lparr>cc_nb_checkpoint = k + 1, cc_nb_original_jobs = orig, cc_nb_previously_completed = completed,
       cc_nb_actually_completed = completed\<rparr>, remove_unreferenced_profiles w1) }"

end
