(* ===== verification/Sim_Loading_Correct.thy ===== *)
theory Sim_Loading_Correct
  imports Sim_Loading
begin

text \<open>
  What the loading of a job does to the profile it shares with others, and to its description: the
  time of checkpoints, the performance factor, the identifier.
\<close>

subsection \<open>The steps of the loading\<close>

lemma with_checkpoints_count:
  assumes "0 < interval" "0 < delay"
  shows "with_checkpoints interval dump delay =
    Some (delay + of_int (\<lceil>delay / interval\<rceil> - 1) * dump)"
proof -
  define q where "q = delay / interval"
  have q: "0 < q" and d: "delay = q * interval" using assms by (simp_all add: q_def)
  have whole: "of_int \<lfloor>q\<rfloor> * interval = delay \<longleftrightarrow> of_int \<lfloor>q\<rfloor> = q" using assms(1) by (simp add: d)
  have unfolded: "with_checkpoints interval dump delay =
      Some (if 0 < \<lfloor>q\<rfloor> then of_int (\<lfloor>q\<rfloor> - (if of_int \<lfloor>q\<rfloor> = q then 1 else 0)) * dump + delay else delay)"
    using assms(1) unfolding with_checkpoints_def Let_def q_def[symmetric] whole by simp
  show ?thesis
  proof (cases "of_int \<lfloor>q\<rfloor> = q")
    case True
    then have c: "\<lceil>q\<rceil> = \<lfloor>q\<rfloor>" by (metis ceiling_of_int)
    have p: "0 < \<lfloor>q\<rfloor>" using q True by (metis of_int_0_less_iff)
    show ?thesis unfolding unfolded q_def[symmetric] c if_P[OF p] if_P[OF True] by simp
  next
    case False
    then have c: "\<lceil>q\<rceil> = \<lfloor>q\<rfloor> + 1" by (simp add: ceiling_altdef)
    have z: "\<lfloor>q\<rfloor> = 0" if "\<not> 0 < \<lfloor>q\<rfloor>" using q that by linarith
    have "(if 0 < \<lfloor>q\<rfloor> then of_int \<lfloor>q\<rfloor> * dump + delay else delay) = delay + of_int \<lfloor>q\<rfloor> * dump"
    proof (cases "0 < \<lfloor>q\<rfloor>")
      case False
      show ?thesis unfolding z[OF False] by simp
    qed (simp only: if_True add.commute)
    then show ?thesis unfolding unfolded q_def[symmetric] c if_not_P[OF False]
      by (simp only: diff_zero add_diff_cancel_right')
  qed
qed

lemma read_checkpoint_data_same:
  assumes "read_checkpoint_data st d j = Some j'"
  shows "lj_id j' = lj_id j" "lj_profile j' = lj_profile j" "lj_requested_nb_res j' = lj_requested_nb_res j"
  using assms unfolding read_checkpoint_data_def by (auto split: if_splits bind_splits)

lemma set_checkpoints_parts:
  assumes "set_checkpoints lx st key orig speed d (j, copy) pd = Some ((j', copy'), p)"
  obtains ct ct' copy1 where "(if is_parent j
       then parent_checkpoints lx st key orig speed (lj_requested_nb_res j) ct copy pd
       else Some (ct, copy, fst pd)) = Some (ct', copy1, p)"
    "j' = j\<lparr>lj_checkpoint_interval := ct_interval ct', lj_dump_time := ct_dump ct', lj_read_time := ct_read ct'\<rparr>"
proof -
  obtain ct q where q: "(if is_parent j
       then parent_checkpoints lx st key orig speed (lj_requested_nb_res j) ct copy pd
       else Some (ct, copy, fst pd)) = Some q"
    and r: "fst (fst (case q of (ct', copy1, p) \<Rightarrow> ((j\<lparr>lj_checkpoint_interval := ct_interval ct', lj_dump_time := ct_dump ct',
       lj_read_time := ct_read ct'\<rparr>, copy1), p))) = j'" "snd (snd q) = p"
    using assms unfolding set_checkpoints_def fst_conv snd_conv
    by (elim run_bindE) (auto split: prod.splits bind_splits)
  show ?thesis by (rule that[of ct "fst q" "fst (snd q)"]) (use q r in \<open>auto split: prod.splits\<close>)
qed

lemma set_checkpoints_same:
  assumes "set_checkpoints lx st key orig speed d (j, copy) pd = Some ((j', copy'), p)"
  shows "lj_id j' = lj_id j" "lj_profile j' = lj_profile j" "lj_requested_nb_res j' = lj_requested_nb_res j"
  using assms by (auto elim!: set_checkpoints_parts)

lemma edit_workE:
  assumes "edit_work lx st key orig speed d jc p = Some ((j', copy'), p')"
  obtains pd copy where "apply_performance_factor lx st key (fst jc) (p, parse_doc (lx_parse lx) (pr_json p)) = Some pd"
    "(if st_checkpointing_on st then set_checkpoints lx st key orig speed d jc pd else Some (jc, fst pd)) =
      Some ((j', copy), p')"
proof -
  obtain pd q where pd: "apply_performance_factor lx st key (fst jc) (p, parse_doc (lx_parse lx) (pr_json p)) = Some pd"
    and q: "(if st_checkpointing_on st then set_checkpoints lx st key orig speed d jc pd else Some (jc, fst pd)) = Some q"
    and r: "fst (fst q) = j'" "snd q = p'"
    using assms unfolding edit_work_def by (elim run_bindE) (auto split: prod.splits bind_splits)
  show ?thesis by (rule that[OF pd, of "snd (fst q)"]) (use q r in auto)
qed

lemma edit_job_same:
  assumes "edit_job lx st d (j, copy) p = Some ((j', copy'), p')"
  shows "lj_id j' = lj_id j" "lj_profile j' = lj_profile j" "lj_requested_nb_res j' = lj_requested_nb_res j"
  using assms unfolding edit_job_def
  by (auto split: if_splits elim!: edit_workE dest: set_checkpoints_same)

lemma job_from_jsonE:
  assumes "job_from_json lx st nb d ps = Some (j, ps')"
  obtains j0 copy p j1 copy1 p1 where "read_fields lx st nb d ps = Some j0"
    "map_of ps (lj_profile j) = Some (Some p)" "edit_job lx st d (j0, copy) p = Some ((j1, copy1), p1)"
    "lj_id j0 = lj_id j" "lj_requested_nb_res j0 = lj_requested_nb_res j" "lj_profile j0 = lj_profile j"
    "lj_checkpoint_interval j = lj_checkpoint_interval j1" "lj_dump_time j = lj_dump_time j1"
    "lj_json j = replace_ids (id_member (lj_id j)) [] (lx_print lx copy1)"
    "ps' = AList.update (lj_profile j) (Some p1) ps"
proof -
  obtain j0 copy p j1 copy1 p1 where a: "read_fields lx st nb d ps = Some j0"
    "map_of ps (lj_profile j0) = Some (Some p)" "edit_job lx st d (j0, copy) p = Some ((j1, copy1), p1)"
    "lj_checkpoint_interval j = lj_checkpoint_interval j1" "lj_dump_time j = lj_dump_time j1"
    "lj_id j = lj_id j1" "lj_profile j = lj_profile j1" "lj_requested_nb_res j = lj_requested_nb_res j1"
    "lj_json j = replace_ids (id_member (lj_id j0)) [] (lx_print lx copy1)"
    "ps' = AList.update (lj_profile j0) (Some p1) ps"
    using assms unfolding job_from_json_def Let_def by (auto simp: run_simps split: prod.splits)
  then show ?thesis using that edit_job_same[OF a(3)] by metis
qed

lemma is_parent_same: "lj_id j0 = lj_id j \<Longrightarrow> is_parent j0 = is_parent j"
  by (simp add: is_parent_def)

text \<open>The work with the checkpoints, and the profile after them.\<close>

definition checkpointed_work :: "rat \<Rightarrow> rat \<Rightarrow> rat \<Rightarrow> rat \<Rightarrow> rat" where
  "checkpointed_work speed interval dump w = w + of_int (\<lceil>w / speed / interval\<rceil> - 1) * dump * speed"

lemma lengthen_profile_work:
  assumes "lengthen_profile lx key orig speed interval dump (p, doc) = Some p'"
    and "original_work_of (pr_data p) = - 1" "0 < speed" "0 < interval" "0 < work_of (pr_data p)"
  shows "pr_data p' = set_work (checkpointed_work speed interval dump (work_of (pr_data p)))
      (set_real_work (work_of (pr_data p)) (pr_data p))" "pr_type p' = pr_type p"
proof -
  let ?w = "work_of (pr_data p)"
  have c: "with_checkpoints interval dump (?w / speed) =
      Some (?w / speed + of_int (\<lceil>?w / speed / interval\<rceil> - 1) * dump)"
    by (rule with_checkpoints_count) (use assms in simp_all)
  have "(?w / speed + of_int (\<lceil>?w / speed / interval\<rceil> - 1) * dump) * speed = checkpointed_work speed interval dump ?w"
    using assms(3) by (simp add: checkpointed_work_def distrib_right)
  then show "pr_data p' = set_work (checkpointed_work speed interval dump ?w) (set_real_work ?w (pr_data p))"
      "pr_type p' = pr_type p"
    using assms unfolding lengthen_profile_def prod.case Let_def c by (auto split: bind_splits)
qed

lemma edit_work_lengthens:
  assumes "edit_work lx st key orig speed d (j, copy) p = Some ((j', copy'), p')"
    and "st_checkpointing_on st" "st_performance_factor st = 1" "is_parent j"
    and "original_work_of (pr_data p) = - 1" "0 < speed" "0 < lj_checkpoint_interval j'" "0 < work_of (pr_data p)"
  shows "pr_data p' = set_work (checkpointed_work speed (lj_checkpoint_interval j') (lj_dump_time j') (work_of (pr_data p)))
      (set_real_work (work_of (pr_data p)) (pr_data p)) \<and> pr_type p' = pr_type p"
proof -
  let ?doc = "parse_doc (lx_parse lx) (pr_json p)"
  have "apply_performance_factor lx st key j (p, ?doc) = Some (p, ?doc)"
    using assms(3) by (simp add: apply_performance_factor_def)
  then obtain copy1 where "set_checkpoints lx st key orig speed d (j, copy) (p, ?doc) = Some ((j', copy1), p')"
    using assms(1,2) by (auto elim!: edit_workE)
  then obtain ct ct' copy2 where
      c: "parent_checkpoints lx st key orig speed (lj_requested_nb_res j) ct copy (p, ?doc) = Some (ct', copy2, p')"
      and j': "lj_checkpoint_interval j' = ct_interval ct'" "lj_dump_time j' = ct_dump ct'"
    using assms(4) by (auto elim!: set_checkpoints_parts)
  have "lengthen_profile lx key orig speed (ct_interval ct') (ct_dump ct') (p, ?doc) = Some p'"
    using c unfolding parent_checkpoints_def by (auto split: bind_splits)
  then show ?thesis using lengthen_profile_work[of lx key orig speed "ct_interval ct'" "ct_dump ct'" p ?doc p'] assms j'
    by simp
qed

lemma job_lengthens_profile:
  assumes "job_from_json lx st nb d ps = Some (j, ps')" "map_of ps (lj_profile j) = Some (Some p)"
    and "pr_type p = DELAY \<and> speed = 1 \<or> pr_type p = PARALLEL_HOMOGENEOUS \<and> speed = st_speed st"
    and "st_checkpointing_on st" "st_performance_factor st = 1" "is_parent j"
    and "original_work_of (pr_data p) = - 1" "0 < speed" "0 < lj_checkpoint_interval j" "0 < work_of (pr_data p)"
  shows "\<exists>p'. ps' = AList.update (lj_profile j) (Some p') ps \<and> pr_type p' = pr_type p \<and>
    pr_data p' = set_work (checkpointed_work speed (lj_checkpoint_interval j) (lj_dump_time j) (work_of (pr_data p)))
      (set_real_work (work_of (pr_data p)) (pr_data p))"
proof -
  obtain j0 copy j1 copy1 p1 where e: "edit_job lx st d (j0, copy) p = Some ((j1, copy1), p1)"
    and j: "lj_id j0 = lj_id j" "lj_checkpoint_interval j = lj_checkpoint_interval j1" "lj_dump_time j = lj_dump_time j1"
    and ps': "ps' = AList.update (lj_profile j) (Some p1) ps"
    using assms(1,2) by (auto elim!: job_from_jsonE)
  have "\<exists>key orig. edit_work lx st key orig speed d (j0, copy) p = Some ((j1, copy1), p1)"
    using assms(3) e unfolding edit_job_def by (elim disjE) (simp, blast)+
  then obtain key orig where w: "edit_work lx st key orig speed d (j0, copy) p = Some ((j1, copy1), p1)" by blast
  show ?thesis using edit_work_lengthens[OF w] assms is_parent_same[OF j(1)] j ps' by auto
qed

fun real_work_of :: "profile_data \<Rightarrow> rat" where
  "real_work_of (Delay_Data x) = dd_real_delay x"
| "real_work_of (Homogeneous_Data x) = hd_real_cpu x"
| "real_work_of _ = 0"

lemma set_work_simps [simp]:
  "original_work_of (set_work a x) = original_work_of x" "original_work_of (set_real_work a x) = original_work_of x"
  "real_work_of (set_work a x) = real_work_of x" "work_of (set_real_work a x) = work_of x"
  "type_of_data (set_work a x) = type_of_data x" "type_of_data (set_real_work a x) = type_of_data x"
  by (cases x; simp)+

lemma set_work_work:
  assumes "type_of_data x \<in> {DELAY, PARALLEL_HOMOGENEOUS}"
  shows "work_of (set_work a x) = a" "real_work_of (set_real_work a x) = a"
  using assms by (cases x; simp)+

lemma checkpointed_work_pos:
  assumes "0 < w" "0 < speed" "0 < interval" "0 \<le> dump" shows "0 < checkpointed_work speed interval dump w"
proof -
  have "1 \<le> \<lceil>w / speed / interval\<rceil>" using assms by simp
  then have "0 \<le> of_int (\<lceil>w / speed / interval\<rceil> - 1) * dump * speed" using assms by simp
  then show ?thesis using assms(1) by (simp add: checkpointed_work_def)
qed

subsection \<open>The identifier in the description\<close>

lemma expand_plain:
  "CHR ''$'' \<notin> set xs \<Longrightarrow> expand m pre post (xs @ s) = xs @ expand m pre post s"
proof (induction xs)
  case (Cons c xs)
  then show ?case by (cases "xs @ s") auto
qed simp

lemma is_digit_quote: "\<not> is_digit double_quote"
  by (simp add: is_digit_def double_quote_def)

lemma digit_not_mark:
  assumes "is_digit c" shows "c \<noteq> CHR ''$''" "c \<noteq> CHR ''&''" "c \<noteq> CHR 0x60" "c \<noteq> single_quote"
  using assms by (auto simp: is_digit_def single_quote_def)

lemma expand_number:
  assumes "0 < k" "k < 100"
  shows "expand m pre post (CHR ''$'' # show_nat k @ [double_quote]) = [double_quote]"
proof (cases "k < 10")
  case True
  then have "show_nat k = [digit k]" by (simp add: show_nat.simps)
  then show ?thesis
    using assms True digit_facts[OF True] digit_not_mark[OF digit_facts(1)[OF True]] by (simp add: is_digit_quote group_def)
next
  case False
  then have b: "k div 10 < 10" "k mod 10 < 10" using assms by auto
  have "show_nat k = [digit (k div 10), digit (k mod 10)]"
    using False b by (subst show_nat.simps) (simp add: show_nat.simps[of "k div 10"])
  then show ?thesis
    using assms digit_facts[OF b(1)] digit_facts[OF b(2)] digit_not_mark[OF digit_facts(1)[OF b(1)]]
    by (simp add: group_def)
qed

lemma replace_ids_cong:
  assumes "\<And>m pre post. expand m pre post f = expand m pre post g"
  shows "replace_ids f pre s = replace_ids g pre s"
proof (induction "length s" arbitrary: pre s rule: less_induct)
  case less
  show ?case
  proof (cases s)
    case Nil
    then show ?thesis by (simp add: replace_ids.simps)
  next
    case (Cons c s')
    show ?thesis
    proof (cases "match_id s")
      case None
      then show ?thesis using less[of s' "pre @ [c]"] Cons by (simp add: replace_ids.simps[of _ _ "c # s'"])
    next
      case (Some r)
      then have "replace_ids f [] r = replace_ids g [] r" using less match_id_shorter by blast
      then show ?thesis using Some Cons assms by (simp add: replace_ids.simps[of _ _ "c # s'"])
    qed
  qed
qed

lemma double_quote_not_dollar: "CHR ''$'' \<noteq> double_quote"
proof
  assume "CHR ''$'' = double_quote"
  then have "of_char CHR ''$'' = (of_char double_quote :: nat)" by simp
  then show False by (simp add: double_quote_def)
qed

lemma expand_checkpoint_name:
  assumes "0 < k" "k < 100" "CHR ''$'' \<notin> set (workload_name ji)" "CHR ''$'' \<notin> set base"
  shows "expand m pre post (id_member (ji\<lparr>job_name := base @ ''$'' @ show_nat k\<rparr>)) =
    expand m pre post (id_member (ji\<lparr>job_name := base\<rparr>))"
proof -
  let ?front = "id_key @ '':'' @ [double_quote] @ workload_name ji @ ''!'' @ base"
  have plain: "CHR ''$'' \<notin> set ?front" using assms(3,4) double_quote_not_dollar by (simp add: id_key_def)
  have "id_member (ji\<lparr>job_name := base @ ''$'' @ show_nat k\<rparr>) = ?front @ CHR ''$'' # show_nat k @ [double_quote]"
    and "id_member (ji\<lparr>job_name := base\<rparr>) = ?front @ [double_quote]"
    by (simp_all add: id_member_def representation_def)
  then show ?thesis using expand_plain[OF plain] expand_number[OF assms(1,2)] by simp
qed

text \<open>Every loaded job that is not resubmitted applies the performance factor to its profile again.\<close>

lemma performance_factor_applied:
  assumes "job_from_json lx st nb d ps = Some (j, ps')" "map_of ps (lj_profile j) = Some (Some p)"
    and "pr_type p \<in> {DELAY, PARALLEL_HOMOGENEOUS}" "\<not> st_checkpointing_on st" "is_parent j"
    and "type_of_data (pr_data p) = pr_type p"
  shows "\<exists>p'. ps' = AList.update (lj_profile j) (Some p') ps \<and> pr_type p' = pr_type p \<and>
    type_of_data (pr_data p') = pr_type p \<and>
    work_of (pr_data p') = st_performance_factor st * work_of (pr_data p)"
proof -
  obtain j0 copy j1 copy1 p1 where e: "edit_job lx st d (j0, copy) p = Some ((j1, copy1), p1)"
    and j: "lj_id j0 = lj_id j" and ps': "ps' = AList.update (lj_profile j) (Some p1) ps"
    using assms(1,2) by (auto elim!: job_from_jsonE)
  obtain key orig speed where "edit_work lx st key orig speed d (j0, copy) p = Some ((j1, copy1), p1)"
    using e assms(3) unfolding edit_job_def by (auto split: if_splits)
  then obtain pd where pd: "apply_performance_factor lx st key j0 (p, parse_doc (lx_parse lx) (pr_json p)) = Some pd"
      "p1 = fst pd"
    using assms(4) by (auto elim!: edit_workE)
  have "is_parent j0" using assms(5) is_parent_same[OF j] by simp
  then have "pr_type p1 = pr_type p \<and> type_of_data (pr_data p1) = pr_type p \<and>
      work_of (pr_data p1) = st_performance_factor st * work_of (pr_data p)"
    using pd assms(3,6) unfolding apply_performance_factor_def prod.case Let_def
    by (auto split: if_splits bind_splits simp: set_work_work)
  then show ?thesis using ps' by blast
qed


subsection \<open>An example\<close>

definition demo_job_document :: json where
  "demo_job_document = JObject [(''id'', JString ''w0!1$2''), (''subtime'', JInt 0), (''res'', JInt 1),
     (''profile'', JString ''p''), (''checkpoint_interval'', JInt 4), (''dumptime'', JInt 1), (''delay'', JInt 10)]"

definition demo_externals :: load_externals where
  "demo_externals = \<lparr>lx_parse = (\<lambda>s. Some demo_job_document), lx_print = (\<lambda>d. ''{}''), lx_format = std_format,
     lx_files = no_files, lx_sqrt = (\<lambda>x. x)\<rparr>"

definition demo_settings :: load_settings where
  "demo_settings = \<lparr>st_name = ''w0'', st_checkpointing_on = True, st_compute_checkpointing = False,
     st_compute_error = 1, st_MTBF = - 1, st_SMTBF = - 1, st_performance_factor = 1, st_global_interval = - 1,
     st_num_machines = 4, st_speed = 1, st_reservations_start = None, st_from_checkpoint = False\<rparr>"

definition demo_profile :: "rat \<Rightarrow> rat \<Rightarrow> profile" where
  "demo_profile delay r = \<lparr>pr_name = ''p'', pr_type = DELAY,
     pr_data = Delay_Data \<lparr>dd_delay = delay, dd_real_delay = r, dd_original_delay = - 1, dd_original_real_delay = - 1\<rparr>,
     pr_json = ''{}'', pr_return_code = 0\<rparr>"

definition demo_loaded_job :: loaded_job where
  "demo_loaded_job = \<lparr>lj_id = \<lparr>workload_name = ''w0'', job_name = ''1$2'', job_number = 1\<rparr>, lj_submission_time = 0,
     lj_submission_times = [0], lj_walltime = - 1, lj_original_walltime = - 1, lj_requested_nb_res = 1,
     lj_profile = ''p'', lj_purpose = ''job'', lj_start = - 1, lj_future_allocation = {},
     lj_checkpoint = no_checkpoint\<lparr>ck_original_submit := 0\<rparr>, lj_metadata = [], lj_batsim_metadata = [],
     lj_jitter = [], lj_checkpoint_interval = 4, lj_dump_time = 1, lj_read_time = - 1, lj_smpi_mapping = [],
     lj_json = ''{}''\<rparr>"

lemma set_member_object:
  assumes "map_of ms k \<noteq> None" shows "\<exists>ms'. set_member k v (JObject ms) = Some (JObject ms')"
proof -
  have "\<exists>ms'. replace_member k v ms = Some ms'"
    using assms by (induction ms) (auto split: if_splits)
  then show ?thesis by (auto simp: set_member_def)
qed

lemma overwrite_object: "\<exists>ms'. overwrite_member b k v (JObject ms) = Some (JObject ms')"
  using set_member_object[of ms k v]
  by (cases "map_of ms k = None") (auto simp: overwrite_member_def add_member_def json_simps)

lemma add_missing_object: "\<exists>ms'. add_missing k v (JObject ms) = Some (JObject ms')"
  by (simp add: add_missing_def add_member_def json_simps)

lemma occurs_in_prefix: "occurs_in x (x @ s)"
proof (cases "x @ s")
  case (Cons c r)
  have "take (length x) (x @ s) = x" by simp
  then show ?thesis unfolding Cons by simp
qed simp

lemma read_full_name:
  assumes "plain_workload (Some w)" "fits_int (int n)" "fits_int (optional_number r)" "fits_int (optional_number c)"
    and "length (full_name (Some w) n r c) \<le> 2 ^ 63" "nb = - 1 \<and> c' = c \<or> 0 \<le> nb \<and> c' = Some (nat nb)"
  shows "read_identifier w nb (JString (full_name (Some w) n r c)) =
    Some \<lparr>workload_name = w, job_name = show_nat n @ optional_part ''#'' r @ optional_part ''$'' c', job_number = int n\<rparr>"
proof -
  let ?name = "show_nat n @ optional_part ''#'' r @ optional_part ''$'' c'"
  let ?ji = "\<lparr>workload_name = w, job_name = ?name, job_number = int n\<rparr>"
  have "(if nb = - 1 then optional_part ''$'' c else ''$'' @ show_int nb) = optional_part ''$'' c'"
    using assms(6) by (auto simp: optional_part_def show_int_def)
  then have whole: "workload_part (Some w) @ show_nat n @ optional_part ''#'' r @
      (if nb = - 1 then optional_part ''$'' c else ''$'' @ show_int nb) = representation ?ji"
    by (simp add: representation_def workload_part_def)
  have "is_lexically_valid ?ji"
    using assms(1) plain_marks by (auto simp: is_lexically_valid_def plain_workload_def show_nat_not_in)
  moreover have "stoi ?name = Some (int n)"
    using stoi_show_nat_prefix[OF assms(2)] no_digit_next by blast
  ultimately have "job_identifier (representation ?ji) = Some ?ji" by (intro identifier_round_trip) simp_all
  moreover have "occurs_in w (representation ?ji)" by (simp add: representation_def occurs_in_prefix)
  ultimately show ?thesis
    unfolding read_identifier_def id_text.simps Option.bind.simps parts_of_name[OF assms(1-5)] Let_def
      job_parts.select_convs whole by simp
qed

lemma demo_id_read:
  "read_identifier ''w0'' (- 1) (JString ''w0!1$2'') = Some \<lparr>workload_name = ''w0'', job_name = ''1$2'', job_number = 1\<rparr>"
proof -
  have d: "show_nat (Suc 0) = ''1''" "show_nat 2 = ''2''" by code_simp+
  show ?thesis
    using read_full_name[of "''w0''" 1 None "Some 2" "- 1" "Some 2"]
    by (simp add: d full_name_def workload_part_def optional_part_def plain_workload_def optional_number_def fits_int_def)
qed

lemma demo_members [simp]:
  "member_at ''id'' demo_job_document = Some (JString ''w0!1$2'')"
  "double_member ''subtime'' demo_job_document = Some 0"
  "optional_member get_doubles ''submission_times'' [x] demo_job_document = Some [x]"
  "read_walltime demo_job_document = Some (- 1)"
  "optional_member get_double ''original_walltime'' (- 1) demo_job_document = Some (- 1)"
  "int_member ''res'' demo_job_document = Some 1"
  "string_member ''profile'' demo_job_document = Some ''p''"
  "optional_member get_string ''purpose'' ''job'' demo_job_document = Some ''job''"
  "read_start demo_settings demo_job_document = Some (- 1)"
  "optional_member g ''alloc'' U demo_job_document = Some U"
  "is_object demo_job_document"
  by (simp_all add: demo_job_document_def json_simps optional_member_def read_walltime_def fits_int_def
      read_start_def demo_settings_def)

lemma demo_fields:
  "read_fields demo_externals demo_settings (- 1) demo_job_document [(''p'', Some q)] =
   Some (demo_loaded_job\<lparr>lj_checkpoint_interval := - 1, lj_dump_time := - 1, lj_json := []\<rparr>)"
proof -
  have "st_name demo_settings = ''w0''" "\<not> st_from_checkpoint demo_settings" by (simp_all add: demo_settings_def)
  then show ?thesis
    by (simp add: read_fields_def demo_id_read read_checkpoint_data_def) (simp add: demo_loaded_job_def)
qed

lemma demo_lengthen:
  assumes "with_checkpoints 4 1 w = Some w'"
  shows "lengthen_profile demo_externals ''delay'' ''original_delay'' 1 4 1 (demo_profile w r, demo_job_document) =
    Some (demo_profile w' w)"
  using assms by (simp add: lengthen_profile_def demo_profile_def demo_job_document_def set_member_def add_member_def demo_externals_def)

lemma demo_edit:
  assumes "with_checkpoints 4 1 w = Some w'" and j: "j = demo_loaded_job\<lparr>lj_checkpoint_interval := - 1, lj_dump_time := - 1, lj_json := []\<rparr>"
  shows "\<exists>ms'. edit_job demo_externals demo_settings demo_job_document (j, JObject ms) (demo_profile w r) =
    Some ((demo_loaded_job\<lparr>lj_json := []\<rparr>, JObject ms'), demo_profile w' w)"
proof -
  have ct: "read_checkpoint_times demo_job_document = Some \<lparr>ct_interval = 4, ct_dump = 1, ct_read = - 1\<rparr>"
    by (simp add: read_checkpoint_times_def demo_job_document_def optional_member_def json_simps)
  have plan: "plan_checkpoints demo_externals demo_settings 1 \<lparr>ct_interval = 4, ct_dump = 1, ct_read = - 1\<rparr> =
      Some \<lparr>ct_interval = 4, ct_dump = 1, ct_read = - 1\<rparr>"
    by (simp add: plan_checkpoints_def optimal_interval_def demo_settings_def)
  have parent: "is_parent j" by (simp add: is_parent_def j demo_loaded_job_def)
  have pd: "apply_performance_factor demo_externals demo_settings ''delay'' j (demo_profile w r, demo_job_document) =
      Some (demo_profile w r, demo_job_document)"
    by (simp add: apply_performance_factor_def demo_settings_def)
  obtain m1 where m1: "overwrite_member True ''checkpoint_interval'' (JDouble 4) (JObject ms) = Some (JObject m1)"
    using overwrite_object by blast
  obtain m2 where m2: "overwrite_member False ''dumptime'' (JDouble 1) (JObject m1) = Some (JObject m2)"
    using overwrite_object by blast
  obtain m3 where m3: "overwrite_member False ''readtime'' (JDouble (- 1)) (JObject m2) = Some (JObject m3)"
    using overwrite_object by blast
  obtain m4 where m4: "add_missing ''purpose'' (JString ''job'') (JObject m3) = Some (JObject m4)"
    using add_missing_object by blast
  obtain m5 where m5: "add_missing ''start'' (JDouble (- 1)) (JObject m4) = Some (JObject m5)"
    using add_missing_object by blast
  have "set_checkpoints demo_externals demo_settings ''delay'' ''original_delay'' 1 demo_job_document (j, JObject ms)
      (demo_profile w r, demo_job_document) = Some ((demo_loaded_job\<lparr>lj_json := []\<rparr>, JObject m3), demo_profile w' w)"
    using plan demo_lengthen[OF assms(1)] m1 m2 m3 parent
    by (simp add: set_checkpoints_def ct parent_checkpoints_def j demo_loaded_job_def)
  then show ?thesis
    using pd m4 m5 by (simp add: edit_job_def edit_work_def demo_profile_def parse_doc_def demo_externals_def
        demo_settings_def demo_loaded_job_def)
qed

lemma demo_load:
  assumes "with_checkpoints 4 1 w = Some w'"
  shows "job_from_json demo_externals demo_settings (- 1) demo_job_document [(''p'', Some (demo_profile w r))] =
   Some (demo_loaded_job, [(''p'', Some (demo_profile w' w))])"
proof -
  let ?j = "demo_loaded_job\<lparr>lj_checkpoint_interval := - 1, lj_dump_time := - 1, lj_json := []\<rparr>"
  obtain ms where copy: "job_document ?j demo_job_document = Some (JObject ms)"
    by (simp add: job_document_def demo_job_document_def add_member_def json_simps)
  have text_same: "replace_ids f [] ''{}'' = ''{}''" for f by (simp add: replace_ids.simps match_id_def id_key_def)
  have "check_description demo_job_document = Some ()"
    by (simp add: check_description_def demo_job_document_def optional_member_def json_simps fits_int_def)
  moreover obtain ms' where "edit_job demo_externals demo_settings demo_job_document (?j, JObject ms) (demo_profile w r) =
      Some ((demo_loaded_job\<lparr>lj_json := []\<rparr>, JObject ms'), demo_profile w' w)"
    using demo_edit[OF assms refl] by blast
  moreover have "optional_member g ''smpi_ranks_to_hosts_mapping'' [] demo_job_document = Some []" for g :: "json \<Rightarrow> int list run"
    by (simp add: optional_member_def demo_job_document_def json_simps)
  ultimately show ?thesis
    by (simp add: job_from_json_def demo_fields copy text_same) (simp add: demo_externals_def demo_loaded_job_def text_same)
qed


lemma demo_counts: "with_checkpoints 4 1 10 = Some 12" "with_checkpoints 4 1 12 = Some 14"
proof -
  have "\<lceil>10 / 4 :: rat\<rceil> = 3" by (rule ceiling_unique) simp_all
  then show "with_checkpoints 4 1 10 = Some 12" "with_checkpoints 4 1 12 = Some 14"
    using with_checkpoints_count[of 4 10 1] with_checkpoints_count[of 4 12 1] by simp_all
qed

subsection \<open>Properties\<close>

text \<open>
  C31: With checkpoints, loading a job makes its work longer by the time of the checkpoints it will
  take: one for each interval of work but the last, so the whole part rounded up, less one. The work
  without them is kept aside, and no other profile changes.  This holds for delays and for
  homogeneous computations, whose work is counted in operations.
\<close>
theorem checkpoints_lengthen_work:
  assumes "job_from_json lx st nb d ps = Some (j, ps')" "map_of ps (lj_profile j) = Some (Some p)"
    and "pr_type p = DELAY \<and> speed = 1 \<or> pr_type p = PARALLEL_HOMOGENEOUS \<and> speed = st_speed st"
    and "st_checkpointing_on st" "st_performance_factor st = 1" "is_parent j"
    and "original_work_of (pr_data p) = - 1" "0 < speed" "0 < lj_checkpoint_interval j" "0 < work_of (pr_data p)"
  shows "\<exists>p'. ps' = AList.update (lj_profile j) (Some p') ps \<and> pr_type p' = pr_type p \<and>
    pr_data p' = set_work (work_of (pr_data p) +
        of_int (\<lceil>work_of (pr_data p) / speed / lj_checkpoint_interval j\<rceil> - 1) * lj_dump_time j * speed)
      (set_real_work (work_of (pr_data p)) (pr_data p))"
  using job_lengthens_profile[OF assms] unfolding checkpointed_work_def .

theorem checkpoints_lengthen_work_witness:
  "\<exists>p'. [(''p'', Some (demo_profile 12 10))] = AList.update ''p'' (Some p') [(''p'', Some (demo_profile 10 0))] \<and>
     pr_type p' = DELAY \<and> pr_data p' = set_work (10 + of_int (\<lceil>10 / 1 / (4::rat)\<rceil> - 1) * 1 * 1)
       (set_real_work 10 (pr_data (demo_profile 10 0)))"
proof -
  note r = checkpoints_lengthen_work[OF demo_load[OF demo_counts(1), of 0], of "demo_profile 10 0" 1]
  show ?thesis using r by (simp add: demo_loaded_job_def demo_profile_def demo_settings_def is_parent_def)
qed

text \<open>
  C32: Jobs that share a profile do not share its checkpoints: each loading lengthens the profile
  again, from what the one before left, and takes that for the work without checkpoints.  The code
  means to do it once, but tests a field of the data that only the description receives.
\<close>
theorem shared_profile_lengthened_again:
  assumes "job_from_json lx st nb1 d1 ps = Some (j1, ps1)" "job_from_json lx st nb2 d2 ps1 = Some (j2, ps2)"
    and "lj_profile j2 = lj_profile j1" "map_of ps (lj_profile j1) = Some (Some p)"
    and "type_of_data (pr_data p) = pr_type p"
    and "pr_type p = DELAY \<and> speed = 1 \<or> pr_type p = PARALLEL_HOMOGENEOUS \<and> speed = st_speed st"
    and "st_checkpointing_on st" "st_performance_factor st = 1" "is_parent j1" "is_parent j2"
    and "original_work_of (pr_data p) = - 1" "0 < speed" "0 < work_of (pr_data p)"
    and "0 < lj_checkpoint_interval j1" "0 < lj_checkpoint_interval j2" "0 \<le> lj_dump_time j1"
  shows "\<exists>p2. map_of ps2 (lj_profile j1) = Some (Some p2) \<and>
    real_work_of (pr_data p2) =
      checkpointed_work speed (lj_checkpoint_interval j1) (lj_dump_time j1) (work_of (pr_data p)) \<and>
    work_of (pr_data p2) = checkpointed_work speed (lj_checkpoint_interval j2) (lj_dump_time j2)
      (checkpointed_work speed (lj_checkpoint_interval j1) (lj_dump_time j1) (work_of (pr_data p)))"
proof -
  let ?w1 = "checkpointed_work speed (lj_checkpoint_interval j1) (lj_dump_time j1) (work_of (pr_data p))"
  obtain p1 where p1: "ps1 = AList.update (lj_profile j1) (Some p1) ps" "pr_type p1 = pr_type p"
      "pr_data p1 = set_work ?w1 (set_real_work (work_of (pr_data p)) (pr_data p))"
    using job_lengthens_profile[OF assms(1,4,6-9,11,12,14,13)] by blast
  have ty: "type_of_data (pr_data p) \<in> {DELAY, PARALLEL_HOMOGENEOUS}" using assms(5,6) by auto
  have w1: "work_of (pr_data p1) = ?w1" "original_work_of (pr_data p1) = - 1" "type_of_data (pr_data p1) = pr_type p1"
    using ty assms(5,11) p1 by (simp_all add: set_work_work)
  have pos: "0 < ?w1" by (rule checkpointed_work_pos) (use assms in simp_all)
  have "map_of ps1 (lj_profile j2) = Some (Some p1)" by (simp add: p1(1) assms(3) update_conv)
  moreover have "pr_type p1 = DELAY \<and> speed = 1 \<or> pr_type p1 = PARALLEL_HOMOGENEOUS \<and> speed = st_speed st"
    using assms(6) p1(2) by simp
  ultimately obtain p2 where p2: "ps2 = AList.update (lj_profile j2) (Some p2) ps1"
      "pr_data p2 = set_work (checkpointed_work speed (lj_checkpoint_interval j2) (lj_dump_time j2) ?w1)
         (set_real_work ?w1 (pr_data p1))"
    using job_lengthens_profile[OF assms(2) _ _ assms(7,8,10) w1(2) assms(12,15)] w1(1) pos by auto
  have "type_of_data (pr_data p1) \<in> {DELAY, PARALLEL_HOMOGENEOUS}" using w1(3) p1(2) assms(6) by auto
  then show ?thesis using p2 assms(3) by (simp add: update_conv set_work_work)
qed

theorem shared_profile_lengthened_again_witness:
  "\<exists>p2. map_of [(''p'', Some (demo_profile 14 12))] ''p'' = Some (Some p2) \<and>
     real_work_of (pr_data p2) = checkpointed_work 1 4 1 10 \<and>
     work_of (pr_data p2) = checkpointed_work 1 4 1 (checkpointed_work 1 4 1 10)"
proof -
  note r = shared_profile_lengthened_again[OF demo_load[OF demo_counts(1), of 0] demo_load[OF demo_counts(2), of 10],
      of "demo_profile 10 0" 1]
  show ?thesis using r by (auto simp: demo_loaded_job_def demo_profile_def demo_settings_def is_parent_def)
qed

text \<open>
  C33: The description of a job whose name ends with the number of a checkpoint is written as if it
  had none: the dollar of the name is read as the mark of a group of the regular expression, which
  has none.  The document given to the scheduler thus names another job than the event it is in.
\<close>
theorem checkpoint_suffix_lost:
  assumes "job_from_json lx st nb d ps = Some (j, ps')"
    and "job_name (lj_id j) = base @ ''$'' @ show_nat k" "0 < k" "k < 100"
    and "CHR ''$'' \<notin> set (workload_name (lj_id j))" "CHR ''$'' \<notin> set base"
  shows "\<exists>doc. lj_json j = replace_ids (id_member ((lj_id j)\<lparr>job_name := base\<rparr>)) [] (lx_print lx doc)"
proof -
  obtain doc where "lj_json j = replace_ids (id_member (lj_id j)) [] (lx_print lx doc)"
    using assms(1) by (auto elim!: job_from_jsonE)
  moreover have "(lj_id j)\<lparr>job_name := base @ ''$'' @ show_nat k\<rparr> = lj_id j"
    using assms(2) by (metis job_identifier.surjective job_identifier.update_convs(2))
  ultimately show ?thesis
    using replace_ids_cong[OF expand_checkpoint_name[OF assms(3-6)]] by metis
qed

theorem checkpoint_suffix_lost_witness:
  "\<exists>doc. lj_json demo_loaded_job =
     replace_ids (id_member \<lparr>workload_name = ''w0'', job_name = ''1'', job_number = 1\<rparr>) [] (lx_print demo_externals doc)"
proof -
  have "show_nat 2 = ''2''" by code_simp
  then show ?thesis
    using checkpoint_suffix_lost[OF demo_load[OF demo_counts(1), of 0], of "''1''" 2] by (simp add: demo_loaded_job_def)
qed

end
