(* ===== verification/Sim_Workload_Inv.thy ===== *)
theory Sim_Workload_Inv
  imports Sim_Workload Sim_Loading_Correct
begin

text \<open>
  The invariant of a workload while it is loaded and altered, and what holds of it once it is
  checked: identifiers, profiles of the jobs, composed profiles.
\<close>

subsection \<open>The invariant\<close>

definition job_ok :: "loaded_job \<Rightarrow> bool" where
  "job_ok j \<longleftrightarrow> is_lexically_valid (lj_id j) \<and> 0 \<le> lj_requested_nb_res j \<and> (lj_walltime j = - 1 \<or> 0 < lj_walltime j)"

definition unlinked :: "profile_data \<Rightarrow> bool" where
  "unlinked x \<longleftrightarrow> (\<forall>q. x = Sequence_Data q \<longrightarrow> qd_profile_sequence q = [])"

definition profile_ok :: "profile \<Rightarrow> bool" where
  "profile_ok p \<longleftrightarrow> type_of_data (pr_data p) = pr_type p \<and> unlinked (pr_data p)"

definition store_ok :: "profile_store \<Rightarrow> bool" where
  "store_ok ps \<longleftrightarrow> distinct (map fst ps) \<and>
     (\<forall>n p. map_of ps n = Some (Some p) \<longrightarrow> pr_name p = n \<and> profile_ok p)"

definition jobs_ok :: "(string \<times> loaded_job) list \<Rightarrow> bool" where
  "jobs_ok js \<longleftrightarrow> distinct (map fst js) \<and>
     (\<forall>k j. map_of js k = Some j \<longrightarrow> k = representation (lj_id j) \<and> job_ok j)"

definition loading_ok :: "loaded_workload \<Rightarrow> bool" where
  "loading_ok w \<longleftrightarrow> store_ok (lw_profiles w) \<and> jobs_ok (lw_jobs w)"

lemma store_ok_update:
  "store_ok ps \<Longrightarrow> pr_name p = n \<Longrightarrow> profile_ok p \<Longrightarrow> store_ok (AList.update n (Some p) ps)"
  by (auto simp: store_ok_def distinct_update update_conv)

lemma store_ok_add:
  "store_ok ps \<Longrightarrow> map_of ps (pr_name p) = None \<Longrightarrow> profile_ok p \<Longrightarrow> store_ok (ps @ [(pr_name p, Some p)])"
  by (auto simp: store_ok_def map_add_def map_of_eq_None_iff split: if_splits option.splits)

lemma jobs_ok_update:
  "jobs_ok js \<Longrightarrow> job_ok j \<Longrightarrow> jobs_ok (AList.update (representation (lj_id j)) j js)"
  by (auto simp: jobs_ok_def distinct_update update_conv)

subsection \<open>Loading\<close>

lemma loaded_profile_ok:
  assumes "profile_from_json fs print from_file filename name d = Some p"
  shows "pr_name p = name \<and> profile_ok p"
proof -
  obtain kind ty x where l: "load_data fs from_file filename kind d = Some (ty, x)"
    and p: "pr_name p = name" "pr_type p = ty" "pr_data p = x"
    using assms unfolding profile_from_json_def by (auto simp: run_simps split: prod.splits)
  have "data_ok x" "type_of_data x = ty" using load_data_ok[OF l] by auto
  then show ?thesis using p by (cases x) (auto simp: profile_ok_def unlinked_def)
qed

lemma load_profiles_ok:
  assumes "load_profiles fs print filename d ps = Some ps'" "store_ok ps"
  shows "store_ok ps'"
proof -
  obtain ms where f: "fold_run (\<lambda>(key, v) ps'. do {
       p \<leftarrow> profile_from_json fs print True filename key v;
       assertion (map_of ps' key = None);
       Some (ps' @ [(key, Some p)]) }) ms ps = Some ps'"
    using assms(1) unfolding load_profiles_def by (elim run_bindE) (erule that)
  show ?thesis
  proof (rule fold_run_preserves[OF f, of store_ok])
    fix x s s'
    assume "store_ok s" and "(case x of (key, v) \<Rightarrow> \<lambda>ps'. do {
       p \<leftarrow> profile_from_json fs print True filename key v;
       assertion (map_of ps' key = None);
       Some (ps' @ [(key, Some p)]) }) s = Some s'"
    then show "store_ok s'"
      by (auto split: prod.splits bind_splits) (metis loaded_profile_ok store_ok_add)
  qed (rule assms(2))
qed

lemma make_identifier_valid: "make_identifier w n k = Some ji \<Longrightarrow> is_lexically_valid ji"
  by (auto simp: make_identifier_def Let_def run_simps)

lemma job_identifier_valid: "job_identifier s = Some ji \<Longrightarrow> is_lexically_valid ji"
  by (auto simp: job_identifier_def run_simps dest: make_identifier_valid split: list.splits)

lemma read_identifier_valid: "read_identifier w nb v = Some ji \<Longrightarrow> is_lexically_valid ji"
  unfolding read_identifier_def Let_def
  by (elim run_bindE) (metis job_identifier_valid make_identifier_valid)

lemma read_checkpoint_data_ok: "read_checkpoint_data st d j0 = Some j \<Longrightarrow> job_ok j0 \<Longrightarrow> job_ok j"
  unfolding read_checkpoint_data_def job_ok_def by (auto split: if_splits bind_splits)

lemma read_walltime_ok: "read_walltime d = Some wt \<Longrightarrow> wt = - 1 \<or> 0 < wt"
  unfolding read_walltime_def by (auto split: bind_splits)

lemma read_fields_ok:
  assumes "read_fields lx st nb d ps = Some j" shows "job_ok j"
  using assms unfolding read_fields_def
  by (elim run_bindE, elim read_checkpoint_data_ok)
    (auto simp: job_ok_def dest: read_identifier_valid read_walltime_ok)

lemma set_work_unlinked [simp]:
  "unlinked (set_work w x) = unlinked x" "unlinked (set_real_work w x) = unlinked x"
  by (cases x; simp add: unlinked_def)+

lemma apply_performance_factor_profile:
  assumes "apply_performance_factor lx st key j (p, doc) = Some pd"
  shows "pr_name (fst pd) = pr_name p \<and> (profile_ok p \<longrightarrow> profile_ok (fst pd))"
  using assms unfolding apply_performance_factor_def prod.case Let_def
  by (auto simp: profile_ok_def split: if_splits bind_splits)

lemma lengthen_profile_profile:
  assumes "lengthen_profile lx key orig speed iv dump pd = Some p'"
  shows "pr_name p' = pr_name (fst pd) \<and> (profile_ok (fst pd) \<longrightarrow> profile_ok p')"
  using assms unfolding lengthen_profile_def Let_def
  by (auto simp: profile_ok_def split: if_splits bind_splits prod.splits)

lemma set_checkpoints_profile:
  assumes "set_checkpoints lx st key orig speed d (j, copy) pd = Some ((j', copy'), p')"
  shows "pr_name p' = pr_name (fst pd) \<and> (profile_ok (fst pd) \<longrightarrow> profile_ok p') \<and> (job_ok j \<longrightarrow> job_ok j')"
proof -
  obtain ct ct' copy1 where c: "(if is_parent j
       then parent_checkpoints lx st key orig speed (lj_requested_nb_res j) ct copy pd
       else Some (ct, copy, fst pd)) = Some (ct', copy1, p')"
    and j': "j' = j\<lparr>lj_checkpoint_interval := ct_interval ct', lj_dump_time := ct_dump ct', lj_read_time := ct_read ct'\<rparr>"
    using set_checkpoints_parts[OF assms] .
  have "pr_name p' = pr_name (fst pd) \<and> (profile_ok (fst pd) \<longrightarrow> profile_ok p')"
  proof (cases "is_parent j")
    case True
    then obtain iv dump where "lengthen_profile lx key orig speed iv dump pd = Some p'"
      using c unfolding parent_checkpoints_def by (auto split: bind_splits)
    then show ?thesis by (rule lengthen_profile_profile)
  qed (use c in simp)
  then show ?thesis by (simp add: j' job_ok_def)
qed

lemma edit_job_ok:
  assumes "edit_job lx st d (j, copy) p = Some ((j', copy'), p')"
  shows "pr_name p' = pr_name p \<and> (profile_ok p \<longrightarrow> profile_ok p') \<and> (job_ok j \<longrightarrow> job_ok j')"
proof -
  have w: ?thesis if e: "edit_work lx st key orig speed d (j, copy) p = Some ((j', copy'), p')" for key orig speed
  proof -
    obtain pd copy1 where "apply_performance_factor lx st key j (p, parse_doc (lx_parse lx) (pr_json p)) = Some pd"
      and "(if st_checkpointing_on st then set_checkpoints lx st key orig speed d (j, copy) pd else Some ((j, copy), fst pd)) =
        Some ((j', copy1), p')"
      using e by (auto elim!: edit_workE)
    then show ?thesis
      by (auto dest!: apply_performance_factor_profile set_checkpoints_profile split: if_splits)
  qed
  show ?thesis using assms unfolding edit_job_def by (auto split: if_splits dest: w)
qed

lemma job_from_json_ok:
  assumes "job_from_json lx st nb d ps = Some (j, ps')" "store_ok ps"
  shows "job_ok j \<and> store_ok ps'"
proof -
  obtain j0 p copy j1 copy1 p1 ranks s where "read_fields lx st nb d ps = Some j0"
    and p: "map_of ps (lj_profile j0) = Some (Some p)" and e: "edit_job lx st d (j0, copy) p = Some ((j1, copy1), p1)"
    and j: "j = j1\<lparr>lj_json := s, lj_smpi_mapping := ranks\<rparr>" and ps': "ps' = AList.update (lj_profile j0) (Some p1) ps"
    using assms(1) unfolding job_from_json_def Let_def by (auto simp: run_simps split: prod.splits)
  then have "job_ok j1" using edit_job_ok[OF e] read_fields_ok by blast
  moreover have "pr_name p = lj_profile j0" "profile_ok p" using assms(2) p by (auto simp: store_ok_def)
  ultimately have "store_ok ps'"
    unfolding ps' by (intro store_ok_update[OF assms(2)]) (use edit_job_ok[OF e] in auto)
  then show ?thesis using \<open>job_ok j1\<close> by (simp add: j job_ok_def)
qed

lemma loading_ok_parts: "loading_ok w \<Longrightarrow> store_ok (lw_profiles w)" "loading_ok w \<Longrightarrow> jobs_ok (lw_jobs w)"
  by (simp_all add: loading_ok_def)

lemma add_loaded_ok: "add_loaded j w = Some w' \<Longrightarrow> loading_ok w \<Longrightarrow> job_ok j \<Longrightarrow> loading_ok w'"
  unfolding add_loaded_def by (auto simp: loading_ok_def jobs_ok_update split: bind_splits)

lemma load_job_entry_ok:
  assumes "load_job_entry lx st nb d w = Some w'" "loading_ok w" shows "loading_ok w'"
proof -
  obtain j ps where "job_from_json lx st nb d (lw_profiles w) = Some (j, ps)"
    and a: "add_loaded j (w\<lparr>lw_profiles := ps\<rparr>) = Some w'"
    using assms(1) unfolding load_job_entry_def by (auto simp: run_simps split: prod.splits)
  then have "job_ok j" "store_ok ps" using job_from_json_ok loading_ok_parts(1)[OF assms(2)] by blast+
  then show ?thesis using add_loaded_ok[OF a] loading_ok_parts(2)[OF assms(2)] by (simp add: loading_ok_def)
qed

lemma load_jobs_ok:
  assumes "load_jobs lx st nb d w = Some w'" "loading_ok w" shows "loading_ok w'"
proof -
  obtain ds where "fold_run (load_job_entry lx st nb) ds w = Some w'"
    using assms(1) unfolding load_jobs_def by (elim run_bindE) (erule that)
  then show ?thesis by (rule fold_run_preserves) (use assms(2) load_job_entry_ok in auto)
qed

subsection \<open>Altering\<close>

lemma copied_jobs_ok:
  assumes "copied_jobs lx st js ps = Some (cs, ps')" "store_ok ps"
  shows "store_ok ps' \<and> (\<forall>c \<in> set cs. job_ok c)"
proof -
  have "(\<lambda>(cs, ps). store_ok ps \<and> (\<forall>c \<in> set cs. job_ok c)) (cs, ps')"
    using assms(1) unfolding copied_jobs_def
  proof (rule fold_run_preserves)
    fix j s s'
    assume ok: "(\<lambda>(cs, ps). store_ok ps \<and> (\<forall>c \<in> set cs. job_ok c)) s"
      and step: "(case s of (copies, ps') \<Rightarrow>
          if lj_purpose j = ''reservation'' then Some (copies, ps')
          else do { (j', ps'') \<leftarrow> job_from_text lx st (- 1) (lj_json j) ps'; Some (copies @ [j'], ps'') }) = Some s'"
    obtain cs ps where s: "s = (cs, ps)" by (cases s)
    show "(\<lambda>(cs, ps). store_ok ps \<and> (\<forall>c \<in> set cs. job_ok c)) s'"
    proof (cases "lj_purpose j = ''reservation''")
      case False
      then obtain j' ps'' where "job_from_text lx st (- 1) (lj_json j) ps = Some (j', ps'')" "s' = (cs @ [j'], ps'')"
        using step by (auto simp: s run_simps split: prod.splits)
      moreover from this have "job_ok j' \<and> store_ok ps''"
        using ok job_from_json_ok unfolding job_from_text_def s by (auto simp: run_simps)
      ultimately show ?thesis using ok by (auto simp: s)
    qed (use ok step s in auto)
  qed (use assms(2) in simp)
  then show ?thesis by simp
qed

lemma set_jobs_ok:
  assumes "loading_ok w" "\<forall>j \<in> set js. job_ok j" shows "loading_ok (set_jobs js w)"
  using assms unfolding set_jobs_def
proof (induction js arbitrary: w)
  case (Cons j js)
  have "loading_ok (w\<lparr>lw_jobs := AList.update (representation (lj_id j)) j (lw_jobs w)\<rparr>)"
    using Cons.prems by (simp add: loading_ok_def jobs_ok_update)
  then show ?case using Cons by simp
qed simp

lemma set_submission_keeps:
  assumes "set_submission lx t j = Some j'"
  shows "lj_submission_time j' = t" "lj_id j' = lj_id j" "job_ok j' = job_ok j"
  using assms unfolding set_submission_def by (auto simp: job_ok_def split: bind_splits)

lemma respaced_ok:
  assumes "respaced lx rd so v s js = Some js'" "\<forall>j \<in> set js. job_ok j" shows "\<forall>j \<in> set js'. job_ok j"
  using assms
proof (induction js arbitrary: s js')
  case (Cons j js)
  obtain t s' j' js'' where "set_submission lx t j = Some j'" "respaced lx rd so v s' js = Some js''" "js' = j' # js''"
    using Cons.prems(1) by (auto simp: run_simps)
  then show ?case using Cons.IH Cons.prems(2) set_submission_keeps(3) by auto
qed simp

lemma map_run_set: "map_run f xs = Some ys \<Longrightarrow> y \<in> set ys \<Longrightarrow> \<exists>x \<in> set xs. f x = Some y"
  by (induction xs arbitrary: ys) (auto split: bind_splits)

lemma shuffled_ok:
  assumes "shuffled lx rd old new = Some js" "\<forall>j \<in> set new. job_ok j" shows "\<forall>j \<in> set js. job_ok j"
proof
  fix j assume "j \<in> set js"
  then obtain i j0 where "(i, j0) \<in> set (zip (rd_shuffle rd (length old)) new)"
      "set_submission lx (lj_submission_time (old ! i)) j0 = Some j"
    using assms(1) unfolding shuffled_def by (fastforce dest: map_run_set)
  then show "job_ok j" using assms(2) set_submission_keeps(3) by (metis set_zip_rightD)
qed

lemma space_submits_ok:
  assumes "space_submits lx st rd so w = Some w'" "loading_ok w" shows "loading_ok w'"
proof -
  obtain js ps where c: "copied_jobs lx st (map snd (lw_jobs w)) (lw_profiles w) = Some (js, ps)"
    and r: "(if so_value1 so \<noteq> [] then do {
        v \<leftarrow> stod (so_value1 so);
        js' \<leftarrow> respaced lx rd so v (- 1, 0) (list_sort by_submission js);
        Some (set_jobs js' (w\<lparr>lw_profiles := ps\<rparr>)) }
      else Some (w\<lparr>lw_profiles := ps\<rparr>)) = Some w'"
    using assms(1) unfolding space_submits_def by (elim run_bindE) (auto split: prod.splits bind_splits)
  have ok: "store_ok ps" "\<forall>j \<in> set js. job_ok j" using copied_jobs_ok[OF c] loading_ok_parts(1)[OF assms(2)] by auto
  then have "loading_ok (w\<lparr>lw_profiles := ps\<rparr>)" using assms(2) by (simp add: loading_ok_def)
  then show ?thesis using r ok(2) by (auto simp: run_simps split: if_splits dest: respaced_ok intro!: set_jobs_ok)
qed

lemma shuffle_submits_ok:
  assumes "shuffle_submits lx st rd so w = Some w'" "loading_ok w" shows "loading_ok w'"
proof (cases "so_shuffle so = ''shuffle'' \<or> so_shuffle so = ''s''")
  case True
  then obtain old ps1 new ps2 js where
      c1: "copied_jobs lx st (map snd (lw_jobs w)) (lw_profiles w) = Some (old, ps1)"
      and c2: "copied_jobs lx st (map snd (lw_jobs w)) ps1 = Some (new, ps2)"
      and s: "shuffled lx rd (list_sort by_submission old) (list_sort by_submission new) = Some js"
      and w': "w' = set_jobs js (w\<lparr>lw_profiles := ps2\<rparr>)"
    using assms(1) unfolding shuffle_submits_def by (auto simp: run_simps split: prod.splits)
  have "store_ok ps1" using copied_jobs_ok[OF c1] loading_ok_parts(1)[OF assms(2)] by blast
  then have "store_ok ps2" "\<forall>j \<in> set new. job_ok j" using copied_jobs_ok[OF c2] by blast+
  then show ?thesis unfolding w'
    using assms(2) shuffled_ok[OF s] by (intro set_jobs_ok) (simp_all add: loading_ok_def)
qed (use assms in \<open>simp add: shuffle_submits_def\<close>)

lemma change_submits_ok:
  assumes "change_submits lx st rd opt w = Some w'" "loading_ok w" shows "loading_ok w'"
  using assms unfolding change_submits_def
  by (auto simp: run_simps split: option.splits dest: space_submits_ok shuffle_submits_ok)

lemma copy_one_ok:
  assumes "copy_one lx st rd co ps n s j = Some ((j', p), s')" "job_ok j"
  shows "job_ok j' \<and> profile_ok p"
proof -
  let ?name = "show_int n"
  obtain ji d2 q where ji: "make_identifier (st_name st) ?name n = Some ji"
    and p: "profile_from_text (lx_files lx) (lx_parse lx) (lx_print lx) ?name q = Some p"
    and j': "lj_id j' = ji" "lj_walltime j' = lj_walltime j" "lj_requested_nb_res j' = lj_requested_nb_res j"
    using assms(1) unfolding copy_one_def Let_def by (elim run_bindE) (auto split: if_splits prod.splits bind_splits)
  have "profile_ok p" using p loaded_profile_ok unfolding profile_from_text_def by (auto split: bind_splits)
  then show ?thesis using make_identifier_valid[OF ji] j' assms(2) by (simp add: job_ok_def)
qed

definition copies_ok :: "(loaded_job \<times> profile) list \<Rightarrow> bool" where
  "copies_ok new \<longleftrightarrow> (\<forall>(j, p) \<in> set new. job_ok j \<and> profile_ok p)"

lemma copy_components_ok:
  assumes "copy_components lx st rd co k0 old s ps = Some (new, s', ps')" "store_ok ps"
  shows "copies_ok new \<and> store_ok ps'"
proof -
  obtain js n s1 where c: "copied_jobs lx st old ps = Some (js, ps')"
    and f: "fold_run (copy_job lx st rd co ps') (list_sort by_submission js) (k0, s\<lparr>cs_previous := - 1\<rparr>, []) = Some (n, s1, new)"
    using assms(1) unfolding copy_components_def by (elim run_bindE) (auto split: prod.splits bind_splits)
  have js: "store_ok ps'" "\<forall>j \<in> set js. job_ok j" using copied_jobs_ok[OF c assms(2)] by auto
  have "(\<lambda>(n, s, new). copies_ok new) (n, s1, new)"
    by (rule fold_run_preserves[OF f])
      (use js(2) copy_one_ok in \<open>auto simp: copies_ok_def copy_job_def run_simps split: prod.splits\<close>)
  then show ?thesis using js(1) by simp
qed

lemma extend_ok:
  assumes "extend_jobs new w = Some w'" "loading_ok w" "copies_ok new" shows "loading_ok w'"
  using assms(1) unfolding extend_jobs_def
proof (rule fold_run_preserves[where P = loading_ok])
  fix x u u' assume x: "x \<in> set new" and u: "loading_ok u"
    and step: "(case x of (j, p) \<Rightarrow> \<lambda>w'. do {
       w1 \<leftarrow> add_loaded j w';
       assertion (map_of (lw_profiles w1) (pr_name p) = None);
       Some (w1\<lparr>lw_profiles := lw_profiles w1 @ [(pr_name p, Some p)]\<rparr>) }) u = Some u'"
  obtain j p where jp: "x = (j, p)" "job_ok j" "profile_ok p" using x assms(3) by (cases x) (auto simp: copies_ok_def)
  then obtain w1 where w1: "add_loaded j u = Some w1" "map_of (lw_profiles w1) (pr_name p) = None"
      "u' = w1\<lparr>lw_profiles := lw_profiles w1 @ [(pr_name p, Some p)]\<rparr>"
    using step by (auto split: bind_splits)
  have "loading_ok w1" using add_loaded_ok[OF w1(1) u jp(2)] .
  then show "loading_ok u'" unfolding w1(3) using store_ok_add[OF _ w1(2) jp(3)] by (simp add: loading_ok_def)
qed (rule assms(2))

lemma copy_rounds_ok:
  "copy_rounds lx st rd co old n k0 s w = Some w' \<Longrightarrow> loading_ok w \<Longrightarrow> loading_ok w'"
proof (induction n arbitrary: k0 s w)
  case (Suc n)
  then obtain new s1 ps w1 where c: "copy_components lx st rd co k0 old s (lw_profiles w) = Some (new, s1, ps)"
      and e: "extend_jobs new (w\<lparr>lw_profiles := ps\<rparr>) = Some w1"
      and r: "copy_rounds lx st rd co old n (k0 + int (length new) + 1) s1 w1 = Some w'"
    by (auto simp: run_simps split: prod.splits)
  have "copies_ok new \<and> store_ok ps" using copy_components_ok[OF c] Suc.prems(2) by (simp add: loading_ok_def)
  then have "loading_ok w1" using extend_ok[OF e] Suc.prems(2) by (simp add: loading_ok_def)
  then show ?case using Suc.IH[OF r] by simp
qed simp

lemma copy_workload_ok:
  assumes "copy_workload lx st rd co w = Some w'" "loading_ok w" shows "loading_ok w'"
proof -
  obtain old ps n where c: "copied_jobs lx st (map snd (lw_jobs w)) (lw_profiles w) = Some (old, ps)"
    and r: "copy_rounds lx st rd co old (nat (n - 1)) (largest_number old + 1)
       \<lparr>cs_previous = - 1, cs_random = - 1, cs_draws = 0\<rparr> (w\<lparr>lw_profiles := ps\<rparr>) = Some w'"
    using assms(1) unfolding copy_workload_def by (auto simp: run_simps split: prod.splits)
  show ?thesis by (rule copy_rounds_ok[OF r]) (use copied_jobs_ok[OF c] assms(2) in \<open>simp add: loading_ok_def\<close>)
qed

lemma alter_workload_ok:
  assumes "alter_workload lx st rd al w = Some w'" "loading_ok w" shows "loading_ok w'"
  using assms unfolding alter_workload_def
  by (elim run_bindE) (auto split: option.splits dest: change_submits_ok copy_workload_ok)

subsection \<open>Checking\<close>

definition held :: "profile_store \<Rightarrow> string \<Rightarrow> bool" where
  "held ps n \<longleftrightarrow> (\<exists>p. map_of ps n = Some (Some p))"

text \<open>The composed profile under a name points to the profiles it lists, and they are in memory.\<close>

definition linked :: "profile_store \<Rightarrow> string \<Rightarrow> bool" where
  "linked ps n \<longleftrightarrow> (\<forall>p q. map_of ps n = Some (Some p) \<longrightarrow> pr_data p = Sequence_Data q \<longrightarrow>
     qd_profile_sequence q = qd_sequence q \<and> (\<forall>m \<in> set (qd_sequence q). held ps m))"

definition well_named :: "profile_store \<Rightarrow> bool" where
  "well_named ps \<longleftrightarrow> (\<forall>n p. map_of ps n = Some (Some p) \<longrightarrow> pr_name p = n \<and> type_of_data (pr_data p) = pr_type p)"

lemma map_run_held:
  assumes "map_run (\<lambda>n. do { e \<leftarrow> map_of ps n; sub \<leftarrow> e; Some n }) xs = Some ys"
  shows "ys = xs \<and> (\<forall>n \<in> set xs. held ps n)"
  using assms by (induction xs arbitrary: ys) (auto simp: held_def split: bind_splits)

lemma held_update: "held ps m \<Longrightarrow> held (AList.update n (Some p) ps) m"
  by (auto simp: held_def update_conv)

lemma linked_update:
  assumes "linked ps m" "m \<noteq> n" shows "linked (AList.update n (Some p) ps) m"
  using assms held_update unfolding linked_def by (auto simp: update_conv)

lemma link_profile_step:
  assumes "link_profile (n, e) ps = Some ps'" "map_of ps n = Some e" "\<And>p. e = Some p \<Longrightarrow> profile_ok p"
    and "well_named ps"
  shows "linked ps' n \<and> well_named ps' \<and> (\<forall>m. m \<noteq> n \<longrightarrow> map_of ps' m = map_of ps m) \<and>
    (\<forall>m. m \<noteq> n \<longrightarrow> linked ps m \<longrightarrow> linked ps' m)"
proof -
  obtain p where e: "e = Some p" using assms(1) unfolding link_profile_def by (cases e) simp_all
  have ok: "type_of_data (pr_data p) = pr_type p" "unlinked (pr_data p)" using assms(3)[OF e] by (simp_all add: profile_ok_def)
  show ?thesis
  proof (cases "pr_type p = SEQUENCE")
    case False
    then have "ps' = ps" "\<And>q. pr_data p \<noteq> Sequence_Data q" using assms(1) ok(1) by (auto simp: link_profile_def e)
    then show ?thesis using assms(2,4) by (auto simp: linked_def e)
  next
    case True
    then obtain q where q: "pr_data p = Sequence_Data q" using ok(1) by (cases "pr_data p") simp_all
    then obtain l where l: "map_run (\<lambda>n. do { e \<leftarrow> map_of ps n; sub \<leftarrow> e; Some n }) (qd_sequence q) = Some l"
      and ps': "ps' = AList.update n (Some (p\<lparr>pr_data := Sequence_Data (q\<lparr>qd_profile_sequence := qd_profile_sequence q @ l\<rparr>)\<rparr>)) ps"
      using assms(1) True unfolding link_profile_def e by (auto split: bind_splits)
    have "qd_profile_sequence q = []" using ok(2) q by (simp add: unlinked_def)
    then have "linked ps' n" using map_run_held[OF l] held_update unfolding linked_def ps' by (auto simp: update_conv)
    moreover have "well_named ps'" using assms(2,4) True unfolding well_named_def ps' e by (auto simp: update_conv)
    ultimately show ?thesis using linked_update unfolding ps' by (auto simp: update_conv)
  qed
qed

lemma link_all:
  assumes "fold_run link_profile es ps = Some ps'" "distinct (map fst es)" "well_named ps"
    and "\<forall>(n, e) \<in> set es. map_of ps n = Some e \<and> (\<forall>p. e = Some p \<longrightarrow> profile_ok p)"
    and "\<forall>n. n \<notin> fst ` set es \<longrightarrow> linked ps n"
  shows "well_named ps' \<and> (\<forall>n. linked ps' n)"
  using assms
proof (induction es arbitrary: ps)
  case (Cons x es)
  obtain n e where x: "x = (n, e)" by (cases x)
  obtain ps1 where s: "link_profile (n, e) ps = Some ps1" and f: "fold_run link_profile es ps1 = Some ps'"
    using Cons.prems(1) by (auto simp: x split: bind_splits)
  have st: "linked ps1 n" "well_named ps1" "\<And>m. m \<noteq> n \<Longrightarrow> map_of ps1 m = map_of ps m"
      "\<And>m. m \<noteq> n \<Longrightarrow> linked ps m \<Longrightarrow> linked ps1 m"
    using link_profile_step[OF s _ _ Cons.prems(3)] Cons.prems(4) by (auto simp: x)
  show ?case
  proof (rule Cons.IH[OF f _ st(2)])
    show "distinct (map fst es)" using Cons.prems(2) by (simp add: x)
    show "\<forall>(k, e) \<in> set es. map_of ps1 k = Some e \<and> (\<forall>p. e = Some p \<longrightarrow> profile_ok p)"
    proof (intro ballI, clarify)
      fix k e assume ke: "(k, e) \<in> set es"
      then have "k \<noteq> n" using Cons.prems(2) by (force simp: x)
      then show "map_of ps1 k = Some e \<and> (\<forall>p. e = Some p \<longrightarrow> profile_ok p)"
        using Cons.prems(4) ke st(3) by auto
    qed
    show "\<forall>k. k \<notin> fst ` set es \<longrightarrow> linked ps1 k"
    proof (intro allI impI)
      fix k assume k: "k \<notin> fst ` set es"
      show "linked ps1 k"
      proof (cases "k = n")
        case False
        then have "linked ps k" using Cons.prems(5) k by (simp add: x)
        then show ?thesis using st(4)[OF False] by simp
      qed (use st(1) in simp)
    qed
  qed
qed simp

definition checked :: "loaded_workload \<Rightarrow> bool" where
  "checked w \<longleftrightarrow> jobs_ok (lw_jobs w) \<and> well_named (lw_profiles w) \<and> (\<forall>n. linked (lw_profiles w) n) \<and>
     (\<forall>(k, j) \<in> set (lw_jobs w). check_loaded_job (lw_profiles w) j = Some ())"

lemma check_validity_checked:
  assumes "check_validity w = Some w'" "loading_ok w" shows "checked w'"
proof -
  obtain ps us where f: "fold_run link_profile (lw_profiles w) (lw_profiles w) = Some ps"
    and us: "map_run (\<lambda>(i, j). check_loaded_job ps j) (lw_jobs w) = Some us" and w': "w' = w\<lparr>lw_profiles := ps\<rparr>"
    using assms(1) unfolding check_validity_def by (auto split: bind_splits)
  have s: "store_ok (lw_profiles w)" using assms(2) by (simp add: loading_ok_def)
  have "well_named ps \<and> (\<forall>n. linked ps n)"
  proof (rule link_all[OF f])
    show "distinct (map fst (lw_profiles w))" using s by (simp add: store_ok_def)
    then show "\<forall>(n, e) \<in> set (lw_profiles w). map_of (lw_profiles w) n = Some e \<and> (\<forall>p. e = Some p \<longrightarrow> profile_ok p)"
      using s by (auto simp: store_ok_def)
    show "well_named (lw_profiles w)" using s by (simp add: store_ok_def well_named_def profile_ok_def)
    show "\<forall>n. n \<notin> fst ` set (lw_profiles w) \<longrightarrow> linked (lw_profiles w) n"
      by (simp add: linked_def flip: map_of_eq_None_iff)
  qed
  moreover have "\<forall>(k, j) \<in> set (lw_jobs w). check_loaded_job ps j = Some ()"
    using map_run_each[OF us] by auto
  ultimately show ?thesis using assms(2) by (simp add: checked_def w' loading_ok_def)
qed

subsection \<open>Releasing\<close>

definition release_unreferenced :: "string \<Rightarrow> loaded_workload \<Rightarrow> loaded_workload" where
  "release_unreferenced n w = (if use_count n w < 2 then w\<lparr>lw_profiles := AList.update n None (lw_profiles w)\<rparr> else w)"

lemma remove_unreferenced_fold:
  "remove_unreferenced_profiles w = fold release_unreferenced (map fst (lw_profiles w)) w"
  by (simp add: remove_unreferenced_profiles_def release_unreferenced_def[abs_def])

text \<open>A profile in memory that is counted once has no job and no composed profile that points to it.\<close>

lemma use_count_once:
  assumes "use_count n w < 2" "held (lw_profiles w) n"
  shows "\<forall>(k, j) \<in> set (lw_jobs w). lj_profile j \<noteq> n"
    and "\<forall>(m, e) \<in> set (lw_profiles w). pointers_of n e = 0"
proof -
  obtain p where "map_of (lw_profiles w) n = Some (Some p)" using assms(2) by (auto simp: held_def)
  then have "length (filter (\<lambda>(i, j). lj_profile j = n) (lw_jobs w)) = 0"
      "sum_list (map (\<lambda>(m, e). pointers_of n e) (lw_profiles w)) = 0"
    using assms(1) by (auto simp: use_count_def)
  then show "\<forall>(k, j) \<in> set (lw_jobs w). lj_profile j \<noteq> n"
      "\<forall>(m, e) \<in> set (lw_profiles w). pointers_of n e = 0"
    by (auto simp: filter_empty_conv)
qed

lemma pointers_positive:
  assumes "m \<in> set (qd_profile_sequence q)" "pr_data p = Sequence_Data q" shows "pointers_of m (Some p) \<noteq> 0"
  using assms by (auto simp: pointers_of_def filter_empty_conv)

lemma release_checked:
  assumes "checked w" shows "checked (release_unreferenced n w)"
proof (cases "use_count n w < 2")
  case True
  let ?ps = "lw_profiles w" and ?ps' = "AList.update n None (lw_profiles w)"
  have jobs: "lj_profile j \<noteq> n" if "(k, j) \<in> set (lw_jobs w)" for k j
  proof
    assume n: "lj_profile j = n"
    then have "check_loaded_job ?ps j = Some ()" using assms that by (auto simp: checked_def)
    then have "held ?ps n" using n by (auto simp: check_loaded_job_def held_def split: bind_splits)
    then show False using use_count_once(1)[OF True] that n by auto
  qed
  have "linked ?ps' k" for k
    unfolding linked_def
  proof (intro allI impI)
    fix p q assume p: "map_of ?ps' k = Some (Some p)" and q: "pr_data p = Sequence_Data q"
    have k: "map_of ?ps k = Some (Some p)" using p by (auto simp: update_conv split: if_splits)
    then have l: "qd_profile_sequence q = qd_sequence q" "\<forall>m \<in> set (qd_sequence q). held ?ps m"
      using assms q by (auto simp: checked_def linked_def)
    have "m \<noteq> n" if "m \<in> set (qd_sequence q)" for m
    proof
      assume "m = n"
      moreover from this have "held ?ps n" using l(2) that by simp
      ultimately show False
        using use_count_once(2)[OF True] map_of_SomeD[OF k] pointers_positive[OF _ q, of n] l(1) that by fastforce
    qed
    then show "qd_profile_sequence q = qd_sequence q \<and> (\<forall>m \<in> set (qd_sequence q). held ?ps' m)"
      using l by (auto simp: held_def update_conv)
  qed
  moreover have "well_named ?ps'" using assms by (auto simp: checked_def well_named_def update_conv)
  moreover have "\<forall>(k, j) \<in> set (lw_jobs w). check_loaded_job ?ps' j = Some ()"
    using assms jobs by (auto simp: checked_def check_loaded_job_def update_conv)
  ultimately show ?thesis using assms True by (simp add: release_unreferenced_def checked_def)
qed (use assms in \<open>simp add: release_unreferenced_def\<close>)

lemma remove_unreferenced_checked: "checked w \<Longrightarrow> checked (remove_unreferenced_profiles w)"
  unfolding remove_unreferenced_fold by (rule fold_invariant[where Q = "\<lambda>_. True"]) (auto intro: release_checked)

subsection \<open>Workloads\<close>

lemma empty_loading_ok: "loading_ok (empty_workload\<lparr>lw_profiles := ps\<rparr>) = store_ok ps"
  by (simp add: loading_ok_def jobs_ok_def empty_workload_def)

lemma load_workload_checked:
  assumes "load_workload lx st rd al filename d = Some (st', w)" shows "checked w"
proof -
  obtain n ps w0 w1 w2 where p: "load_profiles (lx_files lx) (lx_print lx) filename d [] = Some ps"
    and j: "load_jobs lx (st\<lparr>st_num_machines := n\<rparr>) (- 1) d (empty_workload\<lparr>lw_profiles := ps\<rparr>) = Some w0"
    and a: "alter_workload lx (st\<lparr>st_num_machines := n\<rparr>) rd al w0 = Some w1"
    and c: "check_validity w1 = Some w2" and w: "w = remove_unreferenced_profiles w2"
    using assms unfolding load_workload_def Let_def by (elim run_bindE) auto
  have "store_ok ps" using load_profiles_ok[OF p] by (simp add: store_ok_def)
  then have "loading_ok w1" using alter_workload_ok[OF a] load_jobs_ok[OF j] by (simp add: empty_loading_ok)
  then show ?thesis using check_validity_checked[OF c] remove_unreferenced_checked by (simp add: w)
qed

lemma load_checkpointed_workload_checked:
  assumes "load_checkpointed_workload lx st filename d = Some (st', counts, w)" shows "checked w"
proof -
  obtain n k ps w0 w1 where p: "load_profiles (lx_files lx) (lx_print lx) filename d [] = Some ps"
    and j: "load_jobs lx (st\<lparr>st_num_machines := n\<rparr>) k d (empty_workload\<lparr>lw_profiles := ps\<rparr>) = Some w0"
    and c: "check_validity w0 = Some w1" and w: "w = remove_unreferenced_profiles w1"
    using assms unfolding load_checkpointed_workload_def Let_def by (elim run_bindE) auto
  have "store_ok ps" using load_profiles_ok[OF p] by (simp add: store_ok_def)
  then have "loading_ok w0" using load_jobs_ok[OF j] by (simp add: empty_loading_ok)
  then show ?thesis using check_validity_checked[OF c] remove_unreferenced_checked by (simp add: w)
qed

lemma checked_job:
  assumes "checked w" "(k, j) \<in> set (lw_jobs w)"
  shows "k = representation (lj_id j) \<and> job_ok j \<and>
    (\<exists>p. map_of (lw_profiles w) (lj_profile j) = Some (Some p) \<and>
      (pr_type p = PARALLEL \<longrightarrow> (\<exists>x. pr_data p = Parallel_Data x \<and> pd_nb_res x = lj_requested_nb_res j)))"
proof -
  have "map_of (lw_jobs w) k = Some j" using assms by (auto simp: checked_def jobs_ok_def)
  then have "k = representation (lj_id j) \<and> job_ok j" using assms(1) by (auto simp: checked_def jobs_ok_def)
  moreover have "check_loaded_job (lw_profiles w) j = Some ()" using assms by (auto simp: checked_def)
  ultimately show ?thesis
    by (auto simp: check_loaded_job_def split: bind_splits if_splits profile_data.splits)
qed

lemma checked_profile:
  assumes "checked w" "map_of (lw_profiles w) n = Some (Some p)"
  shows "pr_name p = n \<and> type_of_data (pr_data p) = pr_type p \<and>
    (\<forall>q. pr_data p = Sequence_Data q \<longrightarrow> qd_profile_sequence q = qd_sequence q \<and>
      (\<forall>m \<in> set (qd_sequence q). \<exists>r. map_of (lw_profiles w) m = Some (Some r)))"
  using assms unfolding checked_def well_named_def linked_def held_def by metis

text \<open>
  C30: A workload that loads, from an input or from a checkpoint, with or without alterations of its
  jobs, is sound: each job is stored once, under its own identifier, which is valid; it asks for no
  negative number of machines and has no walltime or a positive one; its profile is in memory, and
  is made for the number of machines the job asks for if it is a parallel task; each profile in
  memory is stored under its name with data of its type; and a composed profile points to the
  profiles it lists, all in memory, although the unreferenced ones were released.
\<close>
theorem loaded_workload_sound:
  assumes "load_workload lx st rd al filename d = Some (st', w) \<or>
    load_checkpointed_workload lx st filename d = Some (st', counts, w)"
  shows "distinct (map fst (lw_jobs w)) \<and>
    (\<forall>(k, j) \<in> set (lw_jobs w). k = representation (lj_id j) \<and> is_lexically_valid (lj_id j) \<and>
      0 \<le> lj_requested_nb_res j \<and> (lj_walltime j = - 1 \<or> 0 < lj_walltime j) \<and>
      (\<exists>p. map_of (lw_profiles w) (lj_profile j) = Some (Some p) \<and>
        (pr_type p = PARALLEL \<longrightarrow> (\<exists>x. pr_data p = Parallel_Data x \<and> pd_nb_res x = lj_requested_nb_res j)))) \<and>
    (\<forall>n p. map_of (lw_profiles w) n = Some (Some p) \<longrightarrow>
      pr_name p = n \<and> type_of_data (pr_data p) = pr_type p \<and>
      (\<forall>q. pr_data p = Sequence_Data q \<longrightarrow> qd_profile_sequence q = qd_sequence q \<and>
        (\<forall>m \<in> set (qd_sequence q). \<exists>r. map_of (lw_profiles w) m = Some (Some r))))"
proof -
  have c: "checked w" using assms load_workload_checked load_checkpointed_workload_checked by blast
  have d: "distinct (map fst (lw_jobs w))" using c by (simp add: checked_def jobs_ok_def)
  have j: "\<forall>(k, j) \<in> set (lw_jobs w). k = representation (lj_id j) \<and> is_lexically_valid (lj_id j) \<and>
      0 \<le> lj_requested_nb_res j \<and> (lj_walltime j = - 1 \<or> 0 < lj_walltime j) \<and>
      (\<exists>p. map_of (lw_profiles w) (lj_profile j) = Some (Some p) \<and>
        (pr_type p = PARALLEL \<longrightarrow> (\<exists>x. pr_data p = Parallel_Data x \<and> pd_nb_res x = lj_requested_nb_res j)))"
    using checked_job[OF c] by (auto simp: job_ok_def)
  show ?thesis using d j checked_profile[OF c] by (intro conjI) blast+
qed

definition demo_workload_document :: json where
  "demo_workload_document = JObject [(''nb_res'', JInt 4), (''jobs'', JArray [demo_job_document]),
     (''profiles'', JObject [(''p'', JObject [(''type'', JString ''delay''), (''delay'', JInt 10)])])]"

definition no_draws :: random_draws where
  "no_draws = \<lparr>rd_real = (\<lambda>k. 0), rd_int = (\<lambda>k. 0), rd_shuffle = (\<lambda>n. [0..<n])\<rparr>"

definition no_alterations :: alterations where
  "no_alterations = \<lparr>al_before = None, al_copy = None, al_after = None\<rparr>"

definition demo_loaded_workload :: loaded_workload where
  "demo_loaded_workload = \<lparr>lw_jobs = [(''w0!1$2'', demo_loaded_job)], lw_jobs_met = {''w0!1$2''},
     lw_profiles = [(''p'', Some (demo_profile 12 10))]\<rparr>"

lemma demo_profile_loads:
  "profile_from_json no_files (\<lambda>d. ''{}'') True f ''p'' (JObject [(''type'', JString ''delay''), (''delay'', JInt 10)]) =
   Some (demo_profile 10 0)"
  by (simp add: profile_from_json_def load_data_def load_delay_def json_simps optional_member_def demo_profile_def)

lemma demo_workload_loads:
  "load_workload demo_externals demo_settings no_draws no_alterations ''w.json'' demo_workload_document =
   Some (demo_settings, demo_loaded_workload)"
proof -
  have st: "demo_settings\<lparr>st_num_machines := 4\<rparr> = demo_settings" by (simp add: demo_settings_def)
  have r: "representation (lj_id demo_loaded_job) = ''w0!1$2''" by (simp add: demo_loaded_job_def representation_def)
  have profiles: "load_profiles (lx_files demo_externals) (lx_print demo_externals) ''w.json'' demo_workload_document [] =
      Some [(''p'', Some (demo_profile 10 0))]"
    by (simp add: load_profiles_def demo_workload_document_def demo_externals_def json_simps demo_profile_loads)
  have jobs: "load_jobs demo_externals demo_settings (- 1) demo_workload_document
      (empty_workload\<lparr>lw_profiles := [(''p'', Some (demo_profile 10 0))]\<rparr>) = Some demo_loaded_workload"
    by (simp add: load_jobs_def demo_workload_document_def json_simps load_job_entry_def demo_load[OF demo_counts(1)]
        empty_workload_def add_loaded_def r demo_loaded_workload_def)
  have valid: "check_validity demo_loaded_workload = Some demo_loaded_workload"
    by (simp add: check_validity_def demo_loaded_workload_def link_profile_def check_loaded_job_def demo_profile_def
        demo_loaded_job_def)
  have kept: "remove_unreferenced_profiles demo_loaded_workload = demo_loaded_workload"
    by (simp add: remove_unreferenced_profiles_def use_count_def demo_loaded_workload_def demo_loaded_job_def)
  have "int_member ''nb_res'' demo_workload_document = Some 4" "is_object demo_workload_document"
    by (simp_all add: demo_workload_document_def json_simps fits_int_def)
  then show ?thesis
    by (simp add: load_workload_def st profiles jobs alter_workload_def change_submits_def no_alterations_def valid kept)
qed

theorem loaded_workload_sound_witness:
  "distinct (map fst (lw_jobs demo_loaded_workload)) \<and>
   (\<exists>p. map_of (lw_profiles demo_loaded_workload) ''p'' = Some (Some p) \<and> pr_name p = ''p'')"
  using loaded_workload_sound[OF disjI1[OF demo_workload_loads]]
  by (simp add: demo_loaded_workload_def demo_profile_def)

subsection \<open>Submission times\<close>

lemma shuffled_each:
  assumes "map_run (\<lambda>(i, j). set_submission lx (lj_submission_time (old ! i)) j) ps = Some js"
  shows "map lj_submission_time js = map (\<lambda>i. lj_submission_time (old ! i)) (map fst ps)"
    "map lj_id js = map (lj_id \<circ> snd) ps"
  using assms by (induction ps arbitrary: js) (auto simp: set_submission_keeps split: bind_splits prod.splits)

text \<open>
  Shuffling the submission times gives the same jobs, in the same order, the same times: every
  time of the workload goes to exactly one job, whatever permutation the shuffle draws.
\<close>
theorem shuffle_permutes_times:
  assumes "shuffled lx rd old new = Some js" "length new = length old"
    and "mset (rd_shuffle rd (length old)) = mset [0..<length old]"
  shows "map lj_id js = map lj_id new \<and>
    mset (map lj_submission_time js) = mset (map lj_submission_time old)"
proof -
  let ?is = "rd_shuffle rd (length old)"
  have l: "length ?is = length old" using mset_eq_length[OF assms(3)] by simp
  have times: "map lj_submission_time js = map (\<lambda>i. lj_submission_time (old ! i)) ?is"
    and ids: "map lj_id js = map lj_id new"
    using shuffled_each[OF assms(1)[unfolded shuffled_def]] l assms(2) by (simp_all flip: map_map)
  have "mset (map (\<lambda>i. lj_submission_time (old ! i)) ?is) = image_mset (\<lambda>i. lj_submission_time (old ! i)) (mset [0..<length old])"
    by (simp only: mset_map assms(3))
  also have "\<dots> = mset (map (\<lambda>i. lj_submission_time (old ! i)) [0..<length old])" by (simp only: mset_map)
  also have "map (\<lambda>i. lj_submission_time (old ! i)) [0..<length old] = map lj_submission_time old"
    by (rule nth_equalityI) simp_all
  finally show ?thesis using times ids by simp
qed

definition demo_pair :: "loaded_job list" where
  "demo_pair = [demo_loaded_job, demo_loaded_job\<lparr>lj_submission_time := 5\<rparr>]"

lemma demo_shuffle:
  "shuffled demo_externals (no_draws\<lparr>rd_shuffle := (\<lambda>n. [1, 0])\<rparr>) demo_pair demo_pair =
   Some [demo_loaded_job\<lparr>lj_submission_time := 5\<rparr>, demo_loaded_job]"
proof -
  have "set_submission demo_externals x j = Some (j\<lparr>lj_submission_time := x, lj_json := ''{}''\<rparr>)" for x j
    by (simp add: set_submission_def demo_externals_def parse_doc_def demo_job_document_def set_member_def)
  then show ?thesis by (simp add: shuffled_def demo_pair_def) (simp add: demo_loaded_job_def)
qed

theorem shuffle_permutes_times_witness:
  "mset (map lj_submission_time [demo_loaded_job\<lparr>lj_submission_time := 5\<rparr>, demo_loaded_job]) =
   mset (map lj_submission_time demo_pair)"
  using shuffle_permutes_times[OF demo_shuffle]
  by (simp add: no_draws_def) (simp add: demo_pair_def add_mset_commute numeral_2_eq_2)

text \<open>With a fixed interval the times are its multiples.\<close>

lemma respaced_fixed_from:
  assumes "respaced lx rd so v (of_nat i * v, k) js = Some js'" "so_random so = ''fixed''" "0 < v"
  shows "map lj_submission_time js' = map (\<lambda>n. of_nat (Suc (i + n)) * v) [0..<length js]"
  using assms
proof (induction js arbitrary: i js')
  case (Cons j js)
  have nonneg: "0 \<le> of_nat i * v" using assms(3) by simp
  then have "of_nat i * v \<noteq> - 1" by linarith
  moreover have "v + of_nat i * v = of_nat (Suc i) * v" by (simp add: algebra_simps)
  ultimately have "next_time rd so v (of_nat i * v, k) = Some (of_nat (Suc i) * v, of_nat (Suc i) * v, k)"
    using assms(2,3) by (simp add: next_time_def Let_def)
  then obtain j' js'' where s: "set_submission lx (of_nat (Suc i) * v) j = Some j'"
      and r: "respaced lx rd so v (of_nat (Suc i) * v, k) js = Some js''" and js': "js' = j' # js''"
    using Cons.prems(1) by (auto simp del: of_nat_Suc split: bind_splits)
  have "map lj_submission_time js'' = map (\<lambda>n. of_nat (Suc (Suc i + n)) * v) [0..<length js]"
    by (rule Cons.IH[OF r assms(2,3)])
  moreover have "[0..<length (j # js)] = 0 # map Suc [0..<length js]" by (simp add: map_Suc_upt upt_conv_Cons del: upt_Suc)
  ultimately show ?case using set_submission_keeps(1)[OF s] by (simp add: js' del: upt_Suc)
qed simp

lemma respaced_fixed:
  assumes "respaced lx rd so v (- 1, k) js = Some js'" "so_random so = ''fixed''" "0 < v"
  shows "map lj_submission_time js' = map (\<lambda>n. of_nat (Suc n) * v) [0..<length js]"
proof -
  have "next_time rd so v (- 1, k) = next_time rd so v (0, k)" using assms(2,3) by (simp add: next_time_def)
  then have "respaced lx rd so v (- 1, k) js = respaced lx rd so v (of_nat 0 * v, k) js" by (cases js) simp_all
  then show ?thesis using respaced_fixed_from[of lx rd so v 0 k js js'] assms by simp
qed

end
