(* ===== verification/Spec2Isabelle.thy ===== *)
theory Spec2Isabelle
  imports Schedule_Props Schedule_Ops Fcfs Fcfs_Fast2 Easy_Fast Easy_Bf_Correct Easy_Bf3_Correct Wire Job_Names Sim_Machines_Inv Sched_Wire Sim_System
    Resubmit Sim_Workload_Inv
begin

text \<open>
  A verification library of batsched, a set of C++ job schedulers, and of batsim, the simulator of
  computing platforms they drive.  The two programs are separate processes: batsim sends the events
  of the simulation as a JSON message, batsched answers with its decisions, batsim applies them.

  \<^bold>\<open>Common vocabulary.\<close>
  \<^item> \<open>Prelude\<close>: runs of code that may stop on a failed assertion (\<open>None\<close>), loops over containers,
    stable sorting, joining of strings.
  \<^item> \<open>Locality\<close>: jobs (\<^verbatim>\<open>json_workload.hpp\<close>), the external interval library as a parameter with its
    laws (locale \<open>interval_set\<close>), the resource selectors of \<^verbatim>\<open>locality.cpp\<close> and their contract
    (locale \<open>resource_selector\<close>, and \<open>greedy_selector\<close> for those that accept whatever fits).
  \<^item> \<open>Json\<close>: JSON documents with the accesses the JSON library checks, \<^verbatim>\<open>std::to_string\<close> and
    \<^verbatim>\<open>std::stoi\<close>, the text form of machine sets (locale \<open>hyphen_codec\<close>).

  \<^bold>\<open>The schedule of batsched\<close> (\<^verbatim>\<open>schedule.cpp\<close>).
  \<^item> \<open>Profile\<close>: time slices, the schedule, its queries, \<^verbatim>\<open>split_slice\<close>.
    \<open>Profile_Inv\<close>: the invariant \<open>schedule_ok\<close> (slices adjacent, free and held machines a partition,
    counters exact) and the abstract view of a profile, who holds which machines when.
  \<^item> \<open>First_Fit\<close>: insertion of a job at the first place it fits, the waiting-time query.
    \<open>First_Fit_Correct\<close>: the insertion keeps the invariant and gives the job its machines for
    its walltime, and nothing else changes.
  \<^item> \<open>Remove\<close>: removal of a job with the merging of slices.  \<open>Schedule_Safety\<close>: the schedule as a
    state machine; no machine is ever held twice.  \<open>Schedule_Props\<close>: earliest place, totality,
    round trip of insertion and removal, equivalence with the query.
  \<^item> \<open>Schedule_Ops\<close>: machines under repair, reservations, clock advance, queries on running jobs.

  \<^bold>\<open>Queue, decisions, failures of batsched.\<close>
  \<^item> \<open>Job_Queue\<close>: the nine orders and the queue (\<^verbatim>\<open>queue.cpp\<close>).
  \<^item> \<open>Decision\<close>: the decisions of a scheduler and the protocol writer that records them
    (\<^verbatim>\<open>decision.cpp\<close>, \<^verbatim>\<open>protocol.cpp\<close>).
  \<^item> \<open>Resubmit\<close>: the resubmission of killed jobs (\<^verbatim>\<open>decision.cpp\<close>): their next name, the edits of
    their documents, the time a restarted job still has to run.
  \<^item> \<open>Failures\<close>: the failure injection the schedulers share, where what the random generators draw
    is a parameter.
  \<^item> \<open>Pool\<close>: the partition of the machines into free ones and those of running jobs.

  \<^bold>\<open>Schedulers of batsched.\<close>
  \<^item> \<open>Fcfs\<close>: \<^verbatim>\<open>fcfs.cpp\<close> and \<^verbatim>\<open>fcfs_fast.cpp\<close>; order, equivalence, no idling.
  \<^item> \<open>Fcfs_Fast2\<close>: \<^verbatim>\<open>fcfs_fast2.cpp\<close>, with shared machines, repairs and resubmissions; without any of
    these it decides as \<^verbatim>\<open>fcfs_fast.cpp\<close> does.
  \<^item> \<open>Easy_Fast\<close>: \<^verbatim>\<open>easy_bf_fast.cpp\<close>; safety of the decisions, the promise to the priority job.
  \<^item> \<open>Schedule_Room\<close>, \<open>Waiting\<close>: what the schedulers that work on a schedule share, the room left for
    jobs and the list of waiting jobs.
  \<^item> \<open>Easy_Bf\<close>: \<^verbatim>\<open>easy_bf.cpp\<close>.  \<open>Easy_Bf_Correct\<close>: its decisions are the abstract policy, the
    priority job is never delayed.
  \<^item> \<open>Heap_Schedule\<close>: the copy of the running jobs \<^verbatim>\<open>easy_bf3.cpp\<close> keeps and its heap sort.
    \<open>Easy_Bf3\<close>: the scheduler.  \<open>Easy_Bf3_Correct\<close>: its decisions, the date it promises, and a run
    in which it starts more jobs than the machines carry.

  \<^bold>\<open>The protocol between the programs.\<close>
  \<^item> \<open>Sched_Protocol\<close>: the JSON form of the decisions, as batsched writes it.
  \<^item> \<open>Sched_Workload\<close>: the jobs batsched reads from the messages (\<^verbatim>\<open>json_workload.cpp\<close>).
    \<open>Sched_Main\<close>: its loop over the messages, one branch per type of event (\<^verbatim>\<open>main.cpp\<close>,
    \<^verbatim>\<open>isalgorithm.cpp\<close>).  \<open>Sched_Wire\<close>: what each operation of the simulator's writer means to the
    scheduler, the operations it aborts on included, and that its loop carries out just that.
  \<^item> \<open>Sim_Context\<close>: job identifiers, job states, jobs, profiles and workloads of batsim
    (\<^verbatim>\<open>jobs.cpp\<close>, \<^verbatim>\<open>workload.cpp\<close>, \<^verbatim>\<open>profiles.cpp\<close>).  \<open>Job_Names\<close>: round trips of their names.
  \<^item> \<open>Sim_Reader\<close>, \<open>Sim_Writer\<close>: batsim's reader, one handler per type of event, and its writer
    (\<^verbatim>\<open>protocol.cpp\<close> of batsim).  \<open>Wire\<close>: what is decided is what the server hears.

  \<^bold>\<open>The inputs of the simulator.\<close>
  \<^item> \<open>Sim_Profiles\<close>: the data of profiles and their loading with its checks (\<^verbatim>\<open>profiles.cpp\<close>).
  \<^item> \<open>Sim_Loading\<close>: the loading of jobs, their checkpoints and the changes to the profiles they share
    (\<^verbatim>\<open>jobs.cpp\<close>).  \<open>Sim_Loading_Correct\<close>: the time checkpoints add, what sharing does to it, the
    identifier in the descriptions.
  \<^item> \<open>Sim_Workload\<close>: the loading of a workload, copies of its jobs, new submission times, the final
    checks, the release of profiles (\<^verbatim>\<open>workload.cpp\<close>).  \<open>Sim_Workload_Inv\<close>: the invariant of all
    these steps, and what holds of every workload that loads.

  \<^bold>\<open>The simulator.\<close>
  \<^item> \<open>Sim_Machines\<close>: machines, their states, time accounts, permissions and switches
    (\<^verbatim>\<open>machines.cpp\<close>, \<^verbatim>\<open>permissions.cpp\<close>, \<^verbatim>\<open>pstate.cpp\<close>).  \<open>Sim_Machines_Inv\<close>: what holds after
    any history of their operations, with the machines whose switch ended while a job or a failure
    was on them set apart; a switch of several machines is announced once.
  \<^item> \<open>Sim_Server\<close>: the state of the server, its handlers and its loop (\<^verbatim>\<open>server.cpp\<close>).
    \<open>Sim_Execution\<close>: what the actors that run and kill jobs do to that state
    (\<^verbatim>\<open>jobs_execution.cpp\<close>).
  \<^item> \<open>Sim_Books\<close>, \<open>Sim_Accounts\<close>: the counts of submitted, completed and running jobs, handler by
    handler.  \<open>Sim_Moves\<close>: the states each step moves jobs between, the kills it asks for and the
    actors it creates.  \<open>Sim_Sound\<close>: the invariant of the server with the executors, the reports on
    their way, the kills under way and the jobs still to submit.
  \<^item> \<open>Sim_System\<close>: the server, its mailbox, executors, killers and submitters as one state machine:
    whatever the order of its steps the counts are exact, no end is reported twice, a finished
    simulation has no job left, and the server then stops.  Of the scheduler it is supposed
    (\<open>trusted\<close>) that it decides on no job it registers itself before the registration, changes the
    state of no job that it has handed to an executor, and declares no job killed; the server checks
    none of this, and \<open>end_counted_twice\<close> shows what happens otherwise.

  \<^bold>\<open>Representations.\<close>  \<^verbatim>\<open>Rational\<close> is exact and is \<open>rat\<close>; a \<^verbatim>\<open>double\<close> is the rational it denotes
  and its rounding is left out, but for the answer of \<^verbatim>\<open>query_wait\<close>, whose conversion is a parameter.  An \<^verbatim>\<open>IntervalSet\<close> is the set of its machines.  A pointer to a job
  is the job, compared by its identifier.  Iterators are positions.  A \<^verbatim>\<open>std::map\<close> is the list of
  its entries in order, or a function to options where the order is not observed.  Counters are
  \<open>int\<close>: no run comes near their bounds.  Loops are structural recursions over the rest of the
  container; removing a composed profile, whose data could be cyclic, is a partial function.  No
  loop takes fuel.

  \<^bold>\<open>Not modelled.\<close>
  \<^item> \<^verbatim>\<open>easy_bf2.cpp\<close>, \<^verbatim>\<open>conservative_bf.cpp\<close>, \<^verbatim>\<open>easy_bf_fast2.cpp\<close> and its holdback variant: they
    repeat the modelled schedulers and add checkpoint files, statistics and reservations around them.
  \<^item> The energy schedulers and the test schedulers: disabled in \<^verbatim>\<open>main.cpp\<close> at this commit.
  \<^item> The simulation kernel (SimGrid) and the execution of tasks on it: another program.
  \<^item> The loading of platforms, the writing of checkpoint files, command lines, sockets, Redis, CSV,
    Paje and SVG outputs, logs: input and output around the modelled code.
  \<^item> Vendored code (argument parsing, RapidJSON, interval sets) and the analysis scripts.
\<close>

end
